(* ===== verification/Prelude.thy ===== *)
theory Prelude
  imports Complex_Main "HOL-Library.AList" "HOL-Library.Sublist"
    "HOL-Library.List_Lexorder" "HOL-Library.Char_ord" "HOL-Library.Product_Lexorder"
begin

text \<open>
  The prelude of the development: the fact collections the component theories fill, the
  Python values that cross the program (floats with their infinities and NaN, JSON values,
  the texts Redis stores), the string operations of Python the code uses, the exceptions, and
  the state-and-exception actions that stateful code is written in.

  A Python \<open>float\<close> is an exact rational, an infinity or NaN: comparisons are the ones of the
  code, and rounding of arithmetic is not modelled. Text is a list of characters; only ASCII
  strings occur in the code that is modelled.
\<close>

named_theorems py_simps \<open>evaluation of the Python-level helpers\<close>
named_theorems act_simps \<open>evaluation of actions\<close>
named_theorems pres_intros \<open>what keeps an invariant of the state\<close>

section \<open>Lists\<close>

lemma take_drop_mem: "x \<in> set xs \<longleftrightarrow> x \<in> set (take n xs) \<or> x \<in> set (drop n xs)"
  by (metis Un_iff append_take_drop_id set_append)

lemma distinct_take_drop_disjoint: "distinct xs \<Longrightarrow> set (take n xs) \<inter> set (drop n xs) = {}"
  by (metis append_take_drop_id distinct_append)

lemma map_of_Some_set: "map_of xs k = Some v \<Longrightarrow> (k, v) \<in> set xs"
  by (rule map_of_SomeD)

lemma filter_eq_ConsE:
  assumes "filter P xs = y # ys"
  obtains us vs where "xs = us @ y # vs" "\<forall>u\<in>set us. \<not> P u" "P y" "ys = filter P vs"
  using assms by (auto simp: filter_eq_Cons_iff)

lemma sorted_key_take_drop:
  assumes "sorted (map f xs)" "x \<in> set (take n xs)" "y \<in> set (drop n xs)"
  shows "f x \<le> f y"
proof -
  have "map f xs = map f (take n xs) @ map f (drop n xs)"
    by (metis append_take_drop_id map_append)
  then have "sorted (map f (take n xs) @ map f (drop n xs))" using assms(1) by simp
  then show ?thesis using assms(2,3) by (auto simp: sorted_append)
qed

section \<open>Python floats\<close>

datatype pyfloat = Fin rat | PInf | NInf | NaN

fun fl_less :: "pyfloat \<Rightarrow> pyfloat \<Rightarrow> bool" where
  "fl_less NaN _ = False"
| "fl_less _ NaN = False"
| "fl_less (Fin a) (Fin b) = (a < b)"
| "fl_less (Fin _) PInf = True"
| "fl_less (Fin _) NInf = False"
| "fl_less PInf _ = False"
| "fl_less NInf NInf = False"
| "fl_less NInf _ = True"

definition fl_le :: "pyfloat \<Rightarrow> pyfloat \<Rightarrow> bool" where
  "fl_le a b \<longleftrightarrow> fl_less a b \<or> (a = b \<and> a \<noteq> NaN)"

text \<open>The sort key of a float: Python sorts by \<open><\<close>; a NaN, which Python's sort leaves anywhere, goes last.\<close>

fun fl_key :: "pyfloat \<Rightarrow> nat \<times> rat" where
  "fl_key NInf = (0, 0)"
| "fl_key (Fin q) = (1, q)"
| "fl_key PInf = (2, 0)"
| "fl_key NaN = (3, 0)"

lemma fl_less_irrefl [simp]: "\<not> fl_less a a"
  by (cases a) auto

lemma fl_less_trans: "fl_less a b \<Longrightarrow> fl_less b c \<Longrightarrow> fl_less a c"
  by (cases a; cases b; cases c) auto

lemma fl_less_asym: "fl_less a b \<Longrightarrow> \<not> fl_less b a"
  by (cases a; cases b) auto

lemma fl_le_Fin [simp]: "fl_le (Fin a) (Fin b) \<longleftrightarrow> a \<le> b"
  by (auto simp: fl_le_def)

lemma fl_le_NaN [simp]: "\<not> fl_le NaN b" "\<not> fl_le a NaN"
  by (cases a; auto simp: fl_le_def)+

lemma fl_less_key: "fl_less a b \<Longrightarrow> fl_key a < fl_key b"
  by (cases a; cases b) auto

lemma fl_not_less_le: "a \<noteq> NaN \<Longrightarrow> b \<noteq> NaN \<Longrightarrow> \<not> fl_less a b \<longleftrightarrow> fl_le b a"
  by (cases a; cases b) (auto simp: fl_le_def)

lemma fl_le_trans: "fl_le a b \<Longrightarrow> fl_le b c \<Longrightarrow> fl_le a c"
  by (cases a; cases b; cases c) (auto simp: fl_le_def)

lemma fl_less_le_trans: "fl_less a b \<Longrightarrow> fl_le b c \<Longrightarrow> fl_less a c"
  by (cases a; cases b; cases c) (auto simp: fl_le_def)

lemma fl_le_less_trans: "fl_le a b \<Longrightarrow> fl_less b c \<Longrightarrow> fl_less a c"
  by (cases a; cases b; cases c) (auto simp: fl_le_def)

text \<open>Python's \<open>min\<close> and \<open>max\<close> of a non-empty sequence: a later element replaces the one kept
  only when it compares strictly.\<close>

fun fl_min :: "pyfloat \<Rightarrow> pyfloat list \<Rightarrow> pyfloat" where
  "fl_min m [] = m"
| "fl_min m (x # xs) = fl_min (if fl_less x m then x else m) xs"

fun fl_max :: "pyfloat \<Rightarrow> pyfloat list \<Rightarrow> pyfloat" where
  "fl_max m [] = m"
| "fl_max m (x # xs) = fl_max (if fl_less m x then x else m) xs"

lemma fl_min_le_start: "m \<noteq> NaN \<Longrightarrow> \<forall>x\<in>set xs. x \<noteq> NaN \<Longrightarrow> fl_le (fl_min m xs) m"
proof (induction xs arbitrary: m)
  case (Cons x xs)
  show ?case
  proof (cases "fl_less x m")
    case True
    with Cons have "fl_le (fl_min x xs) x" by simp
    moreover have "fl_le x m" using True by (simp add: fl_le_def)
    ultimately have "fl_le (fl_min x xs) m" by (rule fl_le_trans)
    with True show ?thesis by simp
  next
    case False
    with Cons show ?thesis by simp
  qed
qed (auto simp: fl_le_def)

lemma fl_min_le: "m \<noteq> NaN \<Longrightarrow> \<forall>x\<in>set xs. x \<noteq> NaN \<Longrightarrow> x \<in> set xs \<Longrightarrow> fl_le (fl_min m xs) x"
proof (induction xs arbitrary: m)
  case (Cons y xs)
  let ?m = "if fl_less y m then y else m"
  have nn: "?m \<noteq> NaN" using Cons.prems by auto
  show ?case
  proof (cases "x = y")
    case True
    have "fl_le (fl_min ?m xs) ?m" using nn Cons.prems fl_min_le_start by auto
    moreover have "fl_le ?m y"
      using Cons.prems fl_not_less_le[of y m] by (auto simp: fl_le_def)
    ultimately have "fl_le (fl_min ?m xs) y" by (rule fl_le_trans)
    with True show ?thesis by simp
  next
    case False
    with Cons nn show ?thesis by simp
  qed
qed simp

lemma fl_max_ge_start: "m \<noteq> NaN \<Longrightarrow> \<forall>x\<in>set xs. x \<noteq> NaN \<Longrightarrow> fl_le m (fl_max m xs)"
proof (induction xs arbitrary: m)
  case (Cons x xs)
  show ?case
  proof (cases "fl_less m x")
    case True
    with Cons have "fl_le x (fl_max x xs)" by simp
    with True have "fl_le m (fl_max x xs)" using fl_le_trans[of m x] by (simp add: fl_le_def)
    with True show ?thesis by simp
  next
    case False
    with Cons show ?thesis by simp
  qed
qed (auto simp: fl_le_def)

lemma fl_max_ge: "m \<noteq> NaN \<Longrightarrow> \<forall>x\<in>set xs. x \<noteq> NaN \<Longrightarrow> x \<in> set xs \<Longrightarrow> fl_le x (fl_max m xs)"
proof (induction xs arbitrary: m)
  case (Cons y xs)
  let ?m = "if fl_less m y then y else m"
  have nn: "?m \<noteq> NaN" using Cons.prems by auto
  show ?case
  proof (cases "x = y")
    case True
    have "fl_le ?m (fl_max ?m xs)" using nn Cons.prems fl_max_ge_start by auto
    moreover have "fl_le y ?m"
      using Cons.prems fl_not_less_le[of m y] by (auto simp: fl_le_def)
    ultimately have "fl_le y (fl_max ?m xs)" using fl_le_trans by blast
    with True show ?thesis by simp
  next
    case False
    with Cons nn show ?thesis by simp
  qed
qed simp

lemma fl_min_in: "fl_min m xs \<in> insert m (set xs)"
  by (induction xs arbitrary: m) (auto split: if_splits)

lemma fl_max_in: "fl_max m xs \<in> insert m (set xs)"
  by (induction xs arbitrary: m) (auto split: if_splits)

section \<open>Python values and Redis texts\<close>

datatype val =
    VNone
  | VBool bool
  | VInt int
  | VFloat pyfloat
  | VStr string
  | VList "val list"
  | VDict "(string \<times> val) list"
  | VTime int "int option"

type_synonym dict = "(string \<times> val) list"

text \<open>
  A text, as Redis stores it: a JSON document (a number written by \<open>str\<close> is one) or a text
  that is not JSON, kept as it is. \<open>Doc v\<close> is the text \<open>json.dumps(v)\<close>. Names, ids and
  addresses are \<open>Raw\<close>.
\<close>

datatype rtext = Raw string | Doc val

fun num_of :: "val \<Rightarrow> pyfloat option" where
  "num_of (VInt i) = Some (Fin (of_int i))"
| "num_of (VFloat f) = Some f"
| "num_of _ = None"

fun truthy :: "val \<Rightarrow> bool" where
  "truthy VNone = False"
| "truthy (VBool b) = b"
| "truthy (VInt i) = (i \<noteq> 0)"
| "truthy (VFloat f) = (f \<noteq> Fin 0)"
| "truthy (VStr s) = (s \<noteq> [])"
| "truthy (VList xs) = (xs \<noteq> [])"
| "truthy (VDict d) = (d \<noteq> [])"
| "truthy (VTime t z) = True"

text \<open>\<open>raw or default\<close> and \<open>if raw\<close>: only the empty text is false.\<close>

definition text_truthy :: "rtext \<Rightarrow> bool" where
  "text_truthy t \<longleftrightarrow> t \<noteq> Raw []"

definition opt_truthy :: "rtext option \<Rightarrow> bool" where
  "opt_truthy t \<longleftrightarrow> (case t of None \<Rightarrow> False | Some x \<Rightarrow> text_truthy x)"

text \<open>\<open>d.get(k)\<close> and \<open>d.get(k, default)\<close>.\<close>

definition dget :: "dict \<Rightarrow> string \<Rightarrow> val" where
  "dget d k = (case map_of d k of None \<Rightarrow> VNone | Some v \<Rightarrow> v)"

definition dget_or :: "dict \<Rightarrow> string \<Rightarrow> val \<Rightarrow> val" where
  "dget_or d k dflt = (case map_of d k of None \<Rightarrow> dflt | Some v \<Rightarrow> v)"

definition dhas :: "dict \<Rightarrow> string \<Rightarrow> bool" where
  "dhas d k \<longleftrightarrow> map_of d k \<noteq> None"

text \<open>\<open>x or y\<close> on values.\<close>

definition val_or :: "val \<Rightarrow> val \<Rightarrow> val" where
  "val_or a b = (if truthy a then a else b)"

lemma dget_update [simp]:
  "dget (AList.update k v d) k' = (if k' = k then v else dget d k')"
  by (simp add: dget_def update_conv')

lemma dget_or_update [simp]:
  "dget_or (AList.update k v d) k' w = (if k' = k then v else dget_or d k' w)"
  by (simp add: dget_or_def update_conv')

text \<open>\<open>int(text)\<close> and \<open>float(text)\<close> of a stored text; \<open>None\<close> is the \<open>ValueError\<close>.\<close>

fun int_text :: "rtext \<Rightarrow> int option" where
  "int_text (Doc (VInt i)) = Some i"
| "int_text _ = None"

fun float_text :: "rtext \<Rightarrow> pyfloat option" where
  "float_text (Doc (VInt i)) = Some (Fin (of_int i))"
| "float_text (Doc (VFloat f)) = Some f"
| "float_text _ = None"

fun loads :: "rtext \<Rightarrow> val option" where
  "loads (Doc v) = Some v"
| "loads (Raw _) = None"

section \<open>Exceptions and actions\<close>

datatype exn =
    ValueError string
  | KeyError string
  | TypeError string
  | RuntimeError string
  | RedisError string
  | ForeignContainerError string
  | TimeoutError string
  | StopIteration string
  | AttributeError string
  | ZeroDivisionError
  | OverflowError
  | AgentCallError string

text \<open>\<open>str(e)\<close>.\<close>

definition exn_str :: "exn \<Rightarrow> string" where
  "exn_str e = (case e of ValueError s \<Rightarrow> s | KeyError s \<Rightarrow> s | TypeError s \<Rightarrow> s | RuntimeError s \<Rightarrow> s
     | RedisError s \<Rightarrow> s | ForeignContainerError s \<Rightarrow> s | TimeoutError s \<Rightarrow> s | StopIteration s \<Rightarrow> s
     | AttributeError s \<Rightarrow> s | ZeroDivisionError \<Rightarrow> ''division by zero''
     | OverflowError \<Rightarrow> ''int too large to convert to float'' | AgentCallError s \<Rightarrow> s)"

text \<open>
  An action reads and writes the state and returns a value or raises. The state is kept when
  an exception is raised, as the writes made before it are.
\<close>

type_synonym ('s, 'a) act = "'s \<Rightarrow> (exn + 'a) \<times> 's"

definition ret :: "'a \<Rightarrow> ('s, 'a) act" where
  "ret a = (\<lambda>s. (Inr a, s))"

definition raise :: "exn \<Rightarrow> ('s, 'a) act" where
  "raise e = (\<lambda>s. (Inl e, s))"

definition bnd :: "('s, 'a) act \<Rightarrow> ('a \<Rightarrow> ('s, 'b) act) \<Rightarrow> ('s, 'b) act" where
  "bnd m f = (\<lambda>s. case m s of (Inl e, s') \<Rightarrow> (Inl e, s') | (Inr a, s') \<Rightarrow> f a s')"

definition read_st :: "('s \<Rightarrow> 'a) \<Rightarrow> ('s, 'a) act" where
  "read_st f = (\<lambda>s. (Inr (f s), s))"

definition modify_st :: "('s \<Rightarrow> 's) \<Rightarrow> ('s, unit) act" where
  "modify_st f = (\<lambda>s. (Inr (), f s))"

definition of_res :: "exn + 'a \<Rightarrow> ('s, 'a) act" where
  "of_res r = (\<lambda>s. (r, s))"

text \<open>\<open>try: m except Exception as e: h(e)\<close>.\<close>

definition catch :: "('s, 'a) act \<Rightarrow> (exn \<Rightarrow> ('s, 'a) act) \<Rightarrow> ('s, 'a) act" where
  "catch m h = (\<lambda>s. case m s of (Inl e, s') \<Rightarrow> h e s' | (Inr a, s') \<Rightarrow> (Inr a, s'))"

text \<open>\<open>try: m finally: c\<close>; an exception of \<open>c\<close> replaces the result.\<close>

definition finally_do :: "('s, 'a) act \<Rightarrow> ('s, unit) act \<Rightarrow> ('s, 'a) act" where
  "finally_do m c = (\<lambda>s. case m s of (res, s') \<Rightarrow>
     (case c s' of (Inl e, s'') \<Rightarrow> (Inl e, s'') | (Inr _, s'') \<Rightarrow> (res, s'')))"

text \<open>\<open>for x in xs: f(x)\<close>; an exception leaves the loop.\<close>

fun for_each :: "'a list \<Rightarrow> ('a \<Rightarrow> ('s, unit) act) \<Rightarrow> ('s, unit) act" where
  "for_each [] f = ret ()"
| "for_each (x # xs) f = bnd (f x) (\<lambda>_. for_each xs f)"

text \<open>A loop that collects the results.\<close>

fun map_each :: "'a list \<Rightarrow> ('a \<Rightarrow> ('s, 'b) act) \<Rightarrow> ('s, 'b list) act" where
  "map_each [] f = ret []"
| "map_each (x # xs) f = bnd (f x) (\<lambda>y. bnd (map_each xs f) (\<lambda>ys. ret (y # ys)))"

text \<open>A loop with an accumulator.\<close>

fun fold_each :: "'a list \<Rightarrow> 'b \<Rightarrow> ('a \<Rightarrow> 'b \<Rightarrow> ('s, 'b) act) \<Rightarrow> ('s, 'b) act" where
  "fold_each [] b f = ret b"
| "fold_each (x # xs) b f = bnd (f x b) (\<lambda>b'. fold_each xs b' f)"

lemma ret_run [act_simps]: "ret a s = (Inr a, s)"
  by (simp add: ret_def)

lemma raise_run [act_simps]: "raise e s = (Inl e, s)"
  by (simp add: raise_def)

lemma read_run [act_simps]: "read_st f s = (Inr (f s), s)"
  by (simp add: read_st_def)

lemma modify_run [act_simps]: "modify_st f s = (Inr (), f s)"
  by (simp add: modify_st_def)

lemma of_res_run [act_simps]: "of_res r s = (r, s)"
  by (simp add: of_res_def)

lemma bnd_run [act_simps]:
  "bnd m f s = (case m s of (Inl e, s') \<Rightarrow> (Inl e, s') | (Inr a, s') \<Rightarrow> f a s')"
  by (simp add: bnd_def)

lemma bnd_Inr: "m s = (Inr a, s') \<Longrightarrow> bnd m f s = f a s'"
  by (simp add: bnd_def)

lemma bnd_Inl: "m s = (Inl e, s') \<Longrightarrow> bnd m f s = (Inl e, s')"
  by (simp add: bnd_def)

lemma catch_run [act_simps]:
  "catch m h s = (case m s of (Inl e, s') \<Rightarrow> h e s' | (Inr a, s') \<Rightarrow> (Inr a, s'))"
  by (simp add: catch_def)

lemma bnd_ret [simp]: "bnd (ret a) f = f a"
  by (simp add: bnd_def ret_def)

lemma bnd_raise [simp]: "bnd (raise e) f = raise e"
  by (simp add: bnd_def raise_def)

lemma bnd_InrD: "bnd m f w = (Inr x, w') \<Longrightarrow> \<exists>a w1. m w = (Inr a, w1) \<and> f a w1 = (Inr x, w')"
  by (auto simp: bnd_def split: prod.splits sum.splits)

lemma bnd_InrE:
  assumes "bnd m f w = (Inr x, w')"
  obtains a w1 where "m w = (Inr a, w1)" "f a w1 = (Inr x, w')"
  using bnd_InrD[OF assms] by blast

text \<open>
  \<open>keeps P m\<close>: the action keeps \<open>P\<close>, whether it returns or raises. It is closed under
  everything actions are built from, so an invariant of an operation is an invariant of its
  primitive writes.
\<close>

definition keeps :: "('s \<Rightarrow> bool) \<Rightarrow> ('s, 'a) act \<Rightarrow> bool" where
  "keeps P m \<longleftrightarrow> (\<forall>s. P s \<longrightarrow> P (snd (m s)))"

lemma keepsD: "keeps P m \<Longrightarrow> P s \<Longrightarrow> P (snd (m s))"
  by (simp add: keeps_def)

lemma keepsI: "(\<And>s. P s \<Longrightarrow> P (snd (m s))) \<Longrightarrow> keeps P m"
  by (simp add: keeps_def)

lemma keeps_ret [pres_intros]: "keeps P (ret a)"
  by (simp add: keeps_def ret_def)

lemma keeps_raise [pres_intros]: "keeps P (raise e)"
  by (simp add: keeps_def raise_def)

lemma keeps_read [pres_intros]: "keeps P (read_st f)"
  by (simp add: keeps_def read_st_def)

lemma keeps_of_res [pres_intros]: "keeps P (of_res r)"
  by (simp add: keeps_def of_res_def)

lemma keeps_modify: "(\<And>s. P s \<Longrightarrow> P (f s)) \<Longrightarrow> keeps P (modify_st f)"
  by (simp add: keeps_def modify_st_def)

lemma keeps_bnd [pres_intros]:
  assumes "keeps P m" "\<And>a. keeps P (f a)"
  shows "keeps P (bnd m f)"
proof (rule keepsI)
  fix s assume "P s"
  with assms(1) have "P (snd (m s))" by (rule keepsD)
  with assms(2) show "P (snd (bnd m f s))"
    by (auto simp: bnd_def keeps_def split: prod.split sum.split)
qed

lemma keeps_catch [pres_intros]:
  assumes "keeps P m" "\<And>e. keeps P (h e)"
  shows "keeps P (catch m h)"
proof (rule keepsI)
  fix s assume "P s"
  with assms(1) have "P (snd (m s))" by (rule keepsD)
  with assms(2) show "P (snd (catch m h s))"
    by (auto simp: catch_def keeps_def split: prod.split sum.split)
qed

lemma keeps_finally [pres_intros]:
  assumes "keeps P m" "keeps P c"
  shows "keeps P (finally_do m c)"
proof (rule keepsI)
  fix s assume "P s"
  with assms(1) have "P (snd (m s))" by (rule keepsD)
  with assms(2) have "P (snd (c (snd (m s))))" by (rule keepsD)
  then show "P (snd (finally_do m c s))"
    by (auto simp: finally_do_def split: prod.splits sum.splits)
qed

lemma keeps_if [pres_intros]:
  "(b \<Longrightarrow> keeps P m) \<Longrightarrow> (\<not> b \<Longrightarrow> keeps P n) \<Longrightarrow> keeps P (if b then m else n)"
  by simp

lemma keeps_for_each [pres_intros]: "(\<And>x. x \<in> set xs \<Longrightarrow> keeps P (f x)) \<Longrightarrow> keeps P (for_each xs f)"
  by (induction xs) (auto intro: keeps_ret keeps_bnd)

lemma keeps_map_each [pres_intros]: "(\<And>x. x \<in> set xs \<Longrightarrow> keeps P (f x)) \<Longrightarrow> keeps P (map_each xs f)"
  by (induction xs) (auto intro: keeps_ret keeps_bnd)

lemma keeps_fold_each [pres_intros]:
  "(\<And>x b. x \<in> set xs \<Longrightarrow> keeps P (f x b)) \<Longrightarrow> keeps P (fold_each xs b f)"
  by (induction xs arbitrary: b) (auto intro: keeps_ret keeps_bnd)

lemma keeps_case_option [pres_intros]:
  "(x = None \<Longrightarrow> keeps P m) \<Longrightarrow> (\<And>y. x = Some y \<Longrightarrow> keeps P (n y)) \<Longrightarrow>
   keeps P (case x of None \<Rightarrow> m | Some y \<Rightarrow> n y)"
  by (cases x) auto

lemma keeps_case_prod [pres_intros]:
  "(\<And>a b. x = (a, b) \<Longrightarrow> keeps P (f a b)) \<Longrightarrow> keeps P (case x of (a, b) \<Rightarrow> f a b)"
  by (cases x) auto

lemma keeps_case_sum [pres_intros]:
  "(\<And>a. x = Inl a \<Longrightarrow> keeps P (f a)) \<Longrightarrow> (\<And>b. x = Inr b \<Longrightarrow> keeps P (g b)) \<Longrightarrow>
   keeps P (case x of Inl a \<Rightarrow> f a | Inr b \<Rightarrow> g b)"
  by (cases x) auto

text \<open>\<open>never_raises m\<close>: whatever the state, the action returns.\<close>

definition never_raises :: "('s, 'a) act \<Rightarrow> bool" where
  "never_raises m \<longleftrightarrow> (\<forall>s. \<exists>x s'. m s = (Inr x, s'))"

named_theorems calm_intros \<open>actions that never raise\<close>

lemma never_raisesD: "never_raises m \<Longrightarrow> \<exists>x s'. m s = (Inr x, s')"
  by (simp add: never_raises_def)

lemma never_raises_basic [calm_intros]:
  "never_raises (ret a)" "never_raises (read_st f)" "never_raises (modify_st g)"
  by (simp_all add: never_raises_def ret_def read_st_def modify_st_def)

lemma never_raises_bnd [calm_intros]:
  assumes "never_raises m" "\<And>a. never_raises (f a)"
  shows "never_raises (bnd m f)"
  unfolding never_raises_def
proof
  fix s
  obtain a s1 where "m s = (Inr a, s1)" using never_raisesD[OF assms(1)] by blast
  then show "\<exists>x s'. bnd m f s = (Inr x, s')" using never_raisesD[OF assms(2), of a s1] by (simp add: bnd_def)
qed

lemma never_raises_catch [calm_intros]:
  assumes "\<And>e. never_raises (h e)"
  shows "never_raises (catch m h)"
  unfolding never_raises_def
proof
  fix s
  show "\<exists>x s'. catch m h s = (Inr x, s')"
    using assms by (cases "m s"; cases "fst (m s)") (auto simp: catch_def never_raises_def)
qed

lemma never_raises_if [calm_intros]:
  "(b \<Longrightarrow> never_raises m) \<Longrightarrow> (\<not> b \<Longrightarrow> never_raises n) \<Longrightarrow> never_raises (if b then m else n)"
  by simp

lemma never_raises_case_sum [calm_intros]:
  "(\<And>a. x = Inl a \<Longrightarrow> never_raises (f a)) \<Longrightarrow> (\<And>b. x = Inr b \<Longrightarrow> never_raises (g b)) \<Longrightarrow>
   never_raises (case x of Inl a \<Rightarrow> f a | Inr b \<Rightarrow> g b)"
  by (cases x) auto

lemma never_raises_case_option [calm_intros]:
  "(x = None \<Longrightarrow> never_raises m) \<Longrightarrow> (\<And>y. x = Some y \<Longrightarrow> never_raises (n y)) \<Longrightarrow>
   never_raises (case x of None \<Rightarrow> m | Some y \<Rightarrow> n y)"
  by (cases x) auto

lemma never_raises_case_prod [calm_intros]:
  "(\<And>a b. x = (a, b) \<Longrightarrow> never_raises (f a b)) \<Longrightarrow> never_raises (case x of (a, b) \<Rightarrow> f a b)"
  by (cases x) auto

lemma never_raises_for_each [calm_intros]: "(\<And>x. never_raises (f x)) \<Longrightarrow> never_raises (for_each xs f)"
  by (induction xs) (auto intro: calm_intros)

end
