(* ===== verification/Py_Strings.thy ===== *)
theory Py_Strings
  imports Prelude
begin

text \<open>
  The string operations of Python the code uses, on ASCII strings: \<open>startswith\<close>,
  \<open>removeprefix\<close>, \<open>rsplit(sep, 1)[0]\<close>, \<open>rpartition\<close>, \<open>split(sep, 1)\<close>, \<open>strip\<close>, \<open>lower\<close>,
  \<open>str(int)\<close> and \<open>int(str)\<close>, with the facts the components use of them.
\<close>

section \<open>Prefixes and parts\<close>

definition removeprefix :: "string \<Rightarrow> string \<Rightarrow> string" where
  "removeprefix p s = (if prefix p s then drop (length p) s else s)"

lemma removeprefix_append [simp]: "removeprefix p (p @ s) = s"
  by (simp add: removeprefix_def)

text \<open>\<open>s.rsplit(c, 1)[0]\<close>: what precedes the last \<open>c\<close>, all of \<open>s\<close> when it has none.\<close>

definition rsplit_head :: "char \<Rightarrow> string \<Rightarrow> string" where
  "rsplit_head c s = (if c \<in> set s then rev (tl (dropWhile (\<lambda>x. x \<noteq> c) (rev s))) else s)"

text \<open>\<open>s.rpartition(c)\<close>, without the separator: \<open>('', s)\<close> when \<open>s\<close> has no \<open>c\<close>.\<close>

definition rpartition :: "char \<Rightarrow> string \<Rightarrow> string \<times> string" where
  "rpartition c s = (if c \<in> set s
     then (rev (tl (dropWhile (\<lambda>x. x \<noteq> c) (rev s))), rev (takeWhile (\<lambda>x. x \<noteq> c) (rev s)))
     else ([], s))"

lemma rev_split_last:
  assumes "c \<notin> set t"
  shows "dropWhile (\<lambda>x. x \<noteq> c) (rev (s @ c # t)) = c # rev s"
    and "takeWhile (\<lambda>x. x \<noteq> c) (rev (s @ c # t)) = rev t"
proof -
  have "\<forall>x\<in>set (rev t). x \<noteq> c" using assms by auto
  then show "dropWhile (\<lambda>x. x \<noteq> c) (rev (s @ c # t)) = c # rev s"
    and "takeWhile (\<lambda>x. x \<noteq> c) (rev (s @ c # t)) = rev t"
    by (auto simp: dropWhile_append takeWhile_append)
qed

lemma rsplit_head_append: "c \<notin> set t \<Longrightarrow> rsplit_head c (s @ c # t) = s"
  using rev_split_last(1)[of c t s] by (simp add: rsplit_head_def)

lemma rpartition_append: "c \<notin> set t \<Longrightarrow> rpartition c (s @ c # t) = (s, t)"
  using rev_split_last[of c t s] by (simp add: rpartition_def)

text \<open>\<open>s.split(m, 1)\<close> where \<open>m in s\<close>: what precedes and follows the first \<open>m\<close>.\<close>

fun split_first :: "string \<Rightarrow> string \<Rightarrow> (string \<times> string) option" where
  "split_first m [] = (if m = [] then Some ([], []) else None)"
| "split_first m (x # xs) =
     (if prefix m (x # xs) then Some ([], drop (length m) (x # xs))
      else map_option (\<lambda>(a, b). (x # a, b)) (split_first m xs))"

definition contains :: "string \<Rightarrow> string \<Rightarrow> bool" where
  "contains m s \<longleftrightarrow> split_first m s \<noteq> None"

lemma split_first_Some: "split_first m s = Some (a, b) \<Longrightarrow> s = a @ m @ b"
proof (induction s arbitrary: a)
  case (Cons x xs)
  show ?case
  proof (cases "prefix m (x # xs)")
    case True
    with Cons.prems show ?thesis by (auto simp: prefix_def)
  next
    case False
    with Cons.prems obtain a' where "split_first m xs = Some (a', b)" "a = x # a'"
      by auto
    with Cons.IH show ?thesis by auto
  qed
qed (auto split: if_splits)

definition is_space :: "char \<Rightarrow> bool" where
  "is_space c \<longleftrightarrow> (let n = of_char c :: nat in n = 32 \<or> (9 \<le> n \<and> n \<le> 13) \<or> (28 \<le> n \<and> n \<le> 31))"

definition strip :: "string \<Rightarrow> string" where
  "strip s = rev (dropWhile is_space (rev (dropWhile is_space s)))"

definition lower_char :: "char \<Rightarrow> char" where
  "lower_char c = (let n = of_char c :: nat in if 65 \<le> n \<and> n \<le> 90 then char_of (n + 32) else c)"

definition lower :: "string \<Rightarrow> string" where
  "lower s = map lower_char s"

definition replace_char :: "char \<Rightarrow> char \<Rightarrow> string \<Rightarrow> string" where
  "replace_char a b s = map (\<lambda>x. if x = a then b else x) s"

fun join :: "string \<Rightarrow> string list \<Rightarrow> string" where
  "join sep [] = []"
| "join sep [s] = s"
| "join sep (s # ss) = s @ sep @ join sep ss"

section \<open>Integers as text\<close>

definition digit_char :: "nat \<Rightarrow> char" where
  "digit_char d = char_of (48 + d)"

definition digit_val :: "char \<Rightarrow> nat option" where
  "digit_val c = (let n = of_char c :: nat in if 48 \<le> n \<and> n \<le> 57 then Some (n - 48) else None)"

definition is_digit :: "char \<Rightarrow> bool" where "is_digit c \<longleftrightarrow> digit_val c \<noteq> None"

lemma digit_val_char [simp]: "d < 10 \<Longrightarrow> digit_val (digit_char d) = Some d"
  by (simp add: digit_val_def digit_char_def of_char_of Let_def)

lemma digit_chars [simp]:
  "digit_char 0 = CHR ''0''" "digit_char (Suc 0) = CHR ''1''" "digit_char 1 = CHR ''1''" "digit_char 2 = CHR ''2''"
  "digit_char 3 = CHR ''3''" "digit_char 4 = CHR ''4''" "digit_char 5 = CHR ''5''"
  "digit_char 6 = CHR ''6''" "digit_char 7 = CHR ''7''" "digit_char 8 = CHR ''8''"
  "digit_char 9 = CHR ''9''"
  by code_simp+

fun str_nat :: "nat \<Rightarrow> string" where
  "str_nat n = (if n < 10 then [digit_char n] else str_nat (n div 10) @ [digit_char (n mod 10)])"

declare str_nat.simps [simp del]

definition str_int :: "int \<Rightarrow> string" where
  "str_int i = (if i < 0 then CHR ''-'' # str_nat (nat (- i)) else str_nat (nat i))"

text \<open>The digits of \<open>int(s)\<close>, with single underscores between digits; \<open>ok\<close> says the last
  character was a digit.\<close>

fun parse_digits :: "bool \<Rightarrow> nat \<Rightarrow> string \<Rightarrow> nat option" where
  "parse_digits ok acc [] = (if ok then Some acc else None)"
| "parse_digits ok acc (c # cs) =
     (case digit_val c of
        Some d \<Rightarrow> parse_digits True (10 * acc + d) cs
      | None \<Rightarrow> if c = CHR ''_'' \<and> ok then parse_digits False acc cs else None)"

definition int_str :: "string \<Rightarrow> int option" where
  "int_str s = (case strip s of
       [] \<Rightarrow> None
     | c # cs \<Rightarrow>
         if c = CHR ''-'' then map_option (\<lambda>n. - int n) (parse_digits False 0 cs)
         else if c = CHR ''+'' then map_option int (parse_digits False 0 cs)
         else map_option int (parse_digits False 0 (c # cs)))"

lemma parse_digits_append:
  "set ds \<subseteq> digit_char ` {..<10} \<Longrightarrow> ds \<noteq> [] \<Longrightarrow>
   parse_digits ok acc (ds @ cs) = parse_digits True (the (parse_digits ok acc ds)) cs"
proof (induction ds arbitrary: ok acc)
  case (Cons d ds)
  then obtain n where n: "d = digit_char n" "n < 10" by auto
  show ?case
  proof (cases "ds = []")
    case True
    with n show ?thesis by simp
  next
    case False
    with Cons n show ?thesis by simp
  qed
qed simp

lemma str_nat_digits: "set (str_nat n) \<subseteq> digit_char ` {..<10}"
proof (induction n rule: str_nat.induct)
  case (1 n)
  show ?case
  proof (cases "n < 10")
    case True
    then show ?thesis by (subst str_nat.simps) auto
  next
    case False
    with 1 show ?thesis by (subst str_nat.simps) auto
  qed
qed

lemma str_nat_nonempty [simp]: "str_nat n \<noteq> []"
  by (subst str_nat.simps) simp

lemma parse_str_nat: "parse_digits False 0 (str_nat n) = Some n"
proof (induction n rule: str_nat.induct)
  case (1 n)
  show ?case
  proof (cases "n < 10")
    case True
    then show ?thesis by (subst str_nat.simps) simp
  next
    case False
    then have "parse_digits False 0 (str_nat n)
        = parse_digits True (the (parse_digits False 0 (str_nat (n div 10)))) [digit_char (n mod 10)]"
      by (subst str_nat.simps) (simp add: parse_digits_append str_nat_digits)
    also have "\<dots> = Some n" using 1 False by simp
    finally show ?thesis .
  qed
qed

lemma digit_char_code: "d < 10 \<Longrightarrow> of_char (digit_char d) = (48 + d :: nat)"
  by (simp add: digit_char_def of_char_of)

lemma digit_not_sep:
  assumes "c \<in> set (str_nat n)"
  shows "c \<noteq> CHR '':''" "c \<noteq> CHR ''-''" "c \<noteq> CHR ''+''" "\<not> is_space c"
proof -
  from assms str_nat_digits[of n] obtain d where d: "c = digit_char d" "d < 10" by auto
  then have code: "of_char c = (48 + d :: nat)" by (simp add: digit_char_code)
  show "c \<noteq> CHR '':''" "c \<noteq> CHR ''-''" "c \<noteq> CHR ''+''"
    using code d(2) by auto
  show "\<not> is_space c" using code d(2) by (simp add: is_space_def)
qed

lemma strip_str_nat: "strip (str_nat n) = str_nat n"
proof -
  have ns: "\<forall>c\<in>set (str_nat n). \<not> is_space c" using digit_not_sep by blast
  have "dropWhile is_space (str_nat n) = str_nat n"
    using ns by (cases "str_nat n") auto
  moreover have "dropWhile is_space (rev (str_nat n)) = rev (str_nat n)"
    using ns by (cases "rev (str_nat n)") (auto simp: rev_eq_Cons_iff)
  ultimately show ?thesis by (simp add: strip_def)
qed

lemma int_str_nat [simp]: "int_str (str_nat n) = Some (int n)"
proof -
  obtain c cs where s: "str_nat n = c # cs" by (cases "str_nat n") auto
  then have "c \<noteq> CHR ''-''" "c \<noteq> CHR ''+''" using digit_not_sep[of c n] by auto
  then show ?thesis using s strip_str_nat[of n] parse_str_nat[of n]
    by (simp add: int_str_def)
qed

text \<open>An address \<open>host:port\<close> is taken apart into the two it was made of.\<close>

definition address :: "string \<Rightarrow> nat \<Rightarrow> string" where
  "address host port = host @ CHR '':'' # str_nat port"

lemma rpartition_address: "rpartition CHR '':'' (address host port) = (host, str_nat port)"
  unfolding address_def by (rule rpartition_append) (use digit_not_sep in blast)

end
