(* ===== verification/Redis_Client.thy ===== *)
theory Redis_Client
  imports Py_Strings
begin

text \<open>
  The Redis client of the runtime (\<open>controller/utils/redis_client.py\<close>): one server's keyspace
  as a record, and the client's methods as functions of it, with the semantics the methods'
  docstrings give. A key holds one type; \<open>delete\<close> removes it whatever it holds. Failures of
  the server are added where the servers are listed (theory \<open>Controller_Context\<close>).
\<close>

type_synonym hash = "(string \<times> rtext) list"

record redis =
  rd_strs :: "string \<Rightarrow> rtext option"
  rd_hashes :: "(string \<times> hash) list"
  rd_sets :: "string \<Rightarrow> string list"
  rd_lists :: "string \<Rightarrow> rtext list"
  rd_ttls :: "string \<Rightarrow> int option"

definition empty_redis :: redis where
  "empty_redis = \<lparr>rd_strs = (\<lambda>_. None), rd_hashes = [], rd_sets = (\<lambda>_. []),
     rd_lists = (\<lambda>_. []), rd_ttls = (\<lambda>_. None)\<rparr>"

section \<open>Strings and keys\<close>

definition rd_get :: "string \<Rightarrow> redis \<Rightarrow> rtext option" where
  "rd_get k r = rd_strs r k"

definition rd_exists :: "string \<Rightarrow> redis \<Rightarrow> bool" where
  "rd_exists k r \<longleftrightarrow> rd_strs r k \<noteq> None \<or> map_of (rd_hashes r) k \<noteq> None \<or>
     rd_sets r k \<noteq> [] \<or> rd_lists r k \<noteq> []"

text \<open>\<open>set(key, value, nx, ex)\<close>: a plain set drops the key's expiry, as Redis does.\<close>

definition rd_set_opts :: "string \<Rightarrow> rtext \<Rightarrow> bool \<Rightarrow> int option \<Rightarrow> redis \<Rightarrow> bool \<times> redis" where
  "rd_set_opts k v nx ex r =
     (if nx \<and> rd_exists k r then (False, r)
      else (True, r\<lparr>rd_strs := (rd_strs r)(k \<mapsto> v), rd_ttls := (rd_ttls r)(k := ex)\<rparr>))"

definition rd_set :: "string \<Rightarrow> rtext \<Rightarrow> redis \<Rightarrow> redis" where
  "rd_set k v r = snd (rd_set_opts k v False None r)"

definition rd_setnx :: "string \<Rightarrow> rtext \<Rightarrow> redis \<Rightarrow> bool \<times> redis" where
  "rd_setnx k v r = rd_set_opts k v True None r"

definition rd_delete1 :: "string \<Rightarrow> redis \<Rightarrow> redis" where
  "rd_delete1 k r = r\<lparr>rd_strs := (rd_strs r)(k := None),
     rd_hashes := AList.delete k (rd_hashes r), rd_sets := (rd_sets r)(k := []),
     rd_lists := (rd_lists r)(k := []), rd_ttls := (rd_ttls r)(k := None)\<rparr>"

fun rd_delete :: "string list \<Rightarrow> redis \<Rightarrow> redis" where
  "rd_delete [] r = r"
| "rd_delete (k # ks) r = rd_delete ks (rd_delete1 k r)"

definition rd_expire :: "string \<Rightarrow> int \<Rightarrow> bool \<Rightarrow> redis \<Rightarrow> redis" where
  "rd_expire k seconds nx r =
     (if \<not> rd_exists k r \<or> (nx \<and> rd_ttls r k \<noteq> None) then r
      else r\<lparr>rd_ttls := (rd_ttls r)(k := Some seconds)\<rparr>)"

definition rd_ttl :: "string \<Rightarrow> redis \<Rightarrow> int" where
  "rd_ttl k r = (if \<not> rd_exists k r then -2
     else case rd_ttls r k of None \<Rightarrow> -1 | Some t \<Rightarrow> t)"

section \<open>Lists\<close>

fun rd_lpush :: "string \<Rightarrow> rtext list \<Rightarrow> redis \<Rightarrow> redis" where
  "rd_lpush k [] r = r"
| "rd_lpush k (v # vs) r = rd_lpush k vs (r\<lparr>rd_lists := (rd_lists r)(k := v # rd_lists r k)\<rparr>)"

definition rd_rpop :: "string \<Rightarrow> redis \<Rightarrow> rtext option \<times> redis" where
  "rd_rpop k r = (case rev (rd_lists r k) of
       [] \<Rightarrow> (None, r)
     | v # rest \<Rightarrow> (Some v, r\<lparr>rd_lists := (rd_lists r)(k := rev rest)\<rparr>))"

text \<open>\<open>brpop\<close> of a list that is empty for the whole timeout returns \<open>None\<close>; otherwise it pops.\<close>

definition rd_brpop :: "string \<Rightarrow> redis \<Rightarrow> rtext option \<times> redis" where
  "rd_brpop k r = rd_rpop k r"

definition rd_push_capped :: "string \<Rightarrow> rtext \<Rightarrow> nat \<Rightarrow> redis \<Rightarrow> redis" where
  "rd_push_capped k v max_length r =
     (let r' = rd_lpush k [v] r
      in r'\<lparr>rd_lists := (rd_lists r')(k := take max_length (rd_lists r' k))\<rparr>)"

text \<open>\<open>LRANGE\<close>: negative bounds count from the end, and the range is cut to the list.\<close>

definition rd_lrange :: "string \<Rightarrow> int \<Rightarrow> int \<Rightarrow> redis \<Rightarrow> rtext list" where
  "rd_lrange k start stop r =
     (let xs = rd_lists r k; n = int (length xs);
          a = max 0 (if start < 0 then n + start else start);
          b = min (n - 1) (if stop < 0 then n + stop else stop)
      in if a > b then [] else take (nat (b - a + 1)) (drop (nat a) xs))"

section \<open>Hashes\<close>

definition rd_hgetall :: "string \<Rightarrow> redis \<Rightarrow> hash" where
  "rd_hgetall k r = (case map_of (rd_hashes r) k of None \<Rightarrow> [] | Some h \<Rightarrow> h)"

definition rd_hget :: "string \<Rightarrow> string \<Rightarrow> redis \<Rightarrow> rtext option" where
  "rd_hget k f r = map_of (rd_hgetall k r) f"

definition hash_put :: "hash \<Rightarrow> hash \<Rightarrow> hash" where
  "hash_put m h = foldr (\<lambda>(f, v). AList.update f v) m h"

definition rd_hset_multiple :: "string \<Rightarrow> hash \<Rightarrow> redis \<Rightarrow> redis" where
  "rd_hset_multiple k m r =
     r\<lparr>rd_hashes := AList.update k (hash_put m (rd_hgetall k r)) (rd_hashes r)\<rparr>"

definition rd_hset :: "string \<Rightarrow> string \<Rightarrow> rtext \<Rightarrow> redis \<Rightarrow> redis" where
  "rd_hset k f v r = rd_hset_multiple k [(f, v)] r"

text \<open>Removing the last field removes the key.\<close>

definition rd_hdel :: "string \<Rightarrow> string \<Rightarrow> redis \<Rightarrow> redis" where
  "rd_hdel k f r =
     (let h = AList.delete f (rd_hgetall k r)
      in if h = [] then r\<lparr>rd_hashes := AList.delete k (rd_hashes r)\<rparr>
         else r\<lparr>rd_hashes := AList.update k h (rd_hashes r)\<rparr>)"

definition rd_hincrby :: "string \<Rightarrow> string \<Rightarrow> int \<Rightarrow> redis \<Rightarrow> (exn + int) \<times> redis" where
  "rd_hincrby k f n r =
     (case rd_hget k f r of
        None \<Rightarrow> (Inr n, rd_hset k f (Doc (VInt n)) r)
      | Some t \<Rightarrow> (case int_text t of
            None \<Rightarrow> (Inl (RedisError ''hash value is not an integer''), r)
          | Some i \<Rightarrow> (Inr (i + n), rd_hset k f (Doc (VInt (i + n))) r)))"

definition rd_set_with_hash :: "string \<Rightarrow> rtext \<Rightarrow> string \<Rightarrow> hash \<Rightarrow> redis \<Rightarrow> redis" where
  "rd_set_with_hash k v name m r = rd_hset_multiple name m (rd_set k v r)"

text \<open>Keys matching \<open>p*\<close>, among the hashes: the only keys the code scans for.\<close>

definition rd_scan :: "string \<Rightarrow> redis \<Rightarrow> string list" where
  "rd_scan p r = filter (prefix p) (map fst (rd_hashes r))"

section \<open>Sets\<close>

text \<open>A set is kept as the list of its members, in the order a caller happens to iterate them.\<close>

definition rd_smembers :: "string \<Rightarrow> redis \<Rightarrow> string list" where
  "rd_smembers k r = rd_sets r k"

definition rd_sadd :: "string \<Rightarrow> string list \<Rightarrow> redis \<Rightarrow> redis" where
  "rd_sadd k vs r = r\<lparr>rd_sets := (rd_sets r)(k :=
     rd_sets r k @ filter (\<lambda>v. v \<notin> set (rd_sets r k)) (remdups vs))\<rparr>"

definition rd_srem :: "string \<Rightarrow> string list \<Rightarrow> redis \<Rightarrow> redis" where
  "rd_srem k vs r = r\<lparr>rd_sets := (rd_sets r)(k := filter (\<lambda>v. v \<notin> set vs) (rd_sets r k))\<rparr>"

lemmas rd_defs = rd_get_def rd_set_def rd_set_opts_def rd_setnx_def rd_delete1_def
  rd_hgetall_def rd_hget_def rd_hset_multiple_def rd_hset_def rd_hdel_def rd_smembers_def
  rd_sadd_def rd_srem_def rd_scan_def rd_exists_def rd_expire_def

section \<open>Facts\<close>

lemma map_of_hash_put [simp]: "map_of (hash_put m h) = map_of h ++ map_of m"
  by (induction m) (auto simp: hash_put_def update_conv' map_add_def fun_eq_iff)

lemma hgetall_hset_multiple:
  "rd_hgetall k' (rd_hset_multiple k m r) =
     (if k' = k then hash_put m (rd_hgetall k r) else rd_hgetall k' r)"
  by (simp add: rd_hgetall_def rd_hset_multiple_def update_conv')

lemma hget_hset_multiple [simp]:
  "rd_hget k' f (rd_hset_multiple k m r) =
     (if k' = k then (map_of (rd_hgetall k r) ++ map_of m) f else rd_hget k' f r)"
  by (simp add: rd_hget_def hgetall_hset_multiple)

lemma hget_hset [simp]:
  "rd_hget k' f' (rd_hset k f v r) = (if k' = k \<and> f' = f then Some v else rd_hget k' f' r)"
  by (auto simp: rd_hset_def map_add_def rd_hget_def hgetall_hset_multiple)

lemma get_set [simp]: "rd_get k' (rd_set k v r) = (if k' = k then Some v else rd_get k' r)"
  by (simp add: rd_get_def rd_set_def rd_set_opts_def)

lemma get_delete1 [simp]: "rd_get k' (rd_delete1 k r) = (if k' = k then None else rd_get k' r)"
  by (simp add: rd_get_def rd_delete1_def)

lemma hgetall_delete1 [simp]:
  "rd_hgetall k' (rd_delete1 k r) = (if k' = k then [] else rd_hgetall k' r)"
  by (simp add: rd_hgetall_def rd_delete1_def delete_conv')

lemma get_delete: "rd_get k (rd_delete ks r) = (if k \<in> set ks then None else rd_get k r)"
  by (induction ks arbitrary: r) auto

lemma hgetall_delete:
  "rd_hgetall k (rd_delete ks r) = (if k \<in> set ks then [] else rd_hgetall k r)"
  by (induction ks arbitrary: r) auto

lemma hget_hdel [simp]:
  "rd_hget k' f' (rd_hdel k f r) = (if k' = k \<and> f' = f then None else rd_hget k' f' r)"
proof (cases "AList.delete f (rd_hgetall k r) = []")
  case True
  have "map_of (AList.delete f (rd_hgetall k r)) f' = None" by (simp add: True)
  then have "f' \<noteq> f \<Longrightarrow> map_of (rd_hgetall k r) f' = None" by (simp add: delete_conv')
  with True show ?thesis
    by (auto simp: rd_hget_def rd_hdel_def rd_hgetall_def delete_conv' Let_def)
next
  case False
  then show ?thesis
    by (auto simp: rd_hget_def rd_hdel_def rd_hgetall_def delete_conv' update_conv' Let_def)
qed

lemma smembers_sadd [simp]:
  "set (rd_smembers k' (rd_sadd k vs r)) =
     (if k' = k then set (rd_smembers k r) \<union> set vs else set (rd_smembers k' r))"
  by (auto simp: rd_smembers_def rd_sadd_def)

lemma smembers_sadd_other [simp]: "k' \<noteq> k \<Longrightarrow> rd_smembers k' (rd_sadd k vs r) = rd_smembers k' r"
  by (simp add: rd_smembers_def rd_sadd_def)

lemma smembers_srem [simp]:
  "rd_smembers k' (rd_srem k vs r) =
     (if k' = k then filter (\<lambda>v. v \<notin> set vs) (rd_smembers k r) else rd_smembers k' r)"
  by (simp add: rd_smembers_def rd_srem_def)

text \<open>Operations on one kind of key leave the others.\<close>

lemma redis_frames [simp]:
  "rd_smembers k (rd_hset_multiple j m r) = rd_smembers k r"
  "rd_smembers k (rd_hset j f v r) = rd_smembers k r"
  "rd_smembers k (rd_hdel j f r) = rd_smembers k r"
  "rd_smembers k (rd_set j v r) = rd_smembers k r"
  "rd_get k (rd_hset_multiple j m r) = rd_get k r"
  "rd_get k (rd_hset j f v r) = rd_get k r"
  "rd_get k (rd_hdel j f r) = rd_get k r"
  "rd_get k (rd_sadd j vs r) = rd_get k r"
  "rd_get k (rd_srem j vs r) = rd_get k r"
  "rd_hgetall k (rd_set j v r) = rd_hgetall k r"
  "rd_hgetall k (rd_sadd j vs r) = rd_hgetall k r"
  "rd_hgetall k (rd_srem j vs r) = rd_hgetall k r"
  "rd_hget k f (rd_set j v r) = rd_hget k f r"
  "rd_hget k f (rd_sadd j vs r) = rd_hget k f r"
  "rd_hget k f (rd_srem j vs r) = rd_hget k f r"
  "rd_scan p (rd_set j v r) = rd_scan p r"
  "rd_scan p (rd_sadd j vs r) = rd_scan p r"
  "rd_scan p (rd_srem j vs r) = rd_scan p r"
  by (simp_all add: rd_defs Let_def)

lemma set_scan: "set (rd_scan p r) = {k. prefix p k \<and> k \<in> fst ` set (rd_hashes r)}"
  by (auto simp: rd_scan_def)

lemma scan_hset_multiple:
  "set (rd_scan p (rd_hset_multiple k m r)) =
     set (rd_scan p r) \<union> (if prefix p k then {k} else {})"
  by (auto simp: set_scan rd_hset_multiple_def dom_update)

lemma scan_delete1: "rd_scan p (rd_delete1 k r) = filter (\<lambda>x. x \<noteq> k) (rd_scan p r)"
proof -
  have "map fst (AList.delete k xs) = filter (\<lambda>x. x \<noteq> k) (map fst xs)" for xs :: "(string \<times> hash) list"
    by (induction xs) auto
  then show ?thesis by (simp add: rd_scan_def rd_delete1_def conj_commute)
qed

lemma hgetall_nil_not_scanned: "k \<notin> set (rd_scan p r) \<Longrightarrow> prefix p k \<Longrightarrow> rd_hgetall k r = []"
  by (force simp: set_scan rd_hgetall_def split: option.splits dest: map_of_SomeD)

lemma hgetall_some_scanned: "rd_hgetall k r \<noteq> [] \<Longrightarrow> prefix p k \<Longrightarrow> k \<in> set (rd_scan p r)"
  using hgetall_nil_not_scanned by blast

section \<open>A table of records\<close>

text \<open>
  Replica records and machine records are both hashes under a common key prefix, written
  field by field, read back whole and deleted whole. The laws their users rely on are those of
  a table: \<open>put\<close> adds fields to one record and leaves the others, \<open>remove\<close> takes exactly one
  away, and the ids are those of the records.
\<close>

locale record_table =
  fixes ids :: "'r \<Rightarrow> string set"
    and lookup :: "string \<Rightarrow> 'r \<Rightarrow> hash"
    and put :: "string \<Rightarrow> hash \<Rightarrow> 'r \<Rightarrow> 'r"
    and remove :: "string \<Rightarrow> 'r \<Rightarrow> 'r"
  assumes ids_put: "ids (put i m r) = insert i (ids r)"
    and ids_remove: "ids (remove i r) = ids r - {i}"
    and lookup_put: "map_of (lookup j (put i m r)) =
          (if j = i then map_of (lookup i r) ++ map_of m else map_of (lookup j r))"
    and lookup_remove: "lookup j (remove i r) = (if j = i then [] else lookup j r)"
    and lookup_outside: "i \<notin> ids r \<Longrightarrow> lookup i r = []"
begin

text \<open>What a scan that reads one field of every record sees.\<close>

definition field_values :: "string \<Rightarrow> 'r \<Rightarrow> rtext set" where
  "field_values f r = {v. \<exists>i\<in>ids r. map_of (lookup i r) f = Some v}"

lemma field_values_remove: "field_values f (remove i r) \<subseteq> field_values f r"
  by (auto simp: field_values_def ids_remove lookup_remove)

lemma field_values_put_new:
  assumes "i \<notin> ids r"
  shows "field_values f (put i m r) =
    field_values f r \<union> (case map_of m f of None \<Rightarrow> {} | Some v \<Rightarrow> {v})"
  using assms lookup_outside[OF assms]
  by (auto simp: field_values_def ids_put lookup_put map_add_def split: option.splits if_splits)

lemma put_remove: "ids (remove i (put i m r)) = ids r - {i}"
  by (auto simp: ids_remove ids_put)

lemma remove_twice: "ids (remove i (remove i r)) = ids (remove i r)"
  by (simp add: ids_remove)

lemma put_keeps_fields:
  "map_of m f = None \<Longrightarrow> map_of (lookup j (put i m r)) f = map_of (lookup j r) f"
  by (simp add: lookup_put map_add_def)

end

definition table_ids :: "string \<Rightarrow> redis \<Rightarrow> string set" where
  "table_ids p r = {i. p @ i \<in> set (rd_scan p r)}"

lemma table_ids_put: "table_ids p (rd_hset_multiple (p @ i) m r) = insert i (table_ids p r)"
  by (auto simp: table_ids_def scan_hset_multiple)

lemma table_ids_delete1: "table_ids p (rd_delete1 (p @ i) r) = table_ids p r - {i}"
  by (auto simp: table_ids_def scan_delete1)

interpretation redis_table:
  record_table "table_ids p" "\<lambda>i. rd_hgetall (p @ i)" "\<lambda>i. rd_hset_multiple (p @ i)"
    "\<lambda>i. rd_delete1 (p @ i)" for p
proof
  fix i r assume "i \<notin> table_ids p r"
  then show "rd_hgetall (p @ i) r = []"
    using hgetall_nil_not_scanned[of "p @ i" p r] by (simp add: table_ids_def)
qed (auto simp: table_ids_put table_ids_delete1 hgetall_hset_multiple)

end
