(* ===== verification/Reconcile_State.thy ===== *)
theory Reconcile_State
  imports Redis_Client
begin

text \<open>
  The reconciler's durable state in Redis (\<open>reconciler/state.py\<close>): desired replica counts, the
  wake queue, replacement requests, the stopping flag and the images-ready flag, as functions of
  the keyspace; and the agent specs the Global Controller publishes and the reconciler reads
  back (\<open>controller/utils/config_specs.py\<close>). An agent spec is the dict the code carries.
\<close>

type_synonym spec = dict

definition WAKE_QUEUE_KEY :: string where "WAKE_QUEUE_KEY = ''reconciler:wake''"
definition WAKE_ALL :: string where "WAKE_ALL = ''*''"
definition WAKE_SIGNAL_LIMIT :: nat where "WAKE_SIGNAL_LIMIT = 1000"
definition REPLACE_SET_KEY :: string where "REPLACE_SET_KEY = ''reconciler:replace''"
definition STOPPING_KEY :: string where "STOPPING_KEY = ''reconciler:stopping''"
definition STOPPING_TTL_SECONDS :: int where "STOPPING_TTL_SECONDS = 60"
definition LAUNCH_ERRORS_KEY :: string where "LAUNCH_ERRORS_KEY = ''reconciler:launch_errors''"
definition MACHINE_ERRORS_KEY :: string where "MACHINE_ERRORS_KEY = ''reconciler:machine_errors''"
definition IMAGES_READY_KEY :: string where "IMAGES_READY_KEY = ''reconciler:images_ready''"

lemmas state_keys = WAKE_QUEUE_KEY_def WAKE_ALL_def REPLACE_SET_KEY_def STOPPING_KEY_def
  LAUNCH_ERRORS_KEY_def MACHINE_ERRORS_KEY_def IMAGES_READY_KEY_def

text \<open>\<open>agent_spec["name"]\<close>; the validated config gives every agent a name.\<close>

definition spec_name :: "spec \<Rightarrow> string" where
  "spec_name sp = (case dget sp ''name'' of VStr s \<Rightarrow> s | _ \<Rightarrow> [])"

definition raw_str :: "rtext \<Rightarrow> string" where
  "raw_str t = (case t of Raw s \<Rightarrow> s | Doc _ \<Rightarrow> [])"

section \<open>Desired replica counts\<close>

definition desired_key :: "string \<Rightarrow> string" where
  "desired_key agent_name = ''agent:'' @ agent_name @ '':desired_replicas''"

definition get_desired :: "redis \<Rightarrow> string \<Rightarrow> int \<Rightarrow> int" where
  "get_desired r agent_name dflt =
     (case rd_get (desired_key agent_name) r of
        None \<Rightarrow> dflt
      | Some raw \<Rightarrow> (case int_text raw of None \<Rightarrow> dflt | Some n \<Rightarrow> max 0 n))"

definition set_desired :: "string \<Rightarrow> int \<Rightarrow> redis \<Rightarrow> int \<times> redis" where
  "set_desired agent_name count r =
     (let c = max 0 count in (c, rd_set (desired_key agent_name) (Doc (VInt c)) r))"

text \<open>A Python \<open>bool\<close> is an \<open>int\<close>, so \<open>replicas: true\<close> counts as 1.\<close>

definition replica_count :: "spec \<Rightarrow> int option" where
  "replica_count sp = (case dget_or sp ''replicas'' (VInt 1) of
       VInt n \<Rightarrow> Some n | VBool b \<Rightarrow> Some (if b then 1 else 0) | _ \<Rightarrow> None)"

definition desired_agent_spec :: "redis \<Rightarrow> spec \<Rightarrow> spec" where
  "desired_agent_spec r sp =
     (case replica_count sp of
        None \<Rightarrow> sp
      | Some configured \<Rightarrow>
          AList.update ''replicas'' (VInt (get_desired r (spec_name sp) configured)) sp)"

definition desired_agent_specs :: "redis \<Rightarrow> spec list \<Rightarrow> spec list" where
  "desired_agent_specs r specs = map (desired_agent_spec r) specs"

section \<open>Wake queue\<close>

definition request_reconcile :: "string \<Rightarrow> redis \<Rightarrow> redis" where
  "request_reconcile agent_name r = rd_lpush WAKE_QUEUE_KEY [Raw agent_name] r"

fun take_signals :: "nat \<Rightarrow> rtext set \<Rightarrow> redis \<Rightarrow> rtext set \<times> redis" where
  "take_signals 0 signals r = (signals, r)"
| "take_signals (Suc n) signals r =
     (case rd_rpop WAKE_QUEUE_KEY r of
        (None, r') \<Rightarrow> (signals, r')
      | (Some s, r') \<Rightarrow> take_signals n (insert s signals) r')"

definition wait_for_wake_signals :: "redis \<Rightarrow> rtext set \<times> redis" where
  "wait_for_wake_signals r =
     (case rd_brpop WAKE_QUEUE_KEY r of
        (None, r') \<Rightarrow> ({}, r')
      | (Some first, r') \<Rightarrow> take_signals WAKE_SIGNAL_LIMIT {first} r')"

section \<open>Replacement requests\<close>

definition request_replace :: "string \<Rightarrow> redis \<Rightarrow> redis" where
  "request_replace replica_id r = rd_sadd REPLACE_SET_KEY [replica_id] r"

definition replace_requests :: "redis \<Rightarrow> string \<Rightarrow> string list" where
  "replace_requests r agent_name =
     filter (\<lambda>replica_id. rsplit_head CHR ''-'' replica_id = agent_name) (rd_smembers REPLACE_SET_KEY r)"

definition clear_replace_requests :: "string list \<Rightarrow> redis \<Rightarrow> redis" where
  "clear_replace_requests replica_ids r =
     (if replica_ids = [] then r else rd_srem REPLACE_SET_KEY replica_ids r)"

section \<open>Stopping, images\<close>

definition set_stopping :: "redis \<Rightarrow> redis" where
  "set_stopping r = rd_expire STOPPING_KEY STOPPING_TTL_SECONDS False
     (rd_set STOPPING_KEY (Doc (VInt 1)) r)"

definition clear_stopping :: "redis \<Rightarrow> redis" where
  "clear_stopping r = rd_delete [STOPPING_KEY] r"

definition is_stopping :: "redis \<Rightarrow> bool" where
  "is_stopping r \<longleftrightarrow> rd_get STOPPING_KEY r \<noteq> None"

definition set_images_ready :: "redis \<Rightarrow> redis" where
  "set_images_ready r = rd_set IMAGES_READY_KEY (Doc (VInt 1)) r"

definition clear_images_ready :: "redis \<Rightarrow> redis" where
  "clear_images_ready r = rd_delete [IMAGES_READY_KEY] r"

definition images_ready :: "redis \<Rightarrow> bool" where
  "images_ready r \<longleftrightarrow> rd_get IMAGES_READY_KEY r \<noteq> None"

section \<open>Published agent specs\<close>

definition ACTIVE_AGENTS_KEY :: string where "ACTIVE_AGENTS_KEY = ''agents:active''"

definition spec_key :: "string \<Rightarrow> string" where
  "spec_key agent_name = ''agent:'' @ agent_name @ '':spec''"

text \<open>The names are published as a JSON list of strings.\<close>

fun str_items :: "val list \<Rightarrow> string list" where
  "str_items [] = []"
| "str_items (VStr s # vs) = s # str_items vs"
| "str_items (_ # vs) = str_items vs"

definition names_doc :: "string list \<Rightarrow> rtext" where
  "names_doc names = Doc (VList (map VStr names))"

definition published_names :: "redis \<Rightarrow> (exn + string list option)" where
  "published_names r = (case rd_get ACTIVE_AGENTS_KEY r of
       None \<Rightarrow> Inr None
     | Some raw \<Rightarrow> (case loads raw of
           None \<Rightarrow> Inl (ValueError ''agents:active is not JSON'')
         | Some (VList vs) \<Rightarrow> Inr (Some (str_items vs))
         | Some _ \<Rightarrow> Inl (TypeError ''agents:active is not a list'')))"

text \<open>\<open>str(x)\<close> of the numbers \<open>resources\<close> holds.\<close>

definition str_val :: "val \<Rightarrow> rtext" where
  "str_val v = (case v of VStr s \<Rightarrow> Raw s | _ \<Rightarrow> Doc v)"

definition spec_resources :: "spec \<Rightarrow> dict" where
  "spec_resources sp = (case dget_or sp ''resources'' (VDict []) of VDict d \<Rightarrow> d | _ \<Rightarrow> [])"

definition spec_writes :: "spec \<Rightarrow> (redis \<Rightarrow> redis) list" where
  "spec_writes sp = (let name = spec_name sp; resources = spec_resources sp;
       replicas = dget_or sp ''replicas'' (VInt 1) in
     [rd_hset_multiple (''agent:'' @ name @ '':'')
        [(''resources'', Doc (VDict resources)), (''replicas'', Doc replicas),
         (''stateful'', Doc (dget_or sp ''stateful'' (VBool False))),
         (''provider'', str_val (dget sp ''provider''))],
      rd_hset_multiple (''agent:'' @ name @ '':resources'')
        [(''cpu'', str_val (dget_or resources ''cpu'' (VInt 1))),
         (''memory'', str_val (dget_or resources ''memory'' (VInt 512))),
         (''replicas'', Doc replicas)],
      rd_set (spec_key name) (Doc (VDict sp))])"

text \<open>
  The writes of \<open>write_config_specs\<close> in their order: each agent's spec, then the list of names,
  then the deletion of the specs the list no longer names. \<open>published\<close> is what the list named
  before.
\<close>

definition config_spec_writes :: "spec list \<Rightarrow> string list \<Rightarrow> (redis \<Rightarrow> redis) list" where
  "config_spec_writes specs published =
     (let names = map spec_name specs;
          stale = filter (\<lambda>n. n \<notin> set names) (remdups published)
      in concat (map spec_writes specs) @
         [rd_set ACTIVE_AGENTS_KEY (names_doc names)] @
         (if stale = [] then [] else [rd_delete (map spec_key stale)]))"

definition run_writes :: "(redis \<Rightarrow> redis) list \<Rightarrow> redis \<Rightarrow> redis" where
  "run_writes ws r = fold (\<lambda>f. f) ws r"

definition write_config_specs :: "spec list \<Rightarrow> redis \<Rightarrow> (exn + unit) \<times> redis" where
  "write_config_specs specs r =
     (case published_names r of
        Inl e \<Rightarrow> (Inl e, run_writes (concat (map spec_writes specs)) r)
      | Inr published \<Rightarrow>
          (Inr (), run_writes (config_spec_writes specs (case published of None \<Rightarrow> [] | Some ns \<Rightarrow> ns)) r))"

fun read_specs :: "redis \<Rightarrow> string list \<Rightarrow> exn + spec list" where
  "read_specs r [] = Inr []"
| "read_specs r (name # names) =
     (case rd_get (spec_key name) r of
        None \<Rightarrow> read_specs r names
      | Some raw \<Rightarrow> (case loads raw of
            Some (VDict sp) \<Rightarrow> map_sum id (\<lambda>sps. sp # sps) (read_specs r names)
          | Some _ \<Rightarrow> Inl (TypeError ''agent spec is not a mapping'')
          | None \<Rightarrow> Inl (ValueError ''agent spec is not JSON'')))"

definition read_config_specs :: "redis \<Rightarrow> exn + spec list option" where
  "read_config_specs r =
     (case published_names r of
        Inl e \<Rightarrow> Inl e
      | Inr None \<Rightarrow> Inr None
      | Inr (Some []) \<Rightarrow> Inr (Some [])
      | Inr (Some names) \<Rightarrow> (case read_specs r names of
            Inl e \<Rightarrow> Inl e
          | Inr sps \<Rightarrow> Inr (if sps = [] then None else Some sps)))"

section \<open>Facts\<close>

lemma append_left_cancel_key [simp]: "(''agent:'' @ a @ s = ''agent:'' @ b @ s) = (a = b)"
  by simp

lemma desired_key_inj [simp]: "desired_key a = desired_key b \<longleftrightarrow> a = b"
  by (simp add: desired_key_def)

lemma spec_key_inj [simp]: "spec_key a = spec_key b \<longleftrightarrow> a = b"
  by (simp add: spec_key_def)

lemma spec_key_not_active [simp]: "spec_key a \<noteq> ACTIVE_AGENTS_KEY" "ACTIVE_AGENTS_KEY \<noteq> spec_key a"
  by (simp_all add: spec_key_def ACTIVE_AGENTS_KEY_def)

lemma take_signals_spec:
  "take_signals n sg r = (sg', r') \<Longrightarrow> rd_lists r WAKE_QUEUE_KEY = qs \<Longrightarrow>
   sg' = sg \<union> set (drop (length qs - n) qs) \<and>
   rd_lists r' WAKE_QUEUE_KEY = take (length qs - n) qs"
proof (induction n arbitrary: sg r qs)
  case (Suc n)
  show ?case
  proof (cases qs rule: rev_cases)
    case Nil
    with Suc.prems show ?thesis by (auto simp: rd_rpop_def)
  next
    case (snoc qs' q)
    let ?r = "r\<lparr>rd_lists := (rd_lists r)(WAKE_QUEUE_KEY := qs')\<rparr>"
    from Suc.prems snoc have "take_signals n (insert q sg) ?r = (sg', r')"
      by (simp add: rd_rpop_def)
    from Suc.IH[OF this] have
      "sg' = insert q sg \<union> set (drop (length qs' - n) qs')"
      "rd_lists r' WAKE_QUEUE_KEY = take (length qs' - n) qs'" by auto
    with snoc show ?thesis by auto
  qed
qed auto

lemma read_specs_map:
  assumes "\<forall>sp\<in>set specs. rd_get (spec_key (spec_name sp)) r = Some (Doc (VDict sp))"
  shows "read_specs r (map spec_name specs) = Inr specs"
  using assms by (induction specs) auto

lemma str_items_map [simp]: "str_items (map VStr xs) = xs"
  by (induction xs) auto

lemma run_writes_append [simp]: "run_writes (xs @ ys) r = run_writes ys (run_writes xs r)"
  by (simp add: run_writes_def)

lemma run_writes_Cons [simp]: "run_writes (w # ws) r = run_writes ws (w r)"
  by (simp add: run_writes_def)

lemma run_writes_Nil [simp]: "run_writes [] r = r"
  by (simp add: run_writes_def)

lemma spec_writes_get:
  "k \<le> 3 \<Longrightarrow> rd_get key (run_writes (take k (spec_writes sp)) r) =
     (if k = 3 \<and> key = spec_key (spec_name sp) then Some (Doc (VDict sp)) else rd_get key r)"
proof -
  assume "k \<le> 3"
  then consider "k = 0" | "k = Suc 0" | "k = Suc (Suc 0)" | "k = Suc (Suc (Suc 0))" by linarith
  then show ?thesis by cases (auto simp: spec_writes_def Let_def)
qed

lemma length_spec_writes [simp]: "length (spec_writes sp) = 3"
  by (simp add: spec_writes_def Let_def)

lemma spec_writes_all:
  "rd_get key (run_writes (spec_writes sp) r) =
     (if key = spec_key (spec_name sp) then Some (Doc (VDict sp)) else rd_get key r)"
  using spec_writes_get[of 3 key sp r] by simp

text \<open>While the specs are being written, each spec key holds what it held or its new spec.\<close>

lemma specs_writes_prefix:
  assumes "distinct (map spec_name specs)"
  shows "rd_get key (run_writes (take k (concat (map spec_writes specs))) r) = rd_get key r \<or>
     (\<exists>sp\<in>set specs. key = spec_key (spec_name sp) \<and>
        rd_get key (run_writes (take k (concat (map spec_writes specs))) r) = Some (Doc (VDict sp)))"
  using assms
proof (induction specs arbitrary: k r)
  case (Cons sp specs)
  show ?case
  proof (cases "k \<le> 3")
    case True
    then show ?thesis using spec_writes_get[of k key sp r] by auto
  next
    case False
    let ?r = "run_writes (spec_writes sp) r"
    have "rd_get key (run_writes (take (k - 3) (concat (map spec_writes specs))) ?r) = rd_get key ?r \<or>
      (\<exists>sp\<in>set specs. key = spec_key (spec_name sp) \<and>
        rd_get key (run_writes (take (k - 3) (concat (map spec_writes specs))) ?r) = Some (Doc (VDict sp)))"
      using Cons by simp
    with False show ?thesis by (auto simp: spec_writes_all)
  qed
qed simp

lemma specs_writes_done:
  assumes "distinct (map spec_name specs)" "sp \<in> set specs"
  shows "rd_get (spec_key (spec_name sp)) (run_writes (concat (map spec_writes specs)) r)
         = Some (Doc (VDict sp))"
  using assms
proof (induction specs arbitrary: r)
  case (Cons s specs)
  show ?case
  proof (cases "sp = s \<and> sp \<notin> set specs")
    case True
    have "rd_get (spec_key (spec_name sp)) (run_writes (concat (map spec_writes specs)) r')
          = rd_get (spec_key (spec_name sp)) r'" for r'
      using specs_writes_prefix[of specs "spec_key (spec_name sp)"
          "length (concat (map spec_writes specs))" r'] Cons.prems True by auto
    with True show ?thesis by (simp add: spec_writes_all)
  next
    case False
    with Cons show ?thesis by auto
  qed
qed simp

text \<open>Every name the list of active agents gives has a readable spec.\<close>

definition specs_readable :: "redis \<Rightarrow> bool" where
  "specs_readable r = (case published_names r of
       Inr (Some ns) \<Rightarrow> (\<forall>n\<in>set ns. \<exists>sp. rd_get (spec_key n) r = Some (Doc (VDict sp)))
     | Inr None \<Rightarrow> True
     | Inl _ \<Rightarrow> False)"

lemma published_active:
  "rd_get ACTIVE_AGENTS_KEY r = Some (names_doc ns) \<Longrightarrow> published_names r = Inr (Some ns)"
  by (simp add: published_names_def names_doc_def)

lemma active_specs_readable:
  "rd_get ACTIVE_AGENTS_KEY r = Some (names_doc ns) \<Longrightarrow>
   (\<And>n. n \<in> set ns \<Longrightarrow> \<exists>sp. rd_get (spec_key n) r = Some (Doc (VDict sp))) \<Longrightarrow> specs_readable r"
  by (simp add: specs_readable_def published_active)

lemma published_frame:
  "rd_get ACTIVE_AGENTS_KEY r = rd_get ACTIVE_AGENTS_KEY r' \<Longrightarrow> published_names r = published_names r'"
  by (simp add: published_names_def)

lemma read_specs_all:
  "\<forall>n\<in>set ns. \<exists>sp. rd_get (spec_key n) r = Some (Doc (VDict sp)) \<Longrightarrow>
   \<exists>sps. read_specs r ns = Inr sps \<and> length sps = length ns"
proof (induction ns)
  case (Cons n ns)
  then obtain sp sps where "rd_get (spec_key n) r = Some (Doc (VDict sp))"
    "read_specs r ns = Inr sps" "length sps = length ns" by auto
  then show ?case by auto
qed simp

section \<open>Properties\<close>

text \<open>A pass takes at most 1001 wake signals, the oldest first, and none is lost: what it
  returns is exactly the tail of the queue it popped, and the rest stays queued in order.\<close>

theorem wake_signals_conserved:
  assumes "wait_for_wake_signals r = (signals, r')"
    and "rd_lists r WAKE_QUEUE_KEY = qs"
  shows "signals = set (drop (length qs - 1001) qs) \<and>
         rd_lists r' WAKE_QUEUE_KEY = take (length qs - 1001) qs"
proof (cases qs rule: rev_cases)
  case Nil
  with assms show ?thesis
    by (auto simp: wait_for_wake_signals_def rd_brpop_def rd_rpop_def)
next
  case (snoc qs' q)
  let ?r = "r\<lparr>rd_lists := (rd_lists r)(WAKE_QUEUE_KEY := qs')\<rparr>"
  from assms snoc have "take_signals 1000 {q} ?r = (signals, r')"
    by (simp add: wait_for_wake_signals_def rd_brpop_def rd_rpop_def WAKE_SIGNAL_LIMIT_def)
  then have "signals = {q} \<union> set (drop (length qs' - 1000) qs')"
    "rd_lists r' WAKE_QUEUE_KEY = take (length qs' - 1000) qs'"
    using take_signals_spec[of 1000 "{q}" ?r signals r' qs'] by auto
  with snoc show ?thesis by auto
qed

theorem wake_signals_conserved_witness:
  "fst (wait_for_wake_signals (request_reconcile ''a'' (request_reconcile ''*'' empty_redis)))
   = {Raw ''a'', Raw ''*''}"
proof -
  let ?r = "request_reconcile ''a'' (request_reconcile ''*'' empty_redis)"
  have "rd_lists ?r WAKE_QUEUE_KEY = [Raw ''a'', Raw ''*'']"
    by (simp add: request_reconcile_def empty_redis_def)
  then show ?thesis
    using wake_signals_conserved[of ?r "fst (wait_for_wake_signals ?r)" "snd (wait_for_wake_signals ?r)"]
    by simp
qed

text \<open>C9: the reconciler never reads a half-published configuration. Started where every active
  agent's spec is readable, after any number of the writes of \<open>write_config_specs\<close> every agent
  the list names still has a readable spec, because the list is written after the specs and old
  specs are deleted after the list stops naming them.\<close>

theorem config_publication_never_dangles:
  assumes "distinct (map spec_name specs)"
    and "specs_readable r" and "published_names r = Inr published"
    and "old = (case published of None \<Rightarrow> [] | Some ns \<Rightarrow> ns)"
  shows "specs_readable (run_writes (take k (config_spec_writes specs old)) r)"
proof -
  let ?W = "concat (map spec_writes specs)" and ?names = "map spec_name specs"
  let ?stale = "filter (\<lambda>n. n \<notin> set ?names) (remdups old)"
  let ?del = "if ?stale = [] then [] else [rd_delete (map spec_key ?stale)]"
  let ?act = "rd_set ACTIVE_AGENTS_KEY (names_doc ?names)"
  let ?r1 = "run_writes ?W r"
  have cw: "config_spec_writes specs old = ?W @ ?act # ?del"
    by (simp add: config_spec_writes_def Let_def)
  consider "k \<le> length ?W" | "k = Suc (length ?W)" | "Suc (length ?W) < k" by linarith
  then show ?thesis
  proof cases
    case 1
    let ?rk = "run_writes (take k ?W) r"
    have step: "rd_get key ?rk = rd_get key r \<or> (\<exists>sp\<in>set specs. key = spec_key (spec_name sp) \<and>
        rd_get key ?rk = Some (Doc (VDict sp)))" for key
      by (rule specs_writes_prefix[OF assms(1)])
    have "rd_get ACTIVE_AGENTS_KEY ?rk = rd_get ACTIVE_AGENTS_KEY r"
      using step[of ACTIVE_AGENTS_KEY] by auto
    then have pub: "published_names ?rk = published_names r" by (rule published_frame)
    have "\<exists>sp. rd_get (spec_key n) ?rk = Some (Doc (VDict sp))"
      if "published = Some ns" "n \<in> set ns" for ns n
      using that assms(2,3) step[of "spec_key n"] by (fastforce simp: specs_readable_def)
    then have "specs_readable ?rk"
      using assms(3) pub by (simp add: specs_readable_def split: option.split)
    with 1 cw show ?thesis by simp
  next
    case 2
    have "specs_readable (?act ?r1)"
      by (rule active_specs_readable) (use specs_writes_done[OF assms(1)] in auto)
    with 2 cw show ?thesis by simp
  next
    case 3
    let ?r2 = "run_writes ?del (?act ?r1)"
    have get: "rd_get key ?r2 = rd_get key (?act ?r1)" if "key \<notin> set (map spec_key ?stale)" for key
      using that by (auto simp: get_delete)
    have "specs_readable ?r2"
    proof (rule active_specs_readable)
      show "rd_get ACTIVE_AGENTS_KEY ?r2 = Some (names_doc ?names)" by (subst get) auto
      show "\<exists>sp. rd_get (spec_key n) ?r2 = Some (Doc (VDict sp))" if "n \<in> set ?names" for n
        using that by (subst get) (use specs_writes_done[OF assms(1)] in auto)
    qed
    with 3 cw show ?thesis by (simp add: take_Cons' split: if_splits)
  qed
qed

theorem config_publication_never_dangles_witness:
  "specs_readable (run_writes (take 2 (config_spec_writes [[(''name'', VStr ''a'')]] [])) empty_redis)"
proof -
  have "specs_readable empty_redis" "published_names empty_redis = Inr None"
    by (simp_all add: specs_readable_def published_names_def empty_redis_def rd_get_def)
  then show ?thesis
    using config_publication_never_dangles[of "[[(''name'', VStr ''a'')]]" empty_redis None "[]" 2]
    by simp
qed



text \<open>a replacement request reaches the agent the replica belongs to and no other: a replica
  id is its agent's name, a dash and an id without dashes, so its request is listed under that
  name alone, even when another agent's name extends it.\<close>

theorem replace_request_owner:
  assumes "CHR ''-'' \<notin> set hex"
    and "rid = name @ CHR ''-'' # hex"
  shows "rid \<in> set (replace_requests (request_replace rid r) agent) \<longleftrightarrow> agent = name"
  using assms
  by (auto simp: replace_requests_def request_replace_def rsplit_head_append)

theorem replace_request_owner_witness:
  "''app-worker-1a2b3c4d'' \<in> set (replace_requests (request_replace ''app-worker-1a2b3c4d'' empty_redis) ''app-worker'')
   \<and> ''app-worker-1a2b3c4d'' \<notin> set (replace_requests (request_replace ''app-worker-1a2b3c4d'' empty_redis) ''app'')"
  using replace_request_owner[of "''1a2b3c4d''" "''app-worker-1a2b3c4d''" "''app-worker''" empty_redis]
  by simp

lemma get_set_desired: "get_desired (snd (set_desired a n r)) b d = (if b = a then max 0 n else get_desired r b d)"
  by (simp add: get_desired_def set_desired_def Let_def)

lemma desired_agent_specs_replicas:
  "replica_count sp = Some n \<Longrightarrow>
   replica_count (desired_agent_spec r sp) = Some (get_desired r (spec_name sp) n)"
  by (simp add: desired_agent_spec_def replica_count_def)

lemma desired_agent_spec_name: "spec_name (desired_agent_spec r sp) = spec_name sp"
  by (simp add: desired_agent_spec_def spec_name_def split: option.split)

lemma get_desired_nonneg: "0 \<le> d \<Longrightarrow> 0 \<le> get_desired r a d"
  by (simp add: get_desired_def split: option.split)

end
