(* ===== verification/Placement.thy ===== *)
theory Placement
  imports Reconcile_State
begin

text \<open>
  Choosing the machine of each new replica (\<open>reconciler/placement.py\<close>). A machine is the dict
  \<open>machines_for_replicas\<close> builds and \<open>ensure_replicas\<close> completes with what its replicas use;
  \<open>place\<close> returns the machine list it changed and the position of the machine it chose.
\<close>

record new_replica =
  nr_spec :: spec
  nr_id :: string
  nr_cpu :: rat
  nr_memory :: int

record machine =
  m_launch_id :: string
  m_provider :: string
  m_record :: hash
  m_hourly_cost :: rat
  m_capacity :: "(rat \<times> int) option"
  m_up :: bool
  m_used_cpu :: rat
  m_used_memory :: int
  m_used_replicas :: nat
  m_replicas :: "new_replica list"

definition is_candidate :: "string \<Rightarrow> string \<Rightarrow> machine \<Rightarrow> bool" where
  "is_candidate provider_name agent_name m \<longleftrightarrow>
     m_provider m = provider_name \<and>
     (case map_of (m_record m) ''agent_name'' of
        None \<Rightarrow> True
      | Some a \<Rightarrow> a = Raw agent_name \<and> m_used_replicas m = 0)"

text \<open>The key \<open>min\<close> compares: the larger of the machine's CPU and memory fill.\<close>

definition load :: "machine \<Rightarrow> rat" where
  "load m = (case m_capacity m of
       None \<Rightarrow> 0
     | Some (cpu, memory) \<Rightarrow> max (m_used_cpu m / cpu) (of_int (m_used_memory m) / of_int memory))"

definition load_defined :: "machine \<Rightarrow> bool" where
  "load_defined m \<longleftrightarrow> (case m_capacity m of None \<Rightarrow> True | Some (cpu, memory) \<Rightarrow> cpu \<noteq> 0 \<and> memory \<noteq> 0)"

text \<open>\<open>min(candidates, key)\<close>: the first position with the least load; \<open>best\<close> is the least so far.\<close>

fun least_loaded :: "(machine \<Rightarrow> bool) \<Rightarrow> nat \<Rightarrow> machine list \<Rightarrow> (nat \<times> rat) option \<Rightarrow> (nat \<times> rat) option" where
  "least_loaded cand i [] best = best"
| "least_loaded cand i (m # ms) best =
     least_loaded cand (Suc i) ms
       (if cand m \<and> (case best of None \<Rightarrow> True | Some (_, l) \<Rightarrow> load m < l)
        then Some (i, load m) else best)"

definition take_place :: "new_replica \<Rightarrow> machine \<Rightarrow> machine" where
  "take_place replica m = m\<lparr>m_used_cpu := m_used_cpu m + nr_cpu replica,
     m_used_memory := m_used_memory m + nr_memory replica,
     m_used_replicas := m_used_replicas m + 1,
     m_replicas := m_replicas m @ [replica]\<rparr>"

definition place :: "machine list \<Rightarrow> string \<Rightarrow> new_replica \<Rightarrow> exn + (machine list \<times> nat option)" where
  "place machines provider_name replica =
     (let cand = is_candidate provider_name (spec_name (nr_spec replica))
      in if \<not> list_all load_defined (filter cand machines) then Inl ZeroDivisionError
         else case least_loaded cand 0 machines None of
             None \<Rightarrow> Inr (machines, None)
           | Some (i, _) \<Rightarrow> Inr (machines[i := take_place replica (machines ! i)], Some i))"

section \<open>The chosen machine\<close>

lemma least_loaded_spec:
  "least_loaded cand i ms best = res \<Longrightarrow>
   (\<forall>j l. best = Some (j, l) \<longrightarrow> j < i) \<Longrightarrow>
   (case res of
      None \<Rightarrow> best = None \<and> (\<forall>m\<in>set ms. \<not> cand m)
    | Some (j, l) \<Rightarrow>
        (best = Some (j, l) \<or> (i \<le> j \<and> j < i + length ms \<and> cand (ms ! (j - i)) \<and> l = load (ms ! (j - i)))) \<and>
        (\<forall>m\<in>set ms. cand m \<longrightarrow> l \<le> load m) \<and>
        (\<forall>k lk. best = Some (k, lk) \<longrightarrow> l \<le> lk))"
proof (induction ms arbitrary: i best)
  case (Cons m ms)
  let ?best = "if cand m \<and> (case best of None \<Rightarrow> True | Some (_, l) \<Rightarrow> load m < l)
        then Some (i, load m) else best"
  have run: "least_loaded cand (Suc i) ms ?best = res" using Cons.prems(1) by simp
  have lt: "\<forall>j l. ?best = Some (j, l) \<longrightarrow> j < Suc i" using Cons.prems(2) by (auto simp: less_Suc_eq)
  note IH = Cons.IH[OF run lt]
  show ?case
  proof (cases res)
    case None
    with IH show ?thesis by (auto split: if_splits option.splits)
  next
    case (Some p)
    obtain j l where p: "p = (j, l)" by (cases p)
    from IH Some p have A: "?best = Some (j, l) \<or>
        (Suc i \<le> j \<and> j < Suc i + length ms \<and> cand (ms ! (j - Suc i)) \<and> l = load (ms ! (j - Suc i)))"
      and B: "\<forall>m\<in>set ms. cand m \<longrightarrow> l \<le> load m"
      and C: "\<forall>k lk. ?best = Some (k, lk) \<longrightarrow> l \<le> lk" by auto
    have "best = Some (j, l) \<or> (i \<le> j \<and> j < i + length (m # ms) \<and> cand ((m # ms) ! (j - i)) \<and> l = load ((m # ms) ! (j - i)))"
      using A by (auto split: if_splits simp: nth_Cons')
    moreover have "\<forall>m'\<in>set (m # ms). cand m' \<longrightarrow> l \<le> load m'"
    proof -
      have "cand m \<Longrightarrow> l \<le> load m"
        using C by (fastforce split: if_splits option.splits)
      with B show ?thesis by simp
    qed
    moreover have "\<forall>k lk. best = Some (k, lk) \<longrightarrow> l \<le> lk"
      using C by (fastforce split: if_splits option.splits)
    ultimately show ?thesis using Some p by auto
  qed
qed (auto split: option.split)

lemma least_loaded_None: "least_loaded cand 0 ms None = None \<longleftrightarrow> (\<forall>m\<in>set ms. \<not> cand m)"
proof
  assume "least_loaded cand 0 ms None = None"
  then show "\<forall>m\<in>set ms. \<not> cand m" using least_loaded_spec[of cand 0 ms None None] by auto
next
  assume none: "\<forall>m\<in>set ms. \<not> cand m"
  show "least_loaded cand 0 ms None = None"
  proof (rule ccontr)
    assume "least_loaded cand 0 ms None \<noteq> None"
    then obtain j l where "least_loaded cand 0 ms None = Some (j, l)" by auto
    then have "j < length ms" "cand (ms ! j)"
      using least_loaded_spec[of cand 0 ms None "Some (j, l)"] by auto
    with none show False by auto
  qed
qed

lemma least_loaded_Some:
  assumes "least_loaded cand 0 ms None = Some (j, l)"
  shows "j < length ms" "cand (ms ! j)" "l = load (ms ! j)"
    "\<And>m. m \<in> set ms \<Longrightarrow> cand m \<Longrightarrow> load (ms ! j) \<le> load m"
  using least_loaded_spec[of cand 0 ms None "Some (j, l)"] assms by auto

lemma place_Some:
  assumes "place ms p r = Inr (ms', Some i)"
  shows "i < length ms" "is_candidate p (spec_name (nr_spec r)) (ms ! i)"
    "ms' = ms[i := take_place r (ms ! i)]"
    "\<And>m. m \<in> set ms \<Longrightarrow> is_candidate p (spec_name (nr_spec r)) m \<Longrightarrow> load (ms ! i) \<le> load m"
proof -
  from assms obtain l where
    "least_loaded (is_candidate p (spec_name (nr_spec r))) 0 ms None = Some (i, l)"
    and "ms' = ms[i := take_place r (ms ! i)]"
    by (auto simp: place_def Let_def split: if_splits option.splits)
  then show "i < length ms" "is_candidate p (spec_name (nr_spec r)) (ms ! i)"
    "ms' = ms[i := take_place r (ms ! i)]"
    "\<And>m. m \<in> set ms \<Longrightarrow> is_candidate p (spec_name (nr_spec r)) m \<Longrightarrow> load (ms ! i) \<le> load m"
    using least_loaded_Some by blast+
qed

lemma place_None:
  assumes "place ms p r = Inr (ms', None)"
  shows "ms' = ms" "\<And>m. m \<in> set ms \<Longrightarrow> \<not> is_candidate p (spec_name (nr_spec r)) m"
  using assms least_loaded_None[of "is_candidate p (spec_name (nr_spec r))" ms]
  by (auto simp: place_def Let_def split: if_splits option.splits)

lemma place_length: "place ms p r = Inr (ms', oi) \<Longrightarrow> length ms' = length ms"
  using place_Some(3) place_None(1) by (cases oi) fastforce+

section \<open>Placing a whole list of replicas\<close>

text \<open>The loop of \<open>ensure_replicas\<close> over the replicas to place, without its record writes: the
  machines afterwards and the replicas no machine took.\<close>

fun put_all :: "('m list \<Rightarrow> 'r \<Rightarrow> exn + ('m list \<times> nat option)) \<Rightarrow> 'm list \<Rightarrow> 'r list \<Rightarrow>
    exn + ('m list \<times> 'r list)" where
  "put_all put_on ms [] = Inr (ms, [])"
| "put_all put_on ms (r # rs) =
     (case put_on ms r of
        Inl e \<Rightarrow> Inl e
      | Inr (ms', oi) \<Rightarrow> (case put_all put_on ms' rs of
            Inl e \<Rightarrow> Inl e
          | Inr (ms'', left) \<Rightarrow> Inr (ms'', if oi = None then r # left else left)))"

text \<open>
  What \<open>ensure_replicas\<close> relies on: each call puts its replica on one machine, or on none, and
  touches nothing else. From that alone, placing a list puts each replica exactly once or
  leaves it.
\<close>

locale placer =
  fixes put_on :: "'m list \<Rightarrow> 'r \<Rightarrow> exn + ('m list \<times> nat option)"
    and held :: "'m \<Rightarrow> 'r list"
  assumes put_Some: "put_on ms r = Inr (ms', Some i) \<Longrightarrow>
      i < length ms \<and> (\<exists>m'. ms' = ms[i := m'] \<and> held m' = held (ms ! i) @ [r])"
    and put_None: "put_on ms r = Inr (ms', None) \<Longrightarrow> ms' = ms"
begin

lemma count_held_update:
  assumes "i < length ms" "held m' = held (ms ! i) @ [r]"
  shows "count_list (concat (map held (ms[i := m']))) x
       = count_list (concat (map held ms)) x + (if x = r then 1 else 0)"
proof -
  have "ms[i := m'] = take i ms @ m' # drop (Suc i) ms" and ms: "ms = take i ms @ ms ! i # drop (Suc i) ms"
    using assms(1) by (simp_all add: upd_conv_take_nth_drop id_take_nth_drop)
  then have "concat (map held (ms[i := m']))
      = concat (map held (take i ms)) @ held m' @ concat (map held (drop (Suc i) ms))" by simp
  moreover have "concat (map held ms)
      = concat (map held (take i ms)) @ held (ms ! i) @ concat (map held (drop (Suc i) ms))"
    by (subst ms) simp
  ultimately show ?thesis using assms(2) by (simp add: count_list_append)
qed

lemma put_all_conserves:
  "put_all put_on ms rs = Inr (ms', left) \<Longrightarrow>
   count_list (concat (map held ms')) x + count_list left x
     = count_list (concat (map held ms)) x + count_list rs x"
proof (induction rs arbitrary: ms left)
  case (Cons r rs)
  then obtain ms1 oi left1 where one: "put_on ms r = Inr (ms1, oi)"
    and rest: "put_all put_on ms1 rs = Inr (ms', left1)"
    and left: "left = (if oi = None then r # left1 else left1)"
    by (auto split: sum.splits prod.splits)
  have IH: "count_list (concat (map held ms')) x + count_list left1 x
      = count_list (concat (map held ms1)) x + count_list rs x"
    by (rule Cons.IH[OF rest])
  show ?case
  proof (cases oi)
    case None
    with one put_None have "ms1 = ms" by blast
    with IH left None show ?thesis by simp
  next
    case (Some i)
    with one put_Some obtain m' where "i < length ms" "ms1 = ms[i := m']" "held m' = held (ms ! i) @ [r]"
      by blast
    then have "count_list (concat (map held ms1)) x
        = count_list (concat (map held ms)) x + (if x = r then 1 else 0)"
      using count_held_update by blast
    with IH left Some show ?thesis by auto
  qed
qed auto

lemma put_all_length: "put_all put_on ms rs = Inr (ms', left) \<Longrightarrow> length ms' = length ms"
proof (induction rs arbitrary: ms left)
  case (Cons r rs)
  then obtain ms1 oi left1 where one: "put_on ms r = Inr (ms1, oi)"
    and rest: "put_all put_on ms1 rs = Inr (ms', left1)"
    by (auto split: sum.splits prod.splits)
  from one have "length ms1 = length ms" using put_Some put_None by (cases oi) fastforce+
  with Cons.IH[OF rest] show ?case by simp
qed auto

end

definition spec_provider :: "spec \<Rightarrow> string" where
  "spec_provider sp = (case dget sp ''provider'' of VStr p \<Rightarrow> p | _ \<Rightarrow> [])"

definition place_spec :: "machine list \<Rightarrow> new_replica \<Rightarrow> exn + (machine list \<times> nat option)" where
  "place_spec ms r = place ms (spec_provider (nr_spec r)) r"

interpretation pool: placer place_spec m_replicas
proof
  fix ms r ms' i assume "place_spec ms r = Inr (ms', Some i)"
  then have *: "place ms (spec_provider (nr_spec r)) r = Inr (ms', Some i)" by (simp add: place_spec_def)
  have "m_replicas (take_place r (ms ! i)) = m_replicas (ms ! i) @ [r]" by (simp add: take_place_def)
  with place_Some(1)[OF *] place_Some(3)[OF *]
  show "i < length ms \<and> (\<exists>m'. ms' = ms[i := m'] \<and> m_replicas m' = m_replicas (ms ! i) @ [r])"
    by blast
next
  fix ms r ms' assume "place_spec ms r = Inr (ms', None)"
  then show "ms' = ms" using place_None(1) by (auto simp: place_spec_def)
qed

section \<open>Properties\<close>

text \<open>A replica goes to a machine of its provider that may take it and that no other such
  machine is less loaded than, only that machine changes and by exactly the replica's size, and
  no machine is chosen only when none may take it.\<close>

theorem place_least_loaded:
  assumes "place ms p r = Inr (ms', oi)"
  shows "case oi of
     None \<Rightarrow> ms' = ms \<and> (\<forall>m\<in>set ms. \<not> is_candidate p (spec_name (nr_spec r)) m)
   | Some i \<Rightarrow> i < length ms \<and> is_candidate p (spec_name (nr_spec r)) (ms ! i) \<and>
       (\<forall>m\<in>set ms. is_candidate p (spec_name (nr_spec r)) m \<longrightarrow> load (ms ! i) \<le> load m) \<and>
       (\<forall>j<length ms. j \<noteq> i \<longrightarrow> ms' ! j = ms ! j) \<and>
       m_used_cpu (ms' ! i) = m_used_cpu (ms ! i) + nr_cpu r \<and>
       m_used_memory (ms' ! i) = m_used_memory (ms ! i) + nr_memory r \<and>
       m_used_replicas (ms' ! i) = Suc (m_used_replicas (ms ! i)) \<and>
       m_replicas (ms' ! i) = m_replicas (ms ! i) @ [r]"
proof (cases oi)
  case None
  with assms place_None show ?thesis by auto
next
  case (Some i)
  with assms have *: "place ms p r = Inr (ms', Some i)" by simp
  show ?thesis using Some place_Some[OF *] by (auto simp: take_place_def)
qed

definition sample_machine :: "string \<Rightarrow> hash \<Rightarrow> nat \<Rightarrow> machine" where
  "sample_machine lid record n = \<lparr>m_launch_id = lid, m_provider = ''ec2-pool'', m_record = record,
     m_hourly_cost = 1, m_capacity = Some (4, 4096), m_up = True, m_used_cpu = of_nat n,
     m_used_memory = 512 * int n, m_used_replicas = n, m_replicas = []\<rparr>"

definition sample_replica :: "string \<Rightarrow> new_replica" where
  "sample_replica name = \<lparr>nr_spec = [(''name'', VStr name), (''provider'', VStr ''ec2-pool'')],
     nr_id = name @ ''-00000000'', nr_cpu = 1, nr_memory = 512\<rparr>"

lemmas sample_defs = sample_machine_def sample_replica_def spec_name_def dget_def spec_provider_def

theorem place_least_loaded_witness:
  "\<exists>ms'. place [sample_machine ''a'' [] 2, sample_machine ''b'' [] 1] ''ec2-pool'' (sample_replica ''x'')
       = Inr (ms', Some 1) \<and> m_used_replicas (ms' ! 1) = 2"
proof -
  let ?ms = "[sample_machine ''a'' [] 2, sample_machine ''b'' [] 1]"
  obtain ms' where p: "place ?ms ''ec2-pool'' (sample_replica ''x'') = Inr (ms', Some 1)"
    by (simp add: place_def is_candidate_def load_defined_def load_def sample_defs)
  from place_least_loaded[OF p] have "m_used_replicas (ms' ! 1) = Suc (m_used_replicas (?ms ! 1))"
    by simp
  with p show ?thesis by (simp add: sample_machine_def)
qed

text \<open>Every machine started for one agent holds at most one replica.\<close>

definition agent_machines_single :: "machine list \<Rightarrow> bool" where
  "agent_machines_single ms \<longleftrightarrow>
     (\<forall>m\<in>set ms. map_of (m_record m) ''agent_name'' \<noteq> None \<longrightarrow> m_used_replicas m \<le> 1)"

text \<open>C8: a machine started for one agent never takes a second replica, however many replicas
  of any agents are placed.\<close>

theorem agent_machine_never_shared:
  assumes "put_all place_spec ms rs = Inr (ms', left)" "agent_machines_single ms"
  shows "agent_machines_single ms'"
  using assms
proof (induction rs arbitrary: ms left)
  case (Cons r rs)
  then obtain ms1 oi left1 where one: "place_spec ms r = Inr (ms1, oi)"
    and rest: "put_all place_spec ms1 rs = Inr (ms', left1)"
    by (auto split: sum.splits prod.splits)
  have "agent_machines_single ms1"
  proof (cases oi)
    case None
    with one place_None(1) Cons.prems(2) show ?thesis by (auto simp: place_spec_def)
  next
    case (Some i)
    with one have *: "place ms (spec_provider (nr_spec r)) r = Inr (ms1, Some i)"
      by (simp add: place_spec_def)
    have "map_of (m_record (ms ! i)) ''agent_name'' \<noteq> None \<Longrightarrow> m_used_replicas (ms ! i) = 0"
      using place_Some(2)[OF *] by (auto simp: is_candidate_def)
    then show ?thesis
      using Cons.prems(2) set_update_subset_insert[of ms i "take_place r (ms ! i)"] place_Some(3)[OF *]
      by (auto simp: agent_machines_single_def take_place_def)
  qed
  with Cons.IH[OF rest] show ?case by simp
qed simp

theorem agent_machine_never_shared_witness:
  "\<exists>ms' left. put_all place_spec [sample_machine ''a'' [(''agent_name'', Raw ''x'')] 0]
      [sample_replica ''x'', sample_replica ''x''] = Inr (ms', left)
    \<and> left = [sample_replica ''x''] \<and> agent_machines_single ms'"
proof -
  let ?ms = "[sample_machine ''a'' [(''agent_name'', Raw ''x'')] 0]"
    and ?rs = "[sample_replica ''x'', sample_replica ''x'']"
  obtain ms' where p: "put_all place_spec ?ms ?rs = Inr (ms', [sample_replica ''x''])"
    by (simp add: place_spec_def place_def is_candidate_def load_defined_def load_def take_place_def sample_defs)
  moreover have "agent_machines_single ?ms"
    by (simp add: agent_machines_single_def sample_machine_def)
  ultimately show ?thesis using agent_machine_never_shared by blast
qed



text \<open>A pool of equal machines filled with replicas of one size.\<close>

definition uniform_machine :: "string \<Rightarrow> rat \<Rightarrow> int \<Rightarrow> rat \<Rightarrow> int \<Rightarrow> machine \<Rightarrow> bool" where
  "uniform_machine p cpu memory c mem m \<longleftrightarrow>
     m_provider m = p \<and> map_of (m_record m) ''agent_name'' = None \<and>
     m_capacity m = Some (cpu, memory) \<and>
     m_used_cpu m = of_nat (m_used_replicas m) * c \<and>
     m_used_memory m = int (m_used_replicas m) * mem"

definition even_shares :: "machine list \<Rightarrow> bool" where
  "even_shares ms \<longleftrightarrow> (\<forall>m\<in>set ms. \<forall>m'\<in>set ms. m_used_replicas m \<le> Suc (m_used_replicas m'))"

lemma uniform_load:
  assumes "uniform_machine p cpu memory c mem m" "0 < cpu" "0 < memory" "0 < c" "0 < mem"
  shows "load m = of_nat (m_used_replicas m) * max (c / cpu) (of_int mem / of_int memory)"
  using assms by (simp add: uniform_machine_def load_def max_mult_distrib_left)

text \<open>A pool of equal machines that takes replicas of one size is shared evenly: no machine
  ever holds two replicas more than another, and none of them is refused.\<close>

theorem pool_shared_evenly:
  assumes "\<forall>r\<in>set rs. nr_cpu r = c \<and> nr_memory r = mem \<and> spec_provider (nr_spec r) = p"
    and "\<forall>m\<in>set ms. uniform_machine p cpu memory c mem m" "ms \<noteq> []"
    and "0 < cpu" "0 < memory" "0 < c" "0 < mem" "even_shares ms"
  shows "\<exists>ms'. put_all place_spec ms rs = Inr (ms', []) \<and> even_shares ms'"
  using assms
proof (induction rs arbitrary: ms)
  case (Cons r rs)
  let ?s = "max (c / cpu) (of_int mem / of_int memory)"
  let ?cand = "is_candidate p (spec_name (nr_spec r))"
  have s: "0 < ?s" using Cons.prems by (simp add: less_max_iff_disj)
  have cand: "\<forall>m\<in>set ms. ?cand m \<and> load_defined m"
    using Cons.prems by (auto simp: is_candidate_def uniform_machine_def load_defined_def)
  then obtain i l where ll: "least_loaded ?cand 0 ms None = Some (i, l)"
    using least_loaded_None[of ?cand ms] \<open>ms \<noteq> []\<close> by (metis last_in_set option.exhaust surj_pair)
  let ?ms = "ms[i := take_place r (ms ! i)]"
  have i: "i < length ms" using least_loaded_Some(1)[OF ll] .
  have least: "m_used_replicas (ms ! i) \<le> m_used_replicas m" if "m \<in> set ms" for m
  proof -
    have "load (ms ! i) \<le> load m" using least_loaded_Some(4)[OF ll that] cand that by blast
    moreover have "ms ! i \<in> set ms" using i by simp
    ultimately have "of_nat (m_used_replicas (ms ! i)) * ?s \<le> of_nat (m_used_replicas m) * ?s"
      using Cons.prems that uniform_load by metis
    with s show ?thesis by (simp add: mult_le_cancel_right)
  qed
  have one: "place_spec ms r = Inr (?ms, Some i)"
    using ll cand Cons.prems(1) by (auto simp: place_spec_def place_def Let_def list_all_iff)
  have sub: "set ?ms \<subseteq> insert (take_place r (ms ! i)) (set ms)" by (rule set_update_subset_insert)
  have "uniform_machine p cpu memory c mem (take_place r (ms ! i))"
    using Cons.prems(1,2) i by (auto simp: uniform_machine_def take_place_def algebra_simps)
  with sub Cons.prems(2) have "\<forall>m\<in>set ?ms. uniform_machine p cpu memory c mem m" by blast
  moreover have "even_shares ?ms"
    unfolding even_shares_def
  proof (intro ballI)
    fix m m' assume "m \<in> set ?ms" "m' \<in> set ?ms"
    with sub have "m = take_place r (ms ! i) \<or> m \<in> set ms"
      "m' = take_place r (ms ! i) \<or> m' \<in> set ms" by auto
    moreover have "m_used_replicas (take_place r (ms ! i)) = Suc (m_used_replicas (ms ! i))"
      by (simp add: take_place_def)
    moreover have "ms ! i \<in> set ms" using i by simp
    ultimately show "m_used_replicas m \<le> Suc (m_used_replicas m')"
      using least Cons.prems(8) by (auto simp: even_shares_def intro: le_SucI)
  qed
  ultimately obtain ms' where "put_all place_spec ?ms rs = Inr (ms', []) \<and> even_shares ms'"
    using Cons.IH[of ?ms] Cons.prems by auto
  with one show ?case by simp
qed simp

theorem pool_shared_evenly_witness:
  "\<exists>ms'. put_all place_spec [sample_machine ''a'' [] 0, sample_machine ''b'' [] 0]
      [sample_replica ''x'', sample_replica ''y'', sample_replica ''x''] = Inr (ms', []) \<and> even_shares ms'"
  by (rule pool_shared_evenly[where c = 1 and mem = 512 and p = "''ec2-pool''" and cpu = 4 and memory = 4096])
     (simp_all add: sample_defs uniform_machine_def even_shares_def)

end
