(* ===== verification/Py_Values.thy ===== *)
theory Py_Values
  imports Py_Strings
begin

text \<open>
  Results in sequence, and what the code uses of Python's values beyond the constructors: \<open>==\<close> of JSON values, \<open>round\<close>,
  a float printed with two decimals, and the UTC text of a \<open>datetime\<close>.
\<close>

section \<open>Results in sequence\<close>

definition res_bnd :: "exn + 'a \<Rightarrow> ('a \<Rightarrow> exn + 'b) \<Rightarrow> exn + 'b" where
  "res_bnd r f = (case r of Inl e \<Rightarrow> Inl e | Inr a \<Rightarrow> f a)"

fun res_all :: "('a \<Rightarrow> exn + 'b) \<Rightarrow> 'a list \<Rightarrow> exn + 'b list" where
  "res_all f [] = Inr []"
| "res_all f (x # xs) = res_bnd (f x) (\<lambda>y. res_bnd (res_all f xs) (\<lambda>ys. Inr (y # ys)))"

lemma res_bnd_simps [simp]: "res_bnd (Inl e) f = Inl e" "res_bnd (Inr a) f = f a"
  by (simp_all add: res_bnd_def)

lemma res_bnd_InrE: "res_bnd r f = Inr b \<Longrightarrow> (\<And>a. r = Inr a \<Longrightarrow> f a = Inr b \<Longrightarrow> P) \<Longrightarrow> P"
  by (cases r) auto

lemma res_all_list_all2: "res_all f xs = Inr ys \<Longrightarrow> list_all2 (\<lambda>x y. f x = Inr y) xs ys"
  by (induction xs arbitrary: ys) (auto elim!: res_bnd_InrE)

lemma res_all_list_all: "res_all f xs = Inr ys \<Longrightarrow> (\<And>x y. f x = Inr y \<Longrightarrow> P y) \<Longrightarrow> list_all P ys"
  by (induction xs arbitrary: ys) (auto elim!: res_bnd_InrE)

lemma res_all_Inr: "\<forall>x\<in>set xs. \<exists>y. f x = Inr y \<Longrightarrow> \<exists>ys. res_all f xs = Inr ys"
  by (induction xs) auto

text \<open>\<open>record[f]\<close>, which raises when the field is missing.\<close>

definition need :: "(string \<times> 'v) list \<Rightarrow> string \<Rightarrow> exn + 'v" where
  "need rec f = (case map_of rec f of None \<Rightarrow> Inl (KeyError f) | Some t \<Rightarrow> Inr t)"

section \<open>Equality\<close>

fun py_num :: "val \<Rightarrow> pyfloat option" where
  "py_num (VBool b) = Some (Fin (if b then 1 else 0))"
| "py_num (VInt i) = Some (Fin (of_int i))"
| "py_num (VFloat f) = Some f"
| "py_num _ = None"

lemma size_zip_left: "(a, b) \<in> set (zip xs ys) \<Longrightarrow> size a < Suc (size_list size xs)"
  by (metis le_imp_less_Suc set_zip_leftD size_list_estimation' order_refl)

lemma size_dict_entry: "(k, v) \<in> set d \<Longrightarrow> size v < Suc (size_list (size_prod (\<lambda>_. 0) size) d)"
  by (induction d) auto

text \<open>\<open>a == b\<close>: numbers by value, whatever their type; a NaN equals nothing.\<close>

function (sequential) py_eq :: "val \<Rightarrow> val \<Rightarrow> bool" where
  "py_eq VNone w = (w = VNone)"
| "py_eq (VStr s) w = (w = VStr s)"
| "py_eq (VTime t z) (VTime u y) = (t - (case z of None \<Rightarrow> 0 | Some o1 \<Rightarrow> o1) = u - (case y of None \<Rightarrow> 0 | Some o2 \<Rightarrow> o2) \<and> (z = None \<longleftrightarrow> y = None))"
| "py_eq (VList xs) (VList ys) = (length xs = length ys \<and> list_all (\<lambda>(x, y). py_eq x y) (zip xs ys))"
| "py_eq (VDict d) (VDict e) = (length d = length e \<and>
     list_all (\<lambda>(k, v). case map_of e k of None \<Rightarrow> False | Some u \<Rightarrow> py_eq v u) d)"
| "py_eq v w = (case (py_num v, py_num w) of (Some a, Some b) \<Rightarrow> fl_le a b \<and> fl_le b a | _ \<Rightarrow> False)"
  by pat_completeness auto

termination
  by (relation "measure (\<lambda>(v, _). size v)") (auto dest: size_zip_left size_dict_entry)

lemma py_eq_str [simp]: "py_eq v (VStr s) \<longleftrightarrow> v = VStr s"
  by (cases v) auto

section \<open>Rounding and printing numbers\<close>

text \<open>\<open>round(x)\<close>: to the nearest integer, a tie to the even one.\<close>

definition py_round :: "rat \<Rightarrow> int" where
  "py_round x = (let f = \<lfloor>x\<rfloor>; r = x - of_int f in
     if r < 1 / 2 then f else if r > 1 / 2 then f + 1 else if even f then f else f + 1)"

text \<open>\<open>f"{x:.2f}"\<close>.\<close>

definition two_digits :: "nat \<Rightarrow> string" where
  "two_digits n = [digit_char (n div 10 mod 10), digit_char (n mod 10)]"

definition fixed2 :: "pyfloat \<Rightarrow> string" where
  "fixed2 f = (case f of
       PInf \<Rightarrow> ''inf'' | NInf \<Rightarrow> ''-inf'' | NaN \<Rightarrow> ''nan''
     | Fin q \<Rightarrow> (let n = nat (py_round (\<bar>q\<bar> * 100)) in
         (if q < 0 then ''-'' else '''') @ str_nat (n div 100) @ ''.'' @ two_digits (n mod 100)))"

text \<open>\<open>s.rstrip(c)\<close>.\<close>

definition rstrip_char :: "char \<Rightarrow> string \<Rightarrow> string" where
  "rstrip_char c s = rev (dropWhile (\<lambda>x. x = c) (rev s))"

text \<open>\<open>float(i)\<close>, which overflows from \<open>2 ^ 1024 - 2 ^ 970\<close> on.\<close>

definition float_of_int :: "int \<Rightarrow> exn + pyfloat" where
  "float_of_int i = (if \<bar>i\<bar> \<ge> 2 ^ 1024 - 2 ^ 970 then Inl OverflowError else Inr (Fin (of_int i)))"

section \<open>Times\<close>

text \<open>The civil date of a day counted from 1970-01-01, in the proleptic Gregorian calendar: years
  start in March, so that a leap day is the last day of its year.\<close>

definition civil :: "int \<Rightarrow> int \<times> int \<times> int" where
  "civil days =
     (let z = days + 719468; era = z div 146097; doe = z mod 146097;
          yoe = (doe - doe div 1460 + doe div 36524 - doe div 146096) div 365;
          doy = doe - (365 * yoe + yoe div 4 - yoe div 100);
          mp = (5 * doy + 2) div 153; d = doy - (153 * mp + 2) div 5 + 1;
          m = (if mp < 10 then mp + 3 else mp - 9)
      in (yoe + era * 400 + (if m \<le> 2 then 1 else 0), m, d))"

definition pad :: "nat \<Rightarrow> int \<Rightarrow> string" where
  "pad n i = (let s = str_nat (nat i) in replicate (n - length s) CHR ''0'' @ s)"

definition DAY :: int where "DAY = 86400000000"

text \<open>The microseconds a \<open>datetime\<close> can hold: from year 1 to year 9999.\<close>

definition in_calendar :: "int \<Rightarrow> bool" where
  "in_calendar t \<longleftrightarrow> -719162 * DAY \<le> t \<and> t < 2932897 * DAY"

text \<open>\<open>isoformat(timespec="milliseconds")\<close> of a UTC time, with its \<open>+00:00\<close> written \<open>Z\<close>.\<close>

definition iso_ms :: "int \<Rightarrow> string" where
  "iso_ms t = (let (y, m, d) = civil (t div DAY); s = t mod DAY div 1000 in
     pad 4 y @ ''-'' @ pad 2 m @ ''-'' @ pad 2 d @ ''T'' @ pad 2 (s div 3600000) @ '':'' @
     pad 2 (s div 60000 mod 60) @ '':'' @ pad 2 (s div 1000 mod 60) @ ''.'' @ pad 3 (s mod 1000) @ ''Z'')"

end
