(* ===== verification/Controller_Context.thy ===== *)
theory Controller_Context
  imports Placement Py_Values
begin

text \<open>
  What the reconciler's parts share (\<open>controller/controller_context.py\<close>): the Redis server of
  each machine and the clients this process holds, the agent specs, the commands run on machines,
  and the replica records. A client is named by its machine's host; the primary client is this
  machine's, as \<open>attach_local_machine_redis\<close> leaves it, so a write through \<open>self.redis\<close> and one
  through \<open>machine_redis["localhost"]\<close> reach the same server.

  A server is up or down for the length of an operation; an operation on a server that is down
  raises. What is outside the repository is a field of \<open>env\<close>: the result of a subprocess (which
  may depend on every command run before it), whether a TCP port answers, the random ids, what a
  cloud provider answers, and the process environment. The clock of a pass is \<open>w_now\<close>.
\<close>

datatype proc_result = Done int string string | TimedOut | OsError string

type_synonym command = "string list"

record env =
  e_subprocess :: "command list \<Rightarrow> command \<Rightarrow> proc_result"
  e_port_open :: "rat \<Rightarrow> string \<Rightarrow> int \<Rightarrow> bool"
  e_redis_answers :: "rat \<Rightarrow> string \<Rightarrow> bool"
  e_order :: "nat \<Rightarrow> nat list"
  e_port_bound :: "int \<Rightarrow> bool"
  e_uuid :: "nat \<Rightarrow> string"
  e_expanduser :: "string \<Rightarrow> string"
  e_float_str :: "pyfloat \<Rightarrow> string"
  e_project :: string
  e_controller_image :: string
  e_private_ip :: string
  e_env_file :: "string option"
  e_machine_alive :: "string \<Rightarrow> hash \<Rightarrow> exn + bool"
  e_terminate_machine :: "string \<Rightarrow> hash \<Rightarrow> exn + unit"
  e_machine_capacity :: "string \<Rightarrow> (string \<times> string) list \<Rightarrow> exn + (int \<times> int) option"
  e_hourly_cost :: "string \<Rightarrow> (string \<times> string) list \<Rightarrow> exn + rat"
  e_start_machine :: "string \<Rightarrow> (string \<times> string) list \<Rightarrow> string \<Rightarrow> exn + hash"
  e_wait_machine :: "string \<Rightarrow> hash \<Rightarrow> exn + hash"
  e_collector_image :: string

record world =
  w_servers :: "string \<Rightarrow> redis"
  w_down :: "string \<Rightarrow> bool"
  w_clients :: "string list"
  w_redis_ports :: "string \<Rightarrow> int option"
  w_specs :: "spec list"
  w_config :: dict
  w_provisioned_specs :: "spec list option"
  w_seen_healthy :: "string set"
  w_starting :: "string set"
  w_starts :: "(string \<times> string \<times> (string \<times> string) list \<times> string) list"
  w_commands :: "command list"
  w_now :: rat
  w_drawn :: nat

type_synonym 'a step = "(world, 'a) act"

definition LOCAL :: string where "LOCAL = ''localhost''"

definition is_local_host :: "string \<Rightarrow> bool" where
  "is_local_host host \<longleftrightarrow> host = ''localhost'' \<or> host = ''127.0.0.1''"

section \<open>Redis through the clients\<close>

definition at_server :: "string \<Rightarrow> (redis \<Rightarrow> 'a \<times> redis) \<Rightarrow> 'a step" where
  "at_server h f = (\<lambda>w. if w_down w h then (Inl (RedisError h), w)
     else (Inr (fst (f (w_servers w h))),
           w\<lparr>w_servers := (w_servers w)(h := snd (f (w_servers w h)))\<rparr>))"

definition ask :: "string \<Rightarrow> (redis \<Rightarrow> 'a) \<Rightarrow> 'a step" where
  "ask h f = (\<lambda>w. if w_down w h then (Inl (RedisError h), w) else (Inr (f (w_servers w h)), w))"

definition tell :: "string \<Rightarrow> (redis \<Rightarrow> redis) \<Rightarrow> unit step" where
  "tell h f = at_server h (\<lambda>r. ((), f r))"

lemma ask_run [act_simps]:
  "ask h f w = (if w_down w h then (Inl (RedisError h), w) else (Inr (f (w_servers w h)), w))"
  by (simp add: ask_def)

lemma tell_run [act_simps]:
  "tell h f w = (if w_down w h then (Inl (RedisError h), w)
     else (Inr (), w\<lparr>w_servers := (w_servers w)(h := f (w_servers w h))\<rparr>))"
  by (simp add: tell_def at_server_def)

lemma at_server_run [act_simps]:
  "at_server h f w = (if w_down w h then (Inl (RedisError h), w)
     else (Inr (fst (f (w_servers w h))), w\<lparr>w_servers := (w_servers w)(h := snd (f (w_servers w h)))\<rparr>))"
  by (simp add: at_server_def)

text \<open>Time passes where the code sleeps or waits.\<close>

definition sleep :: "rat \<Rightarrow> unit step" where
  "sleep d = modify_st (\<lambda>w. w\<lparr>w_now := w_now w + d\<rparr>)"

text \<open>
  \<open>run_in_parallel\<close>: every job runs, an error of one stops no other, and the results come in the
  order the jobs ended. Here a job runs without another's steps between its own; the order the
  jobs take effect in is \<open>e_order\<close>, any permutation (one that is not is read as submission order).
\<close>

definition scheduled :: "env \<Rightarrow> 'a list \<Rightarrow> 'a list" where
  "scheduled env xs = (let order = e_order env (length xs) in
     if distinct order \<and> set order = {..<length xs} then map ((!) xs) order else xs)"

definition attempt :: "'a step \<Rightarrow> (exn + 'a) step" where
  "attempt m = (\<lambda>w. (Inr (fst (m w)), snd (m w)))"

definition run_in_parallel :: "env \<Rightarrow> ('k \<times> 'a step) list \<Rightarrow> ('k \<times> (exn + 'a)) list step" where
  "run_in_parallel env jobs =
     map_each (scheduled env jobs) (\<lambda>(k, job). bnd (attempt job) (\<lambda>res. ret (k, res)))"

lemma attempt_run [act_simps]: "attempt m w = (Inr (fst (m w)), snd (m w))"
  by (simp add: attempt_def)

lemma never_raises_attempt [calm_intros]: "never_raises (attempt m)"
  by (simp add: never_raises_def attempt_def)

lemma keeps_attempt [pres_intros]: "keeps P m \<Longrightarrow> keeps P (attempt m)"
  by (simp add: keeps_def attempt_def)

lemma set_scheduled [simp]: "set (scheduled env xs) = set xs"
proof (cases "distinct (e_order env (length xs)) \<and> set (e_order env (length xs)) = {..<length xs}")
  case True
  then have "set (scheduled env xs) = (!) xs ` {..<length xs}" by (simp add: scheduled_def Let_def)
  also have "\<dots> = set xs" by (auto simp: in_set_conv_nth image_iff Bex_def lessThan_def)
  finally show ?thesis .
qed (auto simp: scheduled_def Let_def)

lemma scheduled_Nil [simp]: "scheduled env [] = []"
  by (simp add: scheduled_def Let_def)

lemma keeps_run_in_parallel [pres_intros]:
  "(\<And>k job. (k, job) \<in> set jobs \<Longrightarrow> keeps P job) \<Longrightarrow> keeps P (run_in_parallel env jobs)"
  unfolding run_in_parallel_def
  by (auto intro!: keeps_map_each keeps_bnd keeps_attempt keeps_ret split: prod.split)

lemma keeps_ask [pres_intros]: "keeps P (ask h f)"
  by (simp add: keeps_def ask_def)

section \<open>Replica records\<close>

definition instance_key :: "string \<Rightarrow> string" where
  "instance_key replica_id = ''agent_instance:'' @ replica_id"

definition instances_key :: "string \<Rightarrow> string" where
  "instances_key agent_name = ''agent:'' @ agent_name @ '':instances''"

definition has_address :: "hash \<Rightarrow> bool" where
  "has_address rec \<longleftrightarrow> opt_truthy (map_of rec ''address'')"

definition list_replicas :: "redis \<Rightarrow> string option \<Rightarrow> hash list" where
  "list_replicas r agent =
     (let keys = (if agent \<noteq> None \<and> agent \<noteq> Some []
                  then map instance_key (sort (rd_smembers (instances_key (the agent)) r))
                  else sort (rd_scan ''agent_instance:'' r))
      in filter has_address (map (\<lambda>k. rd_hgetall k r) keys))"

definition fld :: "hash \<Rightarrow> string \<Rightarrow> string" where
  "fld rec f = (case map_of rec f of Some (Raw s) \<Rightarrow> s | _ \<Rightarrow> [])"

definition need_float :: "hash \<Rightarrow> string \<Rightarrow> exn + pyfloat" where
  "need_float rec f = (case map_of rec f of
       None \<Rightarrow> Inl (KeyError f)
     | Some t \<Rightarrow> (case float_text t of None \<Rightarrow> Inl (ValueError f) | Some x \<Rightarrow> Inr x))"

definition machine_redis_for_replica :: "hash \<Rightarrow> string step" where
  "machine_redis_for_replica replica =
     (let host = fld replica ''private_host'' in
      if host = [] then ret LOCAL
      else bnd (read_st w_clients) (\<lambda>clients.
        if host \<in> set clients then ret host
        else case map_of replica ''redis_port'' of
            Some t \<Rightarrow> if text_truthy t \<and> int_text t = None then raise (ValueError ''redis_port'')
                      else bnd (modify_st (\<lambda>w. w\<lparr>w_clients := w_clients w @ [host]\<rparr>)) (\<lambda>_. ret host)
          | None \<Rightarrow> bnd (modify_st (\<lambda>w. w\<lparr>w_clients := w_clients w @ [host]\<rparr>)) (\<lambda>_. ret host)))"

definition remove_unused_redis_clients :: "hash list \<Rightarrow> unit step" where
  "remove_unused_redis_clients replicas =
     (if \<exists>rec\<in>set replicas. map_of rec ''private_host'' = None then raise (KeyError ''private_host'')
      else modify_st (\<lambda>w. w\<lparr>w_clients :=
        filter (\<lambda>h. h = LOCAL \<or> h \<in> set (map (\<lambda>rec. fld rec ''private_host'') replicas)) (w_clients w)\<rparr>))"

section \<open>Agent specs\<close>

definition set_agent_specs :: "spec list \<Rightarrow> unit step" where
  "set_agent_specs specs = modify_st (\<lambda>w. w\<lparr>w_specs := specs\<rparr>)"

text \<open>\<open>agent_specs_by_name\<close>: the last spec of a name, as a dict comprehension keeps it.\<close>

definition spec_by_name :: "spec list \<Rightarrow> string \<Rightarrow> spec option" where
  "spec_by_name specs n = map_of (map (\<lambda>sp. (spec_name sp, sp)) (rev specs)) n"

definition spec_type :: "spec \<Rightarrow> string" where
  "spec_type sp = (case dget_or sp ''type'' (VStr ''agent'') of VStr t \<Rightarrow> t | _ \<Rightarrow> [])"

text \<open>The names in \<open>agent_specs_by_name\<close>, in the order the dict keeps them.\<close>

definition spec_names :: "spec list \<Rightarrow> string list" where
  "spec_names specs = rev (remdups (rev (map spec_name specs)))"

definition refresh_agent_specs_from_redis :: "bool step" where
  "refresh_agent_specs_from_redis =
     catch
       (bnd (ask LOCAL read_config_specs) (\<lambda>res.
        bnd (of_res res) (\<lambda>specs.
        case specs of
          None \<Rightarrow> ret False
        | Some sps \<Rightarrow> bnd (read_st w_specs) (\<lambda>old.
            if sps = old then ret False
            else bnd (set_agent_specs sps) (\<lambda>_. ret True)))))
       (\<lambda>_. ret False)"

section \<open>Providers\<close>

record provider_schema =
  ps_section :: "string option"
  ps_machine_types :: "string option"
  ps_machine_keys :: "string list"
  ps_machine_per_replica :: "string option"

definition NAMES :: "string list" where
  "NAMES = [''local'', ''ec2-pool'', ''ec2-assign'']"

definition provider_schema_of :: "string \<Rightarrow> provider_schema" where
  "provider_schema_of n =
     (if n = ''ec2-pool'' then \<lparr>ps_section = Some ''ec2-pool'', ps_machine_types = Some ''machine_type'',
          ps_machine_keys = [''market_type''], ps_machine_per_replica = None\<rparr>
      else if n = ''ec2-assign'' then \<lparr>ps_section = Some ''ec2-assign'', ps_machine_types = None,
          ps_machine_keys = [''market_type''], ps_machine_per_replica = Some ''machine_type''\<rparr>
      else \<lparr>ps_section = None, ps_machine_types = None, ps_machine_keys = [],
          ps_machine_per_replica = None\<rparr>)"

definition canonical_name :: "val \<Rightarrow> exn + string" where
  "canonical_name v = (case v of
       VStr n \<Rightarrow> (case find (\<lambda>c. lower c = lower n) NAMES of
           Some c \<Rightarrow> Inr c | None \<Rightarrow> Inl (ValueError ''Unknown provider''))
     | _ \<Rightarrow> Inl (ValueError ''Unknown provider''))"

definition resolve_name :: "string \<Rightarrow> exn + string" where
  "resolve_name n = canonical_name (VStr (if n = ''EC2'' then ''ec2-pool'' else n))"

text \<open>\<open>providers.schema(name)\<close>, and \<open>providers.get(name)\<close>, which fails for the same names.\<close>

definition schema :: "string \<Rightarrow> exn + provider_schema" where
  "schema n = map_sum id provider_schema_of (resolve_name n)"

text \<open>\<open>_load_config\<close> on the parsed and expanded config.\<close>

definition endpoint_spec :: "dict \<Rightarrow> exn + spec" where
  "endpoint_spec endpoint =
     (case (map_of endpoint ''agent'', map_of endpoint ''method'') of
        (Some agent, Some meth) \<Rightarrow> Inr
          [(''name'', VStr ''endpoint''), (''type'', VStr ''endpoint''), (''replicas'', VInt 1),
           (''resources'', VDict [(''cpu'', VInt 2)]), (''api_port'', dget endpoint ''api_port''),
           (''agent'', agent), (''method'', meth), (''provider'', VStr ''local'')]
      | (None, _) \<Rightarrow> Inl (KeyError ''agent'')
      | (_, None) \<Rightarrow> Inl (KeyError ''method''))"

fun with_provider :: "string \<Rightarrow> val list \<Rightarrow> exn + spec list" where
  "with_provider p [] = Inr []"
| "with_provider p (VDict sp # vs) =
     map_sum id (\<lambda>sps. AList.update ''provider'' (VStr p) sp # sps) (with_provider p vs)"
| "with_provider p (_ # vs) = Inl (TypeError ''agent spec is not a mapping'')"

definition load_config :: "val \<Rightarrow> exn + (dict \<times> spec list)" where
  "load_config parsed = (case parsed of
     VDict config \<Rightarrow>
       if \<not> truthy (dget config ''project_id'') then Inl (RuntimeError ''no project_id'')
       else (case (map_of config ''agents'', map_of config ''endpoint'') of
           (None, _) \<Rightarrow> Inl (KeyError ''agents'')
         | (Some _, None) \<Rightarrow> Inl (KeyError ''endpoint'')
         | (Some (VList agents), Some (VDict endpoint)) \<Rightarrow>
             (case canonical_name (dget_or config ''provider'' (VStr ''local'')) of
                Inl e \<Rightarrow> Inl e
              | Inr p \<Rightarrow> (case with_provider p agents of
                  Inl e \<Rightarrow> Inl e
                | Inr specs \<Rightarrow> (case endpoint_spec endpoint of
                    Inl e \<Rightarrow> Inl e
                  | Inr esp \<Rightarrow> Inr (AList.update ''agents''
                        (VList (map VDict (specs @ [esp]))) config, specs @ [esp]))))
         | _ \<Rightarrow> Inl (TypeError ''agents or endpoint''))
   | _ \<Rightarrow> Inl (RuntimeError ''Config must contain a YAML mapping''))"

section \<open>Commands on machines\<close>

definition ssh_args :: "env \<Rightarrow> dict \<Rightarrow> string \<Rightarrow> string \<Rightarrow> command" where
  "ssh_args env config host user =
     [''ssh'', ''-o'', ''StrictHostKeyChecking=no'', ''-o'', ''IdentitiesOnly=yes'',
      ''-o'', ''ConnectTimeout=10'', ''-o'', ''ServerAliveInterval=10'',
      ''-o'', ''ServerAliveCountMax=3'', ''-i'',
      e_expanduser env (case dget_or config ''ssh_private_key_path'' (VStr ''~/.ssh/canyonos_ec2'')
        of VStr p \<Rightarrow> p | _ \<Rightarrow> []),
      if user \<noteq> [] then user @ ''@'' @ host else host]"

definition subprocess_run :: "env \<Rightarrow> command \<Rightarrow> proc_result step" where
  "subprocess_run env argv = (\<lambda>w. (Inr (e_subprocess env (w_commands w) argv),
     w\<lparr>w_commands := w_commands w @ [argv]\<rparr>))"

definition machine_argv :: "env \<Rightarrow> dict \<Rightarrow> command \<Rightarrow> string \<Rightarrow> string \<Rightarrow> command" where
  "machine_argv env config cmd host user =
     (if is_local_host host then cmd
      else ssh_args env config host user @
        [(if cmd \<noteq> [] \<and> hd cmd = ''docker'' then ''sudo '' else []) @ join '' '' cmd])"

text \<open>\<open>run_on_machine\<close> and \<open>_run_cmd\<close>: the exit code, standard output and standard error.\<close>

definition run_cmd :: "env \<Rightarrow> command \<Rightarrow> string \<Rightarrow> string \<Rightarrow> (int \<times> string \<times> string) step" where
  "run_cmd env cmd host user =
     bnd (read_st w_config) (\<lambda>config.
     bnd (subprocess_run env (machine_argv env config cmd host user)) (\<lambda>res.
       case res of
         Done code out err \<Rightarrow> ret (code, out, err)
       | TimedOut \<Rightarrow> raise (RuntimeError (''Command timed out after 180s on '' @ host @ '': '' @ join '' '' cmd))
       | OsError e \<Rightarrow> raise (RuntimeError (''Could not run command on '' @ host @ '': '' @ e))))"

section \<open>Invariants of the primitive steps\<close>

lemma keeps_tell: "(\<And>w. P w \<Longrightarrow> P (w\<lparr>w_servers := (w_servers w)(h := f (w_servers w h))\<rparr>)) \<Longrightarrow> keeps P (tell h f)"
  by (simp add: keeps_def tell_run)

lemma keeps_run_cmd:
  "(\<And>w argv. P w \<Longrightarrow> P (w\<lparr>w_commands := w_commands w @ [argv]\<rparr>)) \<Longrightarrow> keeps P (run_cmd env cmd host user)"
  unfolding run_cmd_def subprocess_run_def
  by (intro keeps_bnd keeps_read) (auto simp: keeps_def act_simps split: proc_result.split)

lemma keeps_machine_redis:
  "(\<And>w h. P w \<Longrightarrow> P (w\<lparr>w_clients := w_clients w @ [h]\<rparr>)) \<Longrightarrow> keeps P (machine_redis_for_replica replica)"
  unfolding machine_redis_for_replica_def Let_def
  by (intro keeps_if keeps_bnd keeps_ret keeps_read keeps_case_option keeps_raise keeps_modify) auto

lemma list_replicas_address: "rec \<in> set (list_replicas r agent) \<Longrightarrow> has_address rec"
  by (auto simp: list_replicas_def Let_def)

lemma list_replicas_all:
  "set (list_replicas r None) = {rec. has_address rec \<and> (\<exists>k\<in>set (rd_scan ''agent_instance:'' r). rec = rd_hgetall k r)}"
  by (auto simp: list_replicas_def Let_def)

lemma list_replicas_agent:
  "a \<noteq> [] \<Longrightarrow>
   set (list_replicas r (Some a)) =
     {rec. has_address rec \<and> (\<exists>i\<in>set (rd_smembers (instances_key a) r). rec = rd_hgetall (instance_key i) r)}"
  by (auto simp: list_replicas_def Let_def)

lemma spec_by_name_name: "spec_by_name specs n = Some sp \<Longrightarrow> sp \<in> set specs \<and> spec_name sp = n"
  by (auto simp: spec_by_name_def dest: map_of_SomeD)

lemma spec_by_name_None: "spec_by_name specs n = None \<longleftrightarrow> n \<notin> spec_name ` set specs"
  by (force simp: spec_by_name_def map_of_eq_None_iff)

lemma set_spec_names [simp]: "set (spec_names specs) = spec_name ` set specs"
  by (simp add: spec_names_def)

lemma with_provider_specs:
  "with_provider p vs = Inr specs \<Longrightarrow>
   map spec_name specs = map (\<lambda>v. case v of VDict sp \<Rightarrow> spec_name sp | _ \<Rightarrow> []) vs \<and>
   (\<forall>sp\<in>set specs. spec_provider sp = p)"
proof (induction p vs arbitrary: specs rule: with_provider.induct)
  case (2 p sp vs)
  then obtain sps where "with_provider p vs = Inr sps"
    "specs = AList.update ''provider'' (VStr p) sp # sps"
    by (cases "with_provider p vs") auto
  with 2 show ?case by (auto simp: spec_name_def spec_provider_def)
qed auto

lemma canonical_name_NAMES: "canonical_name v = Inr p \<Longrightarrow> p \<in> set NAMES"
  by (auto simp: canonical_name_def find_Some_iff split: val.splits option.splits)

end
