(* ===== verification/Containers.thy ===== *)
theory Containers
  imports Controller_Context
begin

text \<open>
  Names, flags and files of the containers the reconciler runs: the naming scheme
  (\<open>controller/utils/container_names.py\<close>), the resource flags (\<open>shared_utils/resource_limits.py\<close>),
  the LLM gateway's variables (\<open>shared_utils/llm_gateway_env.py\<close>), what Docker says of a container
  (\<open>shared_utils/docker_host.py\<close>), Docker's port conflicts (\<open>port_utils.py\<close> and \<open>replicas.py\<close>), the
  endpoint's record (\<open>endpoint/__init__.py\<close>), and the env file a container is started with
  (\<open>controller/utils/env_file.py\<close>, \<open>_push_file\<close>).
\<close>

section \<open>Names\<close>

definition CONTAINER_PORT :: int where "CONTAINER_PORT = 50051"
definition ENDPOINT_PORT :: int where "ENDPOINT_PORT = 8080"

definition name_prefix :: "env \<Rightarrow> string" where
  "name_prefix env = (if e_project env \<noteq> [] then ''canyonos-'' @ e_project env else ''canyonos'')"

definition project_group :: "env \<Rightarrow> string" where "project_group env = name_prefix env"

definition project_label_args :: "env \<Rightarrow> command" where
  "project_label_args env = [''--label'', ''com.docker.compose.project='' @ project_group env]"

definition container_name :: "env \<Rightarrow> string \<Rightarrow> string" where
  "container_name env replica_id = name_prefix env @ ''-'' @ lower replica_id"

definition redis_container_name :: "env \<Rightarrow> string \<Rightarrow> string" where
  "redis_container_name env host = name_prefix env @ ''-redis-'' @ replace_char CHR ''.'' CHR ''-'' host"

definition metrics_container_name :: "env \<Rightarrow> string \<Rightarrow> string" where
  "metrics_container_name env host = name_prefix env @ ''-metrics-'' @ replace_char CHR ''.'' CHR ''-'' host"

definition image_name :: "env \<Rightarrow> string \<Rightarrow> string" where
  "image_name env agent_name = name_prefix env @ ''-'' @ lower agent_name"

definition data_volume_name :: "env \<Rightarrow> string \<Rightarrow> string" where
  "data_volume_name env agent_name = name_prefix env @ ''-'' @ lower agent_name @ ''-data''"

section \<open>Flags\<close>

text \<open>\<open>str(x)\<close> of a config value; lists and mappings are never printed into a command.\<close>

definition py_str :: "env \<Rightarrow> val \<Rightarrow> string" where
  "py_str env v = (case v of
       VNone \<Rightarrow> ''None'' | VBool b \<Rightarrow> (if b then ''True'' else ''False'') | VInt i \<Rightarrow> str_int i
     | VFloat f \<Rightarrow> e_float_str env f | VStr s \<Rightarrow> s | VList _ \<Rightarrow> [] | VDict _ \<Rightarrow> [] | VTime _ _ \<Rightarrow> [])"

definition resource_limit_args :: "env \<Rightarrow> val \<Rightarrow> bool \<Rightarrow> command" where
  "resource_limit_args env resources apply_defaults =
     (let d = (case resources of VDict d \<Rightarrow> d | _ \<Rightarrow> []);
          cpu = val_or (dget d ''cpu'') (if apply_defaults then VInt 1 else VNone);
          memory = val_or (dget d ''memory'') (if apply_defaults then VInt 512 else VNone);
          gpu = val_or (dget d ''gpu'') (VInt 0)
      in (if truthy cpu then [''--cpus'', py_str env cpu] else []) @
         (if truthy memory then [''--memory'', py_str env memory @ ''m''] else []) @
         (if truthy gpu then [''--gpus'', py_str env gpu] else []))"

definition GATEWAY_HOST :: string where "GATEWAY_HOST = ''http://127.0.0.1:8081''"
definition PROXY_CA_BUNDLE :: string where "PROXY_CA_BUNDLE = ''/tmp/canyonos-proxy/ca-bundle.pem''"

definition llm_gateway_env_vars :: "(string \<times> string) list" where
  "llm_gateway_env_vars =
     [(''AWS_ENDPOINT_URL_BEDROCK_RUNTIME'', GATEWAY_HOST @ ''/bedrock''),
      (''HTTP_PROXY'', ''http://127.0.0.1:8082''), (''HTTPS_PROXY'', ''http://127.0.0.1:8082''),
      (''NO_PROXY'', ''127.0.0.1,localhost,169.254.169.254,169.254.170.2''),
      (''SSL_CERT_FILE'', PROXY_CA_BUNDLE), (''REQUESTS_CA_BUNDLE'', PROXY_CA_BUNDLE),
      (''AWS_CA_BUNDLE'', PROXY_CA_BUNDLE)]"

definition env_flag :: "string \<Rightarrow> string \<Rightarrow> command" where
  "env_flag name value = [''-e'', name @ ''='' @ value]"

definition llm_gateway_docker_env_args :: command where
  "llm_gateway_docker_env_args = concat (map (\<lambda>(name, value). env_flag name value) llm_gateway_env_vars)"

section \<open>What Docker says\<close>

definition container_running :: "env \<Rightarrow> string \<Rightarrow> string \<Rightarrow> string \<Rightarrow> bool step" where
  "container_running env container host user =
     catch
       (bnd (run_cmd env [''docker'', ''inspect'', ''-f'', ''{{.State.Running}}'', container] host user)
         (\<lambda>(code, out, err). ret (code = 0 \<and> strip out = ''true'')))
       (\<lambda>e. case e of RuntimeError _ \<Rightarrow> ret False | _ \<Rightarrow> raise e)"

definition is_port_conflict :: "string \<Rightarrow> bool" where
  "is_port_conflict stderr \<longleftrightarrow> contains ''port is already allocated'' stderr \<or>
     contains ''address already in use'' stderr"

text \<open>One to three digits at the start of \<open>s\<close>, not followed by another: what \<open>\d{1,3}\<close> takes where
  a dot or a colon has to follow.\<close>

definition take_octet :: "string \<Rightarrow> string option" where
  "take_octet s = (let ds = takeWhile is_digit s in
     if 1 \<le> length ds \<and> length ds \<le> 3 then Some (dropWhile is_digit s) else None)"

fun take_octets :: "nat \<Rightarrow> string \<Rightarrow> string option" where
  "take_octets 0 s = take_octet s"
| "take_octets (Suc n) s = (case take_octet s of
       Some (c # cs) \<Rightarrow> if c = CHR ''.'' then take_octets n cs else None
     | _ \<Rightarrow> None)"

definition is_hex_colon :: "char \<Rightarrow> bool" where
  "is_hex_colon c \<longleftrightarrow> c \<in> set ''0123456789abcdefABCDEF:''"

text \<open>The host part of \<open>_CLASHED_PORT\<close> at the start of \<open>s\<close>: an IPv4 address or a bracketed one.\<close>

definition take_host :: "string \<Rightarrow> string option" where
  "take_host s = (case s of
       c # cs \<Rightarrow> if c = CHR ''['' then (case dropWhile is_hex_colon cs of
           d # ds \<Rightarrow> if d = CHR '']'' then Some ds else None | [] \<Rightarrow> None)
         else take_octets 3 s
     | [] \<Rightarrow> None)"

fun clashed_port :: "string \<Rightarrow> int option" where
  "clashed_port [] = None"
| "clashed_port (c # cs) =
     (case take_host (c # cs) of
        Some (d # ds) \<Rightarrow>
          if d = CHR '':'' \<and> takeWhile is_digit ds \<noteq> []
          then map_option int (parse_digits False 0 (takeWhile is_digit ds))
          else clashed_port cs
      | _ \<Rightarrow> clashed_port cs)"

section \<open>The endpoint's record\<close>

definition ADDRESS_KEY :: string where "ADDRESS_KEY = ''endpoint:address''"

definition publish_endpoint_port :: "int \<Rightarrow> redis \<Rightarrow> (exn + unit) \<times> redis" where
  "publish_endpoint_port api_port r =
     (let record = rd_hgetall ADDRESS_KEY r in
      if map_of record ''public_host'' = None then (Inl (KeyError ''public_host''), r)
      else if map_of record ''method'' = None then (Inl (KeyError ''method''), r)
      else (Inr (), rd_hset_multiple ADDRESS_KEY
        [(''api_port'', Doc (VInt api_port)),
         (''url'', Raw (''http://'' @ fld record ''public_host'' @ '':'' @ str_int api_port @ ''/'' @ fld record ''method''))] r))"

text \<open>The port of the published record, where \<open>launch\<close> reads \<open>read_endpoint_record(...)["api_port"]\<close>.\<close>

definition read_endpoint_port :: "redis \<Rightarrow> exn + int" where
  "read_endpoint_port r =
     (let record = rd_hgetall ADDRESS_KEY r in
      if record = [] then Inl (TypeError ''no endpoint record'')
      else case map_of record ''api_port'' of
          None \<Rightarrow> Inl (KeyError ''api_port'')
        | Some t \<Rightarrow> (case int_text t of
            None \<Rightarrow> Inl (ValueError ''api_port'')
          | Some p \<Rightarrow> (case map_of record ''arguments'' of
              None \<Rightarrow> Inl (KeyError ''arguments'')
            | Some a \<Rightarrow> (if loads a = None then Inl (ValueError ''arguments'') else Inr p))))"

section \<open>The env file\<close>

fun split_on :: "char \<Rightarrow> string \<Rightarrow> string list" where
  "split_on c [] = [[]]"
| "split_on c (x # xs) = (if x = c then [] # split_on c xs
     else (case split_on c xs of p # ps \<Rightarrow> (x # p) # ps | [] \<Rightarrow> [[x]]))"

definition is_alnum :: "char \<Rightarrow> bool" where
  "is_alnum c \<longleftrightarrow> (let n = of_char c :: nat in
     (48 \<le> n \<and> n \<le> 57) \<or> (65 \<le> n \<and> n \<le> 90) \<or> (97 \<le> n \<and> n \<le> 122))"

definition path_char :: "char \<Rightarrow> bool" where
  "path_char c \<longleftrightarrow> is_alnum c \<or> c = CHR ''_'' \<or> c = CHR ''-''"

text \<open>\<open>[A-Za-z0-9_-][A-Za-z0-9_.-]*\<close>\<close>

definition path_component :: "string \<Rightarrow> bool" where
  "path_component s \<longleftrightarrow> (case s of [] \<Rightarrow> False
     | c # cs \<Rightarrow> path_char c \<and> list_all (\<lambda>d. path_char d \<or> d = CHR ''.'') cs)"

text \<open>\<open>_REMOTE_COPY_PATH.fullmatch\<close>: directories, the directory \<open>mktemp\<close> made, the file.\<close>

definition remote_copy_path :: "string \<Rightarrow> bool" where
  "remote_copy_path s \<longleftrightarrow> (case split_on CHR ''/'' s of
       [] # parts \<Rightarrow> (case rev parts of
           f # d # dirs \<Rightarrow> f = ''env'' \<and> prefix ''canyonos.'' d \<and>
             drop 9 d \<noteq> [] \<and> list_all is_alnum (drop 9 d) \<and> dirs \<noteq> [] \<and> list_all path_component dirs
         | _ \<Rightarrow> False)
     | _ \<Rightarrow> False)"

definition push_file :: "env \<Rightarrow> string \<Rightarrow> string \<Rightarrow> string \<Rightarrow> string step" where
  "push_file env local_path host user =
     bnd (read_st w_config) (\<lambda>config.
     bnd (subprocess_run env (ssh_args env config host user @
       [''umask 077 && d=$(mktemp -d \"${TMPDIR:-/tmp}/canyonos.XXXXXXXXXX\") && cat > \"$d/env\" && printf %s \"$d/env\"'']))
     (\<lambda>res. case res of
         TimedOut \<Rightarrow> raise (RuntimeError (''Copying '' @ local_path @ '' to '' @ host @ '' timed out after 180s''))
       | OsError e \<Rightarrow> raise (RuntimeError (''Could not copy '' @ local_path @ '' to '' @ host @ '': '' @ e))
       | Done code out err \<Rightarrow>
           if code \<noteq> 0 then raise (RuntimeError (''Failed to copy '' @ local_path @ '' to '' @ host @ '': '' @
               strip (if err \<noteq> [] then err else out)))
           else if \<not> remote_copy_path out then raise (RuntimeError (''Copying '' @ local_path @ '' to '' @ host @
               '' returned an unexpected path''))
           else ret out))"

definition dirname :: "string \<Rightarrow> string" where
  "dirname path = fst (rpartition CHR ''/'' path)"

definition remove_remote_copy :: "env \<Rightarrow> string \<Rightarrow> string \<Rightarrow> string \<Rightarrow> unit step" where
  "remove_remote_copy env remote_path host user =
     catch (bnd (run_cmd env [''rm'', ''-rf'', dirname remote_path] host user) (\<lambda>_. ret ())) (\<lambda>_. ret ())"

definition with_env_file_args :: "env \<Rightarrow> string \<Rightarrow> string \<Rightarrow> bool \<Rightarrow> (command \<Rightarrow> 'a step) \<Rightarrow> 'a step" where
  "with_env_file_args env host user is_local body =
     (case e_env_file env of
        None \<Rightarrow> body []
      | Some path \<Rightarrow>
          if is_local then body [''--env-file'', path]
          else bnd (push_file env path host user) (\<lambda>remote.
            finally_do (body [''--env-file'', remote]) (remove_remote_copy env remote host user)))"

section \<open>Facts\<close>

lemma split_on_nonempty [simp]: "split_on c s \<noteq> []"
  by (induction s) (auto split: list.split)

lemma split_on_Cons_cases:
  obtains (sep) "y = c" "split_on c (y # s) = [] # split_on c s"
  | (chr) p ps where "y \<noteq> c" "split_on c s = p # ps" "split_on c (y # s) = (y # p) # ps"
proof (cases "y = c")
  case False
  obtain p ps where "split_on c s = p # ps" by (cases "split_on c s") simp_all
  with False chr show thesis by simp
qed (use sep in simp)

lemma split_on_chars: "p \<in> set (split_on c s) \<Longrightarrow> x \<in> set p \<Longrightarrow> x \<in> set s \<and> x \<noteq> c"
proof (induction s arbitrary: p)
  case (Cons y s)
  show ?case
  proof (cases rule: split_on_Cons_cases[of y c s])
    case sep
    with Cons show ?thesis by auto
  next
    case (chr q qs)
    then have "p = y # q \<or> p \<in> set qs" using Cons.prems(1) by simp
    then show ?thesis
    proof
      assume "p = y # q"
      with Cons.IH[of q] Cons.prems(2) chr show ?thesis by auto
    next
      assume "p \<in> set qs"
      with Cons.IH[of p] Cons.prems(2) chr show ?thesis by simp
    qed
  qed
qed simp

lemma split_on_all: "x \<in> set s \<Longrightarrow> x \<noteq> c \<Longrightarrow> \<exists>p\<in>set (split_on c s). x \<in> set p"
proof (induction s)
  case (Cons y s)
  show ?case
  proof (cases rule: split_on_Cons_cases[of y c s])
    case sep
    with Cons show ?thesis by auto
  next
    case (chr q qs)
    with Cons show ?thesis by (cases "x = y") auto
  qed
qed simp

definition safe_path_char :: "char \<Rightarrow> bool" where
  "safe_path_char c \<longleftrightarrow> path_char c \<or> c = CHR ''.'' \<or> c = CHR ''/''"

lemma is_alnum_safe: "is_alnum x \<Longrightarrow> safe_path_char x"
  by (simp add: safe_path_char_def path_char_def)

lemma fixed_names_safe: "x \<in> set ''canyonos.'' \<Longrightarrow> safe_path_char x" "x \<in> set ''env'' \<Longrightarrow> safe_path_char x"
  by (elim set_ConsD[elim_format] disjE; simp add: safe_path_char_def path_char_def is_alnum_def)+

lemma path_component_chars: "path_component p \<Longrightarrow> x \<in> set p \<Longrightarrow> safe_path_char x"
  by (auto simp: path_component_def safe_path_char_def list_all_iff split: list.splits)

lemma path_component_no_dots: "path_component p \<Longrightarrow> p \<noteq> ''..'' \<and> p \<noteq> ''.'' \<and> p \<noteq> []"
  by (auto simp: path_component_def path_char_def is_alnum_def)

section \<open>Properties\<close>

text \<open>The path a remote machine reports for its copy of the env file, whose directory is later
  passed to \<open>rm -rf\<close> over SSH, is accepted only when it is absolute, has no character a shell
  would read specially, no empty or dotted directory above the one \<open>mktemp\<close> made, and at least
  one such directory, so the removal cannot leave it or reach the root.\<close>

theorem remote_copy_path_safe:
  assumes "remote_copy_path s"
  shows "list_all safe_path_char s \<and>
    (\<exists>dirs d. split_on CHR ''/'' s = [] # dirs @ [d, ''env''] \<and> dirs \<noteq> [] \<and>
       (\<forall>p\<in>set dirs. p \<noteq> ''..'' \<and> p \<noteq> ''.'' \<and> p \<noteq> []) \<and> prefix ''canyonos.'' d \<and> length d > 9)"
proof -
  from assms obtain parts f d rdirs where parts: "split_on CHR ''/'' s = [] # parts"
    and rev: "rev parts = f # d # rdirs" and f: "f = ''env''" and d: "prefix ''canyonos.'' d"
    "drop 9 d \<noteq> []" "list_all is_alnum (drop 9 d)" and dirs: "rdirs \<noteq> []" "list_all path_component rdirs"
    by (auto simp: remote_copy_path_def split: list.splits)
  from rev f have P: "parts = rev rdirs @ [d, ''env'']" by (metis append.assoc append_Cons append_Nil rev.simps(2) rev_rev_ident)
  have dchars: "\<forall>x\<in>set d. safe_path_char x"
  proof
    fix x assume "x \<in> set d"
    then have "x \<in> set (take 9 d) \<or> x \<in> set (drop 9 d)" by (rule take_drop_mem[THEN iffD1])
    then show "safe_path_char x"
    proof
      assume x: "x \<in> set (take 9 d)"
      have "take 9 d = ''canyonos.''" using d(1) by (auto simp: prefix_def)
      with x show ?thesis by (simp only: fixed_names_safe)
    next
      assume "x \<in> set (drop 9 d)"
      with d(3) show ?thesis by (auto simp only: list_all_iff intro: is_alnum_safe)
    qed
  qed
  have "safe_path_char x" if "x \<in> set s" for x
  proof (cases "x = CHR ''/''")
    case False
    with that obtain p where "p \<in> set (split_on CHR ''/'' s)" "x \<in> set p" using split_on_all by blast
    with parts P have "p \<in> set rdirs \<or> p = d \<or> p = ''env''" "x \<in> set p" by auto
    then show ?thesis using dirs(2) dchars path_component_chars fixed_names_safe(2)
      by (auto simp only: list_all_iff)
  qed (simp add: safe_path_char_def)
  moreover have "\<forall>p\<in>set (rev rdirs). p \<noteq> ''..'' \<and> p \<noteq> ''.'' \<and> p \<noteq> []"
    using dirs(2) path_component_no_dots by (auto simp: list_all_iff)
  moreover have "length d > 9" using d(2) by simp
  ultimately show ?thesis using parts P d(1) dirs(1)
    by (auto simp: list_all_iff intro!: exI[of _ "rev rdirs"] exI[of _ d])
qed

theorem remote_copy_path_safe_witness:
  "list_all safe_path_char ''/tmp/canyonos.ab12/env'' \<and> \<not> remote_copy_path ''/tmp/../canyonos.ab12/env''"
proof -
  have "remote_copy_path ''/tmp/canyonos.ab12/env''"
    by (simp add: remote_copy_path_def path_component_def path_char_def is_alnum_def)
  moreover have "\<not> remote_copy_path ''/tmp/../canyonos.ab12/env''"
    by (simp add: remote_copy_path_def path_component_def path_char_def is_alnum_def)
  ultimately show ?thesis using remote_copy_path_safe by blast
qed

text \<open>The copy is deleted whether the body returns or raises: the last command run is its removal.\<close>

lemma env_file_removed_last:
  assumes "e_env_file env = Some path" "\<not> is_local_host host"
    and "fst (push_file env path host user w) = Inr remote"
    and "w_config (snd (body [''--env-file'', remote] (snd (push_file env path host user w)))) = c"
  shows "\<exists>h. w_commands (snd (with_env_file_args env host user False body w)) =
     h @ [machine_argv env c [''rm'', ''-rf'', dirname remote] host user]"
proof -
  let ?w1 = "snd (push_file env path host user w)"
  let ?w2 = "snd (body [''--env-file'', remote] ?w1)"
  have push: "push_file env path host user w = (Inr remote, ?w1)"
    using assms(3) by (metis prod.collapse)
  have "w_commands (snd (remove_remote_copy env remote host user ?w2)) =
      w_commands ?w2 @ [machine_argv env c [''rm'', ''-rf'', dirname remote] host user]"
    using assms(4)
    by (simp add: remove_remote_copy_def run_cmd_def subprocess_run_def act_simps split: proc_result.split)
  moreover have "fst (remove_remote_copy env remote host user ?w2) = Inr ()"
    by (simp add: remove_remote_copy_def run_cmd_def subprocess_run_def act_simps split: proc_result.split)
  moreover have "snd (finally_do (body [''--env-file'', remote]) (remove_remote_copy env remote host user) ?w1)
      = snd (remove_remote_copy env remote host user ?w2)"
    by (simp add: finally_do_def split: prod.split sum.split)
  ultimately have "w_commands (snd (finally_do (body [''--env-file'', remote]) (remove_remote_copy env remote host user) ?w1))
      = w_commands ?w2 @ [machine_argv env c [''rm'', ''-rf'', dirname remote] host user]" by simp
  moreover have "with_env_file_args env host user False body w =
      finally_do (body [''--env-file'', remote]) (remove_remote_copy env remote host user) ?w1"
    using bnd_Inr[of "push_file env path host user" w, OF push] by (simp add: with_env_file_args_def assms(1))
  ultimately show ?thesis by simp
qed

end
