(* ===== verification/Replica_Launch.thy ===== *)
theory Replica_Launch
  imports Containers
begin

text \<open>
  Starting, checking and removing the container of one replica (\<open>reconciler/replicas.py\<close>). A
  launch is one run of \<open>launch\<close>: its \<open>docker run\<close> attempts are the recursion \<open>launch_attempts\<close>,
  whose first argument is the number of attempts left, \<open>MAX_PORT_ATTEMPTS\<close> at the start. The
  machine is its record; the record a launch returns is a Redis hash. The waits poll with fuel that
  the deadline makes enough (\<open>poll_reachable_fuel\<close>).
\<close>

definition MAX_PORT_ATTEMPTS :: nat where "MAX_PORT_ATTEMPTS = 50"
definition DRAIN_TIMEOUT_SECONDS :: rat where "DRAIN_TIMEOUT_SECONDS = 180"
definition NETWORK :: string where "NETWORK = ''canyonos-local''"
definition HOST_GATEWAY :: string where "HOST_GATEWAY = ''host.docker.internal''"
definition DEFAULT_REDIS_PORT :: int where "DEFAULT_REDIS_PORT = 6379"

definition status_key :: "string \<Rightarrow> string" where
  "status_key addr = ''controller:'' @ addr @ '':status''"

definition draining_key :: "string \<Rightarrow> string" where
  "draining_key addr = ''controller:'' @ addr @ '':draining''"

definition redis_port_of :: "world \<Rightarrow> string \<Rightarrow> int" where
  "redis_port_of w host = (case w_redis_ports w host of None \<Rightarrow> DEFAULT_REDIS_PORT | Some p \<Rightarrow> p)"

section \<open>Before the run\<close>

definition refuse_other_projects_container :: "env \<Rightarrow> string \<Rightarrow> string \<Rightarrow> string \<Rightarrow> unit step" where
  "refuse_other_projects_container env container host user =
     bnd (run_cmd env [''docker'', ''inspect'', ''-f'',
       ''{{index .Config.Labels \"com.docker.compose.project\"}}'', container] host user)
     (\<lambda>(code, out, err).
       if code \<noteq> 0 then
         (if contains ''no such'' (lower err) then ret ()
          else raise (ForeignContainerError (''Cannot launch '' @ container @
            '': a container with that name is running but Docker would not say which project owns it: '' @ strip err)))
       else let owner = strip out in
         if owner \<noteq> [] \<and> owner \<noteq> project_group env
         then raise (ForeignContainerError (''Cannot launch '' @ container @
           '': a container with that name already runs in Docker group '' @ owner))
         else ret ())"

definition callback_host :: "env \<Rightarrow> dict \<Rightarrow> spec \<Rightarrow> exn + string option" where
  "callback_host env config sp =
     (if spec_type sp \<noteq> ''endpoint'' then Inr None
      else case dget_or config ''provider'' (VStr ''local'') of
          VStr p \<Rightarrow> (case schema p of
              Inl e \<Rightarrow> Inl e
            | Inr sc \<Rightarrow> if ps_machine_types sc = None \<and> ps_machine_per_replica sc = None then Inr None
                else Inr (if e_private_ip env = [] then None else Some (e_private_ip env)))
        | _ \<Rightarrow> Inl (ValueError ''Unknown provider''))"

definition publishes_port :: "env \<Rightarrow> dict \<Rightarrow> hash \<Rightarrow> spec \<Rightarrow> exn + bool" where
  "publishes_port env config machine sp =
     (case map_of machine ''private_host'' of
        None \<Rightarrow> Inl (KeyError ''private_host'')
      | Some _ \<Rightarrow> if \<not> is_local_host (fld machine ''private_host'') \<or> spec_type sp = ''database'' then Inr True
          else map_sum id (\<lambda>h. h \<noteq> None) (callback_host env config sp))"

definition publish_args :: "string option \<Rightarrow> int \<Rightarrow> int \<Rightarrow> command" where
  "publish_args bind_ip host_port container_port =
     (let published = str_int host_port @ '':'' @ str_int container_port
      in [''-p'', (case bind_ip of Some ip \<Rightarrow> if ip = [] then published else ip @ '':'' @ published
                              | None \<Rightarrow> published)])"

definition clear_stale_status :: "string \<Rightarrow> string \<Rightarrow> string \<Rightarrow> string \<Rightarrow> unit step" where
  "clear_stale_status machine_redis host addr container =
     catch (tell machine_redis (rd_delete [status_key addr, draining_key addr]))
       (\<lambda>e. raise (RuntimeError (''Cannot launch '' @ container @
          '': could not clear the stale status keys at '' @ addr @ '' on '' @ host)))"

section \<open>A machine's Redis\<close>

text \<open>\<open>_wait_for_redis\<close>: one write a second until one is answered. Whether the server that was just
  started answers is read from \<open>e_redis_answers\<close> at each try.\<close>

fun poll_redis :: "env \<Rightarrow> string \<Rightarrow> rat \<Rightarrow> nat \<Rightarrow> unit step" where
  "poll_redis env host deadline 0 = raise (TimeoutError (''Timed out connecting to Redis at '' @ host))"
| "poll_redis env host deadline (Suc n) =
     bnd (read_st w_now) (\<lambda>now.
     if \<not> now < deadline then raise (TimeoutError (''Timed out connecting to Redis at '' @ host))
     else bnd (modify_st (\<lambda>w. w\<lparr>w_down := (w_down w)(host := \<not> e_redis_answers env now host)\<rparr>)) (\<lambda>_.
       bnd (attempt (tell host (rd_set ''__canyonos_redis_healthcheck__'' (Raw ''ok'')))) (\<lambda>res.
         case res of Inr _ \<Rightarrow> ret ()
         | Inl _ \<Rightarrow> bnd (sleep 1) (\<lambda>_. poll_redis env host deadline n))))"

definition wait_for_redis :: "env \<Rightarrow> string \<Rightarrow> unit step" where
  "wait_for_redis env host = bnd (read_st w_now) (\<lambda>now. poll_redis env host (now + 30) 31)"

definition start_redis :: "env \<Rightarrow> string \<Rightarrow> string \<Rightarrow> unit step" where
  "start_redis env host user =
     (if is_local_host host then ret ()
      else bnd (container_running env (redis_container_name env host) host user) (\<lambda>running.
        if running then ret ()
        else bnd (read_st (\<lambda>w. redis_port_of w host)) (\<lambda>port.
          bnd (machine_redis_for_replica [(''private_host'', Raw host), (''redis_port'', Doc (VInt port))]) (\<lambda>machine_redis.
          bnd (run_cmd env ([''docker'', ''run'', ''-d''] @ project_label_args env @
              [''--name'', redis_container_name env host] @ resource_limit_args env VNone True @
              [''-p'', str_int port @ '':'' @ str_int port, ''redis:alpine'', ''redis-server'', ''--port'', str_int port])
              host user)
            (\<lambda>(code, out, err).
              if code \<noteq> 0 then raise (RuntimeError (''Failed to start Redis on '' @ host @ '': '' @
                strip (if err \<noteq> [] then err else out)))
              else wait_for_redis env machine_redis)))))"

section \<open>The metrics collector\<close>

definition machine_metrics_key :: "string \<Rightarrow> string" where
  "machine_metrics_key host = ''machine:'' @ host @ '':metrics''"

definition collector_args :: "env \<Rightarrow> dict \<Rightarrow> string \<Rightarrow> string \<Rightarrow> int \<Rightarrow> bool \<Rightarrow> command" where
  "collector_args env config host img redis_port wants_gpu =
     [''docker'', ''run'', ''-d''] @ project_label_args env @
     [''--name'', metrics_container_name env host, ''--restart'', ''unless-stopped'', ''--pid=host'',
      ''--network=host'', ''-v'', ''/:/host:ro''] @
     (if wants_gpu then [''--gpus'', ''all''] else []) @
     [''-e'', ''CANYONOS_REDIS_HOST=localhost'', ''-e'', ''CANYONOS_REDIS_PORT='' @ str_int redis_port,
      ''-e'', ''CANYONOS_METRICS_KEY='' @ machine_metrics_key host,
      ''-e'', ''CANYONOS_POLL_INTERVAL='' @ py_str env (dget_or config ''poll_interval'' (VInt 5)),
      ''--entrypoint'', ''python'', img, ''-m'', ''canyonos_core.machine_metrics_poller'']"

definition start_metrics_collector :: "env \<Rightarrow> string \<Rightarrow> string \<Rightarrow> string \<Rightarrow> int \<Rightarrow> bool \<Rightarrow> string option step" where
  "start_metrics_collector env host user img redis_port wants_gpu =
     (let nm = metrics_container_name env host in
      catch
        (bnd (container_running env nm host user) (\<lambda>running.
           if running then ret (Some nm)
           else bnd (run_cmd env [''docker'', ''rm'', ''-f'', nm] host user) (\<lambda>_.
             bnd (read_st w_config) (\<lambda>config.
             bnd (run_cmd env (collector_args env config host img redis_port wants_gpu) host user)
               (\<lambda>(code, out, err). ret (if code \<noteq> 0 then None else Some nm))))))
        (\<lambda>_. ret None))"

section \<open>What runs\<close>

text \<open>\<open>_image_args\<close>: the endpoint's arguments. A \<open>StopIteration\<close> raised in the generator reaches the
  caller as a \<open>RuntimeError\<close>.\<close>

definition str_of :: "val \<Rightarrow> string" where
  "str_of v = (case v of VStr s \<Rightarrow> s | _ \<Rightarrow> [])"

fun find_function :: "val \<Rightarrow> val list \<Rightarrow> exn + dict" where
  "find_function m [] = Inl (RuntimeError ''generator raised StopIteration'')"
| "find_function m (VDict f # fs) = (case map_of f ''name'' of
       None \<Rightarrow> Inl (KeyError ''name'')
     | Some n \<Rightarrow> if n = m then Inr f else find_function m fs)"
| "find_function m (_ # fs) = Inl (TypeError ''function'')"

fun argument_names :: "val list \<Rightarrow> exn + string list" where
  "argument_names [] = Inr []"
| "argument_names (VDict a # as) = (case map_of a ''name'' of
       None \<Rightarrow> Inl (KeyError ''name'')
     | Some n \<Rightarrow> map_sum id (\<lambda>ns. str_of n # ns) (argument_names as))"
| "argument_names (_ # as) = Inl (TypeError ''argument'')"

definition endpoint_arguments :: "spec list \<Rightarrow> spec \<Rightarrow> exn + string list" where
  "endpoint_arguments specs sp =
     (case spec_by_name specs (str_of (dget sp ''agent'')) of
        None \<Rightarrow> Inl (KeyError (str_of (dget sp ''agent'')))
      | Some served \<Rightarrow> (case map_of served ''functions'' of
          None \<Rightarrow> Inl (KeyError ''functions'')
        | Some (VList fs) \<Rightarrow> (case find_function (dget sp ''method'') fs of
            Inl e \<Rightarrow> Inl e
          | Inr f \<Rightarrow> (case dget f ''arguments'' of
              VList as \<Rightarrow> argument_names as
            | v \<Rightarrow> if truthy v then Inl (TypeError ''arguments'') else Inr []))
        | Some _ \<Rightarrow> Inl (TypeError ''functions'')))"

definition with_image_args :: "env \<Rightarrow> spec \<Rightarrow> string \<Rightarrow> string \<Rightarrow> string \<Rightarrow> int option \<Rightarrow> (command \<Rightarrow> 'a step) \<Rightarrow> 'a step" where
  "with_image_args env sp img host user api_port body =
     (if spec_type sp = ''endpoint'' then
        (if e_controller_image env = [] then raise (RuntimeError ''CANYONOS_CONTROLLER_IMAGE is unset'')
         else bnd (read_st w_specs) (\<lambda>specs.
           bnd (of_res (endpoint_arguments specs sp)) (\<lambda>arguments.
           body [''-p'', (case api_port of Some p \<Rightarrow> str_int p | None \<Rightarrow> ''None'') @ '':'' @ str_int ENDPOINT_PORT,
             ''-e'', ''CANYONOS_ENDPOINT_AGENT='' @ str_of (dget sp ''agent''),
             ''-e'', ''CANYONOS_ENDPOINT_METHOD='' @ str_of (dget sp ''method''),
             ''-e'', ''CANYONOS_ENDPOINT_ARGUMENTS='' @ join '','' arguments,
             ''--entrypoint'', ''python'', e_controller_image env, ''-m'', ''canyonos_core.endpoint''])))
      else with_env_file_args env host user (is_local_host host) (\<lambda>args. body (args @ [img])))"

section \<open>The launch\<close>

definition py_int :: "val \<Rightarrow> exn + int" where
  "py_int v = (case v of
       VInt i \<Rightarrow> Inr i
     | VBool b \<Rightarrow> Inr (if b then 1 else 0)
     | VFloat (Fin q) \<Rightarrow> Inr (if q < 0 then \<lceil>q\<rceil> else \<lfloor>q\<rfloor>)
     | VFloat _ \<Rightarrow> Inl (ValueError ''int'')
     | VStr s \<Rightarrow> (case int_str s of None \<Rightarrow> Inl (ValueError ''int'') | Some i \<Rightarrow> Inr i)
     | _ \<Rightarrow> Inl (TypeError ''int''))"

definition orphan_running :: "int \<Rightarrow> string \<Rightarrow> bool" where
  "orphan_running code out \<longleftrightarrow> code = 0 \<and> strip out = ''true''"

text \<open>A leftover container with the replica's name is removed, unless it is another project's.\<close>

definition remove_orphan :: "env \<Rightarrow> string \<Rightarrow> string \<Rightarrow> string \<Rightarrow> unit step" where
  "remove_orphan env container host user =
     bnd (run_cmd env [''docker'', ''inspect'', ''-f'', ''{{.State.Running}}'', container] host user)
       (\<lambda>(code, out, err).
         if orphan_running code out then
           bnd (refuse_other_projects_container env container host user) (\<lambda>_.
           bnd (run_cmd env [''docker'', ''rm'', ''-f'', ''-v'', container] host user) (\<lambda>_. ret ()))
         else ret ())"

record launch_plan =
  lp_spec :: spec
  lp_id :: string
  lp_container :: string
  lp_image :: string
  lp_host :: string
  lp_user :: string
  lp_redis :: string
  lp_redis_host :: string
  lp_redis_port :: int
  lp_container_port :: int
  lp_callback :: "string option"
  lp_publish :: bool

definition lp_is_local :: "launch_plan \<Rightarrow> bool" where
  "lp_is_local p \<longleftrightarrow> is_local_host (lp_host p)"

definition agent_endpoint :: "launch_plan \<Rightarrow> int \<Rightarrow> string \<times> int" where
  "agent_endpoint p host_port =
     (if lp_is_local p \<and> lp_callback p = None then (lp_container p, lp_container_port p)
      else (case lp_callback p of Some h \<Rightarrow> h | None \<Rightarrow> lp_host p, host_port))"

definition agent_address :: "launch_plan \<Rightarrow> int \<Rightarrow> string" where
  "agent_address p host_port = fst (agent_endpoint p host_port) @ '':'' @ str_int (snd (agent_endpoint p host_port))"

definition bind_ip :: "launch_plan \<Rightarrow> string option" where
  "bind_ip p = (case lp_callback p of Some h \<Rightarrow> Some h
                | None \<Rightarrow> if lp_is_local p then None else Some (lp_host p))"

definition env_pairs :: "env \<Rightarrow> spec \<Rightarrow> command" where
  "env_pairs env sp = (case dget_or sp ''env'' (VDict []) of
       VDict d \<Rightarrow> concat (map (\<lambda>(k, v). env_flag k (py_str env v)) d) | _ \<Rightarrow> [])"

definition run_args :: "env \<Rightarrow> dict \<Rightarrow> launch_plan \<Rightarrow> int \<Rightarrow> command" where
  "run_args env config p host_port =
     (let (agent_host, agent_port) = agent_endpoint p host_port; sp = lp_spec p in
      [''docker'', ''run'', ''-d''] @ project_label_args env @
      (if lp_is_local p then [''--network'', NETWORK] else [''--restart'', ''unless-stopped'']) @
      [''--name'', lp_container p, ''--add-host'', ''host.docker.internal:host-gateway''] @
      (if lp_publish p then publish_args (bind_ip p) host_port (lp_container_port p) else []) @
      [''--stop-timeout'', ''180''] @
      env_flag ''CANYONOS_SHUTDOWN_GRACE_SECONDS'' ''180'' @
      env_flag ''CANYONOS_AGENT_PORT'' (str_int agent_port) @
      env_flag ''CANYONOS_AGENT_HOST'' agent_host @
      env_flag ''CANYONOS_REPLICA_ID'' (lp_id p) @
      env_flag ''CANYONOS_REDIS_HOST'' (lp_redis_host p) @
      env_flag ''CANYONOS_REDIS_PORT'' (str_int (lp_redis_port p)) @
      env_flag ''CANYONOS_POLL_INTERVAL'' (py_str env (dget_or config ''poll_interval'' (VInt 5))) @
      llm_gateway_docker_env_args @
      env_flag ''CANYONOS_LOGS_ENABLED'' (if truthy (dget_or config ''logs'' (VBool True)) then ''true'' else ''false'') @
      (if spec_type sp = ''database'' then
         (let vp = dget sp ''volume_path'' in
          if truthy vp then [''-v'', data_volume_name env (spec_name sp) @ '':'' @ py_str env vp] else []) @
         env_pairs env sp
       else []) @
      resource_limit_args env (dget sp ''resources'') (spec_type sp \<noteq> ''database''))"

text \<open>One attempt: the stale keys are cleared last before \<open>docker run\<close>.\<close>

definition docker_run :: "env \<Rightarrow> launch_plan \<Rightarrow> int \<Rightarrow> int option \<Rightarrow> (int \<times> string \<times> string) step" where
  "docker_run env p host_port api_port =
     bnd (clear_stale_status (lp_redis p) (lp_host p) (agent_address p host_port) (lp_container p)) (\<lambda>_.
     bnd (read_st w_config) (\<lambda>config.
     with_image_args env (lp_spec p) (lp_image p) (lp_host p) (lp_user p) api_port (\<lambda>args.
       run_cmd env (run_args env config p host_port @ args) (lp_host p) (lp_user p))))"

text \<open>The ports of the next attempt after a port conflict.\<close>

definition retry_ports :: "launch_plan \<Rightarrow> int \<Rightarrow> int option \<Rightarrow> string \<Rightarrow> exn + (int \<times> int option)" where
  "retry_ports p host_port api_port err =
     (let clashed = clashed_port err; moved = (case api_port of None \<Rightarrow> 0 | Some ap \<Rightarrow> ap) in
      if moved \<noteq> 0 \<and> clashed = Some moved \<and> \<not> truthy (dget (lp_spec p) ''api_port'')
      then Inr (host_port, Some (moved + 1))
      else if clashed \<noteq> None \<and> clashed \<noteq> Some host_port
      then Inl (RuntimeError (''Port '' @ str_int (the clashed) @ '' is already in use on '' @ lp_host p))
      else Inr (host_port + 1, api_port))"

definition launch_failure :: "launch_plan \<Rightarrow> string \<Rightarrow> exn" where
  "launch_failure p err = RuntimeError (if contains ''contains whitespaces'' err
     then strip err @ '' Docker reads .env lines only as KEY=value, with no `export` and no spaces around `=`.''
     else ''Failed to launch '' @ lp_container p @ '': '' @ err)"

text \<open>
  The \<open>for attempt in range(MAX_PORT_ATTEMPTS)\<close> loop: the host port and API port of the attempt
  that Docker accepted.
\<close>

fun launch_attempts :: "env \<Rightarrow> launch_plan \<Rightarrow> nat \<Rightarrow> int \<Rightarrow> int option \<Rightarrow> (int \<times> int option) step" where
  "launch_attempts env p 0 host_port api_port =
     raise (RuntimeError (''Failed to launch '' @ lp_container p @ '': no free port found''))"
| "launch_attempts env p (Suc n) host_port api_port =
     bnd (docker_run env p host_port api_port) (\<lambda>(code, out, err).
       if code = 0 then ret (host_port, api_port)
       else if is_port_conflict err then
         bnd (run_cmd env [''docker'', ''rm'', ''-f'', ''-v'', lp_container p] (lp_host p) (lp_user p)) (\<lambda>_.
         bnd (of_res (retry_ports p host_port api_port err)) (\<lambda>(host_port', api_port').
         launch_attempts env p n host_port' api_port'))
       else raise (launch_failure p err))"

text \<open>\<open>_wait_until_reachable\<close>: one connection attempt every two seconds.\<close>

fun poll_reachable :: "env \<Rightarrow> string \<Rightarrow> string \<Rightarrow> int \<Rightarrow> rat \<Rightarrow> nat \<Rightarrow> unit step" where
  "poll_reachable env addr host port deadline 0 =
     raise (TimeoutError (''Replica address never became reachable at '' @ addr))"
| "poll_reachable env addr host port deadline (Suc n) =
     bnd (read_st w_now) (\<lambda>now.
     if \<not> now < deadline then raise (TimeoutError (''Replica address never became reachable at '' @ addr))
     else if e_port_open env now host port then ret ()
     else bnd (sleep 2) (\<lambda>_. poll_reachable env addr host port deadline n))"

definition wait_until_reachable :: "env \<Rightarrow> string \<Rightarrow> int \<Rightarrow> unit step" where
  "wait_until_reachable env addr timeout =
     (case split_on CHR '':'' addr of
        [host, port] \<Rightarrow> bnd (read_st w_now) (\<lambda>now.
          if timeout \<le> 0 then raise (TimeoutError (''Replica address never became reachable at '' @ addr))
          else case int_str port of
            None \<Rightarrow> raise (ValueError ''int'')
          | Some pt \<Rightarrow> poll_reachable env addr host pt (now + of_int timeout) (Suc (nat timeout)))
      | _ \<Rightarrow> raise (ValueError ''too many values to unpack''))"

definition container_log_tail :: "env \<Rightarrow> hash \<Rightarrow> int \<Rightarrow> (string \<times> string) step" where
  "container_log_tail env rec lines =
     (if fld rec ''container_name'' = [] then raise (RuntimeError ''no container'')
      else bnd (run_cmd env [''docker'', ''logs'', ''--tail'', str_int lines, fld rec ''container_name'']
             (fld rec ''private_host'') (fld rec ''user''))
           (\<lambda>(code, out, err). if code \<noteq> 0 then raise (RuntimeError (strip (if err \<noteq> [] then err else out)))
             else ret (out, err)))"

text \<open>\<open>dump_container_log\<close>: the lines go to this process's log; reading them is the only effect.\<close>

definition dump_container_log :: "env \<Rightarrow> hash \<Rightarrow> unit step" where
  "dump_container_log env rec =
     bnd (of_res (need rec ''agent_name'')) (\<lambda>_.
     bnd (catch (bnd (container_log_tail env rec 40) (\<lambda>_. ret ())) (\<lambda>_. ret ())) (\<lambda>_.
     bnd (of_res (need rec ''private_host'')) (\<lambda>_.
     bnd (of_res (need rec ''host_port'')) (\<lambda>_. ret ()))))"

definition launched_record :: "launch_plan \<Rightarrow> hash \<Rightarrow> int \<Rightarrow> hash" where
  "launched_record p machine host_port =
     [(''agent_name'', Raw (spec_name (lp_spec p))),
      (''provider'', str_val (dget (lp_spec p) ''provider'')),
      (''replica_id'', Raw (lp_id p)),
      (''private_host'', Raw (lp_host p)),
      (''public_host'', Raw (fld machine ''public_host'')),
      (''host_port'', Doc (VInt host_port)),
      (''container_port'', Doc (VInt (lp_container_port p))),
      (''published_address'', Raw (if lp_publish p then lp_host p @ '':'' @ str_int host_port
                                   else agent_address p host_port)),
      (''address'', Raw (agent_address p host_port)),
      (''redis_host'', Raw (lp_redis_host p)),
      (''redis_port'', Doc (VInt (lp_redis_port p))),
      (''container_name'', Raw (lp_container p))] @
     (if lp_user p \<noteq> [] then [(''user'', Raw (lp_user p))] else [])"

text \<open>From the chosen port on: publish the endpoint's port, build the record, wait for it to answer.\<close>

definition finish_launch :: "env \<Rightarrow> launch_plan \<Rightarrow> hash \<Rightarrow> int \<Rightarrow> int option \<Rightarrow> hash step" where
  "finish_launch env p machine host_port api_port =
     bnd (case api_port of
            Some ap \<Rightarrow> if ap \<noteq> 0 then bnd (at_server LOCAL (publish_endpoint_port ap)) of_res else ret ()
          | None \<Rightarrow> ret ()) (\<lambda>_.
     bnd (of_res (need (lp_spec p) ''provider'')) (\<lambda>_.
     bnd (of_res (need machine ''public_host'')) (\<lambda>_.
     let rec = launched_record p machine host_port in
     case map_of machine ''container_timeout'' of
       None \<Rightarrow> ret rec
     | Some t \<Rightarrow>
         if \<not> text_truthy t then ret rec
         else (case int_text t of
             None \<Rightarrow> raise (ValueError ''int'')
           | Some timeout \<Rightarrow>
               bnd (catch (wait_until_reachable env (agent_address p host_port) timeout)
                 (\<lambda>e. case e of TimeoutError _ \<Rightarrow> bnd (dump_container_log env rec) (\<lambda>_. raise e) | _ \<Rightarrow> raise e))
               (\<lambda>_. ret rec)))))"

text \<open>The ports of a launch: a database's is the configured one.\<close>

definition launch_ports :: "env \<Rightarrow> spec \<Rightarrow> bool \<Rightarrow> int \<Rightarrow> exn + (int \<times> int)" where
  "launch_ports env sp is_local host_port =
     (if spec_type sp = ''database'' then
        (case py_int (dget_or sp ''db_port'' (VInt 5432)) of
           Inl e \<Rightarrow> Inl e
         | Inr db_port \<Rightarrow>
             if is_local \<and> e_port_bound env db_port
             then Inl (RuntimeError (''db_port '' @ str_int db_port @ '' is already in use''))
             else Inr (db_port, 5432))
      else Inr (host_port, CONTAINER_PORT))"

definition launch :: "env \<Rightarrow> hash \<Rightarrow> spec \<Rightarrow> int \<Rightarrow> string \<Rightarrow> hash step" where
  "launch env machine sp host_port replica_id =
     (let host = fld machine ''private_host''; user = fld machine ''user'';
          container = container_name env replica_id; is_local = is_local_host host in
      bnd (of_res (need machine ''private_host'')) (\<lambda>_.
      bnd (remove_orphan env container host user) (\<lambda>_.
      bnd (of_res (launch_ports env sp is_local host_port)) (\<lambda>(host_port, container_port).
      bnd (read_st (\<lambda>w. redis_port_of w host)) (\<lambda>redis_port.
      bnd (machine_redis_for_replica [(''private_host'', Raw host), (''redis_port'', Doc (VInt redis_port))]) (\<lambda>machine_redis.
      bnd (start_redis env host user) (\<lambda>_.
      bnd (if spec_type sp = ''endpoint''
           then bnd (ask LOCAL read_endpoint_port) (\<lambda>r. bnd (of_res r) (\<lambda>p. ret (Some p)))
           else ret None) (\<lambda>api_port.
      bnd (read_st w_config) (\<lambda>config.
      bnd (of_res (callback_host env config sp)) (\<lambda>callback.
      bnd (of_res (publishes_port env config machine sp)) (\<lambda>publish.
      let p = \<lparr>lp_spec = sp, lp_id = replica_id, lp_container = container,
            lp_image = image_name env (spec_name sp), lp_host = host, lp_user = user,
            lp_redis = machine_redis,
            lp_redis_host = (if is_local then redis_container_name env host else HOST_GATEWAY),
            lp_redis_port = redis_port, lp_container_port = container_port,
            lp_callback = callback, lp_publish = publish\<rparr> in
      bnd (launch_attempts env p MAX_PORT_ATTEMPTS host_port api_port) (\<lambda>(host_port, api_port).
      finish_launch env p machine host_port api_port))))))))))))"

section \<open>Removing and checking\<close>

definition remove_container :: "env \<Rightarrow> hash \<Rightarrow> unit step" where
  "remove_container env rec =
     (if fld rec ''container_name'' = [] then ret ()
      else bnd (of_res (need rec ''private_host'')) (\<lambda>_.
        bnd (run_cmd env [''docker'', ''rm'', ''-f'', ''-v'', fld rec ''container_name'']
               (fld rec ''private_host'') (fld rec ''user''))
          (\<lambda>(code, out, err).
            let detail = strip (if err \<noteq> [] then err else out) in
            if code \<noteq> 0 \<and> \<not> contains ''no such container'' (lower detail)
            then raise (RuntimeError (''Failed to remove container '' @ fld rec ''container_name'' @ '': '' @
              (if detail \<noteq> [] then detail else ''exit code '' @ str_int code)))
            else ret ())))"

definition is_running :: "env \<Rightarrow> hash \<Rightarrow> bool step" where
  "is_running env rec =
     bnd (of_res (need rec ''container_name'')) (\<lambda>_.
     bnd (of_res (need rec ''private_host'')) (\<lambda>_.
     container_running env (fld rec ''container_name'') (fld rec ''private_host'') (fld rec ''user'')))"

section \<open>What the steps of a launch leave alone\<close>

text \<open>Commands, the env file and the image arguments write to no Redis and change no config.\<close>

named_theorems quiet \<open>steps that only run commands\<close>

definition same_but_commands :: "world \<Rightarrow> world \<Rightarrow> bool" where
  "same_but_commands w0 w \<longleftrightarrow> w\<lparr>w_commands := w_commands w0\<rparr> = w0 \<and> prefix (w_commands w0) (w_commands w)"

lemma sbc_refl [simp]: "same_but_commands w w"
  by (simp add: same_but_commands_def)

lemma sbcD:
  assumes "same_but_commands w0 w"
  shows "w_servers w = w_servers w0" "w_down w = w_down w0" "w_config w = w_config w0"
    "w_clients w = w_clients w0" "w_specs w = w_specs w0" "w_now w = w_now w0"
    "prefix (w_commands w0) (w_commands w)"
  using assms unfolding same_but_commands_def by (cases w; cases w0; simp)+

lemma sbc_command: "same_but_commands w0 w \<Longrightarrow> same_but_commands w0 (w\<lparr>w_commands := w_commands w @ [argv]\<rparr>)"
  by (simp add: same_but_commands_def)

lemma sbc_trans: "same_but_commands a b \<Longrightarrow> same_but_commands b c \<Longrightarrow> same_but_commands a c"
  unfolding same_but_commands_def by (cases a; cases b; cases c; simp)

lemma quiet_subprocess [quiet]: "keeps (same_but_commands w0) (subprocess_run env argv)"
  by (simp add: keeps_def subprocess_run_def sbc_command)

lemma quiet_run_cmd [quiet]: "keeps (same_but_commands w0) (run_cmd env cmd host user)"
  by (rule keeps_run_cmd) (rule sbc_command)

lemma quiet_push_file [quiet]: "keeps (same_but_commands w0) (push_file env path host user)"
  unfolding push_file_def
  by (intro keeps_bnd quiet keeps_read) (auto split: proc_result.split intro: pres_intros)

lemma quiet_remove_copy [quiet]: "keeps (same_but_commands w0) (remove_remote_copy env path host user)"
  unfolding remove_remote_copy_def by (intro keeps_catch keeps_bnd quiet keeps_ret)

lemma quiet_env_file: "(\<And>a. keeps (same_but_commands w0) (body a)) \<Longrightarrow>
    keeps (same_but_commands w0) (with_env_file_args env host user is_local body)"
  unfolding with_env_file_args_def
  by (cases "e_env_file env") (auto intro!: keeps_bnd keeps_finally quiet)

lemma quiet_image_args: "(\<And>a. keeps (same_but_commands w0) (body a)) \<Longrightarrow>
    keeps (same_but_commands w0) (with_image_args env sp img host user ap body)"
  unfolding with_image_args_def
  by (intro keeps_if keeps_raise keeps_bnd keeps_read keeps_of_res quiet_env_file) auto

lemma quiet_container_running [quiet]: "keeps (same_but_commands w0) (container_running env c host user)"
  unfolding container_running_def
  by (intro keeps_catch keeps_bnd quiet) (auto split: exn.split intro: pres_intros)

lemma quiet_log_tail [quiet]: "keeps (same_but_commands w0) (container_log_tail env rec n)"
  unfolding container_log_tail_def by (intro keeps_if keeps_raise keeps_bnd quiet) (auto intro: pres_intros)

lemma quiet_dump_log [quiet]: "keeps (same_but_commands w0) (dump_container_log env rec)"
  unfolding dump_container_log_def by (intro keeps_bnd keeps_catch keeps_of_res quiet keeps_ret)

lemma quiet_remove_container [quiet]: "keeps (same_but_commands w0) (remove_container env rec)"
  unfolding remove_container_def Let_def
  by (intro keeps_if keeps_raise keeps_bnd quiet keeps_ret keeps_of_res) (auto intro: pres_intros)

lemma quietD: "keeps (same_but_commands w) m \<Longrightarrow> m w = (res, w') \<Longrightarrow> same_but_commands w w'"
  by (metis keepsD sbc_refl snd_conv)

text \<open>The status and drain keys at an address.\<close>

definition cleared :: "string \<Rightarrow> string \<Rightarrow> world \<Rightarrow> bool" where
  "cleared h addr w \<longleftrightarrow> rd_get (status_key addr) (w_servers w h) = None \<and>
     rd_get (draining_key addr) (w_servers w h) = None"

lemma cleared_sbc: "same_but_commands w0 w \<Longrightarrow> cleared h addr w \<longleftrightarrow> cleared h addr w0"
  by (simp add: cleared_def sbcD(1))

lemma clear_stale_clears:
  "clear_stale_status h host addr c w = (Inr u, w') \<Longrightarrow>
   cleared h addr w' \<and> w_commands w' = w_commands w \<and> w_config w' = w_config w"
  by (auto simp: clear_stale_status_def catch_run tell_run raise_run cleared_def get_delete
      split: if_splits)

section \<open>The port a launch ends on\<close>

definition accepted :: "env \<Rightarrow> dict \<Rightarrow> launch_plan \<Rightarrow> int \<Rightarrow> world \<Rightarrow> bool" where
  "accepted env config p host_port w \<longleftrightarrow>
     (\<exists>before args out err. let argv = machine_argv env config (run_args env config p host_port @ args) (lp_host p) (lp_user p) in
        prefix (before @ [argv]) (w_commands w) \<and> e_subprocess env before argv = Done 0 out err)"

lemma accepted_mono: "accepted env config p hp w \<Longrightarrow> prefix (w_commands w) (w_commands w') \<Longrightarrow> accepted env config p hp w'"
  unfolding accepted_def Let_def by (meson prefix_order.trans)

lemma run_cmd_ok:
  "run_cmd env cmd host user w = (Inr (code, out, err), w') \<Longrightarrow>
   let argv = machine_argv env (w_config w) cmd host user in
     e_subprocess env (w_commands w) argv = Done code out err \<and> w_commands w' = w_commands w @ [argv]"
  by (auto simp: run_cmd_def subprocess_run_def bnd_run read_run ret_run raise_run Let_def split: proc_result.splits)

text \<open>Whatever the image arguments are, the body ran with some arguments and gave the result.\<close>

lemma finally_body:
  "finally_do m c w = (Inr x, w') \<Longrightarrow> \<exists>w1. m w = (Inr x, w1) \<and> c w1 = (Inr (), w')"
  by (auto simp: finally_do_def split: prod.splits sum.splits)

lemma env_file_body:
  assumes "with_env_file_args env host user is_local body w = (Inr x, w')"
  shows "\<exists>args w1 w2. body args w1 = (Inr x, w2) \<and> same_but_commands w w1 \<and> same_but_commands w2 w'"
proof (cases "e_env_file env = None \<or> is_local")
  case True
  with assms show ?thesis unfolding with_env_file_args_def
    by (cases "e_env_file env") (force intro: sbc_refl)+
next
  case False
  then obtain path where "e_env_file env = Some path" "\<not> is_local" by auto
  with assms obtain remote w1 where 1: "push_file env path host user w = (Inr remote, w1)"
    "finally_do (body [''--env-file'', remote]) (remove_remote_copy env remote host user) w1 = (Inr x, w')"
    unfolding with_env_file_args_def by (auto dest!: bnd_InrD)
  then obtain w2 where "body [''--env-file'', remote] w1 = (Inr x, w2)"
    "remove_remote_copy env remote host user w2 = (Inr (), w')" by (auto dest!: finally_body)
  with 1(1) show ?thesis using quietD[OF quiet_push_file] quietD[OF quiet_remove_copy] by blast
qed

lemma image_args_body:
  assumes "with_image_args env sp img host user ap body w = (Inr x, w')"
  shows "\<exists>args w1 w2. body args w1 = (Inr x, w2) \<and> same_but_commands w w1 \<and> same_but_commands w2 w'"
proof (cases "spec_type sp = ''endpoint''")
  case True
  with assms obtain args where "body args w = (Inr x, w')"
    by (auto simp: with_image_args_def bnd_run read_run of_res_run raise_run split: if_splits sum.splits)
  then show ?thesis by (metis sbc_refl)
next
  case False
  with assms have "with_env_file_args env host user (is_local_host host) (\<lambda>args. body (args @ [img])) w = (Inr x, w')"
    by (simp add: with_image_args_def)
  from env_file_body[OF this] show ?thesis by blast
qed

lemma docker_run_accepted:
  assumes "with_image_args env sp img (lp_host p) (lp_user p) ap
      (\<lambda>args. run_cmd env (run_args env config p hp @ args) (lp_host p) (lp_user p)) w = (Inr (0, out, err), w')"
    and "w_config w = config"
  shows "accepted env config p hp w'"
proof -
  from image_args_body[OF assms(1)] obtain args w1 w2
    where run: "run_cmd env (run_args env config p hp @ args) (lp_host p) (lp_user p) w1 = (Inr (0, out, err), w2)"
      and q: "same_but_commands w w1" "same_but_commands w2 w'" by blast
  from run_cmd_ok[OF run] assms(2) have "accepted env config p hp w2"
    by (auto simp: accepted_def Let_def sbcD(3)[OF q(1)])
  then show ?thesis using accepted_mono sbcD(7)[OF q(2)] by blast
qed

lemma docker_run_end:
  assumes "docker_run env p hp ap w = (Inr (code, out, err), w')"
  shows "cleared (lp_redis p) (agent_address p hp) w' \<and> w_config w' = w_config w \<and>
    prefix (w_commands w) (w_commands w') \<and> (code = 0 \<longrightarrow> accepted env (w_config w) p hp w')"
proof -
  let ?run = "\<lambda>args. run_cmd env (run_args env (w_config w) p hp @ args) (lp_host p) (lp_user p)"
  from assms obtain w1 where 1: "clear_stale_status (lp_redis p) (lp_host p) (agent_address p hp) (lp_container p) w = (Inr (), w1)"
    and 2: "with_image_args env (lp_spec p) (lp_image p) (lp_host p) (lp_user p) ap
      (\<lambda>args. run_cmd env (run_args env (w_config w1) p hp @ args) (lp_host p) (lp_user p)) w1 = (Inr (code, out, err), w')"
    unfolding docker_run_def by (auto dest!: bnd_InrD simp: read_run)
  note c1 = clear_stale_clears[OF 1]
  from 2 c1 have 2: "with_image_args env (lp_spec p) (lp_image p) (lp_host p) (lp_user p) ap ?run w1 = (Inr (code, out, err), w')"
    by simp
  have q: "same_but_commands w1 w'" by (rule quietD[OF quiet_image_args 2]) (rule quiet)
  have "accepted env (w_config w) p hp w'" if "code = 0"
    using docker_run_accepted[OF 2[unfolded that]] c1 by simp
  with q c1 show ?thesis using cleared_sbc sbcD(3,7) by metis
qed

lemma retry_ports_next: "retry_ports p hp ap err = Inr (hp', ap') \<Longrightarrow> hp' = hp \<or> hp' = hp + 1"
  by (auto simp: retry_ports_def Let_def split: if_splits)

lemma attempt_cases:
  assumes "launch_attempts env p (Suc n) hp ap w = (Inr (hp', ap'), w')"
  obtains (ok) out err where "hp' = hp" "docker_run env p hp ap w = (Inr (0, out, err), w')"
  | (again) hp1 ap1 w1 where "hp1 = hp \<or> hp1 = hp + 1" "launch_attempts env p n hp1 ap1 w1 = (Inr (hp', ap'), w')"
      "w_config w1 = w_config w" "prefix (w_commands w) (w_commands w1)"
proof -
  let ?rm = "run_cmd env [''docker'', ''rm'', ''-f'', ''-v'', lp_container p] (lp_host p) (lp_user p)"
  from assms obtain code out err w1 where 1: "docker_run env p hp ap w = (Inr (code, out, err), w1)"
    by (auto dest!: bnd_InrD)
  note d1 = docker_run_end[OF 1]
  show thesis
  proof (cases "code = 0")
    case True
    with assms 1 show ?thesis using ok by (auto simp: bnd_Inr ret_run)
  next
    case False
    with assms 1 have "is_port_conflict err" by (auto simp: bnd_Inr raise_run split: if_splits)
    with False assms 1 have "bnd ?rm (\<lambda>_. bnd (of_res (retry_ports p hp ap err)) (\<lambda>(hp1, ap1).
        launch_attempts env p n hp1 ap1)) w1 = (Inr (hp', ap'), w')"
      by (simp add: bnd_Inr)
    then obtain res w2 hp1 ap1 where 2: "?rm w1 = (Inr res, w2)" and rp: "retry_ports p hp ap err = Inr (hp1, ap1)"
      and nxt: "launch_attempts env p n hp1 ap1 w2 = (Inr (hp', ap'), w')"
      by (auto dest!: bnd_InrD simp: of_res_run)
    have q: "same_but_commands w1 w2" by (rule quietD[OF quiet_run_cmd 2])
    show ?thesis
      by (rule again[OF retry_ports_next[OF rp] nxt]) (use d1 sbcD(3,7)[OF q] in \<open>auto intro: prefix_order.trans\<close>)
  qed
qed

lemma launch_attempts_end:
  "launch_attempts env p n hp ap w = (Inr (hp', ap'), w') \<Longrightarrow>
   hp \<le> hp' \<and> hp' < hp + int n \<and> cleared (lp_redis p) (agent_address p hp') w' \<and>
   accepted env (w_config w) p hp' w' \<and> w_config w' = w_config w \<and> prefix (w_commands w) (w_commands w')"
proof (induction n arbitrary: hp ap w)
  case (Suc n)
  from Suc.prems show ?case
  proof (cases rule: attempt_cases)
    case (ok out err)
    with docker_run_end[OF ok(2)] show ?thesis by simp
  next
    case (again hp1 ap1 w1)
    with Suc.IH[OF again(2)] show ?thesis by (auto dest: prefix_order.trans)
  qed
qed (simp add: raise_run)

section \<open>A whole launch\<close>

lemma poll_reachable_keeps:
  assumes "\<And>w d. P w \<Longrightarrow> P (w\<lparr>w_now := w_now w + d\<rparr>)"
  shows "keeps P (poll_reachable env addr host port deadline n)"
proof (induction n)
  case (Suc n)
  then show ?case
    by (auto intro!: keeps_bnd keeps_read keeps_raise keeps_ret keeps_modify assms simp: sleep_def)
qed (simp add: keeps_raise)

definition settled :: "string \<Rightarrow> string \<Rightarrow> dict \<Rightarrow> command list \<Rightarrow> world \<Rightarrow> bool" where
  "settled h addr config cs w \<longleftrightarrow> cleared h addr w \<and> w_config w = config \<and> prefix cs (w_commands w)"

lemma settled_quiet: "keeps (same_but_commands w) m \<Longrightarrow> settled h addr c cs w \<Longrightarrow> settled h addr c cs (snd (m w))"
  using cleared_sbc sbcD(3,7) unfolding settled_def keeps_def
  by (metis prefix_order.trans sbc_refl)

lemma settled_dump: "keeps (settled h addr c cs) (dump_container_log env rec)"
  by (rule keepsI) (rule settled_quiet[OF quiet_dump_log])

lemma settled_wait: "keeps (settled h addr c cs) (wait_until_reachable env a t)"
  unfolding wait_until_reachable_def
  by (auto split: list.split option.split intro!: keeps_raise keeps_bnd keeps_read keeps_ret poll_reachable_keeps
      simp: settled_def cleared_def simp del: poll_reachable.simps)

lemma publish_port_strs: "rd_get k (snd (publish_endpoint_port ap r)) = rd_get k r"
  by (simp add: publish_endpoint_port_def Let_def)

lemma finish_launch_end:
  assumes "finish_launch env p machine hp ap w = (Inr rec, w')" "settled h addr c cs w"
  shows "rec = launched_record p machine hp \<and> settled h addr c cs w'"
proof
  show "rec = launched_record p machine hp"
    using assms(1) unfolding finish_launch_def
    by (auto dest!: bnd_InrD simp: ret_run raise_run Let_def split: option.splits if_splits)
  have "keeps (settled h addr c cs) (at_server LOCAL (publish_endpoint_port a))" for a
    by (auto simp: keeps_def at_server_def settled_def cleared_def publish_port_strs)
  then have "keeps (settled h addr c cs) (finish_launch env p machine hp ap)"
    unfolding finish_launch_def Let_def
    by (intro keeps_bnd) (auto split: option.split exn.split
        intro!: keeps_bnd keeps_if keeps_catch keeps_ret keeps_raise keeps_of_res settled_wait settled_dump)
  then show "settled h addr c cs w'" using assms by (metis keepsD snd_conv)
qed

definition log_grows :: "command list \<Rightarrow> world \<Rightarrow> bool" where
  "log_grows cs w \<longleftrightarrow> prefix cs (w_commands w)"

lemma log_grows_quiet: "(\<And>w. keeps (same_but_commands w) m) \<Longrightarrow> keeps (log_grows cs) m"
  unfolding keeps_def log_grows_def using sbcD(7) by (metis prefix_order.trans sbc_refl)

lemma log_grows_tell: "keeps (log_grows cs) (tell h f)"
  by (rule keeps_tell) (simp add: log_grows_def)

lemma log_grows_redis: "keeps (log_grows cs) (machine_redis_for_replica rec)"
  by (rule keeps_machine_redis) (simp add: log_grows_def)

lemma log_grows_poll_redis: "keeps (log_grows cs) (poll_redis env host d n)"
proof (induction n)
  case (Suc n)
  then show ?case unfolding poll_redis.simps sleep_def
    by (intro keeps_bnd keeps_if keeps_read keeps_raise keeps_ret keeps_modify keeps_attempt
        log_grows_tell keeps_case_sum) (simp_all add: log_grows_def)
qed (simp add: keeps_raise)

lemma log_grows_run_cmd: "keeps (log_grows cs) (run_cmd env cmd host user)"
  "keeps (log_grows cs) (container_running env c host user)"
  by (intro log_grows_quiet quiet)+

lemma log_grows_start_redis: "keeps (log_grows cs) (start_redis env host user)"
  unfolding start_redis_def wait_for_redis_def
  by (auto intro!: keeps_bnd keeps_if keeps_read keeps_raise keeps_ret log_grows_run_cmd log_grows_redis log_grows_poll_redis
      simp del: poll_redis.simps)

lemma log_grows_remove_orphan: "keeps (log_grows cs) (remove_orphan env c host user)"
  unfolding remove_orphan_def refuse_other_projects_container_def Let_def
  by (auto intro!: keeps_bnd keeps_if keeps_raise keeps_ret log_grows_run_cmd)

lemma machine_redis_named:
  "machine_redis_for_replica [(''private_host'', Raw host), (''redis_port'', Doc (VInt i))] w = (Inr h, w') \<Longrightarrow>
   h = (if host = [] then LOCAL else host)"
  by (auto simp: machine_redis_for_replica_def fld_def bnd_run read_run modify_run ret_run text_truthy_def
      split: if_splits)

lemma launch_end:
  assumes "launch env machine sp hp rid w = (Inr rec, w')"
  obtains p hp0 hp' where "rec = launched_record p machine hp'"
    "settled (lp_redis p) (agent_address p hp') (w_config w') (w_commands w) w'"
    "lp_id p = rid" "lp_spec p = sp" "lp_container p = container_name env rid"
    "lp_host p = fld machine ''private_host''" "lp_user p = fld machine ''user''"
    "lp_redis p = (if lp_host p = [] then LOCAL else lp_host p)"
    "launch_ports env sp (lp_is_local p) hp = Inr (hp0, lp_container_port p)"
    "hp0 \<le> hp'" "hp' < hp0 + 50" "accepted env (w_config w') p hp' w'"
proof -
  let ?host = "fld machine ''private_host''" and ?user = "fld machine ''user''"
  from assms[unfolded launch_def Let_def] obtain w1 hp0 cp rp r w2 w3 ap w4 cb pub w5 p hp' ap' where
    1: "remove_orphan env (container_name env rid) ?host ?user w = (Inr (), w1)"
    and ports: "launch_ports env sp (is_local_host ?host) hp = Inr (hp0, cp)"
    and 2: "machine_redis_for_replica [(''private_host'', Raw ?host), (''redis_port'', Doc (VInt rp))] w1 = (Inr r, w2)"
    and 3: "start_redis env ?host ?user w2 = (Inr (), w3)"
    and 4: "(if spec_type sp = ''endpoint'' then bnd (ask LOCAL read_endpoint_port) (\<lambda>r. bnd (of_res r) (\<lambda>p. ret (Some p)))
       else ret None) w3 = (Inr ap, w4)"
    and p: "p = \<lparr>lp_spec = sp, lp_id = rid, lp_container = container_name env rid,
            lp_image = image_name env (spec_name sp), lp_host = ?host, lp_user = ?user, lp_redis = r,
            lp_redis_host = (if is_local_host ?host then redis_container_name env ?host else HOST_GATEWAY),
            lp_redis_port = rp, lp_container_port = cp, lp_callback = cb, lp_publish = pub\<rparr>"
    and 5: "launch_attempts env p MAX_PORT_ATTEMPTS hp0 ap w4 = (Inr (hp', ap'), w5)"
    and 6: "finish_launch env p machine hp' ap' w5 = (Inr rec, w')"
    by (auto dest!: bnd_InrD simp: read_run of_res_run)
  have w4: "w4 = w3" using 4
    by (auto simp: bnd_run ask_run of_res_run ret_run split: if_splits sum.splits)
  have "log_grows (w_commands w) w" by (simp add: log_grows_def)
  then have "log_grows (w_commands w) w1" using keepsD[OF log_grows_remove_orphan] 1 by (metis snd_conv)
  then have "log_grows (w_commands w) w2" using keepsD[OF log_grows_redis] 2 by (metis snd_conv)
  then have g: "log_grows (w_commands w) w4" using keepsD[OF log_grows_start_redis] 3 w4 by (metis snd_conv)
  from launch_attempts_end[OF 5] have e: "hp0 \<le> hp'" "hp' < hp0 + 50"
    "cleared (lp_redis p) (agent_address p hp') w5" "accepted env (w_config w4) p hp' w5"
    "w_config w5 = w_config w4" "prefix (w_commands w4) (w_commands w5)"
    by (auto simp: MAX_PORT_ATTEMPTS_def)
  from e(3) g e(6) have "settled (lp_redis p) (agent_address p hp') (w_config w5) (w_commands w) w5"
    by (auto simp: settled_def log_grows_def intro: prefix_order.trans)
  from finish_launch_end[OF 6 this] have f: "rec = launched_record p machine hp'"
    "settled (lp_redis p) (agent_address p hp') (w_config w5) (w_commands w) w'" by auto
  have "settled (lp_redis p) (agent_address p hp') (w_config w5) (w_commands w5) w5"
    using e(3) by (simp add: settled_def)
  from finish_launch_end[OF 6 this] have "prefix (w_commands w5) (w_commands w')" by (simp add: settled_def)
  moreover have "w_config w' = w_config w4" using f(2) e(5) by (simp add: settled_def)
  ultimately have "accepted env (w_config w') p hp' w'" using e(4) accepted_mono by metis
  with f e(1,2) ports machine_redis_named[OF 2] show thesis
    by (intro that[of p hp' hp0]) (simp_all add: p lp_is_local_def settled_def)
qed

section \<open>Properties\<close>

text \<open>Nothing the last container at an address said of itself survives the launch of the next
  one there: when a launch returns a record, the machine's Redis has no status and no drain flag
  under the record's address, so neither can be read as the new container's.\<close>

theorem launched_status_is_fresh:
  assumes "launch env machine sp host_port replica_id w = (Inr rec, w')"
    and "h = (if fld machine ''private_host'' = [] then LOCAL else fld machine ''private_host'')"
  shows "rd_get (status_key (fld rec ''address'')) (w_servers w' h) = None \<and>
    rd_get (draining_key (fld rec ''address'')) (w_servers w' h) = None"
  by (rule launch_end[OF assms(1)])
    (use assms(2) in \<open>auto simp: settled_def cleared_def launched_record_def fld_def\<close>)

text \<open>The record a launch returns describes the container Docker accepted: its host port is
  at most 49 above the one asked for (a database's is the configured one), and a \<open>docker run\<close> that
  exited with 0 and published that port, under the replica's container name, is among the commands
  run on the replica's machine.\<close>

theorem launched_record_is_accepted:
  assumes "launch env machine sp host_port replica_id w = (Inr rec, w')"
  shows "\<exists>p hp0 hp'. rec = launched_record p machine hp' \<and>
    launch_ports env sp (lp_is_local p) host_port = Inr (hp0, lp_container_port p) \<and>
    hp0 \<le> hp' \<and> hp' < hp0 + 50 \<and> lp_container p = container_name env replica_id \<and>
    lp_host p = fld machine ''private_host'' \<and> accepted env (w_config w') p hp' w'"
  by (rule launch_end[OF assms]) blast

text \<open>A launch on another machine, whose Redis is running.\<close>

definition demo_env :: env where
  "demo_env = \<lparr>e_subprocess = (\<lambda>before argv. if length before = 1 then Done 0 ''true'' [] else Done 0 [] []),
     e_port_open = (\<lambda>_ _ _. True), e_redis_answers = (\<lambda>_ _. True), e_order = (\<lambda>n. [0..<n]),
     e_port_bound = (\<lambda>_. False), e_uuid = str_nat, e_expanduser = (\<lambda>s. s), e_float_str = (\<lambda>_. ''1.0''),
     e_project = ''p'', e_controller_image = ''img'', e_private_ip = [], e_env_file = None,
     e_machine_alive = (\<lambda>_ _. Inr True), e_terminate_machine = (\<lambda>_ _. Inr ()),
     e_machine_capacity = (\<lambda>_ _. Inr (Some (2, 4096))), e_hourly_cost = (\<lambda>_ _. Inr 1),
     e_start_machine = (\<lambda>_ _ _. Inr [(''machine_id'', Raw ''i-1'')]),
     e_wait_machine = (\<lambda>_ _. Inr [(''private_host'', Raw ''10.0.0.5''), (''public_host'', Raw ''1.2.3.4'')]),
     e_collector_image = []\<rparr>"

definition launch_world :: world where
  "launch_world = \<lparr>w_servers = (\<lambda>_. rd_set (status_key ''10.0.0.5:50051'') (Raw ''healthy'') empty_redis),
     w_down = (\<lambda>_. False), w_clients = [''localhost'', ''10.0.0.5''], w_redis_ports = (\<lambda>_. None), w_specs = [],
     w_config = [], w_provisioned_specs = None, w_seen_healthy = {}, w_starting = {}, w_starts = [], w_commands = [],
     w_now = 0, w_drawn = 0\<rparr>"

definition launch_machine :: hash where
  "launch_machine = [(''private_host'', Raw ''10.0.0.5''), (''public_host'', Raw ''1.2.3.4'')]"

definition launch_spec :: spec where
  "launch_spec = [(''name'', VStr ''a''), (''provider'', VStr ''ec2-pool'')]"

lemma demo_address: "agent_address p 50051 = ''10.0.0.5:50051''"
  if "lp_host p = ''10.0.0.5''" "lp_callback p = None"
  using that by (simp add: agent_address_def agent_endpoint_def lp_is_local_def is_local_host_def str_int_def
      str_nat.simps)

lemma demo_facts [simp]:
  "e_subprocess demo_env before argv = (if length before = 1 then Done 0 ''true'' [] else Done 0 [] [])"
  "e_env_file demo_env = None" "w_clients launch_world = [''localhost'', ''10.0.0.5'']"
  "w_down launch_world h = False" "w_config launch_world = []" "w_commands launch_world = []"
  "w_redis_ports launch_world h = None"
  by (simp_all add: demo_env_def launch_world_def)

lemma demo_specs_of [simp]: "spec_type launch_spec = ''agent''" "dget launch_spec ''provider'' = VStr ''ec2-pool''"
  "map_of launch_spec ''provider'' = Some (VStr ''ec2-pool'')" "spec_name launch_spec = ''a''"
  by (simp_all add: launch_spec_def spec_type_def dget_or_def dget_def spec_name_def)

lemma demo_machine_of [simp]: "fld launch_machine ''private_host'' = ''10.0.0.5''" "fld launch_machine ''user'' = []"
  "map_of launch_machine ''private_host'' = Some (Raw ''10.0.0.5'')" "map_of launch_machine ''container_timeout'' = None"
  "map_of launch_machine ''public_host'' = Some (Raw ''1.2.3.4'')"
  by (simp_all add: launch_machine_def fld_def)

abbreviation (input) after_cmds :: "command list \<Rightarrow> world" where
  "after_cmds cs \<equiv> launch_world\<lparr>w_commands := cs\<rparr>"

definition inspect_cmd :: "string \<Rightarrow> command" where
  "inspect_cmd n = machine_argv demo_env [] [''docker'', ''inspect'', ''-f'', ''{{.State.Running}}'', n] ''10.0.0.5'' []"

lemma demo_orphan: "remove_orphan demo_env n ''10.0.0.5'' [] launch_world = (Inr (), after_cmds [inspect_cmd n])"
  by (simp add: remove_orphan_def bnd_run run_cmd_def subprocess_run_def read_run ret_run orphan_running_def
      strip_def inspect_cmd_def)

lemma demo_redis: "start_redis demo_env ''10.0.0.5'' [] (after_cmds [c0]) =
    (Inr (), after_cmds [c0, inspect_cmd (redis_container_name demo_env ''10.0.0.5'')])"
  by (simp add: start_redis_def container_running_def catch_run bnd_run run_cmd_def subprocess_run_def read_run
      ret_run is_local_host_def strip_def is_space_def inspect_cmd_def)

lemma demo_attempt:
  assumes "lp_host p = ''10.0.0.5''" "lp_callback p = None" "lp_spec p = launch_spec" "lp_redis p = ''10.0.0.5''"
  shows "\<exists>w. launch_attempts demo_env p MAX_PORT_ATTEMPTS 50051 None (after_cmds [c0, c1]) = (Inr (50051, None), w)"
proof -
  let ?w = "after_cmds [c0, c1]"
  have "clear_stale_status ''10.0.0.5'' ''10.0.0.5'' a c ?w =
      (Inr (), ?w\<lparr>w_servers := (w_servers ?w)(''10.0.0.5'' := rd_delete [status_key a, draining_key a] (w_servers ?w ''10.0.0.5''))\<rparr>)" for a c
    by (simp add: clear_stale_status_def catch_run tell_run)
  then have "\<exists>w. docker_run demo_env p 50051 None ?w = (Inr (0, [], []), w)"
    unfolding docker_run_def using assms
    by (simp add: bnd_run read_run with_image_args_def with_env_file_args_def run_cmd_def subprocess_run_def ret_run)
  then obtain w where "docker_run demo_env p 50051 None ?w = (Inr (0, [], []), w)" by blast
  then have "launch_attempts demo_env p (Suc 49) 50051 None ?w = (Inr (50051, None), w)"
    by (simp only: launch_attempts.simps bnd_Inr prod.case if_True refl ret_run)
  then show ?thesis unfolding MAX_PORT_ATTEMPTS_def by auto
qed

lemma demo_client:
  "machine_redis_for_replica [(''private_host'', Raw ''10.0.0.5''), (''redis_port'', Doc (VInt i))] (after_cmds [c]) =
   (Inr ''10.0.0.5'', after_cmds [c])"
  by (simp add: machine_redis_for_replica_def fld_def bnd_run read_run ret_run Let_def)

lemma demo_launch:
  "\<exists>rec w'. launch demo_env launch_machine launch_spec 50051 ''a-1'' launch_world = (Inr rec, w') \<and>
     fld rec ''address'' = ''10.0.0.5:50051''"
proof -
  let ?p = "\<lparr>lp_spec = launch_spec, lp_id = ''a-1'', lp_container = container_name demo_env ''a-1'',
            lp_image = image_name demo_env ''a'', lp_host = ''10.0.0.5'', lp_user = [], lp_redis = ''10.0.0.5'',
            lp_redis_host = HOST_GATEWAY, lp_redis_port = 6379, lp_container_port = CONTAINER_PORT,
            lp_callback = None, lp_publish = True\<rparr>"
  let ?c0 = "inspect_cmd (container_name demo_env ''a-1'')"
  let ?c1 = "inspect_cmd (redis_container_name demo_env ''10.0.0.5'')"
  obtain w where 2: "launch_attempts demo_env ?p MAX_PORT_ATTEMPTS 50051 None (after_cmds [?c0, ?c1]) = (Inr (50051, None), w)"
    using demo_attempt[of ?p] by auto
  have "launch demo_env launch_machine launch_spec 50051 ''a-1'' launch_world =
      finish_launch demo_env ?p launch_machine 50051 None w"
    unfolding launch_def Let_def
    by (simp add: bnd_run of_res_run read_run ret_run need_def demo_orphan demo_redis 2 demo_client launch_ports_def is_local_host_def
        callback_host_def publishes_port_def redis_port_of_def DEFAULT_REDIS_PORT_def)
  also have "\<dots> = (Inr (launched_record ?p launch_machine 50051), w)"
    by (simp add: finish_launch_def bnd_run ret_run of_res_run need_def)
  finally show ?thesis
    by (simp add: launched_record_def fld_def demo_address)
qed

theorem launched_status_is_fresh_witness:
  "\<exists>rec w'. launch demo_env launch_machine launch_spec 50051 ''a-1'' launch_world = (Inr rec, w') \<and>
     rd_get (status_key ''10.0.0.5:50051'') (w_servers launch_world ''10.0.0.5'') = Some (Raw ''healthy'') \<and>
     rd_get (status_key ''10.0.0.5:50051'') (w_servers w' ''10.0.0.5'') = None"
proof -
  obtain rec w' where l: "launch demo_env launch_machine launch_spec 50051 ''a-1'' launch_world = (Inr rec, w')"
    "fld rec ''address'' = ''10.0.0.5:50051''" using demo_launch by blast
  have "rd_get (status_key ''10.0.0.5:50051'') (w_servers launch_world ''10.0.0.5'') = Some (Raw ''healthy'')"
    by (simp add: launch_world_def)
  with launched_status_is_fresh[OF l(1) refl] l show ?thesis by auto
qed

theorem launched_record_is_accepted_witness:
  "\<exists>w' p hp'. accepted demo_env (w_config w') p hp' w' \<and> hp' < 50101 \<and> lp_host p = ''10.0.0.5''"
proof -
  obtain rec w' where "launch demo_env launch_machine launch_spec 50051 ''a-1'' launch_world = (Inr rec, w')"
    using demo_launch by blast
  from launched_record_is_accepted[OF this] show ?thesis
    by (auto simp: launch_ports_def)
qed

text \<open>A launch never takes down another project's container: when a container with the replica's
  name is running and Docker names another group as its owner, the launch raises, having run only
  the two inspections.\<close>

theorem launch_refuses_foreign_container:
  assumes "map_of machine ''private_host'' = Some ph"
    and "host = fld machine ''private_host''" "user = fld machine ''user''" "c = container_name env replica_id"
    and "i1 = machine_argv env (w_config w) [''docker'', ''inspect'', ''-f'', ''{{.State.Running}}'', c] host user"
    and "i2 = machine_argv env (w_config w) [''docker'', ''inspect'', ''-f'',
         ''{{index .Config.Labels \"com.docker.compose.project\"}}'', c] host user"
    and "e_subprocess env (w_commands w) i1 = Done 0 out1 err1" "strip out1 = ''true''"
    and "e_subprocess env (w_commands w @ [i1]) i2 = Done 0 out2 err2" "strip out2 \<notin> {[], project_group env}"
  shows "\<exists>msg. launch env machine sp host_port replica_id w =
    (Inl (ForeignContainerError msg), w\<lparr>w_commands := w_commands w @ [i1, i2]\<rparr>)"
proof -
  let ?w1 = "w\<lparr>w_commands := w_commands w @ [i1]\<rparr>"
  have 1: "run_cmd env [''docker'', ''inspect'', ''-f'', ''{{.State.Running}}'', c] host user w = (Inr (0, out1, err1), ?w1)"
    using assms(5,7) by (simp add: run_cmd_def subprocess_run_def bnd_run read_run ret_run)
  have "run_cmd env [''docker'', ''inspect'', ''-f'', ''{{index .Config.Labels \"com.docker.compose.project\"}}'', c] host user ?w1
      = (Inr (0, out2, err2), w\<lparr>w_commands := w_commands w @ [i1, i2]\<rparr>)"
    using assms(6,9) by (simp add: run_cmd_def subprocess_run_def bnd_run read_run ret_run)
  then have "\<exists>msg. refuse_other_projects_container env c host user ?w1 =
      (Inl (ForeignContainerError msg), w\<lparr>w_commands := w_commands w @ [i1, i2]\<rparr>)"
    unfolding refuse_other_projects_container_def using assms(10) by (auto simp: bnd_run Let_def raise_run)
  then obtain msg where 2: "refuse_other_projects_container env c host user ?w1 =
      (Inl (ForeignContainerError msg), w\<lparr>w_commands := w_commands w @ [i1, i2]\<rparr>)" by blast
  have "remove_orphan env c host user w = (Inl (ForeignContainerError msg), w\<lparr>w_commands := w_commands w @ [i1, i2]\<rparr>)"
    unfolding remove_orphan_def using 1 2 assms(8) by (simp add: bnd_run orphan_running_def)
  then show ?thesis
    unfolding launch_def Let_def using assms(1-4) by (simp add: bnd_run of_res_run need_def)
qed

definition foreign_env :: env where
  "foreign_env = demo_env\<lparr>e_subprocess := (\<lambda>before argv. Done 0 (if before = [] then ''true'' else ''canyonos-other'') [])\<rparr>"

theorem launch_refuses_foreign_container_witness:
  "\<exists>msg i1 i2. launch foreign_env launch_machine launch_spec 50051 ''a-1'' launch_world =
    (Inl (ForeignContainerError msg), launch_world\<lparr>w_commands := [i1, i2]\<rparr>)"
proof -
  have p1: "e_subprocess foreign_env (w_commands launch_world) i = Done 0 ''true'' []" for i
    by (simp add: foreign_env_def)
  have p2: "e_subprocess foreign_env (w_commands launch_world @ [j]) i = Done 0 ''canyonos-other'' []" for i j
    by (simp add: foreign_env_def)
  have s1: "strip ''true'' = ''true''" by (simp add: strip_def is_space_def)
  have s2: "strip ''canyonos-other'' \<notin> {[], project_group foreign_env}"
    by (simp add: strip_def is_space_def project_group_def name_prefix_def foreign_env_def demo_env_def)
  show ?thesis
    using launch_refuses_foreign_container[OF demo_machine_of(3) refl refl refl refl refl p1 s1 p2 s2, of launch_spec 50051 "''a-1''"]
    unfolding demo_facts append_Nil by (elim exE) (intro exI, assumption)
qed

text \<open>The polling fuel is enough: with one poll for every two seconds left, more makes no difference.\<close>

lemma poll_reachable_run:
  "poll_reachable env addr host port deadline (Suc n) w =
     (if \<not> w_now w < deadline then (Inl (TimeoutError (''Replica address never became reachable at '' @ addr)), w)
      else if e_port_open env (w_now w) host port then (Inr (), w)
      else poll_reachable env addr host port deadline n (w\<lparr>w_now := w_now w + 2\<rparr>))"
  by (simp add: bnd_run read_run sleep_def modify_run raise_run ret_run)

lemma poll_reachable_fuel:
  "deadline - w_now w \<le> 2 * of_nat n \<Longrightarrow> n \<le> m \<Longrightarrow>
   poll_reachable env addr host port deadline (Suc m) w = poll_reachable env addr host port deadline (Suc n) w"
proof (induction n arbitrary: w m)
  case 0
  then show ?case by (simp add: poll_reachable_run del: poll_reachable.simps)
next
  case (Suc n)
  then obtain m' where m: "m = Suc m'" "n \<le> m'" by (cases m) auto
  have "deadline - w_now (w\<lparr>w_now := w_now w + 2\<rparr>) \<le> 2 * of_nat n" using Suc.prems(1) by simp
  from Suc.IH[OF this m(2)] show ?case
    by (simp only: m(1) poll_reachable_run[of env addr host port deadline "Suc m'"]
        poll_reachable_run[of env addr host port deadline "Suc n"])
qed

lemma poll_reachable_end:
  "deadline - w_now w \<le> 2 * of_nat n \<Longrightarrow>
   poll_reachable env addr host port deadline (Suc n) w = (res, w') \<Longrightarrow>
   (case res of Inl e \<Rightarrow> deadline \<le> w_now w' | Inr _ \<Rightarrow> e_port_open env (w_now w') host port \<and> w_now w' < deadline)"
proof (induction n arbitrary: w)
  case 0
  then show ?case by (simp add: poll_reachable_run del: poll_reachable.simps) auto
next
  case (Suc n)
  have "deadline - w_now (w\<lparr>w_now := w_now w + 2\<rparr>) \<le> 2 * of_nat n" using Suc.prems(1) by simp
  from Suc.IH[OF this] Suc.prems(2) show ?case
    by (simp only: poll_reachable_run[of env addr host port deadline "Suc n"]) (auto split: if_splits)
qed

text \<open>The wait for a launched container is honest: it returns only when a connection to the
  container's address was accepted before the deadline, and it gives up only once the deadline
  has passed.\<close>

theorem reachable_wait_is_honest:
  assumes "split_on CHR '':'' addr = [host, port]" "int_str port = Some pt" "0 < timeout"
    and "wait_until_reachable env addr timeout w = (res, w')"
  shows "case res of Inl e \<Rightarrow> w_now w + of_int timeout \<le> w_now w'
    | Inr _ \<Rightarrow> e_port_open env (w_now w') host pt \<and> w_now w' < w_now w + of_int timeout"
proof -
  have "poll_reachable env addr host pt (w_now w + of_int timeout) (Suc (nat timeout)) w = (res, w')"
    using assms by (simp add: wait_until_reachable_def bnd_run read_run del: poll_reachable.simps)
  moreover have "w_now w + of_int timeout - w_now w \<le> 2 * of_nat (nat timeout)"
    using assms(3) by simp
  ultimately show ?thesis using poll_reachable_end by blast
qed

theorem reachable_wait_is_honest_witness:
  "w_now (snd (wait_until_reachable (demo_env\<lparr>e_port_open := \<lambda>_ _ _. False\<rparr>) ''a:1'' 3 launch_world)) \<ge> 3"
proof -
  let ?env = "demo_env\<lparr>e_port_open := \<lambda>_ _ _. False\<rparr>"
  obtain res w' where r: "wait_until_reachable ?env ''a:1'' 3 launch_world = (res, w')" by fastforce
  have "int_str ''1'' = Some 1" by (simp add: int_str_def strip_def is_space_def digit_val_def)
  from reachable_wait_is_honest[OF _ this _ r, of "''a''"] have
    "case res of Inl e \<Rightarrow> 3 \<le> w_now w' | Inr _ \<Rightarrow> False"
    by (simp add: launch_world_def split: sum.splits)
  with r show ?thesis by (auto split: sum.splits)
qed

end
