(* ===== verification/Routing_Publish.thy ===== *)
theory Routing_Publish
  imports Controller_Context "HOL-Library.Multiset"
begin

text \<open>
  Publishing the routing table and the agents that are up (\<open>reconciler/routing.py\<close>). The spec
  list handed in is the complete world: agents it does not name leave the table. Each machine's
  Redis is written on its own, and one that is down is skipped. The names are gone through in
  the order of the specs, where the code goes through a set.
\<close>

definition ROUTING_ADDRESSES_KEY :: string where "ROUTING_ADDRESSES_KEY = ''routing_table:addresses''"
definition ROUTING_STATEFUL_KEY :: string where "ROUTING_STATEFUL_KEY = ''routing_table:stateful''"
definition ROUTING_REPLICAS_KEY :: string where "ROUTING_REPLICAS_KEY = ''routing_table:replicas''"
definition AGENTS_SET_KEY :: string where "AGENTS_SET_KEY = ''routing_table:agents''"
definition ROUTING_UP_KEY :: string where "ROUTING_UP_KEY = ''routing_table:up''"

lemmas routing_keys = ROUTING_ADDRESSES_KEY_def ROUTING_STATEFUL_KEY_def ROUTING_REPLICAS_KEY_def
  AGENTS_SET_KEY_def ROUTING_UP_KEY_def

definition is_draining :: "hash \<Rightarrow> bool" where
  "is_draining rec \<longleftrightarrow> map_of rec ''draining_at'' \<noteq> None"

text \<open>A record's text field as the JSON string \<open>json.dumps\<close> writes.\<close>

definition addresses_doc :: "hash list \<Rightarrow> rtext" where
  "addresses_doc recs = Doc (VList (map (\<lambda>rec. VStr (fld rec ''address'')) recs))"

definition is_stateful :: "spec list \<Rightarrow> string \<Rightarrow> bool" where
  "is_stateful specs n \<longleftrightarrow>
     (\<exists>sp\<in>set specs. spec_name sp = n \<and> truthy (dget_or sp ''stateful'' (VBool False)))"

definition targets :: "world \<Rightarrow> string list" where
  "targets w = (if w_clients w = [] then [LOCAL] else w_clients w)"

text \<open>The records sorted by \<open>float(item["created_at"])\<close>; a missing or unreadable time raises.\<close>

fun with_created :: "hash list \<Rightarrow> exn + (pyfloat \<times> hash) list" where
  "with_created [] = Inr []"
| "with_created (rec # recs) = (case need_float rec ''created_at'' of
       Inl e \<Rightarrow> Inl e
     | Inr t \<Rightarrow> map_sum id (\<lambda>ps. (t, rec) # ps) (with_created recs))"

definition oldest_first :: "hash list \<Rightarrow> exn + hash list" where
  "oldest_first recs = map_sum id (\<lambda>ps. map snd (sort_key (\<lambda>(t, _). fl_key t) ps)) (with_created recs)"

definition forget_agent :: "string \<Rightarrow> redis \<Rightarrow> redis" where
  "forget_agent stale r = rd_hdel ROUTING_REPLICAS_KEY stale (rd_hdel ROUTING_ADDRESSES_KEY stale
     (rd_hdel ROUTING_STATEFUL_KEY stale (rd_srem AGENTS_SET_KEY [stale] r)))"

definition mark_agent :: "bool \<Rightarrow> string \<Rightarrow> redis \<Rightarrow> redis" where
  "mark_agent stateful n r =
     (let r' = rd_sadd AGENTS_SET_KEY [n] r
      in if stateful then rd_hset ROUTING_STATEFUL_KEY n (Doc (VBool True)) r'
         else rd_hdel ROUTING_STATEFUL_KEY n r')"

definition write_routes :: "string \<Rightarrow> hash list \<Rightarrow> hash list \<Rightarrow> redis \<Rightarrow> redis" where
  "write_routes n routed known r =
     (let r' = rd_hset ROUTING_REPLICAS_KEY n (addresses_doc known) r
      in if routed \<noteq> [] then rd_hset ROUTING_ADDRESSES_KEY n (addresses_doc routed) r'
         else rd_hdel ROUTING_ADDRESSES_KEY n r')"

definition publish_agent :: "string \<Rightarrow> spec list \<Rightarrow> string \<Rightarrow> unit step" where
  "publish_agent h specs n =
     bnd (tell h (mark_agent (is_stateful specs n) n)) (\<lambda>_.
     bnd (ask LOCAL (\<lambda>r. list_replicas r (Some n))) (\<lambda>items.
     bnd (of_res (oldest_first items)) (\<lambda>sorted_items.
     bnd (ask LOCAL (\<lambda>r. list_replicas r (Some n))) (\<lambda>known.
     tell h (write_routes n (filter (\<lambda>item. \<not> is_draining item) sorted_items) known)))))"

definition publish_target :: "spec list \<Rightarrow> string \<Rightarrow> unit step" where
  "publish_target specs h =
     bnd (ask h (rd_smembers AGENTS_SET_KEY)) (\<lambda>existing.
     bnd (for_each (filter (\<lambda>a. a \<notin> set (spec_names specs)) existing) (\<lambda>stale. tell h (forget_agent stale))) (\<lambda>_.
     for_each (spec_names specs) (publish_agent h specs)))"

definition publish_routing_snapshot :: "spec list \<Rightarrow> unit step" where
  "publish_routing_snapshot specs =
     bnd (read_st targets) (\<lambda>hs. for_each hs (\<lambda>h. catch (publish_target specs h) (\<lambda>_. ret ())))"

text \<open>The agents that stay up are never missing: the new ones are added before the rest are
  removed.\<close>

definition up_writes :: "string list \<Rightarrow> redis \<Rightarrow> (redis \<Rightarrow> redis) list" where
  "up_writes up r =
     (let r' = (if up = [] then r else rd_sadd ROUTING_UP_KEY up r);
          down = filter (\<lambda>a. a \<notin> set up) (rd_smembers ROUTING_UP_KEY r')
      in (if up = [] then [] else [rd_sadd ROUTING_UP_KEY up]) @
         (if down = [] then [] else [rd_srem ROUTING_UP_KEY down]))"

definition publish_up_target :: "string list \<Rightarrow> string \<Rightarrow> unit step" where
  "publish_up_target up h = tell h (\<lambda>r. run_writes (up_writes up r) r)"

definition publish_up_agents :: "string list \<Rightarrow> unit step" where
  "publish_up_agents up =
     bnd (read_st targets) (\<lambda>hs. for_each hs (\<lambda>h. catch (publish_up_target (remdups up) h) (\<lambda>_. ret ())))"

section \<open>What publishing leaves alone\<close>

text \<open>The routing writes touch no replica record, so publishing to a machine whose Redis is the
  primary reads the same records throughout.\<close>

definition same_records :: "redis \<Rightarrow> redis \<Rightarrow> bool" where
  "same_records r r' \<longleftrightarrow> (\<forall>a. list_replicas r a = list_replicas r' a)"

lemma scan_hset_other:
  "\<not> prefix p k \<Longrightarrow> rd_scan p (rd_hset_multiple k m r) = rd_scan p r"
proof -
  assume np: "\<not> prefix p k"
  have "filter (prefix p) (map fst (AList.update k v xs)) = filter (prefix p) (map fst xs)"
    for v :: hash and xs
    by (induction xs) (use np in auto)
  then show ?thesis by (simp add: rd_scan_def rd_hset_multiple_def)
qed

lemma scan_hdel_other: "\<not> prefix p k \<Longrightarrow> rd_scan p (rd_hdel k f r) = rd_scan p r"
proof -
  assume np: "\<not> prefix p k"
  have "filter (prefix p) (map fst (AList.update k v xs)) = filter (prefix p) (map fst xs)"
    for v :: hash and xs
    by (induction xs) (use np in auto)
  moreover have "filter (prefix p) (map fst (AList.delete k xs)) = filter (prefix p) (map fst xs)"
    for xs :: "(string \<times> hash) list"
    by (induction xs) (use np in auto)
  ultimately show ?thesis by (simp add: rd_scan_def rd_hdel_def Let_def)
qed

lemma hgetall_hdel_other: "k' \<noteq> k \<Longrightarrow> rd_hgetall k' (rd_hdel k f r) = rd_hgetall k' r"
  by (simp add: rd_hgetall_def rd_hdel_def Let_def update_conv' delete_conv')

lemma key_shapes [simp]:
  "\<not> prefix ''agent_instance:'' ROUTING_ADDRESSES_KEY" "\<not> prefix ''agent_instance:'' ROUTING_STATEFUL_KEY"
  "\<not> prefix ''agent_instance:'' ROUTING_REPLICAS_KEY"
  "instance_key i \<noteq> ROUTING_ADDRESSES_KEY" "instance_key i \<noteq> ROUTING_STATEFUL_KEY"
  "instance_key i \<noteq> ROUTING_REPLICAS_KEY"
  "instances_key a \<noteq> AGENTS_SET_KEY" "instances_key a \<noteq> ROUTING_UP_KEY"
  by (simp_all add: routing_keys instance_key_def instances_key_def)

lemma scanned_not_routing [simp]:
  "k \<in> set (rd_scan ''agent_instance:'' r) \<Longrightarrow>
   k \<noteq> ROUTING_ADDRESSES_KEY \<and> k \<noteq> ROUTING_STATEFUL_KEY \<and> k \<noteq> ROUTING_REPLICAS_KEY"
  by (auto simp: set_scan)

lemma list_replicas_cong:
  assumes "\<And>a. rd_smembers (instances_key a) r' = rd_smembers (instances_key a) r"
    and "rd_scan ''agent_instance:'' r' = rd_scan ''agent_instance:'' r"
    and "\<And>i. rd_hgetall (instance_key i) r' = rd_hgetall (instance_key i) r"
    and "\<And>k. k \<in> set (rd_scan ''agent_instance:'' r) \<Longrightarrow> rd_hgetall k r' = rd_hgetall k r"
  shows "list_replicas r' a = list_replicas r a"
proof -
  have all: "map (\<lambda>k. rd_hgetall k r') (sort (rd_scan ''agent_instance:'' r))
      = map (\<lambda>k. rd_hgetall k r) (sort (rd_scan ''agent_instance:'' r))"
    using assms(4) by simp
  show ?thesis
    by (cases "a \<noteq> None \<and> a \<noteq> Some []")
       (simp_all only: list_replicas_def Let_def if_True if_False assms(1-3) all map_map comp_def simp_thms)
qed

lemma list_replicas_routing_writes [simp]:
  "list_replicas (forget_agent s r) a = list_replicas r a"
  "list_replicas (mark_agent st n r) a = list_replicas r a"
  "list_replicas (write_routes n x y r) a = list_replicas r a"
  by (rule list_replicas_cong;
      simp add: forget_agent_def mark_agent_def write_routes_def Let_def rd_hset_def
        scan_hset_other scan_hdel_other hgetall_hset_multiple hgetall_hdel_other)+

section \<open>The published table\<close>

text \<open>What a server's routing table says of one agent.\<close>

definition routes_of :: "redis \<Rightarrow> string \<Rightarrow> rtext option \<times> rtext option \<times> bool \<times> bool" where
  "routes_of r n = (rd_hget ROUTING_ADDRESSES_KEY n r, rd_hget ROUTING_REPLICAS_KEY n r,
     rd_hget ROUTING_STATEFUL_KEY n r \<noteq> None, n \<in> set (rd_smembers AGENTS_SET_KEY r))"

lemma key_distinct [simp]:
  "ROUTING_ADDRESSES_KEY \<noteq> ROUTING_STATEFUL_KEY" "ROUTING_STATEFUL_KEY \<noteq> ROUTING_ADDRESSES_KEY"
  "ROUTING_ADDRESSES_KEY \<noteq> ROUTING_REPLICAS_KEY" "ROUTING_REPLICAS_KEY \<noteq> ROUTING_ADDRESSES_KEY"
  "ROUTING_STATEFUL_KEY \<noteq> ROUTING_REPLICAS_KEY" "ROUTING_REPLICAS_KEY \<noteq> ROUTING_STATEFUL_KEY"
  "AGENTS_SET_KEY \<noteq> ROUTING_UP_KEY" "ROUTING_UP_KEY \<noteq> AGENTS_SET_KEY"
  by (simp_all add: routing_keys)

lemma routes_of_forget: "routes_of (forget_agent s r) n = (if n = s then (None, None, False, False) else routes_of r n)"
  by (auto simp: routes_of_def forget_agent_def)

lemma routes_of_publish:
  "routes_of (write_routes m routed known (mark_agent st m r)) n =
     (if n = m then (if routed = [] then None else Some (addresses_doc routed),
          Some (addresses_doc known), st, True) else routes_of r n)"
  by (auto simp: routes_of_def write_routes_def mark_agent_def Let_def)

definition routed_records :: "redis \<Rightarrow> string \<Rightarrow> hash list" where
  "routed_records r n = filter (\<lambda>item. \<not> is_draining item) (projr (oldest_first (list_replicas r (Some n))))"

definition expected_routes :: "redis \<Rightarrow> spec list \<Rightarrow> string \<Rightarrow> rtext option \<times> rtext option \<times> bool \<times> bool" where
  "expected_routes r specs n =
     (if routed_records r n = [] then None else Some (addresses_doc (routed_records r n)),
      Some (addresses_doc (list_replicas r (Some n))), is_stateful specs n, True)"

text \<open>The routing table entries of agent \<open>m\<close> after a publication of \<open>specs\<close> to a server that held
  \<open>old\<close>, with the records of the primary \<open>r\<close>.\<close>

definition published_routes :: "redis \<Rightarrow> spec list \<Rightarrow> redis \<Rightarrow> string \<Rightarrow> rtext option \<times> rtext option \<times> bool \<times> bool" where
  "published_routes r specs old m =
     (if m \<in> spec_name ` set specs then expected_routes r specs m
      else if m \<in> set (rd_smembers AGENTS_SET_KEY old) then (None, None, False, False)
      else routes_of old m)"

definition times_readable :: "redis \<Rightarrow> spec list \<Rightarrow> bool" where
  "times_readable r specs \<longleftrightarrow>
     (\<forall>n\<in>spec_name ` set specs. \<exists>xs. oldest_first (list_replicas r (Some n)) = Inr xs)"

text \<open>Only server \<open>h\<close> changes, and it keeps the replica records.\<close>

definition only_at :: "string \<Rightarrow> world \<Rightarrow> world \<Rightarrow> bool" where
  "only_at h w w' \<longleftrightarrow> (\<exists>r. same_records (w_servers w h) r \<and> w' = w\<lparr>w_servers := (w_servers w)(h := r)\<rparr>)"

lemma only_at_refl [simp]: "only_at h w w"
  unfolding only_at_def same_records_def by (rule exI[of _ "w_servers w h"]) simp

lemma only_at_trans: "only_at h w w' \<Longrightarrow> only_at h w' w'' \<Longrightarrow> only_at h w w''"
  by (fastforce simp: only_at_def same_records_def)

lemma only_at_down: "only_at h w w' \<Longrightarrow> w_down w' = w_down w"
  by (auto simp: only_at_def)

lemma only_at_clients: "only_at h w w' \<Longrightarrow> w_clients w' = w_clients w"
  by (auto simp: only_at_def)

lemma only_at_other: "only_at h w w' \<Longrightarrow> h' \<noteq> h \<Longrightarrow> w_servers w' h' = w_servers w h'"
  by (auto simp: only_at_def)

lemma only_at_records: "only_at h w w' \<Longrightarrow> list_replicas (w_servers w' x) a = list_replicas (w_servers w x) a"
  by (cases "x = h") (auto simp: only_at_def same_records_def)

lemma only_at_tell:
  assumes "\<And>r a. list_replicas (f r) a = list_replicas r a"
  shows "only_at h w (w\<lparr>w_servers := (w_servers w)(h := f (w_servers w h))\<rparr>)"
  unfolding only_at_def same_records_def
  by (rule exI[of _ "f (w_servers w h)"]) (simp add: assms)

lemma forget_agents_all:
  assumes "\<not> w_down w h"
  obtains w' where "for_each stales (\<lambda>s. tell h (forget_agent s)) w = (Inr (), w')" "only_at h w w'"
    "\<And>n. routes_of (w_servers w' h) n = (if n \<in> set stales then (None, None, False, False) else routes_of (w_servers w h) n)"
proof -
  have "\<exists>w'. for_each stales (\<lambda>s. tell h (forget_agent s)) w = (Inr (), w') \<and> only_at h w w' \<and>
    (\<forall>n. routes_of (w_servers w' h) n = (if n \<in> set stales then (None, None, False, False) else routes_of (w_servers w h) n))"
    using assms
  proof (induction stales arbitrary: w)
    case (Cons s stales)
    let ?w = "w\<lparr>w_servers := (w_servers w)(h := forget_agent s (w_servers w h))\<rparr>"
    have step: "tell h (forget_agent s) w = (Inr (), ?w)" using Cons.prems by (simp add: act_simps)
    have at: "only_at h w ?w" by (rule only_at_tell) simp
    have "\<not> w_down ?w h" using Cons.prems by simp
    from Cons.IH[OF this] obtain w' where
      "for_each stales (\<lambda>s. tell h (forget_agent s)) ?w = (Inr (), w')" "only_at h ?w w'"
      "\<forall>n. routes_of (w_servers w' h) n = (if n \<in> set stales then (None, None, False, False) else routes_of (w_servers ?w h) n)"
      by blast
    then show ?case using step only_at_trans[OF at]
      by (auto simp: bnd_run routes_of_forget intro!: exI[of _ w'])
  qed (simp add: act_simps)
  then show ?thesis using that by blast
qed

lemma publish_agent_run:
  assumes "\<not> w_down w h" "\<not> w_down w LOCAL"
    and "oldest_first (list_replicas (w_servers w LOCAL) (Some n)) = Inr xs"
  obtains w' where "publish_agent h specs n w = (Inr (), w')" "only_at h w w'"
    "\<And>m. routes_of (w_servers w' h) m =
       (if m = n then expected_routes (w_servers w LOCAL) specs n else routes_of (w_servers w h) m)"
proof -
  let ?recs = "list_replicas (w_servers w LOCAL) (Some n)"
  let ?r1 = "mark_agent (is_stateful specs n) n (w_servers w h)"
  let ?w1 = "w\<lparr>w_servers := (w_servers w)(h := ?r1)\<rparr>"
  let ?r2 = "write_routes n (filter (\<lambda>item. \<not> is_draining item) xs) ?recs ?r1"
  have recs: "list_replicas (w_servers ?w1 LOCAL) (Some n) = ?recs" by simp
  have "publish_agent h specs n w = (Inr (), w\<lparr>w_servers := (w_servers w)(h := ?r2)\<rparr>)"
    using assms recs by (simp add: publish_agent_def act_simps)
  moreover have "only_at h w (w\<lparr>w_servers := (w_servers w)(h := ?r2)\<rparr>)"
    unfolding only_at_def same_records_def by (rule exI[of _ ?r2]) simp
  moreover have "routes_of ?r2 m =
     (if m = n then expected_routes (w_servers w LOCAL) specs n else routes_of (w_servers w h) m)" for m
    using assms(3) by (simp add: routes_of_publish expected_routes_def routed_records_def)
  ultimately show ?thesis using that by simp
qed

lemma expected_routes_cong:
  "(\<And>a. list_replicas r a = list_replicas r' a) \<Longrightarrow> expected_routes r specs n = expected_routes r' specs n"
  by (simp add: expected_routes_def routed_records_def)

lemma publish_agents_run:
  assumes "\<not> w_down w h" "\<not> w_down w LOCAL"
    and "\<forall>n\<in>set ns. \<exists>xs. oldest_first (list_replicas (w_servers w LOCAL) (Some n)) = Inr xs"
  obtains w' where "for_each ns (publish_agent h specs) w = (Inr (), w')" "only_at h w w'"
    "\<And>m. routes_of (w_servers w' h) m =
       (if m \<in> set ns then expected_routes (w_servers w LOCAL) specs m else routes_of (w_servers w h) m)"
proof -
  have "\<exists>w'. for_each ns (publish_agent h specs) w = (Inr (), w') \<and> only_at h w w' \<and>
    (\<forall>m. routes_of (w_servers w' h) m =
       (if m \<in> set ns then expected_routes (w_servers w LOCAL) specs m else routes_of (w_servers w h) m))"
    using assms
  proof (induction ns arbitrary: w)
    case (Cons n ns)
    then obtain xs where "oldest_first (list_replicas (w_servers w LOCAL) (Some n)) = Inr xs" by auto
    from publish_agent_run[OF Cons.prems(1,2) this] obtain w1 where
      one: "publish_agent h specs n w = (Inr (), w1)" and at: "only_at h w w1"
      and r1: "\<And>m. routes_of (w_servers w1 h) m =
        (if m = n then expected_routes (w_servers w LOCAL) specs n else routes_of (w_servers w h) m)" by blast
    have recs: "\<And>a. list_replicas (w_servers w1 LOCAL) a = list_replicas (w_servers w LOCAL) a"
      using at by (rule only_at_records)
    have down: "w_down w1 = w_down w" using at by (rule only_at_down)
    from Cons.IH[of w1] Cons.prems recs down obtain w' where
      rest: "for_each ns (publish_agent h specs) w1 = (Inr (), w')" and at': "only_at h w1 w'"
      and r': "\<forall>m. routes_of (w_servers w' h) m =
        (if m \<in> set ns then expected_routes (w_servers w1 LOCAL) specs m else routes_of (w_servers w1 h) m)"
      by auto
    have "expected_routes (w_servers w1 LOCAL) specs m = expected_routes (w_servers w LOCAL) specs m" for m
      by (rule expected_routes_cong) (rule recs)
    with one rest r1 r' only_at_trans[OF at at'] show ?case
      by (auto simp: act_simps intro!: exI[of _ w'])
  qed (simp add: act_simps)
  then show ?thesis using that by blast
qed

lemma publish_target_run:
  assumes "\<not> w_down w h" "\<not> w_down w LOCAL" "times_readable (w_servers w LOCAL) specs"
  obtains w' where "publish_target specs h w = (Inr (), w')" "only_at h w w'"
    "\<And>m. routes_of (w_servers w' h) m =
       published_routes (w_servers w LOCAL) specs (w_servers w h) m"
proof -
  let ?stale = "filter (\<lambda>a. a \<notin> set (spec_names specs)) (rd_smembers AGENTS_SET_KEY (w_servers w h))"
  from forget_agents_all[OF assms(1), of ?stale] obtain w1 where
    f: "for_each ?stale (\<lambda>s. tell h (forget_agent s)) w = (Inr (), w1)" and at: "only_at h w w1"
    and r1: "\<And>n. routes_of (w_servers w1 h) n = (if n \<in> set ?stale then (None, None, False, False) else routes_of (w_servers w h) n)"
    by blast
  have recs: "\<And>a. list_replicas (w_servers w1 LOCAL) a = list_replicas (w_servers w LOCAL) a"
    using at by (rule only_at_records)
  have pre: "\<not> w_down w1 h" "\<not> w_down w1 LOCAL"
    "\<forall>n\<in>set (spec_names specs). \<exists>xs. oldest_first (list_replicas (w_servers w1 LOCAL) (Some n)) = Inr xs"
    using assms recs only_at_down[OF at] by (auto simp: times_readable_def)
  from publish_agents_run[OF pre] obtain w' where
    p: "for_each (spec_names specs) (publish_agent h specs) w1 = (Inr (), w')" and at': "only_at h w1 w'"
    and r': "\<And>m. routes_of (w_servers w' h) m =
       (if m \<in> set (spec_names specs) then expected_routes (w_servers w1 LOCAL) specs m else routes_of (w_servers w1 h) m)"
    by blast
  have "publish_target specs h w = (Inr (), w')"
    using assms(1) f p by (simp add: publish_target_def act_simps)
  moreover have "expected_routes (w_servers w1 LOCAL) specs m = expected_routes (w_servers w LOCAL) specs m" for m
    by (rule expected_routes_cong) (rule recs)
  ultimately show ?thesis using that[of w'] only_at_trans[OF at at'] r1 r'
    by (auto simp: published_routes_def)
qed

lemma keeps_only_at_tell:
  "(\<And>r a. list_replicas (f r) a = list_replicas r a) \<Longrightarrow> keeps (only_at h w0) (tell h f)"
  by (rule keeps_tell) (blast intro: only_at_trans only_at_tell)

lemma publish_target_only_at: "keeps (only_at h w0) (publish_target specs h)"
  unfolding publish_target_def publish_agent_def
  by (intro keeps_bnd keeps_ask keeps_for_each keeps_of_res keeps_only_at_tell) simp_all


lemma publish_one_target:
  "\<exists>w1. catch (publish_target specs h) (\<lambda>_. ret ()) w = (Inr (), w1) \<and> only_at h w w1 \<and>
    (\<not> w_down w h \<longrightarrow> \<not> w_down w LOCAL \<longrightarrow> times_readable (w_servers w LOCAL) specs \<longrightarrow>
     routes_of (w_servers w1 h) m =
       published_routes (w_servers w LOCAL) specs (w_servers w h) m)"
proof -
  obtain res w1 where run: "publish_target specs h w = (res, w1)" by (cases "publish_target specs h w")
  have c: "catch (publish_target specs h) (\<lambda>_. ret ()) w = (Inr (), w1)"
    using run by (cases res) (auto simp: act_simps)
  have "only_at h w w1" using keepsD[OF publish_target_only_at, of h w w specs] run by simp
  moreover have "routes_of (w_servers w1 h) m =
       published_routes (w_servers w LOCAL) specs (w_servers w h) m"
    if "\<not> w_down w h" "\<not> w_down w LOCAL" "times_readable (w_servers w LOCAL) specs"
    using publish_target_run[OF that] run by (metis prod.inject)
  ultimately show ?thesis using c by blast
qed

lemma times_readable_cong:
  "(\<And>a. list_replicas r a = list_replicas r' a) \<Longrightarrow> times_readable r specs = times_readable r' specs"
  by (simp add: times_readable_def)

lemma publish_targets:
  assumes "for_each hs (\<lambda>h. catch (publish_target specs h) (\<lambda>_. ret ())) w = (res, w')" "distinct hs"
  shows "res = Inr () \<and> w_down w' = w_down w \<and>
    (\<forall>x a. list_replicas (w_servers w' x) a = list_replicas (w_servers w x) a) \<and>
    (\<forall>x. x \<notin> set hs \<longrightarrow> w_servers w' x = w_servers w x) \<and>
    (\<forall>h\<in>set hs. \<not> w_down w h \<longrightarrow> \<not> w_down w LOCAL \<longrightarrow> times_readable (w_servers w LOCAL) specs \<longrightarrow>
       routes_of (w_servers w' h) m =
         published_routes (w_servers w LOCAL) specs (w_servers w h) m)"
  using assms
proof (induction hs arbitrary: w)
  case (Cons h hs)
  from publish_one_target[of specs h w m] obtain w1 where
    one: "catch (publish_target specs h) (\<lambda>_. ret ()) w = (Inr (), w1)" and at: "only_at h w w1"
    and r1: "\<not> w_down w h \<longrightarrow> \<not> w_down w LOCAL \<longrightarrow> times_readable (w_servers w LOCAL) specs \<longrightarrow>
     routes_of (w_servers w1 h) m =
       published_routes (w_servers w LOCAL) specs (w_servers w h) m"
    by blast
  have rest: "for_each hs (\<lambda>h. catch (publish_target specs h) (\<lambda>_. ret ())) w1 = (res, w')"
    using Cons.prems(1) one by (simp add: bnd_run)
  have recs: "\<And>x a. list_replicas (w_servers w1 x) a = list_replicas (w_servers w x) a"
    using at by (rule only_at_records)
  have times: "times_readable (w_servers w1 LOCAL) specs = times_readable (w_servers w LOCAL) specs"
    by (rule times_readable_cong) (rule recs)
  have exp: "expected_routes (w_servers w1 LOCAL) specs m = expected_routes (w_servers w LOCAL) specs m"
    by (rule expected_routes_cong) (rule recs)
  have other: "\<And>x. x \<noteq> h \<Longrightarrow> w_servers w1 x = w_servers w x" using only_at_other[OF at] by blast
  note IH = Cons.IH[OF rest]
  have "h \<notin> set hs" "distinct hs" using Cons.prems(2) by auto
  have tail: "routes_of (w_servers w' x) m = published_routes (w_servers w LOCAL) specs (w_servers w x) m"
    if "x \<in> set hs" "\<not> w_down w x" "\<not> w_down w LOCAL" "times_readable (w_servers w LOCAL) specs" for x
  proof -
    have "x \<noteq> h" using that(1) \<open>h \<notin> set hs\<close> by auto
    with IH \<open>distinct hs\<close> that other[of x] times exp only_at_down[OF at] show ?thesis
      by (simp add: published_routes_def)
  qed
  have head: "w_servers w' h = w_servers w1 h" using IH \<open>h \<notin> set hs\<close> \<open>distinct hs\<close> by blast
  show ?case
    using IH \<open>distinct hs\<close> recs only_at_down[OF at] other tail head r1 by simp
qed (simp add: act_simps)

section \<open>Properties\<close>

text \<open>After a publication every machine's Redis that is up holds exactly the table the
  replica records call for, whichever other machines are down: each configured agent maps to the
  addresses of its replicas that are not draining, oldest first, or to nothing when it has none;
  every existing replica, draining ones too, is listed as known; and an agent the specs no longer
  name has no entry left.\<close>

theorem routing_snapshot_complete:
  assumes "publish_routing_snapshot specs w = (res, w')"
    and "distinct (targets w)" "h \<in> set (targets w)"
    and "\<not> w_down w h" "\<not> w_down w LOCAL" "times_readable (w_servers w LOCAL) specs"
  shows "res = Inr () \<and> routes_of (w_servers w' h) m =
     published_routes (w_servers w LOCAL) specs (w_servers w h) m"
proof -
  from assms(1) have "for_each (targets w) (\<lambda>h. catch (publish_target specs h) (\<lambda>_. ret ())) w = (res, w')"
    by (simp add: publish_routing_snapshot_def act_simps)
  from publish_targets[OF this assms(2), of m] assms(3-6) show ?thesis by blast
qed

lemma with_created_snd: "with_created recs = Inr ps \<Longrightarrow> map snd ps = recs"
  by (induction recs arbitrary: ps) (auto split: sum.splits simp: map_sum_def)

lemma oldest_first_set: "oldest_first recs = Inr xs \<Longrightarrow> mset xs = mset recs"
proof -
  assume "oldest_first recs = Inr xs"
  then obtain ps where ps: "with_created recs = Inr ps" "xs = map snd (sort_key (\<lambda>(t, _). fl_key t) ps)"
    by (cases "with_created recs") (auto simp: oldest_first_def)
  have "mset xs = image_mset snd (mset (sort_key (\<lambda>(t, _). fl_key t) ps))" by (simp add: ps(2))
  also have "\<dots> = mset (map snd ps)" by simp
  finally show ?thesis using with_created_snd[OF ps(1)] by simp
qed

text \<open>The routed replicas of an agent are exactly its finished replicas that are not
  draining: a replica whose drain started is in no address list published from then on, and no
  other replica is dropped.\<close>

theorem draining_replica_not_routed:
  assumes "times_readable r specs" "n \<in> spec_name ` set specs"
  shows "set (routed_records r n) = {rec \<in> set (list_replicas r (Some n)). \<not> is_draining rec}"
proof -
  from assms obtain xs where xs: "oldest_first (list_replicas r (Some n)) = Inr xs"
    by (auto simp: times_readable_def)
  then have "set xs = set (list_replicas r (Some n))"
    using oldest_first_set mset_eq_setD by blast
  with xs show ?thesis by (auto simp: routed_records_def)
qed

text \<open>Publishing the agents that are up ends with exactly them, and between its two writes a
  reader never sees an agent missing that was up before and still is.\<close>

theorem up_agents_never_flap:
  assumes "a \<in> set (rd_smembers ROUTING_UP_KEY r)" "a \<in> set up"
  shows "a \<in> set (rd_smembers ROUTING_UP_KEY (run_writes (take k (up_writes up r)) r)) \<and>
    set (rd_smembers ROUTING_UP_KEY (run_writes (up_writes up r) r)) = set up"
proof -
  let ?r1 = "if up = [] then r else rd_sadd ROUTING_UP_KEY up r"
  let ?down = "filter (\<lambda>a. a \<notin> set up) (rd_smembers ROUTING_UP_KEY ?r1)"
  have up: "up \<noteq> []" using assms(2) by auto
  have w: "up_writes up r = rd_sadd ROUTING_UP_KEY up # (if ?down = [] then [] else [rd_srem ROUTING_UP_KEY ?down])"
    using up by (simp add: up_writes_def Let_def)
  have fin: "set (rd_smembers ROUTING_UP_KEY (run_writes (up_writes up r) r)) = set up"
  proof (cases "?down = []")
    case True
    then have "set (rd_smembers ROUTING_UP_KEY ?r1) \<subseteq> set up" by (auto simp: filter_empty_conv)
    with True up w show ?thesis by auto
  next
    case False
    with up w show ?thesis by auto
  qed
  have "a \<in> set (rd_smembers ROUTING_UP_KEY (run_writes (take k (up_writes up r)) r))"
  proof (cases k)
    case 0
    with assms(1) show ?thesis by simp
  next
    case (Suc k')
    show ?thesis
    proof (cases "k' = 0 \<or> ?down = []")
      case True
      with Suc w assms(1) show ?thesis by (auto simp: take_Cons')
    next
      case False
      with Suc w have "take k (up_writes up r) = up_writes up r" by (cases k') auto
      with fin assms(2) show ?thesis by simp
    qed
  qed
  with fin show ?thesis by simp
qed

lemma up_writes_final:
  "set (rd_smembers ROUTING_UP_KEY (run_writes (up_writes up r) r)) = set up"
  by (auto simp: up_writes_def Let_def filter_empty_conv split: if_splits)

theorem up_agents_never_flap_witness:
  "''a'' \<in> set (rd_smembers ROUTING_UP_KEY
     (run_writes (take 1 (up_writes [''a''] (rd_sadd ROUTING_UP_KEY [''a'', ''b''] empty_redis)))
       (rd_sadd ROUTING_UP_KEY [''a'', ''b''] empty_redis)))"
proof -
  let ?r = "rd_sadd ROUTING_UP_KEY [''a'', ''b''] empty_redis"
  have "''a'' \<in> set (rd_smembers ROUTING_UP_KEY ?r)" by simp
  then show ?thesis using up_agents_never_flap[of "''a''" ?r "[''a'']" 1] by simp
qed

text \<open>A concrete deployment: one agent with a draining and a serving replica.\<close>

definition demo_record :: "string \<Rightarrow> int \<Rightarrow> hash \<Rightarrow> hash" where
  "demo_record i t extra = [(''agent_name'', Raw ''a''), (''replica_id'', Raw i),
     (''private_host'', Raw ''localhost''), (''address'', Raw (i @ '':50051'')),
     (''created_at'', Doc (VInt t))] @ extra"

definition demo_redis :: redis where
  "demo_redis = rd_sadd (instances_key ''a'') [''a-1'', ''a-2'']
     (rd_hset_multiple (instance_key ''a-2'') (demo_record ''a-2'' 20 [])
       (rd_hset_multiple (instance_key ''a-1'') (demo_record ''a-1'' 10 [(''draining_at'', Doc (VInt 30))])
         empty_redis))"

definition demo_specs :: "spec list" where
  "demo_specs = [[(''name'', VStr ''a''), (''provider'', VStr ''local'')]]"

definition demo_world :: world where
  "demo_world = \<lparr>w_servers = (\<lambda>_. demo_redis), w_down = (\<lambda>h. h = ''10.0.0.9''),
     w_clients = [''10.0.0.9'', ''localhost''], w_redis_ports = (\<lambda>_. None),
     w_specs = demo_specs, w_config = [],
     w_provisioned_specs = None, w_seen_healthy = {}, w_starting = {}, w_starts = [], w_commands = [],
     w_now = 40, w_drawn = 0\<rparr>"

lemma demo_instances: "rd_smembers (instances_key ''a'') demo_redis = [''a-1'', ''a-2'']"
  by (simp add: demo_redis_def rd_smembers_def rd_sadd_def empty_redis_def rd_hset_multiple_def)

lemma demo_getall:
  "rd_hgetall (instance_key ''a-1'') demo_redis = hash_put (demo_record ''a-1'' 10 [(''draining_at'', Doc (VInt 30))]) []"
  "rd_hgetall (instance_key ''a-2'') demo_redis = hash_put (demo_record ''a-2'' 20 []) []"
  by (simp_all add: demo_redis_def hgetall_hset_multiple instance_key_def)
     (simp_all add: rd_hgetall_def empty_redis_def)

lemma demo_list: "list_replicas demo_redis (Some ''a'') =
    [hash_put (demo_record ''a-1'' 10 [(''draining_at'', Doc (VInt 30))]) [],
     hash_put (demo_record ''a-2'' 20 []) []]"
  by (simp add: list_replicas_def demo_instances demo_getall)
     (simp add: has_address_def demo_record_def opt_truthy_def text_truthy_def)

lemma demo_readable: "times_readable demo_redis demo_specs"
  by (simp add: times_readable_def demo_specs_def spec_name_def dget_def demo_list oldest_first_def
      need_float_def demo_record_def)

theorem routing_snapshot_complete_witness:
  "fst (routes_of (w_servers (snd (publish_routing_snapshot demo_specs demo_world)) ''localhost'') ''a'')
   = Some (Doc (VList [VStr ''a-2:50051'']))"
proof -
  let ?run = "publish_routing_snapshot demo_specs demo_world"
  have "routes_of (w_servers (snd ?run) ''localhost'') ''a'' = expected_routes demo_redis demo_specs ''a''"
    using routing_snapshot_complete[of demo_specs demo_world "fst ?run" "snd ?run" "''localhost''" "''a''"]
      demo_readable
    by (simp add: demo_world_def targets_def LOCAL_def demo_specs_def spec_name_def dget_def published_routes_def)
  then show ?thesis
    by (simp add: expected_routes_def routed_records_def demo_list oldest_first_def need_float_def
        demo_record_def is_draining_def addresses_doc_def fld_def)
qed

theorem draining_replica_not_routed_witness:
  "hash_put (demo_record ''a-1'' 10 [(''draining_at'', Doc (VInt 30))]) [] \<notin> set (routed_records demo_redis ''a'')"
  using draining_replica_not_routed[OF demo_readable, of "''a''"]
  by (simp add: demo_specs_def spec_name_def dget_def is_draining_def demo_record_def)

end
