(* ===== verification/Replica_Provisioner.thy ===== *)
theory Replica_Provisioner
  imports Replica_Launch Routing_Publish
begin

text \<open>
  Starting, draining and removing replicas (\<open>reconciler/replica_provisioner.py\<close>). Every operation is
  a step on the world; \<open>self.redis\<close> is the server \<open>LOCAL\<close>, and \<open>self._agent_specs\<close> is
  \<open>w_provisioned_specs\<close>. The lock around a port claim is not modelled: an operation runs without
  another's steps between its own. A transfer's future is its result, computed before the launches
  that wait for it.
\<close>

definition replica_samples_key :: "string \<Rightarrow> string" where
  "replica_samples_key replica_id = replica_id @ '':samples''"

definition metrics_key :: "string \<Rightarrow> string" where
  "metrics_key addr = ''controller:'' @ addr @ '':metrics''"

definition hourly_cost_key :: "string \<Rightarrow> string" where
  "hourly_cost_key replica_id = ''agent:'' @ replica_id @ '':hourly_cost''"

section \<open>Images\<close>

definition shell_safe :: "char \<Rightarrow> bool" where
  "shell_safe c \<longleftrightarrow> is_alnum c \<or> c \<in> set ''_@%+=:,./-''"

definition shell_quote :: "string \<Rightarrow> string" where
  "shell_quote s = (if s = [] then [CHR 39, CHR 39] else if list_all shell_safe s then s
     else [CHR 39] @ concat (map (\<lambda>c. if c = CHR 39 then [CHR 39, CHR 34, CHR 39, CHR 34, CHR 39] else [c]) s) @ [CHR 39])"

definition transfer_image :: "env \<Rightarrow> string \<Rightarrow> string \<Rightarrow> string \<Rightarrow> unit step" where
  "transfer_image env img host user =
     bnd (read_st w_config) (\<lambda>config.
     bnd (subprocess_run env [''/bin/bash'', ''-c'',
        ''set -o pipefail; docker save '' @ shell_quote img @ '' | zstd -T0 | '' @
        join '' '' (map shell_quote (ssh_args env config host user)) @
        '' '' @ [CHR 39] @ ''set -o pipefail; zstd -d | sudo docker load'' @ [CHR 39]])
     (\<lambda>res. case res of
         Done code out err \<Rightarrow>
           if code \<noteq> 0 then raise (RuntimeError (''Failed to transfer image to '' @ host @ '': '' @ err)) else ret ()
       | TimedOut \<Rightarrow> raise (TimeoutError ''docker save'')
       | OsError e \<Rightarrow> raise (RuntimeError e)))"

section \<open>Port claims\<close>

text \<open>The ports of the records on a host; \<open>int(...)\<close> of one that is not a number raises.\<close>

fun used_ports :: "string \<Rightarrow> hash list \<Rightarrow> exn + int list" where
  "used_ports host [] = Inr []"
| "used_ports host (rec # recs) =
     (if map_of rec ''private_host'' = Some (Raw host) \<and> opt_truthy (map_of rec ''host_port'') then
        (case int_text (the (map_of rec ''host_port'')) of
           None \<Rightarrow> Inl (ValueError ''int'')
         | Some p \<Rightarrow> map_sum id (\<lambda>ps. p # ps) (used_ports host recs))
      else used_ports host recs)"

text \<open>\<open>while port in used: port += 1\<close>, with fuel; \<open>free_port_lowest\<close> shows that one more than the
  used ports is enough.\<close>

fun free_port :: "nat \<Rightarrow> int \<Rightarrow> int list \<Rightarrow> int" where
  "free_port 0 port used = port"
| "free_port (Suc n) port used = (if port \<in> set used then free_port n (port + 1) used else port)"

definition claim_host_port :: "env \<Rightarrow> string \<Rightarrow> string \<Rightarrow> int step" where
  "claim_host_port env host key =
     bnd (ask LOCAL (\<lambda>r. map (\<lambda>k. rd_hgetall k r) (rd_scan ''agent_instance:'' r))) (\<lambda>records.
     bnd (of_res (used_ports host records)) (\<lambda>used.
     let port = free_port (Suc (length used)) CONTAINER_PORT used in
     bnd (tell LOCAL (rd_hset_multiple key [(''private_host'', Raw host), (''host_port'', Doc (VInt port))])) (\<lambda>_.
     ret port)))"

section \<open>Records\<close>

definition delete_replica_record :: "string \<Rightarrow> hash \<Rightarrow> unit step" where
  "delete_replica_record replica_id replica =
     bnd (tell LOCAL (rd_delete [instance_key replica_id, replica_samples_key replica_id])) (\<lambda>_.
     bnd (of_res (need replica ''agent_name'')) (\<lambda>_.
     tell LOCAL (rd_srem (instances_key (fld replica ''agent_name'')) [replica_id])))"

definition add_replica_to_agent :: "string \<Rightarrow> string \<Rightarrow> unit step" where
  "add_replica_to_agent agent_name replica_id = tell LOCAL (rd_sadd (instances_key agent_name) [replica_id])"

text \<open>The record \<open>_write_replica\<close> saves; every field it reads is one \<open>launch\<close> set.\<close>

definition finished_record :: "rat \<Rightarrow> hash \<Rightarrow> hash" where
  "finished_record now replica =
     map (\<lambda>f. (f, case map_of replica f of Some t \<Rightarrow> t | None \<Rightarrow> Raw []))
       [''agent_name'', ''provider'', ''replica_id'', ''private_host'', ''public_host'', ''host_port'', ''container_port'',
        ''published_address'', ''address'', ''redis_host'', ''redis_port'', ''container_name''] @
     [(''created_at'', Doc (VFloat (Fin now)))] @
     (if opt_truthy (map_of replica ''user'') then [(''user'', the (map_of replica ''user''))] else [])"

definition write_replica :: "hash \<Rightarrow> rat \<Rightarrow> unit step" where
  "write_replica replica hourly_cost =
     bnd (read_st w_now) (\<lambda>now.
     bnd (machine_redis_for_replica replica) (\<lambda>h.
     bnd (tell h (rd_set (hourly_cost_key (fld replica ''replica_id'')) (Doc (VFloat (Fin hourly_cost))))) (\<lambda>_.
     tell LOCAL (rd_hset_multiple (instance_key (fld replica ''replica_id'')) (finished_record now replica)))))"

text \<open>The specs routing is published from: the ones of the last \<open>ensure_replicas\<close>, or the controller's.\<close>

definition routed_specs :: "world \<Rightarrow> spec list" where
  "routed_specs w = (case w_provisioned_specs w of None \<Rightarrow> w_specs w | Some sps \<Rightarrow> sps)"

definition republish :: "unit step" where
  "republish =
     bnd (ask LOCAL (\<lambda>r. list_replicas r None)) (\<lambda>recs.
     bnd (remove_unused_redis_clients recs) (\<lambda>_.
     bnd (read_st routed_specs) publish_routing_snapshot))"

section \<open>Launching one replica\<close>

definition saved_fields :: "env \<Rightarrow> hash \<Rightarrow> string \<Rightarrow> hash" where
  "saved_fields env machine replica_id =
     filter (\<lambda>(_, v). text_truthy v)
       [(''private_host'', Raw (fld machine ''private_host'')),
        (''container_name'', Raw (container_name env replica_id)),
        (''user'', Raw (fld machine ''user''))]"

definition launch_replica :: "env \<Rightarrow> hash \<Rightarrow> new_replica \<Rightarrow> rat \<Rightarrow> (exn + unit) option \<Rightarrow> hash step" where
  "launch_replica env machine new hourly_cost image_sent =
     (let rid = nr_id new; key = instance_key rid; sp = nr_spec new in
      bnd (case image_sent of Some r \<Rightarrow> of_res r | None \<Rightarrow> ret ()) (\<lambda>_.
      bnd (read_st w_config) (\<lambda>config.
      bnd (of_res (publishes_port env config machine sp)) (\<lambda>publish.
      bnd (if publish then claim_host_port env (fld machine ''private_host'') key else ret CONTAINER_PORT) (\<lambda>host_port.
      bnd (tell LOCAL (rd_hset_multiple key (saved_fields env machine rid))) (\<lambda>_.
      bnd (catch (launch env machine sp host_port rid)
             (\<lambda>e. case e of
                ForeignContainerError _ \<Rightarrow>
                  bnd (delete_replica_record rid [(''agent_name'', Raw (spec_name sp))]) (\<lambda>_. raise e)
              | _ \<Rightarrow> raise e)) (\<lambda>replica.
      bnd (write_replica replica hourly_cost) (\<lambda>_. ret replica))))))))"

section \<open>Draining and removing\<close>

text \<open>Two texts the code compares with \<open>==\<close>; a missing field is \<open>None\<close>.\<close>

definition is_idle_report :: "hash \<Rightarrow> bool" where
  "is_idle_report m \<longleftrightarrow>
     map_of m ''draining'' = Some (Doc (VInt 1)) \<and>
     map_of m ''queue_length'' = Some (Doc (VInt 0)) \<and>
     map_of m ''open_requests'' = Some (Doc (VInt 0)) \<and>
     map_of m ''pending_requests'' = Some (Doc (VInt 0)) \<and>
     map_of m ''requests_served'' = map_of m ''requests_completed''"

definition is_idle :: "hash \<Rightarrow> bool step" where
  "is_idle replica =
     bnd (machine_redis_for_replica replica) (\<lambda>h.
     bnd (of_res (need replica ''address'')) (\<lambda>_.
     bnd (ask h (rd_hgetall (metrics_key (fld replica ''address'')))) (\<lambda>m. ret (is_idle_report m))))"

definition fl_add :: "pyfloat \<Rightarrow> rat \<Rightarrow> pyfloat" where
  "fl_add f q = (case f of Fin a \<Rightarrow> Fin (a + q) | _ \<Rightarrow> f)"

text \<open>\<open>now - f >= q\<close>.\<close>

definition elapsed_ge :: "rat \<Rightarrow> pyfloat \<Rightarrow> rat \<Rightarrow> bool" where
  "elapsed_ge now f q = (case f of Fin a \<Rightarrow> now - a \<ge> q | NInf \<Rightarrow> True | PInf \<Rightarrow> False | NaN \<Rightarrow> False)"

definition mark_draining :: "string \<Rightarrow> hash \<Rightarrow> rtext step" where
  "mark_draining key replica =
     (case map_of replica ''draining_at'' of
        Some t \<Rightarrow> ret t
      | None \<Rightarrow> bnd (read_st w_now) (\<lambda>now. let t = Doc (VFloat (Fin now)) in
          bnd (tell LOCAL (rd_hset key ''draining_at'' t)) (\<lambda>_. ret t)))"

definition drain :: "string \<Rightarrow> hash \<Rightarrow> bool step" where
  "drain key replica =
     bnd (mark_draining key replica) (\<lambda>draining_at.
     bnd (machine_redis_for_replica replica) (\<lambda>h.
     bnd (of_res (need replica ''address'')) (\<lambda>_.
     bnd (of_res (case float_text draining_at of None \<Rightarrow> Inl (ValueError ''float'') | Some f \<Rightarrow> Inr f)) (\<lambda>since.
     bnd (tell h (rd_set (draining_key (fld replica ''address'')) (Doc (VFloat (fl_add since DRAIN_TIMEOUT_SECONDS))))) (\<lambda>_.
     bnd (is_idle replica) (\<lambda>idle.
     if idle then ret True
     else bnd (read_st w_now) (\<lambda>now. ret (elapsed_ge now since DRAIN_TIMEOUT_SECONDS))))))))"

definition delete_controller_status :: "hash \<Rightarrow> unit step" where
  "delete_controller_status replica =
     catch (bnd (read_st w_clients) (\<lambda>clients.
        let host = fld replica ''private_host''; h = (if host \<in> set clients then host else LOCAL) in
        bnd (of_res (need replica ''address'')) (\<lambda>_.
        tell h (rd_delete [status_key (fld replica ''address'')]))))
       (\<lambda>_. ret ())"

definition remove_replica :: "env \<Rightarrow> string \<Rightarrow> bool \<Rightarrow> bool step" where
  "remove_replica env replica_id drain_first =
     (let key = instance_key replica_id in
      bnd (ask LOCAL (rd_hgetall key)) (\<lambda>replica.
      if replica = [] then ret True
      else bnd (if drain_first then drain key replica else ret True) (\<lambda>ready.
        if \<not> ready then ret False
        else bnd (delete_controller_status replica) (\<lambda>_.
          bnd (remove_container env replica) (\<lambda>_.
          bnd (delete_replica_record replica_id replica) (\<lambda>_.
          bnd republish (\<lambda>_. ret True)))))))"

definition unfinished_error :: "string \<Rightarrow> exn \<Rightarrow> string" where
  "unfinished_error replica_id e = ''the unfinished launch '' @ replica_id @
     '' could not be removed, so no replica replaces it until it is: '' @ exn_str e"

definition remove_unfinished_one :: "env \<Rightarrow> string \<Rightarrow> unit step" where
  "remove_unfinished_one env key =
     bnd (ask LOCAL (rd_hgetall key)) (\<lambda>rec.
     if rec = [] \<or> has_address rec then ret ()
     else bnd (attempt (remove_container env rec)) (\<lambda>res.
       case res of
         Inr _ \<Rightarrow> tell LOCAL (rd_delete [key])
       | Inl e \<Rightarrow>
           let rid = removeprefix ''agent_instance:'' key; agent = rsplit_head CHR ''-'' rid;
               err = Raw (unfinished_error rid e) in
           bnd (ask LOCAL (rd_hget LAUNCH_ERRORS_KEY agent)) (\<lambda>old.
           if old \<noteq> Some err then tell LOCAL (rd_hset LAUNCH_ERRORS_KEY agent err) else ret ())))"

definition remove_unfinished :: "env \<Rightarrow> unit step" where
  "remove_unfinished env =
     bnd (ask LOCAL (rd_scan ''agent_instance:'')) (\<lambda>keys. for_each keys (remove_unfinished_one env))"

definition forget_replica :: "string list \<Rightarrow> string \<Rightarrow> string list step" where
  "forget_replica launch_ids key =
     bnd (ask LOCAL (rd_hgetall key)) (\<lambda>replica.
     if (\<exists>l\<in>set launch_ids. map_of replica ''machine'' = Some (Raw l)) then
       let rid = removeprefix ''agent_instance:'' key in
       bnd (delete_replica_record rid replica) (\<lambda>_. ret [rid])
     else ret [])"

definition forget_replicas_on :: "string list \<Rightarrow> string list step" where
  "forget_replicas_on launch_ids =
     bnd (ask LOCAL (rd_scan ''agent_instance:'')) (\<lambda>keys.
     bnd (map_each keys (forget_replica launch_ids)) (\<lambda>removed.
     bnd republish (\<lambda>_. ret (concat removed))))"

section \<open>Converging onto the specs\<close>

text \<open>One record of an agent: \<open>counted\<close> is how many hold a place, \<open>existing\<close> the running ones. A
  stopped container's record goes, unless its container cannot be removed.\<close>

definition check_replica :: "env \<Rightarrow> string \<Rightarrow> string \<Rightarrow> (hash list \<times> nat) \<Rightarrow> (hash list \<times> nat) step" where
  "check_replica env agent_name key acc =
     (let (existing, counted) = acc in
      bnd (ask LOCAL (rd_hgetall key)) (\<lambda>replica.
      if map_of replica ''agent_name'' \<noteq> Some (Raw agent_name) then ret (existing, counted)
      else if is_draining replica then ret (existing, counted)
      else if \<not> has_address replica then ret (existing, counted + 1)
      else bnd (of_res (need replica ''replica_id'')) (\<lambda>_.
        bnd (is_running env replica) (\<lambda>running.
        if running then ret (existing @ [replica], counted + 1)
        else bnd (of_res (need replica ''container_name'')) (\<lambda>_.
          bnd (attempt (remove_container env replica)) (\<lambda>res.
            case res of
              Inl _ \<Rightarrow> ret (existing, counted + 1)
            | Inr _ \<Rightarrow> bnd (delete_replica_record (fld replica ''replica_id'') replica) (\<lambda>_.
                ret (existing, counted))))))))"

text \<open>The running replicas of the agents in \<open>only\<close>, and the specs of the replicas to start.\<close>

definition check_agent :: "env \<Rightarrow> string list option \<Rightarrow> spec \<Rightarrow> (hash list \<times> spec list) \<Rightarrow> (hash list \<times> spec list) step" where
  "check_agent env only sp acc =
     (let (existing, wanted) = acc; nm = spec_name sp in
      if (case only of None \<Rightarrow> False | Some names \<Rightarrow> nm \<notin> set names) then ret (existing, wanted)
      else bnd (ask LOCAL (rd_scan (''agent_instance:'' @ nm @ ''-''))) (\<lambda>keys.
        bnd (fold_each keys ([], 0) (check_replica env nm)) (\<lambda>(running, counted).
        bnd (of_res (py_int (dget_or sp ''replicas'' (VInt 1)))) (\<lambda>count.
        ret (existing @ running, wanted @ replicate (nat (count - int counted)) sp)))))"

text \<open>What the records say each machine's replicas take. A share is a finite number, as it was
  written.\<close>

definition record_usage :: "hash \<Rightarrow> exn + (string \<times> rat \<times> int) option" where
  "record_usage rec =
     (if \<not> opt_truthy (map_of rec ''machine'') then Inr None
      else case need_float rec ''cpu'' of
          Inl e \<Rightarrow> Inl e
        | Inr (Fin cpu) \<Rightarrow> (case need rec ''memory'' of
              Inl e \<Rightarrow> Inl e
            | Inr t \<Rightarrow> (case int_text t of
                None \<Rightarrow> Inl (ValueError ''int'')
              | Some memory \<Rightarrow> Inr (Some (fld rec ''machine'', cpu, memory))))
        | Inr _ \<Rightarrow> Inl (ValueError ''cpu''))"

fun usages :: "hash list \<Rightarrow> exn + (string \<times> rat \<times> int) list" where
  "usages [] = Inr []"
| "usages (rec # recs) = (case record_usage rec of
     Inl e \<Rightarrow> Inl e
   | Inr None \<Rightarrow> usages recs
   | Inr (Some u) \<Rightarrow> map_sum id (\<lambda>us. u # us) (usages recs))"

definition with_usage :: "(string \<times> rat \<times> int) list \<Rightarrow> machine \<Rightarrow> machine" where
  "with_usage us m = (let mine = filter (\<lambda>u. fst u = m_launch_id m) us in
     m\<lparr>m_used_cpu := (\<Sum>u\<leftarrow>mine. fst (snd u)), m_used_memory := (\<Sum>u\<leftarrow>mine. snd (snd u)),
       m_used_replicas := length mine, m_replicas := []\<rparr>)"

text \<open>\<open>float(resources.get("cpu") or DEFAULT_CPU)\<close>; the config's schema admits numbers only.\<close>

definition cpu_share :: "dict \<Rightarrow> exn + rat" where
  "cpu_share resources = (case val_or (dget resources ''cpu'') (VInt 1) of
       VInt i \<Rightarrow> Inr (of_int i) | VBool b \<Rightarrow> Inr (if b then 1 else 0) | VFloat (Fin q) \<Rightarrow> Inr q
     | VFloat _ \<Rightarrow> Inl (ValueError ''cpu'') | _ \<Rightarrow> Inl (TypeError ''cpu''))"

definition spec_resource_dict :: "spec \<Rightarrow> dict" where
  "spec_resource_dict sp = (case dget sp ''resources'' of VDict d \<Rightarrow> d | _ \<Rightarrow> [])"

definition draw_replica :: "env \<Rightarrow> spec \<Rightarrow> new_replica step" where
  "draw_replica env sp =
     bnd (read_st w_drawn) (\<lambda>n.
     bnd (modify_st (\<lambda>w. w\<lparr>w_drawn := Suc n\<rparr>)) (\<lambda>_.
     bnd (of_res (cpu_share (spec_resource_dict sp))) (\<lambda>cpu.
     bnd (of_res (py_int (val_or (dget (spec_resource_dict sp) ''memory'') (VInt 512)))) (\<lambda>memory.
     ret \<lparr>nr_spec = sp, nr_id = spec_name sp @ ''-'' @ take 8 (e_uuid env n), nr_cpu = cpu, nr_memory = memory\<rparr>))))"

definition placed_record :: "new_replica \<Rightarrow> string \<Rightarrow> hash" where
  "placed_record new launch_id =
     [(''agent_name'', Raw (spec_name (nr_spec new))),
      (''provider'', str_val (dget (nr_spec new) ''provider'')),
      (''replica_id'', Raw (nr_id new)), (''machine'', Raw launch_id),
      (''cpu'', Doc (VFloat (Fin (nr_cpu new)))), (''memory'', Doc (VInt (nr_memory new)))]"

text \<open>One wanted replica: drawn, placed, and recorded when its machine is up. A place on a machine
  still starting counts for the others.\<close>

definition put_on_machine :: "machine list \<Rightarrow> new_replica \<Rightarrow> machine list step" where
  "put_on_machine machines new =
     bnd (of_res (place machines (spec_provider (nr_spec new)) new)) (\<lambda>(machines', chosen).
       case chosen of
         None \<Rightarrow> ret machines'
       | Some i \<Rightarrow>
           if \<not> m_up (machines' ! i) then ret machines'
           else bnd (tell LOCAL (rd_hset_multiple (instance_key (nr_id new))
                  (placed_record new (m_launch_id (machines' ! i))))) (\<lambda>_. ret machines'))"

definition place_wanted :: "env \<Rightarrow> spec \<Rightarrow> machine list \<Rightarrow> machine list step" where
  "place_wanted env sp machines =
     bnd (draw_replica env sp) (\<lambda>new.
     bnd (ask LOCAL (rd_hgetall (instance_key (nr_id new)))) (\<lambda>taken.
     if taken \<noteq> [] then ret machines else put_on_machine machines new))"

text \<open>The images the placed replicas need on other machines, each sent once per machine.\<close>

definition placed_on_up :: "machine list \<Rightarrow> (machine \<times> new_replica) list" where
  "placed_on_up machines = concat (map (\<lambda>m. map (Pair m) (m_replicas m)) (filter m_up machines))"

definition images_to_send :: "env \<Rightarrow> machine list \<Rightarrow> ((string \<times> string) \<times> string) list" where
  "images_to_send env machines =
     AList.clearjunk (filter (\<lambda>((host, _), _). \<not> is_local_host host)
       (map (\<lambda>(m, new). ((fld (m_record m) ''private_host'', image_name env (spec_name (nr_spec new))), fld (m_record m) ''user''))
         (placed_on_up machines)))"

definition send_images :: "env \<Rightarrow> machine list \<Rightarrow> ((string \<times> string) \<times> (exn + unit)) list step" where
  "send_images env machines =
     map_each (images_to_send env machines) (\<lambda>((host, img), user).
       bnd (attempt (transfer_image env img host user)) (\<lambda>res. ret ((host, img), res)))"

definition cpu_cost_share :: "machine \<Rightarrow> new_replica \<Rightarrow> rat" where
  "cpu_cost_share m new = (case m_capacity m of Some (cpu, _) \<Rightarrow> nr_cpu new / cpu | None \<Rightarrow> 1)"

definition launch_jobs :: "env \<Rightarrow> machine list \<Rightarrow> ((string \<times> string) \<times> (exn + unit)) list \<Rightarrow> (string \<times> hash step) list" where
  "launch_jobs env machines sent =
     map (\<lambda>(m, new). (nr_id new, launch_replica env (m_record m) new (m_hourly_cost m * cpu_cost_share m new)
         (map_of sent (fld (m_record m) ''private_host'', image_name env (spec_name (nr_spec new))))))
       (placed_on_up machines)"

text \<open>The outcome of each launch: its error is saved under its agent, a success clears it.\<close>

definition record_outcome :: "string \<times> (exn + hash) \<Rightarrow> (hash list \<times> exn list) \<Rightarrow> (hash list \<times> exn list) step" where
  "record_outcome outcome acc = (case outcome of
       (rid, Inl e) \<Rightarrow> bnd (tell LOCAL (rd_hset LAUNCH_ERRORS_KEY (rsplit_head CHR ''-'' rid) (Raw (exn_str e))))
         (\<lambda>_. ret (fst acc, snd acc @ [e]))
     | (rid, Inr replica) \<Rightarrow> bnd (tell LOCAL (rd_hdel LAUNCH_ERRORS_KEY (fld replica ''agent_name'')))
         (\<lambda>_. ret (fst acc @ [replica], snd acc)))"

definition ensure_replicas :: "env \<Rightarrow> spec list \<Rightarrow> machine list \<Rightarrow> string list option \<Rightarrow> hash list step" where
  "ensure_replicas env specs machines only =
     bnd (modify_st (\<lambda>w. w\<lparr>w_provisioned_specs := Some specs\<rparr>)) (\<lambda>_.
     bnd (fold_each specs ([], []) (check_agent env only)) (\<lambda>(existing, wanted).
     bnd (ask LOCAL (\<lambda>r. map (\<lambda>k. rd_hgetall k r) (rd_scan ''agent_instance:'' r))) (\<lambda>records.
     bnd (of_res (usages records)) (\<lambda>us.
     bnd (fold_each wanted (map (with_usage us) machines) (place_wanted env)) (\<lambda>machines.
     bnd (send_images env machines) (\<lambda>sent.
     bnd (run_in_parallel env (launch_jobs env machines sent)) (\<lambda>outcomes.
     bnd (fold_each outcomes ([], []) record_outcome) (\<lambda>(provisioned, failures).
     bnd (for_each (existing @ provisioned) (\<lambda>replica.
            add_replica_to_agent (fld replica ''agent_name'') (fld replica ''replica_id''))) (\<lambda>_.
     bnd (ask LOCAL (\<lambda>r. list_replicas r None)) (\<lambda>recs.
     bnd (remove_unused_redis_clients recs) (\<lambda>_.
     bnd (publish_routing_snapshot specs) (\<lambda>_.
     case failures of
       [] \<Rightarrow> ret (existing @ provisioned)
     | e # _ \<Rightarrow> bnd (catch (remove_unfinished env) (\<lambda>_. ret ())) (\<lambda>_. raise e)))))))))))))"

section \<open>The claimed port\<close>

lemma free_port_spec:
  "p = free_port n port used \<Longrightarrow> port \<le> p \<and> p \<le> port + int n \<and> (\<forall>q. port \<le> q \<and> q < p \<longrightarrow> q \<in> set used) \<and>
     (p \<in> set used \<longrightarrow> p = port + int n)"
proof (induction n arbitrary: port)
  case (Suc n)
  show ?case
  proof (cases "port \<in> set used")
    case True
    with Suc.prems have "p = free_port n (port + 1) used" by simp
    from Suc.IH[OF this] True show ?thesis
      by (auto simp: le_less[of port] zless_imp_add1_zle)
  next
    case False
    with Suc.prems show ?thesis by (auto dest: leD)
  qed
qed (auto dest: leD)

lemma free_port_lowest:
  assumes "p = free_port (Suc (length used)) port used"
  shows "p \<notin> set used" "port \<le> p" "\<And>q. port \<le> q \<Longrightarrow> q < p \<Longrightarrow> q \<in> set used"
proof -
  note sp = free_port_spec[OF assms]
  show "port \<le> p" "\<And>q. port \<le> q \<Longrightarrow> q < p \<Longrightarrow> q \<in> set used" using sp by auto
  show "p \<notin> set used"
  proof
    assume "p \<in> set used"
    with sp have "{port..<port + int (Suc (length used))} \<subseteq> set used" by auto
    then have "card {port..<port + int (Suc (length used))} \<le> card (set used)" by (rule card_mono[rotated]) simp
    also have "\<dots> \<le> length used" by (rule card_length)
    finally show False by simp
  qed
qed

lemma used_ports_set:
  "used_ports host recs = Inr used \<Longrightarrow>
   set used = {p. \<exists>rec\<in>set recs. map_of rec ''private_host'' = Some (Raw host) \<and> map_of rec ''host_port'' = Some (Doc (VInt p))}"
proof (induction recs arbitrary: used)
  case (Cons rec recs)
  show ?case
  proof (cases "map_of rec ''private_host'' = Some (Raw host) \<and> opt_truthy (map_of rec ''host_port'')")
    case True
    with Cons.prems obtain p ps where p: "int_text (the (map_of rec ''host_port'')) = Some p"
      "used_ports host recs = Inr ps" "used = p # ps"
      by (cases "used_ports host recs") (auto split: option.splits)
    then have "map_of rec ''host_port'' = Some (Doc (VInt p))"
      using True by (cases "map_of rec ''host_port''") (auto simp: opt_truthy_def elim: int_text.elims)
    with Cons.IH[OF p(2)] p(3) True show ?thesis by auto
  next
    case False
    with Cons show ?thesis by (auto simp: opt_truthy_def text_truthy_def)
  qed
qed simp

definition claims :: "redis \<Rightarrow> string \<Rightarrow> string \<Rightarrow> int \<Rightarrow> bool" where
  "claims r key host port \<longleftrightarrow> map_of (rd_hgetall key r) ''private_host'' = Some (Raw host) \<and>
     map_of (rd_hgetall key r) ''host_port'' = Some (Doc (VInt port))"

lemma claims_nonempty: "claims r key host port \<Longrightarrow> prefix p key \<Longrightarrow> key \<in> set (rd_scan p r)"
  by (rule hgetall_some_scanned) (auto simp: claims_def)

lemma claim_host_port_run:
  assumes "claim_host_port env host key w = (Inr port, w')"
  obtains used where "used_ports host (map (\<lambda>k. rd_hgetall k (w_servers w LOCAL)) (rd_scan ''agent_instance:'' (w_servers w LOCAL))) = Inr used"
    "port = free_port (Suc (length used)) CONTAINER_PORT used"
    "w_servers w' LOCAL = rd_hset_multiple key [(''private_host'', Raw host), (''host_port'', Doc (VInt port))] (w_servers w LOCAL)"
  using assms unfolding claim_host_port_def
  by (auto simp: bnd_run ask_run of_res_run tell_run ret_run Let_def split: if_splits sum.splits)

text \<open>C39: two replicas on a machine never claim the same port: a claim takes the lowest port from
  the container port up that no other record on that machine holds, and records it, so the record
  is the only one with that port there.\<close>

theorem port_claims_stay_distinct:
  assumes "claim_host_port env host key w = (Inr port, w')"
  shows "claims (w_servers w' LOCAL) key host port \<and> 50051 \<le> port \<and>
    (\<forall>k. k \<noteq> key \<and> prefix ''agent_instance:'' k \<longrightarrow> \<not> claims (w_servers w' LOCAL) k host port) \<and>
    (\<forall>q. 50051 \<le> q \<and> q < port \<longrightarrow> (\<exists>k. claims (w_servers w LOCAL) k host q))"
proof (rule claim_host_port_run[OF assms])
  let ?r = "w_servers w LOCAL"
  let ?recs = "map (\<lambda>k. rd_hgetall k ?r) (rd_scan ''agent_instance:'' ?r)"
  fix used assume u: "used_ports host ?recs = Inr used" and port: "port = free_port (Suc (length used)) CONTAINER_PORT used"
    and w': "w_servers w' LOCAL = rd_hset_multiple key [(''private_host'', Raw host), (''host_port'', Doc (VInt port))] ?r"
  note low = free_port_lowest[OF port]
  have set: "set used = {q. \<exists>k\<in>set (rd_scan ''agent_instance:'' ?r). claims ?r k host q}"
    unfolding used_ports_set[OF u] claims_def by auto
  have new: "claims (w_servers w' LOCAL) k host q \<longleftrightarrow> (if k = key then q = port else claims ?r k host q)" for k q
    unfolding w' claims_def hgetall_hset_multiple by auto
  show ?thesis
  proof (intro conjI allI impI)
    fix k assume "k \<noteq> key \<and> prefix ''agent_instance:'' k"
    then show "\<not> claims (w_servers w' LOCAL) k host port"
      using low(1) set claims_nonempty new by auto
  next
    fix q assume "50051 \<le> q \<and> q < port"
    then show "\<exists>k. claims ?r k host q" using low(3) set by (auto simp: CONTAINER_PORT_def)
  qed (use new low(2) in \<open>auto simp: CONTAINER_PORT_def\<close>)
qed

definition claimed_redis :: redis where
  "claimed_redis = rd_hset_multiple (instance_key ''b-2'') [(''private_host'', Raw ''10.0.0.5''), (''host_port'', Doc (VInt 50051))] empty_redis"

theorem port_claims_stay_distinct_witness:
  "\<exists>w'. claim_host_port demo_env ''10.0.0.5'' (instance_key ''a-1'') (launch_world\<lparr>w_servers := (\<lambda>_. claimed_redis)\<rparr>) = (Inr 50052, w') \<and>
     \<not> claims (w_servers w' LOCAL) (instance_key ''b-2'') ''10.0.0.5'' 50052"
proof -
  let ?w = "launch_world\<lparr>w_servers := (\<lambda>_. claimed_redis)\<rparr>"
  have scan: "rd_scan ''agent_instance:'' claimed_redis = [instance_key ''b-2'']"
    by (simp add: claimed_redis_def instance_key_def rd_defs empty_redis_def)
  have get: "rd_hgetall (instance_key ''b-2'') claimed_redis = [(''host_port'', Doc (VInt 50051)), (''private_host'', Raw ''10.0.0.5'')]"
    by (simp add: claimed_redis_def rd_defs empty_redis_def hash_put_def)
  have "\<exists>w'. claim_host_port demo_env ''10.0.0.5'' (instance_key ''a-1'') ?w = (Inr 50052, w')"
    by (simp add: claim_host_port_def bnd_run ask_run scan get of_res_run opt_truthy_def text_truthy_def
        CONTAINER_PORT_def Let_def tell_run ret_run)
  then obtain w' where c: "claim_host_port demo_env ''10.0.0.5'' (instance_key ''a-1'') ?w = (Inr 50052, w')" by blast
  have "\<not> claims (w_servers w' LOCAL) (instance_key ''b-2'') ''10.0.0.5'' 50052"
    using port_claims_stay_distinct[OF c] by (simp add: instance_key_def)
  with c show ?thesis by blast
qed

section \<open>Draining\<close>

definition machine_host :: "hash \<Rightarrow> string" where
  "machine_host replica = (if fld replica ''private_host'' = [] then LOCAL else fld replica ''private_host'')"

lemma machine_redis_run:
  assumes "machine_redis_for_replica replica w = (Inr h, w')"
  shows "h = machine_host replica" "w_servers w' = w_servers w" "w_now w' = w_now w" "w_down w' = w_down w"
    "w_commands w' = w_commands w" "w_config w' = w_config w"
  using assms
  by (auto simp: machine_redis_for_replica_def machine_host_def bnd_run read_run modify_run ret_run raise_run Let_def
      split: if_splits option.splits)

lemma tell_InrD: "tell h f w = (Inr u, w') \<Longrightarrow> w' = w\<lparr>w_servers := (w_servers w)(h := f (w_servers w h))\<rparr>"
  by (auto simp: tell_run split: if_splits)

lemma ask_InrD: "ask h f w = (Inr a, w') \<Longrightarrow> a = f (w_servers w h) \<and> w' = w"
  by (auto simp: ask_run split: if_splits)

lemmas step_dests = bnd_InrD tell_InrD ask_InrD

lemma is_idle_run:
  assumes "is_idle replica w = (Inr b, w')"
  shows "b = is_idle_report (rd_hgetall (metrics_key (fld replica ''address'')) (w_servers w (machine_host replica)))"
    "w_servers w' = w_servers w" "w_now w' = w_now w" "w_commands w' = w_commands w"
proof -
  from assms obtain h w1 m where "machine_redis_for_replica replica w = (Inr h, w1)"
    "m = rd_hgetall (metrics_key (fld replica ''address'')) (w_servers w1 h)" "b = is_idle_report m" "w' = w1"
    unfolding is_idle_def by (elim bnd_InrE) (auto dest!: ask_InrD simp: of_res_run ret_run)
  with machine_redis_run show
    "b = is_idle_report (rd_hgetall (metrics_key (fld replica ''address'')) (w_servers w (machine_host replica)))"
    "w_servers w' = w_servers w" "w_now w' = w_now w" "w_commands w' = w_commands w" by metis+
qed

text \<open>When the drain of a replica began: at its mark, or now.\<close>

definition drain_start :: "rat \<Rightarrow> hash \<Rightarrow> rtext" where
  "drain_start now replica = (case map_of replica ''draining_at'' of Some t \<Rightarrow> t | None \<Rightarrow> Doc (VFloat (Fin now)))"

lemma metrics_not_instance [simp]: "metrics_key a \<noteq> instance_key i" "instance_key i \<noteq> metrics_key a"
  by (simp_all add: metrics_key_def instance_key_def)

lemma drain_run:
  assumes "drain (instance_key rid) replica w = (Inr ready, w')"
    and "replica = rd_hgetall (instance_key rid) (w_servers w LOCAL)"
  obtains since where "float_text (drain_start (w_now w) replica) = Some since"
    "ready \<longleftrightarrow> is_idle_report (rd_hgetall (metrics_key (fld replica ''address'')) (w_servers w (machine_host replica))) \<or>
       elapsed_ge (w_now w) since DRAIN_TIMEOUT_SECONDS"
    "w_commands w' = w_commands w"
    "map_of (rd_hgetall (instance_key rid) (w_servers w' LOCAL)) =
       (map_of replica)(''draining_at'' \<mapsto> drain_start (w_now w) replica)"
    "rd_get (draining_key (fld replica ''address'')) (w_servers w' (machine_host replica)) =
       Some (Doc (VFloat (fl_add since DRAIN_TIMEOUT_SECONDS)))"
proof -
  let ?t = "drain_start (w_now w) replica" and ?key = "instance_key rid"
  from assms(1) obtain t w1 h w2 since b w4 where
    1: "mark_draining ?key replica w = (Inr t, w1)"
    and 2: "machine_redis_for_replica replica w1 = (Inr h, w2)"
    and since: "float_text t = Some since"
    and 4: "is_idle replica (w2\<lparr>w_servers := (w_servers w2)(h := rd_set (draining_key (fld replica ''address''))
        (Doc (VFloat (fl_add since DRAIN_TIMEOUT_SECONDS))) (w_servers w2 h))\<rparr>) = (Inr b, w4)"
    and 5: "(if b then ret True else bnd (read_st w_now) (\<lambda>now. ret (elapsed_ge now since DRAIN_TIMEOUT_SECONDS))) w4 = (Inr ready, w')"
    unfolding drain_def
    by (elim bnd_InrE) (auto dest!: tell_InrD simp: of_res_run split: option.splits)
  have t: "t = ?t" and w1: "w_now w1 = w_now w" "w_commands w1 = w_commands w"
    "w_servers w1 = (if map_of replica ''draining_at'' = None
       then (w_servers w)(LOCAL := rd_hset ?key ''draining_at'' ?t (w_servers w LOCAL)) else w_servers w)"
    using 1 by (auto simp: mark_draining_def drain_start_def ret_run dest!: step_dests simp: read_run Let_def split: option.splits)
  note since = since[unfolded t]
  note m = machine_redis_run[OF 2]
  note i = is_idle_run[OF 4, simplified]
  have metrics: "rd_hgetall (metrics_key a) (w_servers w1 x) = rd_hgetall (metrics_key a) (w_servers w x)" for a x
    by (simp add: w1(3) rd_hset_def hgetall_hset_multiple)
  have b: "b = is_idle_report (rd_hgetall (metrics_key (fld replica ''address'')) (w_servers w (machine_host replica)))"
    using i(1) m(1,2) metrics by (simp add: rd_set_def rd_set_opts_def rd_hgetall_def)
  have ready: "ready \<longleftrightarrow> b \<or> elapsed_ge (w_now w) since DRAIN_TIMEOUT_SECONDS" and w': "w' = w4"
    using 5 i(3) m(3) w1(1) by (auto simp: ret_run dest!: step_dests simp: read_run split: if_splits)
  have rec: "map_of (rd_hgetall ?key (w_servers w1 LOCAL)) = (map_of replica)(''draining_at'' \<mapsto> ?t)"
    using assms(2) by (auto simp: w1(3) rd_hset_def hgetall_hset_multiple drain_start_def fun_eq_iff split: option.splits)
  show thesis
  proof (rule that[OF since])
    show "map_of (rd_hgetall ?key (w_servers w' LOCAL)) = (map_of replica)(''draining_at'' \<mapsto> ?t)"
      using rec by (simp add: w' i(2) m(2) rd_set_def rd_set_opts_def rd_hgetall_def)
  qed (simp_all add: ready b w' i m w1)
qed

section \<open>Records that a step leaves alone\<close>

text \<open>The replica records, by id, as the primary Redis holds them.\<close>

definition replica_record :: "world \<Rightarrow> string \<Rightarrow> hash" where
  "replica_record w i = rd_hgetall (instance_key i) (w_servers w LOCAL)"

definition record_is :: "string \<Rightarrow> hash \<Rightarrow> world \<Rightarrow> bool" where
  "record_is i rec w \<longleftrightarrow> replica_record w i = rec"

lemma record_is_tell:
  "(\<And>r. h = LOCAL \<Longrightarrow> rd_hgetall (instance_key i) (f r) = rd_hgetall (instance_key i) r) \<Longrightarrow>
   keeps (record_is i rec) (tell h f)"
  by (rule keeps_tell) (auto simp: record_is_def replica_record_def)

lemma record_is_quiet: "(\<And>w. keeps (same_but_commands w) m) \<Longrightarrow> keeps (record_is i rec) m"
  unfolding keeps_def record_is_def replica_record_def using sbcD(1) by (metis sbc_refl)

lemma record_is_upd [simp]:
  "record_is i rec (w\<lparr>w_clients := c\<rparr>) = record_is i rec w"
  "record_is i rec (w\<lparr>w_now := t\<rparr>) = record_is i rec w"
  "record_is i rec (w\<lparr>w_down := d\<rparr>) = record_is i rec w"
  "record_is i rec (w\<lparr>w_seen_healthy := s\<rparr>) = record_is i rec w"
  "record_is i rec (w\<lparr>w_starting := s\<rparr>) = record_is i rec w"
  "record_is i rec (w\<lparr>w_drawn := n\<rparr>) = record_is i rec w"
  "record_is i rec (w\<lparr>w_provisioned_specs := sps\<rparr>) = record_is i rec w"
  "record_is i rec (w\<lparr>w_commands := cs\<rparr>) = record_is i rec w"
  by (simp_all add: record_is_def replica_record_def)

lemma hgetall_routing_writes [simp]:
  "rd_hgetall (instance_key i) (forget_agent s r) = rd_hgetall (instance_key i) r"
  "rd_hgetall (instance_key i) (mark_agent st n r) = rd_hgetall (instance_key i) r"
  "rd_hgetall (instance_key i) (write_routes n x y r) = rd_hgetall (instance_key i) r"
  by (simp_all add: forget_agent_def mark_agent_def write_routes_def Let_def rd_hset_def hgetall_hset_multiple hgetall_hdel_other)

lemma record_is_publish: "keeps (record_is i rec) (publish_routing_snapshot specs)"
  unfolding publish_routing_snapshot_def publish_target_def publish_agent_def
  by (intro keeps_bnd keeps_read keeps_for_each keeps_catch keeps_ret keeps_ask keeps_of_res record_is_tell) simp_all

lemma record_is_republish: "keeps (record_is i rec) republish"
  unfolding republish_def remove_unused_redis_clients_def
  by (intro keeps_bnd keeps_ask keeps_if keeps_raise keeps_read record_is_publish keeps_modify) simp

lemma record_is_redis: "keeps (record_is i rec) (machine_redis_for_replica replica)"
  by (rule keeps_machine_redis) simp

lemma instance_key_inj [simp]: "instance_key i = instance_key j \<longleftrightarrow> i = j"
  by (simp add: instance_key_def)

lemma errors_key_not_instance [simp]: "instance_key i \<noteq> LAUNCH_ERRORS_KEY" "LAUNCH_ERRORS_KEY \<noteq> instance_key i"
  by (simp_all add: instance_key_def LAUNCH_ERRORS_KEY_def)

text \<open>\<open>remove_unfinished\<close> on one key: nothing when its record is finished; otherwise the record goes
  exactly when its container could be removed.\<close>

lemma remove_unfinished_one_run:
  assumes "remove_unfinished_one env (instance_key j) w = (res, w')" "\<not> w_down w LOCAL"
  shows "replica_record w' i =
    (if i = j \<and> \<not> has_address (replica_record w j) \<and> (\<exists>u. fst (remove_container env (replica_record w j) w) = Inr u)
     then [] else replica_record w i)" (is "?a = ?b") and "w_down w' = w_down w"
    and "res = Inr ()"
proof -
  obtain rr w1 where rc: "remove_container env (replica_record w j) w = (rr, w1)" by fastforce
  have q: "same_but_commands w w1" by (rule quietD[OF quiet_remove_container rc])
  note qs = sbcD(1,2)[OF q]
  show "?a = ?b" "w_down w' = w_down w" "res = Inr ()"
    using assms rc qs unfolding remove_unfinished_one_def replica_record_def
    by (auto simp: bnd_run ask_run ret_run attempt_run tell_run Let_def hgetall_delete rd_hset_def hgetall_hset_multiple
        has_address_def opt_truthy_def split: if_splits sum.splits)
qed

lemma record_is_remove_unfinished_one:
  assumes "has_address rec"
  shows "keeps (record_is i rec) (remove_unfinished_one env key)"
proof (rule keepsI)
  fix w assume P: "record_is i rec w"
  show "record_is i rec (snd (remove_unfinished_one env key w))"
  proof (cases "key = instance_key i \<or> w_down w LOCAL")
    case True
    then show ?thesis using P assms
      by (auto simp: remove_unfinished_one_def bnd_run ask_run ret_run record_is_def replica_record_def)
  next
    case False
    have t: "keeps (record_is i rec) (tell LOCAL (rd_delete [key]))"
      "keeps (record_is i rec) (tell LOCAL (rd_hset LAUNCH_ERRORS_KEY a b))" for a b
      using False by (auto intro!: record_is_tell simp: hgetall_delete rd_hset_def hgetall_hset_multiple)
    have "keeps (record_is i rec) (remove_unfinished_one env key)"
      unfolding remove_unfinished_one_def Let_def
      by (intro keeps_bnd keeps_ask keeps_if keeps_ret keeps_attempt keeps_case_sum t
          record_is_quiet quiet_remove_container)
    then show ?thesis using P by (rule keepsD)
  qed
qed

section \<open>Properties\<close>

text \<open>C38: a drain lets the replica finish: with \<open>drain=True\<close> a replica's container and record go
  only once its metrics report that it has seen the drain flag and has nothing queued, running or
  bound, or 180 seconds after its drain began; until then no container is touched, its record keeps
  the time the drain first began, and its controller is told when it will be removed.\<close>

theorem drain_waits_for_idle:
  assumes "remove_replica env rid True w = (Inr gone, w')"
    and "rec = replica_record w rid" and "rec \<noteq> []"
  shows "\<exists>since. float_text (drain_start (w_now w) rec) = Some since \<and>
    (gone \<longleftrightarrow> is_idle_report (rd_hgetall (metrics_key (fld rec ''address'')) (w_servers w (machine_host rec))) \<or>
       elapsed_ge (w_now w) since 180) \<and>
    (\<not> gone \<longrightarrow> w_commands w' = w_commands w \<and>
       map_of (replica_record w' rid) = (map_of rec)(''draining_at'' \<mapsto> drain_start (w_now w) rec) \<and>
       rd_get (draining_key (fld rec ''address'')) (w_servers w' (machine_host rec)) = Some (Doc (VFloat (fl_add since 180))))"
proof -
  from assms obtain ready w1 where 1: "drain (instance_key rid) rec w = (Inr ready, w1)"
    and 2: "(if \<not> ready then ret False
        else bnd (delete_controller_status rec) (\<lambda>_.
          bnd (remove_container env rec) (\<lambda>_.
          bnd (delete_replica_record rid rec) (\<lambda>_.
          bnd republish (\<lambda>_. ret True))))) w1 = (Inr gone, w')"
    unfolding remove_replica_def Let_def replica_record_def
    by (elim bnd_InrE) (auto dest!: ask_InrD elim!: bnd_InrE split: if_splits)
  have "gone = ready \<and> (\<not> ready \<longrightarrow> w' = w1)"
  proof (cases ready)
    case True
    with 2 have "bnd (delete_controller_status rec) (\<lambda>_. bnd (remove_container env rec) (\<lambda>_.
          bnd (delete_replica_record rid rec) (\<lambda>_. bnd republish (\<lambda>_. ret True)))) w1 = (Inr gone, w')" by simp
    then show ?thesis using True by (elim bnd_InrE) (simp add: ret_run)
  qed (use 2 in \<open>simp add: ret_run\<close>)
  with drain_run[OF 1] assms(2) show ?thesis
    by (metis DRAIN_TIMEOUT_SECONDS_def replica_record_def)
qed

text \<open>removing unfinished launches never touches a launch that finished: a record with an
  address is the same after, whatever commands and servers fail.\<close>

theorem finished_launches_are_kept:
  assumes "has_address (replica_record w i)"
  shows "replica_record (snd (remove_unfinished env w)) i = replica_record w i"
proof -
  have "keeps (record_is i (replica_record w i)) (remove_unfinished env)"
    unfolding remove_unfinished_def
    by (intro keeps_bnd keeps_ask keeps_for_each record_is_remove_unfinished_one assms)
  then have "record_is i (replica_record w i) (snd (remove_unfinished env w))"
    by (rule keepsD) (simp add: record_is_def)
  then show ?thesis by (simp add: record_is_def)
qed

text \<open>Replica ids are an agent's name, a dash and eight hex digits; names have no colon.\<close>

definition is_replica_id :: "string \<Rightarrow> bool" where
  "is_replica_id i \<longleftrightarrow> CHR '':'' \<notin> set i \<and> CHR ''-'' \<in> set i"

lemma samples_not_instance:
  assumes "is_replica_id j"
  shows "instance_key i \<noteq> replica_samples_key j"
proof
  assume "instance_key i = replica_samples_key j"
  then have "takeWhile (\<lambda>c. c \<noteq> CHR '':'') (instance_key i) = takeWhile (\<lambda>c. c \<noteq> CHR '':'') (replica_samples_key j)"
    by simp
  moreover have "takeWhile (\<lambda>c. c \<noteq> CHR '':'') (replica_samples_key j) = j"
    using assms by (auto simp: replica_samples_key_def is_replica_id_def takeWhile_append)
  moreover have "takeWhile (\<lambda>c. c \<noteq> CHR '':'') (instance_key i) = ''agent_instance''"
    by (simp add: instance_key_def)
  ultimately have "j = ''agent_instance''" by simp
  then show False using assms by (simp add: is_replica_id_def)
qed

definition on_dead :: "string list \<Rightarrow> hash \<Rightarrow> bool" where
  "on_dead launch_ids rec \<longleftrightarrow> (\<exists>l\<in>set launch_ids. map_of rec ''machine'' = Some (Raw l))"

lemma removeprefix_instance [simp]: "removeprefix ''agent_instance:'' (instance_key i) = i"
  by (simp add: removeprefix_def instance_key_def)

lemma forget_replica_run:
  assumes "forget_replica ids (instance_key j) w = (Inr rs, w')"
    and "replica_record w j \<noteq> [] \<longrightarrow> is_replica_id j"
  shows "replica_record w' i = (if i = j \<and> on_dead ids (replica_record w j) then [] else replica_record w i)"
    "rs = (if on_dead ids (replica_record w j) then [j] else [])"
proof -
  have "on_dead ids (replica_record w j) \<Longrightarrow> is_replica_id j"
    using assms(2) by (cases "replica_record w j") (auto simp: on_dead_def)
  then show "replica_record w' i = (if i = j \<and> on_dead ids (replica_record w j) then [] else replica_record w i)"
    "rs = (if on_dead ids (replica_record w j) then [j] else [])"
    using assms(1) samples_not_instance[of j i]
    unfolding forget_replica_def delete_replica_record_def replica_record_def on_dead_def[symmetric] Let_def
    by (auto simp: bnd_run ask_run tell_run of_res_run ret_run hgetall_delete split: if_splits sum.splits)
qed

lemma forget_replicas_all:
  assumes "map_each (map instance_key js) (forget_replica ids) w = (Inr rss, w')"
    and "\<And>j. replica_record w j \<noteq> [] \<Longrightarrow> is_replica_id j"
  shows "replica_record w' i = (if i \<in> set js \<and> on_dead ids (replica_record w i) then [] else replica_record w i) \<and>
    set (concat rss) = {j \<in> set js. on_dead ids (replica_record w j)}"
  using assms
proof (induction js arbitrary: w rss)
  case Nil
  then show ?case by (simp add: ret_run)
next
  case (Cons j js)
  from Cons.prems(1) obtain rs w1 rss' where 1: "forget_replica ids (instance_key j) w = (Inr rs, w1)"
    and 2: "map_each (map instance_key js) (forget_replica ids) w1 = (Inr rss', w')" and r: "rss = rs # rss'"
    by (auto elim!: bnd_InrE simp: ret_run)
  have nj: "replica_record w j \<noteq> [] \<longrightarrow> is_replica_id j" using Cons.prems(2) by blast
  note f = forget_replica_run[OF 1 nj]
  have "is_replica_id a" if "replica_record w1 a \<noteq> []" for a
    using that f(1)[of a] Cons.prems(2) by (auto split: if_splits)
  from Cons.IH[OF 2 this] have
    ih: "replica_record w' i = (if i \<in> set js \<and> on_dead ids (replica_record w1 i) then [] else replica_record w1 i)"
    "set (concat rss') = {k \<in> set js. on_dead ids (replica_record w1 k)}" by auto
  have d: "on_dead ids (replica_record w1 k) \<longleftrightarrow> on_dead ids (replica_record w k) \<and> k \<noteq> j" if "on_dead ids (replica_record w j)" for k
    using f(1)[of k] that by (auto simp: on_dead_def)
  have d': "replica_record w1 k = replica_record w k" if "\<not> on_dead ids (replica_record w j)" for k
    using f(1)[of k] that by auto
  show ?case
  proof (cases "on_dead ids (replica_record w j)")
    case True
    with ih f r d show ?thesis by (auto simp: on_dead_def)
  next
    case False
    with ih f(2) r d' show ?thesis by auto
  qed
qed

lemma scanned_instances: "\<exists>js. rd_scan ''agent_instance:'' r = map instance_key js"
proof
  show "rd_scan ''agent_instance:'' r = map instance_key (map (drop 15) (rd_scan ''agent_instance:'' r))"
    by (rule nth_equalityI)
      (auto simp: instance_key_def set_scan prefix_def dest!: nth_mem)
qed

text \<open>when machines die, exactly the records of the replicas on them are dropped: every other
  record is kept as it was, and the ids returned are the dropped ones.\<close>

theorem dead_machines_forgotten:
  assumes "forget_replicas_on launch_ids w = (Inr removed, w')"
    and "\<And>j. replica_record w j \<noteq> [] \<Longrightarrow> is_replica_id j"
  shows "replica_record w' i = (if on_dead launch_ids (replica_record w i) then [] else replica_record w i) \<and>
    (i \<in> set removed \<longleftrightarrow> on_dead launch_ids (replica_record w i))"
proof -
  obtain js where js: "rd_scan ''agent_instance:'' (w_servers w LOCAL) = map instance_key js"
    using scanned_instances by blast
  from assms(1) js obtain rss w1 where 1: "map_each (map instance_key js) (forget_replica launch_ids) w = (Inr rss, w1)"
    and 2: "republish w1 = (Inr (), w')" and r: "removed = concat rss"
    unfolding forget_replicas_on_def by (elim bnd_InrE) (auto dest!: ask_InrD simp: ret_run)
  have "i \<in> set js" if "on_dead launch_ids (replica_record w i)"
  proof -
    have "rd_hgetall (instance_key i) (w_servers w LOCAL) \<noteq> []"
      using that by (auto simp: on_dead_def replica_record_def)
    from hgetall_some_scanned[OF this, of "''agent_instance:''"] show ?thesis
      unfolding js by (auto simp: instance_key_def)
  qed
  moreover have "replica_record w' i = replica_record w1 i"
    using keepsD[OF record_is_republish, of i "replica_record w1 i" w1] 2 by (simp add: record_is_def)
  ultimately show ?thesis using forget_replicas_all[OF 1 assms(2)] r by auto
qed

lemma record_is_draw: "keeps (record_is i rec) (draw_replica env sp)"
  unfolding draw_replica_def by (intro keeps_bnd keeps_read keeps_modify keeps_of_res keeps_ret) simp

lemma record_is_put: "nr_id new \<noteq> i \<Longrightarrow> keeps (record_is i rec) (put_on_machine machines new)"
  unfolding put_on_machine_def
  by (intro keeps_bnd keeps_of_res keeps_case_prod keeps_case_option keeps_if keeps_ret record_is_tell)
    (simp add: hgetall_hset_multiple)

lemma record_is_place_wanted:
  assumes "rec \<noteq> []"
  shows "keeps (record_is i rec) (place_wanted env sp machines)"
proof (rule keepsI)
  fix w assume P: "record_is i rec w"
  obtain d w1 where d: "draw_replica env sp w = (d, w1)" by fastforce
  have P1: "record_is i rec w1" using keepsD[OF record_is_draw P, of env sp] d by simp
  show "record_is i rec (snd (place_wanted env sp machines w))"
  proof (cases d)
    case (Inl e)
    with d P1 show ?thesis by (simp add: place_wanted_def bnd_Inl)
  next
    case (Inr new)
    show ?thesis
    proof (cases "nr_id new = i")
      case True
      with Inr d P1 assms show ?thesis
        by (simp add: place_wanted_def bnd_Inr[of "draw_replica env sp"] bnd_run[of "ask LOCAL _"] ask_run ret_run
            record_is_def replica_record_def)
    next
      case False
      from keepsD[OF record_is_put[OF False] P1, of machines] Inr d P1 show ?thesis
        by (simp add: place_wanted_def bnd_Inr[of "draw_replica env sp"] bnd_run[of "ask LOCAL _"] ask_run ret_run)
    qed
  qed
qed

text \<open>Placing new replicas never overwrites a live one: whatever ids are drawn, a record that
  exists is the same after every wanted replica was placed.\<close>

theorem placing_never_overwrites:
  assumes "replica_record w i \<noteq> []"
  shows "replica_record (snd (fold_each wanted machines (place_wanted env) w)) i = replica_record w i"
proof -
  have "keeps (record_is i (replica_record w i)) (fold_each wanted machines (place_wanted env))"
    by (intro keeps_fold_each record_is_place_wanted assms)
  then have "record_is i (replica_record w i) (snd (fold_each wanted machines (place_wanted env) w))"
    by (rule keepsD) (simp add: record_is_def)
  then show ?thesis by (simp add: record_is_def)
qed

section \<open>Witnesses\<close>

definition live_record :: hash where
  "live_record = [(''agent_name'', Raw ''a''), (''replica_id'', Raw ''a-1''), (''private_host'', Raw ''localhost''),
     (''address'', Raw ''a-1:50051''), (''container_name'', Raw ''c''), (''machine'', Raw ''m1'')]"

definition live_world :: world where
  "live_world = launch_world\<lparr>w_servers := (\<lambda>_. empty_redis\<lparr>rd_hashes :=
     [(instance_key ''a-1'', live_record), (instance_key ''b-2'', [(''machine'', Raw ''m2'')])]\<rparr>)\<rparr>"

lemma live_records [simp]:
  "replica_record live_world ''a-1'' = live_record" "replica_record live_world ''b-2'' = [(''machine'', Raw ''m2'')]"
  "replica_record live_world j \<noteq> [] \<Longrightarrow> j = ''a-1'' \<or> j = ''b-2''"
  by (auto simp: replica_record_def live_world_def rd_hgetall_def split: if_splits)

theorem drain_waits_for_idle_witness:
  "\<exists>w'. remove_replica demo_env ''a-1'' True live_world = (Inr False, w') \<and> w_commands w' = w_commands live_world"
proof -
  have d: "\<exists>w'. drain (instance_key ''a-1'') live_record live_world = (Inr False, w')"
    by (simp add: drain_def mark_draining_def live_record_def bnd_run read_run tell_run of_res_run ret_run need_def
        machine_redis_for_replica_def fld_def is_idle_def ask_run is_idle_report_def live_world_def Let_def
        rd_hgetall_def rd_set_def rd_set_opts_def rd_hset_def rd_hset_multiple_def empty_redis_def metrics_key_def
        instance_key_def elapsed_ge_def DRAIN_TIMEOUT_SECONDS_def launch_world_def)
  have "\<exists>w'. remove_replica demo_env ''a-1'' True live_world = (Inr False, w')"
    using d by (auto simp: remove_replica_def Let_def bnd_run ask_run ret_run live_record_def
        live_records(1)[unfolded replica_record_def]) (simp add: live_world_def)
  then obtain w' where r: "remove_replica demo_env ''a-1'' True live_world = (Inr False, w')" by blast
  from drain_waits_for_idle[OF r refl] r show ?thesis by (auto simp: live_record_def)
qed

theorem finished_launches_are_kept_witness:
  "replica_record (snd (remove_unfinished demo_env live_world)) ''a-1'' = live_record"
  using finished_launches_are_kept[of live_world "''a-1''" demo_env]
  by (simp add: has_address_def live_record_def opt_truthy_def text_truthy_def)

theorem placing_never_overwrites_witness:
  "replica_record (snd (fold_each [launch_spec] [] (place_wanted demo_env) live_world)) ''a-1'' = live_record"
  using placing_never_overwrites[of live_world "''a-1''" "[launch_spec]" "[]" demo_env]
  by (simp add: live_record_def del: fold_each.simps)

lemma publish_returns: "fst (publish_routing_snapshot specs w) = Inr ()"
proof -
  have "never_raises (publish_routing_snapshot specs)"
    unfolding publish_routing_snapshot_def by (intro calm_intros)
  from never_raisesD[OF this, of w] show ?thesis by auto
qed

theorem dead_machines_forgotten_witness:
  "\<exists>w'. forget_replicas_on [''m1''] live_world = (Inr [''a-1''], w') \<and> replica_record w' ''a-1'' = [] \<and>
     replica_record w' ''b-2'' = [(''machine'', Raw ''m2'')]"
proof -
  have "\<exists>w1. map_each [instance_key ''a-1'', instance_key ''b-2''] (forget_replica [''m1'']) live_world = (Inr [[''a-1''], []], w1) \<and>
      fst (republish w1) = Inr ()"
    by (simp add: forget_replica_def bnd_run ask_run live_world_def rd_hgetall_def live_record_def delete_replica_record_def
        tell_run of_res_run need_def ret_run Let_def rd_delete1_def rd_srem_def empty_redis_def replica_samples_key_def fld_def
        instances_key_def republish_def list_replicas_def rd_scan_def has_address_def opt_truthy_def
        remove_unused_redis_clients_def modify_run read_run publish_returns launch_world_def delete_conv')
  then obtain w1 w' where 1: "map_each [instance_key ''a-1'', instance_key ''b-2''] (forget_replica [''m1'']) live_world = (Inr [[''a-1''], []], w1)"
    and 2: "republish w1 = (Inr (), w')" by (metis prod.collapse)
  have "rd_scan ''agent_instance:'' (w_servers live_world LOCAL) = [instance_key ''a-1'', instance_key ''b-2'']"
    by (simp add: live_world_def rd_scan_def empty_redis_def instance_key_def)
  then have f: "forget_replicas_on [''m1''] live_world = (Inr [''a-1''], w')"
    using 1 2 by (simp add: forget_replicas_on_def bnd_run ask_run ret_run) (simp add: live_world_def)
  have "is_replica_id j" if "replica_record live_world j \<noteq> []" for j
    using live_records(3)[OF that] by (auto simp: is_replica_id_def)
  from dead_machines_forgotten[OF f this, of "''a-1''"] dead_machines_forgotten[OF f this, of "''b-2''"] f
  show ?thesis by (auto simp: on_dead_def live_record_def)
qed

end
