(* ===== verification/Machine_Provisioner.thy ===== *)
theory Machine_Provisioner
  imports Replica_Provisioner
begin

text \<open>
  The pool of machines (\<open>reconciler/machine_provisioner.py\<close>) and the local provider
  (\<open>providers/Local/_provider.py\<close>). A machine is its record, \<open>machine_record:<launch id>\<close> on the
  primary Redis. A start runs in a thread of its own: \<open>start_missing\<close> records the machine, adds it
  to \<open>w_starting\<close> and to the starts not yet run, \<open>w_starts\<close>; \<open>start_machine\<close> is the thread's body,
  run as one step at any later time. The EC2 provider's calls to AWS are fields of \<open>env\<close>.
\<close>

definition START_WAIT_SECONDS :: rat where "START_WAIT_SECONDS = 180"

definition machine_key :: "string \<Rightarrow> string" where
  "machine_key launch_id = ''machine_record:'' @ launch_id"

type_synonym machine_spec = "(string \<times> string) list"

section \<open>Providers\<close>

text \<open>The local provider, and the dispatch of \<open>providers.get(name)\<close>.\<close>

definition local_machine :: hash where
  "local_machine = [(''private_host'', Raw ''localhost''), (''public_host'', Raw ''localhost'')]"

definition by_provider :: "string \<Rightarrow> (exn + 'a) \<Rightarrow> (string \<Rightarrow> exn + 'a) \<Rightarrow> exn + 'a" where
  "by_provider name local_result other =
     (case resolve_name name of Inl e \<Rightarrow> Inl e | Inr p \<Rightarrow> if p = ''local'' then local_result else other p)"

definition provider_capacity :: "env \<Rightarrow> string \<Rightarrow> machine_spec \<Rightarrow> exn + (int \<times> int) option" where
  "provider_capacity env name sp = by_provider name (Inr None) (\<lambda>p. e_machine_capacity env p sp)"

definition provider_hourly_cost :: "env \<Rightarrow> string \<Rightarrow> machine_spec \<Rightarrow> exn + rat" where
  "provider_hourly_cost env name sp = by_provider name (Inr 0) (\<lambda>p. e_hourly_cost env p sp)"

definition provider_start :: "env \<Rightarrow> string \<Rightarrow> machine_spec \<Rightarrow> string \<Rightarrow> exn + hash" where
  "provider_start env name sp launch_id = by_provider name (Inr local_machine) (\<lambda>p. e_start_machine env p sp launch_id)"

definition provider_wait :: "env \<Rightarrow> string \<Rightarrow> hash \<Rightarrow> exn + hash" where
  "provider_wait env name machine = by_provider name (Inr []) (\<lambda>p. e_wait_machine env p machine)"

definition provider_alive :: "env \<Rightarrow> string \<Rightarrow> hash \<Rightarrow> exn + bool" where
  "provider_alive env name machine = by_provider name (Inr True) (\<lambda>p. e_machine_alive env p machine)"

definition provider_terminate :: "env \<Rightarrow> string \<Rightarrow> hash \<Rightarrow> exn + unit" where
  "provider_terminate env name machine = by_provider name (Inr ()) (\<lambda>p. e_terminate_machine env p machine)"

definition type_key :: "provider_schema \<Rightarrow> string option" where
  "type_key sc = (case ps_machine_types sc of Some k \<Rightarrow> Some k | None \<Rightarrow> ps_machine_per_replica sc)"

definition machine_type_of :: "string \<Rightarrow> hash \<Rightarrow> exn + rtext" where
  "machine_type_of name machine = (case schema name of
       Inl e \<Rightarrow> Inl e
     | Inr sc \<Rightarrow> Inr (case type_key sc of
           None \<Rightarrow> Raw name
         | Some k \<Rightarrow> (case map_of machine k of Some t \<Rightarrow> t | None \<Rightarrow> Raw name)))"

section \<open>What the config declares\<close>

record declared_kind =
  d_provider :: string
  d_spec :: machine_spec
  d_count :: int
  d_started :: "hash list"

definition section_of :: "dict \<Rightarrow> provider_schema \<Rightarrow> dict" where
  "section_of config sc = (case ps_section sc of
       None \<Rightarrow> []
     | Some s \<Rightarrow> (case dget config s of VDict d \<Rightarrow> d | _ \<Rightarrow> []))"

definition shared_keys :: "dict \<Rightarrow> provider_schema \<Rightarrow> machine_spec" where
  "shared_keys sec sc = map (\<lambda>k. (k, str_of (dget sec k))) (filter (dhas sec) (ps_machine_keys sc))"

fun per_replica_kinds :: "env \<Rightarrow> string \<Rightarrow> machine_spec \<Rightarrow> dict \<Rightarrow> spec list \<Rightarrow> exn + (machine_spec \<times> int) list" where
  "per_replica_kinds env k shared by_agent [] = Inr []"
| "per_replica_kinds env k shared by_agent (sp # sps) =
     (case map_of by_agent (spec_name sp) of
        None \<Rightarrow> Inl (KeyError (spec_name sp))
      | Some t \<Rightarrow> (case py_int (dget_or sp ''replicas'' (VInt 1)) of
          Inl e \<Rightarrow> Inl e
        | Inr n \<Rightarrow> map_sum id (\<lambda>ks. (shared @ [(k, py_str env t), (''agent_name'', spec_name sp)], n) # ks)
            (per_replica_kinds env k shared by_agent sps)))"

fun pool_kinds :: "string \<Rightarrow> machine_spec \<Rightarrow> dict \<Rightarrow> exn + (machine_spec \<times> int) list" where
  "pool_kinds k shared [] = Inr []"
| "pool_kinds k shared ((t, VInt n) # ts) = map_sum id (\<lambda>ks. (shared @ [(k, t)], n) # ks) (pool_kinds k shared ts)"
| "pool_kinds k shared (_ # ts) = Inl (TypeError ''machine count'')"

definition kinds_of :: "env \<Rightarrow> dict \<Rightarrow> spec list \<Rightarrow> string \<Rightarrow> exn + (machine_spec \<times> int) list" where
  "kinds_of env config specs p =
     (if p \<notin> set NAMES then Inl (KeyError p)
      else let sc = provider_schema_of p; sec = section_of config sc; shared = shared_keys sec sc in
        case (ps_machine_per_replica sc, ps_machine_types sc) of
          (Some k, _) \<Rightarrow> (case map_of sec k of
              None \<Rightarrow> Inl (KeyError k)
            | Some (VDict by_agent) \<Rightarrow> per_replica_kinds env k shared by_agent (filter (\<lambda>sp. spec_provider sp = p) specs)
            | Some _ \<Rightarrow> Inl (TypeError k))
        | (None, Some k) \<Rightarrow> (case map_of sec k of
              None \<Rightarrow> Inl (KeyError k)
            | Some (VDict types) \<Rightarrow> pool_kinds k shared types
            | Some _ \<Rightarrow> Inl (AttributeError ''items''))
        | (None, None) \<Rightarrow> Inr [(shared, 1)])"

definition of_kind :: "string \<Rightarrow> machine_spec \<Rightarrow> hash \<Rightarrow> bool" where
  "of_kind p sp rec \<longleftrightarrow> map_of rec ''provider'' = Some (Raw p) \<and> list_all (\<lambda>(k, v). map_of rec k = Some (Raw v)) sp"

text \<open>\<open>_declared\<close>: a generator, so an error is raised where its provider is reached.\<close>

definition declared_of :: "env \<Rightarrow> dict \<Rightarrow> spec list \<Rightarrow> hash list \<Rightarrow> (exn + declared_kind) list" where
  "declared_of env config specs records =
     concat (map (\<lambda>p. case kinds_of env config specs p of
         Inl e \<Rightarrow> [Inl e]
       | Inr kinds \<Rightarrow> map (\<lambda>(sp, n). Inr \<lparr>d_provider = p, d_spec = sp, d_count = n,
            d_started = filter (of_kind p sp) records\<rparr>) kinds)
       (rev (remdups (rev (map spec_provider specs)))))"

definition machine_records :: "redis \<Rightarrow> hash list" where
  "machine_records r = map (\<lambda>k. rd_hgetall k r) (rd_scan ''machine_record:'' r)"

definition declared :: "env \<Rightarrow> spec list \<Rightarrow> (exn + declared_kind) list step" where
  "declared env specs =
     bnd (ask LOCAL machine_records) (\<lambda>records.
     bnd (read_st w_config) (\<lambda>config. ret (declared_of env config specs records)))"

section \<open>Starting machines\<close>

record new_machine =
  nm_provider :: string
  nm_spec :: machine_spec
  nm_fields :: hash
  nm_type :: rtext

definition raw_spec :: "machine_spec \<Rightarrow> hash" where
  "raw_spec sp = map (\<lambda>(k, v). (k, Raw v)) sp"

text \<open>The machines of one kind that have no record yet, sized and priced.\<close>

definition missing_of :: "env \<Rightarrow> exn + declared_kind \<Rightarrow> exn + new_machine list" where
  "missing_of env d = (case d of
       Inl e \<Rightarrow> Inl e
     | Inr d \<Rightarrow>
         if d_count d \<le> int (length (d_started d)) then Inr []
         else (case provider_capacity env (d_provider d) (d_spec d) of
             Inl e \<Rightarrow> Inl e
           | Inr capacity \<Rightarrow> (case provider_hourly_cost env (d_provider d) (d_spec d) of
               Inl e \<Rightarrow> Inl e
             | Inr cost \<Rightarrow> (case machine_type_of (d_provider d) (raw_spec (d_spec d)) of
                 Inl e \<Rightarrow> Inl e
               | Inr t \<Rightarrow> Inr (replicate (nat (d_count d - int (length (d_started d))))
                   \<lparr>nm_provider = d_provider d, nm_spec = d_spec d,
                    nm_fields = hash_put (raw_spec (d_spec d) @ (case capacity of None \<Rightarrow> []
                        | Some (cpu, memory) \<Rightarrow> [(''cpu'', Doc (VInt cpu)), (''memory'', Doc (VInt memory))]))
                      [(''provider'', Raw (d_provider d)), (''hourly_cost'', Doc (VFloat (Fin cost)))],
                    nm_type = t\<rparr>)))))"

fun all_missing :: "env \<Rightarrow> (exn + declared_kind) list \<Rightarrow> exn + new_machine list" where
  "all_missing env [] = Inr []"
| "all_missing env (d # ds) = (case missing_of env d of
     Inl e \<Rightarrow> Inl e
   | Inr ms \<Rightarrow> map_sum id (\<lambda>rest. ms @ rest) (all_missing env ds))"

definition type_text :: "rtext \<Rightarrow> string" where
  "type_text t = (case t of Raw s \<Rightarrow> s | Doc _ \<Rightarrow> [])"

definition begin_start :: "env \<Rightarrow> new_machine \<Rightarrow> unit step" where
  "begin_start env nm =
     bnd (read_st w_drawn) (\<lambda>n.
     bnd (modify_st (\<lambda>w. w\<lparr>w_drawn := Suc n\<rparr>)) (\<lambda>_.
     let launch_id = e_uuid env n in
     bnd (read_st w_now) (\<lambda>now.
     bnd (tell LOCAL (rd_hset_multiple (machine_key launch_id)
            (nm_fields nm @ [(''launch_id'', Raw launch_id), (''launched_at'', Doc (VFloat (Fin now)))]))) (\<lambda>_.
     modify_st (\<lambda>w. w\<lparr>w_starting := insert launch_id (w_starting w),
       w_starts := w_starts w @ [(launch_id, nm_provider nm, nm_spec nm, type_text (nm_type nm))]\<rparr>)))))"

definition start_missing :: "env \<Rightarrow> spec list \<Rightarrow> unit step" where
  "start_missing env specs =
     bnd (declared env specs) (\<lambda>ds.
     bnd (of_res (all_missing env ds)) (\<lambda>missing.
     for_each missing (begin_start env)))"

definition wants_gpu :: "spec list \<Rightarrow> string option \<Rightarrow> bool" where
  "wants_gpu specs agent_name \<longleftrightarrow>
     (\<exists>sp\<in>set specs. dget sp ''name'' = (case agent_name of None \<Rightarrow> VNone | Some n \<Rightarrow> VStr n) \<and>
        truthy (dget (spec_resource_dict sp) ''gpu''))"

definition start_machine_collector :: "env \<Rightarrow> machine_spec \<Rightarrow> hash \<Rightarrow> unit step" where
  "start_machine_collector env sp machine =
     bnd (of_res (need machine ''private_host'')) (\<lambda>_.
     let host = fld machine ''private_host'' in
     if is_local_host host \<or> e_collector_image env = [] then ret ()
     else bnd (read_st (\<lambda>w. wants_gpu (w_specs w) (map_of sp ''agent_name''))) (\<lambda>gpu.
       bnd (read_st (\<lambda>w. redis_port_of w host)) (\<lambda>port.
       bnd (start_metrics_collector env host (fld machine ''user'') (e_collector_image env) port gpu) (\<lambda>_. ret ()))))"

definition save_machine :: "string \<Rightarrow> hash \<Rightarrow> unit step" where
  "save_machine launch_id machine =
     tell LOCAL (rd_hset_multiple (machine_key launch_id) (filter (\<lambda>(_, v). text_truthy v) machine))"

text \<open>Whether every machine record of a type has a host.\<close>

fun all_up :: "string \<Rightarrow> hash list \<Rightarrow> exn + bool" where
  "all_up t [] = Inr True"
| "all_up t (rec # recs) = (case need rec ''provider'' of
     Inl e \<Rightarrow> Inl e
   | Inr _ \<Rightarrow> (case machine_type_of (fld rec ''provider'') rec of
       Inl e \<Rightarrow> Inl e
     | Inr rt \<Rightarrow> if rt = Raw t \<and> \<not> opt_truthy (map_of rec ''private_host'') then Inr False else all_up t recs))"

definition start_body :: "env \<Rightarrow> string \<Rightarrow> string \<Rightarrow> machine_spec \<Rightarrow> string \<Rightarrow> unit step" where
  "start_body env launch_id provider_name sp machine_type =
     bnd (of_res (provider_start env provider_name sp launch_id)) (\<lambda>machine.
     bnd (save_machine launch_id machine) (\<lambda>_.
     bnd (of_res (provider_wait env provider_name machine)) (\<lambda>more_fields.
     let machine = hash_put more_fields machine in
     bnd (of_res (need machine ''private_host'')) (\<lambda>_.
     bnd (start_redis env (fld machine ''private_host'') (fld machine ''user'')) (\<lambda>_.
     bnd (start_machine_collector env sp machine) (\<lambda>_.
     bnd (save_machine launch_id machine) (\<lambda>_.
     bnd (ask LOCAL machine_records) (\<lambda>records.
     bnd (of_res (all_up machine_type records)) (\<lambda>up.
     if up then tell LOCAL (rd_hdel MACHINE_ERRORS_KEY machine_type) else ret ())))))))))"

definition discard_start :: "string \<Rightarrow> unit step" where
  "discard_start launch_id = modify_st (\<lambda>w. w\<lparr>w_starting := w_starting w - {launch_id}\<rparr>)"

definition start_machine :: "env \<Rightarrow> string \<Rightarrow> string \<Rightarrow> machine_spec \<Rightarrow> string \<Rightarrow> unit step" where
  "start_machine env launch_id provider_name sp machine_type =
     finally_do
       (catch (start_body env launch_id provider_name sp machine_type)
         (\<lambda>e. tell LOCAL (rd_hset MACHINE_ERRORS_KEY machine_type (Raw (exn_str e)))))
       (discard_start launch_id)"

section \<open>The machines replicas can be placed on\<close>

definition start_failed :: "string set \<Rightarrow> rat \<Rightarrow> hash \<Rightarrow> exn + bool" where
  "start_failed starting now rec = (case need rec ''launch_id'' of
       Inl e \<Rightarrow> Inl e
     | Inr _ \<Rightarrow> if fld rec ''launch_id'' \<notin> starting then Inr True
         else (case need_float rec ''launched_at'' of
             Inl e \<Rightarrow> Inl e
           | Inr t \<Rightarrow> Inr (case t of Fin a \<Rightarrow> now - a > START_WAIT_SECONDS | NInf \<Rightarrow> True | _ \<Rightarrow> False)))"

text \<open>A placeable machine from its record; its numbers are finite, as they were written.\<close>

definition to_machine :: "hash \<Rightarrow> exn + machine" where
  "to_machine rec = (case (need rec ''launch_id'', need rec ''provider'', need_float rec ''hourly_cost'') of
       (Inl e, _, _) \<Rightarrow> Inl e | (_, Inl e, _) \<Rightarrow> Inl e | (_, _, Inl e) \<Rightarrow> Inl e
     | (Inr _, Inr _, Inr (Fin cost)) \<Rightarrow>
         (case (if map_of rec ''cpu'' = None then Inr None
                else case (need_float rec ''cpu'', need rec ''memory'') of
                    (Inl e, _) \<Rightarrow> Inl e | (_, Inl e) \<Rightarrow> Inl e
                  | (Inr (Fin cpu), Inr t) \<Rightarrow> (case int_text t of None \<Rightarrow> Inl (ValueError ''memory'') | Some m \<Rightarrow> Inr (Some (cpu, m)))
                  | _ \<Rightarrow> Inl (ValueError ''cpu'')) of
            Inl e \<Rightarrow> Inl e
          | Inr capacity \<Rightarrow> Inr \<lparr>m_launch_id = fld rec ''launch_id'', m_provider = fld rec ''provider'', m_record = rec,
              m_hourly_cost = cost, m_capacity = capacity, m_up = opt_truthy (map_of rec ''private_host''),
              m_used_cpu = 0, m_used_memory = 0, m_used_replicas = 0, m_replicas = []\<rparr>)
     | _ \<Rightarrow> Inl (ValueError ''hourly_cost''))"

fun placeable :: "string set \<Rightarrow> rat \<Rightarrow> hash list \<Rightarrow> exn + machine list" where
  "placeable starting now [] = Inr []"
| "placeable starting now (rec # recs) =
     (case (if opt_truthy (map_of rec ''private_host'') then Inr False else start_failed starting now rec) of
        Inl e \<Rightarrow> Inl e
      | Inr True \<Rightarrow> placeable starting now recs
      | Inr False \<Rightarrow> (case to_machine rec of
          Inl e \<Rightarrow> Inl e
        | Inr m \<Rightarrow> map_sum id (\<lambda>ms. m # ms) (placeable starting now recs)))"

definition machines_for_replicas :: "machine list step" where
  "machines_for_replicas =
     bnd (read_st w_starting) (\<lambda>starting.
     bnd (read_st w_now) (\<lambda>now.
     bnd (ask LOCAL machine_records) (\<lambda>records. of_res (placeable starting now records))))"

section \<open>Surplus, dead and terminated machines\<close>

definition occupied_machines :: "redis \<Rightarrow> rtext option list" where
  "occupied_machines r = map (\<lambda>k. rd_hget k ''machine'' r) (rd_scan ''agent_instance:'' r)"

definition is_up :: "hash \<Rightarrow> bool" where
  "is_up rec \<longleftrightarrow> opt_truthy (map_of rec ''private_host'')"

fun launch_times :: "hash list \<Rightarrow> exn + (pyfloat \<times> hash) list" where
  "launch_times [] = Inr []"
| "launch_times (rec # recs) = (case need rec ''launch_id'' of
     Inl e \<Rightarrow> Inl e
   | Inr _ \<Rightarrow> (case need_float rec ''launched_at'' of
       Inl e \<Rightarrow> Inl e | Inr t \<Rightarrow> map_sum id (\<lambda>xs. (t, rec) # xs) (launch_times recs)))"

text \<open>The order machines are kept in: up ones first, then those with replicas, then the oldest.\<close>

definition keep_order :: "rtext option list \<Rightarrow> (pyfloat \<times> hash) list \<Rightarrow> hash list" where
  "keep_order occupied xs =
     map snd (sort_key (\<lambda>(t, rec). (\<not> is_up rec, map_of rec ''launch_id'' \<notin> set occupied, fl_key t)) xs)"

text \<open>The launch ids kept, or \<open>None\<close> while a machine to keep is not up. A negative count slices
  from the end, as \<open>started[:count]\<close> does.\<close>

definition take_count :: "int \<Rightarrow> 'a list \<Rightarrow> 'a list" where
  "take_count n xs = (if 0 \<le> n then take (nat n) xs else take (length xs - nat (- n)) xs)"

fun kept_machines :: "rtext option list \<Rightarrow> (exn + declared_kind) list \<Rightarrow> exn + string list option" where
  "kept_machines occupied [] = Inr (Some [])"
| "kept_machines occupied (Inl e # ds) = Inl e"
| "kept_machines occupied (Inr d # ds) =
     (case launch_times (d_started d) of
        Inl e \<Rightarrow> Inl e
      | Inr xs \<Rightarrow> let kept = take_count (d_count d) (keep_order occupied xs) in
          if \<not> list_all is_up kept then Inr None
          else map_sum id (map_option (\<lambda>ids. map (\<lambda>rec. fld rec ''launch_id'') kept @ ids)) (kept_machines occupied ds))"

definition find_surplus :: "env \<Rightarrow> spec list \<Rightarrow> string list step" where
  "find_surplus env specs =
     bnd (ask LOCAL occupied_machines) (\<lambda>occupied.
     bnd (declared env specs) (\<lambda>ds.
     bnd (of_res (kept_machines occupied ds)) (\<lambda>kept.
     case kept of
       None \<Rightarrow> ret []
     | Some ids \<Rightarrow> bnd (ask LOCAL (rd_scan ''machine_record:'')) (\<lambda>keys.
         ret (filter (\<lambda>i. i \<notin> set ids) (map (removeprefix ''machine_record:'') keys))))))"

text \<open>The checks of \<open>find_dead\<close>: the machines that never came up, and the running ones to ask about.\<close>

fun split_dead :: "string set \<Rightarrow> hash list \<Rightarrow> exn + (string list \<times> hash list)" where
  "split_dead starting [] = Inr ([], [])"
| "split_dead starting (rec # recs) = (case need rec ''launch_id'' of
     Inl e \<Rightarrow> Inl e
   | Inr _ \<Rightarrow>
       if fld rec ''launch_id'' \<in> starting then split_dead starting recs
       else if \<not> is_up rec then map_sum id (\<lambda>(dead, checks). (fld rec ''launch_id'' # dead, checks)) (split_dead starting recs)
       else (case need rec ''provider'' of
           Inl e \<Rightarrow> Inl e
         | Inr _ \<Rightarrow> (case resolve_name (fld rec ''provider'') of
             Inl e \<Rightarrow> Inl e
           | Inr _ \<Rightarrow> map_sum id (\<lambda>(dead, checks). (dead, rec # checks)) (split_dead starting recs))))"

definition alive_job :: "env \<Rightarrow> hash \<Rightarrow> string \<times> bool step" where
  "alive_job env rec = (fld rec ''launch_id'', of_res (provider_alive env (fld rec ''provider'') rec))"

definition find_dead :: "env \<Rightarrow> string list step" where
  "find_dead env =
     bnd (read_st w_starting) (\<lambda>starting.
     bnd (ask LOCAL machine_records) (\<lambda>records.
     bnd (of_res (split_dead starting records)) (\<lambda>(dead, checks).
     bnd (run_in_parallel env (map (alive_job env) checks)) (\<lambda>answers.
     ret (dead @ map fst (filter (\<lambda>(_, res). res = Inr False) answers))))))"

text \<open>\<open>keep\<close> holds what \<open>hget\<close> returned, so a missing launch id matches a missing machine.\<close>

definition spared :: "string set \<Rightarrow> string list option \<Rightarrow> rtext option list \<Rightarrow> hash \<Rightarrow> bool" where
  "spared starting launch_ids keep rec \<longleftrightarrow>
     map_of rec ''launch_id'' \<in> set keep \<or>
     (\<exists>i\<in>starting. map_of rec ''launch_id'' = Some (Raw i)) \<or>
     (case launch_ids of None \<Rightarrow> False | Some ids \<Rightarrow> \<forall>i\<in>set ids. map_of rec ''launch_id'' \<noteq> Some (Raw i))"

fun terminate_jobs :: "env \<Rightarrow> string set \<Rightarrow> string list option \<Rightarrow> rtext option list \<Rightarrow> (string \<times> hash) list \<Rightarrow> exn + (string \<times> unit step) list" where
  "terminate_jobs env starting ids keep [] = Inr []"
| "terminate_jobs env starting ids keep ((key, rec) # recs) =
     (if spared starting ids keep rec then terminate_jobs env starting ids keep recs
      else case need rec ''provider'' of
          Inl e \<Rightarrow> Inl e
        | Inr _ \<Rightarrow> (case resolve_name (fld rec ''provider'') of
            Inl e \<Rightarrow> Inl e
          | Inr _ \<Rightarrow> map_sum id (\<lambda>jobs. (key, of_res (provider_terminate env (fld rec ''provider'') rec)) # jobs)
              (terminate_jobs env starting ids keep recs)))"

definition keyed_machines :: "redis \<Rightarrow> (string \<times> hash) list" where
  "keyed_machines r = map (\<lambda>k. (k, rd_hgetall k r)) (rd_scan ''machine_record:'' r)"

definition terminate :: "env \<Rightarrow> string list option \<Rightarrow> rtext option list \<Rightarrow> unit step" where
  "terminate env launch_ids keep =
     bnd (read_st w_starting) (\<lambda>starting.
     bnd (ask LOCAL keyed_machines) (\<lambda>records.
     bnd (of_res (terminate_jobs env starting launch_ids keep records)) (\<lambda>jobs.
     bnd (run_in_parallel env jobs) (\<lambda>outcomes.
     for_each outcomes (\<lambda>(key, res). case res of Inl _ \<Rightarrow> ret () | Inr _ \<Rightarrow> tell LOCAL (rd_delete [key]))))))"

section \<open>Machine records\<close>

definition machine_record :: "world \<Rightarrow> string \<Rightarrow> hash" where
  "machine_record w i = rd_hgetall (machine_key i) (w_servers w LOCAL)"

lemma machine_key_inj [simp]: "machine_key i = machine_key j \<longleftrightarrow> i = j"
  by (simp add: machine_key_def)

lemma removeprefix_machine [simp]: "removeprefix ''machine_record:'' (machine_key i) = i"
  by (simp add: removeprefix_def machine_key_def)

lemma scanned_machines: "\<exists>js. rd_scan ''machine_record:'' r = map machine_key js"
proof
  show "rd_scan ''machine_record:'' r = map machine_key (map (drop 15) (rd_scan ''machine_record:'' r))"
    by (rule nth_equalityI) (auto simp: machine_key_def set_scan prefix_def dest!: nth_mem)
qed

lemma machine_scanned: "machine_record w i \<noteq> [] \<Longrightarrow> machine_key i \<in> set (rd_scan ''machine_record:'' (w_servers w LOCAL))"
  unfolding machine_record_def by (rule hgetall_some_scanned) (simp_all add: machine_key_def)

text \<open>Jobs that only ask a provider leave the world as it is; their answers are the provider's.\<close>

lemma pure_jobs:
  assumes "\<forall>j\<in>set jobs. \<exists>r. snd j = of_res r"
  shows "run_in_parallel env jobs w = (Inr (map (\<lambda>(k, job). (k, fst (job w))) (scheduled env jobs)), w)"
proof -
  have "map_each js (\<lambda>(k, job). bnd (attempt job) (\<lambda>res. ret (k, res))) w
      = (Inr (map (\<lambda>(k, job). (k, fst (job w))) js), w)" if "set js \<subseteq> set jobs" for js
    using that
  proof (induction js)
    case (Cons j js)
    obtain k r where "j = (k, of_res r)" using assms Cons.prems by (cases j) force
    with Cons show ?case by (simp add: bnd_run attempt_run of_res_run ret_run)
  qed (simp add: ret_run)
  then show ?thesis unfolding run_in_parallel_def by simp
qed

section \<open>Termination\<close>

lemma terminate_jobs_set:
  "terminate_jobs env st ids keep recs = Inr jobs \<Longrightarrow>
   set jobs = {(key, of_res (provider_terminate env (fld rec ''provider'') rec)) | key rec. (key, rec) \<in> set recs \<and> \<not> spared st ids keep rec}"
proof (induction env st ids keep recs arbitrary: jobs rule: terminate_jobs.induct)
  case (2 env st ids keep key rec recs)
  show ?case
  proof (cases "spared st ids keep rec")
    case True
    with 2 show ?thesis by auto
  next
    case False
    then obtain x y js where "need rec ''provider'' = Inr x" "resolve_name (fld rec ''provider'') = Inr y"
      "terminate_jobs env st ids keep recs = Inr js" "jobs = (key, of_res (provider_terminate env (fld rec ''provider'') rec)) # js"
      using 2(3) by (auto split: sum.splits) (cases "terminate_jobs env st ids keep recs"; auto)
    with 2(2)[OF False] False show ?thesis by auto
  qed
qed simp

lemma delete_done:
  "for_each outs (\<lambda>(key, res). case res of Inl _ \<Rightarrow> ret () | Inr _ \<Rightarrow> tell LOCAL (rd_delete [key])) w = (Inr (), w') \<Longrightarrow>
   rd_hgetall k (w_servers w' LOCAL) =
     (if \<exists>u. (k, Inr u) \<in> set outs then [] else rd_hgetall k (w_servers w LOCAL))"
proof (induction outs arbitrary: w)
  case (Cons out outs)
  obtain key res where o: "out = (key, res)" by (cases out)
  with Cons.prems obtain w1 where 1: "(case res of Inl _ \<Rightarrow> ret () | Inr _ \<Rightarrow> tell LOCAL (rd_delete [key])) w = (Inr (), w1)"
    and 2: "for_each outs (\<lambda>(key, res). case res of Inl _ \<Rightarrow> ret () | Inr _ \<Rightarrow> tell LOCAL (rd_delete [key])) w1 = (Inr (), w')"
    by (auto elim!: bnd_InrE)
  from 1 have "rd_hgetall k (w_servers w1 LOCAL) = (if k = key \<and> (\<exists>u. res = Inr u) then [] else rd_hgetall k (w_servers w LOCAL))"
    by (cases res) (auto simp: ret_run hgetall_delete dest!: tell_InrD)
  with Cons.IH[OF 2] o show ?case by auto
qed (simp add: ret_run)

section \<open>Properties\<close>

text \<open>Terminating machines deletes exactly the records it may: a record goes when its machine is
  one of those to terminate, is not kept (something still runs on it), is not still starting, and its
  provider confirmed the termination; every other machine record is kept for the next call.\<close>

theorem terminate_deletes_exactly:
  assumes "terminate env launch_ids keep w = (Inr (), w')" and "machine_record w i \<noteq> []"
  shows "machine_record w' i =
    (if \<not> spared (w_starting w) launch_ids keep (machine_record w i) \<and>
        provider_terminate env (fld (machine_record w i) ''provider'') (machine_record w i) = Inr ()
     then [] else machine_record w i)"
proof -
  let ?recs = "keyed_machines (w_servers w LOCAL)"
  from assms(1) obtain jobs outs w1 where
    j: "terminate_jobs env (w_starting w) launch_ids keep ?recs = Inr jobs"
    and p: "run_in_parallel env jobs w = (Inr outs, w1)"
    and d: "for_each outs (\<lambda>(key, res). case res of Inl _ \<Rightarrow> ret () | Inr _ \<Rightarrow> tell LOCAL (rd_delete [key])) w1 = (Inr (), w')"
    unfolding terminate_def by (elim bnd_InrE) (auto dest!: ask_InrD simp: read_run of_res_run)
  note js = terminate_jobs_set[OF j]
  have pure: "\<forall>j\<in>set jobs. \<exists>r. snd j = of_res r" using js by auto
  have o: "outs = map (\<lambda>(k, job). (k, fst (job w))) (scheduled env jobs)" and w1: "w1 = w"
    using pure_jobs[OF pure, where env = env and w = w] p by auto
  have "(machine_key i, Inr u) \<in> set outs \<longleftrightarrow>
      (\<exists>rec. (machine_key i, rec) \<in> set ?recs \<and> \<not> spared (w_starting w) launch_ids keep rec \<and>
        provider_terminate env (fld rec ''provider'') rec = Inr u)" for u
    unfolding o by (force simp: js of_res_run image_iff)
  moreover have "(machine_key i, rec) \<in> set ?recs \<longleftrightarrow> rec = machine_record w i" for rec
    using machine_scanned[OF assms(2)] by (auto simp: keyed_machines_def machine_record_def)
  ultimately show ?thesis
    using delete_done[OF d, of "machine_key i"] by (auto simp: machine_record_def w1)
qed

lemma split_dead_spec:
  "split_dead st recs = Inr (dead, checks) \<Longrightarrow>
   set dead = {fld rec ''launch_id'' | rec. rec \<in> set recs \<and> fld rec ''launch_id'' \<notin> st \<and> \<not> is_up rec} \<and>
   set checks = {rec \<in> set recs. fld rec ''launch_id'' \<notin> st \<and> is_up rec}"
proof (induction st recs arbitrary: dead checks rule: split_dead.induct)
  case (2 st rec recs)
  then obtain x where x: "need rec ''launch_id'' = Inr x" by (auto split: sum.splits)
  consider "fld rec ''launch_id'' \<in> st" | "fld rec ''launch_id'' \<notin> st" "\<not> is_up rec"
    | "fld rec ''launch_id'' \<notin> st" "is_up rec" by blast
  then show ?case
  proof cases
    case 1
    with 2(1)[OF x 1] 2(4) x show ?thesis by auto
  next
    case c: 2
    with 2(4) x obtain d where "split_dead st recs = Inr (d, checks)" "dead = fld rec ''launch_id'' # d"
      by (cases "split_dead st recs") auto
    with 2(2)[OF x c] c show ?thesis by auto
  next
    case c: 3
    with 2(4) x obtain y z cs where yz: "need rec ''provider'' = Inr y" "resolve_name (fld rec ''provider'') = Inr z"
      and "split_dead st recs = Inr (dead, cs)" "checks = rec # cs"
      by (auto split: sum.splits) (cases "split_dead st recs"; auto)
    with 2(3)[OF x c(1) _ yz] c show ?thesis by auto
  qed
qed simp

text \<open>A machine still starting is never called dead, and a running one only when its provider
  answers that it is gone: every launch id \<open>find_dead\<close> returns has a record that is not starting and
  either never got a host or was reported gone; a check that fails leaves its machine alive.\<close>

theorem find_dead_is_certain:
  assumes "find_dead env w = (Inr dead, w')" and "i \<in> set dead"
  shows "i \<notin> w_starting w \<and> (\<exists>rec \<in> set (machine_records (w_servers w LOCAL)). fld rec ''launch_id'' = i \<and>
    (\<not> is_up rec \<or> provider_alive env (fld rec ''provider'') rec = Inr False))"
proof -
  from assms(1) obtain early checks answers w1 where
    s: "split_dead (w_starting w) (machine_records (w_servers w LOCAL)) = Inr (early, checks)"
    and p: "run_in_parallel env (map (alive_job env) checks) w = (Inr answers, w1)"
    and d: "dead = early @ map fst (filter (\<lambda>(_, res). res = Inr False) answers)"
    unfolding find_dead_def by (elim bnd_InrE) (auto dest!: ask_InrD elim!: bnd_InrE simp: read_run of_res_run ret_run)
  have pure: "\<forall>j\<in>set (map (alive_job env) checks). \<exists>r. snd j = of_res r"
    by (auto simp: alive_job_def)
  have o: "answers = map (\<lambda>(k, job). (k, fst (job w))) (scheduled env (map (alive_job env) checks))"
    using pure_jobs[OF pure, where env = env and w = w] p by auto
  have "i \<in> set early \<or> (\<exists>rec\<in>set checks. fld rec ''launch_id'' = i \<and> provider_alive env (fld rec ''provider'') rec = Inr False)"
    using assms(2) d by (auto simp: o alive_job_def of_res_run)
  with split_dead_spec[OF s] show ?thesis by auto
qed

lemma declared_run:
  "declared env specs w = (if w_down w LOCAL then (Inl (RedisError LOCAL), w)
     else (Inr (declared_of env (w_config w) specs (machine_records (w_servers w LOCAL))), w))"
  by (simp add: declared_def bnd_run ask_run read_run ret_run)

lemma launch_times_snd: "launch_times recs = Inr xs \<Longrightarrow> map snd xs = recs"
proof (induction recs arbitrary: xs)
  case (Cons rec recs)
  then obtain ys where "launch_times recs = Inr ys" "map snd xs = rec # map snd ys"
    by (auto split: sum.splits) (cases "launch_times recs"; auto)
  with Cons.IH show ?case by simp
qed simp

lemma keep_order_mset: "launch_times recs = Inr xs \<Longrightarrow> mset (keep_order occ xs) = mset recs"
  using launch_times_snd[of recs xs] by (auto simp: keep_order_def)

lemma kept_machines_spec:
  "kept_machines occ ds = Inr (Some ids) \<Longrightarrow> Inr d \<in> set ds \<Longrightarrow>
   \<exists>xs. launch_times (d_started d) = Inr xs \<and> list_all is_up (take_count (d_count d) (keep_order occ xs)) \<and>
     (\<forall>rec\<in>set (take_count (d_count d) (keep_order occ xs)). fld rec ''launch_id'' \<in> set ids)"
proof (induction occ ds arbitrary: ids rule: kept_machines.induct)
  case (3 occ e ds)
  from 3(2) obtain xs ids' where x: "launch_times (d_started e) = Inr xs"
    "list_all is_up (take_count (d_count e) (keep_order occ xs))" "kept_machines occ ds = Inr (Some ids')"
    "ids = map (\<lambda>rec. fld rec ''launch_id'') (take_count (d_count e) (keep_order occ xs)) @ ids'"
    by (auto simp: Let_def split: sum.splits if_splits) (cases "kept_machines occ ds"; auto)
  show ?case
  proof (cases "d = e")
    case True
    with x show ?thesis by auto
  next
    case False
    with 3(3) have "Inr d \<in> set ds" by simp
    with 3(1)[OF x(1) refl _ x(3)] x(2,4) show ?thesis by auto
  qed
qed auto

lemma length_take_count: "0 \<le> n \<Longrightarrow> length (take_count n xs) = min (nat n) (length xs)"
  by (simp add: take_count_def)

lemma set_take_count: "set (take_count n xs) \<subseteq> set xs"
  by (auto simp: take_count_def dest: in_set_takeD)

text \<open>Machines are drained off only when there is somewhere to go: while \<open>find_surplus\<close> names
  any machine, every kind the config declares keeps as many of its machines as it declares (or all
  it has), each of them up and none of them named.\<close>

theorem surplus_leaves_enough:
  assumes "find_surplus env specs w = (Inr surplus, w')" and "surplus \<noteq> []"
    and "Inr d \<in> set (declared_of env (w_config w) specs (machine_records (w_servers w LOCAL)))"
    and "0 \<le> d_count d"
  shows "\<exists>kept. set kept \<subseteq> set (d_started d) \<and> length kept = min (nat (d_count d)) (length (d_started d)) \<and>
    (\<forall>rec\<in>set kept. is_up rec \<and> fld rec ''launch_id'' \<notin> set surplus)"
proof -
  let ?occ = "occupied_machines (w_servers w LOCAL)"
  from assms(1) obtain kept where
    k: "kept_machines ?occ (declared_of env (w_config w) specs (machine_records (w_servers w LOCAL))) = Inr kept"
    and r: "(case kept of None \<Rightarrow> ret [] | Some ids \<Rightarrow> bnd (ask LOCAL (rd_scan ''machine_record:'')) (\<lambda>keys.
         ret (filter (\<lambda>i. i \<notin> set ids) (map (removeprefix ''machine_record:'') keys)))) w = (Inr surplus, w')"
    unfolding find_surplus_def
    by (simp add: bnd_run ask_run[of LOCAL occupied_machines] declared_run of_res_run split: if_splits sum.splits)
  from r assms(2) obtain ids where ids: "kept = Some ids" "\<forall>i\<in>set surplus. i \<notin> set ids"
    by (auto simp: ret_run dest!: ask_InrD elim!: bnd_InrE split: option.splits)
  from kept_machines_spec[OF _ assms(3), of ?occ ids] k ids(1) obtain xs where
    x: "launch_times (d_started d) = Inr xs" "list_all is_up (take_count (d_count d) (keep_order ?occ xs))"
    "\<forall>rec\<in>set (take_count (d_count d) (keep_order ?occ xs)). fld rec ''launch_id'' \<in> set ids" by auto
  have m: "mset (keep_order ?occ xs) = mset (d_started d)" by (rule keep_order_mset[OF x(1)])
  show ?thesis
  proof (intro exI conjI)
    show "set (take_count (d_count d) (keep_order ?occ xs)) \<subseteq> set (d_started d)"
      using set_take_count[of "d_count d" "keep_order ?occ xs"] mset_eq_setD[OF m] by simp
    show "length (take_count (d_count d) (keep_order ?occ xs)) = min (nat (d_count d)) (length (d_started d))"
      using length_take_count[OF assms(4)] mset_eq_length[OF m] by metis
    show "\<forall>rec\<in>set (take_count (d_count d) (keep_order ?occ xs)). is_up rec \<and> fld rec ''launch_id'' \<notin> set surplus"
      using x(2,3) ids(2) by (auto simp: list_all_iff)
  qed
qed

definition shortfall :: "exn + declared_kind \<Rightarrow> nat" where
  "shortfall d = (case d of Inl _ \<Rightarrow> 0 | Inr d \<Rightarrow> nat (d_count d - int (length (d_started d))))"

lemma all_missing_length: "all_missing env ds = Inr ms \<Longrightarrow> length ms = (\<Sum>d\<leftarrow>ds. shortfall d)"
proof (induction ds arbitrary: ms)
  case (Cons d ds)
  then obtain xs ys where x: "missing_of env d = Inr xs" "all_missing env ds = Inr ys" "ms = xs @ ys"
    by (auto split: sum.splits) (cases "all_missing env ds"; auto)
  have "length xs = shortfall d" using x(1)
    by (auto simp: missing_of_def shortfall_def split: sum.splits if_splits)
  with Cons.IH[OF x(2)] x(3) show ?case by simp
qed simp

definition fresh_ids :: "env \<Rightarrow> world \<Rightarrow> bool" where
  "fresh_ids env w \<longleftrightarrow> (\<forall>n\<ge>w_drawn w. machine_key (e_uuid env n) \<notin> set (rd_scan ''machine_record:'' (w_servers w LOCAL))) \<and>
     inj_on (e_uuid env) {w_drawn w..}"

lemma scan_hset_new:
  "k \<notin> set (rd_scan p r) \<Longrightarrow> prefix p k \<Longrightarrow> rd_scan p (rd_hset_multiple k m r) = rd_scan p r @ [k]"
proof -
  assume "k \<notin> set (rd_scan p r)" "prefix p k"
  then have "k \<notin> fst ` set (rd_hashes r)" by (auto simp: rd_scan_def)
  then have "map fst (AList.update k v (rd_hashes r)) = map fst (rd_hashes r) @ [k]" for v
    by (simp add: update_keys)
  with \<open>prefix p k\<close> show ?thesis by (simp add: rd_scan_def rd_hset_multiple_def)
qed

lemma begin_start_run:
  assumes "begin_start env nm w = (Inr (), w')" "fresh_ids env w"
  shows "rd_scan ''machine_record:'' (w_servers w' LOCAL) = rd_scan ''machine_record:'' (w_servers w LOCAL) @ [machine_key (e_uuid env (w_drawn w))]"
    "w_starting w' = insert (e_uuid env (w_drawn w)) (w_starting w)" "w_drawn w' = Suc (w_drawn w)" "fresh_ids env w'"
proof -
  let ?i = "e_uuid env (w_drawn w)" and ?r = "w_servers w LOCAL"
  from assms(1) obtain m where w': "w_servers w' LOCAL = rd_hset_multiple (machine_key ?i) m ?r"
    "w_starting w' = insert ?i (w_starting w)" "w_drawn w' = Suc (w_drawn w)"
    unfolding begin_start_def Let_def by (elim bnd_InrE) (auto simp: read_run modify_run dest!: tell_InrD)
  have new: "machine_key ?i \<notin> set (rd_scan ''machine_record:'' ?r)" using assms(2) by (simp add: fresh_ids_def)
  show s: "rd_scan ''machine_record:'' (w_servers w' LOCAL) = rd_scan ''machine_record:'' ?r @ [machine_key ?i]"
    unfolding w'(1) by (rule scan_hset_new[OF new]) (simp add: machine_key_def)
  show "w_starting w' = insert ?i (w_starting w)" "w_drawn w' = Suc (w_drawn w)" by (fact w')+
  have "e_uuid env n \<noteq> ?i" if "n \<ge> Suc (w_drawn w)" for n
    using assms(2) that inj_onD[of "e_uuid env" "{w_drawn w..}" n "w_drawn w"] by (auto simp: fresh_ids_def)
  moreover have "inj_on (e_uuid env) {Suc (w_drawn w)..}"
    using assms(2) by (auto simp: fresh_ids_def intro: inj_on_subset)
  ultimately show "fresh_ids env w'"
    using assms(2) by (auto simp: fresh_ids_def s w'(3))
qed

lemma begin_starts_run:
  "for_each ms (begin_start env) w = (Inr (), w') \<Longrightarrow> fresh_ids env w \<Longrightarrow>
   \<exists>new. length new = length ms \<and> distinct new \<and> w_starting w' = w_starting w \<union> set new \<and>
     rd_scan ''machine_record:'' (w_servers w' LOCAL) = rd_scan ''machine_record:'' (w_servers w LOCAL) @ map machine_key new \<and>
     set new \<subseteq> e_uuid env ` {w_drawn w..}"
proof (induction ms arbitrary: w)
  case (Cons nm ms)
  then obtain w1 where 1: "begin_start env nm w = (Inr (), w1)" and 2: "for_each ms (begin_start env) w1 = (Inr (), w')"
    by (auto elim!: bnd_InrE)
  note b = begin_start_run[OF 1 Cons.prems(2)]
  from Cons.IH[OF 2 b(4)] obtain new where n: "length new = length ms" "distinct new" "w_starting w' = w_starting w1 \<union> set new"
    "rd_scan ''machine_record:'' (w_servers w' LOCAL) = rd_scan ''machine_record:'' (w_servers w1 LOCAL) @ map machine_key new"
    "set new \<subseteq> e_uuid env ` {w_drawn w1..}" by blast
  have "e_uuid env (w_drawn w) \<notin> set new"
  proof
    assume "e_uuid env (w_drawn w) \<in> set new"
    with n(5) b(3) obtain m where "e_uuid env (w_drawn w) = e_uuid env m" "Suc (w_drawn w) \<le> m" by auto
    with Cons.prems(2) show False
      using inj_onD[of "e_uuid env" "{w_drawn w..}" "w_drawn w" m] by (auto simp: fresh_ids_def)
  qed
  with n b show ?case by (intro exI[of _ "e_uuid env (w_drawn w) # new"]) auto
qed (auto simp: ret_run)

text \<open>A pass starts exactly the machines the config is short of: with fresh launch ids, the
  machine records grow by the sum, over the declared kinds, of how many more are declared than have
  a record, and each new one is marked as starting, so a machine that never came up still counts and
  the declared number is never exceeded.\<close>

theorem start_missing_starts_exactly:
  assumes "start_missing env specs w = (Inr (), w')" and "fresh_ids env w"
  shows "\<exists>new. rd_scan ''machine_record:'' (w_servers w' LOCAL) = rd_scan ''machine_record:'' (w_servers w LOCAL) @ map machine_key new \<and>
    length new = (\<Sum>d\<leftarrow>declared_of env (w_config w) specs (machine_records (w_servers w LOCAL)). shortfall d) \<and>
    distinct new \<and> w_starting w' = w_starting w \<union> set new"
proof -
  from assms(1) obtain ms where
    m: "all_missing env (declared_of env (w_config w) specs (machine_records (w_servers w LOCAL))) = Inr ms"
    and f: "for_each ms (begin_start env) w = (Inr (), w')"
    unfolding start_missing_def
    by (simp add: bnd_run declared_run of_res_run split: if_splits sum.splits)
  from begin_starts_run[OF f assms(2)] all_missing_length[OF m] show ?thesis by metis
qed

text \<open>A start always ends: whatever the provider, Docker or Redis did, the machine is no longer
  marked as starting when its thread ends, so \<open>find_dead\<close> can replace it, and a failure is saved as
  its machine type's error while the primary Redis is up.\<close>

theorem start_always_ends:
  assumes "start_body env launch_id p sp t w = (r, w1)"
    and "start_machine env launch_id p sp t w = (res, w')"
  shows "launch_id \<notin> w_starting w' \<and>
    (case r of Inl e \<Rightarrow> \<not> w_down w1 LOCAL \<longrightarrow> rd_hget MACHINE_ERRORS_KEY t (w_servers w' LOCAL) = Some (Raw (exn_str e))
      | Inr _ \<Rightarrow> w_servers w' = w_servers w1)"
  using assms
  by (auto simp: start_machine_def finally_do_def catch_run discard_start_def modify_run tell_run split: sum.splits if_splits)

section \<open>Witnesses\<close>

definition m1_record :: hash where
  "m1_record = [(''launch_id'', Raw ''m1''), (''provider'', Raw ''ec2-pool''), (''machine_type'', Raw ''t3''),
          (''private_host'', Raw ''10.0.0.5''), (''launched_at'', Doc (VInt 10))]"

definition m2_record :: hash where
  "m2_record = [(''launch_id'', Raw ''m2''), (''provider'', Raw ''ec2-pool''), (''machine_type'', Raw ''t3''),
          (''launched_at'', Doc (VInt 20))]"

lemmas pool_records = m1_record_def m2_record_def

definition pool_env :: "int \<Rightarrow> world" where
  "pool_env n = launch_world\<lparr>w_servers := (\<lambda>_. empty_redis\<lparr>rd_hashes :=
     [(machine_key ''m1'', m1_record),
      (machine_key ''m2'', m2_record),
      (instance_key ''a-1'', [(''machine'', Raw ''m1'')])]\<rparr>),
     w_config := [(''ec2-pool'', VDict [(''machine_type'', VDict [(''t3'', VInt n)])])]\<rparr>"

lemma pool_facts [simp]:
  "w_starting (pool_env n) = {}" "w_down (pool_env n) h = False" "w_drawn (pool_env n) = 0"
  "machine_record (pool_env n) ''m1'' = m1_record"
  "machine_record (pool_env n) ''m2'' = m2_record"
  "rd_scan ''machine_record:'' (w_servers (pool_env n) h) = [machine_key ''m1'', machine_key ''m2'']"
  "occupied_machines (w_servers (pool_env n) h) = [Some (Raw ''m1'')]"
  by (simp_all add: pool_env_def launch_world_def machine_record_def rd_hgetall_def rd_scan_def machine_key_def instance_key_def
      occupied_machines_def rd_hget_def empty_redis_def)

lemma pool_machines [simp]:
  "machine_records (w_servers (pool_env n) LOCAL) = [m1_record, m2_record]"
  "keyed_machines (w_servers (pool_env n) LOCAL) =
     [(machine_key ''m1'', m1_record), (machine_key ''m2'', m2_record)]"
  using pool_facts(4,5) unfolding machine_records_def keyed_machines_def pool_facts(6) machine_record_def by simp_all

lemma pool_provider [simp]: "resolve_name ''ec2-pool'' = Inr ''ec2-pool''"
  by (simp add: resolve_name_def canonical_name_def NAMES_def lower_def lower_char_def)

lemma demo_provider [simp]: "e_order demo_env n = [0..<n]" "e_terminate_machine demo_env p m = Inr ()"
  "e_machine_alive demo_env p m = Inr True" "e_machine_capacity demo_env p s = Inr (Some (2, 4096))"
  "e_hourly_cost demo_env p s = Inr 1" "e_uuid demo_env = str_nat"
  by (simp_all add: demo_env_def)

theorem terminate_deletes_exactly_witness:
  "\<exists>w'. terminate demo_env (Some [''m1'', ''m2'']) [Some (Raw ''m1'')] (pool_env 1) = (Inr (), w') \<and>
     machine_record w' ''m2'' = [] \<and> machine_record w' ''m1'' \<noteq> []"
proof -
  have "\<exists>w'. terminate demo_env (Some [''m1'', ''m2'']) [Some (Raw ''m1'')] (pool_env 1) = (Inr (), w')"
    by (simp add: terminate_def bnd_run read_run ask_run of_res_run spared_def need_def fld_def pool_records run_in_parallel_def
        scheduled_def attempt_run ret_run provider_terminate_def by_provider_def tell_run Let_def)
  then obtain w' where t: "terminate demo_env (Some [''m1'', ''m2'']) [Some (Raw ''m1'')] (pool_env 1) = (Inr (), w')" by blast
  from terminate_deletes_exactly[OF t, of "''m1''"] terminate_deletes_exactly[OF t, of "''m2''"] t
  show ?thesis by (auto simp: spared_def provider_terminate_def by_provider_def fld_def pool_records)
qed

theorem find_dead_is_certain_witness:
  "find_dead demo_env (pool_env 1) = (Inr [''m2''], pool_env 1) \<and>
   (\<exists>rec \<in> set (machine_records (w_servers (pool_env 1) LOCAL)). fld rec ''launch_id'' = ''m2'' \<and> \<not> is_up rec)"
proof -
  have f: "find_dead demo_env (pool_env 1) = (Inr [''m2''], pool_env 1)"
    by (simp add: find_dead_def bnd_run read_run ask_run of_res_run need_def fld_def is_up_def opt_truthy_def text_truthy_def
        pool_records run_in_parallel_def scheduled_def attempt_run ret_run alive_job_def provider_alive_def by_provider_def Let_def)
  from find_dead_is_certain[OF f, of "''m2''"] f show ?thesis
    by (auto simp: provider_alive_def by_provider_def fld_def is_up_def opt_truthy_def text_truthy_def pool_records)
qed

lemma pool_declared: "declared_of demo_env (w_config (pool_env n)) [launch_spec] (machine_records (w_servers (pool_env n) LOCAL)) =
    [Inr \<lparr>d_provider = ''ec2-pool'', d_spec = [(''machine_type'', ''t3'')], d_count = n,
      d_started = [m1_record, m2_record]\<rparr>]"
  by (simp add: declared_of_def kinds_of_def NAMES_def provider_schema_of_def section_of_def shared_keys_def dhas_def
      spec_provider_def of_kind_def dget_def launch_spec_def) (simp add: pool_env_def of_kind_def pool_records)

lemma pool_times: "launch_times [m1_record, m2_record] = Inr [(Fin 10, m1_record), (Fin 20, m2_record)]"
  "is_up m1_record" "\<not> is_up m2_record" "fld m1_record ''launch_id'' = ''m1''"
  "map_of m1_record ''launch_id'' = Some (Raw ''m1'')" "map_of m2_record ''launch_id'' = Some (Raw ''m2'')"
  by (simp_all add: pool_records need_def need_float_def is_up_def opt_truthy_def text_truthy_def fld_def)

theorem surplus_leaves_enough_witness:
  "find_surplus demo_env [launch_spec] (pool_env 1) = (Inr [''m2''], pool_env 1) \<and>
   (\<exists>kept. length kept = 1 \<and> (\<forall>rec\<in>set kept. is_up rec \<and> fld rec ''launch_id'' \<noteq> ''m2''))"
proof -
  have f: "find_surplus demo_env [launch_spec] (pool_env 1) = (Inr [''m2''], pool_env 1)"
    by (simp add: find_surplus_def bnd_run ask_run declared_run pool_declared[simplified] of_res_run pool_times need_def need_float_def fld_def Let_def
        take_count_def keep_order_def ret_run del: launch_times.simps)
  from surplus_leaves_enough[OF f, of "\<lparr>d_provider = ''ec2-pool'', d_spec = [(''machine_type'', ''t3'')], d_count = 1,
      d_started = [m1_record, m2_record]\<rparr>"] f
  show ?thesis unfolding pool_declared by auto
qed

lemma str_nat_inj: "str_nat m = str_nat n \<longleftrightarrow> m = n"
  by (metis parse_str_nat option.inject)

theorem start_missing_starts_exactly_witness:
  "\<exists>w' new. start_missing demo_env [launch_spec] (pool_env 3) = (Inr (), w') \<and> length new = 1 \<and> w_starting w' = set new"
proof -
  have "parse_digits False 0 ''m1'' = None" "parse_digits False 0 ''m2'' = None" by (simp_all add: digit_val_def)
  then have "str_nat n \<noteq> ''m1''" "str_nat n \<noteq> ''m2''" for n using parse_str_nat[of n] by auto
  then have fresh: "fresh_ids demo_env (pool_env 3)"
    by (auto simp: fresh_ids_def inj_on_def str_nat_inj)
  have "\<exists>w'. start_missing demo_env [launch_spec] (pool_env 3) = (Inr (), w')"
    by (simp add: start_missing_def bnd_run declared_run pool_declared[simplified] of_res_run missing_of_def provider_capacity_def
        provider_hourly_cost_def by_provider_def machine_type_of_def schema_def provider_schema_of_def begin_start_def
        read_run modify_run tell_run Let_def ret_run numeral_eq_Suc)
  then obtain w' where s: "start_missing demo_env [launch_spec] (pool_env 3) = (Inr (), w')" by blast
  from start_missing_starts_exactly[OF s fresh] s show ?thesis
    unfolding pool_declared by (auto simp: shortfall_def)
qed

theorem start_always_ends_witness:
  "''m2'' \<notin> w_starting (snd (start_machine demo_env ''m2'' ''nosuch'' [] ''t3'' ((pool_env 1)\<lparr>w_starting := {''m2''}\<rparr>)))"
proof -
  let ?w = "(pool_env 1)\<lparr>w_starting := {''m2''}\<rparr>"
  obtain r w1 res w' where "start_body demo_env ''m2'' ''nosuch'' [] ''t3'' ?w = (r, w1)"
    "start_machine demo_env ''m2'' ''nosuch'' [] ''t3'' ?w = (res, w')" by (meson surj_pair)
  from start_always_ends[OF this] this(2) show ?thesis by simp
qed

end
