(* ===== verification/Reconciler.thy ===== *)
theory Reconciler
  imports Machine_Provisioner
begin

text \<open>
  The reconciler (\<open>reconciler/reconciler.py\<close>): one pass (\<open>reconcile\<close>) converges the running
  replicas onto the desired counts in Redis, and \<open>run_iteration\<close> is one turn of the loop.
  \<open>self._seen_healthy\<close> is \<open>w_seen_healthy\<close>. \<open>poll\<close> is the context's poll interval, from which the
  heartbeat's age and the startup grace are computed.
\<close>

definition stale_after :: "rat \<Rightarrow> rat" where "stale_after poll = 3 * poll"
definition startup_grace :: "rat \<Rightarrow> rat" where "startup_grace poll = max 30 (3 * poll)"

section \<open>Health checks\<close>

definition is_database_agent :: "spec list \<Rightarrow> string \<Rightarrow> bool" where
  "is_database_agent specs n \<longleftrightarrow> (case spec_by_name specs n of None \<Rightarrow> False
     | Some sp \<Rightarrow> dget sp ''type'' = VStr ''database'')"

text \<open>\<open>now - t <= d\<close> of a stored time; one that is missing, empty or not a number is not recent.\<close>

definition is_recent :: "rat \<Rightarrow> rtext option \<Rightarrow> rat \<Rightarrow> bool" where
  "is_recent now t d \<longleftrightarrow> (case t of None \<Rightarrow> False | Some x \<Rightarrow>
     (case float_text x of Some (Fin a) \<Rightarrow> now - a \<le> d | Some PInf \<Rightarrow> True | _ \<Rightarrow> False))"

definition port_is_open :: "env \<Rightarrow> rat \<Rightarrow> hash \<Rightarrow> bool" where
  "port_is_open env now replica =
     (let (host, port) = rpartition CHR '':'' (fld replica ''address'') in
      host \<noteq> [] \<and> port \<noteq> [] \<and> (case int_str port of None \<Rightarrow> False | Some p \<Rightarrow> e_port_open env now host p))"

text \<open>A metrics hash that cannot be read is no evidence against the replica.\<close>

definition reports_are_fresh :: "rat \<Rightarrow> hash \<Rightarrow> bool step" where
  "reports_are_fresh poll replica =
     bnd (machine_redis_for_replica replica) (\<lambda>h.
     bnd (of_res (need replica ''address'')) (\<lambda>_.
     bnd (attempt (ask h (rd_hgetall (metrics_key (fld replica ''address''))))) (\<lambda>res.
     bnd (read_st w_now) (\<lambda>now.
     ret (case res of Inl _ \<Rightarrow> True
        | Inr metrics \<Rightarrow> is_recent now (map_of metrics ''observed_at'') (stale_after poll))))))"

definition may_still_be_booting :: "rat \<Rightarrow> rat \<Rightarrow> hash \<Rightarrow> bool" where
  "may_still_be_booting poll now replica = is_recent now (map_of replica ''created_at'') (startup_grace poll)"

definition mark_seen :: "string \<Rightarrow> unit step" where
  "mark_seen rid = modify_st (\<lambda>w. w\<lparr>w_seen_healthy := insert rid (w_seen_healthy w)\<rparr>)"

definition forget_seen :: "string list \<Rightarrow> unit step" where
  "forget_seen rids = modify_st (\<lambda>w. w\<lparr>w_seen_healthy := w_seen_healthy w - set rids\<rparr>)"

text \<open>The replica answers: its port is open and, unless it is a database, its metrics are fresh.\<close>

definition answers :: "env \<Rightarrow> rat \<Rightarrow> bool \<Rightarrow> hash \<Rightarrow> bool step" where
  "answers env poll is_db replica =
     bnd (read_st w_now) (\<lambda>now.
     if \<not> port_is_open env now replica then ret False
     else if is_db then ret True
     else reports_are_fresh poll replica)"

text \<open>What \<open>_is_healthy\<close> does with the answer: a database's is also written as its status.\<close>

definition settle_health :: "rat \<Rightarrow> hash \<Rightarrow> string \<Rightarrow> bool \<Rightarrow> bool \<Rightarrow> bool step" where
  "settle_health poll replica rid is_db ok =
     bnd (read_st w_seen_healthy) (\<lambda>seen.
     if ok then
       bnd (if is_db \<and> rid \<notin> seen then
              bnd (machine_redis_for_replica replica) (\<lambda>h.
                tell h (rd_set (status_key (fld replica ''address'')) (Raw ''healthy'')))
            else ret ()) (\<lambda>_.
       bnd (mark_seen rid) (\<lambda>_. ret True))
     else bnd (read_st w_now) (\<lambda>now. ret (rid \<notin> seen \<and> may_still_be_booting poll now replica)))"

definition is_healthy :: "env \<Rightarrow> rat \<Rightarrow> hash \<Rightarrow> string \<Rightarrow> bool step" where
  "is_healthy env poll replica rid =
     bnd (of_res (need replica ''agent_name'')) (\<lambda>_.
     bnd (read_st (\<lambda>w. is_database_agent (w_specs w) (fld replica ''agent_name''))) (\<lambda>is_db.
     bnd (answers env poll is_db replica) (settle_health poll replica rid is_db)))"

definition is_up_replica :: "rat \<Rightarrow> hash \<Rightarrow> bool step" where
  "is_up_replica poll replica =
     bnd (read_st (\<lambda>w. is_database_agent (w_specs w) (fld replica ''agent_name''))) (\<lambda>is_db.
     bnd (machine_redis_for_replica replica) (\<lambda>h.
     bnd (attempt (bnd (of_res (need replica ''address'')) (\<lambda>_. ask h (rd_get (status_key (fld replica ''address'')))))) (\<lambda>res.
     case res of
       Inl _ \<Rightarrow> ret False
     | Inr status \<Rightarrow>
         if status \<noteq> Some (Raw ''healthy'') then ret False
         else if is_db then ret True
         else reports_are_fresh poll replica)))"

definition up_agent :: "rat \<Rightarrow> hash \<Rightarrow> string list step" where
  "up_agent poll replica =
     bnd (of_res (need replica ''agent_name'')) (\<lambda>_.
     bnd (read_st w_specs) (\<lambda>specs.
     if fld replica ''agent_name'' \<notin> set (spec_names specs) \<or> is_draining replica then ret []
     else bnd (is_up_replica poll replica) (\<lambda>up. ret (if up then [fld replica ''agent_name''] else []))))"

definition publish_up :: "rat \<Rightarrow> unit step" where
  "publish_up poll =
     catch
       (bnd (ask LOCAL (\<lambda>r. list_replicas r None)) (\<lambda>recs.
        bnd (map_each recs (up_agent poll)) (\<lambda>ups. publish_up_agents (concat ups))))
       (\<lambda>_. ret ())"

section \<open>Removal\<close>

datatype reason = DrainInProgress | ReplacementRequested | Surplus | Unhealthy | MachineTerminating | AgentRemoved

definition removal_reason :: "env \<Rightarrow> rat \<Rightarrow> hash \<Rightarrow> string \<Rightarrow> string list \<Rightarrow> string list \<Rightarrow> reason option step" where
  "removal_reason env poll replica rid surplus replace_requested =
     (if is_draining replica then ret (Some DrainInProgress)
      else if rid \<in> set replace_requested then ret (Some ReplacementRequested)
      else if rid \<in> set surplus then ret (Some Surplus)
      else bnd (is_healthy env poll replica rid) (\<lambda>ok. ret (if ok then None else Some Unhealthy)))"

definition remove_without_draining :: "env \<Rightarrow> string \<Rightarrow> hash \<Rightarrow> reason \<Rightarrow> unit step" where
  "remove_without_draining env rid replica why =
     bnd (if why = Unhealthy then dump_container_log env replica else ret ()) (\<lambda>_.
     bnd (forget_seen [rid]) (\<lambda>_.
     bnd (remove_replica env rid False) (\<lambda>_. ret ())))"

definition drain_replica :: "env \<Rightarrow> rat \<Rightarrow> string \<Rightarrow> hash \<Rightarrow> reason \<Rightarrow> bool step" where
  "drain_replica env poll rid replica why =
     bnd (of_res (need replica ''agent_name'')) (\<lambda>_.
     bnd (read_st (\<lambda>w. is_database_agent (w_specs w) (fld replica ''agent_name''))) (\<lambda>is_db.
     if is_db then bnd (remove_without_draining env rid replica why) (\<lambda>_. ret True)
     else bnd (is_healthy env poll replica rid) (\<lambda>ok.
       if \<not> ok then bnd (remove_without_draining env rid replica Unhealthy) (\<lambda>_. ret True)
       else bnd (remove_replica env rid True) (\<lambda>gone.
         if \<not> gone then ret False
         else bnd (forget_seen [rid]) (\<lambda>_. ret True)))))"

text \<open>\<open>sorted(those not draining, key=created_at)[desired:]\<close>.\<close>

definition surplus_ids :: "int \<Rightarrow> hash list \<Rightarrow> exn + string list" where
  "surplus_ids desired replicas =
     map_sum id (\<lambda>sorted. map (\<lambda>rec. fld rec ''replica_id'') (drop (nat desired) sorted))
       (oldest_first (filter (\<lambda>rec. \<not> is_draining rec) replicas))"

definition remove_one :: "env \<Rightarrow> rat \<Rightarrow> string list \<Rightarrow> string list \<Rightarrow> hash \<Rightarrow> unit step" where
  "remove_one env poll surplus requested replica =
     (let rid = fld replica ''replica_id'';
          clear = (if rid \<in> set requested then tell LOCAL (clear_replace_requests [rid]) else ret ()) in
      bnd (removal_reason env poll replica rid surplus requested) (\<lambda>why.
      case why of
        None \<Rightarrow> ret ()
      | Some Unhealthy \<Rightarrow> bnd (remove_without_draining env rid replica Unhealthy) (\<lambda>_. clear)
      | Some r \<Rightarrow> bnd (drain_replica env poll rid replica r) (\<lambda>gone. if gone then clear else ret ())))"

definition remove_unwanted :: "env \<Rightarrow> rat \<Rightarrow> string \<Rightarrow> bool step" where
  "remove_unwanted env poll agent_name =
     bnd (read_st (\<lambda>w. spec_by_name (w_specs w) agent_name)) (\<lambda>spec.
     case spec of
       None \<Rightarrow> ret False
     | Some sp \<Rightarrow> (case replica_count sp of
         None \<Rightarrow> ret False
       | Some configured \<Rightarrow>
           bnd (ask LOCAL (\<lambda>r. get_desired r agent_name configured)) (\<lambda>desired.
           bnd (ask LOCAL (\<lambda>r. replace_requests r agent_name)) (\<lambda>requested.
           bnd (ask LOCAL (\<lambda>r. list_replicas r (Some agent_name))) (\<lambda>replicas.
           bnd (for_each replicas (\<lambda>rec. bnd (machine_redis_for_replica rec) (\<lambda>_. ret ()))) (\<lambda>_.
           bnd (map_each replicas (\<lambda>rec. of_res (need rec ''replica_id''))) (\<lambda>_.
           bnd (tell LOCAL (clear_replace_requests
                  (filter (\<lambda>i. i \<notin> set (map (\<lambda>rec. fld rec ''replica_id'') replicas)) requested))) (\<lambda>_.
           bnd (of_res (surplus_ids desired replicas)) (\<lambda>surplus.
           bnd (for_each replicas (remove_one env poll surplus requested)) (\<lambda>_. ret True))))))))))"

definition remove_if_removed :: "env \<Rightarrow> rat \<Rightarrow> hash \<Rightarrow> unit step" where
  "remove_if_removed env poll replica =
     bnd (of_res (need replica ''agent_name'')) (\<lambda>_.
     bnd (read_st w_specs) (\<lambda>specs.
     if fld replica ''agent_name'' \<in> set (spec_names specs) then ret ()
     else bnd (machine_redis_for_replica replica) (\<lambda>_.
       bnd (of_res (need replica ''replica_id'')) (\<lambda>_.
       bnd (drain_replica env poll (fld replica ''replica_id'') replica AgentRemoved) (\<lambda>_. ret ())))))"

definition remove_replicas_of_removed_agents :: "env \<Rightarrow> rat \<Rightarrow> unit step" where
  "remove_replicas_of_removed_agents env poll =
     bnd (ask LOCAL (\<lambda>r. list_replicas r None)) (\<lambda>recs. for_each recs (remove_if_removed env poll))"

text \<open>The replicas on the machines to terminate; \<open>None\<close> is every machine.\<close>

definition on_machines :: "string list option \<Rightarrow> hash \<Rightarrow> exn + bool" where
  "on_machines ids rec = (case ids of
       None \<Rightarrow> Inr True
     | Some ls \<Rightarrow> map_sum id (\<lambda>t. \<exists>l\<in>set ls. t = Raw l) (need rec ''machine''))"

definition drain_job :: "env \<Rightarrow> rat \<Rightarrow> string list option \<Rightarrow> hash \<Rightarrow> (string \<times> bool step) list step" where
  "drain_job env poll ids rec =
     bnd (of_res (on_machines ids rec)) (\<lambda>on.
     if \<not> on then ret []
     else bnd (of_res (need rec ''replica_id'')) (\<lambda>_.
       bnd (machine_redis_for_replica rec) (\<lambda>_.
       ret [(fld rec ''replica_id'', drain_replica env poll (fld rec ''replica_id'') rec MachineTerminating)])))"

definition terminate_machines :: "env \<Rightarrow> rat \<Rightarrow> string list option \<Rightarrow> unit step" where
  "terminate_machines env poll ids =
     bnd (ask LOCAL (\<lambda>r. list_replicas r None)) (\<lambda>recs.
     bnd (map_each recs (drain_job env poll ids)) (\<lambda>jobs.
     bnd (run_in_parallel env (concat jobs)) (\<lambda>_.
     catch
       (bnd (remove_unfinished env) (\<lambda>_.
        bnd (ask LOCAL occupied_machines) (\<lambda>occupied. terminate env ids occupied)))
       (\<lambda>_. ret ()))))"

section \<open>A pass\<close>

definition replace_dead_machines :: "env \<Rightarrow> unit step" where
  "replace_dead_machines env =
     catch
       (bnd (find_dead env) (\<lambda>dead.
        if dead = [] then ret ()
        else bnd (forget_replicas_on dead) (\<lambda>gone.
          bnd (forget_seen gone) (\<lambda>_. terminate env (Some dead) []))))
       (\<lambda>_. ret ())"

definition provision :: "env \<Rightarrow> rat \<Rightarrow> string list option \<Rightarrow> unit step" where
  "provision env poll agent_names =
     catch
       (bnd (read_st w_specs) (\<lambda>configured.
        bnd (ask LOCAL (\<lambda>r. desired_agent_specs r configured)) (\<lambda>specs.
        bnd (start_missing env specs) (\<lambda>_.
        bnd (find_surplus env specs) (\<lambda>surplus.
        bnd (if surplus \<noteq> [] then terminate_machines env poll (Some surplus) else ret ()) (\<lambda>_.
        bnd machines_for_replicas (\<lambda>machines.
        bnd (ask LOCAL images_ready) (\<lambda>ready.
        if ready then bnd (ensure_replicas env specs (filter (\<lambda>m. m_launch_id m \<notin> set surplus) machines) agent_names) (\<lambda>_. ret ())
        else ret ()))))))))
       (\<lambda>_. ret ())"

definition remove_from_agent :: "env \<Rightarrow> rat \<Rightarrow> string \<Rightarrow> bool \<Rightarrow> bool step" where
  "remove_from_agent env poll name checked =
     bnd (attempt (remove_unwanted env poll name)) (\<lambda>res. ret (checked \<or> res = Inr True))"

definition reconcile :: "env \<Rightarrow> rat \<Rightarrow> string list option \<Rightarrow> unit step" where
  "reconcile env poll agent_names =
     bnd refresh_agent_specs_from_redis (\<lambda>_.
     bnd (replace_dead_machines env) (\<lambda>_.
     bnd (ask LOCAL is_stopping) (\<lambda>stopping.
     if stopping then bnd (terminate_machines env poll None) (\<lambda>_. publish_up poll)
     else
       bnd (read_st (\<lambda>w. case agent_names of Some ns \<Rightarrow> ns | None \<Rightarrow> spec_names (w_specs w))) (\<lambda>names.
       bnd (fold_each names False (remove_from_agent env poll)) (\<lambda>checked.
       bnd (if agent_names = None then catch (remove_replicas_of_removed_agents env poll) (\<lambda>_. ret ()) else ret ()) (\<lambda>_.
       bnd (catch (remove_unfinished env) (\<lambda>_. ret ())) (\<lambda>_.
       bnd (publish_up poll) (\<lambda>_.
       if agent_names \<noteq> None \<and> \<not> checked then ret ()
       else provision env poll agent_names))))))))"

section \<open>The loop\<close>

text \<open>\<open>refresh_config\<close>; \<open>file\<close> is what reading and expanding the config file gives.\<close>

definition refresh_config :: "(exn + val) \<Rightarrow> unit step" where
  "refresh_config file = (case file of
       Inl _ \<Rightarrow> ret ()
     | Inr parsed \<Rightarrow> (case load_config parsed of
         Inl _ \<Rightarrow> ret ()
       | Inr (config, _) \<Rightarrow> modify_st (\<lambda>w. w\<lparr>w_config := config\<rparr>)))"

definition signal_names :: "rtext set \<Rightarrow> string list" where
  "signal_names signals = sorted_list_of_set ((\<lambda>t. case t of Raw s \<Rightarrow> s | Doc _ \<Rightarrow> []) ` signals)"

definition sweep :: "env \<Rightarrow> rat \<Rightarrow> unit step" where
  "sweep env poll = catch (reconcile env poll None) (\<lambda>_. ret ())"

text \<open>One turn of \<open>while _running\<close>; the result is the time of the last sweep. \<open>interval\<close> is the
  sweep interval.\<close>

definition run_iteration :: "env \<Rightarrow> rat \<Rightarrow> rat \<Rightarrow> (exn + val) \<Rightarrow> rat \<Rightarrow> rat step" where
  "run_iteration env poll interval file last_sweep =
     bnd (attempt (at_server LOCAL wait_for_wake_signals)) (\<lambda>res.
     case res of
       Inl _ \<Rightarrow> bnd (sleep 1) (\<lambda>_. ret last_sweep)
     | Inr signals \<Rightarrow>
         bnd (if Raw WAKE_ALL \<in> signals then
                bnd (refresh_config file) (\<lambda>_. bnd (sweep env poll) (\<lambda>_. read_st w_now))
              else if signals \<noteq> {} then
                bnd (catch (reconcile env poll (Some (signal_names signals))) (\<lambda>_. ret ())) (\<lambda>_. ret last_sweep)
              else ret last_sweep) (\<lambda>swept.
         bnd (read_st w_now) (\<lambda>now.
         if now - swept \<ge> interval then bnd (sweep env poll) (\<lambda>_. read_st w_now)
         else ret swept)))"

section \<open>Properties\<close>

lemma oldest_first_sorted:
  "oldest_first recs = Inr xs \<Longrightarrow> \<exists>ts. with_created recs = Inr ts \<and> xs = map snd (sort_key (\<lambda>(t, _). fl_key t) ts)"
  by (cases "with_created recs") (auto simp: oldest_first_def)

lemma with_created_time:
  "with_created recs = Inr ts \<Longrightarrow> (t, rec) \<in> set ts \<Longrightarrow> rec \<in> set recs \<and> need_float rec ''created_at'' = Inr t"
proof (induction recs arbitrary: ts)
  case (Cons r recs)
  then obtain u us where "need_float r ''created_at'' = Inr u" "with_created recs = Inr us" "ts = (u, r) # us"
    by (auto split: sum.splits) (cases "with_created recs"; auto)
  with Cons show ?case by auto
qed simp

text \<open>Scaling down removes the newest replicas: of an agent's replicas that are not draining, as
  many as desired are kept (or all), and no kept one was created after one that is surplus.\<close>

theorem scale_down_keeps_oldest:
  assumes "surplus_ids desired replicas = Inr surplus" and "0 \<le> desired"
  shows "\<exists>kept extra. mset (kept @ extra) = mset (filter (\<lambda>rec. \<not> is_draining rec) replicas) \<and>
    surplus = map (\<lambda>rec. fld rec ''replica_id'') extra \<and>
    length kept = min (nat desired) (length (filter (\<lambda>rec. \<not> is_draining rec) replicas)) \<and>
    (\<forall>k\<in>set kept. \<forall>x\<in>set extra. \<exists>tk tx. need_float k ''created_at'' = Inr tk \<and>
       need_float x ''created_at'' = Inr tx \<and> fl_key tk \<le> fl_key tx)"
proof -
  let ?live = "filter (\<lambda>rec. \<not> is_draining rec) replicas"
  from assms(1) obtain xs where o: "oldest_first ?live = Inr xs" and s: "surplus = map (\<lambda>rec. fld rec ''replica_id'') (drop (nat desired) xs)"
    by (cases "oldest_first ?live") (auto simp: surplus_ids_def)
  from oldest_first_sorted[OF o] obtain ts where ts: "with_created ?live = Inr ts"
    and xs: "xs = map snd (sort_key (\<lambda>(t, _). fl_key t) ts)" by blast
  let ?ys = "sort_key (\<lambda>(t, _). fl_key t) ts"
  have m: "mset xs = mset ?live" by (rule oldest_first_set[OF o])
  have "\<exists>tk tx. need_float k ''created_at'' = Inr tk \<and> need_float x ''created_at'' = Inr tx \<and> fl_key tk \<le> fl_key tx"
    if "k \<in> set (take (nat desired) xs)" "x \<in> set (drop (nat desired) xs)" for k x
  proof -
    from that obtain tk tx where "(tk, k) \<in> set (take (nat desired) ?ys)" "(tx, x) \<in> set (drop (nat desired) ?ys)"
      unfolding xs take_map drop_map by auto
    moreover from this have "fl_key tk \<le> fl_key tx"
      using sorted_key_take_drop[of "\<lambda>(t, _). fl_key t" ?ys "(tk, k)" "nat desired" "(tx, x)"] by simp
    moreover from calculation have "(tk, k) \<in> set ts" "(tx, x) \<in> set ts"
      by (auto dest: in_set_takeD in_set_dropD)
    ultimately show ?thesis using with_created_time[OF ts] by blast
  qed
  moreover have "mset (take (nat desired) xs @ drop (nat desired) xs) = mset ?live" by (simp add: m)
  moreover have "length (take (nat desired) xs) = min (nat desired) (length ?live)"
    using mset_eq_length[OF m] by simp
  ultimately show ?thesis using s by blast
qed

theorem scale_down_keeps_oldest_witness:
  "surplus_ids 1 [demo_record ''a-2'' 20 [], demo_record ''a-1'' 10 []] = Inr [''a-2''] \<and>
   (\<exists>(kept :: hash list) extra. length kept = 1 \<and> [''a-2''] = map (\<lambda>rec. fld rec ''replica_id'') extra)"
proof -
  have s: "surplus_ids 1 [demo_record ''a-2'' 20 [], demo_record ''a-1'' 10 []] = Inr [''a-2'']"
    by (simp add: surplus_ids_def oldest_first_def demo_record_def is_draining_def need_float_def fld_def)
  let ?live = "filter (\<lambda>rec. \<not> is_draining rec) [demo_record ''a-2'' 20 [], demo_record ''a-1'' 10 []]"
  have two: "length ?live = 2" by (simp add: demo_record_def is_draining_def)
  obtain kept :: "hash list" and extra where k: "length kept = min (nat 1) (length ?live)" "[''a-2''] = map (\<lambda>rec. fld rec ''replica_id'') extra"
    using scale_down_keeps_oldest[OF s zero_le_one] by (elim exE conjE) (rule that)
  have "length kept = 1" unfolding k(1) two by simp
  then show ?thesis by (intro conjI exI) (rule s, assumption, rule k(2))
qed

text \<open>The verdict on a replica, from what it reported: \<open>answering\<close> is \<open>None\<close> when its metrics could
  not be read.\<close>

lemma reports_are_fresh_run:
  assumes "reports_are_fresh poll replica w = (Inr b, w')"
  shows "b \<longleftrightarrow> w_down w (machine_host replica) \<or>
      is_recent (w_now w) (map_of (rd_hgetall (metrics_key (fld replica ''address'')) (w_servers w (machine_host replica))) ''observed_at'') (stale_after poll)"
    "w_servers w' = w_servers w" "w_now w' = w_now w" "w_down w' = w_down w" "w_seen_healthy w' = w_seen_healthy w"
proof -
  have seen: "w_seen_healthy w1 = w_seen_healthy w" if "machine_redis_for_replica replica w = (Inr h, w1)" for h w1
    using that by (auto simp: machine_redis_for_replica_def bnd_run read_run modify_run ret_run raise_run Let_def
      split: if_splits option.splits)
  from assms obtain h w1 where 1: "machine_redis_for_replica replica w = (Inr h, w1)"
    and 2: "w' = w1" "b \<longleftrightarrow> (case fst (ask h (rd_hgetall (metrics_key (fld replica ''address''))) w1) of Inl _ \<Rightarrow> True
        | Inr metrics \<Rightarrow> is_recent (w_now w1) (map_of metrics ''observed_at'') (stale_after poll))"
    unfolding reports_are_fresh_def
    by (elim bnd_InrE) (auto simp: of_res_run attempt_run read_run ret_run ask_run split: if_splits)
  note m = machine_redis_run[OF 1]
  show "b \<longleftrightarrow> w_down w (machine_host replica) \<or>
      is_recent (w_now w) (map_of (rd_hgetall (metrics_key (fld replica ''address'')) (w_servers w (machine_host replica))) ''observed_at'') (stale_after poll)"
    using 2(2) m by (simp add: ask_run)
  show "w_servers w' = w_servers w" "w_now w' = w_now w" "w_down w' = w_down w" "w_seen_healthy w' = w_seen_healthy w"
    using 2(1) m seen[OF 1] by simp_all
qed

definition answering :: "env \<Rightarrow> rat \<Rightarrow> world \<Rightarrow> hash \<Rightarrow> bool" where
  "answering env poll w replica \<longleftrightarrow> port_is_open env (w_now w) replica \<and>
     (is_database_agent (w_specs w) (fld replica ''agent_name'') \<or> w_down w (machine_host replica) \<or>
      is_recent (w_now w) (map_of (rd_hgetall (metrics_key (fld replica ''address'')) (w_servers w (machine_host replica))) ''observed_at'') (stale_after poll))"

text \<open>A replica is called unhealthy only on evidence: one that answers on its port with fresh
  metrics is healthy and remembered, an unreadable metrics Redis counts as fresh, and one that does
  not answer is healthy only if it never answered before and is inside its startup grace.\<close>

theorem health_verdict:
  assumes "is_healthy env poll replica rid w = (Inr healthy, w')"
  shows "(healthy \<longleftrightarrow> answering env poll w replica \<or>
      (rid \<notin> w_seen_healthy w \<and> may_still_be_booting poll (w_now w) replica)) \<and>
    w_seen_healthy w' = (if answering env poll w replica then insert rid (w_seen_healthy w) else w_seen_healthy w)"
proof -
  let ?db = "is_database_agent (w_specs w) (fld replica ''agent_name'')"
  from assms obtain ok w1 where 1: "answers env poll ?db replica w = (Inr ok, w1)"
    and 2: "settle_health poll replica rid ?db ok w1 = (Inr healthy, w')"
    unfolding is_healthy_def by (elim bnd_InrE) (simp add: of_res_run read_run)
  have okw: "(ok \<longleftrightarrow> answering env poll w replica) \<and> w_now w1 = w_now w \<and> w_seen_healthy w1 = w_seen_healthy w"
  proof (cases "port_is_open env (w_now w) replica \<and> \<not> ?db")
    case False
    with 1 show ?thesis
      by (cases "port_is_open env (w_now w) replica") (auto simp: answers_def bnd_run read_run ret_run answering_def)
  next
    case True
    with 1 have "reports_are_fresh poll replica w = (Inr ok, w1)" by (simp add: answers_def bnd_run read_run)
    from reports_are_fresh_run[OF this] True show ?thesis by (simp add: answering_def)
  qed
  then have ok: "ok \<longleftrightarrow> answering env poll w replica" and w1: "w_now w1 = w_now w" "w_seen_healthy w1 = w_seen_healthy w"
    by blast+
  have seen: "w_seen_healthy w3 = w_seen_healthy w2" if "machine_redis_for_replica replica w2 = (Inr h, w3)" for h w2 w3
    using that by (auto simp: machine_redis_for_replica_def bnd_run read_run modify_run ret_run raise_run Let_def
      split: if_splits option.splits)
  show ?thesis
  proof (cases ok)
    case True
    from 2 True obtain w2 where b: "(if ?db \<and> rid \<notin> w_seen_healthy w1 then
              bnd (machine_redis_for_replica replica) (\<lambda>h.
                tell h (rd_set (status_key (fld replica ''address'')) (Raw ''healthy'')))
            else ret ()) w1 = (Inr (), w2)" and h: "healthy" "w' = w2\<lparr>w_seen_healthy := insert rid (w_seen_healthy w2)\<rparr>"
      unfolding settle_health_def
      by (simp add: bnd_Inr[OF read_run]) (elim bnd_InrE, simp add: mark_seen_def modify_run ret_run)
    have "w_seen_healthy w2 = w_seen_healthy w1"
      using b seen by (auto elim!: bnd_InrE dest!: tell_InrD simp: ret_run split: if_splits)
    with h True ok w1 show ?thesis by simp
  next
    case False
    with 2 ok w1 show ?thesis by (auto simp: settle_health_def bnd_run read_run ret_run)
  qed
qed


definition quiet_world :: world where
  "quiet_world = launch_world\<lparr>w_down := (\<lambda>h. h = ''10.0.0.5''), w_now := 100\<rparr>"

definition quiet_replica :: hash where
  "quiet_replica = [(''agent_name'', Raw ''a''), (''private_host'', Raw ''10.0.0.5''), (''address'', Raw ''h:1'')]"

theorem health_verdict_witness:
  "\<exists>w'. is_healthy demo_env 5 quiet_replica ''a-1'' quiet_world = (Inr True, w') \<and> ''a-1'' \<in> w_seen_healthy w'"
proof -
  have open1: "port_is_open demo_env t quiet_replica" for t
    by (simp add: port_is_open_def quiet_replica_def fld_def rpartition_def int_str_def strip_def is_space_def digit_val_def
        demo_env_def)
  have r: "fld quiet_replica ''private_host'' = ''10.0.0.5''" "fld quiet_replica ''agent_name'' = ''a''"
    "need quiet_replica ''agent_name'' = Inr (Raw ''a'')" "need quiet_replica ''address'' = Inr (Raw ''h:1'')"
    by (simp_all add: quiet_replica_def fld_def need_def)
  have q: "w_down quiet_world h \<longleftrightarrow> h = ''10.0.0.5''" "w_clients quiet_world = [''localhost'', ''10.0.0.5'']"
    "w_specs quiet_world = []" "w_seen_healthy quiet_world = {}" for h
    by (simp_all add: quiet_world_def launch_world_def)
  have a: "answering demo_env 5 quiet_world quiet_replica"
    using open1 by (simp add: answering_def machine_host_def r q)
  have "\<exists>b w'. is_healthy demo_env 5 quiet_replica ''a-1'' quiet_world = (Inr b, w')"
    using open1
    by (simp add: is_healthy_def answers_def bnd_run of_res_run read_run reports_are_fresh_def machine_redis_for_replica_def
        attempt_run ask_run ret_run settle_health_def mark_seen_def modify_run is_database_agent_def spec_by_name_def Let_def r q)
      blast
  then obtain b w' where h: "is_healthy demo_env 5 quiet_replica ''a-1'' quiet_world = (Inr b, w')" by blast
  from health_verdict[OF h] a h show ?thesis by auto
qed

section \<open>What a removal leaves of the machines\<close>

definition machine_is :: "string \<Rightarrow> hash \<Rightarrow> world \<Rightarrow> bool" where
  "machine_is i rec w \<longleftrightarrow> machine_record w i = rec"

lemma machine_is_upd [simp]:
  "machine_is i rec (w\<lparr>w_clients := c\<rparr>) = machine_is i rec w"
  "machine_is i rec (w\<lparr>w_now := t\<rparr>) = machine_is i rec w"
  "machine_is i rec (w\<lparr>w_seen_healthy := s\<rparr>) = machine_is i rec w"
  by (simp_all add: machine_is_def machine_record_def)

lemma machine_is_tell:
  "(\<And>r. h = LOCAL \<Longrightarrow> rd_hgetall (machine_key i) (f r) = rd_hgetall (machine_key i) r) \<Longrightarrow>
   keeps (machine_is i rec) (tell h f)"
  by (rule keeps_tell) (auto simp: machine_is_def machine_record_def)

lemma machine_is_quiet: "(\<And>w. keeps (same_but_commands w) m) \<Longrightarrow> keeps (machine_is i rec) m"
  unfolding keeps_def machine_is_def machine_record_def using sbcD(1) by (metis sbc_refl)

lemma machine_keys [simp]:
  "machine_key i \<noteq> instance_key j" "instance_key j \<noteq> machine_key i"
  "machine_key i \<noteq> ROUTING_ADDRESSES_KEY" "machine_key i \<noteq> ROUTING_STATEFUL_KEY" "machine_key i \<noteq> ROUTING_REPLICAS_KEY"
  "machine_key i \<noteq> LAUNCH_ERRORS_KEY"
  by (simp_all add: machine_key_def instance_key_def routing_keys LAUNCH_ERRORS_KEY_def)

lemma machine_not_status [simp]: "machine_key i \<noteq> status_key a"
  by (simp add: machine_key_def status_key_def)

lemma machine_not_samples: "is_replica_id j \<Longrightarrow> machine_key i \<noteq> replica_samples_key j"
proof
  assume j: "is_replica_id j" and e: "machine_key i = replica_samples_key j"
  have "takeWhile (\<lambda>c. c \<noteq> CHR '':'') (replica_samples_key j) = j"
    using j by (auto simp: replica_samples_key_def is_replica_id_def takeWhile_append)
  moreover have "takeWhile (\<lambda>c. c \<noteq> CHR '':'') (machine_key i) = ''machine_record''"
    by (simp add: machine_key_def)
  ultimately have "j = ''machine_record''" using e by simp
  with j show False by (simp add: is_replica_id_def)
qed

lemma machine_is_routing [simp]:
  "rd_hgetall (machine_key i) (forget_agent s r) = rd_hgetall (machine_key i) r"
  "rd_hgetall (machine_key i) (mark_agent st n r) = rd_hgetall (machine_key i) r"
  "rd_hgetall (machine_key i) (write_routes n x y r) = rd_hgetall (machine_key i) r"
  by (simp_all add: forget_agent_def mark_agent_def write_routes_def Let_def rd_hset_def hgetall_hset_multiple hgetall_hdel_other)

lemma machine_is_redis: "keeps (machine_is i rec) (machine_redis_for_replica replica)"
  by (rule keeps_machine_redis) simp

lemma machine_is_republish: "keeps (machine_is i rec) republish"
  unfolding republish_def remove_unused_redis_clients_def publish_routing_snapshot_def publish_target_def publish_agent_def
  by (intro keeps_bnd keeps_ask keeps_if keeps_raise keeps_read keeps_for_each keeps_catch keeps_ret keeps_of_res
      machine_is_tell keeps_modify) simp_all

lemma machine_is_drain: "keeps (machine_is i rec) (drain (instance_key rid) replica)"
  unfolding drain_def mark_draining_def is_idle_def Let_def
  by (intro keeps_bnd keeps_case_option keeps_ret keeps_read machine_is_tell machine_is_redis keeps_of_res keeps_ask keeps_if)
    (simp_all add: rd_hset_def hgetall_hset_multiple)

lemma machine_is_delete_record:
  "is_replica_id rid \<Longrightarrow> keeps (machine_is i rec) (delete_replica_record rid replica)"
  unfolding delete_replica_record_def
  by (intro keeps_bnd machine_is_tell keeps_of_res) (simp_all add: machine_not_samples)

lemma machine_is_clear_status: "keeps (machine_is i rec) (delete_controller_status replica)"
  unfolding delete_controller_status_def Let_def
  by (intro keeps_catch keeps_bnd keeps_read keeps_of_res machine_is_tell keeps_ret) simp

lemma machine_is_remove_replica: "is_replica_id rid \<Longrightarrow> keeps (machine_is i rec) (remove_replica env rid d)"
  unfolding remove_replica_def Let_def
  by (intro keeps_bnd keeps_ask keeps_if keeps_ret machine_is_drain machine_is_clear_status machine_is_delete_record
      machine_is_republish machine_is_quiet quiet_remove_container)

lemma machine_is_healthy: "keeps (machine_is i rec) (is_healthy env poll replica rid)"
  unfolding is_healthy_def answers_def settle_health_def reports_are_fresh_def mark_seen_def
  by (intro keeps_bnd keeps_of_res keeps_read keeps_if keeps_ret machine_is_redis keeps_attempt keeps_ask machine_is_tell keeps_modify)
    simp_all

lemma machine_is_remove_now: "is_replica_id rid \<Longrightarrow> keeps (machine_is i rec) (remove_without_draining env rid replica why)"
  unfolding remove_without_draining_def forget_seen_def
  by (intro keeps_bnd keeps_if keeps_ret machine_is_remove_replica keeps_modify machine_is_quiet quiet_dump_log) simp_all

lemma machine_is_drain_replica: "is_replica_id rid \<Longrightarrow> keeps (machine_is i rec) (drain_replica env poll rid replica why)"
  unfolding drain_replica_def forget_seen_def
  by (intro keeps_bnd keeps_of_res keeps_read keeps_if keeps_ret machine_is_remove_now machine_is_healthy
      machine_is_remove_replica keeps_modify) simp_all

lemma machine_is_remove_unfinished: "keeps (machine_is i rec) (remove_unfinished env)"
proof (rule keepsI)
  fix w assume P: "machine_is i rec w"
  obtain js where js: "rd_scan ''agent_instance:'' (w_servers w LOCAL) = map instance_key js"
    using scanned_instances by blast
  have one: "keeps (machine_is i rec) (remove_unfinished_one env (instance_key j))" for j
    unfolding remove_unfinished_one_def Let_def
    by (intro keeps_bnd keeps_ask keeps_if keeps_ret keeps_attempt keeps_case_sum machine_is_tell machine_is_quiet quiet_remove_container)
      (simp_all add: rd_hset_def hgetall_hset_multiple)
  have "keeps (machine_is i rec) (for_each (map instance_key js) (remove_unfinished_one env))"
    by (intro keeps_for_each) (auto intro: one)
  from keepsD[OF this P] P js show "machine_is i rec (snd (remove_unfinished env w))"
    by (simp add: remove_unfinished_def bnd_run ask_run)
qed

lemma terminate_result:
  obtains (stopped) res where "terminate env ids keep w = (res, w)"
  | (ran) outs :: "(string \<times> (exn + unit)) list" where "snd (terminate env ids keep w) =
        snd (for_each outs (\<lambda>(key, res). case res of Inl _ \<Rightarrow> ret () | Inr _ \<Rightarrow> tell LOCAL (rd_delete [key])) w)"
      "\<And>key res. (key, res) \<in> set outs \<Longrightarrow> \<exists>rec. (key, rec) \<in> set (keyed_machines (w_servers w LOCAL)) \<and> \<not> spared (w_starting w) ids keep rec"
proof (cases "w_down w LOCAL")
  case True
  then show ?thesis using stopped by (simp add: terminate_def bnd_run read_run ask_run)
next
  case False
  show ?thesis
  proof (cases "terminate_jobs env (w_starting w) ids keep (keyed_machines (w_servers w LOCAL))")
    case (Inl e)
    with False show ?thesis using stopped by (simp add: terminate_def bnd_run read_run ask_run of_res_run)
  next
    case (Inr jobs)
    note js = terminate_jobs_set[OF Inr]
    have "\<forall>j\<in>set jobs. \<exists>r. snd j = of_res r" using js by auto
    note p = pure_jobs[OF this, where env = env and w = w]
    show ?thesis
    proof (rule ran)
      show "snd (terminate env ids keep w) = snd (for_each (map (\<lambda>(k, job). (k, fst (job w))) (scheduled env jobs))
          (\<lambda>(key, res). case res of Inl _ \<Rightarrow> ret () | Inr _ \<Rightarrow> tell LOCAL (rd_delete [key])) w)"
        using False Inr p by (simp add: terminate_def bnd_run read_run ask_run of_res_run)
    qed (use js in force)
  qed
qed

lemma delete_keeps:
  assumes "\<forall>out\<in>set outs. fst out \<noteq> k"
  shows "rd_hgetall k (w_servers (snd (for_each outs (\<lambda>(key, res). case res of Inl _ \<Rightarrow> ret () | Inr _ \<Rightarrow> tell LOCAL (rd_delete [key])) w)) LOCAL)
    = rd_hgetall k (w_servers w LOCAL)"
proof -
  let ?P = "\<lambda>v. rd_hgetall k (w_servers v LOCAL) = rd_hgetall k (w_servers w LOCAL)"
  have "keeps ?P (for_each outs (\<lambda>(key, res). case res of Inl _ \<Rightarrow> ret () | Inr _ \<Rightarrow> tell LOCAL (rd_delete [key])))"
    using assms by (intro keeps_for_each) (force intro!: keeps_ret keeps_tell simp: hgetall_delete split: sum.split)
  then show ?thesis by (rule keepsD) simp
qed

lemma spared_kept:
  assumes "spared (w_starting w) ids keep (machine_record w i)"
  shows "machine_record (snd (terminate env ids keep w)) i = machine_record w i"
proof (cases rule: terminate_result[of env ids keep w])
  case (ran outs)
  have "\<forall>out\<in>set outs. fst out \<noteq> machine_key i"
    using ran(2) assms by (force simp: keyed_machines_def machine_record_def)
  then show ?thesis unfolding machine_record_def ran(1) by (rule delete_keeps)
qed simp

lemma terminate_keeps_replicas: "replica_record (snd (terminate env ids keep w)) j = replica_record w j"
proof (cases rule: terminate_result[of env ids keep w])
  case (ran outs)
  have "\<forall>out\<in>set outs. fst out \<noteq> instance_key j"
    using ran(2) by (force simp: keyed_machines_def set_scan instance_key_def)
  then show ?thesis unfolding replica_record_def ran(1) by (rule delete_keeps)
qed simp

lemma drain_jobs_named:
  assumes "map_each recs (drain_job env poll ids) w = (Inr jobs, w')"
    and "\<forall>rec\<in>set recs. is_replica_id (fld rec ''replica_id'')"
  shows "\<forall>(k, job) \<in> set (concat jobs). keeps (machine_is i r) job"
  using assms
proof (induction recs arbitrary: w jobs)
  case (Cons rec recs)
  then obtain js w1 jss where 1: "drain_job env poll ids rec w = (Inr js, w1)"
    and 2: "map_each recs (drain_job env poll ids) w1 = (Inr jss, w')" and j: "jobs = js # jss"
    by (auto elim!: bnd_InrE simp: ret_run)
  have "\<forall>(k, job) \<in> set js. keeps (machine_is i r) job"
    using 1 Cons.prems(2) machine_is_drain_replica unfolding drain_job_def
    by (auto elim!: bnd_InrE simp: of_res_run ret_run split: if_splits)
  with Cons.IH[OF 2] Cons.prems(2) j show ?case by auto
qed (simp add: ret_run)

text \<open>C37: a machine goes only once nothing is on it: when a step of termination has deleted a machine's
  record, no replica record, finished or not, names that machine.\<close>

theorem machine_vacated_before_termination:
  assumes "terminate_machines env poll ids w = (Inr (), w')"
    and "\<forall>rec\<in>set (list_replicas (w_servers w LOCAL) None). is_replica_id (fld rec ''replica_id'')"
    and "map_of (machine_record w i) ''launch_id'' = Some (Raw i)" and "machine_record w' i = []"
  shows "map_of (replica_record w' j) ''machine'' \<noteq> Some (Raw i)"
proof
  assume on: "map_of (replica_record w' j) ''machine'' = Some (Raw i)"
  let ?M = "machine_is i (machine_record w i)"
  from assms(1) obtain jobs w1 outs w2 where
    1: "map_each (list_replicas (w_servers w LOCAL) None) (drain_job env poll ids) w = (Inr jobs, w1)"
    and 2: "run_in_parallel env (concat jobs) w1 = (Inr outs, w2)"
    and 3: "catch (bnd (remove_unfinished env) (\<lambda>_. bnd (ask LOCAL occupied_machines) (\<lambda>occupied. terminate env ids occupied)))
       (\<lambda>_. ret ()) w2 = (Inr (), w')"
    unfolding terminate_machines_def by (elim bnd_InrE) (auto dest!: ask_InrD)
  have M1: "?M w1"
  proof -
    have "keeps ?M (map_each (list_replicas (w_servers w LOCAL) None) (drain_job env poll ids))"
      unfolding drain_job_def by (intro keeps_map_each keeps_bnd keeps_of_res keeps_if keeps_ret machine_is_redis)
    from keepsD[OF this, of w] 1 show ?thesis by (simp add: machine_is_def)
  qed
  have M2: "?M w2"
  proof -
    have "keeps ?M (run_in_parallel env (concat jobs))"
      using drain_jobs_named[OF 1 assms(2)] by (intro keeps_run_in_parallel) blast
    from keepsD[OF this M1] 2 show ?thesis by simp
  qed
  obtain r w3 where u: "remove_unfinished env w2 = (r, w3)" by fastforce
  have M3: "?M w3" using keepsD[OF machine_is_remove_unfinished M2, of env] u by simp
  have "machine_record w i \<noteq> []" using assms(3) by auto
  show False
  proof (cases "\<exists>v. r = Inr v \<and> \<not> w_down w3 LOCAL")
    case False
    with 3 u have "w' = w3" by (auto simp: catch_run bnd_run ask_run ret_run split: sum.splits)
    with M3 assms(4) \<open>machine_record w i \<noteq> []\<close> show False by (simp add: machine_is_def)
  next
    case True
    let ?occ = "occupied_machines (w_servers w3 LOCAL)"
    from True 3 u have w': "w' = snd (terminate env ids ?occ w3)"
      by (auto simp: catch_run bnd_run ask_run ret_run split: sum.splits prod.splits)
    with on have "map_of (replica_record w3 j) ''machine'' = Some (Raw i)"
      by (simp add: terminate_keeps_replicas)
    then have "Some (Raw i) \<in> set ?occ"
      using hgetall_some_scanned[of "instance_key j" "w_servers w3 LOCAL" "''agent_instance:''"]
      by (force simp: occupied_machines_def rd_hget_def replica_record_def instance_key_def)
    then have "spared (w_starting w3) ids ?occ (machine_record w3 i)"
      using M3 assms(3) by (simp add: spared_def machine_is_def)
    from spared_kept[OF this] w' M3 assms(4) \<open>machine_record w i \<noteq> []\<close> show False by (simp add: machine_is_def)
  qed
qed

definition vacant_world :: world where
  "vacant_world = launch_world\<lparr>w_servers := (\<lambda>_. empty_redis\<lparr>rd_hashes := [(machine_key ''m1'', m1_record)]\<rparr>)\<rparr>"

lemma vacant_facts [simp]:
  "rd_scan ''agent_instance:'' (w_servers vacant_world h) = []"
  "keyed_machines (w_servers vacant_world h) = [(machine_key ''m1'', m1_record)]"
  "machine_record vacant_world ''m1'' = m1_record" "w_down vacant_world h = False" "w_starting vacant_world = {}"
  by (simp_all add: vacant_world_def rd_scan_def machine_key_def keyed_machines_def rd_hgetall_def machine_record_def
      launch_world_def empty_redis_def)

theorem machine_vacated_before_termination_witness:
  "\<exists>w'. terminate_machines demo_env 5 None vacant_world = (Inr (), w') \<and> machine_record w' ''m1'' = [] \<and>
     map_of (replica_record w' ''a-1'') ''machine'' \<noteq> Some (Raw ''m1'')"
proof -
  have m: "fld m1_record ''provider'' = ''ec2-pool''" "need m1_record ''provider'' = Inr (Raw ''ec2-pool'')"
    "map_of m1_record ''launch_id'' = Some (Raw ''m1'')"
    by (simp_all add: m1_record_def fld_def need_def)
  have l: "list_replicas (w_servers vacant_world h) None = []" for h by (simp add: list_replicas_def)
  have "\<exists>w'. terminate_machines demo_env 5 None vacant_world = (Inr (), w') \<and> machine_record w' ''m1'' = []"
    by (simp add: terminate_machines_def bnd_run ask_run l ret_run run_in_parallel_def catch_run remove_unfinished_def
        occupied_machines_def terminate_def read_run of_res_run spared_def m scheduled_def attempt_run provider_terminate_def
        by_provider_def tell_run Let_def machine_record_def)
  then obtain w' where t: "terminate_machines demo_env 5 None vacant_world = (Inr (), w')" "machine_record w' ''m1'' = []" by blast
  from machine_vacated_before_termination[OF t(1), of "''m1''" "''a-1''"] t m(3) show ?thesis by (simp add: l)
qed

end
