(* ===== verification/Governance.thy ===== *)
theory Governance
  imports Redis_Client Py_Values
begin

text \<open>
  Every governance decision (\<open>controller/governance.py\<close>): parsing and seeding the governance
  document, one snapshot of the rules, which calls are refused and which model an agent's LLM
  calls switch to. Documents are Python values; \<open>fromiso\<close> is \<open>datetime.fromisoformat\<close>, giving the
  microseconds of a text's clock and its offset from UTC, and is a parameter.
\<close>

section \<open>Keys and data\<close>

definition POLICY_RULES_KEY :: string where "POLICY_RULES_KEY = ''policy:rules''"
definition CONFIG_KEY :: string where "CONFIG_KEY = ''governance:config''"
definition SPEND_KEY :: string where "SPEND_KEY = ''governance:spend''"
definition UP_KEY :: string where "UP_KEY = ''routing_table:up''"
definition ENDPOINT_AGENT_NAME :: string where "ENDPOINT_AGENT_NAME = ''endpoint''"
definition ACTION_KINDS :: "string list" where "ACTION_KINDS = [''switch_model'', ''deny'']"

record refusal =
  error_name :: string
  message :: string

record rules =
  r_policy :: val
  r_agents :: dict
  r_spend :: "(string \<times> pyfloat) list"
  r_up :: "string list"

type_synonym iso_reader = "string \<Rightarrow> (int \<times> int option) option"

section \<open>Parsing the document\<close>

definition utc_text :: "int \<Rightarrow> int option \<Rightarrow> exn + string" where
  "utc_text t offset =
     (let u = t - (case offset of None \<Rightarrow> 0 | Some d \<Rightarrow> d) in
      if in_calendar u then Inr (iso_ms u) else Inl OverflowError)"

definition zulu :: "string \<Rightarrow> string" where
  "zulu s = concat (map (\<lambda>c. if c = CHR ''Z'' then ''+00:00'' else [c]) s)"

definition since_of :: "iso_reader \<Rightarrow> val \<Rightarrow> string \<Rightarrow> exn + string" where
  "since_of fromiso v path = (case v of
       VTime t z \<Rightarrow> utc_text t z
     | VStr s \<Rightarrow> (case fromiso (zulu s) of
           None \<Rightarrow> Inl (ValueError (path @ '': not an ISO-8601 date-time''))
         | Some (t, z) \<Rightarrow> utc_text t z)
     | _ \<Rightarrow> Inl (ValueError (path @ '': must be an ISO-8601 date-time'')))"

text \<open>The negation of a positive number; a NaN is not below or at zero.\<close>

definition bad_amount :: "val \<Rightarrow> bool" where
  "bad_amount v = (case v of VInt i \<Rightarrow> i \<le> 0 | VFloat f \<Rightarrow> fl_le f (Fin 0) | _ \<Rightarrow> True)"

definition spend_rule :: "val \<Rightarrow> string \<Rightarrow> exn + val" where
  "spend_rule rule path = (case rule of
       VDict d \<Rightarrow>
         if bad_amount (dget d ''above_usd'') then Inl (ValueError (path @ ''.above_usd: must be a positive number''))
         else (case dget d ''action'' of
             VDict action \<Rightarrow>
               if dget action ''kind'' = VStr ''deny'' then
                 Inr (VDict [(''above_usd'', dget d ''above_usd''), (''action'', VDict [(''kind'', VStr ''deny'')])])
               else if dget action ''kind'' = VStr ''switch_model'' then
                 (case dget action ''model'' of
                    VStr (c # cs) \<Rightarrow> Inr (VDict [(''above_usd'', dget d ''above_usd''),
                      (''action'', VDict [(''kind'', VStr ''switch_model''), (''model'', VStr (c # cs))])])
                  | _ \<Rightarrow> Inl (ValueError (path @ ''.action.model: switch_model needs a model id'')))
               else Inl (ValueError (path @ ''.action.kind: must be one of switch_model, deny''))
           | _ \<Rightarrow> Inl (ValueError (path @ ''.action.kind: must be one of switch_model, deny'')))
     | _ \<Rightarrow> Inl (ValueError (path @ '': must be a mapping'')))"

definition name_list :: "val \<Rightarrow> val list option" where
  "name_list v = (case v of
       VList xs \<Rightarrow> if list_all (\<lambda>x. case x of VStr s \<Rightarrow> s \<noteq> [] | _ \<Rightarrow> False) xs then Some xs else None
     | _ \<Rightarrow> None)"

definition spend_of :: "iso_reader \<Rightarrow> val \<Rightarrow> string \<Rightarrow> exn + val" where
  "spend_of fromiso v path = (case v of
       VNone \<Rightarrow> Inr VNone
     | VDict spend \<Rightarrow> (case dget spend ''rules'' of
           VList rs \<Rightarrow>
             res_bnd (res_all (\<lambda>(i, r). spend_rule r (path @ ''.rules['' @ str_nat i @ '']'')) (enumerate 0 rs)) (\<lambda>parsed.
             if dget spend ''since'' = VNone then Inr (VDict [(''rules'', VList parsed)])
             else res_bnd (since_of fromiso (dget spend ''since'') (path @ ''.since'')) (\<lambda>since.
               Inr (VDict [(''rules'', VList parsed), (''since'', VStr since)])))
         | _ \<Rightarrow> Inl (ValueError (path @ ''.rules: must be a list'')))
     | _ \<Rightarrow> Inl (ValueError (path @ '': must be a mapping'')))"

definition agent_rules :: "iso_reader \<Rightarrow> val \<Rightarrow> string \<Rightarrow> exn + val" where
  "agent_rules fromiso rules path = (case rules of
       VDict d \<Rightarrow>
         res_bnd (if \<not> dhas d ''requires'' then Inr []
                  else case name_list (dget d ''requires'') of
                      None \<Rightarrow> Inl (ValueError (path @ ''.requires: must be a list of agent names''))
                    | Some ns \<Rightarrow> Inr [(''requires'', VList ns)]) (\<lambda>requires.
         res_bnd (if \<not> dhas d ''spend'' then Inr []
                  else res_bnd (spend_of fromiso (dget d ''spend'') (path @ ''.spend'')) (\<lambda>s. Inr [(''spend'', s)])) (\<lambda>spend.
         Inr (VDict (requires @ spend))))
     | _ \<Rightarrow> Inl (ValueError (path @ '': must be a mapping'')))"

definition parse :: "iso_reader \<Rightarrow> val \<Rightarrow> exn + dict" where
  "parse fromiso config = (case config of
       VDict d \<Rightarrow> (case dget d ''agents'' of
           VNone \<Rightarrow> Inr []
         | VDict agents \<Rightarrow> res_all (\<lambda>(name, rules).
             res_bnd (agent_rules fromiso rules (''governance.yaml: agents.'' @ name)) (\<lambda>v. Inr (name, v))) agents
         | _ \<Rightarrow> Inl (ValueError ''governance.yaml: agents: must be a mapping of agent names''))
     | _ \<Rightarrow> Inl (ValueError ''governance.yaml: must be a mapping with an agents mapping''))"

section \<open>Seeding the stored document\<close>

text \<open>The entries of \<open>dict(x or {})\<close>; the caller has parsed the stored document, so its agents are
  a mapping or missing.\<close>

definition entries :: "val \<Rightarrow> exn + dict" where
  "entries v = (if \<not> truthy v then Inr [] else case v of VDict d \<Rightarrow> Inr d | _ \<Rightarrow> Inl (TypeError ''dict''))"

definition counted_from :: "rat \<Rightarrow> val \<Rightarrow> exn + val" where
  "counted_from now rules = (case rules of
       VDict d \<Rightarrow> (case dget d ''spend'' of
           VDict spend \<Rightarrow>
             if dhas spend ''since'' then Inr rules
             else res_bnd (utc_text (py_round (now * 1000000)) (Some 0)) (\<lambda>t.
               Inr (VDict (AList.update ''spend'' (VDict (AList.update ''since'' (VStr t) spend)) d)))
         | _ \<Rightarrow> Inr rules)
     | _ \<Rightarrow> Inr rules)"

fun seed_agents :: "rat \<Rightarrow> dict \<Rightarrow> dict \<Rightarrow> exn + dict" where
  "seed_agents now agents [] = Inr agents"
| "seed_agents now agents ((name, rules) # rest) =
     (if dhas agents name then seed_agents now agents rest
      else res_bnd (counted_from now rules) (\<lambda>v. seed_agents now (agents @ [(name, v)]) rest))"

definition seed :: "val \<Rightarrow> dict \<Rightarrow> rat \<Rightarrow> exn + val" where
  "seed existing from_yaml now =
     res_bnd (entries existing) (\<lambda>d.
     res_bnd (entries (dget d ''agents'')) (\<lambda>agents.
     res_bnd (seed_agents now agents from_yaml) (\<lambda>merged. Inr (VDict [(''agents'', VDict merged)]))))"

section \<open>One snapshot of the rules\<close>

text \<open>The spend document: anything unreadable is no spend.\<close>

definition spend_entry :: "string \<times> val \<Rightarrow> exn + (string \<times> pyfloat) list" where
  "spend_entry = (\<lambda>(name, usd). case usd of
       VInt i \<Rightarrow> res_bnd (float_of_int i) (\<lambda>f. Inr [(name, f)])
     | VFloat f \<Rightarrow> Inr [(name, f)]
     | _ \<Rightarrow> Inr [])"

definition spend_doc :: "rtext option \<Rightarrow> exn + (string \<times> pyfloat) list" where
  "spend_doc raw = (case raw of
       None \<Rightarrow> Inr []
     | Some t \<Rightarrow> (case loads t of
           Some (VDict d) \<Rightarrow> res_bnd (res_all spend_entry d) (\<lambda>es. Inr (concat es))
         | _ \<Rightarrow> Inr []))"

definition agents_doc :: "iso_reader \<Rightarrow> rtext option \<Rightarrow> rules option \<Rightarrow> exn + dict" where
  "agents_doc fromiso raw previous =
     (if \<not> opt_truthy raw then Inr []
      else case (case loads (the raw) of None \<Rightarrow> Inl (ValueError ''governance:config'') | Some v \<Rightarrow> parse fromiso v) of
          Inl (ValueError _) \<Rightarrow> Inr (case previous of None \<Rightarrow> [] | Some p \<Rightarrow> r_agents p)
        | res \<Rightarrow> res)"

definition load_rules :: "iso_reader \<Rightarrow> redis \<Rightarrow> rules option \<Rightarrow> exn + rules" where
  "load_rules fromiso r previous =
     (let policy_raw = rd_get POLICY_RULES_KEY r in
      res_bnd (if \<not> opt_truthy policy_raw then Inr (VList [])
               else case loads (the policy_raw) of None \<Rightarrow> Inl (ValueError ''policy:rules'') | Some v \<Rightarrow> Inr v) (\<lambda>policy.
      res_bnd (agents_doc fromiso (rd_get CONFIG_KEY r) previous) (\<lambda>agents.
      res_bnd (spend_doc (rd_get SPEND_KEY r)) (\<lambda>spend.
      Inr \<lparr>r_policy = policy, r_agents = agents, r_spend = spend, r_up = rd_smembers UP_KEY r\<rparr>))))"

section \<open>Decisions\<close>

text \<open>\<open>all(context.get(k) == v ...)\<close>: a context that is no mapping is only asked when the rule
  matches on something.\<close>

definition context_meets :: "val \<Rightarrow> dict \<Rightarrow> exn + bool" where
  "context_meets context m = (case context of
       VDict c \<Rightarrow> Inr (list_all (\<lambda>(k, v). py_eq (dget c k) v) m)
     | _ \<Rightarrow> if m = [] then Inr True else Inl (AttributeError ''get''))"

definition grants :: "val \<Rightarrow> string \<Rightarrow> exn + bool" where
  "grants access agent = (case access of
       VStr s \<Rightarrow> Inr (s = ''all'' \<or> contains agent s)
     | VList xs \<Rightarrow> Inr (VStr agent \<in> set xs)
     | VDict d \<Rightarrow> Inr (dhas d agent)
     | _ \<Rightarrow> Inl (TypeError ''in''))"

fun first_match :: "val list \<Rightarrow> string \<Rightarrow> val \<Rightarrow> exn + bool" where
  "first_match [] agent context = Inr False"
| "first_match (rule # rest) agent context = (case rule of
       VDict d \<Rightarrow> (case dget_or d ''match'' (VDict []) of
           VDict m \<Rightarrow> res_bnd (context_meets context m) (\<lambda>met.
             if met then grants (dget_or d ''access'' (VList [])) agent else first_match rest agent context)
         | _ \<Rightarrow> Inl (AttributeError ''items''))
     | _ \<Rightarrow> Inl (AttributeError ''get''))"

definition policy_allows :: "val \<Rightarrow> string \<Rightarrow> val \<Rightarrow> exn + bool" where
  "policy_allows policy agent context =
     (if agent = ENDPOINT_AGENT_NAME \<or> \<not> truthy policy then Inr True
      else case policy of
          VList rs \<Rightarrow> first_match rs agent context
        | VDict _ \<Rightarrow> Inl (AttributeError ''get'')
        | VStr _ \<Rightarrow> Inl (AttributeError ''get'')
        | _ \<Rightarrow> Inl (TypeError ''not iterable''))"

text \<open>\<open>rules.agents.get(agent, {})\<close>, a mapping in every snapshot \<open>load\<close> makes.\<close>

definition rules_of :: "rules \<Rightarrow> string \<Rightarrow> dict" where
  "rules_of rules agent = (case dget (r_agents rules) agent of VDict d \<Rightarrow> d | _ \<Rightarrow> [])"

definition usd_of :: "rules \<Rightarrow> string \<Rightarrow> pyfloat" where
  "usd_of rules agent = (case map_of (r_spend rules) agent of None \<Rightarrow> Fin 0 | Some f \<Rightarrow> f)"

definition threshold :: "val \<Rightarrow> pyfloat" where
  "threshold rule = (case rule of
       VDict d \<Rightarrow> (case num_of (dget d ''above_usd'') of Some f \<Rightarrow> f | None \<Rightarrow> NaN)
     | _ \<Rightarrow> NaN)"

text \<open>\<open>max(rules, key=threshold)\<close>: the first of the largest.\<close>

fun highest :: "val \<Rightarrow> val list \<Rightarrow> val" where
  "highest m [] = m"
| "highest m (r # rs) = highest (if fl_less (threshold m) (threshold r) then r else m) rs"

definition tripped :: "rules \<Rightarrow> string \<Rightarrow> val option" where
  "tripped rules agent = (case dget (rules_of rules agent) ''spend'' of
       VDict spend \<Rightarrow> (case dget spend ''rules'' of
           VList rs \<Rightarrow> (case filter (\<lambda>r. fl_less (threshold r) (usd_of rules agent)) rs of
               [] \<Rightarrow> None
             | r # passed \<Rightarrow> Some (highest r passed))
         | _ \<Rightarrow> None)
     | _ \<Rightarrow> None)"

definition action_of :: "val \<Rightarrow> dict" where
  "action_of rule = (case rule of
       VDict d \<Rightarrow> (case dget d ''action'' of VDict a \<Rightarrow> a | _ \<Rightarrow> []) | _ \<Rightarrow> [])"

definition usd_text :: "pyfloat \<Rightarrow> string" where
  "usd_text f = rstrip_char CHR ''.'' (rstrip_char CHR ''0'' (fixed2 f))"

definition missing_dependency :: "rules \<Rightarrow> string \<Rightarrow> string option" where
  "missing_dependency rules agent = (case dget (rules_of rules agent) ''requires'' of
       VList ns \<Rightarrow> find (\<lambda>n. n \<notin> set (r_up rules)) (map (\<lambda>v. case v of VStr s \<Rightarrow> s | _ \<Rightarrow> []) ns)
     | _ \<Rightarrow> None)"

definition spend_message :: "rules \<Rightarrow> string \<Rightarrow> val \<Rightarrow> string" where
  "spend_message rules agent rule =
     (let since = (case dget (rules_of rules agent) ''spend'' of
            VDict spend \<Rightarrow> (case dget spend ''since'' of VStr s \<Rightarrow> s | _ \<Rightarrow> ''the deploy'') | _ \<Rightarrow> ''the deploy'') in
      agent @ '' is over its $'' @ usd_text (threshold rule) @ '' cap ($'' @ fixed2 (usd_of rules agent) @
      '' spent since '' @ since @ '').'')"

definition refuse_call :: "rules \<Rightarrow> string \<Rightarrow> string \<Rightarrow> val \<Rightarrow> exn + refusal option" where
  "refuse_call rules agent function_name context =
     res_bnd (policy_allows (r_policy rules) agent context) (\<lambda>allowed.
     if \<not> allowed then
       Inr (Some \<lparr>error_name = ''PolicyDenied'',
         message = ''Policy denied the call to '' @ agent @ ''.'' @ function_name @
           '': no rule in policy.yaml allows it for this request.''\<rparr>)
     else case missing_dependency rules agent of
         Some dependency \<Rightarrow>
           Inr (Some \<lparr>error_name = ''DependencyDown'',
             message = agent @ '' requires '' @ dependency @ '', which has no healthy replica right now.''\<rparr>)
       | None \<Rightarrow> (case tripped rules agent of
             Some rule \<Rightarrow>
               if dget (action_of rule) ''kind'' = VStr ''deny''
               then Inr (Some \<lparr>error_name = ''SpendLimit'', message = spend_message rules agent rule\<rparr>)
               else Inr None
           | None \<Rightarrow> Inr None))"

definition model_for :: "rules \<Rightarrow> string \<Rightarrow> string option" where
  "model_for rules agent = (case tripped rules agent of
       None \<Rightarrow> None
     | Some rule \<Rightarrow>
         if dget (action_of rule) ''kind'' \<noteq> VStr ''switch_model'' then None
         else (case dget (action_of rule) ''model'' of VStr m \<Rightarrow> Some m | _ \<Rightarrow> None))"

section \<open>Well-formed rules\<close>

definition wf_spend_rule :: "val \<Rightarrow> bool" where
  "wf_spend_rule r \<longleftrightarrow> (case r of
       VDict d \<Rightarrow> \<not> bad_amount (dget d ''above_usd'') \<and> (case dget d ''action'' of
           VDict a \<Rightarrow> dget a ''kind'' = VStr ''deny'' \<or>
             (dget a ''kind'' = VStr ''switch_model'' \<and> (case dget a ''model'' of VStr m \<Rightarrow> m \<noteq> [] | _ \<Rightarrow> False))
         | _ \<Rightarrow> False)
     | _ \<Rightarrow> False)"

definition wf_spend :: "val \<Rightarrow> bool" where
  "wf_spend v \<longleftrightarrow> (case v of
       VNone \<Rightarrow> True
     | VDict spend \<Rightarrow> (case dget spend ''rules'' of VList rs \<Rightarrow> list_all wf_spend_rule rs | _ \<Rightarrow> False) \<and>
         (dhas spend ''since'' \<longrightarrow> (case dget spend ''since'' of VStr _ \<Rightarrow> True | _ \<Rightarrow> False))
     | _ \<Rightarrow> False)"

definition wf_agent :: "val \<Rightarrow> bool" where
  "wf_agent v \<longleftrightarrow> (case v of
       VDict d \<Rightarrow> (dhas d ''requires'' \<longrightarrow> name_list (dget d ''requires'') \<noteq> None) \<and>
         (dhas d ''spend'' \<longrightarrow> wf_spend (dget d ''spend''))
     | _ \<Rightarrow> False)"

definition wf_rules :: "rules \<Rightarrow> bool" where
  "wf_rules rules \<longleftrightarrow> list_all (\<lambda>(_, v). wf_agent v) (r_agents rules)"

lemma spend_rule_wf:
  assumes "spend_rule r path = Inr v"
  shows "wf_spend_rule v"
proof -
  obtain d where r: "r = VDict d" using assms by (cases r) (auto simp: spend_rule_def)
  with assms have amount: "\<not> bad_amount (dget d ''above_usd'')" by (auto simp: spend_rule_def)
  then obtain a where a: "dget d ''action'' = VDict a"
    using assms r by (cases "dget d ''action''") (auto simp: spend_rule_def)
  show ?thesis
  proof (cases "dget a ''kind'' = VStr ''deny''")
    case True
    with assms r a amount show ?thesis by (auto simp: spend_rule_def wf_spend_rule_def dget_def[of "[_, _]"] dget_def[of "[_]"])
  next
    case False
    with assms r a amount have k: "dget a ''kind'' = VStr ''switch_model''" by (auto simp: spend_rule_def split: if_splits)
    then obtain c cs where "dget a ''model'' = VStr (c # cs)"
      using assms r a amount by (cases "dget a ''model''") (auto simp: spend_rule_def split: list.splits)
    with assms r a amount k show ?thesis
      by (auto simp: spend_rule_def wf_spend_rule_def dget_def[of "[_, _]"])
  qed
qed

lemma spend_of_wf:
  assumes "spend_of fromiso v path = Inr s"
  shows "wf_spend s"
proof (cases "v = VNone")
  case False
  then obtain d rs where v: "v = VDict d" "dget d ''rules'' = VList rs"
    using assms by (auto simp: spend_of_def split: val.splits)
  let ?f = "\<lambda>(i, r). spend_rule r (path @ ''.rules['' @ str_nat i @ '']'')"
  from assms v obtain ps where ps: "res_all ?f (enumerate 0 rs) = Inr ps"
    and s: "s = VDict [(''rules'', VList ps)] \<or> (\<exists>t. s = VDict [(''rules'', VList ps), (''since'', VStr t)])"
    by (auto simp: spend_of_def elim!: res_bnd_InrE split: if_splits)
  have "list_all wf_spend_rule ps"
    by (rule res_all_list_all[OF ps]) (auto intro: spend_rule_wf)
  with s show ?thesis by (auto simp: wf_spend_def dget_def dhas_def)
qed (use assms in \<open>simp add: spend_of_def wf_spend_def split: if_splits; auto\<close>)

lemma name_list_twice: "name_list v = Some ns \<Longrightarrow> name_list (VList ns) = Some ns"
  by (cases v) (simp_all add: name_list_def split: if_splits)

lemma agent_rules_wf:
  assumes "agent_rules fromiso rules path = Inr v"
  shows "wf_agent v"
proof -
  obtain d where d: "rules = VDict d"
    using assms by (cases rules) (auto simp: agent_rules_def)
  from assms d obtain req sp where v: "v = VDict (req @ sp)"
    and "(if \<not> dhas d ''requires'' then Inr [] else case name_list (dget d ''requires'') of
           None \<Rightarrow> Inl (ValueError (path @ ''.requires: must be a list of agent names''))
         | Some ns \<Rightarrow> Inr [(''requires'', VList ns)]) = Inr req"
    and "(if \<not> dhas d ''spend'' then Inr [] else
           res_bnd (spend_of fromiso (dget d ''spend'') (path @ ''.spend'')) (\<lambda>s. Inr [(''spend'', s)])) = Inr sp"
    by (simp add: agent_rules_def) (erule res_bnd_InrE, erule res_bnd_InrE, simp, metis)
  then have req: "req = [] \<or> (\<exists>ns. name_list (VList ns) = Some ns \<and> req = [(''requires'', VList ns)])"
    and sp: "sp = [] \<or> (\<exists>s. wf_spend s \<and> sp = [(''spend'', s)])"
    by (auto elim!: res_bnd_InrE split: if_splits option.splits intro: name_list_twice spend_of_wf)
  from req sp show ?thesis
    by (elim disjE exE conjE) (simp_all add: v wf_agent_def dget_def dhas_def)
qed

lemma parse_wf:
  assumes "parse fromiso config = Inr agents"
  shows "list_all (\<lambda>(_, v). wf_agent v) agents"
proof -
  let ?f = "\<lambda>(name, rules). res_bnd (agent_rules fromiso rules (''governance.yaml: agents.'' @ name)) (\<lambda>v. Inr (name, v))"
  from assms obtain as where "agents = [] \<or> res_all ?f as = Inr agents"
    by (auto simp: parse_def split: val.splits)
  then show ?thesis
    by (elim disjE res_all_list_all) (auto elim!: res_bnd_InrE dest: agent_rules_wf)
qed

lemma load_rules_wf:
  assumes "load_rules fromiso r previous = Inr rules" "\<forall>p. previous = Some p \<longrightarrow> wf_rules p"
  shows "wf_rules rules"
proof -
  obtain agents where a: "agents_doc fromiso (rd_get CONFIG_KEY r) previous = Inr agents" "r_agents rules = agents"
    using assms(1) by (auto simp: load_rules_def Let_def elim!: res_bnd_InrE)
  from a(1) have "list_all (\<lambda>(_, v). wf_agent v) agents"
    using assms(2) by (auto simp: agents_doc_def wf_rules_def split: if_splits sum.splits exn.splits option.splits dest: parse_wf)
  with a(2) show ?thesis by (simp add: wf_rules_def)
qed

section \<open>The spend rules as limits\<close>

text \<open>What an agent's spend rules promise: each is a threshold with what happens beyond it, and the
  highest one passed, the first of equal ones, alone decides.\<close>

datatype verdict = Deny | Switch string

definition verdict_of :: "val \<Rightarrow> verdict" where
  "verdict_of rule = (case dget (action_of rule) ''model'' of
       VStr m \<Rightarrow> if dget (action_of rule) ''kind'' = VStr ''switch_model'' then Switch m else Deny
     | _ \<Rightarrow> Deny)"

definition spend_rules :: "rules \<Rightarrow> string \<Rightarrow> val list" where
  "spend_rules rules agent = (case dget (rules_of rules agent) ''spend'' of
       VDict spend \<Rightarrow> (case dget spend ''rules'' of VList rs \<Rightarrow> rs | _ \<Rightarrow> [])
     | _ \<Rightarrow> [])"

definition limits :: "rules \<Rightarrow> string \<Rightarrow> (pyfloat \<times> verdict) list" where
  "limits rules agent = map (\<lambda>r. (threshold r, verdict_of r)) (spend_rules rules agent)"

definition decides :: "(pyfloat \<times> verdict) list \<Rightarrow> pyfloat \<Rightarrow> verdict option \<Rightarrow> bool" where
  "decides ls usd v \<longleftrightarrow> (case v of
       None \<Rightarrow> \<forall>(t, _)\<in>set ls. \<not> fl_less t usd
     | Some w \<Rightarrow> \<exists>pre t post. ls = pre @ (t, w) # post \<and> fl_less t usd \<and>
         (\<forall>(u, _)\<in>set pre. fl_less u usd \<longrightarrow> fl_less u t) \<and> (\<forall>(u, _)\<in>set post. fl_less u usd \<longrightarrow> fl_le u t))"

lemma highest_split:
  "\<forall>x\<in>set (m # rs). threshold x \<noteq> NaN \<Longrightarrow> \<exists>pre post. m # rs = pre @ highest m rs # post \<and>
     (\<forall>x\<in>set pre. fl_less (threshold x) (threshold (highest m rs))) \<and>
     (\<forall>x\<in>set post. fl_le (threshold x) (threshold (highest m rs)))"
proof (induction rs arbitrary: m)
  case Nil
  then show ?case by (auto intro!: exI[of _ "[]"])
next
  case (Cons r rs)
  show ?case
  proof (cases "fl_less (threshold m) (threshold r)")
    case True
    from Cons obtain pre post where s: "r # rs = pre @ highest r rs # post"
      "\<forall>x\<in>set pre. fl_less (threshold x) (threshold (highest r rs))"
      "\<forall>x\<in>set post. fl_le (threshold x) (threshold (highest r rs))" by (metis list.set_intros(2))
    have "fl_less (threshold m) (threshold (highest r rs))"
      using s True by (cases pre) (auto intro: fl_less_trans)
    with True s(2, 3) show ?thesis
      by (intro exI[of _ "m # pre"] exI[of _ post]) (simp add: s(1)[symmetric])
  next
    case False
    from Cons.IH[of m] Cons.prems obtain pre post where s: "m # rs = pre @ highest m rs # post"
      "\<forall>x\<in>set pre. fl_less (threshold x) (threshold (highest m rs))"
      "\<forall>x\<in>set post. fl_le (threshold x) (threshold (highest m rs))" by auto
    have le: "fl_le (threshold r) (threshold m)" using False Cons.prems by (simp add: fl_not_less_le)
    show ?thesis
    proof (cases pre)
      case Nil
      with s have h: "highest m rs = m" "rs = post" by auto
      with s(3) le False show ?thesis by (intro exI[of _ "[]"] exI[of _ "r # post"]) simp
    next
      case (Cons p pre')
      with s le False show ?thesis
        by (intro exI[of _ "m # r # pre'"] exI[of _ post]) (auto intro: fl_le_less_trans)
    qed
  qed
qed

lemma filter_append_split: "filter P ls = xs @ ys \<Longrightarrow> \<exists>us vs. ls = us @ vs \<and> filter P us = xs \<and> filter P vs = ys"
proof (induction ls arbitrary: xs)
  case (Cons l ls)
  show ?case
  proof (cases "P l \<and> xs = []")
    case True
    with Cons.prems show ?thesis by (intro exI[of _ "[]"] exI[of _ "l # ls"]) simp
  next
    case False
    with Cons.prems have "filter P ls = (if P l then tl xs else xs) @ ys" "P l \<longrightarrow> xs = l # tl xs"
      by (cases xs; auto)+
    from Cons.IH[OF this(1)] this(2) obtain us vs where
      "ls = us @ vs" "filter P us = (if P l then tl xs else xs)" "filter P vs = ys" "P l \<longrightarrow> xs = l # tl xs" by blast
    then show ?thesis by (intro exI[of _ "l # us"] exI[of _ vs]) auto
  qed
qed simp

lemma filter_split:
  assumes "filter P ls = pre @ h # post"
  shows "\<exists>pre' post'. ls = pre' @ h # post' \<and> filter P pre' = pre \<and> filter P post' = post \<and> P h"
proof -
  from filter_append_split[OF assms] obtain us vs where s: "ls = us @ vs" "filter P us = pre" "filter P vs = h # post" by blast
  from s(3) obtain ws zs where "vs = ws @ h # zs" "\<forall>w\<in>set ws. \<not> P w" "P h" "post = filter P zs"
    by (auto simp: filter_eq_Cons_iff)
  with s show ?thesis by (intro exI[of _ "us @ ws"] exI[of _ zs]) (simp add: filter_False)
qed

lemma wf_spend_rules:
  assumes "wf_rules rules" "r \<in> set (spend_rules rules agent)"
  shows "wf_spend_rule r"
proof -
  obtain spend where sp: "dget (rules_of rules agent) ''spend'' = VDict spend"
    using assms(2) by (cases "dget (rules_of rules agent) ''spend''") (auto simp: spend_rules_def)
  obtain rs where rs: "dget spend ''rules'' = VList rs" "r \<in> set rs"
    using assms(2) sp by (cases "dget spend ''rules''") (auto simp: spend_rules_def)
  obtain d where d: "dget (r_agents rules) agent = VDict d" "rules_of rules agent = d"
    using sp by (cases "dget (r_agents rules) agent") (auto simp: rules_of_def dget_def)
  then have "(agent, VDict d) \<in> set (r_agents rules)"
    by (auto simp: dget_def split: option.splits dest: map_of_SomeD)
  then have "wf_agent (VDict d)" using assms(1) by (auto simp: wf_rules_def list_all_iff)
  with sp d(2) have "wf_spend (VDict spend)"
    by (auto simp: wf_agent_def dhas_def dget_def split: option.splits)
  with rs show ?thesis by (simp add: wf_spend_def list_all_iff)
qed

lemma tripped_cases:
  "tripped rules agent = (case filter (\<lambda>r. fl_less (threshold r) (usd_of rules agent)) (spend_rules rules agent) of
     [] \<Rightarrow> None | r # passed \<Rightarrow> Some (highest r passed))"
  by (simp add: tripped_def spend_rules_def split: val.split)

lemma not_nan: "fl_less t usd \<Longrightarrow> t \<noteq> NaN"
  by auto

lemma tripped_decides:
  "decides (limits rules agent) (usd_of rules agent) (map_option verdict_of (tripped rules agent))"
proof (cases "filter (\<lambda>r. fl_less (threshold r) (usd_of rules agent)) (spend_rules rules agent)")
  case Nil
  then show ?thesis by (auto simp: tripped_cases decides_def limits_def filter_empty_conv)
next
  case (Cons r passed)
  let ?P = "\<lambda>r. fl_less (threshold r) (usd_of rules agent)"
  have "\<forall>x\<in>set (r # passed). threshold x \<noteq> NaN"
    by (auto simp: Cons[symmetric] dest: not_nan)
  from highest_split[OF this] obtain pre post where h: "r # passed = pre @ highest r passed # post"
    "\<forall>x\<in>set pre. fl_less (threshold x) (threshold (highest r passed))"
    "\<forall>x\<in>set post. fl_le (threshold x) (threshold (highest r passed))" by auto
  obtain pre' post' where s: "spend_rules rules agent = pre' @ highest r passed # post'"
    "filter ?P pre' = pre" "filter ?P post' = post" "?P (highest r passed)"
    using filter_split[of ?P "spend_rules rules agent" pre "highest r passed" post] Cons h(1) by auto
  have t: "tripped rules agent = Some (highest r passed)"
    using Cons by (simp add: tripped_cases)
  have "\<forall>x\<in>set pre'. ?P x \<longrightarrow> fl_less (threshold x) (threshold (highest r passed))"
    "\<forall>x\<in>set post'. ?P x \<longrightarrow> fl_le (threshold x) (threshold (highest r passed))"
    using h(2, 3) s(2, 3) by auto
  with s(4) show ?thesis
    unfolding decides_def limits_def t s(1) option.map option.case
    by (intro exI[of _ "map (\<lambda>r. (threshold r, verdict_of r)) pre'"], intro exI[of _ "threshold (highest r passed)"],
        intro exI[of _ "map (\<lambda>r. (threshold r, verdict_of r)) post'"]) auto
qed

lemma highest_in: "highest m rs \<in> insert m (set rs)"
  by (induction rs arbitrary: m) (auto split: if_splits)

lemma tripped_mem: "tripped rules agent = Some r \<Longrightarrow> r \<in> set (spend_rules rules agent)"
proof (cases "filter (\<lambda>r. fl_less (threshold r) (usd_of rules agent)) (spend_rules rules agent)")
  case (Cons a passed)
  moreover have "highest a passed \<in> set (a # passed)" using highest_in[of a passed] by simp
  moreover assume "tripped rules agent = Some r"
  ultimately have "r \<in> set (filter (\<lambda>r. fl_less (threshold r) (usd_of rules agent)) (spend_rules rules agent))"
    by (simp add: tripped_cases)
  then show ?thesis by simp
qed (simp add: tripped_cases)

lemma wf_verdict:
  assumes "wf_spend_rule r"
  shows "(dget (action_of r) ''kind'' = VStr ''deny'' \<and> verdict_of r = Deny) \<or>
    (\<exists>m. dget (action_of r) ''kind'' = VStr ''switch_model'' \<and> dget (action_of r) ''model'' = VStr m \<and> verdict_of r = Switch m)"
proof -
  obtain d where r: "r = VDict d" using assms by (cases r) (auto simp: wf_spend_rule_def)
  obtain a where a: "dget d ''action'' = VDict a"
    using assms r by (cases "dget d ''action''") (auto simp: wf_spend_rule_def)
  have act: "action_of r = a" by (simp add: r a action_of_def)
  show ?thesis
    using assms r a act by (cases "dget a ''model''") (auto simp: wf_spend_rule_def verdict_of_def)
qed

text \<open>C4: the spend rules of any snapshot the stored documents load as act as limits: the highest
  threshold the agent's spend has passed, the first of equal ones, decides alone, whether a call is
  refused with \<open>SpendLimit\<close> or the model switches, and below every threshold neither happens. So a
  refusal and a switch never come together, and a snapshot never fails to decide.\<close>

theorem spend_limits_decide:
  assumes "load_rules fromiso r previous = Inr rules" "\<forall>p. previous = Some p \<longrightarrow> wf_rules p"
  shows "\<exists>v. decides (limits rules agent) (usd_of rules agent) v \<and>
    model_for rules agent = (case v of Some (Switch m) \<Rightarrow> Some m | _ \<Rightarrow> None) \<and>
    (policy_allows (r_policy rules) agent context = Inr True \<and> missing_dependency rules agent = None \<longrightarrow>
      (\<exists>res. refuse_call rules agent function_name context = Inr res \<and>
        (v = Some Deny \<longrightarrow> map_option error_name res = Some ''SpendLimit'') \<and> (v \<noteq> Some Deny \<longrightarrow> res = None)))"
proof (intro exI[of _ "map_option verdict_of (tripped rules agent)"] conjI tripped_decides)
  have wf: "wf_rules rules" by (rule load_rules_wf[OF assms])
  note verdict = wf_verdict[OF wf_spend_rules[OF wf tripped_mem]]
  show "model_for rules agent = (case map_option verdict_of (tripped rules agent) of Some (Switch m) \<Rightarrow> Some m | _ \<Rightarrow> None)"
  proof (cases "tripped rules agent")
    case (Some x)
    with verdict[OF Some] show ?thesis by (auto simp: model_for_def)
  qed (simp add: model_for_def)
  show "policy_allows (r_policy rules) agent context = Inr True \<and> missing_dependency rules agent = None \<longrightarrow>
      (\<exists>res. refuse_call rules agent function_name context = Inr res \<and>
        (map_option verdict_of (tripped rules agent) = Some Deny \<longrightarrow> map_option error_name res = Some ''SpendLimit'') \<and>
        (map_option verdict_of (tripped rules agent) \<noteq> Some Deny \<longrightarrow> res = None))"
  proof (cases "tripped rules agent")
    case (Some x)
    with verdict[OF Some] show ?thesis by (auto simp: refuse_call_def)
  qed (simp add: refuse_call_def)
qed

text \<open>C15: a snapshot never holds rules the decisions cannot read: whatever was written to Redis, the
  agents' rules that load are mappings whose required names are non-empty texts, whose thresholds
  are numbers not at or below zero and whose actions are \<open>deny\<close> or a switch to a named model, and
  a document that is not keeps the previous snapshot's, never drops the policy loaded beside it.\<close>

theorem loaded_rules_well_formed:
  assumes "load_rules fromiso r previous = Inr rules" "\<forall>p. previous = Some p \<longrightarrow> wf_rules p"
  shows "wf_rules rules \<and>
    (opt_truthy (rd_get CONFIG_KEY r) \<and> (loads (the (rd_get CONFIG_KEY r)) = None \<or>
       (\<exists>v why. loads (the (rd_get CONFIG_KEY r)) = Some v \<and> parse fromiso v = Inl (ValueError why))) \<longrightarrow>
     r_agents rules = (case previous of None \<Rightarrow> [] | Some p \<Rightarrow> r_agents p))"
proof (intro conjI impI)
  show "wf_rules rules" by (rule load_rules_wf[OF assms])
  obtain agents where "agents_doc fromiso (rd_get CONFIG_KEY r) previous = Inr agents" "r_agents rules = agents"
    using assms(1) by (auto simp: load_rules_def Let_def elim!: res_bnd_InrE)
  then show "r_agents rules = (case previous of None \<Rightarrow> [] | Some p \<Rightarrow> r_agents p)"
    if "opt_truthy (rd_get CONFIG_KEY r) \<and> (loads (the (rd_get CONFIG_KEY r)) = None \<or>
       (\<exists>v why. loads (the (rd_get CONFIG_KEY r)) = Some v \<and> parse fromiso v = Inl (ValueError why)))"
    using that by (auto simp: agents_doc_def)
qed

text \<open>A policy as \<open>policy.yaml\<close> writes it: rules with a mapping to match and the agents they give
  access to.\<close>

record policy_rule =
  match_on :: dict
  access :: "string list option"

definition rule_doc :: "policy_rule \<Rightarrow> val" where
  "rule_doc p = VDict [(''match'', VDict (match_on p)),
     (''access'', case access p of None \<Rightarrow> VStr ''all'' | Some ns \<Rightarrow> VList (map VStr ns))]"

definition matches :: "dict \<Rightarrow> policy_rule \<Rightarrow> bool" where
  "matches context p \<longleftrightarrow> (\<forall>(k, v)\<in>set (match_on p). py_eq (dget context k) v)"

definition gives :: "policy_rule \<Rightarrow> string \<Rightarrow> bool" where
  "gives p agent \<longleftrightarrow> (case access p of None \<Rightarrow> True | Some ns \<Rightarrow> agent \<in> set ns)"

lemma first_match_doc:
  "first_match (rule_doc p # rest) agent (VDict context) =
     (if matches context p then Inr (gives p agent) else first_match rest agent (VDict context))"
proof -
  have "grants (case access p of None \<Rightarrow> VStr ''all'' | Some ns \<Rightarrow> VList (map VStr ns)) agent = Inr (gives p agent)"
    by (auto simp: grants_def gives_def split: option.split)
  then show ?thesis
    by (simp add: rule_doc_def dget_or_def context_meets_def matches_def list_all_iff split_beta')
qed

lemma first_split:
  "(\<exists>pre q post. p # ps = pre @ q # post \<and> (\<forall>r\<in>set pre. \<not> M r) \<and> M q \<and> G q) \<longleftrightarrow>
     (if M p then G p else \<exists>pre q post. ps = pre @ q # post \<and> (\<forall>r\<in>set pre. \<not> M r) \<and> M q \<and> G q)"
  (is "?L \<longleftrightarrow> ?R")
proof
  assume ?L
  then obtain pre q post where "p # ps = pre @ q # post" "\<forall>r\<in>set pre. \<not> M r" "M q" "G q" by blast
  then show ?R by (cases pre) auto
next
  assume r: ?R
  show ?L
  proof (cases "M p")
    case True
    with r have "p # ps = [] @ p # ps \<and> (\<forall>r\<in>set []. \<not> M r) \<and> M p \<and> G p" by simp
    then show ?thesis by blast
  next
    case False
    with r obtain pre q post where "ps = pre @ q # post" "\<forall>r\<in>set pre. \<not> M r" "M q" "G q" by auto
    with False have "p # ps = (p # pre) @ q # post \<and> (\<forall>r\<in>set (p # pre). \<not> M r) \<and> M q \<and> G q" by simp
    then show ?thesis by blast
  qed
qed

text \<open>C5: the policy is first match, deny by default: on a policy of any length and a request context,
  a call is allowed exactly when it is to the endpoint, when there is no rule at all, or when the
  first rule whose \<open>match\<close> the context meets lists the agent or says \<open>all\<close>; no rule after it, and
  no rule the context does not meet, has a say.\<close>

theorem policy_is_first_match:
  "policy_allows (VList (map rule_doc ps)) agent (VDict context) =
     Inr (agent = ENDPOINT_AGENT_NAME \<or> ps = [] \<or>
       (\<exists>pre p post. ps = pre @ p # post \<and> (\<forall>q\<in>set pre. \<not> matches context q) \<and> matches context p \<and> gives p agent))"
proof -
  have "first_match (map rule_doc ps) agent (VDict context) =
     Inr (\<exists>pre p post. ps = pre @ p # post \<and> (\<forall>q\<in>set pre. \<not> matches context q) \<and> matches context p \<and> gives p agent)"
    by (induction ps) (simp_all only: list.map first_match.simps(1) first_match_doc first_split, auto)
  then show ?thesis by (auto simp: policy_allows_def)
qed

section \<open>A snapshot\<close>

definition plain_iso :: iso_reader where "plain_iso s = None"

definition demo_config :: val where
  "demo_config = VDict [(''agents'', VDict [(''writer'', VDict [(''requires'', VList [VStr ''search'']),
     (''spend'', VDict [(''rules'', VList
        [VDict [(''above_usd'', VInt 5), (''action'', VDict [(''kind'', VStr ''switch_model''), (''model'', VStr ''small'')])],
         VDict [(''above_usd'', VInt 9), (''action'', VDict [(''kind'', VStr ''deny'')])]])])])])]"

definition governed :: redis where
  "governed = empty_redis\<lparr>rd_strs := [CONFIG_KEY \<mapsto> Doc demo_config, SPEND_KEY \<mapsto> Doc (VDict [(''writer'', VInt 7)])],
     rd_sets := (\<lambda>_. [])(UP_KEY := [''search''])\<rparr>"

definition demo_rules :: rules where
  "demo_rules = \<lparr>r_policy = VList [], r_agents = (case demo_config of VDict d \<Rightarrow> (case dget d ''agents'' of VDict a \<Rightarrow> a | _ \<Rightarrow> []) | _ \<Rightarrow> []),
     r_spend = [(''writer'', Fin 7)], r_up = [''search'']\<rparr>"

lemma governed_loads: "load_rules plain_iso governed None = Inr demo_rules"
  by code_simp

theorem spend_limits_decide_witness:
  "model_for demo_rules ''writer'' = Some ''small'' \<and> decides (limits demo_rules ''writer'') (Fin 7) (Some (Switch ''small''))"
proof -
  obtain v where v: "decides (limits demo_rules ''writer'') (usd_of demo_rules ''writer'') v"
      "model_for demo_rules ''writer'' = (case v of Some (Switch m) \<Rightarrow> Some m | _ \<Rightarrow> None)"
    using spend_limits_decide[OF governed_loads, of "''writer''" "VDict []" "[]"] by auto
  have u: "usd_of demo_rules ''writer'' = Fin 7" by code_simp
  have m: "model_for demo_rules ''writer'' = Some ''small''" by code_simp
  with v(2) have "v = Some (Switch ''small'')" by (auto split: option.splits verdict.splits)
  with v(1) u m show ?thesis by simp
qed

theorem loaded_rules_well_formed_witness:
  "load_rules plain_iso (rd_set CONFIG_KEY (Raw ''x'') governed) (Some demo_rules) = Inr demo_rules \<and> wf_rules demo_rules"
proof -
  have l: "load_rules plain_iso (rd_set CONFIG_KEY (Raw ''x'') governed) (Some demo_rules) = Inr demo_rules"
    by code_simp
  have "wf_rules demo_rules"
    using loaded_rules_well_formed[OF governed_loads] by simp
  with l show ?thesis by simp
qed

theorem policy_is_first_match_witness:
  "policy_allows (VList (map rule_doc [\<lparr>match_on = [(''tier'', VStr ''free'')], access = Some [''search'']\<rparr>,
     \<lparr>match_on = [], access = None\<rparr>])) ''writer'' (VDict [(''tier'', VStr ''free'')]) = Inr False"
  by (simp only: policy_is_first_match first_split) (simp add: matches_def gives_def dget_def ENDPOINT_AGENT_NAME_def)

section \<open>Thresholds and spends no rule means\<close>

lemma nan_threshold_accepted:
  "spend_rule (VDict [(''above_usd'', VFloat NaN), (''action'', VDict [(''kind'', VStr ''deny'')])]) path =
     Inr (VDict [(''above_usd'', VFloat NaN), (''action'', VDict [(''kind'', VStr ''deny'')])]) \<and> \<not> fl_less NaN usd"
  by (simp add: spend_rule_def bad_amount_def dget_def)

lemma huge_spend_raises: "spend_doc (Some (Doc (VDict [(''writer'', VInt (10 ^ 400))]))) = Inl OverflowError"
  by code_simp

text \<open>An \<open>access\<close> given as a text, not a list, grants any agent whose name occurs in it.\<close>

lemma text_access_matches_inside: "grants (VStr ''research'') ''search'' = Inr True"
  by (simp add: grants_def contains_def)

end
