(* ===== verification/Replica_State.thy ===== *)
theory Replica_State
  imports Governance Routing_Publish
begin

text \<open>
  The Local Controller's state (\<open>controller/local_controller.py\<close>): what one replica's controller
  keeps in memory and in its machine's Redis, the requests it handles, and the calls it makes to
  other controllers. The network, \<open>random.choice\<close> and the agent's own code are answers of \<open>lenv\<close>.
\<close>

section \<open>Requests and answers\<close>

text \<open>A request, the JSON object two controllers exchange; \<open>None\<close> is a missing or null field. Its
  baggage is the context and the affinities.\<close>

record call =
  c_service :: "string option"
  c_function :: "string option"
  c_args :: dict
  c_parent :: "string option"
  c_future_id :: "string option"
  c_origin :: "string option"
  c_request_id :: "string option"
  c_created_at :: "rtext option"
  c_context :: "val option"
  c_affinities :: "(string \<times> string) list"
  c_route_to :: "string option"
  c_future_args :: "string list"
  c_retries :: int

text \<open>\<open>if x\<close> of an optional text.\<close>

definition given :: "string option \<Rightarrow> bool" where
  "given x \<longleftrightarrow> x \<noteq> None \<and> x \<noteq> Some []"

definition or_empty :: "string option \<Rightarrow> string" where
  "or_empty x = (case x of None \<Rightarrow> [] | Some s \<Rightarrow> s)"

definition quoted :: "string \<Rightarrow> string" where
  "quoted s = CHR 0x27 # s @ [CHR 0x27]"

definition show_opt :: "string option \<Rightarrow> string" where
  "show_opt x = (case x of None \<Rightarrow> ''None'' | Some s \<Rightarrow> s)"

text \<open>A text that came as a request: not JSON, JSON that is no object, or a call.\<close>

datatype payload = NotJson | NotObject | Request (request_call: call)

lemma keeps_case_payload [pres_intros]:
  "keeps P a \<Longrightarrow> keeps P b \<Longrightarrow> (\<And>data. x = Request data \<Longrightarrow> keeps P (f data)) \<Longrightarrow>
   keeps P (case x of NotJson \<Rightarrow> a | NotObject \<Rightarrow> b | Request data \<Rightarrow> f data)"
  by (cases x) auto

text \<open>What an RPC comes to: delivered, never reached or its reply lost, timed out, or another error.\<close>

datatype wire = Delivered | Unavailable | DeadlineExceeded | Failed string

definition wire_details :: "wire \<Rightarrow> string" where
  "wire_details x = (case x of Delivered \<Rightarrow> [] | Unavailable \<Rightarrow> ''unavailable''
     | DeadlineExceeded \<Rightarrow> ''deadline exceeded'' | Failed s \<Rightarrow> s)"

text \<open>What the agent's method returns: a JSON value, a Future, or a container of either.\<close>

datatype pyres =
    RVal val
  | RFuture string
  | RList "pyres list"
  | RDict "(string \<times> pyres) list"

datatype status = Initializing | Healthy | StatusFailed | Stopped

section \<open>Environment and state\<close>

text \<open>One round of a wait for a future: what the reads of its error, its failed flag and its result
  see, and the time after them.\<close>

record observation =
  o_error :: hash
  o_failed :: hash
  o_result :: hash
  o_time :: rat

record lenv =
  a_address :: string
  a_agent_name :: string
  a_agent_file :: string
  a_replica_id :: "string option"
  a_logs :: bool
  a_interval :: rat
  a_wire :: "nat \<Rightarrow> string \<Rightarrow> wire"
  a_reached :: "nat \<Rightarrow> bool"
  a_choice :: "nat \<Rightarrow> nat \<Rightarrow> nat"
  a_trace :: "exn \<Rightarrow> val"
  a_gateway_starts :: "nat \<Rightarrow> bool"
  a_gateway_code :: int
  a_workers :: nat
  a_loaded :: bool
  a_has_method :: "string \<Rightarrow> bool"
  a_method :: "nat \<Rightarrow> string \<Rightarrow> dict \<Rightarrow> exn + pyres"
  a_duration :: "nat \<Rightarrow> rat"
  a_usage :: "nat \<Rightarrow> rat \<times> rat"
  a_observed :: "string \<Rightarrow> observation list"
  a_dumps :: "val \<Rightarrow> string"
  a_iso :: iso_reader

text \<open>A call the executor runs: its future, origin, agent, function and the request it came in.\<close>

record running =
  e_call :: call
  e_args :: dict
  e_future_args :: "string list"
  e_submitted_at :: rat

record lc =
  l_redis :: redis
  l_down :: bool
  l_now :: rat
  l_drawn :: nat
  l_rules :: rules
  l_routing :: "(string \<times> string list) list"
  l_stateful :: "string list"
  l_down_until :: "string \<Rightarrow> rat option"
  l_forwarded :: "(string \<times> string) list"
  l_queue :: "payload list"
  l_unfinished :: int
  l_unsent :: int
  l_inflight :: "(string \<times> call) list"
  l_timers :: "call list"
  l_running :: "running list"
  l_open :: "string list"
  l_cut_off :: "string list"
  l_refusing :: bool
  l_draining :: bool
  l_shutdown_at :: "rat option"
  l_failed_leftovers :: bool
  l_status :: status
  l_metrics_on :: bool
  l_gateway_up :: bool
  l_gateway_restarts :: nat
  l_drained :: bool
  l_sent :: "(string \<times> hash \<times> wire) list"

type_synonym 'a lstep = "(lc, 'a) act"

definition rask :: "(redis \<Rightarrow> 'a) \<Rightarrow> 'a lstep" where
  "rask f = (\<lambda>l. if l_down l then (Inl (RedisError ''redis''), l) else (Inr (f (l_redis l)), l))"

definition rtell :: "(redis \<Rightarrow> redis) \<Rightarrow> unit lstep" where
  "rtell f = (\<lambda>l. if l_down l then (Inl (RedisError ''redis''), l) else (Inr (), l\<lparr>l_redis := f (l_redis l)\<rparr>))"

definition rdo :: "(redis \<Rightarrow> 'a \<times> redis) \<Rightarrow> 'a lstep" where
  "rdo f = (\<lambda>l. if l_down l then (Inl (RedisError ''redis''), l)
     else (Inr (fst (f (l_redis l))), l\<lparr>l_redis := snd (f (l_redis l))\<rparr>))"

lemma rask_run [act_simps]:
  "rask f l = (if l_down l then (Inl (RedisError ''redis''), l) else (Inr (f (l_redis l)), l))"
  by (simp add: rask_def)

lemma rtell_run [act_simps]:
  "rtell f l = (if l_down l then (Inl (RedisError ''redis''), l) else (Inr (), l\<lparr>l_redis := f (l_redis l)\<rparr>))"
  by (simp add: rtell_def)

lemma rdo_run [act_simps]:
  "rdo f l = (if l_down l then (Inl (RedisError ''redis''), l)
     else (Inr (fst (f (l_redis l))), l\<lparr>l_redis := snd (f (l_redis l))\<rparr>))"
  by (simp add: rdo_def)

text \<open>A draw of the environment: the next number of the sequence its answers are indexed by.\<close>

definition draw :: "nat lstep" where
  "draw = (\<lambda>l. (Inr (l_drawn l), l\<lparr>l_drawn := Suc (l_drawn l)\<rparr>))"

lemma draw_run [act_simps]: "draw l = (Inr (l_drawn l), l\<lparr>l_drawn := Suc (l_drawn l)\<rparr>)"
  by (simp add: draw_def)

text \<open>The outcome of an action, for a \<open>finally\<close>.\<close>

definition tried :: "'a lstep \<Rightarrow> (exn + 'a) lstep" where
  "tried m = (\<lambda>l. (Inr (fst (m l)), snd (m l)))"

lemma tried_run [act_simps]: "tried m l = (Inr (fst (m l)), snd (m l))"
  by (simp add: tried_def)

definition pass :: "rat \<Rightarrow> unit lstep" where
  "pass d = modify_st (\<lambda>l. l\<lparr>l_now := l_now l + d\<rparr>)"

text \<open>\<open>json.JSONDecodeError\<close>, a \<open>ValueError\<close>.\<close>

definition JSON_ERROR :: exn where "JSON_ERROR = ValueError ''JSONDecodeError''"

section \<open>Keys\<close>

definition future_key :: "string \<Rightarrow> string" where "future_key fid = ''future:'' @ fid"
definition consumers_key :: "string \<Rightarrow> string" where "consumers_key fid = future_key fid @ '':consumers''"
definition request_key :: "string \<Rightarrow> string \<Rightarrow> string" where "request_key rid part = ''request:'' @ rid @ '':'' @ part"
definition affinity_key :: "string \<Rightarrow> string" where "affinity_key rid = ''affinity:'' @ rid"
definition own_key :: "lenv \<Rightarrow> string \<Rightarrow> string" where "own_key env part = ''controller:'' @ a_address env @ '':'' @ part"
definition ENDPOINT_LOG_SOURCE :: string where "ENDPOINT_LOG_SOURCE = ''Endpoint''"

definition log_source_name :: "string \<Rightarrow> string" where
  "log_source_name agent_name = (if agent_name \<noteq> [] then agent_name else ENDPOINT_LOG_SOURCE)"

text \<open>Redis refuses a field whose value is \<open>None\<close>.\<close>

fun redis_fields :: "(string \<times> rtext option) list \<Rightarrow> exn + hash" where
  "redis_fields [] = Inr []"
| "redis_fields ((k, None) # fs) = Inl (RedisError ''DataError'')"
| "redis_fields ((k, Some v) # fs) = map_sum id (\<lambda>h. (k, v) # h) (redis_fields fs)"

section \<open>Log entries\<close>

text \<open>What failed a future: a plain message or an exception.\<close>

datatype failure = Plain string | Raised exn

definition exn_name :: "exn \<Rightarrow> string" where
  "exn_name e = (case e of ValueError _ \<Rightarrow> ''ValueError'' | KeyError _ \<Rightarrow> ''KeyError'' | TypeError _ \<Rightarrow> ''TypeError''
     | RuntimeError _ \<Rightarrow> ''RuntimeError'' | RedisError _ \<Rightarrow> ''RedisError''
     | ForeignContainerError _ \<Rightarrow> ''ForeignContainerError'' | TimeoutError _ \<Rightarrow> ''TimeoutError''
     | StopIteration _ \<Rightarrow> ''StopIteration'' | AttributeError _ \<Rightarrow> ''AttributeError''
     | ZeroDivisionError \<Rightarrow> ''ZeroDivisionError'' | OverflowError \<Rightarrow> ''OverflowError''
     | AgentCallError _ \<Rightarrow> ''AgentCallError'')"

definition failure_text :: "failure \<Rightarrow> string" where
  "failure_text f = (case f of Plain s \<Rightarrow> s | Raised e \<Rightarrow> exn_str e)"

definition opt_val :: "string option \<Rightarrow> val" where
  "opt_val x = (case x of None \<Rightarrow> VNone | Some s \<Rightarrow> VStr s)"

record source =
  s_id :: "string option"
  s_agent :: "string option"
  s_address :: "string option"

definition otel_entry :: "source \<Rightarrow> rat \<Rightarrow> int \<Rightarrow> string \<Rightarrow> string \<Rightarrow> val \<Rightarrow> val \<Rightarrow> val \<Rightarrow> val \<Rightarrow> val" where
  "otel_entry src now number severity body logger_name etype emessage estack =
     VDict [(''Timestamp'', VFloat (Fin now)), (''ObservedTimestamp'', VFloat (Fin now)),
       (''SeverityNumber'', VInt number), (''SeverityText'', VStr severity), (''Body'', VStr body),
       (''TraceId'', VNone), (''SpanId'', VNone),
       (''Attributes'', VDict
         [(''logger.name'', logger_name), (''agent.id'', opt_val (s_id src)), (''agent.name'', opt_val (s_agent src)),
          (''endpoint'', opt_val (s_address src)), (''exception.type'', etype), (''exception.message'', emessage),
          (''exception.stacktrace'', estack)]),
       (''Resource'', VDict [(''service.name'', opt_val (s_agent src))])]"

definition build_failure_entry :: "lenv \<Rightarrow> source \<Rightarrow> rat \<Rightarrow> failure \<Rightarrow> string option \<Rightarrow> val" where
  "build_failure_entry env src now error ename =
     otel_entry src now 17 ''ERROR'' (failure_text error) VNone
       (VStr (if given ename then the ename else case error of Raised e \<Rightarrow> exn_name e | Plain _ \<Rightarrow> ''RuntimeError''))
       (case error of Raised e \<Rightarrow> VStr (exn_str e) | Plain _ \<Rightarrow> VNone)
       (case error of Raised e \<Rightarrow> a_trace env e | Plain _ \<Rightarrow> VNone)"

definition own_source :: "lenv \<Rightarrow> source" where
  "own_source env = \<lparr>s_id = a_replica_id env, s_agent = Some (log_source_name (a_agent_name env)),
     s_address = Some (a_address env)\<rparr>"

definition append_log_entry :: "string \<Rightarrow> val \<Rightarrow> unit lstep" where
  "append_log_entry key entry =
     bnd (rask (rd_hget key ''logs'')) (\<lambda>existing.
     bnd (of_res (if \<not> opt_truthy existing then Inr []
                  else case loads (the existing) of
                      None \<Rightarrow> Inr []
                    | Some (VList xs) \<Rightarrow> Inr xs
                    | Some _ \<Rightarrow> Inl (AttributeError ''append''))) (\<lambda>logs.
     rtell (rd_hset key ''logs'' (Doc (VList (logs @ [entry]))))))"

section \<open>A replica\<close>

definition no_rules :: rules where
  "no_rules = \<lparr>r_policy = VList [], r_agents = [], r_spend = [], r_up = []\<rparr>"

text \<open>A replica of the agent \<open>writer\<close> whose method returns 1, and its state before any request.\<close>

definition demo_lenv :: lenv where
  "demo_lenv = \<lparr>a_address = ''a:1'', a_agent_name = ''writer'', a_agent_file = ''w.py'', a_replica_id = Some ''writer-1'',
     a_logs = False, a_interval = 5, a_wire = (\<lambda>_ _. Delivered), a_reached = (\<lambda>_. False), a_choice = (\<lambda>_ _. 0), a_trace = (\<lambda>_. VNone),
     a_gateway_starts = (\<lambda>_. True), a_gateway_code = 0, a_workers = 16, a_loaded = True, a_has_method = (\<lambda>_. True),
     a_method = (\<lambda>_ _ _. Inr (RVal (VInt 1))), a_duration = (\<lambda>_. 1), a_usage = (\<lambda>_. (0, 0)), a_observed = (\<lambda>_. []),
     a_dumps = (\<lambda>_. []), a_iso = (\<lambda>_. None)\<rparr>"

definition idle_lc :: "redis \<Rightarrow> lc" where
  "idle_lc r = \<lparr>l_redis = r, l_down = False, l_now = 1000, l_drawn = 0, l_rules = no_rules, l_routing = [], l_stateful = [],
     l_down_until = (\<lambda>_. None), l_forwarded = [], l_queue = [], l_unfinished = 0, l_unsent = 0, l_inflight = [],
     l_timers = [], l_running = [], l_open = [], l_cut_off = [], l_refusing = False, l_draining = False,
     l_shutdown_at = None, l_failed_leftovers = False, l_status = Healthy, l_metrics_on = True, l_gateway_up = True,
     l_gateway_restarts = 0, l_drained = False, l_sent = []\<rparr>"

definition demo_call :: call where
  "demo_call = \<lparr>c_service = Some ''search'', c_function = Some ''find'', c_args = [], c_parent = Some ''p'', c_future_id = Some ''f1'',
     c_origin = Some ''a:1'', c_request_id = Some ''r1'', c_created_at = None, c_context = None, c_affinities = [],
     c_route_to = None, c_future_args = [], c_retries = 0\<rparr>"

end
