(* ===== verification/Replica_Results.thy ===== *)
theory Replica_Results
  imports Replica_State
begin

text \<open>
  How a future settles: waiting for it (\<open>controller/future.py\<close>), recording a failure, sending a
  result to another controller and fanning it out to the future's consumers
  (\<open>controller/local_controller.py\<close>, \<open>controller/utils/grpc_options.py\<close>).
\<close>

section \<open>Waiting for a result\<close>

definition RESULT_RECHECK_SECONDS :: rat where "RESULT_RECHECK_SECONDS = 1"

text \<open>A stored text as the Python string it is; numbers are not printed into messages.\<close>

definition shown :: "rtext option \<Rightarrow> string" where
  "shown t = (case t of None \<Rightarrow> ''None'' | Some (Raw s) \<Rightarrow> s | Some (Doc _) \<Rightarrow> [])"

definition settled_read :: "observation \<Rightarrow> (exn + rtext) option" where
  "settled_read ob =
     (let error = map_of (o_error ob) ''error'' in
      if opt_truthy error \<or> map_of (o_failed ob) ''failed'' = Some (Doc (VInt 1)) then
        Some (Inl (AgentCallError
          (if opt_truthy error then shown error
           else if opt_truthy (map_of (o_failed ob) ''error'') then shown (map_of (o_failed ob) ''error'')
           else ''Unknown error'')))
      else map_option Inr (map_of (o_result ob) ''result''))"

text \<open>\<open>None\<close>: still waiting after these rounds.\<close>

definition not_available :: "string \<Rightarrow> int \<Rightarrow> exn" where
  "not_available fid timeout =
     TimeoutError (''Future '' @ fid @ '' not available within '' @ str_int timeout @ '' seconds'')"

text \<open>The limit is the timeout, which the message names, and the deadline.\<close>

fun wait_rounds :: "string \<Rightarrow> (int \<times> rat) option \<Rightarrow> observation list \<Rightarrow> (exn + rtext) option" where
  "wait_rounds fid limit [] = None"
| "wait_rounds fid limit (ob # obs) = (case settled_read ob of
       Some res \<Rightarrow> Some res
     | None \<Rightarrow> (case limit of
           None \<Rightarrow> wait_rounds fid limit obs
         | Some (timeout, deadline) \<Rightarrow>
             if min RESULT_RECHECK_SECONDS (deadline - o_time ob) \<le> 0
             then Some (Inl (not_available fid timeout))
             else wait_rounds fid limit obs))"

definition wait_for_result :: "string \<Rightarrow> int option \<Rightarrow> rat \<Rightarrow> observation list \<Rightarrow> (exn + rtext) option" where
  "wait_for_result fid timeout now obs = wait_rounds fid (map_option (\<lambda>t. (t, now + of_int t)) timeout) obs"

section \<open>Calls to other controllers\<close>

definition rpc :: "lenv \<Rightarrow> string \<Rightarrow> hash \<Rightarrow> wire lstep" where
  "rpc env addr msg = bnd draw (\<lambda>n.
     bnd (modify_st (\<lambda>l. l\<lparr>l_sent := l_sent l @ [(addr, msg, a_wire env n addr)]\<rparr>)) (\<lambda>_.
     ret (a_wire env n addr)))"

fun send_tries :: "lenv \<Rightarrow> nat \<Rightarrow> rat \<Rightarrow> string \<Rightarrow> hash \<Rightarrow> wire lstep" where
  "send_tries env 0 backoff addr msg = ret Unavailable"
| "send_tries env (Suc n) backoff addr msg =
     bnd (rpc env addr msg) (\<lambda>x.
     if x = Unavailable \<and> n > 0
     then bnd (pass backoff) (\<lambda>_. send_tries env n (min (backoff * 2) 8) addr msg)
     else ret x)"

definition call_with_retry :: "lenv \<Rightarrow> string \<Rightarrow> hash \<Rightarrow> wire lstep" where
  "call_with_retry env addr msg = send_tries env 8 (1 / 2) addr msg"

section \<open>Sending a settled future\<close>

definition result_note :: "string \<Rightarrow> bool \<Rightarrow> rtext \<Rightarrow> hash" where
  "result_note fid failed err =
     [(''future_id'', Raw fid), (''failed'', Doc (VInt (if failed then 1 else 0))), (''error'', err)]"

text \<open>\<open>_send_result_callback\<close>; \<open>undelivered\<close> is what it does for a result it could not send,
  marking the future failed, so a failure's own callback has nothing to do there.\<close>

definition deliver :: "lenv \<Rightarrow> string \<Rightarrow> string \<Rightarrow> rtext option \<Rightarrow> bool \<Rightarrow> rtext \<Rightarrow> (string \<Rightarrow> unit lstep) \<Rightarrow> unit lstep" where
  "deliver env origin fid result failed err undelivered =
     bnd (rask (rd_hgetall (future_key fid))) (\<lambda>snapshot.
     bnd (call_with_retry env origin
            (hash_put (result_note fid failed err @ (case result of None \<Rightarrow> [] | Some t \<Rightarrow> [(''result'', t)])) snapshot)) (\<lambda>x.
     if x = Delivered then ret ()
     else
       bnd (rtell (rd_srem (consumers_key fid) [origin])) (\<lambda>_.
       let reason = ''Could not send the result of '' @ shown (map_of snapshot ''service'') @ ''.'' @
             shown (map_of snapshot ''method'') @ '' back to its caller: '' @ wire_details x in
       bnd (if failed then ret () else undelivered reason) (\<lambda>_.
       bnd (rpc env origin (result_note fid True (if failed then err else Raw reason))) (\<lambda>_. ret ())))))"

definition send_failure :: "lenv \<Rightarrow> string \<Rightarrow> string \<Rightarrow> rtext \<Rightarrow> unit lstep" where
  "send_failure env origin fid err = deliver env origin fid None True err (\<lambda>_. ret ())"

definition forget_forward :: "string \<Rightarrow> unit lstep" where
  "forget_forward fid = modify_st (\<lambda>l. l\<lparr>l_forwarded := AList.delete fid (l_forwarded l)\<rparr>)"

definition fan_out_failure :: "lenv \<Rightarrow> string \<Rightarrow> rtext \<Rightarrow> unit lstep" where
  "fan_out_failure env fid err =
     bnd (forget_forward fid) (\<lambda>_.
     bnd (rask (rd_smembers (consumers_key fid))) (\<lambda>consumers.
     for_each consumers (\<lambda>addr.
       if addr \<noteq> [] \<and> addr \<noteq> a_address env then send_failure env addr fid err else ret ())))"

section \<open>Recording a failure\<close>

definition failure_message :: "hash \<Rightarrow> failure \<Rightarrow> string" where
  "failure_message record error = (case error of
       Plain s \<Rightarrow> s
     | Raised (AgentCallError s) \<Rightarrow> s
     | Raised e \<Rightarrow> shown (map_of record ''service'') @ ''.'' @ shown (map_of record ''method'') @ '' failed: '' @
         exn_name e @ '': '' @ exn_str e)"

definition failure_fields :: "rat \<Rightarrow> string \<Rightarrow> string option \<Rightarrow> bool \<Rightarrow> hash" where
  "failure_fields now msg ename before_start =
     [(''error'', Raw msg), (''failed'', Doc (VInt 1))] @
     (if given ename then [(''error_name'', Raw (the ename))] else []) @
     (if before_start then [(''finished_at'', Doc (VFloat (Fin now)))] else [])"

text \<open>After the failure is written: the request of a root call is over, the failure is logged and goes
  to the consumers and the origin.\<close>

definition spread_failure :: "lenv \<Rightarrow> string \<Rightarrow> hash \<Rightarrow> string \<Rightarrow> rat \<Rightarrow> failure \<Rightarrow> string option \<Rightarrow> string option \<Rightarrow> bool \<Rightarrow> unit lstep" where
  "spread_failure env fid record msg now error origin ename log_entry =
     bnd (if opt_truthy (map_of record ''request_id'') \<and> \<not> opt_truthy (map_of record ''parent'')
          then rtell (rd_sadd ''request:completed'' [shown (map_of record ''request_id'')]) else ret ()) (\<lambda>_.
     bnd (if log_entry \<and> a_logs env
          then append_log_entry (future_key fid) (build_failure_entry env (own_source env) now error ename) else ret ()) (\<lambda>_.
     bnd (fan_out_failure env fid (Raw msg)) (\<lambda>_.
     if given origin \<and> origin \<noteq> Some (a_address env) then send_failure env (the origin) fid (Raw msg) else ret ())))"

definition record_failure :: "lenv \<Rightarrow> string \<Rightarrow> failure \<Rightarrow> string option \<Rightarrow> string option \<Rightarrow> bool \<Rightarrow> bool \<Rightarrow> unit lstep" where
  "record_failure env fid error origin ename log_entry before_start =
     bnd (rask (rd_hgetall (future_key fid))) (\<lambda>record.
     let msg = failure_message record error in
     bnd (read_st l_now) (\<lambda>now.
     bnd (rtell (rd_hset_multiple (future_key fid) (failure_fields now msg ename before_start))) (\<lambda>_.
     spread_failure env fid record msg now error origin ename log_entry)))"

text \<open>A safe sink: it never raises.\<close>

definition mark_future_failed :: "lenv \<Rightarrow> string option \<Rightarrow> failure \<Rightarrow> string option \<Rightarrow> string option \<Rightarrow> bool \<Rightarrow> bool \<Rightarrow> unit lstep" where
  "mark_future_failed env fid error origin ename log_entry before_start =
     (if \<not> given fid then ret ()
      else catch (record_failure env (the fid) error origin ename log_entry before_start) (\<lambda>_. ret ()))"

section \<open>Results and their consumers\<close>

definition send_result_callback :: "lenv \<Rightarrow> string \<Rightarrow> string \<Rightarrow> rtext option \<Rightarrow> bool \<Rightarrow> rtext \<Rightarrow> unit lstep" where
  "send_result_callback env origin fid result failed err =
     deliver env origin fid result failed err
       (\<lambda>reason. mark_future_failed env (Some fid) (Plain reason) None (Some ''ResultNotDelivered'') True False)"

definition fan_out_to_consumers :: "lenv \<Rightarrow> string option \<Rightarrow> rtext option \<Rightarrow> bool \<Rightarrow> rtext \<Rightarrow> unit lstep" where
  "fan_out_to_consumers env fid result failed err =
     (if \<not> given fid then ret ()
      else bnd (forget_forward (the fid)) (\<lambda>_.
        bnd (rask (rd_smembers (consumers_key (the fid)))) (\<lambda>consumers.
        for_each consumers (\<lambda>addr.
          if addr \<noteq> [] \<and> addr \<noteq> a_address env
          then send_result_callback env addr (the fid) result failed err else ret ()))))"

text \<open>The failure path of \<open>_mark_future_failed\<close> is the fan-out it calls.\<close>

lemma fan_out_failure_eq:
  "given (Some fid) \<Longrightarrow> fan_out_to_consumers env (Some fid) None True err = fan_out_failure env fid err"
proof -
  have "send_result_callback env a fid None True err = send_failure env a fid err" for a
    by (simp add: send_result_callback_def send_failure_def deliver_def Let_def cong: if_cong)
  then show "given (Some fid) \<Longrightarrow> fan_out_to_consumers env (Some fid) None True err = fan_out_failure env fid err"
    by (simp cong: if_cong add: fan_out_to_consumers_def fan_out_failure_def)
qed

definition waiting_id :: "rtext \<Rightarrow> exn + string" where
  "waiting_id t = (case loads t of
       Some (VDict d) \<Rightarrow> (case map_of d ''future_id'' of
           Some (VStr fid) \<Rightarrow> Inr fid | Some _ \<Rightarrow> Inl (TypeError ''future_id'') | None \<Rightarrow> Inl (KeyError ''future_id''))
     | Some _ \<Rightarrow> Inl (TypeError ''future_id'')
     | None \<Rightarrow> Inl JSON_ERROR)"

text \<open>\<open>while (waiting := rpop(...)) is not None\<close>; one round more than the list is long is enough, as
  failing a question adds none.\<close>

fun fail_waiting :: "lenv \<Rightarrow> string \<Rightarrow> nat \<Rightarrow> unit lstep" where
  "fail_waiting env rid 0 = ret ()"
| "fail_waiting env rid (Suc n) =
     bnd (rdo (rd_rpop (request_key rid ''waiting''))) (\<lambda>waiting.
     case waiting of
       None \<Rightarrow> ret ()
     | Some t \<Rightarrow>
         bnd (of_res (waiting_id t)) (\<lambda>fid.
         bnd (read_st l_now) (\<lambda>now.
         bnd (rtell (rd_hset (future_key fid) ''finished_at'' (Doc (VFloat (Fin now))))) (\<lambda>_.
         bnd (mark_future_failed env (Some fid) (Plain ''Request finished before the question was answered'')
                None (Some ''RequestFinished'') True False) (\<lambda>_.
         fail_waiting env rid n)))))"

definition fail_waiting_questions :: "lenv \<Rightarrow> string \<Rightarrow> unit lstep" where
  "fail_waiting_questions env rid =
     bnd (rask (\<lambda>r. length (rd_lists r (request_key rid ''waiting'')))) (\<lambda>n. fail_waiting env rid (Suc n))"

end
