(* ===== verification/Replica_Calls.thy ===== *)
theory Replica_Calls
  imports Replica_Results
begin

text \<open>
  A request at a Local Controller (\<open>controller/local_controller.py\<close>): admission, the choice of a
  replica, running the call here, or forwarding it with its retries.
\<close>

definition FORWARD_RETRIES :: int where "FORWARD_RETRIES = 8"
definition REPLICA_DOWN_SECONDS :: rat where "REPLICA_DOWN_SECONDS = 30"
definition QUESTION_TIMEOUT_SECONDS :: int where "QUESTION_TIMEOUT_SECONDS = 3600"
definition FUTURE_RESULT_TIMEOUT_SECONDS :: int where "FUTURE_RESULT_TIMEOUT_SECONDS = QUESTION_TIMEOUT_SECONDS + 300"

section \<open>Admission\<close>

definition refresh_rules :: "lenv \<Rightarrow> unit lstep" where
  "refresh_rules env =
     catch (bnd (read_st l_rules) (\<lambda>prev. bnd (rask (\<lambda>r. load_rules (a_iso env) r (Some prev))) (\<lambda>res.
            bnd (of_res res) (\<lambda>rules. modify_st (\<lambda>l. l\<lparr>l_rules := rules\<rparr>)))))
       (\<lambda>_. ret ())"

definition request_context :: "call \<Rightarrow> val lstep" where
  "request_context data = (case c_context data of
       Some v \<Rightarrow> ret v
     | None \<Rightarrow>
         if \<not> given (c_request_id data) then ret (VDict [])
         else bnd (rask (rd_get (request_key (the (c_request_id data)) ''context''))) (\<lambda>t.
           if \<not> opt_truthy t then ret (VDict [])
           else of_res (case loads (the t) of None \<Rightarrow> Inl JSON_ERROR | Some v \<Rightarrow> Inr v)))"

definition whole :: "call \<Rightarrow> bool" where
  "whole data \<longleftrightarrow> given (c_service data) \<and> given (c_function data) \<and> given (c_future_id data)"

definition admit :: "lenv \<Rightarrow> call \<Rightarrow> refusal option lstep" where
  "admit env data =
     (if \<not> whole data then ret None
      else bnd (request_context data) (\<lambda>context.
        bnd (read_st l_rules) (\<lambda>rules.
        bnd (of_res (refuse_call rules (the (c_service data)) (the (c_function data)) context)) (\<lambda>verdict.
        case verdict of
          None \<Rightarrow> ret None
        | Some rf \<Rightarrow>
            let named = error_name rf @ '': '' @ message rf in
            bnd (mark_future_failed env (c_future_id data) (Plain named) (c_origin data) (Some (error_name rf)) True True) (\<lambda>_.
            ret (Some \<lparr>error_name = error_name rf, message = named\<rparr>))))))"

section \<open>The routing table\<close>

definition address_list :: "rtext \<Rightarrow> exn + string list" where
  "address_list t = (case loads t of
       None \<Rightarrow> Inl JSON_ERROR | Some (VList vs) \<Rightarrow> Inr (str_items vs) | Some _ \<Rightarrow> Inl (TypeError ''addresses''))"

definition load_routing :: "unit lstep" where
  "load_routing =
     bnd (rask (rd_hgetall ROUTING_ADDRESSES_KEY)) (\<lambda>h.
     bnd (of_res (res_all (\<lambda>(agent, t). res_bnd (address_list t) (\<lambda>ads. Inr (agent, ads))) h)) (\<lambda>routing.
     bnd (modify_st (\<lambda>l. l\<lparr>l_routing := routing\<rparr>)) (\<lambda>_.
     bnd (rask (rd_hgetall ROUTING_STATEFUL_KEY)) (\<lambda>flags.
     modify_st (\<lambda>l. l\<lparr>l_stateful := map fst (filter (\<lambda>(_, t). t = Doc (VBool True)) flags)\<rparr>)))))"

text \<open>The addresses a new call may pick: those not marked down, or all when every one is.\<close>

definition available :: "lc \<Rightarrow> string list \<Rightarrow> string list" where
  "available l addresses =
     (let up = filter (\<lambda>e. (case l_down_until l e of None \<Rightarrow> 0 | Some t \<Rightarrow> t) \<le> l_now l) addresses in
      if up \<noteq> [] then up else addresses)"

definition pick_random :: "lenv \<Rightarrow> string list \<Rightarrow> string lstep" where
  "pick_random env xs = bnd draw (\<lambda>n. ret (xs ! (a_choice env n (length xs) mod length xs)))"

definition addresses_of :: "string \<Rightarrow> string list option lstep" where
  "addresses_of agent_name =
     bnd (read_st (\<lambda>l. map_of (l_routing l) agent_name)) (\<lambda>known.
     case known of
       Some ads \<Rightarrow> ret (Some ads)
     | None \<Rightarrow> bnd load_routing (\<lambda>_. read_st (\<lambda>l. map_of (l_routing l) agent_name)))"

definition resolve_address :: "lenv \<Rightarrow> string \<Rightarrow> string option \<Rightarrow> string option lstep" where
  "resolve_address env agent_name request_id =
     bnd (addresses_of agent_name) (\<lambda>known.
     case known of
       None \<Rightarrow> ret None
     | Some addresses \<Rightarrow>
         if addresses = [] then ret None
         else bnd (read_st (\<lambda>l. available l addresses)) (\<lambda>candidates.
           bnd (read_st (\<lambda>l. agent_name \<in> set (l_stateful l))) (\<lambda>is_stateful.
           if is_stateful \<and> given request_id then
             bnd (rask (rd_hget (affinity_key (the request_id)) agent_name)) (\<lambda>existing.
             if opt_truthy existing then ret (Some (shown existing))
             else bnd (pick_random env candidates) (\<lambda>chosen.
               bnd (rtell (rd_hset (affinity_key (the request_id)) agent_name (Raw chosen))) (\<lambda>_.
               ret (Some chosen))))
           else bnd (pick_random env candidates) (\<lambda>chosen. ret (Some chosen)))))"

section \<open>Forwarding\<close>

definition count_unsent :: "int \<Rightarrow> unit lstep" where
  "count_unsent change = modify_st (\<lambda>l. l\<lparr>l_unsent := l_unsent l + change\<rparr>)"

definition enqueue :: "payload \<Rightarrow> unit lstep" where
  "enqueue raw = modify_st (\<lambda>l. l\<lparr>l_queue := l_queue l @ [raw], l_unfinished := l_unfinished l + 1\<rparr>)"

text \<open>The call goes out without waiting: it is in flight until its answer comes.\<close>

definition forward_request :: "lenv \<Rightarrow> string \<Rightarrow> call \<Rightarrow> unit lstep" where
  "forward_request env target data =
     (let data = data\<lparr>c_origin := Some (a_address env), c_route_to := Some target\<rparr> in
      bnd (modify_st (\<lambda>l. l\<lparr>l_forwarded := AList.update (or_empty (c_future_id data)) target (l_forwarded l)\<rparr>)) (\<lambda>_.
      bnd (count_unsent 1) (\<lambda>_.
      modify_st (\<lambda>l. l\<lparr>l_inflight := l_inflight l @ [(target, data)]\<rparr>))))"

definition resend :: "call \<Rightarrow> unit lstep" where
  "resend data =
     bnd (read_st (\<lambda>l. map_of (l_forwarded l) (or_empty (c_future_id data)) \<noteq> None)) (\<lambda>pending.
     bnd (if pending then enqueue (Request data) else ret ()) (\<lambda>_. count_unsent (-1)))"

definition send_failed_reason :: "lc \<Rightarrow> call \<Rightarrow> wire \<Rightarrow> int \<Rightarrow> string" where
  "send_failed_reason l data x tries =
     (if x = Unavailable \<or> x = DeadlineExceeded then
        ''it didn't answer in time ('' @ str_int tries @ '' tries across its '' @
        str_nat (case map_of (l_routing l) (or_empty (c_service data)) of None \<Rightarrow> 0 | Some ads \<Rightarrow> length ads) @ '' replica(s))''
      else wire_details x)"

text \<open>\<open>_on_forwarded\<close>; a retry after the first waits in a timer.\<close>

definition on_forwarded :: "lenv \<Rightarrow> wire \<Rightarrow> string \<Rightarrow> call \<Rightarrow> unit lstep" where
  "on_forwarded env x target data =
     (if x = Delivered then count_unsent (-1)
      else let tries = c_retries data + 1; no_answer = (x = Unavailable \<or> x = DeadlineExceeded) in
        if \<not> no_answer \<or> tries > FORWARD_RETRIES then
          bnd (read_st (\<lambda>l. send_failed_reason l data x tries)) (\<lambda>reason.
          bnd (mark_future_failed env (c_future_id data)
                 (Plain (''Could not send the call to '' @ show_opt (c_service data) @ ''.'' @
                    show_opt (c_function data) @ '': '' @ reason)) None (Some ''SendFailed'') True False) (\<lambda>_.
          count_unsent (-1)))
        else
          bnd (modify_st (\<lambda>l. l\<lparr>l_down_until := (l_down_until l)(target := Some (l_now l + REPLICA_DOWN_SECONDS))\<rparr>)) (\<lambda>_.
          bnd (read_st (\<lambda>l. map_of (l_forwarded l) (or_empty (c_future_id data)) \<noteq> None)) (\<lambda>pending.
          if \<not> pending then count_unsent (-1)
          else
            let again = data\<lparr>c_retries := tries, c_route_to := (if x = Unavailable then None else c_route_to data)\<rparr> in
            if tries = 1 then bnd (enqueue (Request again)) (\<lambda>_. count_unsent (-1))
            else modify_st (\<lambda>l. l\<lparr>l_timers := l_timers l @ [again]\<rparr>))))"

text \<open>What happens to calls on the wire and in timers, in any order: a call is answered, a timer fires.\<close>

definition take_nth :: "nat \<Rightarrow> 'a list \<Rightarrow> 'a list" where
  "take_nth i xs = take i xs @ drop (Suc i) xs"

definition answer_call :: "lenv \<Rightarrow> nat \<Rightarrow> wire \<Rightarrow> unit lstep" where
  "answer_call env i x =
     bnd (read_st l_inflight) (\<lambda>calls.
     if i \<ge> length calls then ret ()
     else bnd (modify_st (\<lambda>l. l\<lparr>l_inflight := take_nth i calls\<rparr>)) (\<lambda>_.
       on_forwarded env x (fst (calls ! i)) (snd (calls ! i))))"

definition fire_timer :: "nat \<Rightarrow> unit lstep" where
  "fire_timer i =
     bnd (read_st l_timers) (\<lambda>timers.
     if i \<ge> length timers then ret ()
     else bnd (modify_st (\<lambda>l. l\<lparr>l_timers := take_nth i timers\<rparr>)) (\<lambda>_. resend (timers ! i)))"

section \<open>Processing a request\<close>

fun future_arguments :: "dict \<Rightarrow> string list \<Rightarrow> exn + (string \<times> string) list" where
  "future_arguments args [] = Inr []"
| "future_arguments args (k # ks) = (case map_of args k of
       None \<Rightarrow> Inl (KeyError k)
     | Some v \<Rightarrow> map_sum id (\<lambda>rest. (k, case v of VStr fid \<Rightarrow> fid | _ \<Rightarrow> []) # rest) (future_arguments args ks))"

text \<open>The first argument whose future is not of this request.\<close>

fun foreign_argument :: "string \<Rightarrow> (string \<times> string) list \<Rightarrow> string option lstep" where
  "foreign_argument rid [] = ret None"
| "foreign_argument rid ((k, fid) # rest) =
     bnd (rask (rd_hget (future_key fid) ''request_id'')) (\<lambda>owner.
     if owner \<noteq> Some (Raw rid) then ret (Some k) else foreign_argument rid rest)"

definition raw_opt :: "string option \<Rightarrow> rtext option" where
  "raw_opt = map_option Raw"

text \<open>A question can arrive after its request finished; looking after holding it closes the race.\<close>

definition fail_if_over :: "lenv \<Rightarrow> string \<Rightarrow> unit lstep" where
  "fail_if_over env rid =
     bnd (rask (\<lambda>r. rd_hgetall (future_key (shown (rd_get (request_key rid ''future'') r))) r)) (\<lambda>record.
     if opt_truthy (map_of record ''result'') \<or> map_of record ''failed'' = Some (Doc (VInt 1))
     then fail_waiting_questions env rid else ret ())"

text \<open>A call to the endpoint is a question for the human, held until it is answered.\<close>

definition ask_human :: "lenv \<Rightarrow> call \<Rightarrow> unit lstep" where
  "ask_human env data =
     (let fid = or_empty (c_future_id data); rid = show_opt (c_request_id data) in
      bnd (of_res (redis_fields
             [(''id'', Some (Raw fid)), (''request_id'', raw_opt (c_request_id data)), (''parent'', raw_opt (c_parent data)),
              (''service'', raw_opt (c_service data)), (''method'', raw_opt (c_function data)),
              (''args'', Some (Doc (VDict (c_args data)))), (''created_at'', c_created_at data)])) (\<lambda>h.
      bnd (rtell (rd_hset_multiple (future_key fid) h)) (\<lambda>_.
      bnd (rtell (rd_sadd (request_key rid ''futures'') [fid])) (\<lambda>_.
      bnd (of_res (case c_origin data of None \<Rightarrow> Inl (RedisError ''DataError'') | Some asker \<Rightarrow> Inr asker)) (\<lambda>asker.
      bnd (rtell (rd_sadd (consumers_key fid) [asker])) (\<lambda>_.
      bnd (of_res (case map_of (c_args data) ''question'' of None \<Rightarrow> Inl (KeyError ''question'') | Some q \<Rightarrow> Inr q)) (\<lambda>q.
      bnd (rtell (rd_lpush (request_key rid ''waiting'') [Doc (VDict [(''future_id'', VStr fid), (''question'', q)])])) (\<lambda>_.
      fail_if_over env rid))))))))"

text \<open>\<open>_executor.submit\<close>: the call runs when a worker takes it.\<close>

definition submit :: "lenv \<Rightarrow> call \<Rightarrow> (string \<times> string) list \<Rightarrow> unit lstep" where
  "submit env data future_args =
     bnd (modify_st (\<lambda>l. if given (c_request_id data) \<and> or_empty (c_service data) \<in> set (l_stateful l)
            then l\<lparr>l_open := List.insert (or_empty (c_request_id data)) (l_open l)\<rparr> else l)) (\<lambda>_.
     modify_st (\<lambda>l. l\<lparr>l_running := l_running l @
        [\<lparr>e_call = data, e_args = c_args data, e_future_args = map fst future_args, e_submitted_at = l_now l\<rparr>]\<rparr>))"

text \<open>The target becomes a consumer of each future it needs, and gets those already settled now.\<close>

definition register_consumer :: "lenv \<Rightarrow> string \<Rightarrow> string \<times> string \<Rightarrow> unit lstep" where
  "register_consumer env target = (\<lambda>(_, fid).
     bnd (rtell (rd_sadd (consumers_key fid) [target])) (\<lambda>_.
     bnd (rask (rd_hget (future_key fid) ''result'')) (\<lambda>existing.
     case existing of
       None \<Rightarrow> ret ()
     | Some t \<Rightarrow> send_result_callback env target fid (Some t) False (Raw []))))"

definition outward :: "call \<Rightarrow> val \<Rightarrow> hash \<Rightarrow> string \<Rightarrow> call" where
  "outward data context affinities target =
     (let replaced = truthy context \<or> affinities \<noteq> [];
          ctx = (if \<not> replaced then c_context data else if truthy context then Some context else None);
          base = (if replaced then map (\<lambda>(k, t). (k, shown (Some t))) affinities else c_affinities data)
      in data\<lparr>c_context := ctx,
              c_affinities := (if given (c_request_id data)
                 then AList.update (or_empty (c_service data)) target base else base)\<rparr>)"

definition send_on :: "lenv \<Rightarrow> call \<Rightarrow> val \<Rightarrow> (string \<times> string) list \<Rightarrow> string \<Rightarrow> unit lstep" where
  "send_on env data context future_args target =
     bnd (for_each future_args (register_consumer env target)) (\<lambda>_.
     bnd (if given (c_request_id data) then rask (rd_hgetall (affinity_key (or_empty (c_request_id data)))) else ret []) (\<lambda>affs.
     forward_request env target (outward data context affs target)))"

definition refuse :: "lenv \<Rightarrow> call \<Rightarrow> string \<Rightarrow> string \<Rightarrow> unit lstep" where
  "refuse env data why ename =
     mark_future_failed env (c_future_id data) (Plain why) (c_origin data) (Some ename) True True"

text \<open>Where a whole request goes: the replica it was pinned to, or one picked here.\<close>

definition target_of :: "lenv \<Rightarrow> call \<Rightarrow> string option lstep" where
  "target_of env data =
     (if given (c_route_to data) then ret (c_route_to data)
      else resolve_address env (or_empty (c_service data)) (c_request_id data))"

definition dispatch :: "lenv \<Rightarrow> call \<Rightarrow> val \<Rightarrow> string \<Rightarrow> unit lstep" where
  "dispatch env data context target =
     bnd (of_res (future_arguments (c_args data) (c_future_args data))) (\<lambda>future_args.
     bnd (if given (c_route_to data) then ret None
          else foreign_argument (or_empty (c_request_id data)) future_args) (\<lambda>foreign.
     case foreign of
       Some k \<Rightarrow> refuse env data (''Argument '' @ quoted k @ '' of '' @ or_empty (c_service data) @ ''.'' @
           or_empty (c_function data) @ '' comes from a different request.'') ''InvalidArgument''
     | None \<Rightarrow>
         if target = a_address env then
           (if c_service data = Some ENDPOINT_AGENT_NAME then ask_human env data else submit env data future_args)
         else send_on env data context future_args target))"

definition unpack_baggage :: "call \<Rightarrow> val \<Rightarrow> unit lstep" where
  "unpack_baggage data context =
     bnd (if given (c_request_id data) \<and> c_context data \<noteq> None
          then rtell (rd_set (request_key (or_empty (c_request_id data)) ''context'') (Doc context)) else ret ()) (\<lambda>_.
     if given (c_request_id data) \<and> c_affinities data \<noteq> []
     then rtell (rd_hset_multiple (affinity_key (or_empty (c_request_id data))) (map (\<lambda>(k, s). (k, Raw s)) (c_affinities data)))
     else ret ())"

definition process_request :: "lenv \<Rightarrow> call \<Rightarrow> unit lstep" where
  "process_request env data =
     bnd (request_context data) (\<lambda>context.
     bnd (unpack_baggage data context) (\<lambda>_.
     if \<not> whole data then
       refuse env data ''Malformed request: missing service, function, or future_id'' ''MalformedRequest''
     else bnd (target_of env data) (\<lambda>target.
       if \<not> given target then
         refuse env data (''No running replica of '' @ or_empty (c_service data) @
           '' right now; all are starting, restarting or being removed.'') ''NoRunningReplica''
       else dispatch env data context (the target))))"

section \<open>The loop\<close>

text \<open>One round of \<open>run\<close>. A \<open>JSONDecodeError\<close> raised while the request is processed is taken for text
  that is not JSON; JSON that is no object raises an \<open>AttributeError\<close>, with no future to fail.\<close>

definition task_done :: "unit lstep" where
  "task_done = modify_st (\<lambda>l. l\<lparr>l_unfinished := l_unfinished l - 1\<rparr>)"

definition process_raw :: "lenv \<Rightarrow> payload \<Rightarrow> unit lstep" where
  "process_raw env raw = (case raw of
       NotJson \<Rightarrow> ret ()
     | NotObject \<Rightarrow> ret ()
     | Request data \<Rightarrow> catch (process_request env data)
         (\<lambda>e. if e = JSON_ERROR then ret ()
              else mark_future_failed env (c_future_id data) (Raised e) (c_origin data) None True False))"

definition serve :: "lenv \<Rightarrow> unit lstep" where
  "serve env =
     bnd (read_st l_queue) (\<lambda>queue.
     case queue of
       [] \<Rightarrow> ret ()
     | raw # rest \<Rightarrow>
         bnd (modify_st (\<lambda>l. l\<lparr>l_queue := rest\<rparr>)) (\<lambda>_.
         finally_do (process_raw env raw) task_done))"

end
