(* ===== verification/Replica_Execution.thy ===== *)
theory Replica_Execution
  imports Replica_Calls
begin

text \<open>
  Running a call on the agent (\<open>_execute_locally\<close>, \<open>_resolve_future_args\<close> and \<open>_resolved\<close> of
  \<open>controller/local_controller.py\<close>). \<open>a_method\<close> is the agent's method and \<open>a_observed\<close> the rounds of
  each wait, up to the one that ends it.
\<close>

section \<open>Futures in values\<close>

definition text_of :: "lenv \<Rightarrow> rtext \<Rightarrow> string" where
  "text_of env t = (case t of Raw s \<Rightarrow> s | Doc v \<Rightarrow> a_dumps env v)"

definition awaited :: "lenv \<Rightarrow> rat \<Rightarrow> string \<Rightarrow> exn + rtext" where
  "awaited env now fid =
     (case wait_for_result fid (Some FUTURE_RESULT_TIMEOUT_SECONDS) now (a_observed env fid) of
        Some res \<Rightarrow> res
      | None \<Rightarrow> Inl (not_available fid FUTURE_RESULT_TIMEOUT_SECONDS))"

text \<open>\<open>_resolved\<close>: each Future at any depth becomes its result, a text.\<close>

fun resolved :: "lenv \<Rightarrow> rat \<Rightarrow> pyres \<Rightarrow> exn + pyres"
and resolved_list :: "lenv \<Rightarrow> rat \<Rightarrow> pyres list \<Rightarrow> exn + pyres list"
and resolved_dict :: "lenv \<Rightarrow> rat \<Rightarrow> (string \<times> pyres) list \<Rightarrow> exn + (string \<times> pyres) list" where
  "resolved env now (RVal v) = Inr (RVal v)"
| "resolved env now (RFuture fid) = res_bnd (awaited env now fid) (\<lambda>t. Inr (RVal (VStr (text_of env t))))"
| "resolved env now (RList xs) = res_bnd (resolved_list env now xs) (\<lambda>ys. Inr (RList ys))"
| "resolved env now (RDict d) = res_bnd (resolved_dict env now d) (\<lambda>e. Inr (RDict e))"
| "resolved_list env now [] = Inr []"
| "resolved_list env now (x # xs) = res_bnd (resolved env now x) (\<lambda>y. res_bnd (resolved_list env now xs) (\<lambda>ys. Inr (y # ys)))"
| "resolved_dict env now [] = Inr []"
| "resolved_dict env now ((k, x) # d) = res_bnd (resolved env now x) (\<lambda>y. res_bnd (resolved_dict env now d) (\<lambda>e. Inr ((k, y) # e)))"

text \<open>\<open>json.dumps\<close>, which cannot write a Future.\<close>

fun to_json :: "pyres \<Rightarrow> exn + val"
and to_json_list :: "pyres list \<Rightarrow> exn + val list"
and to_json_dict :: "(string \<times> pyres) list \<Rightarrow> exn + dict" where
  "to_json (RVal v) = Inr v"
| "to_json (RFuture fid) = Inl (TypeError ''Object of type Future is not JSON serializable'')"
| "to_json (RList xs) = res_bnd (to_json_list xs) (\<lambda>ys. Inr (VList ys))"
| "to_json (RDict d) = res_bnd (to_json_dict d) (\<lambda>e. Inr (VDict e))"
| "to_json_list [] = Inr []"
| "to_json_list (x # xs) = res_bnd (to_json x) (\<lambda>y. res_bnd (to_json_list xs) (\<lambda>ys. Inr (y # ys)))"
| "to_json_dict [] = Inr []"
| "to_json_dict ((k, x) # d) = res_bnd (to_json x) (\<lambda>y. res_bnd (to_json_dict d) (\<lambda>e. Inr ((k, y) # e)))"

text \<open>\<open>str(x)\<close> of a result that is no dict and no list.\<close>

definition str_result :: "pyres \<Rightarrow> rtext" where
  "str_result x = (case x of
       RVal (VStr s) \<Rightarrow> Raw s
     | RVal VNone \<Rightarrow> Raw ''None''
     | RVal (VBool b) \<Rightarrow> Raw (if b then ''True'' else ''False'')
     | RVal v \<Rightarrow> Doc v
     | _ \<Rightarrow> Raw ''<Future>'')"

definition is_container :: "pyres \<Rightarrow> bool" where
  "is_container x \<longleftrightarrow> (case x of RVal (VList _) \<Rightarrow> True | RVal (VDict _) \<Rightarrow> True | RList _ \<Rightarrow> True | RDict _ \<Rightarrow> True | _ \<Rightarrow> False)"

definition is_dict :: "pyres \<Rightarrow> bool" where
  "is_dict x \<longleftrightarrow> (case x of RVal (VDict _) \<Rightarrow> True | RDict _ \<Rightarrow> True | _ \<Rightarrow> False)"

definition serialize :: "pyres \<Rightarrow> exn + rtext" where
  "serialize x =
     (if is_container x then
        (case to_json x of
           Inr v \<Rightarrow> Inr (Doc v)
         | Inl e \<Rightarrow> Inl (TypeError (''its return value can't be converted to JSON: '' @ exn_str e)))
      else Inr (str_result x))"

text \<open>What a call returns: a root call resolves Futures and wraps what is no dict.\<close>

definition root_result :: "lenv \<Rightarrow> rat \<Rightarrow> bool \<Rightarrow> pyres \<Rightarrow> exn + pyres" where
  "root_result env now is_root x =
     (if \<not> is_root then Inr x
      else res_bnd (resolved env now x) (\<lambda>y. Inr (if is_dict y then y else RDict [(''value'', y)])))"

section \<open>Arguments\<close>

definition timed_out :: "string \<Rightarrow> string" where
  "timed_out k = ''Timed out after '' @ str_int FUTURE_RESULT_TIMEOUT_SECONDS @ ''s waiting for argument '' @ quoted k"

fun resolve_args :: "lenv \<Rightarrow> redis \<Rightarrow> rat \<Rightarrow> string list \<Rightarrow> dict \<Rightarrow> exn + dict" where
  "resolve_args env r now future_args [] = Inr []"
| "resolve_args env r now future_args ((k, v) # args) =
     (if k \<in> set future_args then
        (case awaited env now (case v of VStr fid \<Rightarrow> fid | _ \<Rightarrow> []) of
           Inr t \<Rightarrow> map_sum id (\<lambda>rest. (k, VStr (text_of env t)) # rest) (resolve_args env r now future_args args)
         | Inl (TimeoutError _) \<Rightarrow>
             let producer = rd_hgetall (future_key (case v of VStr fid \<Rightarrow> fid | _ \<Rightarrow> [])) r in
             if producer = [] then Inl (TimeoutError (timed_out k @ ''.''))
             else (case (map_of producer ''service'', map_of producer ''method'') of
                 (Some s, Some m) \<Rightarrow> Inl (TimeoutError (timed_out k @ '' from '' @
                    shown (Some s) @ ''.'' @ shown (Some m) @ ''.''))
               | _ \<Rightarrow> Inl (KeyError ''service''))
         | Inl e \<Rightarrow> Inl e)
      else map_sum id (\<lambda>rest. (k, v) # rest) (resolve_args env r now future_args args))"

section \<open>Executing\<close>

definition initial_fields :: "call \<Rightarrow> dict \<Rightarrow> hash" where
  "initial_fields data args =
     [(''id'', Raw (or_empty (c_future_id data))), (''request_id'', Raw (or_empty (c_request_id data))),
      (''parent'', Raw (or_empty (c_parent data))), (''service'', Raw (or_empty (c_service data))),
      (''method'', Raw (or_empty (c_function data))), (''args'', Doc (VDict args)), (''failed'', Doc (VInt 0)),
      (''error'', Raw [])] @
     (case c_created_at data of None \<Rightarrow> [] | Some t \<Rightarrow> [(''created_at'', t)])"

definition count_metric :: "lenv \<Rightarrow> string \<Rightarrow> int \<Rightarrow> unit lstep" where
  "count_metric env field n =
     bnd (rdo (rd_hincrby (own_key env ''metrics'') field n)) (\<lambda>res. bnd (of_res res) (\<lambda>_. ret ()))"

text \<open>The \<open>try\<close> block, up to the point where the call has succeeded: its result once it is written,
  \<open>None\<close> when the call was cut off.\<close>

definition run_method :: "lenv \<Rightarrow> running \<Rightarrow> nat \<Rightarrow> dict \<Rightarrow> rtext option lstep" where
  "run_method env e n args =
     (let data = e_call e; fid = or_empty (c_future_id data); is_root = \<not> given (c_parent data) in
      bnd (pass (a_duration env n)) (\<lambda>_.
      bnd (of_res (a_method env n (or_empty (c_function data)) args)) (\<lambda>x.
      bnd (read_st l_now) (\<lambda>now.
      bnd (of_res (root_result env now is_root x)) (\<lambda>y.
      bnd (of_res (serialize y)) (\<lambda>t.
      bnd (read_st l_cut_off) (\<lambda>cut.
      if fid \<in> set cut then ret None
      else
        bnd (rtell (rd_hset (future_key fid) ''result'' t)) (\<lambda>_.
        bnd (rtell (rd_hset (future_key fid) ''failed'' (Doc (VInt 0)))) (\<lambda>_. ret (Some t))))))))))"

definition failed_body :: "lenv \<Rightarrow> string \<Rightarrow> bool \<Rightarrow> exn \<Rightarrow> unit lstep" where
  "failed_body env fid started err =
     (let own_failure = started \<and> (case err of AgentCallError _ \<Rightarrow> False | _ \<Rightarrow> True) in
      bnd (mark_future_failed env (Some fid) (Raised err) None None own_failure False) (\<lambda>_.
      if own_failure then count_metric env ''full_failures'' 1 else ret ()))"

text \<open>The \<open>except\<close> block after \<open>succeeded\<close> was or was not set: what the \<open>finally\<close> block finds, and the
  exception that goes on.\<close>

definition excepted :: "lenv \<Rightarrow> string \<Rightarrow> rtext option \<Rightarrow> bool \<Rightarrow> exn \<Rightarrow> (rtext option \<times> exn option) lstep" where
  "excepted env fid succeeded started err =
     bnd (tried (failed_body env fid started err)) (\<lambda>res.
     ret (succeeded, case res of Inl e \<Rightarrow> Some e | Inr _ \<Rightarrow> None))"

definition try_body :: "lenv \<Rightarrow> running \<Rightarrow> nat \<Rightarrow> (rtext option \<times> exn option) lstep" where
  "try_body env e n =
     (let fid = or_empty (c_future_id (e_call e)) in
      bnd (read_st (\<lambda>l. resolve_args env (l_redis l) (l_now l) (e_future_args e) (e_args e))) (\<lambda>args.
      case args of
        Inl err \<Rightarrow> excepted env fid None False err
      | Inr args \<Rightarrow>
          bnd (tried (run_method env e n args)) (\<lambda>res.
          case res of
            Inl err \<Rightarrow> excepted env fid None True err
          | Inr None \<Rightarrow> ret (None, None)
          | Inr (Some t) \<Rightarrow>
              bnd (tried (fan_out_to_consumers env (Some fid) (Some t) False (Raw []))) (\<lambda>sent.
              case sent of
                Inl err \<Rightarrow> excepted env fid (Some t) True err
              | Inr _ \<Rightarrow> ret (Some t, None)))))"

text \<open>The \<open>finally\<close> block: the call's measurements, its counters, the callback to its origin.\<close>

definition final_fields :: "lenv \<Rightarrow> rat \<Rightarrow> rat \<times> rat \<Rightarrow> rat \<Rightarrow> exn + hash" where
  "final_fields env now used queue_time = redis_fields
     [(''finished_at'', Some (Doc (VFloat (Fin now)))), (''cpu_resource'', Some (Doc (VFloat (Fin (fst used))))),
      (''gpu_resource'', Some (Doc (VFloat (Fin (snd used))))), (''agent'', raw_opt (a_replica_id env)),
      (''queue_time'', Some (Doc (VFloat (Fin queue_time))))]"

definition report_back :: "lenv \<Rightarrow> call \<Rightarrow> rtext option \<Rightarrow> unit lstep" where
  "report_back env data result =
     (let fid = or_empty (c_future_id data) in
      bnd (read_st l_cut_off) (\<lambda>cut.
      if given (c_origin data) \<and> c_origin data \<noteq> Some (a_address env) \<and> fid \<notin> set cut then
        (case result of
           Some t \<Rightarrow> send_result_callback env (or_empty (c_origin data)) fid (Some t) False (Raw [])
         | None \<Rightarrow> bnd (rask (rd_hget (future_key fid) ''error'')) (\<lambda>err.
             send_result_callback env (or_empty (c_origin data)) fid None True (case err of None \<Rightarrow> Raw [] | Some t \<Rightarrow> t)))
      else ret ()))"

definition finish_call :: "lenv \<Rightarrow> running \<Rightarrow> nat \<Rightarrow> rat \<Rightarrow> rtext option \<Rightarrow> unit lstep" where
  "finish_call env e n start result =
     (let data = e_call e; fid = or_empty (c_future_id data); queue_time = max (start - e_submitted_at e) 0 in
      bnd (read_st l_now) (\<lambda>now.
      bnd (of_res (final_fields env now (a_usage env n) queue_time)) (\<lambda>h.
      bnd (rtell (rd_hset_multiple (future_key fid) h)) (\<lambda>_.
      bnd (count_metric env ''requests_completed'' 1) (\<lambda>_.
      bnd (count_metric env ''execution_ms_total'' (py_round (max (now - start) 0 * 1000))) (\<lambda>_.
      bnd (count_metric env ''queue_time_ms_total'' (py_round (queue_time * 1000))) (\<lambda>_.
      bnd (report_back env data result) (\<lambda>_.
      if given (c_parent data) then ret ()
      else bnd (of_res (case c_request_id data of None \<Rightarrow> Inl (RedisError ''DataError'') | Some rid \<Rightarrow> Inr rid)) (\<lambda>rid.
        rtell (rd_sadd ''request:completed'' [rid]))))))))))"

definition execute_locally :: "lenv \<Rightarrow> running \<Rightarrow> unit lstep" where
  "execute_locally env e =
     (let data = e_call e; fid = or_empty (c_future_id data) in
      bnd (read_st l_now) (\<lambda>start.
      bnd (rtell (rd_hset_multiple (future_key fid) (initial_fields data (e_args e)))) (\<lambda>_.
      bnd (if given (c_request_id data)
           then rtell (rd_sadd (request_key (or_empty (c_request_id data)) ''futures'') [fid]) else ret ()) (\<lambda>_.
      if \<not> a_loaded env then
        mark_future_failed env (Some fid) (Plain ''No agent loaded'') (c_origin data) (Some ''NoAgentLoaded'') True False
      else if \<not> a_has_method env (or_empty (c_function data)) then
        mark_future_failed env (Some fid) (Plain (''Agent '' @ a_agent_name env @ '' has no method '' @ quoted (or_empty (c_function data))))
          (c_origin data) (Some ''UnknownMethod'') True False
      else
        bnd (count_metric env ''requests_served'' 1) (\<lambda>_.
        bnd draw (\<lambda>n.
        bnd (try_body env e n) (\<lambda>(result, pending).
        bnd (finish_call env e n start result) (\<lambda>_.
        case pending of Some err \<Rightarrow> raise err | None \<Rightarrow> ret ()))))))))"

text \<open>A worker takes the oldest call; an exception of it ends in the executor's future, and the call
  is forgotten in the end.\<close>

definition work :: "lenv \<Rightarrow> unit lstep" where
  "work env =
     bnd (read_st l_running) (\<lambda>calls.
     case calls of
       [] \<Rightarrow> ret ()
     | e # rest \<Rightarrow>
         bnd (catch (execute_locally env e) (\<lambda>_. ret ())) (\<lambda>_.
         modify_st (\<lambda>l. l\<lparr>l_running := filter (\<lambda>x. x \<noteq> e) (l_running l)\<rparr>)))"

end
