(* ===== verification/Replica_Frontend.thy ===== *)
theory Replica_Frontend
  imports Replica_Calls
begin

text \<open>
  The gRPC frontend of a replica (\<open>controller/local_controller_frontend.py\<close>): requests taken or
  turned away, results that arrive, and the clean-up of finished requests.
\<close>

definition EXECUTE_DEDUP_TTL_SECONDS :: int where "EXECUTE_DEDUP_TTL_SECONDS = 3600"
definition RESULT_TTL_SECONDS :: int where "RESULT_TTL_SECONDS = 24 * 3600"

definition FUTURE_CLEANUP_GRACE_SECONDS :: "lenv \<Rightarrow> int" where
  "FUTURE_CLEANUP_GRACE_SECONDS env = \<lceil>max 30 (a_interval env * 3)\<rceil>"

section \<open>Taking a request\<close>

datatype reply = Queued | Turned refusal | Aborted

definition accepted_key :: "lenv \<Rightarrow> string \<Rightarrow> string" where
  "accepted_key env fid = ''execute:'' @ a_address env @ '':'' @ fid @ '':accepted''"

text \<open>Whether this replica took the request before; it claims it when not. A Redis that does not
  answer lets it through.\<close>

definition already_accepted :: "lenv \<Rightarrow> payload \<Rightarrow> bool lstep" where
  "already_accepted env payload =
     (let fid = (case payload of Request data \<Rightarrow> c_future_id data | _ \<Rightarrow> None) in
      if \<not> given fid then ret False
      else catch
        (bnd (rdo (rd_set_opts (accepted_key env (or_empty fid)) (Doc (VInt 1)) True (Some EXECUTE_DEDUP_TTL_SECONDS))) (\<lambda>fresh.
         ret (\<not> fresh)))
        (\<lambda>_. ret False))"

definition is_forwarded :: "payload \<Rightarrow> bool" where
  "is_forwarded payload \<longleftrightarrow> (case payload of Request data \<Rightarrow> c_route_to data \<noteq> None | _ \<Rightarrow> False)"

definition Execute :: "lenv \<Rightarrow> payload \<Rightarrow> reply lstep" where
  "Execute env payload =
     bnd (read_st l_refusing) (\<lambda>refusing.
     if refusing \<and> is_forwarded payload then ret Aborted
     else bnd (already_accepted env payload) (\<lambda>dup.
       if dup then ret Queued
       else bnd (case payload of
            Request data \<Rightarrow> if is_forwarded payload then ret None else admit env data
          | _ \<Rightarrow> ret None) (\<lambda>verdict.
         case verdict of
           Some rf \<Rightarrow> ret (Turned rf)
         | None \<Rightarrow> bnd (enqueue payload) (\<lambda>_. ret Queued))))"

section \<open>A result arrives\<close>

definition write_body :: "lenv \<Rightarrow> hash \<Rightarrow> unit lstep" where
  "write_body env data =
     (case map_of data ''future_id'' of
        Some (Raw (c # cs)) \<Rightarrow>
          (let fid = c # cs; failed = (map_of data ''failed'' \<notin> {None, Some (Doc (VInt 0))});
               err = (if opt_truthy (map_of data ''error'') then the (map_of data ''error'') else Raw []) in
           bnd (rtell (rd_hset_multiple (future_key fid) data)) (\<lambda>_.
           bnd (fan_out_to_consumers env (Some fid) (map_of data ''result'') failed err) (\<lambda>_.
           if \<not> opt_truthy (map_of data ''parent'') \<and> opt_truthy (map_of data ''request_id'')
           then catch (fail_waiting_questions env (shown (map_of data ''request_id''))) (\<lambda>_. ret ())
           else ret ())))
      | _ \<Rightarrow> ret ())"

definition WriteResult :: "lenv \<Rightarrow> hash option \<Rightarrow> unit lstep" where
  "WriteResult env payload = (case payload of
       None \<Rightarrow> ret ()
     | Some data \<Rightarrow> catch (write_body env data) (\<lambda>_. ret ()))"

section \<open>Cleaning up finished requests\<close>

definition delivered_key :: "string \<Rightarrow> string" where
  "delivered_key rid = ''telemetry:delivered:'' @ rid"

definition outcome_of :: "hash \<Rightarrow> hash" where
  "outcome_of record = concat (map (\<lambda>k. case map_of record k of None \<Rightarrow> [] | Some t \<Rightarrow> [(k, t)])
     [''result'', ''failed'', ''error'', ''error_message''])"

text \<open>The keys a request leaves; its telemetry marker goes last.\<close>

definition request_keys :: "string \<Rightarrow> string list \<Rightarrow> string list" where
  "request_keys rid fids =
     [request_key rid ''futures'', request_key rid ''future'', request_key rid ''context'', request_key rid ''waiting''] @
     concat (map (\<lambda>fid. [future_key fid, future_key fid @ '':children'', consumers_key fid]) fids)"

definition keys_to_expire :: "string \<Rightarrow> string list \<Rightarrow> string list" where
  "keys_to_expire rid fids = request_keys rid fids @ [delivered_key rid]"

fun expire_all :: "int \<Rightarrow> string list \<Rightarrow> redis \<Rightarrow> redis" where
  "expire_all seconds [] r = r"
| "expire_all seconds (k # ks) r = expire_all seconds ks (rd_expire k seconds True r)"

definition keep_outcome :: "string \<Rightarrow> redis \<Rightarrow> (exn + unit) \<times> redis" where
  "keep_outcome rid r = (case rd_get (request_key rid ''future'') r of
       None \<Rightarrow> (Inr (), r)
     | Some root_id \<Rightarrow>
         if \<not> text_truthy root_id then (Inr (), r)
         else let outcome = outcome_of (rd_hgetall (future_key (shown (Some root_id))) r) in
           if outcome = [] then (Inl (RedisError ''DataError''), r)
           else (Inr (), rd_expire (request_key rid ''result'') RESULT_TTL_SECONDS False
                   (rd_hset_multiple (request_key rid ''result'') outcome r)))"

definition cleanup_body :: "lenv \<Rightarrow> string \<Rightarrow> unit lstep" where
  "cleanup_body env rid =
     (let grace = FUTURE_CLEANUP_GRACE_SECONDS env in
      bnd (rask (rd_smembers (request_key rid ''futures''))) (\<lambda>fids.
      if fids = [] then rtell (rd_expire (delivered_key rid) grace True)
      else bnd (rdo (keep_outcome rid)) (\<lambda>res.
        bnd (of_res res) (\<lambda>_.
        bnd (rtell (expire_all grace (keys_to_expire rid fids))) (\<lambda>_.
        rtell (rd_delete [affinity_key rid]))))))"

definition cleanup_request :: "lenv \<Rightarrow> string \<Rightarrow> unit lstep" where
  "cleanup_request env rid =
     bnd (rask (rd_ttl (delivered_key rid))) (\<lambda>ttl.
     if ttl > 0 then ret ()
     else bnd (rask (rd_get (delivered_key rid))) (\<lambda>delivered.
       if \<not> opt_truthy delivered then ret ()
       else bnd (rdo (rd_setnx (request_key rid ''cleanup_lock'') (Raw (a_address env)))) (\<lambda>claimed.
         if \<not> claimed then ret ()
         else finally_do (cleanup_body env rid) (rtell (rd_delete [request_key rid ''cleanup_lock''])))))"

definition Cleanup :: "lenv \<Rightarrow> string list \<Rightarrow> unit lstep" where
  "Cleanup env rids = for_each rids (\<lambda>rid.
     bnd (modify_st (\<lambda>l. l\<lparr>l_open := removeAll rid (l_open l)\<rparr>)) (\<lambda>_.
     catch (cleanup_request env rid) (\<lambda>_. ret ())))"

end
