(* ===== verification/Replica_Drain.thy ===== *)
theory Replica_Drain
  imports Replica_Execution Replica_Frontend
begin

text \<open>
  The heartbeat of a replica (\<open>_metrics_loop\<close> of \<open>controller/local_controller.py\<close>): its metrics and
  status, the watch over its LLM gateway, its drain, and the calls of replicas that are gone.
\<close>

definition MAX_GATEWAY_RESTARTS :: nat where "MAX_GATEWAY_RESTARTS = 3"

definition status_name :: "status \<Rightarrow> string" where
  "status_name s = (case s of Initializing \<Rightarrow> ''initializing'' | Healthy \<Rightarrow> ''healthy''
     | StatusFailed \<Rightarrow> ''failed'' | Stopped \<Rightarrow> ''stopped'')"

definition status_text :: "status \<Rightarrow> rtext" where
  "status_text s = Raw (status_name s)"

text \<open>\<open>_set_status\<close>: held in memory whatever Redis does; \<open>best_effort\<close> swallows its error.\<close>

definition set_status :: "lenv \<Rightarrow> status \<Rightarrow> bool \<Rightarrow> unit lstep" where
  "set_status env s best_effort =
     bnd (modify_st (\<lambda>l. l\<lparr>l_status := s\<rparr>)) (\<lambda>_.
     if best_effort then catch (rtell (rd_set (own_key env ''status'') (status_text s))) (\<lambda>_. ret ())
     else rtell (rd_set (own_key env ''status'') (status_text s)))"

definition mark_ready :: "lenv \<Rightarrow> unit lstep" where "mark_ready env = set_status env Healthy False"
definition mark_failed :: "lenv \<Rightarrow> unit lstep" where "mark_failed env = set_status env StatusFailed True"
definition mark_stopped :: "lenv \<Rightarrow> unit lstep" where "mark_stopped env = set_status env Stopped True"

definition runs_agent :: "lenv \<Rightarrow> bool" where
  "runs_agent env \<longleftrightarrow> a_agent_name env \<noteq> [] \<or> a_agent_file env \<noteq> []"

definition health :: "lenv \<Rightarrow> lc \<Rightarrow> status \<times> bool \<times> string" where
  "health env l =
     (if \<not> l_metrics_on l then (l_status l, False, ''metrics thread stopped'')
      else if runs_agent env \<and> \<not> l_gateway_up l then (l_status l, False, ''LLM gateway exited with code '' @ str_int (a_gateway_code env))
      else (l_status l, True, ''alive''))"

text \<open>The three probes: started, ready and alive.\<close>

definition health_checks :: "lenv \<Rightarrow> lc \<Rightarrow> (bool \<times> string) \<times> (bool \<times> string) \<times> (bool \<times> string)" where
  "health_checks env l =
     (let h = health env l in
      ((fst h \<noteq> Initializing, status_name (fst h)), (fst h = Healthy, status_name (fst h)), snd h))"

section \<open>Metrics\<close>

definition as_text :: "int \<Rightarrow> rtext" where "as_text i = Doc (VInt i)"

text \<open>The executor's work queue: the calls submitted beyond those its workers run.\<close>

definition queue_length :: "lenv \<Rightarrow> lc \<Rightarrow> int" where
  "queue_length env l = int (length (l_running l) - a_workers env)"

definition collect_metrics :: "lenv \<Rightarrow> lc \<Rightarrow> hash" where
  "collect_metrics env l =
     [(''status'', Raw ''healthy''), (''queue_length'', as_text (queue_length env l)),
      (''draining'', as_text (if l_draining l then 1 else 0)), (''open_requests'', as_text (int (length (l_open l)))),
      (''pending_requests'', as_text (l_unfinished l + l_unsent l)), (''observed_at'', Doc (VFloat (Fin (l_now l))))]"

definition watch_gateway :: "lenv \<Rightarrow> unit lstep" where
  "watch_gateway env =
     (if \<not> runs_agent env then ret ()
      else bnd (read_st (\<lambda>l. (l_gateway_up l, l_gateway_restarts l))) (\<lambda>(up, restarts).
        if up then ret ()
        else if restarts \<ge> MAX_GATEWAY_RESTARTS then
          bnd (mark_failed env) (\<lambda>_. modify_st (\<lambda>l. l\<lparr>l_metrics_on := False\<rparr>))
        else bnd (modify_st (\<lambda>l. l\<lparr>l_gateway_restarts := Suc restarts\<rparr>)) (\<lambda>_.
          bnd draw (\<lambda>n.
          if a_gateway_starts env n then modify_st (\<lambda>l. l\<lparr>l_gateway_up := True\<rparr>)
          else raise (RuntimeError ''LLM gateway failed to start'')))))"

section \<open>Draining\<close>

text \<open>\<open>_fail_unfinished\<close>: every request is taken off the queue; one that is JSON but no object raises
  there, before any call is failed.\<close>

definition queued_calls :: "payload list \<Rightarrow> call list" where
  "queued_calls q = concat (map (\<lambda>raw. case raw of Request data \<Rightarrow> [data] | _ \<Rightarrow> []) q)"

definition take_queue :: "call list lstep" where
  "take_queue =
     bnd (read_st l_queue) (\<lambda>q.
     let taken = takeWhile (\<lambda>raw. raw \<noteq> NotObject) q; rest = dropWhile (\<lambda>raw. raw \<noteq> NotObject) q;
         n = length taken + (if rest = [] then 0 else 1) in
     bnd (modify_st (\<lambda>l. l\<lparr>l_unfinished := l_unfinished l - int n, l_queue := tl rest\<rparr>)) (\<lambda>_.
     if rest = [] then ret (queued_calls taken) else raise (AttributeError ''get'')))"

definition fail_unfinished :: "lenv \<Rightarrow> unit lstep" where
  "fail_unfinished env =
     bnd (read_st (\<lambda>l. map e_call (l_running l))) (\<lambda>runs.
     bnd take_queue (\<lambda>queued.
     bnd (modify_st (\<lambda>l. l\<lparr>l_cut_off := l_cut_off l @ map (\<lambda>c. or_empty (c_future_id c)) (runs @ queued)\<rparr>)) (\<lambda>_.
     for_each (runs @ queued) (\<lambda>data.
       mark_future_failed env (c_future_id data)
         (Plain (show_opt (c_service data) @ ''.'' @ show_opt (c_function data) @
            '' stopped before it finished: its replica was removed (scaled down or replaced).''))
         (c_origin data) (Some ''ReplicaRemovedError'') True False))))"

definition removal_time :: "lenv \<Rightarrow> rtext option lstep" where
  "removal_time env =
     bnd (read_st l_shutdown_at) (\<lambda>ending.
     case ending of
       Some t \<Rightarrow> ret (Some (Doc (VFloat (Fin t))))
     | None \<Rightarrow> rask (rd_get (own_key env ''draining'')))"

definition drain_due :: "lenv \<Rightarrow> rat \<Rightarrow> pyfloat \<Rightarrow> bool" where
  "drain_due env now t = (case t of Fin q \<Rightarrow> now \<ge> q - 2 * a_interval env | NInf \<Rightarrow> True | _ \<Rightarrow> False)"

definition leftovers :: "lenv \<Rightarrow> rtext option \<Rightarrow> unit lstep" where
  "leftovers env remove_at =
     bnd (read_st (\<lambda>l. (l_draining l, l_failed_leftovers l, l_now l))) (\<lambda>(draining, done, now).
     if \<not> draining \<or> done then ret ()
     else bnd (of_res (case float_text (the remove_at) of None \<Rightarrow> Inl (ValueError ''float'') | Some f \<Rightarrow> Inr f)) (\<lambda>t.
       if drain_due env now t then
         bnd (modify_st (\<lambda>l. l\<lparr>l_failed_leftovers := True\<rparr>)) (\<lambda>_. fail_unfinished env)
       else ret ()))"

definition known_addresses :: "hash \<Rightarrow> exn + string list" where
  "known_addresses published = res_bnd (res_all (\<lambda>(_, t). address_list t) published) (\<lambda>xs. Inr (concat xs))"

definition fail_calls_to_gone_replicas :: "lenv \<Rightarrow> unit lstep" where
  "fail_calls_to_gone_replicas env =
     bnd (rask (rd_hgetall ROUTING_REPLICAS_KEY)) (\<lambda>published.
     if published = [] then ret ()
     else bnd (of_res (known_addresses published)) (\<lambda>known.
       bnd (read_st l_forwarded) (\<lambda>forwarded.
       for_each forwarded (\<lambda>(fid, target).
         if target \<in> set known then ret ()
         else bnd (rask (rd_hgetall (future_key fid))) (\<lambda>call.
           mark_future_failed env (Some fid)
             (Plain (shown (map_of call ''service'') @ ''.'' @ shown (map_of call ''method'') @
                '' stopped before it finished: its replica is gone (its machine may have stopped).''))
             None (Some ''ReplicaRemovedError'') True False)))))"

definition is_idle_now :: "lenv \<Rightarrow> lc \<Rightarrow> bool" where
  "is_idle_now env l \<longleftrightarrow> l_draining l \<and> queue_length env l = 0 \<and> l_open l = [] \<and> l_unfinished l + l_unsent l = 0 \<and> l_running l = []"

definition drain_until :: "rat \<Rightarrow> unit lstep" where
  "drain_until remove_at = modify_st (\<lambda>l. case l_shutdown_at l of
       None \<Rightarrow> l\<lparr>l_shutdown_at := Some remove_at\<rparr> | Some _ \<Rightarrow> l)"

section \<open>The heartbeat\<close>

definition heartbeat :: "lenv \<Rightarrow> unit lstep" where
  "heartbeat env =
     bnd (watch_gateway env) (\<lambda>_.
     bnd (removal_time env) (\<lambda>remove_at.
     bnd (modify_st (\<lambda>l. l\<lparr>l_draining := (remove_at \<noteq> None),
            l_refusing := (remove_at \<noteq> None \<and> a_agent_name env \<notin> set (l_stateful l))\<rparr>)) (\<lambda>_.
     bnd (leftovers env remove_at) (\<lambda>_.
     bnd (read_st (collect_metrics env)) (\<lambda>metrics.
     bnd (rtell (rd_hset_multiple (own_key env ''metrics'') metrics)) (\<lambda>_.
     bnd (read_st l_status) (\<lambda>s.
     bnd (if s = Healthy then rtell (rd_set (own_key env ''status'') (status_text Healthy)) else ret ()) (\<lambda>_.
     bnd load_routing (\<lambda>_. fail_calls_to_gone_replicas env)))))))))"

text \<open>One turn of the loop: whether it goes on.\<close>

definition metrics_tick :: "lenv \<Rightarrow> bool lstep" where
  "metrics_tick env =
     bnd (refresh_rules env) (\<lambda>_.
     bnd (catch (heartbeat env) (\<lambda>_. ret ())) (\<lambda>_.
     bnd (read_st (\<lambda>l. case l_shutdown_at l of None \<Rightarrow> False | Some t \<Rightarrow> is_idle_now env l \<or> l_now l \<ge> t)) (\<lambda>over.
     if over then bnd (modify_st (\<lambda>l. l\<lparr>l_drained := True\<rparr>)) (\<lambda>_. ret False)
     else bnd (pass (a_interval env)) (\<lambda>_. read_st l_metrics_on))))"

end
