(* ===== verification/Replica_Invariants.thy ===== *)
theory Replica_Invariants
  imports Replica_Drain
begin

text \<open>
  What a replica has in hand, over every order of events: requests queued and served, calls
  answered, timers fired, calls run, results written, heartbeats and drains. The locale
  \<open>unaffected\<close> names the predicates that reporting a result or a failure cannot change.
\<close>

section \<open>Predicates reporting leaves alone\<close>

locale unaffected =
  fixes P :: "lc \<Rightarrow> bool"
  assumes P_redis: "\<And>l r. P l \<Longrightarrow> P (l\<lparr>l_redis := r\<rparr>)"
    and P_drawn: "\<And>l n. P l \<Longrightarrow> P (l\<lparr>l_drawn := n\<rparr>)"
    and P_sent: "\<And>l s. P l \<Longrightarrow> P (l\<lparr>l_sent := s\<rparr>)"
    and P_now: "\<And>l t. P l \<Longrightarrow> P (l\<lparr>l_now := t\<rparr>)"
    and P_forwarded: "\<And>l f. P l \<Longrightarrow> P (l\<lparr>l_forwarded := f\<rparr>)"
    and P_routing: "\<And>l f. P l \<Longrightarrow> P (l\<lparr>l_routing := f\<rparr>)"
    and P_stateful: "\<And>l f. P l \<Longrightarrow> P (l\<lparr>l_stateful := f\<rparr>)"
    and P_rules: "\<And>l f. P l \<Longrightarrow> P (l\<lparr>l_rules := f\<rparr>)"
begin

lemma keeps_rask: "keeps P (rask f)"
  by (simp add: keeps_def rask_def)

lemma keeps_rtell: "keeps P (rtell f)"
  by (simp add: keeps_def rtell_def P_redis)

lemma keeps_rdo: "keeps P (rdo f)"
  by (simp add: keeps_def rdo_def P_redis)

lemma keeps_draw: "keeps P draw"
  by (simp add: keeps_def draw_def P_drawn)

lemma keeps_pass: "keeps P (pass d)"
  by (simp add: pass_def keeps_modify P_now)

lemma keeps_tried: "keeps P m \<Longrightarrow> keeps P (tried m)"
  by (simp add: keeps_def tried_def)

lemmas basics = keeps_rask keeps_rtell keeps_rdo keeps_draw keeps_pass keeps_tried

lemma keeps_rpc: "keeps P (rpc env a m)"
  unfolding rpc_def by (intro pres_intros basics keeps_modify P_sent)

lemma keeps_send_tries: "keeps P (send_tries env n b a m)"
  by (induction n arbitrary: b) (auto intro!: pres_intros basics keeps_rpc)

lemma keeps_deliver: "(\<And>x. keeps P (u x)) \<Longrightarrow> keeps P (deliver env orig fid result failed err u)"
  unfolding deliver_def call_with_retry_def Let_def
  by (intro pres_intros basics keeps_send_tries keeps_rpc)

lemma keeps_send_failure: "keeps P (send_failure env orig fid err)"
  unfolding send_failure_def by (intro keeps_deliver pres_intros)

lemma keeps_forget_forward: "keeps P (forget_forward fid)"
  unfolding forget_forward_def by (intro keeps_modify P_forwarded)

lemma keeps_fan_out_failure: "keeps P (fan_out_failure env fid err)"
  unfolding fan_out_failure_def by (intro pres_intros basics keeps_send_failure keeps_forget_forward)

lemma keeps_append_log: "keeps P (append_log_entry key entry)"
  unfolding append_log_entry_def by (intro pres_intros basics)

lemma keeps_mark_failed: "keeps P (mark_future_failed env fid error orig ename log_entry before_start)"
  unfolding mark_future_failed_def record_failure_def spread_failure_def Let_def
  by (intro pres_intros basics keeps_append_log keeps_fan_out_failure keeps_send_failure)

lemma keeps_send_result: "keeps P (send_result_callback env orig fid result failed err)"
  unfolding send_result_callback_def by (intro keeps_deliver keeps_mark_failed)

lemma keeps_fan_out: "keeps P (fan_out_to_consumers env fid result failed err)"
  unfolding fan_out_to_consumers_def by (intro pres_intros basics keeps_send_result keeps_forget_forward)

lemma keeps_fail_waiting: "keeps P (fail_waiting env rid n)"
  by (induction n) (auto intro!: pres_intros basics keeps_mark_failed)

lemma keeps_fail_questions: "keeps P (fail_waiting_questions env rid)"
  unfolding fail_waiting_questions_def by (intro pres_intros basics keeps_fail_waiting)

lemma keeps_load_routing: "keeps P load_routing"
  unfolding load_routing_def by (intro pres_intros basics keeps_modify P_routing P_stateful)

lemma keeps_refresh_rules: "keeps P (refresh_rules env)"
  unfolding refresh_rules_def by (intro pres_intros basics keeps_modify P_rules)

lemma keeps_context: "keeps P (request_context data)"
  unfolding request_context_def by (intro pres_intros basics)

lemma keeps_admit: "keeps P (admit env data)"
  unfolding admit_def Let_def by (intro pres_intros basics keeps_context keeps_mark_failed)

lemma keeps_resolve: "keeps P (resolve_address env a rid)"
  unfolding resolve_address_def addresses_of_def pick_random_def
  by (intro pres_intros basics keeps_load_routing)

lemma keeps_foreign: "keeps P (foreign_argument rid xs)"
  by (induction rid xs rule: foreign_argument.induct) (auto intro!: pres_intros basics)

lemma keeps_ask_human: "keeps P (ask_human env data)"
  unfolding ask_human_def fail_if_over_def Let_def by (intro pres_intros basics keeps_fail_questions)

lemma keeps_register: "keeps P (register_consumer env target x)"
  unfolding register_consumer_def by (intro pres_intros basics keeps_send_result)

lemma keeps_count_metric: "keeps P (count_metric env f n)"
  unfolding count_metric_def by (intro pres_intros basics)

lemma keeps_execute: "keeps P (execute_locally env e)"
  unfolding execute_locally_def try_body_def excepted_def run_method_def failed_body_def finish_call_def report_back_def Let_def
  by (intro pres_intros basics keeps_mark_failed keeps_count_metric keeps_fan_out keeps_send_result)

lemma keeps_write_result: "keeps P (WriteResult env payload)"
  unfolding WriteResult_def write_body_def Let_def
  by (auto intro!: pres_intros basics keeps_fan_out keeps_fail_questions split: option.split rtext.split list.split)

end

section \<open>What is in hand\<close>

text \<open>\<open>unfinished_tasks\<close> exceeds the queue by \<open>k\<close> requests being served, and \<open>_unsent\<close> the calls on the
  wire and in timers by \<open>j\<close> being answered; no timer holds a call past its retries.\<close>

definition counted :: "int \<Rightarrow> int \<Rightarrow> lc \<Rightarrow> bool" where
  "counted j k l \<longleftrightarrow> l_unsent l = int (length (l_inflight l)) + int (length (l_timers l)) + j \<and>
     l_unfinished l = int (length (l_queue l)) + k \<and> (\<forall>c\<in>set (l_timers l). c_retries c \<le> FORWARD_RETRIES)"

interpretation counted: unaffected "counted j k" for j k
  by unfold_locales (simp_all add: counted_def)

lemma counted_upd:
  "counted j k (l\<lparr>l_open := a\<rparr>) = counted j k l" "counted j k (l\<lparr>l_running := b\<rparr>) = counted j k l"
  "counted j k (l\<lparr>l_cut_off := x\<rparr>) = counted j k l"
  "counted j k (l\<lparr>l_down_until := c\<rparr>) = counted j k l" "counted j k (l\<lparr>l_forwarded := d\<rparr>) = counted j k l"
  "counted j k (l\<lparr>l_status := e\<rparr>) = counted j k l" "counted j k (l\<lparr>l_metrics_on := f\<rparr>) = counted j k l"
  "counted j k (l\<lparr>l_gateway_up := f\<rparr>) = counted j k l" "counted j k (l\<lparr>l_gateway_restarts := g\<rparr>) = counted j k l"
  "counted j k (l\<lparr>l_drained := f\<rparr>) = counted j k l" "counted j k (l\<lparr>l_failed_leftovers := f\<rparr>) = counted j k l"
  "counted j k (l\<lparr>l_shutdown_at := h\<rparr>) = counted j k l"
  "counted j k (l\<lparr>l_draining := f, l_refusing := f'\<rparr>) = counted j k l"
  by (simp_all add: counted_def)

lemma counted_forward: "keeps (counted j k) (forward_request env target data)"
  unfolding forward_request_def count_unsent_def Let_def
  by (rule keepsI) (simp add: counted_def bnd_def modify_st_def)

lemma counted_process: "keeps (counted j k) (process_request env data)"
  unfolding process_request_def unpack_baggage_def target_of_def dispatch_def send_on_def submit_def refuse_def
  by (intro pres_intros counted.basics counted.keeps_context counted.keeps_mark_failed counted.keeps_resolve
      counted.keeps_foreign counted.keeps_ask_human counted.keeps_register counted_forward keeps_modify)
    (simp_all add: counted_upd)

lemma counted_process_raw: "keeps (counted j k) (process_raw env raw)"
  unfolding process_raw_def by (intro pres_intros counted_process counted.keeps_mark_failed)

lemma counted_serve: "counted 0 0 l \<Longrightarrow> counted 0 0 (snd (serve env l))"
proof (cases "l_queue l")
  case (Cons raw rest)
  assume c: "counted 0 0 l"
  let ?l = "l\<lparr>l_queue := rest\<rparr>"
  have "counted 0 1 ?l" using c Cons by (simp add: counted_def)
  then have "counted 0 1 (snd (process_raw env raw ?l))" by (rule keepsD[OF counted_process_raw])
  then have "counted 0 0 (snd (finally_do (process_raw env raw) task_done ?l))"
    by (auto simp: finally_do_def task_done_def modify_st_def counted_def split: prod.split sum.split)
  with Cons show ?thesis by (simp add: serve_def bnd_def read_st_def modify_st_def)
qed (simp add: serve_def act_simps)

lemma mark_returns: "\<exists>l'. mark_future_failed env fid error orig ename log_entry before_start l = (Inr (), l')"
  by (auto simp: mark_future_failed_def catch_def ret_def split: prod.split sum.split)

lemma take_nth_length: "i < length xs \<Longrightarrow> length (take_nth i xs) = length xs - 1"
  by (auto simp: take_nth_def)

lemma take_nth_subset: "set (take_nth i xs) \<subseteq> set xs"
  using set_take_subset[of i xs] set_drop_subset[of "Suc i" xs] by (auto simp: take_nth_def)

lemma counted_on_forwarded:
  assumes "counted 1 k l"
  shows "counted 0 k (snd (on_forwarded env x target data l))"
proof -
  have mark: "counted 0 k (snd (bnd (mark_future_failed env fid error orig ename True False) (\<lambda>_. count_unsent (-1)) l))"
    for fid error orig ename
  proof -
    obtain l' where l': "mark_future_failed env fid error orig ename True False l = (Inr (), l')"
      using mark_returns by blast
    have "counted 1 k l'" using keepsD[OF counted.keeps_mark_failed assms, of env fid error orig ename True False] l' by simp
    with l' show ?thesis by (simp add: bnd_def count_unsent_def modify_st_def counted_def)
  qed
  show ?thesis
    using assms mark
    by (auto simp: on_forwarded_def Let_def bnd_run read_run count_unsent_def modify_st_def enqueue_def counted_def)
qed

lemma counted_answer: "counted 0 k l \<Longrightarrow> counted 0 k (snd (answer_call env i x l))"
proof (cases "i < length (l_inflight l)")
  case True
  assume "counted 0 k l"
  with True have "counted 1 k (l\<lparr>l_inflight := take_nth i (l_inflight l)\<rparr>)"
    by (auto simp: counted_def take_nth_length)
  then have "counted 0 k (snd (on_forwarded env x (fst (l_inflight l ! i)) (snd (l_inflight l ! i)) (l\<lparr>l_inflight := take_nth i (l_inflight l)\<rparr>)))"
    by (rule counted_on_forwarded)
  with True show ?thesis by (simp add: answer_call_def bnd_def read_st_def modify_st_def)
qed (simp add: answer_call_def act_simps)

lemma counted_timer: "counted 0 k l \<Longrightarrow> counted 0 k (snd (fire_timer i l))"
  using take_nth_subset[of i "l_timers l"]
  by (auto simp: fire_timer_def resend_def enqueue_def count_unsent_def bnd_def read_st_def modify_st_def ret_def
      counted_def take_nth_length)

lemma counted_work: "keeps (counted j k) (work env)"
  unfolding work_def
  by (intro pres_intros counted.keeps_execute keeps_modify) (auto simp: counted_upd intro!: pres_intros counted.keeps_execute keeps_modify split: list.split)

lemma counted_enqueue: "keeps (counted j k) (enqueue raw)"
  unfolding enqueue_def by (rule keeps_modify) (simp add: counted_def)

lemma counted_Execute: "keeps (counted j k) (Execute env payload)"
  unfolding Execute_def already_accepted_def Let_def
  by (intro pres_intros counted.basics counted.keeps_admit counted_enqueue)

lemma counted_cleanup: "keeps (counted j k) (Cleanup env rids)"
  unfolding Cleanup_def cleanup_request_def cleanup_body_def Let_def
  by (intro pres_intros counted.basics keeps_modify) (simp_all add: counted_upd)

lemma counted_take_queue: "keeps (counted j k) take_queue"
proof (rule keepsI)
  fix l assume c: "counted j k l"
  let ?P = "\<lambda>raw. raw \<noteq> NotObject"
  have len: "length a + length b = n \<Longrightarrow> length a + (if b = [] then 0 else 1) + length (tl b) = n"
    for a b :: "payload list" and n by (cases b) auto
  have "length (takeWhile ?P (l_queue l)) + length (dropWhile ?P (l_queue l)) = length (l_queue l)"
    by (metis length_append takeWhile_dropWhile_id)
  then have "length (takeWhile ?P (l_queue l)) + (if dropWhile ?P (l_queue l) = [] then 0 else 1) +
      length (tl (dropWhile ?P (l_queue l))) = length (l_queue l)"
    by (rule len)
  with c show "counted j k (snd (take_queue l))"
    by (simp add: take_queue_def Let_def bnd_run read_run modify_run ret_run raise_run counted_def split: if_split_asm)
qed

lemma counted_fail_unfinished: "keeps (counted j k) (fail_unfinished env)"
  unfolding fail_unfinished_def
  by (intro pres_intros counted_take_queue counted.keeps_mark_failed keeps_modify) (simp add: counted_upd)

lemma counted_tick: "keeps (counted j k) (metrics_tick env)"
  unfolding metrics_tick_def heartbeat_def watch_gateway_def mark_failed_def set_status_def removal_time_def
    leftovers_def fail_calls_to_gone_replicas_def
  by (intro pres_intros counted.basics counted.keeps_refresh_rules counted.keeps_load_routing counted.keeps_mark_failed
      counted_fail_unfinished keeps_modify) (simp_all add: counted_upd)

lemma counted_drain: "keeps (counted j k) (drain_until t)"
  unfolding drain_until_def by (intro keeps_modify) (auto simp: counted_upd split: option.split)

section \<open>Every order of events\<close>

text \<open>A step of the controller; a step of it or of the world around it: another process writes to
  Redis, Redis goes away or comes back, time passes, the gateway dies.\<close>

inductive own_step :: "lenv \<Rightarrow> lc \<Rightarrow> lc \<Rightarrow> bool" for env where
  Serve: "own_step env l (snd (serve env l))"
| Answer: "own_step env l (snd (answer_call env i x l))"
| Timer: "own_step env l (snd (fire_timer i l))"
| Work: "own_step env l (snd (work env l))"
| Request: "own_step env l (snd (Execute env payload l))"
| Result: "own_step env l (snd (WriteResult env msg l))"
| Clean: "own_step env l (snd (Cleanup env rids l))"
| Tick: "own_step env l (snd (metrics_tick env l))"
| Drain: "own_step env l (snd (drain_until t l))"

definition outside :: "redis \<Rightarrow> bool \<Rightarrow> rat \<Rightarrow> bool \<Rightarrow> lc \<Rightarrow> lc" where
  "outside r d t g l = l\<lparr>l_redis := r, l_down := d, l_now := t, l_gateway_up := g\<rparr>"

inductive lc_step :: "lenv \<Rightarrow> lc \<Rightarrow> lc \<Rightarrow> bool" for env where
  Own: "own_step env l l' \<Longrightarrow> lc_step env l l'"
| Outside: "lc_step env l (outside r d t g l)"

inductive reached :: "lenv \<Rightarrow> lc \<Rightarrow> lc \<Rightarrow> bool" for env l0 where
  start: "reached env l0 l0"
| step: "reached env l0 l \<Longrightarrow> lc_step env l l' \<Longrightarrow> reached env l0 l'"

inductive_cases lc_stepE: "lc_step env l l'"

lemma counted_own: "own_step env l l' \<Longrightarrow> counted 0 0 l \<Longrightarrow> counted 0 0 l'"
  by (induction rule: own_step.induct)
    (auto intro: counted_serve counted_answer counted_timer keepsD[OF counted_work] keepsD[OF counted_Execute]
      keepsD[OF counted.keeps_write_result] keepsD[OF counted_cleanup] keepsD[OF counted_tick] keepsD[OF counted_drain])

lemma counted_step: "lc_step env l l' \<Longrightarrow> counted 0 0 l \<Longrightarrow> counted 0 0 l'"
  by (erule lc_stepE) (simp_all add: counted_own, simp add: outside_def counted_def)

lemma counted_reached: "reached env l0 l \<Longrightarrow> counted 0 0 l0 \<Longrightarrow> counted 0 0 l"
  by (induction rule: reached.induct) (auto intro: counted_step)

definition fresh :: "lc \<Rightarrow> bool" where
  "fresh l \<longleftrightarrow> l_queue l = [] \<and> l_unfinished l = 0 \<and> l_unsent l = 0 \<and> l_inflight l = [] \<and> l_timers l = []"

text \<open>C3: a replica that counts itself idle has nothing in hand, whatever happened before: in every
  state reached from a fresh start by requests, answers, retries, runs, results, clean-ups, heartbeats,
  drains and failures of Redis or the gateway in any order, \<open>pending_requests\<close> is exactly the requests
  queued plus the forwards still on the wire or waiting in a timer, so an idle replica is draining and
  has none of these and no running call; and no forward waits for more than \<open>FORWARD_RETRIES\<close> tries.\<close>

theorem idle_has_nothing_in_hand:
  assumes "fresh l0" "reached env l0 l"
  shows "l_unfinished l + l_unsent l = int (length (l_queue l) + length (l_inflight l) + length (l_timers l)) \<and>
    (\<forall>c\<in>set (l_timers l). c_retries c \<le> FORWARD_RETRIES) \<and>
    (is_idle_now env l \<longrightarrow> l_draining l \<and> l_queue l = [] \<and> l_inflight l = [] \<and> l_timers l = [] \<and> l_running l = [] \<and> l_open l = [])"
proof -
  have "counted 0 0 l0" using assms(1) by (simp add: fresh_def counted_def)
  with assms(2) have "counted 0 0 l" by (rule counted_reached)
  then have c: "l_unsent l = int (length (l_inflight l)) + int (length (l_timers l))"
      "l_unfinished l = int (length (l_queue l))" "\<forall>c\<in>set (l_timers l). c_retries c \<le> FORWARD_RETRIES"
    by (simp_all add: counted_def)
  have none: "length (l_queue l) = 0 \<and> length (l_inflight l) = 0 \<and> length (l_timers l) = 0" if "is_idle_now env l"
    using that c(1, 2) unfolding is_idle_now_def by linarith
  show ?thesis
  proof (intro conjI impI)
    show "l_unfinished l + l_unsent l = int (length (l_queue l) + length (l_inflight l) + length (l_timers l))"
      unfolding c(1) c(2) by simp
    show "\<forall>c\<in>set (l_timers l). c_retries c \<le> FORWARD_RETRIES" by (rule c(3))
  qed (use none in \<open>simp_all add: is_idle_now_def\<close>)
qed

theorem idle_has_nothing_in_hand_witness:
  "l_timers (snd (drain_until 5 (idle_lc empty_redis))) = []"
proof -
  have "fresh (idle_lc empty_redis)" by (simp add: fresh_def idle_lc_def)
  moreover have "reached demo_lenv (idle_lc empty_redis) (snd (drain_until 5 (idle_lc empty_redis)))"
    by (rule reached.step[OF reached.start]) (rule Own, rule Drain)
  ultimately have "l_unfinished (snd (drain_until 5 (idle_lc empty_redis))) + l_unsent (snd (drain_until 5 (idle_lc empty_redis))) =
      int (length (l_queue (snd (drain_until 5 (idle_lc empty_redis)))) + length (l_inflight (snd (drain_until 5 (idle_lc empty_redis))))
        + length (l_timers (snd (drain_until 5 (idle_lc empty_redis)))))"
    using idle_has_nothing_in_hand by blast
  then show ?thesis by (simp add: drain_until_def modify_st_def idle_lc_def)
qed

end
