(* ===== verification/Replica_Accounting.thy ===== *)
theory Replica_Accounting
  imports Replica_Invariants
begin

text \<open>
  No request is lost: what one round of \<open>run\<close> makes of the request at the head of the queue.
\<close>

section \<open>What reporting a failure leaves in Redis\<close>

lemma hget_srem [simp]: "rd_hget k f (rd_srem k' vs r) = rd_hget k f r"
  by (simp add: rd_hget_def rd_hgetall_def rd_srem_def)

lemma hget_sadd [simp]: "rd_hget k f (rd_sadd k' vs r) = rd_hget k f r"
  by (simp add: rd_hget_def rd_hgetall_def rd_sadd_def)

lemma hget_rpop [simp]: "rd_hget k f (snd (rd_rpop k' r)) = rd_hget k f r"
  by (simp add: rd_rpop_def rd_hget_def rd_hgetall_def split: list.split)

lemma lists_writes [simp]:
  "rd_lists (rd_srem k vs r) = rd_lists r" "rd_lists (rd_sadd k vs r) = rd_lists r"
  "rd_lists (rd_hset_multiple k m r) = rd_lists r" "rd_lists (rd_hset k f v r) = rd_lists r"
  by (simp_all add: rd_srem_def rd_sadd_def rd_hset_multiple_def rd_hset_def)

lemma failed_fields [simp]: "map_of (failure_fields now msg ename b) ''failed'' = Some (Doc (VInt 1))"
  "map_of (failure_fields now msg ename b) ''result'' = None"
  by (simp_all add: failure_fields_def)

text \<open>Facts of Redis that hold through a failure being recorded and sent on, while Redis answers.\<close>

locale reporting =
  fixes R :: "redis \<Rightarrow> bool"
  assumes R_srem: "\<And>k vs r. R r \<Longrightarrow> R (rd_srem k vs r)"
    and R_sadd: "\<And>k vs r. R r \<Longrightarrow> R (rd_sadd k vs r)"
    and R_hset: "\<And>fid m r. map_of m ''failed'' = None \<or> map_of m ''failed'' = Some (Doc (VInt 1)) \<Longrightarrow> map_of m ''result'' = None \<Longrightarrow> R r \<Longrightarrow>
      R (rd_hset_multiple (future_key fid) m r)"
begin

definition holds :: "lc \<Rightarrow> bool" where
  "holds l \<longleftrightarrow> \<not> l_down l \<and> R (l_redis l)"

lemma holds_rask: "keeps holds (rask f)"
  by (simp add: keeps_def rask_def)

lemma holds_rtell: "(\<And>r. R r \<Longrightarrow> R (f r)) \<Longrightarrow> keeps holds (rtell f)"
  by (simp add: keeps_def rtell_def holds_def)

lemma holds_modify: "(\<And>l. l_down (f l) = l_down l \<and> l_redis (f l) = l_redis l) \<Longrightarrow> keeps holds (modify_st f)"
  by (simp add: keeps_def modify_st_def holds_def)

lemma holds_draw: "keeps holds draw"
  by (simp add: keeps_def draw_def holds_def)

lemma holds_tries: "keeps holds (send_tries env n b a m)"
  by (induction n arbitrary: b)
    (auto intro!: pres_intros holds_draw holds_modify simp: rpc_def pass_def)

lemma holds_send_failure: "keeps holds (send_failure env orig fid err)"
  unfolding send_failure_def deliver_def call_with_retry_def Let_def rpc_def
  by (intro pres_intros holds_rask holds_draw holds_tries holds_rtell holds_modify R_srem) simp_all

lemma holds_fan_out: "keeps holds (fan_out_failure env fid err)"
  unfolding fan_out_failure_def forget_forward_def
  by (intro pres_intros holds_rask holds_send_failure holds_modify) simp_all

lemma holds_append: "keeps holds (append_log_entry (future_key fid) entry)"
  unfolding append_log_entry_def rd_hset_def
  by (intro pres_intros holds_rask holds_rtell R_hset) simp_all

lemma holds_spread: "keeps holds (spread_failure env fid record msg now error orig ename log_entry)"
  unfolding spread_failure_def
  by (intro pres_intros holds_append holds_fan_out holds_send_failure holds_rtell R_sadd)

lemma holds_mark: "keeps holds (mark_future_failed env fid error orig ename log_entry b)"
  unfolding mark_future_failed_def record_failure_def Let_def
  by (intro pres_intros holds_rask holds_rtell R_hset holds_spread) simp_all

lemma holds_send_result: "keeps holds (send_result_callback env orig fid result failed err)"
  unfolding send_result_callback_def deliver_def call_with_retry_def rpc_def Let_def
  by (intro pres_intros holds_rask holds_draw holds_tries holds_rtell holds_modify R_srem holds_mark) simp_all

lemma holds_fan_out_to: "keeps holds (fan_out_to_consumers env fid result failed err)"
  unfolding fan_out_to_consumers_def forget_forward_def
  by (intro pres_intros holds_rask holds_send_result holds_modify) simp_all

end

definition failed_in :: "string \<Rightarrow> redis \<Rightarrow> bool" where
  "failed_in fid r \<longleftrightarrow> rd_hget (future_key fid) ''failed'' r = Some (Doc (VInt 1))"

interpretation failed: reporting "failed_in fid" for fid
  by unfold_locales (auto simp: failed_in_def map_add_def, simp add: rd_hget_def)

interpretation waiting: reporting "\<lambda>r. rd_lists r k = xs" for k xs
  by unfold_locales simp_all

definition failed_at :: "string \<Rightarrow> lc \<Rightarrow> bool" where
  "failed_at fid l \<longleftrightarrow> \<not> l_down l \<and> failed_in fid (l_redis l)"

lemma failed_at_holds: "failed_at fid = failed.holds fid"
  by (auto simp: failed_at_def failed.holds_def)

text \<open>Marking a future failed while Redis answers records it.\<close>

lemma mark_records:
  assumes "\<not> l_down l" "given (Some fid)"
  shows "failed_at fid (snd (mark_future_failed env (Some fid) error orig ename log_entry b l))"
proof -
  let ?stored = "rd_hgetall (future_key fid) (l_redis l)"
  let ?r = "rd_hset_multiple (future_key fid) (failure_fields (l_now l) (failure_message ?stored error) ename b) (l_redis l)"
  have "failed_at fid (l\<lparr>l_redis := ?r\<rparr>)" using assms by (simp add: failed_at_def failed_in_def map_add_def)
  then have "failed_at fid (snd (record_failure env fid error orig ename log_entry b l))"
    using assms(1) keepsD[OF failed.holds_spread]
    by (simp add: record_failure_def Let_def bnd_run rask_run read_run rtell_run failed_at_holds)
  with assms(2) show ?thesis
    by (auto simp: mark_future_failed_def catch_run ret_run split: prod.split sum.split)
qed

lemma failed_waiting: "keeps (failed_at fid) (fail_waiting env rid n)"
proof (induction n)
  case (Suc n)
  have "keeps (failed_at fid) (rdo (rd_rpop k))" for k
    by (simp add: keeps_def rdo_def failed_at_def failed_in_def)
  moreover have "keeps (failed_at fid) (rtell (rd_hset (future_key f) ''finished_at'' v))" for f v
    by (simp add: keeps_def rtell_def failed_at_def failed_in_def)
  moreover have "keeps (failed_at fid) (mark_future_failed env f error orig ename log_entry b)" for f error orig ename log_entry b
    using failed.holds_mark by (simp add: failed_at_holds)
  ultimately show ?case using Suc by (auto intro!: pres_intros)
qed (auto intro: pres_intros)

text \<open>Failing the questions of a request fails every one listed.\<close>

lemma rpop_last: "rd_lists r k = xs @ [t] \<Longrightarrow> fst (rd_rpop k r) = Some t \<and> rd_lists (snd (rd_rpop k r)) k = xs"
  by (simp add: rd_rpop_def)

lemma fail_waiting_all:
  assumes "fail_waiting env rid n l = (Inr (), l')" "\<not> l_down l" "length (rd_lists (l_redis l) (request_key rid ''waiting'')) < n"
    "t \<in> set (rd_lists (l_redis l) (request_key rid ''waiting''))" "waiting_id t = Inr fid" "fid \<noteq> []"
  shows "failed_at fid l'"
  using assms
proof (induction n arbitrary: l)
  case (Suc n)
  let ?k = "request_key rid ''waiting''"
  obtain xs u where xs: "rd_lists (l_redis l) ?k = xs @ [u]" using Suc.prems(4) by (cases "rd_lists (l_redis l) ?k" rule: rev_cases) auto
  let ?l1 = "l\<lparr>l_redis := snd (rd_rpop ?k (l_redis l))\<rparr>"
  from Suc.prems(1) xs Suc.prems(2) obtain f where f: "waiting_id u = Inr f"
    and rest: "bnd (read_st l_now) (\<lambda>now. bnd (rtell (rd_hset (future_key f) ''finished_at'' (Doc (VFloat (Fin now))))) (\<lambda>_.
         bnd (mark_future_failed env (Some f) (Plain ''Request finished before the question was answered'')
                None (Some ''RequestFinished'') True False) (\<lambda>_. fail_waiting env rid n))) ?l1 = (Inr (), l')"
    by (auto simp: bnd_run rdo_run rpop_last of_res_run split: sum.splits)
  let ?l2 = "?l1\<lparr>l_redis := rd_hset (future_key f) ''finished_at'' (Doc (VFloat (Fin (l_now l)))) (l_redis ?l1)\<rparr>"
  let ?mark = "mark_future_failed env (Some f) (Plain ''Request finished before the question was answered'')
                None (Some ''RequestFinished'') True False"
  obtain l3 where l3: "?mark ?l2 = (Inr (), l3)" using mark_returns by blast
  with rest Suc.prems(2) have tail: "fail_waiting env rid n l3 = (Inr (), l')"
    by (simp add: bnd_run read_run rtell_run)
  have "waiting.holds ?k xs ?l2" using Suc.prems(2) xs by (simp add: waiting.holds_def rpop_last)
  then have w3: "waiting.holds ?k xs l3" using keepsD[OF waiting.holds_mark] l3 by (metis snd_conv)
  show ?case
  proof (cases "t = u")
    case True
    with f Suc.prems(5) have "f = fid" by simp
    moreover have "failed_at f (snd (?mark ?l2))"
      using \<open>f = fid\<close> Suc.prems(2, 6) by (intro mark_records) (simp_all add: given_def)
    ultimately have "failed_at fid l3" using l3 by simp
    then show ?thesis using keepsD[OF failed_waiting, of fid l3 env rid n] tail by simp
  next
    case False
    with Suc.prems(4) xs have "t \<in> set xs" by auto
    with w3 Suc.prems(3, 5, 6) xs show ?thesis
      by (intro Suc.IH[OF tail]) (auto simp: waiting.holds_def)
  qed
qed simp

section \<open>What becomes of a request\<close>

interpretation up: unaffected "\<lambda>l. \<not> l_down l"
  by unfold_locales simp_all

lemma up_process: "keeps (\<lambda>l. \<not> l_down l) (process_request env data)"
  unfolding process_request_def unpack_baggage_def target_of_def dispatch_def send_on_def submit_def refuse_def
    forward_request_def count_unsent_def Let_def
  by (intro pres_intros up.basics up.keeps_context up.keeps_mark_failed up.keeps_resolve
      up.keeps_foreign up.keeps_ask_human up.keeps_register keeps_modify) simp_all

interpretation queue_is: unaffected "\<lambda>l. l_queue l = q" for q
  by unfold_locales simp_all

lemma queue_process: "keeps (\<lambda>l. l_queue l = q) (process_raw env raw)"
  unfolding process_raw_def process_request_def unpack_baggage_def target_of_def dispatch_def send_on_def submit_def
    refuse_def forward_request_def count_unsent_def Let_def
  by (intro pres_intros queue_is.basics queue_is.keeps_context queue_is.keeps_mark_failed queue_is.keeps_resolve
      queue_is.keeps_foreign queue_is.keeps_ask_human queue_is.keeps_register keeps_modify) simp_all

definition runs_here :: "string \<Rightarrow> lc \<Rightarrow> bool" where
  "runs_here fid l \<longleftrightarrow> (\<exists>e\<in>set (l_running l). c_future_id (e_call e) = Some fid)"

definition on_the_wire :: "string \<Rightarrow> lc \<Rightarrow> bool" where
  "on_the_wire fid l \<longleftrightarrow> (\<exists>(t, c)\<in>set (l_inflight l). c_future_id c = Some fid)"

definition asked :: "string \<Rightarrow> lc \<Rightarrow> bool" where
  "asked fid l \<longleftrightarrow> (\<exists>rid. \<exists>t\<in>set (rd_lists (l_redis l) (request_key rid ''waiting'')). waiting_id t = Inr fid)"

definition accounted :: "string \<Rightarrow> lc \<Rightarrow> bool" where
  "accounted fid l \<longleftrightarrow> runs_here fid l \<or> on_the_wire fid l \<or> asked fid l \<or> failed_at fid l"

lemma refuse_accounts:
  "refuse env data why ename l = (Inr (), l') \<Longrightarrow> \<not> l_down l \<Longrightarrow> c_future_id data = Some fid \<Longrightarrow> fid \<noteq> [] \<Longrightarrow> accounted fid l'"
  using mark_records[of l fid env "Plain why" "c_origin data" "Some ename" True True]
  by (simp add: refuse_def accounted_def given_def)

lemma ask_human_accounts:
  assumes "ask_human env data l = (Inr (), l')" "\<not> l_down l" "c_future_id data = Some fid" "fid \<noteq> []"
  shows "accounted fid l'"
proof -
  let ?rid = "show_opt (c_request_id data)"
  from assms(1, 3) obtain l1 q root where l1:
    "rtell (rd_lpush (request_key ?rid ''waiting'') [Doc (VDict [(''future_id'', VStr fid), (''question'', q)])]) l1 = (Inr (), root)"
    and finish: "fail_if_over env ?rid root = (Inr (), l')"
    unfolding ask_human_def Let_def or_empty_def by (auto elim!: bnd_InrE)
  from l1 have up: "\<not> l_down root" and t: "Doc (VDict [(''future_id'', VStr fid), (''question'', q)]) \<in>
      set (rd_lists (l_redis root) (request_key ?rid ''waiting''))"
    by (auto simp: rtell_run split: if_splits)
  have w: "waiting_id (Doc (VDict [(''future_id'', VStr fid), (''question'', q)])) = Inr fid"
    by (simp add: waiting_id_def)
  from finish up consider "l' = root" | "fail_waiting_questions env ?rid root = (Inr (), l')"
    by (auto simp: fail_if_over_def bnd_run rask_run ret_run split: if_splits)
  then show ?thesis
  proof cases
    case 1
    with t w show ?thesis by (auto simp: accounted_def asked_def)
  next
    case 2
    with up have "fail_waiting env ?rid (Suc (length (rd_lists (l_redis root) (request_key ?rid ''waiting'')))) root = (Inr (), l')"
      by (simp add: fail_waiting_questions_def bnd_run[of "rask _"] rask_run del: fail_waiting.simps)
    from fail_waiting_all[OF this up _ t w assms(4)] show ?thesis by (simp add: accounted_def)
  qed
qed

lemma dispatch_accounts:
  assumes "dispatch env data context target l = (Inr (), l')" "\<not> l_down l" "c_future_id data = Some fid" "fid \<noteq> []"
  shows "accounted fid l'"
proof -
  from assms(1) obtain fa foreign l1 where l1:
    "(if given (c_route_to data) then ret None else foreign_argument (or_empty (c_request_id data)) fa) l = (Inr foreign, l1)"
    and rest: "(case foreign of
       Some k \<Rightarrow> refuse env data (''Argument '' @ quoted k @ '' of '' @ or_empty (c_service data) @ ''.'' @
           or_empty (c_function data) @ '' comes from a different request.'') ''InvalidArgument''
     | None \<Rightarrow>
         if target = a_address env then
           (if c_service data = Some ENDPOINT_AGENT_NAME then ask_human env data else submit env data fa)
         else send_on env data context fa target) l1 = (Inr (), l')"
    unfolding dispatch_def by (elim bnd_InrE) (auto simp: of_res_run)
  have up: "\<not> l_down l1"
    using l1 assms(2) keepsD[OF up.keeps_foreign, of l] by (cases "given (c_route_to data)") (auto simp: ret_run, metis snd_conv)
  show ?thesis
  proof (cases foreign)
    case (Some k)
    with rest refuse_accounts[OF _ up assms(3, 4)] show ?thesis by simp
  next
    case None
    consider "ask_human env data l1 = (Inr (), l')" | "submit env data fa l1 = (Inr (), l')"
      | "send_on env data context fa target l1 = (Inr (), l')"
      using rest None by (auto split: if_splits)
    then show ?thesis
    proof cases
      case 1
      then show ?thesis by (rule ask_human_accounts[OF _ up assms(3, 4)])
    next
      case 2
      then have "runs_here fid l'"
        using assms(3) by (auto simp: submit_def runs_here_def bnd_run modify_run)
      then show ?thesis by (simp add: accounted_def)
    next
      case 3
      then obtain affs l2 where "forward_request env target (outward data context affs target) l2 = (Inr (), l')"
        unfolding send_on_def by (elim bnd_InrE)
      then have "on_the_wire fid l'"
        using assms(3) by (auto simp: forward_request_def Let_def bnd_run modify_run count_unsent_def outward_def on_the_wire_def)
      then show ?thesis by (simp add: accounted_def)
    qed
  qed
qed

lemma process_accounts:
  assumes "process_request env data l = (Inr (), l')" "\<not> l_down l" "c_future_id data = Some fid" "fid \<noteq> []"
  shows "accounted fid l'"
proof -
  from assms(1) obtain cx l1 l2 where
    l1: "request_context data l = (Inr cx, l1)" and l2: "unpack_baggage data cx l1 = (Inr (), l2)"
    and rest: "(if \<not> whole data then
       refuse env data ''Malformed request: missing service, function, or future_id'' ''MalformedRequest''
     else bnd (target_of env data) (\<lambda>target.
       if \<not> given target then
         refuse env data (''No running replica of '' @ or_empty (c_service data) @
           '' right now; all are starting, restarting or being removed.'') ''NoRunningReplica''
       else dispatch env data cx (the target))) l2 = (Inr (), l')"
    unfolding process_request_def by (elim bnd_InrE) auto
  have "\<not> l_down l1" using keepsD[OF up.keeps_context assms(2), of data] l1 by simp
  moreover have "keeps (\<lambda>l. \<not> l_down l) (unpack_baggage data cx)"
    unfolding unpack_baggage_def by (intro pres_intros up.basics)
  ultimately have up2: "\<not> l_down l2" using keepsD[of "\<lambda>l. \<not> l_down l" "unpack_baggage data cx" l1] l2 by simp
  show ?thesis
  proof (cases "whole data")
    case False
    with rest refuse_accounts[OF _ up2 assms(3, 4)] show ?thesis by simp
  next
    case True
    with rest obtain target l3 where l3: "target_of env data l2 = (Inr target, l3)" and
      go: "(if \<not> given target then refuse env data (''No running replica of '' @ or_empty (c_service data) @
           '' right now; all are starting, restarting or being removed.'') ''NoRunningReplica''
        else dispatch env data cx (the target)) l3 = (Inr (), l')"
      by (auto elim!: bnd_InrE)
    have "keeps (\<lambda>l. \<not> l_down l) (target_of env data)"
      unfolding target_of_def by (intro pres_intros up.keeps_resolve)
    then have up3: "\<not> l_down l3" using keepsD[of "\<lambda>l. \<not> l_down l" "target_of env data" l2] l3 up2 by simp
    from go show ?thesis
      using refuse_accounts[OF _ up3 assms(3, 4)] dispatch_accounts[OF _ up3 assms(3, 4)] by (auto split: if_splits)
  qed
qed

text \<open>C1: no request is lost: while Redis answers, one round of \<open>run\<close> leaves the request it takes off
  the queue in exactly the places someone still answers for it: running here, on its way to another
  replica, held as a question for the human, or failed in its future's record; whatever exception
  processing it raised. The one exception is a \<open>JSONDecodeError\<close> raised on the way, from a stored
  context or routing table that is not JSON, which the loop takes for an unreadable request.\<close>

theorem no_request_is_lost:
  assumes "l_queue l = Request data # rest" "\<not> l_down l" "c_future_id data = Some fid" "fid \<noteq> []"
    and "fst (process_request env data (l\<lparr>l_queue := rest\<rparr>)) \<noteq> Inl JSON_ERROR"
  shows "accounted fid (snd (serve env l)) \<and> l_queue (snd (serve env l)) = rest"
proof -
  let ?l = "l\<lparr>l_queue := rest\<rparr>"
  obtain res l1 where p: "process_request env data ?l = (res, l1)" by fastforce
  have up: "\<not> l_down ?l" using assms(2) by simp
  have up1: "\<not> l_down l1" using keepsD[OF up_process up, of env data] p by simp
  obtain l2 where l2: "process_raw env (Request data) ?l = (Inr (), l2)" "accounted fid l2"
  proof (cases res)
    case (Inr u)
    then show ?thesis using that[of l1] p process_accounts[OF _ up assms(3, 4), of env l1] by (simp add: process_raw_def catch_run)
  next
    case (Inl e)
    obtain l2 where m: "mark_future_failed env (Some fid) (Raised e) (c_origin data) None True False l1 = (Inr (), l2)"
      using mark_returns by blast
    have "failed_at fid l2"
      using mark_records[OF up1, of fid env "Raised e" "c_origin data" None True False] m assms(4) by (simp add: given_def)
    with m Inl p assms(3, 5) show ?thesis using that[of l2] by (simp add: process_raw_def catch_run accounted_def)
  qed
  have s: "snd (serve env l) = l2\<lparr>l_unfinished := l_unfinished l2 - 1\<rparr>"
    using assms(1) l2(1) by (simp add: serve_def bnd_run read_run modify_run finally_do_def task_done_def)
  have "accounted fid (snd (serve env l))"
    using l2(2) by (simp add: s accounted_def runs_here_def on_the_wire_def asked_def failed_at_def)
  moreover have "l_queue l2 = rest"
    using keepsD[OF queue_process[of rest env "Request data"], of ?l] l2(1) by simp
  ultimately show ?thesis by (simp add: s)
qed

text \<open>A call to an agent nobody runs: it is failed, in Redis.\<close>

lemma demo_process:
  "fst (process_request demo_lenv demo_call (idle_lc empty_redis)) = Inr ()"
  by (simp add: process_request_def request_context_def unpack_baggage_def whole_def given_def demo_call_def
      target_of_def resolve_address_def addresses_of_def load_routing_def refuse_def mark_future_failed_def or_empty_def
      idle_lc_def empty_redis_def rd_defs act_simps catch_run opt_truthy_def split: prod.split sum.split)

theorem no_request_is_lost_witness:
  "accounted ''f1'' (snd (serve demo_lenv (idle_lc empty_redis\<lparr>l_queue := [Request demo_call]\<rparr>)))"
proof -
  let ?l = "idle_lc empty_redis\<lparr>l_queue := [Request demo_call]\<rparr>"
  have "?l\<lparr>l_queue := []\<rparr> = idle_lc empty_redis" by (simp add: idle_lc_def)
  then have "fst (process_request demo_lenv demo_call (?l\<lparr>l_queue := []\<rparr>)) \<noteq> Inl JSON_ERROR" by (simp add: demo_process)
  moreover have "l_queue ?l = Request demo_call # []" "\<not> l_down ?l" by (simp_all add: idle_lc_def)
  moreover have "c_future_id demo_call = Some ''f1''" by (simp add: demo_call_def)
  ultimately show ?thesis using no_request_is_lost[of ?l demo_call "[]" "''f1''" demo_lenv] by simp
qed

section \<open>Calls nobody answers for\<close>

text \<open>The exception of \<open>no_request_is_lost\<close>: the stored context of the request is not JSON, and its
  call is left with nothing recorded.\<close>

lemma corrupt_context_unreported:
  assumes "l_queue l = Request data # rest" "\<not> l_down l" "c_context data = None" "c_request_id data = Some (x # xs)"
    and "rd_get (request_key (x # xs) ''context'') (l_redis l) = Some t" "text_truthy t" "loads t = None"
  shows "l_redis (snd (serve env l)) = l_redis l \<and> l_running (snd (serve env l)) = l_running l \<and>
    l_inflight (snd (serve env l)) = l_inflight l"
proof -
  have "process_request env data (l\<lparr>l_queue := rest\<rparr>) = (Inl JSON_ERROR, l\<lparr>l_queue := rest\<rparr>)"
    using assms(2-7) by (simp add: process_request_def request_context_def bnd_run rask_run of_res_run given_def opt_truthy_def)
  then show ?thesis
    using assms(1) by (simp add: serve_def process_raw_def task_done_def finally_do_def bnd_run read_run modify_run catch_run ret_run)
qed

text \<open>A queued text that is JSON but no object keeps a drain from failing anything: \<open>_fail_unfinished\<close>
  raises on it, and the heartbeat does not try again.\<close>

lemma junk_keeps_leftovers_waiting:
  assumes "NotObject \<in> set (l_queue l)" "l_draining l" "\<not> l_failed_leftovers l" "\<not> l_down l"
    and "float_text t = Some (Fin q)" "l_now l \<ge> q - 2 * a_interval env"
  shows "fst (leftovers env (Some t) l) = Inl (AttributeError ''get'')"
    and "l_redis (snd (leftovers env (Some t) l)) = l_redis l \<and> l_running (snd (leftovers env (Some t) l)) = l_running l"
    and "l_failed_leftovers (snd (leftovers env (Some t) l))"
proof -
  let ?l = "l\<lparr>l_failed_leftovers := True\<rparr>"
  have "dropWhile (\<lambda>raw. raw \<noteq> NotObject) (l_queue l) \<noteq> []" using assms(1) by auto
  then obtain l' where l': "take_queue ?l = (Inl (AttributeError ''get''), l')" "l_redis l' = l_redis l"
      "l_running l' = l_running l" "l_failed_leftovers l'"
    by (simp add: take_queue_def Let_def bnd_run read_run modify_run raise_run del: dropWhile_eq_Nil_conv)
  have "leftovers env (Some t) l = (Inl (AttributeError ''get''), l')"
    using assms(2-6) l'(1)
    by (simp add: leftovers_def fail_unfinished_def drain_due_def bnd_run read_run of_res_run modify_run)
  with l' show "fst (leftovers env (Some t) l) = Inl (AttributeError ''get'')"
      "l_redis (snd (leftovers env (Some t) l)) = l_redis l \<and> l_running (snd (leftovers env (Some t) l)) = l_running l"
      "l_failed_leftovers (snd (leftovers env (Some t) l))"
    by simp_all
qed

end
