(* ===== verification/Replica_Delivery.thy ===== *)
theory Replica_Delivery
  imports Replica_Accounting
begin

text \<open>
  A request delivered twice is taken once: the key \<open>Execute\<close> claims for it is touched by nothing else
  the controller does. The locale \<open>free_key\<close> names the keys that are nobody else's.
\<close>

section \<open>Keys nobody else writes\<close>

lemma get_frames [simp]:
  "rd_get k (rd_lpush j vs r) = rd_get k r" "rd_get k (snd (rd_rpop j r)) = rd_get k r"
  "rd_get k (rd_expire j n b r) = rd_get k r" "rd_get k (snd (rd_hincrby j f i r)) = rd_get k r"
proof -
  show "rd_get k (rd_lpush j vs r) = rd_get k r"
    by (induction j vs r rule: rd_lpush.induct) (simp_all add: rd_get_def)
qed (simp_all add: rd_get_def rd_rpop_def rd_expire_def rd_hincrby_def rd_hset_def rd_hset_multiple_def
    split: list.split option.split)

lemma get_lists [simp]: "rd_get k (r\<lparr>rd_lists := f\<rparr>) = rd_get k r"
  by (simp add: rd_get_def)

lemma get_expire_all [simp]: "rd_get k (expire_all n ks r) = rd_get k r"
  by (induction n ks r rule: expire_all.induct) simp_all

lemma get_keep_outcome [simp]: "rd_get k (snd (keep_outcome rid r)) = rd_get k r"
  by (simp add: keep_outcome_def Let_def split: option.split)

text \<open>\<open>NX\<close> claims a key once.\<close>

lemma set_nx_keeps: "rd_get k r \<noteq> None \<Longrightarrow> rd_get k (snd (rd_set_opts j v True ex r)) \<noteq> None"
  by (auto simp: rd_set_opts_def rd_get_def)

lemma set_nx_taken: "rd_get k r \<noteq> None \<Longrightarrow> rd_set_opts k v True ex r = (False, r)"
  by (simp add: rd_set_opts_def rd_exists_def rd_get_def)

lemma set_nx_takes: "fst (rd_set_opts k v True ex r) \<Longrightarrow> rd_get k (snd (rd_set_opts k v True ex r)) \<noteq> None"
  by (auto simp: rd_set_opts_def rd_get_def split: if_splits)

locale free_key =
  fixes k :: string
  assumes k_request: "\<And>rid part. k \<noteq> request_key rid part"
    and k_affinity: "\<And>rid. k \<noteq> affinity_key rid"
    and k_own: "\<And>env part. k \<noteq> own_key env part"
begin

definition held :: "lc \<Rightarrow> bool" where
  "held l \<longleftrightarrow> \<not> l_down l \<and> rd_get k (l_redis l) \<noteq> None"

lemma held_rask: "keeps held (rask f)"
  by (simp add: keeps_def rask_def)

lemma held_rtell: "(\<And>r. rd_get k r \<noteq> None \<Longrightarrow> rd_get k (f r) \<noteq> None) \<Longrightarrow> keeps held (rtell f)"
  by (simp add: keeps_def rtell_def held_def)

lemma held_rdo: "(\<And>r. rd_get k r \<noteq> None \<Longrightarrow> rd_get k (snd (f r)) \<noteq> None) \<Longrightarrow> keeps held (rdo f)"
  by (simp add: keeps_def rdo_def held_def)

lemma held_modify: "(\<And>l. l_down (f l) = l_down l \<and> l_redis (f l) = l_redis l) \<Longrightarrow> keeps held (modify_st f)"
  by (rule keeps_modify) (simp add: held_def)

lemma held_draw: "keeps held draw"
  by (simp add: keeps_def draw_def held_def)

lemma held_tried: "keeps held m \<Longrightarrow> keeps held (tried m)"
  by (simp add: keeps_def tried_def)

lemma held_pass: "keeps held (pass d)"
  unfolding pass_def by (rule held_modify) simp

lemmas held_intros = held_rask held_rtell held_rdo held_modify held_draw held_tried held_pass

lemma held_send_tries: "keeps held (send_tries env n b a m)"
  by (induction n arbitrary: b) (auto intro!: pres_intros held_intros simp: rpc_def)

lemma held_deliver: "(\<And>x. keeps held (u x)) \<Longrightarrow> keeps held (deliver env orig fid result failed err u)"
  unfolding deliver_def call_with_retry_def rpc_def Let_def
  by (intro pres_intros held_intros held_send_tries) simp_all

lemma held_mark: "keeps held (mark_future_failed env fid error orig ename log_entry b)"
  unfolding mark_future_failed_def record_failure_def spread_failure_def append_log_entry_def fan_out_failure_def
    forget_forward_def send_failure_def Let_def
  by (intro pres_intros held_intros held_deliver) simp_all

lemma held_send_result: "keeps held (send_result_callback env orig fid result failed err)"
  unfolding send_result_callback_def by (intro held_deliver held_mark)

lemma held_fan_out: "keeps held (fan_out_to_consumers env fid result failed err)"
  unfolding fan_out_to_consumers_def forget_forward_def by (intro pres_intros held_intros held_send_result) simp_all

lemma held_fail_waiting: "keeps held (fail_waiting env rid n)"
  by (induction n) (auto intro!: pres_intros held_intros held_mark)

lemma held_fail_questions: "keeps held (fail_waiting_questions env rid)"
  unfolding fail_waiting_questions_def by (intro pres_intros held_intros held_fail_waiting)

lemma held_load_routing: "keeps held load_routing"
  unfolding load_routing_def by (intro pres_intros held_intros) simp_all

lemma held_refresh_rules: "keeps held (refresh_rules env)"
  unfolding refresh_rules_def by (intro pres_intros held_intros) simp_all

lemma held_context: "keeps held (request_context data)"
  unfolding request_context_def by (intro pres_intros held_intros)

lemma held_admit: "keeps held (admit env data)"
  unfolding admit_def Let_def by (intro pres_intros held_intros held_context held_mark)

lemma held_resolve: "keeps held (resolve_address env a rid)"
  unfolding resolve_address_def addresses_of_def pick_random_def
  by (intro pres_intros held_intros held_load_routing) simp_all

lemma held_foreign: "keeps held (foreign_argument rid xs)"
  by (induction rid xs rule: foreign_argument.induct) (auto intro!: pres_intros held_intros)

lemma held_ask_human: "keeps held (ask_human env data)"
  unfolding ask_human_def fail_if_over_def Let_def by (intro pres_intros held_intros held_fail_questions) simp_all

lemma held_register: "keeps held (register_consumer env target x)"
  unfolding register_consumer_def by (intro pres_intros held_intros held_send_result) simp_all

lemma held_process: "keeps held (process_request env data)"
  unfolding process_request_def unpack_baggage_def target_of_def dispatch_def send_on_def submit_def refuse_def
    forward_request_def count_unsent_def Let_def
  by (intro pres_intros held_intros held_context held_mark held_resolve held_foreign held_ask_human held_register)
    (auto simp: k_request)

lemma held_serve: "keeps held (serve env)"
  unfolding serve_def process_raw_def task_done_def
  by (auto intro!: pres_intros held_intros held_process held_mark split: list.split)

lemma held_on_forwarded: "keeps held (on_forwarded env x target data)"
  unfolding on_forwarded_def count_unsent_def enqueue_def Let_def
  by (intro pres_intros held_intros held_mark) simp_all

lemma held_answer: "keeps held (answer_call env i x)"
  unfolding answer_call_def by (intro pres_intros held_intros held_on_forwarded) simp_all

lemma held_timer: "keeps held (fire_timer i)"
  unfolding fire_timer_def resend_def count_unsent_def enqueue_def by (intro pres_intros held_intros) simp_all

lemma held_work: "keeps held (work env)"
  unfolding work_def execute_locally_def try_body_def excepted_def run_method_def failed_body_def finish_call_def report_back_def
    count_metric_def Let_def
  by (auto intro!: pres_intros held_intros held_mark held_fan_out held_send_result split: list.split)

lemma held_Execute: "keeps held (Execute env payload)"
  unfolding Execute_def already_accepted_def enqueue_def Let_def
  by (intro pres_intros held_intros held_admit) (simp_all add: set_nx_keeps)

lemma held_write_result: "keeps held (WriteResult env payload)"
  unfolding WriteResult_def write_body_def Let_def
  by (auto intro!: pres_intros held_intros held_fan_out held_fail_questions split: option.split rtext.split list.split)

lemma held_cleanup: "keeps held (Cleanup env rids)"
  unfolding Cleanup_def cleanup_request_def cleanup_body_def rd_setnx_def Let_def
  by (intro pres_intros held_intros) (simp_all add: set_nx_keeps k_request k_affinity)

lemma held_tick: "keeps held (metrics_tick env)"
  unfolding metrics_tick_def heartbeat_def watch_gateway_def mark_failed_def set_status_def removal_time_def
    leftovers_def fail_calls_to_gone_replicas_def fail_unfinished_def take_queue_def Let_def
  by (intro pres_intros held_intros held_refresh_rules held_load_routing held_mark) (simp_all add: k_own)

lemma held_drain: "keeps held (drain_until t)"
  unfolding drain_until_def by (intro held_modify) (simp split: option.split)

lemma held_own: "own_step env l l' \<Longrightarrow> held l \<Longrightarrow> held l'"
  by (induction rule: own_step.induct)
    (auto intro: keepsD[OF held_serve] keepsD[OF held_answer] keepsD[OF held_timer] keepsD[OF held_work]
      keepsD[OF held_Execute] keepsD[OF held_write_result] keepsD[OF held_cleanup] keepsD[OF held_tick] keepsD[OF held_drain])

end

interpretation accepted: free_key "accepted_key env fid" for env fid
  by unfold_locales (simp_all add: accepted_key_def request_key_def affinity_key_def own_key_def)


section \<open>Taken once\<close>

text \<open>What may happen between two deliveries while Redis answers: any steps of the controller, and the
  world, which writes no claim of an \<open>Execute\<close>.\<close>

inductive meanwhile :: "lenv \<Rightarrow> lc \<Rightarrow> lc \<Rightarrow> bool" for env l0 where
  nothing: "meanwhile env l0 l0"
| own: "meanwhile env l0 l \<Longrightarrow> own_step env l l' \<Longrightarrow> meanwhile env l0 l'"
| world: "meanwhile env l0 l \<Longrightarrow> (\<And>k. prefix ''execute:'' k \<Longrightarrow> rd_get k r = rd_get k (l_redis l)) \<Longrightarrow>
    meanwhile env l0 (outside r False t g l)"

lemma held_meanwhile: "meanwhile env l0 l \<Longrightarrow> accepted.held env fid l0 \<Longrightarrow> accepted.held env fid l"
proof (induction rule: meanwhile.induct)
  case (own l l')
  then show ?case using accepted.held_own by blast
next
  case (world l r t g)
  have "prefix ''execute:'' (accepted_key env fid)" by (simp add: accepted_key_def)
  with world show ?case by (simp add: accepted.held_def outside_def)
qed

lemma Execute_taken:
  assumes "c_future_id again = Some fid" "fid \<noteq> []" "accepted.held env fid l"
  shows "snd (Execute env (Request again) l) = l \<and> fst (Execute env (Request again) l) \<in> {Inr Queued, Inr Aborted}"
proof -
  have "already_accepted env (Request again) l = (Inr True, l)"
    using assms set_nx_taken[of "accepted_key env fid" "l_redis l" "Doc (VInt 1)" "Some EXECUTE_DEDUP_TTL_SECONDS"]
    by (simp add: already_accepted_def accepted.held_def given_def or_empty_def catch_run bnd_run rdo_run ret_run)
  then show ?thesis by (simp add: Execute_def bnd_run read_run ret_run)
qed

lemma Execute_takes:
  assumes "c_future_id data = Some fid" "fid \<noteq> []" "\<not> l_down l" "\<not> rd_exists (accepted_key env fid) (l_redis l)"
    and "fst (Execute env (Request data) l) = Inr Queued"
  shows "l_queue (snd (Execute env (Request data) l)) = l_queue l @ [Request data] \<and>
    accepted.held env fid (snd (Execute env (Request data) l))"
proof -
  let ?set = "rd_set_opts (accepted_key env fid) (Doc (VInt 1)) True (Some EXECUTE_DEDUP_TTL_SECONDS) (l_redis l)"
  let ?l1 = "l\<lparr>l_redis := snd ?set\<rparr>"
  have set: "fst ?set" using assms(4) by (simp add: rd_set_opts_def)
  have acc: "already_accepted env (Request data) l = (Inr False, ?l1)"
    using assms(1, 2, 3) set
    by (simp add: already_accepted_def given_def or_empty_def catch_run bnd_run rdo_run ret_run)
  have held: "accepted.held env fid ?l1" using assms(3) set_nx_takes[OF set] by (simp add: accepted.held_def)
  have go: "\<not> (l_refusing l \<and> is_forwarded (Request data))"
    using assms(5) by (auto simp: Execute_def bnd_run read_run ret_run)
  have run: "Execute env (Request data) l = bnd (if is_forwarded (Request data) then ret None else admit env data) (\<lambda>verdict.
         case verdict of
           Some rf \<Rightarrow> ret (Turned rf)
         | None \<Rightarrow> bnd (enqueue (Request data)) (\<lambda>_. ret Queued)) ?l1"
    using go by (cases "l_refusing l") (simp_all add: Execute_def bnd_run[of "read_st _"] bnd_run[of "already_accepted _ _"] read_run acc)
  let ?m = "if is_forwarded (Request data) then ret None else admit env data"
  obtain l2 where l2: "?m ?l1 = (Inr None, l2)"
      and out: "snd (Execute env (Request data) l) = l2\<lparr>l_queue := l_queue l2 @ [Request data], l_unfinished := l_unfinished l2 + 1\<rparr>"
    using assms(5) unfolding run
    by (simp add: bnd_run enqueue_def modify_run ret_run split: prod.splits sum.splits option.splits)
  have "keeps (\<lambda>l'. l_queue l' = l_queue l) ?m" by (intro pres_intros queue_is.keeps_admit)
  then have "l_queue (snd (?m ?l1)) = l_queue l" by (rule keepsD) simp
  moreover have "keeps (accepted.held env fid) ?m" by (intro pres_intros accepted.held_admit)
  then have "accepted.held env fid (snd (?m ?l1))" using held by (rule keepsD)
  ultimately have "l_queue l2 = l_queue l" "accepted.held env fid l2" by (simp_all only: l2 snd_conv)
  then show ?thesis by (simp add: out accepted.held_def)
qed

text \<open>C11: a request delivered twice is taken once: when a controller whose Redis answers queues a request
  it had no claim for, it queues it at the end, once; and after any steps of the controller, with Redis
  changed by others anywhere but in these claims, another delivery of the same future leaves the whole
  state as it is, and answers queued, or tries another replica when the replica drains.\<close>

theorem delivered_twice_taken_once:
  assumes "c_future_id data = Some fid" "fid \<noteq> []" "\<not> l_down l" "\<not> rd_exists (accepted_key env fid) (l_redis l)"
    and "Execute env (Request data) l = (Inr Queued, l1)" "meanwhile env l1 l2" "c_future_id again = Some fid"
  shows "l_queue l1 = l_queue l @ [Request data] \<and> snd (Execute env (Request again) l2) = l2 \<and>
    fst (Execute env (Request again) l2) \<in> {Inr Queued, Inr Aborted}"
proof -
  have "l_queue l1 = l_queue l @ [Request data] \<and> accepted.held env fid l1"
    using Execute_takes[OF assms(1-4)] assms(5) by simp
  with Execute_taken[OF assms(7, 2)] held_meanwhile[OF assms(6)] show ?thesis by blast
qed

text \<open>A forwarded call, delivered, served and delivered again.\<close>

definition demo_forwarded :: call where
  "demo_forwarded = demo_call\<lparr>c_route_to := Some ''a:1''\<rparr>"

theorem delivered_twice_taken_once_witness:
  "let l1 = snd (Execute demo_lenv (Request demo_forwarded) (idle_lc empty_redis)); l2 = snd (serve demo_lenv l1)
   in snd (Execute demo_lenv (Request demo_forwarded) l2) = l2"
proof -
  obtain l1 where l1: "Execute demo_lenv (Request demo_forwarded) (idle_lc empty_redis) = (Inr Queued, l1)"
    by (simp add: Execute_def already_accepted_def is_forwarded_def demo_forwarded_def demo_call_def given_def or_empty_def
        idle_lc_def rd_set_opts_def rd_exists_def empty_redis_def enqueue_def act_simps catch_run)
  have "meanwhile demo_lenv l1 (snd (serve demo_lenv l1))"
    by (rule meanwhile.own[OF meanwhile.nothing]) (rule Serve)
  moreover have "c_future_id demo_forwarded = Some ''f1''" by (simp add: demo_forwarded_def demo_call_def)
  moreover have "\<not> l_down (idle_lc empty_redis)" "\<not> rd_exists (accepted_key demo_lenv ''f1'') (l_redis (idle_lc empty_redis))"
    by (simp_all add: idle_lc_def empty_redis_def rd_exists_def)
  ultimately show ?thesis
    using delivered_twice_taken_once[OF _ _ _ _ l1, of "''f1''"] by (simp add: l1 Let_def)
qed

end
