(* ===== verification/Replica_Choice.thy ===== *)
theory Replica_Choice
  imports Replica_Delivery
begin

text \<open>
  Which replica a call goes to, how a wait for a future ends, and what a root call leaves as its result.
\<close>

section \<open>The choice of a replica\<close>

lemma available_sub: "set (available l xs) \<subseteq> set xs"
  by (auto simp: available_def Let_def)

lemma available_nonempty: "xs \<noteq> [] \<Longrightarrow> available l xs \<noteq> []"
  by (simp add: available_def Let_def)

definition marked_down :: "lc \<Rightarrow> string \<Rightarrow> bool" where
  "marked_down l e \<longleftrightarrow> (case l_down_until l e of None \<Rightarrow> 0 | Some t \<Rightarrow> t) > l_now l"

lemma available_live: "e \<in> set xs \<Longrightarrow> \<not> marked_down l e \<Longrightarrow> a \<in> set (available l xs) \<Longrightarrow> \<not> marked_down l a"
  by (auto simp: available_def marked_down_def Let_def filter_empty_conv not_less split: if_splits)

lemma pick_random_in:
  "pick_random env xs l = (Inr a, l') \<Longrightarrow> xs \<noteq> [] \<Longrightarrow> a \<in> set xs \<and> l' = l\<lparr>l_drawn := Suc (l_drawn l)\<rparr>"
  by (auto simp: pick_random_def bnd_run draw_run ret_run)

lemma addresses_of_known:
  assumes "addresses_of agent l = (Inr known, l1)"
  shows "known = map_of (l_routing l1) agent \<and> l_redis l1 = l_redis l \<and> l_down_until l1 = l_down_until l \<and> l_now l1 = l_now l \<and>
    (map_of (l_routing l) agent \<noteq> None \<longrightarrow> l1 = l)"
proof (cases "map_of (l_routing l) agent")
  case None
  with assms obtain l2 where l2: "load_routing l = (Inr (), l2)" "l1 = l2" "known = map_of (l_routing l2) agent"
    by (auto simp: addresses_of_def bnd_run read_run split: prod.splits sum.splits)
  then have "l_redis l2 = l_redis l \<and> l_down_until l2 = l_down_until l \<and> l_now l2 = l_now l"
    by (auto simp: load_routing_def bnd_run rask_run of_res_run modify_run split: if_splits sum.splits)
  with None l2 show ?thesis by simp
qed (use assms in \<open>simp add: addresses_of_def bnd_run read_run ret_run\<close>)

text \<open>A resolved address comes from the request's binding or from a pick among the published ones,
  which is bound when the agent is stateful.\<close>

definition bound_to :: "lc \<Rightarrow> string \<Rightarrow> string option \<Rightarrow> rtext option" where
  "bound_to l agent rid =
     (if agent \<in> set (l_stateful l) \<and> given rid then rd_hget (affinity_key (the rid)) agent (l_redis l) else None)"

lemma resolve_cases:
  assumes "resolve_address env agent rid l = (Inr (Some a), l')"
  obtains l1 where "addresses_of agent l = (Inr (map_of (l_routing l1) agent), l1)" "opt_truthy (bound_to l1 agent rid)"
      "a = shown (bound_to l1 agent rid)" "l' = l1"
    | l1 l2 ads where "addresses_of agent l = (Inr (Some ads), l1)" "map_of (l_routing l1) agent = Some ads"
      "a \<in> set (available l1 ads)" "l2 = l1\<lparr>l_drawn := Suc (l_drawn l1)\<rparr>"
      "l' = (if agent \<in> set (l_stateful l1) \<and> given rid
         then l2\<lparr>l_redis := rd_hset (affinity_key (the rid)) agent (Raw a) (l_redis l2)\<rparr> else l2)"
proof -
  from bnd_InrD[OF assms[unfolded resolve_address_def]] obtain found l1 where found: "addresses_of agent l = (Inr found, l1)"
    and go: "(case found of None \<Rightarrow> ret None | Some addresses \<Rightarrow>
         if addresses = [] then ret None
         else bnd (read_st (\<lambda>l. available l addresses)) (\<lambda>candidates.
           bnd (read_st (\<lambda>l. agent \<in> set (l_stateful l))) (\<lambda>is_stateful.
           if is_stateful \<and> given rid then
             bnd (rask (rd_hget (affinity_key (the rid)) agent)) (\<lambda>existing.
             if opt_truthy existing then ret (Some (shown existing))
             else bnd (pick_random env candidates) (\<lambda>chosen.
               bnd (rtell (rd_hset (affinity_key (the rid)) agent (Raw chosen))) (\<lambda>_.
               ret (Some chosen))))
           else bnd (pick_random env candidates) (\<lambda>chosen. ret (Some chosen))))) l1 = (Inr (Some a), l')"
    by blast
  from go obtain ads where ads: "found = Some ads" "ads \<noteq> []"
    by (cases found) (auto simp: ret_run split: if_splits)
  with found have l1: "addresses_of agent l = (Inr (Some ads), l1)" "ads \<noteq> []" by simp_all
  from go ads have rest: "(if agent \<in> set (l_stateful l1) \<and> given rid then
             bnd (rask (rd_hget (affinity_key (the rid)) agent)) (\<lambda>existing.
             if opt_truthy existing then ret (Some (shown existing))
             else bnd (pick_random env (available l1 ads)) (\<lambda>chosen.
               bnd (rtell (rd_hset (affinity_key (the rid)) agent (Raw chosen))) (\<lambda>_. ret (Some chosen))))
           else bnd (pick_random env (available l1 ads)) (\<lambda>chosen. ret (Some chosen))) l1 = (Inr (Some a), l')"
    by (simp add: bnd_run[of "read_st _"] read_run)
  have known: "map_of (l_routing l1) agent = Some ads" using addresses_of_known[OF l1(1)] by simp
  note av = available_nonempty[OF l1(2), of l1]
  show thesis
  proof (cases "agent \<in> set (l_stateful l1) \<and> given rid")
    case True
    with rest have up: "\<not> l_down l1" by (auto simp: bnd_run rask_run split: if_splits)
    show thesis
    proof (cases "opt_truthy (bound_to l1 agent rid)")
      case bound: True
      with True rest up known show thesis
        by (intro that(1)[of l1]) (auto simp: l1(1) bound_to_def bnd_run rask_run ret_run)
    next
      case False
      with True rest up obtain l2 where "pick_random env (available l1 ads) l1 = (Inr a, l2)"
          "bnd (rtell (rd_hset (affinity_key (the rid)) agent (Raw a))) (\<lambda>_. ret (Some a)) l2 = (Inr (Some a), l')"
        by (auto simp: bound_to_def bnd_run[of "rask _"] rask_run ret_run rtell_run bnd_run[of "rtell _"]
            elim!: bnd_InrE split: if_splits)
      with True up pick_random_in[OF this(1) av] show thesis
        by (intro that(2)[OF l1(1) known]) (auto simp: bnd_run rtell_run ret_run)
    qed
  next
    case False
    with rest obtain l2 where "pick_random env (available l1 ads) l1 = (Inr a, l2)" "l' = l2"
      by (auto elim!: bnd_InrE simp: ret_run)
    with False pick_random_in[OF this(1) av] show thesis
      by (intro that(2)[OF l1(1) known]) auto
  qed
qed

text \<open>A call goes to a replica of its agent that is not marked down, while there is one: unless its
  request is already bound to a replica, the address it resolves to is one published for the agent, and
  one marked down for not answering only when every replica of the agent is.\<close>

theorem picks_a_live_replica:
  assumes "resolve_address env agent rid l = (Inr (Some a), l')"
    and "agent \<notin> set (l_stateful l') \<or> \<not> given rid \<or> \<not> opt_truthy (rd_hget (affinity_key (the rid)) agent (l_redis l))"
  shows "\<exists>ads. map_of (l_routing l') agent = Some ads \<and> a \<in> set ads \<and>
    ((\<exists>e\<in>set ads. \<not> marked_down l' e) \<longrightarrow> \<not> marked_down l' a)"
  using assms(1)
proof (cases rule: resolve_cases)
  case (1 l1)
  with assms(2) addresses_of_known[OF 1(1)] show ?thesis by (auto simp: bound_to_def opt_truthy_def split: if_splits)
next
  case (2 l1 l2 ads)
  have "marked_down l' e = marked_down l1 e" for e using 2(4, 5) by (simp add: marked_down_def)
  with 2 available_sub[of l1 ads] available_live[of _ ads l1 a] show ?thesis
    by (intro exI[of _ ads]) (auto split: if_splits)
qed

text \<open>C10: the calls of a request to a stateful agent all go to one replica: once an address was resolved
  for it, every later lookup in which the agent is still published and its binding is still in Redis
  gives the same address, whatever was published, marked down or drawn since, and changes nothing.\<close>

theorem affinity_sticks:
  assumes "resolve_address env agent (Some rid) l = (Inr (Some a), l1)" "rid \<noteq> []" "a \<noteq> []" "agent \<in> set (l_stateful l1)"
    and "\<not> l_down l2" "map_of (l_routing l2) agent = Some (e # es)" "agent \<in> set (l_stateful l2)"
    and "rd_hget (affinity_key rid) agent (l_redis l2) = rd_hget (affinity_key rid) agent (l_redis l1)"
  shows "resolve_address env agent (Some rid) l2 = (Inr (Some a), l2)"
proof -
  have "rd_hget (affinity_key rid) agent (l_redis l1) = Some (Raw a)"
    using assms(1)
  proof (cases rule: resolve_cases)
    case (1 l1')
    with assms(2, 3, 4) show ?thesis
      by (auto simp: bound_to_def given_def shown_def opt_truthy_def split: option.splits rtext.splits)
  next
    case (2 l1' l2' ads)
    with assms(2, 4) show ?thesis by (simp add: given_def split: if_splits)
  qed
  with assms(2, 3, 5-8) show ?thesis
    by (simp add: resolve_address_def addresses_of_def bnd_run read_run ret_run rask_run given_def opt_truthy_def
        text_truthy_def shown_def)
qed

section \<open>A wait ends\<close>

lemma recheck_over: "min RESULT_RECHECK_SECONDS (d - t) \<le> 0 \<longleftrightarrow> d \<le> t"
  by (simp add: RESULT_RECHECK_SECONDS_def min_le_iff_disj)

lemma wait_rounds_ends:
  "\<exists>ob\<in>set obs. d \<le> o_time ob \<Longrightarrow>
   \<exists>us ob vs. obs = us @ ob # vs \<and> (\<forall>x\<in>set us. settled_read x = None \<and> o_time x < d) \<and>
     wait_rounds fid (Some (timeout, d)) obs = Some (case settled_read ob of
       Some res \<Rightarrow> res | None \<Rightarrow> Inl (not_available fid timeout)) \<and>
     (settled_read ob = None \<longrightarrow> d \<le> o_time ob)"
proof (induction obs)
  case (Cons ob obs)
  show ?case
  proof (cases "settled_read ob = None \<and> o_time ob < d")
    case True
    with Cons.prems have "\<exists>ob\<in>set obs. d \<le> o_time ob" by auto
    from Cons.IH[OF this] obtain us ob' vs where
        "obs = us @ ob' # vs" "\<forall>x\<in>set us. settled_read x = None \<and> o_time x < d"
        "wait_rounds fid (Some (timeout, d)) obs = Some (case settled_read ob' of
           Some res \<Rightarrow> res | None \<Rightarrow> Inl (not_available fid timeout))"
        "settled_read ob' = None \<longrightarrow> d \<le> o_time ob'"
      by (elim exE conjE) (rule that)
    with True show ?thesis
      by - (rule exI[of _ "ob # us"], rule exI[of _ ob'], rule exI[of _ vs], simp add: recheck_over)
  next
    case False
    then show ?thesis
      by - (rule exI[of _ "[]"], rule exI[of _ ob], rule exI[of _ obs], auto simp: recheck_over split: option.split)
  qed
qed simp

lemma settled_result:
  "settled_read ob = Some (Inr t) \<Longrightarrow> map_of (o_result ob) ''result'' = Some t \<and>
     \<not> opt_truthy (map_of (o_error ob) ''error'') \<and> map_of (o_failed ob) ''failed'' \<noteq> Some (Doc (VInt 1))"
  by (auto simp: settled_read_def Let_def split: if_splits)

text \<open>C14: a wait for a future ends, and says what it saw: once the clock of a round has passed the
  deadline the wait has returned; what it returns was decided by one round, with no earlier round that
  saw the future settled; a result is the one stored, read when neither an error nor the failed flag
  was seen, and a timeout is raised by no round before the deadline.\<close>

theorem wait_ends_honestly:
  assumes "\<exists>ob\<in>set obs. now + of_int timeout \<le> o_time ob"
  shows "\<exists>us ob vs res. obs = us @ ob # vs \<and> wait_for_result fid (Some timeout) now obs = Some res \<and>
    (\<forall>x\<in>set us. settled_read x = None \<and> o_time x < now + of_int timeout) \<and>
    (\<forall>t. res = Inr t \<longrightarrow> map_of (o_result ob) ''result'' = Some t \<and> \<not> opt_truthy (map_of (o_error ob) ''error'') \<and>
       map_of (o_failed ob) ''failed'' \<noteq> Some (Doc (VInt 1))) \<and>
    (\<forall>why. res = Inl (TimeoutError why) \<longrightarrow> now + of_int timeout \<le> o_time ob \<and> map_of (o_result ob) ''result'' = None)"
proof -
  from wait_rounds_ends[OF assms, where fid = fid and timeout = timeout] obtain us ob vs where w: "obs = us @ ob # vs"
    "\<forall>x\<in>set us. settled_read x = None \<and> o_time x < now + of_int timeout"
    "wait_rounds fid (Some (timeout, now + of_int timeout)) obs = Some (case settled_read ob of
       Some res \<Rightarrow> res | None \<Rightarrow> Inl (not_available fid timeout))"
    "settled_read ob = None \<longrightarrow> now + of_int timeout \<le> o_time ob"
    by (elim exE conjE) (rule that)
  have "settled_read ob = None \<Longrightarrow> map_of (o_result ob) ''result'' = None"
    by (auto simp: settled_read_def Let_def split: if_splits)
  moreover have "settled_read ob \<noteq> Some (Inl (TimeoutError why))" for why
    by (auto simp: settled_read_def Let_def split: if_splits)
  ultimately have none: "settled_read ob = None \<Longrightarrow> map_of (o_result ob) ''result'' = None"
    and some: "\<And>why. settled_read ob \<noteq> Some (Inl (TimeoutError why))" by blast+
  show ?thesis
  proof (cases "settled_read ob")
    case None
    with w(3) have "wait_for_result fid (Some timeout) now obs = Some (Inl (not_available fid timeout))"
      by (simp add: wait_for_result_def)
    with w(1, 2, 4) None none show ?thesis by blast
  next
    case (Some res)
    with w(3) have "wait_for_result fid (Some timeout) now obs = Some res" by (simp add: wait_for_result_def)
    with w(1, 2) Some some settled_result[of ob] show ?thesis by blast
  qed
qed

section \<open>What a root call leaves\<close>

text \<open>A value with no Future in it.\<close>

fun no_future :: "pyres \<Rightarrow> bool" where
  "no_future (RVal v) = True"
| "no_future (RFuture fid) = False"
| "no_future (RList xs) = (\<forall>x\<in>set xs. no_future x)"
| "no_future (RDict d) = (\<forall>(k, x)\<in>set d. no_future x)"

lemma resolved_no_future:
  "resolved env now x = Inr y \<Longrightarrow> no_future y"
  "resolved_list env now xs = Inr ys \<Longrightarrow> \<forall>y\<in>set ys. no_future y"
  "resolved_dict env now d = Inr e \<Longrightarrow> \<forall>(k, y)\<in>set e. no_future y"
  by (induction env now x and env now xs and env now d arbitrary: y and ys and e
      rule: resolved_resolved_list_resolved_dict.induct)
    (auto elim!: res_bnd_InrE)

lemma no_future_to_json:
  "no_future x \<Longrightarrow> \<exists>v. to_json x = Inr v"
  "\<forall>x\<in>set xs. no_future x \<Longrightarrow> \<exists>vs. to_json_list xs = Inr vs"
  "\<forall>(k, x)\<in>set d. no_future x \<Longrightarrow> \<exists>e. to_json_dict d = Inr e"
  by (induction x and xs and d rule: to_json_to_json_list_to_json_dict.induct) fastforce+

lemma root_result_dict:
  assumes "root_result env now True x = Inr y"
  obtains d where "serialize y = Inr (Doc (VDict d))"
proof -
  from assms obtain z where z: "resolved env now x = Inr z" and y: "y = (if is_dict z then z else RDict [(''value'', z)])"
    by (auto simp: root_result_def res_bnd_def split: sum.splits)
  have "no_future y" using resolved_no_future(1)[OF z] y by (simp add: split: if_splits)
  then obtain v where v: "to_json y = Inr v" using no_future_to_json(1) by blast
  have "is_dict y" by (simp add: y is_dict_def)
  then have "is_container y \<and> (\<exists>d. v = VDict d)"
    using v by (cases y) (auto simp: is_dict_def is_container_def res_bnd_def split: val.splits sum.splits)
  with v that show thesis by (auto simp: serialize_def)
qed

text \<open>A root call leaves a JSON object: whatever the agent's method returned, with Futures at any
  depth, a list or a bare value, the result a root call writes to its future and sends out is a JSON
  object, and serialising it never fails.\<close>

theorem root_call_leaves_an_object:
  assumes "run_method env e n args l = (Inr (Some t), l')" "\<not> given (c_parent (e_call e))"
  shows "\<exists>d. t = Doc (VDict d)"
proof -
  from assms obtain now x y where "root_result env now True x = Inr y" "serialize y = Inr t"
    unfolding run_method_def Let_def
    by (elim bnd_InrE) (auto simp: of_res_run ret_run split: if_splits elim!: bnd_InrE)
  with root_result_dict show ?thesis by (metis sum.inject(2))
qed

section \<open>Concrete cases\<close>

text \<open>A stateful agent with two replicas; later one of them is marked down and the other unpublished.\<close>

definition two_lc :: lc where
  "two_lc = idle_lc empty_redis\<lparr>l_routing := [(''search'', [''b:1'', ''c:1''])], l_stateful := [''search'']\<rparr>"

lemma two_resolved:
  "resolve_address demo_lenv ''search'' (Some ''r1'') two_lc =
     (Inr (Some ''b:1''), two_lc\<lparr>l_drawn := 1, l_redis := rd_hset (affinity_key ''r1'') ''search'' (Raw ''b:1'') empty_redis\<rparr>)"
  by (simp add: resolve_address_def addresses_of_def available_def pick_random_def two_lc_def idle_lc_def given_def
      demo_lenv_def empty_redis_def rd_hget_def rd_hgetall_def opt_truthy_def act_simps)

theorem picks_a_live_replica_witness:
  "\<exists>ads. map_of (l_routing (snd (resolve_address demo_lenv ''search'' (Some ''r1'') two_lc))) ''search'' = Some ads \<and> ''b:1'' \<in> set ads"
proof -
  have "\<not> opt_truthy (rd_hget (affinity_key (the (Some ''r1''))) ''search'' (l_redis two_lc))"
    by (simp add: two_lc_def idle_lc_def empty_redis_def rd_hget_def rd_hgetall_def opt_truthy_def)
  then show ?thesis using picks_a_live_replica[OF two_resolved] unfolding two_resolved by auto
qed

theorem affinity_sticks_witness:
  "let l1 = snd (resolve_address demo_lenv ''search'' (Some ''r1'') two_lc);
       l2 = l1\<lparr>l_routing := [(''search'', [''c:1''])], l_down_until := (\<lambda>_. Some 2000)\<rparr>
   in resolve_address demo_lenv ''search'' (Some ''r1'') l2 = (Inr (Some ''b:1''), l2)"
  unfolding Let_def
  by (rule affinity_sticks[OF two_resolved, where e = "''c:1''" and es = "[]"])
    (simp_all add: two_resolved, simp_all add: two_lc_def idle_lc_def)

text \<open>Three rounds: nothing, nothing, and a result just past the deadline.\<close>

definition round_at :: "rat \<Rightarrow> hash \<Rightarrow> observation" where
  "round_at t h = \<lparr>o_error = [], o_failed = h, o_result = h, o_time = t\<rparr>"

theorem wait_ends_honestly_witness:
  "\<exists>res. wait_for_result ''f'' (Some 3) 0 [round_at 1 [], round_at 2 [], round_at 3 [(''result'', Raw ''x'')]] = Some res"
proof -
  let ?obs = "[round_at 1 [], round_at 2 [], round_at 3 [(''result'', Raw ''x'')]]"
  have "\<exists>ob\<in>set ?obs. 0 + of_int 3 \<le> o_time ob" by (simp add: round_at_def)
  from wait_ends_honestly[OF this, of "''f''"] show ?thesis by blast
qed

text \<open>The method returns 1, at the root of a request.\<close>

definition demo_running :: running where
  "demo_running = \<lparr>e_call = demo_call\<lparr>c_parent := None\<rparr>, e_args = [], e_future_args = [], e_submitted_at = 1000\<rparr>"

theorem root_call_leaves_an_object_witness:
  "\<exists>t l'. run_method demo_lenv demo_running 0 [] (idle_lc empty_redis) = (Inr (Some t), l') \<and> (\<exists>d. t = Doc (VDict d))"
proof -
  obtain t l' where "run_method demo_lenv demo_running 0 [] (idle_lc empty_redis) = (Inr (Some t), l')"
    by (simp add: run_method_def demo_running_def demo_call_def demo_lenv_def idle_lc_def empty_redis_def given_def
        or_empty_def root_result_def res_bnd_def is_dict_def serialize_def is_container_def fan_out_to_consumers_def
        forget_forward_def rd_smembers_def rd_hset_def rd_hset_multiple_def pass_def Let_def act_simps)
  moreover have "\<not> given (c_parent (e_call demo_running))" by (simp add: demo_running_def given_def)
  ultimately show ?thesis using root_call_leaves_an_object[of demo_lenv demo_running 0 "[]"] by blast
qed

end
