(* ===== verification/Replica_Cleanup.thy ===== *)
theory Replica_Cleanup
  imports Replica_Delivery
begin

text \<open>
  The clean-up of a finished request: who does it, in what order its keys get their expiry, and that
  it is done once.
\<close>

section \<open>Expiry\<close>

lemma exists_expire [simp]: "rd_exists k (rd_expire j n b r) = rd_exists k r"
  by (simp add: rd_expire_def rd_exists_def)

lemma exists_expire_all [simp]: "rd_exists k (expire_all n ks r) = rd_exists k r"
  by (induction n ks r rule: expire_all.induct) simp_all

lemma expire_all_append: "expire_all n (ks @ js) r = expire_all n js (expire_all n ks r)"
  by (induction n ks r rule: expire_all.induct) simp_all

lemma ttl_expire: "rd_ttls r k \<noteq> None \<Longrightarrow> rd_ttls (rd_expire j n True r) k \<noteq> None"
  by (simp add: rd_expire_def)

lemma ttl_expire_all: "rd_ttls r k \<noteq> None \<Longrightarrow> rd_ttls (expire_all n ks r) k \<noteq> None"
proof (induction ks arbitrary: r)
  case (Cons j ks)
  then show ?case using ttl_expire[of r k j n] by simp
qed simp

lemma expire_all_sets: "k \<in> set ks \<Longrightarrow> rd_exists k r \<Longrightarrow> rd_ttls (expire_all n ks r) k \<noteq> None"
proof (induction ks arbitrary: r)
  case (Cons j ks)
  show ?case
  proof (cases "j = k")
    case True
    with Cons.prems have "rd_ttls (rd_expire j n True r) k \<noteq> None" by (simp add: rd_expire_def)
    then show ?thesis using ttl_expire_all by simp
  next
    case False
    with Cons show ?thesis by simp
  qed
qed simp

lemma expire_all_other: "k \<notin> set ks \<Longrightarrow> rd_ttls (expire_all n ks r) k = rd_ttls r k"
  by (induction n ks r rule: expire_all.induct) (simp_all add: rd_expire_def)

lemma marker_apart: "delivered_key rid \<notin> set (request_keys rid fids)"
  by (auto simp: delivered_key_def request_keys_def request_key_def future_key_def consumers_key_def)

text \<open>C13: the marker of a delivered request never expires before what it vouches for: stop the clean-up
  after any number of its expiries; if the marker has an expiry then every key of the request that
  exists has one, with the marker's own expiry the last to be set. And none of them is deleted on the
  way: each key still exists as long as it did.\<close>

theorem cleanup_marker_last:
  assumes "rd_ttls r (delivered_key rid) = None"
    and "rd_ttls (expire_all grace (take n (keys_to_expire rid fids)) r) (delivered_key rid) \<noteq> None"
    and "k \<in> set (request_keys rid fids)"
  shows "rd_exists k (expire_all grace (take n (keys_to_expire rid fids)) r) = rd_exists k r \<and>
    (rd_exists k r \<longrightarrow> rd_ttls (expire_all grace (take n (keys_to_expire rid fids)) r) k \<noteq> None)"
proof -
  have "delivered_key rid \<in> set (take n (keys_to_expire rid fids))"
    using assms(1, 2) expire_all_other by metis
  with marker_apart have "n > length (request_keys rid fids)"
    by (cases "n \<le> length (request_keys rid fids)") (auto simp: keys_to_expire_def dest: in_set_takeD)
  then have "take n (keys_to_expire rid fids) = request_keys rid fids @ [delivered_key rid]"
    by (simp add: keys_to_expire_def)
  with assms(3) show ?thesis by (simp add: expire_all_sets)
qed

section \<open>Claimed, done once, released\<close>

text \<open>A request whose telemetry is not delivered, or whose marker has its expiry, is left alone; so is one
  another controller is cleaning up.\<close>

lemma cleanup_leaves_alone:
  assumes "\<not> opt_truthy (rd_get (delivered_key rid) (l_redis l)) \<or> rd_ttl (delivered_key rid) (l_redis l) > 0 \<or>
    rd_exists (request_key rid ''cleanup_lock'') (l_redis l)"
  shows "snd (cleanup_request env rid l) = l"
proof -
  have taken: "rd_exists k r \<Longrightarrow> rd_setnx k v r = (False, r)" for k v r
    by (simp add: rd_setnx_def rd_set_opts_def)
  show ?thesis
    using assms by (auto simp: cleanup_request_def bnd_run rask_run ret_run rdo_run taken)
qed

text \<open>The lock is gone when the clean-up ends, however it ends.\<close>

lemma exists_delete1: "rd_exists k (rd_delete1 j r) \<longleftrightarrow> k \<noteq> j \<and> rd_exists k r"
  by (auto simp: rd_exists_def rd_delete1_def delete_conv')

lemma cleanup_releases:
  assumes "\<not> l_down l" "\<not> rd_exists (request_key rid ''cleanup_lock'') (l_redis l)"
  shows "\<not> rd_exists (request_key rid ''cleanup_lock'') (l_redis (snd (cleanup_request env rid l)))"
proof -
  let ?k = "request_key rid ''cleanup_lock''"
  show ?thesis
  proof (cases "\<not> opt_truthy (rd_get (delivered_key rid) (l_redis l)) \<or> rd_ttl (delivered_key rid) (l_redis l) > 0")
    case True
    then have "snd (cleanup_request env rid l) = l" by (intro cleanup_leaves_alone) auto
    with assms(2) show ?thesis by simp
  next
    case False
    obtain r1 where r1: "rd_setnx ?k (Raw (a_address env)) (l_redis l) = (True, r1)"
      using assms(2) by (simp add: rd_setnx_def rd_set_opts_def)
    obtain res l2 where l2: "cleanup_body env rid (l\<lparr>l_redis := r1\<rparr>) = (res, l2)" by fastforce
    have "keeps (\<lambda>l. \<not> l_down l) (cleanup_body env rid)"
      unfolding cleanup_body_def Let_def by (intro pres_intros up.basics)
    from keepsD[OF this, of "l\<lparr>l_redis := r1\<rparr>"] l2 assms(1) have up2: "\<not> l_down l2" by simp
    have "cleanup_request env rid l =
        finally_do (cleanup_body env rid) (rtell (rd_delete [?k])) (l\<lparr>l_redis := r1\<rparr>)"
      using False assms(1) r1 by (simp add: cleanup_request_def bnd_run rask_run rdo_run)
    with l2 up2 show ?thesis by (simp add: finally_do_def rtell_run exists_delete1 split: sum.split)
  qed
qed

text \<open>A marker whose request's keys are two; the clean-up stops after the marker.\<close>

definition demo_finished :: redis where
  "demo_finished = rd_set (delivered_key ''r1'') (Raw ''1'') (rd_set (request_key ''r1'' ''future'') (Raw ''f1'') empty_redis)"

theorem cleanup_marker_last_witness:
  "rd_ttls (expire_all 30 (take 8 (keys_to_expire ''r1'' [''f1''])) demo_finished) (request_key ''r1'' ''future'') \<noteq> None"
proof -
  have "rd_ttls demo_finished (delivered_key ''r1'') = None"
    by (simp add: demo_finished_def rd_set_def rd_set_opts_def empty_redis_def)
  moreover have "rd_ttls (expire_all 30 (take 8 (keys_to_expire ''r1'' [''f1''])) demo_finished) (delivered_key ''r1'') \<noteq> None"
    by (rule expire_all_sets)
      (simp_all add: keys_to_expire_def request_keys_def demo_finished_def rd_set_def rd_set_opts_def rd_exists_def)
  moreover have "request_key ''r1'' ''future'' \<in> set (request_keys ''r1'' [''f1''])" by (simp add: request_keys_def)
  moreover have "rd_exists (request_key ''r1'' ''future'') demo_finished"
    by (simp add: demo_finished_def rd_set_def rd_set_opts_def rd_exists_def)
  ultimately show ?thesis using cleanup_marker_last by blast
qed

end
