(* ===== verification/Replica_Startup.thy ===== *)
theory Replica_Startup
  imports Replica_Choice Replica_Cleanup
begin

text \<open>
  Starting and stopping a replica (\<open>LocalController.__init__\<close>, \<open>_start_llm_gateway\<close>, \<open>_load_agent\<close> and
  \<open>stop\<close> of \<open>controller/local_controller.py\<close>). What the container answers (free ports, the gateway's
  process and health, the agent's module) is the record \<open>boot\<close>.
\<close>

section \<open>The LLM gateway\<close>

definition PROXY_PORT :: nat where "PROXY_PORT = 8082"

text \<open>One round of the health check: the exit code of the process if it ended, whether \<open>/healthz\<close>
  answered, and the time after it.\<close>

record boot =
  b_port_taken :: "nat \<Rightarrow> bool"
  b_spawned :: bool
  b_rounds :: "(int option \<times> bool \<times> rat) list"
  b_named :: bool
  b_file_exists :: bool
  b_has_spec :: bool
  b_constructed :: bool

text \<open>\<open>None\<close>: still checking after these rounds.\<close>

fun gateway_rounds :: "rat \<Rightarrow> rat \<Rightarrow> (int option \<times> bool \<times> rat) list \<Rightarrow> (exn + unit) option" where
  "gateway_rounds deadline now rounds =
     (if now \<ge> deadline then Some (Inl (RuntimeError ''LLM gateway did not become healthy''))
      else case rounds of
          [] \<Rightarrow> None
        | (Some code, healthy, t) # rest \<Rightarrow> Some (Inl (RuntimeError ''LLM gateway exited immediately''))
        | (None, True, t) # rest \<Rightarrow> Some (Inr ())
        | (None, False, t) # rest \<Rightarrow> gateway_rounds deadline t rest)"

definition start_llm_gateway :: "boot \<Rightarrow> rat \<Rightarrow> (exn + unit) option" where
  "start_llm_gateway b now =
     (if \<exists>p\<in>set [8081, PROXY_PORT]. b_port_taken b p then Some (Inl (RuntimeError ''port already in use''))
      else if \<not> b_spawned b then Some (Inl (RuntimeError ''LLM gateway failed to start''))
      else gateway_rounds (now + 60) now (b_rounds b))"

text \<open>\<open>_load_agent\<close>: whether there is an agent.\<close>

definition load_agent :: "boot \<Rightarrow> bool" where
  "load_agent b \<longleftrightarrow> b_named b \<and> b_file_exists b \<and> b_has_spec b \<and> b_constructed b"

section \<open>Starting\<close>

definition first_rules :: "lenv \<Rightarrow> unit lstep" where
  "first_rules env =
     catch (bnd (rask (\<lambda>r. load_rules (a_iso env) r None)) (\<lambda>res.
            bnd (of_res res) (\<lambda>rules. modify_st (\<lambda>l. l\<lparr>l_rules := rules\<rparr>))))
       (\<lambda>_. modify_st (\<lambda>l. l\<lparr>l_rules := no_rules\<rparr>))"

definition first_metrics :: "rat \<Rightarrow> hash" where
  "first_metrics now =
     [(''started_at'', Doc (VFloat (Fin now))), (''observed_at'', Doc (VFloat (Fin now))), (''requests_served'', as_text 0),
      (''full_failures'', as_text 0), (''requests_completed'', as_text 0), (''queue_time_ms_total'', as_text 0),
      (''execution_ms_total'', as_text 0)]"

definition own_status_key :: "lenv \<Rightarrow> string" where
  "own_status_key env = own_key env ''status''"

definition gateway_up :: "lenv \<Rightarrow> boot \<Rightarrow> unit lstep" where
  "gateway_up env b =
     (if \<not> runs_agent env then ret ()
      else catch
        (bnd (read_st l_now) (\<lambda>now.
         bnd (of_res (case start_llm_gateway b now of
                Some res \<Rightarrow> res | None \<Rightarrow> Inl (RuntimeError ''LLM gateway did not become healthy''))) (\<lambda>_.
         modify_st (\<lambda>l. l\<lparr>l_gateway_up := True\<rparr>))))
        (\<lambda>e. bnd (rtell (rd_set (own_status_key env) (status_text StatusFailed))) (\<lambda>_. raise e)))"

definition announce :: "lenv \<Rightarrow> unit lstep" where
  "announce env =
     bnd (modify_st (\<lambda>l. l\<lparr>l_status := Initializing\<rparr>)) (\<lambda>_.
     bnd (read_st l_now) (\<lambda>now.
     bnd (rtell (rd_set_with_hash (own_status_key env) (status_text Initializing) (own_key env ''metrics'') (first_metrics now))) (\<lambda>_.
     modify_st (\<lambda>l. l\<lparr>l_metrics_on := True\<rparr>))))"

definition with_agent :: "lenv \<Rightarrow> boot \<Rightarrow> bool \<Rightarrow> unit lstep" where
  "with_agent env b publish_ready =
     (if runs_agent env \<and> \<not> load_agent b then
        bnd (modify_st (\<lambda>l. l\<lparr>l_metrics_on := False\<rparr>)) (\<lambda>_.
        bnd (mark_failed env) (\<lambda>_.
        bnd (modify_st (\<lambda>l. l\<lparr>l_gateway_up := False\<rparr>)) (\<lambda>_.
        raise (RuntimeError (''Failed to load configured agent '' @
          (if a_agent_name env \<noteq> [] then a_agent_name env else a_agent_file env) @ ''.'')))))
      else if publish_ready then mark_ready env else ret ())"

definition start_controller :: "lenv \<Rightarrow> boot \<Rightarrow> bool \<Rightarrow> unit lstep" where
  "start_controller env b publish_ready =
     bnd (first_rules env) (\<lambda>_.
     bnd load_routing (\<lambda>_.
     bnd (gateway_up env b) (\<lambda>_.
     bnd (announce env) (\<lambda>_.
     with_agent env b publish_ready))))"

text \<open>\<open>stop\<close>: calls no worker took are cancelled; the rest get a few seconds.\<close>

definition stop_controller :: "lenv \<Rightarrow> unit lstep" where
  "stop_controller env =
     bnd (modify_st (\<lambda>l. l\<lparr>l_metrics_on := False, l_running := take (a_workers env) (l_running l)\<rparr>)) (\<lambda>_.
     mark_stopped env)"

section \<open>What a start leaves\<close>

declare gateway_rounds.simps [simp del]

lemma gateway_rounds_healthy:
  "gateway_rounds deadline now rounds = Some (Inr ()) \<Longrightarrow> \<exists>t. (None, True, t) \<in> set rounds"
proof (induction deadline now rounds rule: gateway_rounds.induct)
  case (1 deadline now rounds)
  from 1(2) show ?case
    by (subst (asm) gateway_rounds.simps)
      (auto split: if_splits list.splits prod.splits option.splits bool.splits dest: 1(1))
qed

lemma first_rules_keeps: "\<exists>rules. first_rules env l = (Inr (), l\<lparr>l_rules := rules\<rparr>)"
  by (auto simp: first_rules_def catch_def bnd_def rask_def of_res_def modify_st_def split: sum.split)

lemma load_routing_keeps:
  "load_routing l = (res, l1) \<Longrightarrow> l_redis l1 = l_redis l \<and> l_down l1 = l_down l \<and> l_now l1 = l_now l \<and>
    l_gateway_up l1 = l_gateway_up l"
  by (auto simp: load_routing_def bnd_run rask_run of_res_run modify_run split: if_splits sum.splits)

lemma load_routing_rules:
  "load_routing (l\<lparr>l_rules := x\<rparr>) = (fst (load_routing l), (snd (load_routing l))\<lparr>l_rules := x\<rparr>)"
  by (simp add: load_routing_def bnd_run rask_run of_res_run modify_run split: sum.split)

lemma gateway_up_run:
  assumes "gateway_up env b l = (res, l1)" "\<not> l_down l"
  shows "\<not> l_down l1 \<and> (case res of
      Inr _ \<Rightarrow> runs_agent env \<longrightarrow> (\<exists>t. (None, True, t) \<in> set (b_rounds b)) \<and> \<not> b_port_taken b 8081 \<and> \<not> b_port_taken b PROXY_PORT
    | Inl _ \<Rightarrow> rd_get (own_status_key env) (l_redis l1) = Some (status_text StatusFailed))"
proof (cases "runs_agent env")
  case True
  let ?res = "case start_llm_gateway b (l_now l) of Some res \<Rightarrow> res | None \<Rightarrow> Inl (RuntimeError ''LLM gateway did not become healthy'')"
  show ?thesis
  proof (cases ?res)
    case (Inl e)
    show ?thesis
      using True assms by (auto simp: Inl gateway_up_def catch_run bnd_run read_run of_res_run rtell_run raise_run)
  next
    case (Inr u)
    then have start: "start_llm_gateway b (l_now l) = Some (Inr ())" by (cases "start_llm_gateway b (l_now l)") auto
    then have healthy: "gateway_rounds (l_now l + 60) (l_now l) (b_rounds b) = Some (Inr ())" "\<not> b_port_taken b 8081" "\<not> b_port_taken b PROXY_PORT"
      by (auto simp: start_llm_gateway_def split: if_splits)
    have "res = Inr () \<and> l1 = l\<lparr>l_gateway_up := True\<rparr>"
      using True assms(1) by (auto simp: start gateway_up_def catch_run bnd_run read_run of_res_run modify_run)
    with assms(2) healthy(2, 3) gateway_rounds_healthy[OF healthy(1)] show ?thesis by simp
  qed
qed (use assms in \<open>auto simp: gateway_up_def ret_run\<close>)

lemma announce_run:
  "\<not> l_down l \<Longrightarrow> \<exists>l1. announce env l = (Inr (), l1) \<and> \<not> l_down l1"
  by (simp add: announce_def bnd_run read_run rtell_run modify_run)

lemma with_agent_run:
  assumes "with_agent env b True l = (res, l1)" "\<not> l_down l"
  shows "case res of
      Inr _ \<Rightarrow> rd_get (own_status_key env) (l_redis l1) = Some (status_text Healthy) \<and> l_status l1 = Healthy \<and>
        (runs_agent env \<longrightarrow> load_agent b)
    | Inl _ \<Rightarrow> rd_get (own_status_key env) (l_redis l1) = Some (status_text StatusFailed)"
  using assms
  by (auto simp: with_agent_def mark_failed_def mark_ready_def set_status_def own_status_key_def bnd_run modify_run rtell_run
      catch_run ret_run raise_run split: if_splits)

text \<open>C12: a replica says it is healthy only when everything its calls need is there: a start that returns
  has set the status to healthy in Redis and in memory when it is asked to, and then the gateway
  answered its health check and the agent was constructed, when the replica runs one; a start that gets
  past the routing table and raises leaves the status failed in Redis, never one from before.\<close>

theorem healthy_only_when_started:
  assumes "start_controller env b True l = (res, l')" "\<not> l_down l" "fst (load_routing l) = Inr ()"
  shows "(case res of
      Inr _ \<Rightarrow> rd_get (own_status_key env) (l_redis l') = Some (status_text Healthy) \<and> l_status l' = Healthy \<and>
        (runs_agent env \<longrightarrow> load_agent b \<and> (\<exists>t. (None, True, t) \<in> set (b_rounds b)) \<and>
           \<not> b_port_taken b 8081 \<and> \<not> b_port_taken b PROXY_PORT)
    | Inl _ \<Rightarrow> rd_get (own_status_key env) (l_redis l') = Some (status_text StatusFailed))"
proof -
  obtain rules where rules: "first_rules env l = (Inr (), l\<lparr>l_rules := rules\<rparr>)" using first_rules_keeps by blast
  obtain l2 where l2: "load_routing (l\<lparr>l_rules := rules\<rparr>) = (Inr (), l2)"
    using assms(3) by (simp add: load_routing_rules)
  then have up2: "\<not> l_down l2" using load_routing_keeps assms(2) by fastforce
  obtain r3 l3 where l3: "gateway_up env b l2 = (r3, l3)" by fastforce
  note gw = gateway_up_run[OF l3 up2]
  have go: "start_controller env b True l = bnd (gateway_up env b) (\<lambda>_. bnd (announce env) (\<lambda>_. with_agent env b True)) l2"
    by (simp add: start_controller_def bnd_Inr[where m = "first_rules env", OF rules] bnd_Inr[where m = load_routing, OF l2])
  show ?thesis
  proof (cases r3)
    case (Inl e)
    with assms(1) l3 go have "res = Inl e" "l' = l3" by (simp_all add: bnd_Inl)
    with gw Inl show ?thesis by simp
  next
    case (Inr u)
    then obtain l4 where l4: "announce env l3 = (Inr (), l4)" "\<not> l_down l4" using announce_run gw by blast
    with assms(1) l3 go Inr have "with_agent env b True l4 = (res, l')" by (simp add: bnd_Inr)
    from with_agent_run[OF this l4(2)] gw Inr show ?thesis by (auto split: sum.splits)
  qed
qed

text \<open>A gateway that answers at its second check, and an agent that loads.\<close>

definition demo_boot :: boot where
  "demo_boot = \<lparr>b_port_taken = (\<lambda>_. False), b_spawned = True, b_rounds = [(None, False, 1001), (None, True, 1002)],
     b_named = True, b_file_exists = True, b_has_spec = True, b_constructed = True\<rparr>"

lemma demo_starts:
  "start_llm_gateway demo_boot 1000 = Some (Inr ())" "runs_agent demo_lenv" "load_agent demo_boot"
  by (simp_all add: start_llm_gateway_def gateway_rounds.simps demo_boot_def runs_agent_def demo_lenv_def load_agent_def)

theorem healthy_only_when_started_witness:
  "\<exists>l'. start_controller demo_lenv demo_boot True (idle_lc empty_redis) = (Inr (), l') \<and> l_status l' = Healthy"
proof -
  obtain rules where rules: "first_rules demo_lenv (idle_lc empty_redis) = (Inr (), (idle_lc empty_redis)\<lparr>l_rules := rules\<rparr>)"
    using first_rules_keeps by blast
  obtain l' where l': "start_controller demo_lenv demo_boot True (idle_lc empty_redis) = (Inr (), l')"
    by (simp add: start_controller_def bnd_Inr[where m = "first_rules demo_lenv", OF rules])
      (simp add: demo_starts load_routing_def gateway_up_def announce_def with_agent_def mark_ready_def set_status_def
        idle_lc_def rd_hgetall_def empty_redis_def act_simps catch_run)
  have "\<not> l_down (idle_lc empty_redis)" by (simp add: idle_lc_def)
  moreover have "fst (load_routing (idle_lc empty_redis)) = Inr ()"
    by (simp add: load_routing_def idle_lc_def empty_redis_def rd_hgetall_def act_simps)
  ultimately have "l_status l' = Healthy" using healthy_only_when_started[OF l'] by simp
  with l' show ?thesis by blast
qed

end
