(* ===== verification/Future_Calls.thy ===== *)
theory Future_Calls
  imports Replica_Choice
begin

text \<open>
  The Future an agent call returns (\<open>controller/future.py\<close>) and the question to a person built on it
  (\<open>controller/utils/human_input.py\<close>): the record written, the call submitted to the machine's own Local
  Controller with its retries, and the wait for the value. A call's reply can be lost after it was
  taken: \<open>a_reached\<close> says which attempts arrived.
\<close>

section \<open>A future\<close>

record future =
  f_id :: string
  f_request_id :: string
  f_parent :: string
  f_agent :: string
  f_method :: string
  f_args :: dict
  f_future_args :: "string list"
  f_result :: "rtext option"
  f_refusal :: "refusal option"

text \<open>A Future passed as an argument is sent as its id.\<close>

definition sent_arg :: "pyres \<Rightarrow> pyres" where
  "sent_arg x = (case x of RFuture fid \<Rightarrow> RVal (VStr fid) | _ \<Rightarrow> x)"

definition is_future :: "pyres \<Rightarrow> bool" where
  "is_future x \<longleftrightarrow> (case x of RFuture _ \<Rightarrow> True | _ \<Rightarrow> False)"

definition type_name_of :: "pyres \<Rightarrow> string" where
  "type_name_of x = (case x of RDict _ \<Rightarrow> ''dict'' | _ \<Rightarrow> ''list'')"

text \<open>What an argument holds that JSON cannot: a Future inside a list or a dict. The first such argument
  is named.\<close>

fun sendable :: "string \<Rightarrow> string \<Rightarrow> (string \<times> pyres) list \<Rightarrow> exn + dict" where
  "sendable agent method [] = Inr []"
| "sendable agent method ((k, x) # args) = (case to_json x of
       Inr v \<Rightarrow> map_sum id (\<lambda>d. (k, v) # d) (sendable agent method args)
     | Inl _ \<Rightarrow> Inl (TypeError (''Argument '' @ quoted k @ '' of '' @ agent @ ''.'' @ method @ '' can't be sent: it holds a Future inside a '' @
         type_name_of x @ ''. Pass a Future as its own argument, or call .value() on it first.'')))"

section \<open>Submitting the call\<close>

definition text_field :: "hash \<Rightarrow> string \<Rightarrow> string option" where
  "text_field h k = map_option (\<lambda>t. shown (Some t)) (map_of h k)"

definition request_data :: "hash \<Rightarrow> future \<Rightarrow> call" where
  "request_data h f =
     \<lparr>c_service = text_field h ''service'', c_function = text_field h ''method'', c_args = f_args f,
      c_parent = text_field h ''parent'', c_future_id = text_field h ''id'', c_origin = None,
      c_request_id = text_field h ''request_id'', c_created_at = map_of h ''created_at'', c_context = None,
      c_affinities = [], c_route_to = None, c_future_args = f_future_args f, c_retries = 0\<rparr>"

text \<open>\<open>call_with_retry\<close> of \<open>Execute\<close>. An exception of the handler reaches the caller as the RPC's error.\<close>

definition attempt_outcome :: "wire \<Rightarrow> (exn + reply) option \<Rightarrow> wire + reply" where
  "attempt_outcome x served =
     (if x \<noteq> Delivered then Inl x
      else case served of
          None \<Rightarrow> Inl Unavailable
        | Some (Inl e) \<Rightarrow> Inl (Failed (''Exception calling application: '' @ exn_str e))
        | Some (Inr Aborted) \<Rightarrow> Inl Unavailable
        | Some (Inr r) \<Rightarrow> Inr r)"

definition try_execute :: "lenv \<Rightarrow> call \<Rightarrow> (wire + reply) lstep" where
  "try_execute env data =
     bnd draw (\<lambda>i.
     let x = a_wire env i (a_address env) in
     bnd (if x = Delivered \<or> a_reached env i
          then bnd (tried (Execute env (Request data))) (\<lambda>r. ret (Some r)) else ret None) (\<lambda>served.
     ret (attempt_outcome x served)))"

fun submit_tries :: "lenv \<Rightarrow> nat \<Rightarrow> rat \<Rightarrow> call \<Rightarrow> (wire + reply) lstep" where
  "submit_tries env 0 backoff data = ret (Inl Unavailable)"
| "submit_tries env (Suc n) backoff data =
     bnd (try_execute env data) (\<lambda>outcome.
     if outcome = Inl Unavailable \<and> n > 0
     then bnd (pass backoff) (\<lambda>_. submit_tries env n (min (backoff * 2) 8) data)
     else ret outcome)"

definition unsent_reason :: "wire \<Rightarrow> string" where
  "unsent_reason x = (if x = Unavailable \<or> x = DeadlineExceeded
     then ''CanyonOS in the calling container didn't answer in time'' else wire_details x)"

definition no_source :: source where
  "no_source = \<lparr>s_id = None, s_agent = None, s_address = None\<rparr>"

definition record_unsent :: "lenv \<Rightarrow> future \<Rightarrow> wire \<Rightarrow> unit lstep" where
  "record_unsent env f x =
     (let why = ''Could not send the call to '' @ f_agent f @ ''.'' @ f_method f @ '': '' @ unsent_reason x in
      catch
        (bnd (rtell (rd_hset_multiple (future_key (f_id f)) [(''error'', Raw why), (''failed'', Doc (VInt 1))])) (\<lambda>_.
         bnd (read_st l_now) (\<lambda>now.
         append_log_entry (future_key (f_id f)) (build_failure_entry env no_source now (Plain why) (Some ''SendFailed'')))))
        (\<lambda>_. ret ()))"

definition submit_request :: "lenv \<Rightarrow> future \<Rightarrow> future lstep" where
  "submit_request env f =
     bnd (read_st l_now) (\<lambda>now.
     bnd (rtell (rd_hset (future_key (f_id f)) ''created_at'' (Doc (VFloat (Fin now))))) (\<lambda>_.
     bnd (rask (rd_hgetall (future_key (f_id f)))) (\<lambda>h.
     bnd (of_res (if map_of h ''id'' = None then Inl (KeyError ''id'')
                  else if map_of h ''method'' = None then Inl (KeyError ''method'') else Inr ())) (\<lambda>_.
     bnd (submit_tries env 8 (1 / 2) (request_data h f)) (\<lambda>outcome.
     case outcome of
       Inl x \<Rightarrow> bnd (record_unsent env f x) (\<lambda>_. ret f)
     | Inr (Turned rf) \<Rightarrow> ret (f\<lparr>f_refusal := Some rf\<rparr>)
     | Inr _ \<Rightarrow> ret f)))))"

text \<open>\<open>Future.__init__\<close>; \<open>fid\<close> is the random id, the request and the parent come from the context.\<close>

definition new_future :: "lenv \<Rightarrow> string \<Rightarrow> string \<Rightarrow> string \<Rightarrow> string \<Rightarrow> string \<Rightarrow> (string \<times> pyres) list \<Rightarrow> future lstep" where
  "new_future env fid rid parent agent method args =
     bnd (of_res (sendable agent method (map (\<lambda>(k, x). (k, sent_arg x)) args))) (\<lambda>sent.
     let f = \<lparr>f_id = fid, f_request_id = rid, f_parent = parent, f_agent = agent, f_method = method, f_args = sent,
              f_future_args = map fst (filter (\<lambda>(k, x). is_future x) args), f_result = None, f_refusal = None\<rparr> in
     bnd (rtell (rd_hset_multiple (future_key fid)
            [(''id'', Raw fid), (''request_id'', Raw rid), (''parent'', Raw parent), (''service'', Raw agent),
             (''method'', Raw method), (''args'', Doc (VDict sent))])) (\<lambda>_.
     bnd (if rid \<noteq> [] then rtell (rd_sadd (request_key rid ''futures'') [fid]) else ret ()) (\<lambda>_.
     submit_request env f)))"

section \<open>The value\<close>

definition poll_future :: "future \<Rightarrow> (future \<times> rtext option) lstep" where
  "poll_future f =
     bnd (rask (rd_hget (future_key (f_id f)) ''error'')) (\<lambda>error.
     if opt_truthy error then raise (AgentCallError (shown error))
     else bnd (rask (rd_hget (future_key (f_id f)) ''result'')) (\<lambda>result.
       let f' = (case result of None \<Rightarrow> f | Some t \<Rightarrow> f\<lparr>f_result := Some t\<rparr>) in ret (f', f_result f')))"

text \<open>\<open>value\<close>; \<open>None\<close>: still waiting after the rounds observed.\<close>

definition future_value :: "lenv \<Rightarrow> future \<Rightarrow> int option \<Rightarrow> (future \<times> rtext) option lstep" where
  "future_value env f timeout =
     bnd (rask (rd_hget (future_key (f_id f)) ''failed'')) (\<lambda>failed.
     if failed = Some (Doc (VInt 1)) then
       bnd (rask (rd_hget (future_key (f_id f)) ''error'')) (\<lambda>error.
       raise (AgentCallError (if opt_truthy error then shown error else ''Unknown error'')))
     else case f_result f of
         Some t \<Rightarrow> ret (Some (f, t))
       | None \<Rightarrow> bnd (read_st l_now) (\<lambda>now.
           case wait_for_result (f_id f) timeout now (a_observed env (f_id f)) of
             None \<Rightarrow> ret None
           | Some (Inr t) \<Rightarrow> ret (Some (f\<lparr>f_result := Some t\<rparr>, t))
           | Some (Inl (TimeoutError _)) \<Rightarrow> raise (TimeoutError (f_agent f @ ''.'' @ f_method f @ '' did not finish within '' @
               (case timeout of None \<Rightarrow> ''None'' | Some t \<Rightarrow> str_int t) @ '' seconds''))
           | Some (Inl e) \<Rightarrow> raise e))"

definition is_available :: "future \<Rightarrow> bool" where
  "is_available f \<longleftrightarrow> f_result f \<noteq> None"

section \<open>A question to a person\<close>

definition ask_person :: "lenv \<Rightarrow> string \<Rightarrow> string \<Rightarrow> string \<Rightarrow> val \<Rightarrow> val \<Rightarrow> val option lstep" where
  "ask_person env fid rid parent question input_schema =
     (if rid = [] then raise (RuntimeError ''ask_human() needs a request: it asks the person who sent it'')
      else bnd (catch
          (bnd (new_future env fid rid parent ENDPOINT_AGENT_NAME ''ask_human''
                 [(''question'', RVal (VDict [(''question'', question), (''input_schema'', input_schema)]))]) (\<lambda>f.
           future_value env f (Some QUESTION_TIMEOUT_SECONDS)))
          (\<lambda>e. case e of TimeoutError _ \<Rightarrow> raise (TimeoutError ''The person did not answer within an hour'') | _ \<Rightarrow> raise e)) (\<lambda>reply.
        case reply of
          None \<Rightarrow> ret None
        | Some (f, t) \<Rightarrow> of_res (case loads t of None \<Rightarrow> Inl JSON_ERROR | Some v \<Rightarrow> Inr (Some v))))"

text \<open>\<open>_approval\<close>: a reply whose \<open>approve\<close> is true or false.\<close>

definition approval :: "val \<Rightarrow> exn + val" where
  "approval reply = (case reply of
       VDict d \<Rightarrow> (case map_of d ''approve'' of
           None \<Rightarrow> Inl (KeyError ''approve'')
         | Some (VBool _) \<Rightarrow> Inr reply
         | Some _ \<Rightarrow> Inl (ValueError ''approve must be true or false''))
     | _ \<Rightarrow> Inl (TypeError ''indices''))"

section \<open>Submitted once\<close>

lemma Execute_stays_up: "keeps (\<lambda>l. \<not> l_down l) (Execute env payload)"
  unfolding Execute_def already_accepted_def enqueue_def Let_def
  by (intro pres_intros up.basics up.keeps_admit keeps_modify) simp_all

text \<open>One delivery queues the call or leaves the queue; it queues it only when the call was not claimed,
  and then claims it.\<close>

definition taken_once :: "lenv \<Rightarrow> string \<Rightarrow> call \<Rightarrow> lc \<Rightarrow> lc \<Rightarrow> bool" where
  "taken_once env fid data l l' \<longleftrightarrow> \<not> l_down l' \<and>
     (l_queue l' = l_queue l \<and> (accepted.held env fid l \<longrightarrow> accepted.held env fid l') \<or>
      l_queue l' = l_queue l @ [Request data] \<and> \<not> accepted.held env fid l \<and> accepted.held env fid l')"

lemma Execute_once:
  assumes "\<not> l_down l" "c_future_id data = Some fid" "fid \<noteq> []"
  shows "taken_once env fid data l (snd (Execute env (Request data) l))"
proof -
  let ?set = "rd_set_opts (accepted_key env fid) (Doc (VInt 1)) True (Some EXECUTE_DEDUP_TTL_SECONDS) (l_redis l)"
  let ?l1 = "l\<lparr>l_redis := snd ?set\<rparr>"
  let ?m = "if is_forwarded (Request data) then ret None else admit env data"
  have acc: "already_accepted env (Request data) l = (Inr (\<not> fst ?set), ?l1)"
    using assms by (simp add: already_accepted_def given_def or_empty_def catch_run bnd_run rdo_run ret_run)
  have up': "\<not> l_down (snd (Execute env (Request data) l))" using keepsD[OF Execute_stays_up] assms(1) by blast
  show ?thesis
  proof (cases "accepted.held env fid l \<or> \<not> fst ?set \<or> l_refusing l \<and> is_forwarded (Request data)")
    case True
    then consider "accepted.held env fid l" | "\<not> fst ?set" | "l_refusing l \<and> is_forwarded (Request data)" by blast
    then have "snd (Execute env (Request data) l) = l"
    proof cases
      case 1
      then show ?thesis using Execute_taken[OF assms(2, 3)] by blast
    next
      case 2
      then have "?l1 = l" by (auto simp: rd_set_opts_def split: if_splits)
      with acc 2 have "already_accepted env (Request data) l = (Inr True, l)" by simp
      then show ?thesis by (simp add: Execute_def bnd_run read_run ret_run)
    next
      case 3
      then show ?thesis by (simp add: Execute_def bnd_run read_run ret_run)
    qed
    with assms(1) show ?thesis by (simp add: taken_once_def)
  next
    case False
    then have run: "Execute env (Request data) l = bnd ?m (\<lambda>verdict.
         case verdict of
           Some rf \<Rightarrow> ret (Turned rf)
         | None \<Rightarrow> bnd (enqueue (Request data)) (\<lambda>_. ret Queued)) ?l1"
      by (cases "l_refusing l")
        (simp_all add: Execute_def bnd_run[of "read_st _"] bnd_run[of "already_accepted _ _"] read_run acc)
    obtain r l2 where l2: "?m ?l1 = (r, l2)" by fastforce
    have "accepted.held env fid ?l1" using assms(1) False set_nx_takes by (simp add: accepted.held_def)
    moreover have "keeps (accepted.held env fid) ?m" by (intro pres_intros accepted.held_admit)
    ultimately have "accepted.held env fid (snd (?m ?l1))" by (metis keepsD)
    then have held: "accepted.held env fid l2" by (simp only: l2 snd_conv)
    have "keeps (\<lambda>l'. l_queue l' = l_queue l) ?m" by (intro pres_intros queue_is.keeps_admit)
    then have "l_queue (snd (?m ?l1)) = l_queue l" by (rule keepsD) simp
    then have queue: "l_queue l2 = l_queue l" by (simp only: l2 snd_conv)
    have "snd (Execute env (Request data) l) \<in> {l2, l2\<lparr>l_queue := l_queue l2 @ [Request data], l_unfinished := l_unfinished l2 + 1\<rparr>}"
      unfolding run bnd_run[of ?m] l2 by (auto simp: bnd_run enqueue_def modify_run ret_run split: sum.split option.split)
    with held queue False up' show ?thesis by (auto simp: taken_once_def accepted.held_def)
  qed
qed

lemma taken_once_refl: "\<not> l_down l \<Longrightarrow> taken_once env fid data l l"
  by (simp add: taken_once_def)

lemma taken_once_upd [simp]:
  "taken_once env fid data (l\<lparr>l_drawn := n\<rparr>) l' = taken_once env fid data l l'"
  "taken_once env fid data (l\<lparr>l_now := t\<rparr>) l' = taken_once env fid data l l'"
  "taken_once env fid data l (l'\<lparr>l_now := t\<rparr>) = taken_once env fid data l l'"
  by (simp_all add: taken_once_def accepted.held_def)

lemma taken_once_trans:
  "taken_once env fid data l l1 \<Longrightarrow> taken_once env fid data l1 l2 \<Longrightarrow> taken_once env fid data l l2"
  by (auto simp: taken_once_def)

lemma attempt_once:
  assumes "try_execute env data l = (res, l')" "\<not> l_down l" "c_future_id data = Some fid" "fid \<noteq> []"
  shows "taken_once env fid data l l'"
  using assms Execute_once[of "l\<lparr>l_drawn := Suc (l_drawn l)\<rparr>" data fid env] taken_once_refl[of l env fid data]
  by (auto simp: try_execute_def Let_def bnd_run draw_run tried_run ret_run taken_once_def accepted.held_def split: if_splits)

text \<open>C2: a call is queued at most once however often it is submitted: whichever attempts of
  \<open>Future._submit_request\<close> are lost on the way, arrive with their reply lost, or are answered, in any order
  the retries give, the Local Controller's queue is as before or has this call once, at its end.\<close>

theorem submitted_at_most_once:
  assumes "submit_tries env n backoff data l = (res, l')" "\<not> l_down l" "c_future_id data = Some fid" "fid \<noteq> []"
  shows "l_queue l' = l_queue l \<or> l_queue l' = l_queue l @ [Request data]"
proof -
  have "taken_once env fid data l l'"
    using assms(1, 2)
  proof (induction n arbitrary: backoff l)
    case (Suc n)
    obtain outcome l1 where a: "try_execute env data l = (outcome, l1)" by fastforce
    have once: "taken_once env fid data l l1" using attempt_once[OF a Suc.prems(2) assms(3, 4)] .
    then have up1: "\<not> l_down l1" by (simp add: taken_once_def)
    show ?case
    proof (cases "outcome = Inr (Inl Unavailable) \<and> n > 0")
      case True
      with Suc.prems(1) a have "submit_tries env n (min (backoff * 2) 8) data (l1\<lparr>l_now := l_now l1 + backoff\<rparr>) = (res, l')"
        by (simp add: bnd_run pass_def modify_run)
      from Suc.IH[OF this] up1 have "taken_once env fid data l1 l'" by simp
      with once show ?thesis by (rule taken_once_trans)
    next
      case False
      with Suc.prems(1) a have "l' = l1" by (auto simp: bnd_run ret_run split: sum.splits if_splits)
      with once show ?thesis by simp
    qed
  qed (simp add: ret_run taken_once_refl)
  then show ?thesis by (auto simp: taken_once_def)
qed

text \<open>The first try_execute arrives and its reply is lost; the second is answered.\<close>

definition lossy_lenv :: lenv where
  "lossy_lenv = demo_lenv\<lparr>a_wire := (\<lambda>n _. if n = 0 then Unavailable else Delivered), a_reached := (\<lambda>n. n = 0)\<rparr>"

theorem submitted_at_most_once_witness:
  "let l' = snd (submit_tries lossy_lenv 8 (1 / 2) demo_call (idle_lc empty_redis)) in
   l_queue l' = [] \<or> l_queue l' = [Request demo_call]"
proof -
  obtain res l' where l': "submit_tries lossy_lenv 8 (1 / 2) demo_call (idle_lc empty_redis) = (res, l')" by fastforce
  have "\<not> l_down (idle_lc empty_redis)" "l_queue (idle_lc empty_redis) = []" "c_future_id demo_call = Some ''f1''"
    by (simp_all add: idle_lc_def demo_call_def)
  with submitted_at_most_once[OF l'] show ?thesis by (simp add: l' Let_def)
qed

end
