(* ===== verification/Py_Arith.thy ===== *)
theory Py_Arith
  imports Py_Values
begin

text \<open>
  Python's arithmetic and order on JSON values: \<open>int\<close> and \<open>float\<close> mixed as Python mixes them (a
  \<open>bool\<close> is an \<open>int\<close>), with the exceptions a value of another type, a zero divisor or an integer
  too large for a float raises. A float is exact; a finite result never rounds.
\<close>

section \<open>Floats\<close>

fun fl_neg :: "pyfloat \<Rightarrow> pyfloat" where
  "fl_neg (Fin a) = Fin (- a)"
| "fl_neg PInf = NInf"
| "fl_neg NInf = PInf"
| "fl_neg NaN = NaN"

fun fl_plus :: "pyfloat \<Rightarrow> pyfloat \<Rightarrow> pyfloat" where
  "fl_plus (Fin a) (Fin b) = Fin (a + b)"
| "fl_plus NaN _ = NaN"
| "fl_plus _ NaN = NaN"
| "fl_plus (Fin _) b = b"
| "fl_plus a (Fin _) = a"
| "fl_plus a b = (if a = b then a else NaN)"

definition fl_minus :: "pyfloat \<Rightarrow> pyfloat \<Rightarrow> pyfloat" where
  "fl_minus a b = fl_plus a (fl_neg b)"

definition fl_inf :: "bool \<Rightarrow> pyfloat" where
  "fl_inf positive = (if positive then PInf else NInf)"

fun fl_times :: "pyfloat \<Rightarrow> pyfloat \<Rightarrow> pyfloat" where
  "fl_times (Fin a) (Fin b) = Fin (a * b)"
| "fl_times NaN _ = NaN"
| "fl_times _ NaN = NaN"
| "fl_times (Fin a) b = (if a = 0 then NaN else fl_inf ((b = PInf) = (0 < a)))"
| "fl_times a (Fin b) = (if b = 0 then NaN else fl_inf ((a = PInf) = (0 < b)))"
| "fl_times a b = fl_inf (a = b)"

text \<open>Division by what is not zero.\<close>

fun fl_over :: "pyfloat \<Rightarrow> pyfloat \<Rightarrow> pyfloat" where
  "fl_over (Fin a) (Fin b) = Fin (a / b)"
| "fl_over NaN _ = NaN"
| "fl_over _ NaN = NaN"
| "fl_over (Fin _) _ = Fin 0"
| "fl_over a (Fin b) = fl_inf ((a = PInf) = (0 < b))"
| "fl_over _ _ = NaN"

section \<open>Values\<close>

fun as_int :: "val \<Rightarrow> int option" where
  "as_int (VInt i) = Some i"
| "as_int (VBool b) = Some (if b then 1 else 0)"
| "as_int _ = None"

text \<open>A number on its way into float arithmetic.\<close>

definition as_float :: "val \<Rightarrow> exn + pyfloat" where
  "as_float v = (case v of VFloat f \<Rightarrow> Inr f
     | _ \<Rightarrow> (case as_int v of Some i \<Rightarrow> float_of_int i | None \<Rightarrow> Inl (TypeError ''unsupported operand'')))"

definition py_arith :: "(int \<Rightarrow> int \<Rightarrow> int) \<Rightarrow> (pyfloat \<Rightarrow> pyfloat \<Rightarrow> pyfloat) \<Rightarrow> val \<Rightarrow> val \<Rightarrow> exn + val" where
  "py_arith f g a b = (case (as_int a, as_int b) of
       (Some i, Some j) \<Rightarrow> Inr (VInt (f i j))
     | _ \<Rightarrow> if py_num a = None \<or> py_num b = None then Inl (TypeError ''unsupported operand'')
           else res_bnd (as_float a) (\<lambda>x. res_bnd (as_float b) (\<lambda>y. Inr (VFloat (g x y)))))"

definition py_add :: "val \<Rightarrow> val \<Rightarrow> exn + val" where "py_add = py_arith (+) fl_plus"
definition py_sub :: "val \<Rightarrow> val \<Rightarrow> exn + val" where "py_sub = py_arith (-) fl_minus"
definition py_mul :: "val \<Rightarrow> val \<Rightarrow> exn + val" where "py_mul = py_arith (*) fl_times"

text \<open>\<open>a / b\<close>; the quotient of two integers is rounded once, so only it can overflow.\<close>

definition py_div :: "val \<Rightarrow> val \<Rightarrow> exn + val" where
  "py_div a b = (if py_num a = None \<or> py_num b = None then Inl (TypeError ''unsupported operand'')
     else if py_num b = Some (Fin 0) then Inl ZeroDivisionError
     else case (as_int a, as_int b) of
       (Some i, Some j) \<Rightarrow> (if \<bar>of_int i / of_int j :: rat\<bar> \<ge> 2 ^ 1024 - 2 ^ 970 then Inl OverflowError
         else Inr (VFloat (Fin (of_int i / of_int j))))
     | _ \<Rightarrow> res_bnd (as_float a) (\<lambda>x. res_bnd (as_float b) (\<lambda>y. Inr (VFloat (fl_over x y)))))"

text \<open>\<open>sum(xs)\<close>, from the left starting at 0.\<close>

fun py_sum_from :: "val \<Rightarrow> val list \<Rightarrow> exn + val" where
  "py_sum_from acc [] = Inr acc"
| "py_sum_from acc (x # xs) = res_bnd (py_add acc x) (\<lambda>a. py_sum_from a xs)"

definition py_sum :: "val list \<Rightarrow> exn + val" where "py_sum = py_sum_from (VInt 0)"

text \<open>\<open>int(x)\<close>: a float is cut towards zero, a text is read as digits.\<close>

definition trunc :: "rat \<Rightarrow> int" where "trunc q = (if 0 \<le> q then \<lfloor>q\<rfloor> else \<lceil>q\<rceil>)"

definition py_int_of :: "val \<Rightarrow> exn + int" where
  "py_int_of v = (case v of
       VFloat (Fin q) \<Rightarrow> Inr (trunc q)
     | VFloat NaN \<Rightarrow> Inl (ValueError ''cannot convert float NaN to integer'')
     | VFloat _ \<Rightarrow> Inl OverflowError
     | VStr s \<Rightarrow> (case int_str s of Some i \<Rightarrow> Inr i | None \<Rightarrow> Inl (ValueError ''invalid literal for int()''))
     | _ \<Rightarrow> (case as_int v of Some i \<Rightarrow> Inr i | None \<Rightarrow> Inl (TypeError ''int() argument'')))"

text \<open>\<open>x.is_integer()\<close>.\<close>

definition is_whole :: "pyfloat \<Rightarrow> bool" where
  "is_whole f = (case f of Fin q \<Rightarrow> of_int \<lfloor>q\<rfloor> = q | _ \<Rightarrow> False)"

section \<open>Order\<close>

text \<open>\<open>a < b\<close>: numbers by value, texts and lists lexicographically, times of the same kind; anything
  else raises. The first elements that are not equal decide between two lists.\<close>

function (sequential) py_less :: "val \<Rightarrow> val \<Rightarrow> exn + bool" where
  "py_less (VStr s) (VStr t) = Inr (s < t)"
| "py_less (VList []) (VList ys) = Inr (ys \<noteq> [])"
| "py_less (VList (x # xs)) (VList []) = Inr False"
| "py_less (VList (x # xs)) (VList (y # ys)) =
     (if py_eq x y then py_less (VList xs) (VList ys) else py_less x y)"
| "py_less (VTime t None) (VTime u None) = Inr (t < u)"
| "py_less (VTime t (Some z)) (VTime u (Some y)) = Inr (t - z < u - y)"
| "py_less v w = (case (py_num v, py_num w) of
     (Some a, Some b) \<Rightarrow> Inr (fl_less a b) | _ \<Rightarrow> Inl (TypeError ''unorderable types''))"
  by pat_completeness auto

termination
  by (relation "measure (\<lambda>(v, _). size v)") auto

text \<open>\<open>a <= b\<close> on two numbers.\<close>

definition num_le :: "val \<Rightarrow> val \<Rightarrow> bool" where
  "num_le a b \<longleftrightarrow> (case (py_num a, py_num b) of (Some x, Some y) \<Rightarrow> fl_le x y | _ \<Rightarrow> False)"

definition num_less :: "val \<Rightarrow> val \<Rightarrow> bool" where
  "num_less a b \<longleftrightarrow> (case (py_num a, py_num b) of (Some x, Some y) \<Rightarrow> fl_less x y | _ \<Rightarrow> False)"

section \<open>Facts\<close>

lemma as_int_num: "as_int v = Some i \<Longrightarrow> py_num v = Some (Fin (of_int i))"
  by (cases v) (auto split: if_splits)

lemma arith_ints [simp]:
  "py_add (VInt i) (VInt j) = Inr (VInt (i + j))"
  "py_sub (VInt i) (VInt j) = Inr (VInt (i - j))"
  "py_mul (VInt i) (VInt j) = Inr (VInt (i * j))"
  by (simp_all add: py_add_def py_sub_def py_mul_def py_arith_def)

lemma arith_floats [simp]:
  "py_add (VFloat x) (VFloat y) = Inr (VFloat (fl_plus x y))"
  "py_sub (VFloat x) (VFloat y) = Inr (VFloat (fl_minus x y))"
  "py_mul (VFloat x) (VFloat y) = Inr (VFloat (fl_times x y))"
  by (simp_all add: py_add_def py_sub_def py_mul_def py_arith_def as_float_def)

lemma py_less_ints [simp]: "py_less (VInt i) (VInt j) = Inr (i < j)"
  by simp

lemma trunc_of_int [simp]: "trunc (of_int i) = i"
  by (simp add: trunc_def)

lemma py_int_VInt [simp]: "py_int_of (VInt i) = Inr i"
  by (simp add: py_int_of_def)

text \<open>A number that is not negative, and not NaN.\<close>

definition nonneg :: "val \<Rightarrow> bool" where
  "nonneg v \<longleftrightarrow> (\<exists>x. py_num v = Some x \<and> fl_le (Fin 0) x)"

lemma nonneg_int: "as_int v = Some i \<Longrightarrow> nonneg v \<longleftrightarrow> 0 \<le> i"
  by (simp add: nonneg_def as_int_num)

lemma nonneg_VInt [simp]: "nonneg (VInt i) \<longleftrightarrow> 0 \<le> i"
  by (simp add: nonneg_def)

lemma nonneg_VFloat [simp]: "nonneg (VFloat x) \<longleftrightarrow> fl_le (Fin 0) x"
  by (simp add: nonneg_def)

lemma fl_plus_nonneg: "fl_le (Fin 0) x \<Longrightarrow> fl_le (Fin 0) y \<Longrightarrow> fl_le (Fin 0) (fl_plus x y)"
  by (cases x; cases y) (auto simp: fl_le_def)

lemma as_float_nonneg: "as_float v = Inr x \<Longrightarrow> nonneg v \<Longrightarrow> fl_le (Fin 0) x"
  by (cases v) (auto simp: as_float_def float_of_int_def nonneg_def split: if_splits)

lemma py_add_nonneg:
  assumes "py_add a b = Inr c" "nonneg a" "nonneg b"
  shows "nonneg c"
proof (cases "as_int a = None \<or> as_int b = None")
  case True
  then obtain x y where "as_float a = Inr x" "as_float b = Inr y" "c = VFloat (fl_plus x y)"
    using assms(1) by (auto simp: py_add_def py_arith_def split: option.splits if_splits elim!: res_bnd_InrE)
  then show ?thesis using assms(2, 3) as_float_nonneg fl_plus_nonneg by auto
next
  case False
  then show ?thesis using assms by (auto simp: py_add_def py_arith_def nonneg_int)
qed

lemma py_sum_from_nonneg: "py_sum_from a xs = Inr c \<Longrightarrow> nonneg a \<Longrightarrow> \<forall>x\<in>set xs. nonneg x \<Longrightarrow> nonneg c"
  by (induction xs arbitrary: a) (auto elim!: res_bnd_InrE dest: py_add_nonneg)

lemma py_sum_nonneg: "py_sum xs = Inr c \<Longrightarrow> \<forall>x\<in>set xs. nonneg x \<Longrightarrow> nonneg c"
  unfolding py_sum_def by (rule py_sum_from_nonneg) auto

lemma py_less_num: "py_less a b = Inr False \<Longrightarrow> \<not> num_less a b"
  by (cases a; cases b) (auto simp: num_less_def split: option.splits)

end
