(* ===== verification/Scaling.thy ===== *)
theory Scaling
  imports Reconcile_State Py_Arith
begin

text \<open>
  The scaling policy (\<open>controller/scaling.py\<close>) over the load samples of
  \<open>scaling/contract.py\<close>: the samples as JSON documents in capped Redis lists, the rates derived
  from running totals, the check of a policy and the decision of each agent's change of replicas.
\<close>

section \<open>Samples\<close>

definition WINDOW_LENGTH :: nat where "WINDOW_LENGTH = 4"

definition load_samples_key :: "string \<Rightarrow> string" where
  "load_samples_key replica_id = replica_id @ '':samples''"

definition agent_samples_key :: "string \<Rightarrow> string" where
  "agent_samples_key agent_name = ''agent:'' @ agent_name @ '':samples''"

definition replica_sample ::
  "val \<Rightarrow> val \<Rightarrow> val \<Rightarrow> val \<Rightarrow> val \<Rightarrow> val \<Rightarrow> val \<Rightarrow> val \<Rightarrow> val \<Rightarrow> val \<Rightarrow> val \<Rightarrow> val \<Rightarrow> dict" where
  "replica_sample agent_name queue_length requests_served full_failures requests_completed
     queue_time_ms_total execution_ms_total requests_per_minute failures_per_minute
     avg_queue_time_ms avg_execution_ms observed_at =
     [(''agent_name'', agent_name), (''queue_length'', queue_length),
      (''requests_served'', requests_served), (''full_failures'', full_failures),
      (''requests_completed'', requests_completed), (''queue_time_ms_total'', queue_time_ms_total),
      (''execution_ms_total'', execution_ms_total), (''requests_per_minute'', requests_per_minute),
      (''failures_per_minute'', failures_per_minute), (''avg_queue_time_ms'', avg_queue_time_ms),
      (''avg_execution_ms'', avg_execution_ms), (''observed_at'', observed_at)]"

definition agent_sample :: "val \<Rightarrow> val \<Rightarrow> val \<Rightarrow> val \<Rightarrow> val \<Rightarrow> val \<Rightarrow> val \<Rightarrow> val \<Rightarrow> val \<Rightarrow> dict" where
  "agent_sample replicas_running replicas_expected queue_length_total requests_per_minute_total
     requests_per_minute_per_replica failures_per_minute avg_queue_time_ms avg_execution_ms observed_at =
     [(''replicas_running'', replicas_running), (''replicas_expected'', replicas_expected),
      (''queue_length_total'', queue_length_total),
      (''requests_per_minute_total'', requests_per_minute_total),
      (''requests_per_minute_per_replica'', requests_per_minute_per_replica),
      (''failures_per_minute'', failures_per_minute), (''avg_queue_time_ms'', avg_queue_time_ms),
      (''avg_execution_ms'', avg_execution_ms), (''observed_at'', observed_at)]"

definition push_sample :: "string \<Rightarrow> dict \<Rightarrow> redis \<Rightarrow> redis" where
  "push_sample key sample r = rd_push_capped key (Doc (VDict sample)) WINDOW_LENGTH r"

definition parsed :: "rtext \<Rightarrow> exn + val" where
  "parsed raw = (case loads raw of None \<Rightarrow> Inl (ValueError ''not JSON'') | Some v \<Rightarrow> Inr v)"

definition read_samples :: "redis \<Rightarrow> string \<Rightarrow> int \<Rightarrow> exn + val list" where
  "read_samples r key count = res_all parsed (rd_lrange key 0 count r)"

definition latest :: "redis \<Rightarrow> string \<Rightarrow> exn + val" where
  "latest r key = res_bnd (read_samples r key 0) (\<lambda>samples.
     case samples of [] \<Rightarrow> Inr VNone | s # _ \<Rightarrow> Inr s)"

text \<open>\<open>s[field]\<close> and \<open>s.get(field, default)\<close> on a parsed document.\<close>

definition item :: "val \<Rightarrow> string \<Rightarrow> exn + val" where
  "item s k = (case s of VDict d \<Rightarrow> need d k | _ \<Rightarrow> Inl (TypeError ''not subscriptable by a name''))"

definition get_item :: "val \<Rightarrow> string \<Rightarrow> val \<Rightarrow> exn + val" where
  "get_item s k dflt = (case s of VDict d \<Rightarrow> Inr (dget_or d k dflt) | _ \<Rightarrow> Inl (AttributeError ''get''))"

text \<open>\<open>isinstance(v, (int, float))\<close>; a \<open>bool\<close> is an \<open>int\<close>.\<close>

definition average :: "val list \<Rightarrow> string \<Rightarrow> exn + val" where
  "average samples field =
     res_bnd (res_all (\<lambda>s. get_item s field VNone) samples) (\<lambda>vs.
       let values = filter (\<lambda>v. py_num v \<noteq> None) vs in
       if values = [] then Inr VNone
       else res_bnd (py_sum values) (\<lambda>total. py_div total (VInt (int (length values)))))"

definition per_minute :: "val \<Rightarrow> string \<Rightarrow> val \<Rightarrow> val \<Rightarrow> exn + val" where
  "per_minute previous field current observed_at =
     (if \<not> truthy previous then Inr (VFloat (Fin 0))
      else res_bnd (item previous ''observed_at'') (\<lambda>before.
        res_bnd (py_sub observed_at before) (\<lambda>elapsed.
        res_bnd (get_item previous field (VInt 0)) (\<lambda>counted.
        res_bnd (py_sub current counted) (\<lambda>grown.
        if num_le elapsed (VInt 0) \<or> num_less grown (VInt 0) then Inr (VFloat (Fin 0))
        else res_bnd (py_mul grown (VInt 60)) (\<lambda>m. py_div m elapsed))))))"

definition mean_since :: "val \<Rightarrow> dict \<Rightarrow> string \<Rightarrow> string \<Rightarrow> exn + val" where
  "mean_since previous counters total_field count_field =
     (if \<not> truthy previous then Inr VNone
      else res_bnd (need counters count_field) (\<lambda>count.
        res_bnd (get_item previous count_field (VInt 0)) (\<lambda>count0.
        res_bnd (py_sub count count0) (\<lambda>counted.
        res_bnd (need counters total_field) (\<lambda>total.
        res_bnd (get_item previous total_field (VInt 0)) (\<lambda>total0.
        res_bnd (py_sub total total0) (\<lambda>spent.
        if num_le counted (VInt 0) \<or> num_less spent (VInt 0) then Inr VNone
        else py_div spent counted)))))))"

section \<open>The policy\<close>

definition SCALING_KEY :: string where "SCALING_KEY = ''scaling:config''"

definition METRICS :: "string list" where
  "METRICS = [''queue_length_total'', ''requests_per_minute_per_replica'']"

text \<open>The policy as stored: \<open>VNone\<close> is Python's \<open>None\<close>.\<close>

definition read_policy :: "redis \<Rightarrow> val" where
  "read_policy r =
     (case (if opt_truthy (rd_get SCALING_KEY r) then loads (the (rd_get SCALING_KEY r)) else Some (VDict [])) of
        None \<Rightarrow> VNone
      | Some (VDict document) \<Rightarrow> dget document ''scaling''
      | Some document \<Rightarrow> document)"

definition is_int :: "val \<Rightarrow> bool" where
  "is_int v = (case v of VFloat f \<Rightarrow> is_whole f | VInt _ \<Rightarrow> True | _ \<Rightarrow> False)"

definition is_number :: "val \<Rightarrow> bool" where
  "is_number v = (case v of VFloat _ \<Rightarrow> True | VInt _ \<Rightarrow> True | _ \<Rightarrow> False)"

fun count_error :: "dict \<Rightarrow> string list \<Rightarrow> string option" where
  "count_error policy [] = None"
| "count_error policy (field # fs) = (let value = dget policy field in
     if \<not> is_int value \<or> num_less value (VInt 1) then Some (field @ '' must be an integer >= 1'')
     else count_error policy fs)"

fun amount_error :: "dict \<Rightarrow> string list \<Rightarrow> string option" where
  "amount_error policy [] = None"
| "amount_error policy (field # fs) = (let value = dget policy field in
     if \<not> is_number value \<or> \<not> num_le (VInt 0) value then Some (field @ '' must be a number >= 0'')
     else amount_error policy fs)"

definition policy_error :: "val \<Rightarrow> string option" where
  "policy_error p = (case p of
     VDict policy \<Rightarrow> (case count_error policy [''min_replicas'', ''max_replicas''] of
         Some e \<Rightarrow> Some e
       | None \<Rightarrow>
           if num_less (dget policy ''max_replicas'') (dget policy ''min_replicas'')
           then Some ''min_replicas must not exceed max_replicas''
           else if dget policy ''metric'' \<notin> VStr ` set METRICS
           then Some (''metric must be one of '' @ join '', '' METRICS)
           else (case amount_error policy [''scale_up_above'', ''scale_down_below''] of
               Some e \<Rightarrow> Some e
             | None \<Rightarrow>
                 if num_le (dget policy ''scale_up_above'') (dget policy ''scale_down_below'')
                 then Some ''scale_down_below must be less than scale_up_above''
                 else None))
   | _ \<Rightarrow> Some ''a policy must be a mapping'')"

section \<open>The decision\<close>

text \<open>The lowest and the highest of the values, as \<open>min\<close> and \<open>max\<close> find them.\<close>

fun lowest :: "val \<Rightarrow> val list \<Rightarrow> val" where
  "lowest m [] = m"
| "lowest m (v # vs) = lowest (if num_less v m then v else m) vs"

fun highest_value :: "val \<Rightarrow> val list \<Rightarrow> val" where
  "highest_value m [] = m"
| "highest_value m (v # vs) = highest_value (if num_less m v then v else m) vs"

definition steady :: "val \<Rightarrow> val \<Rightarrow> exn + bool" where
  "steady current s = res_bnd (item s ''replicas_expected'') (\<lambda>e.
     if \<not> py_eq e current then Inr False
     else res_bnd (item s ''replicas_running'') (\<lambda>running. Inr (py_eq running current)))"

fun all_steady :: "val \<Rightarrow> val list \<Rightarrow> exn + bool" where
  "all_steady current [] = Inr True"
| "all_steady current (s # ss) = res_bnd (steady current s) (\<lambda>ok.
     if ok then all_steady current ss else Inr False)"

text \<open>The step of a window that has settled: up when every sample is above, down when every one is
  below.\<close>

definition step_of :: "dict \<Rightarrow> val \<Rightarrow> val list \<Rightarrow> val" where
  "step_of policy current values =
     (if num_less (dget policy ''scale_up_above'') (lowest (hd values) (tl values)) \<and>
         num_less current (dget policy ''max_replicas'') then VInt 1
      else if num_less (highest_value (hd values) (tl values)) (dget policy ''scale_down_below'') \<and>
         num_less (dget policy ''min_replicas'') current then VInt (-1)
      else VInt 0)"

text \<open>Printing the two numbers with \<open>:.1f\<close> makes each a float.\<close>

definition printable :: "val list \<Rightarrow> exn + unit" where
  "printable values =
     res_bnd (as_float (lowest (hd values) (tl values))) (\<lambda>_.
     res_bnd (as_float (highest_value (hd values) (tl values))) (\<lambda>_. Inr ()))"

definition decide :: "dict \<Rightarrow> val list \<Rightarrow> exn + val" where
  "decide policy samples =
     res_bnd (item (hd samples) ''replicas_expected'') (\<lambda>current.
     res_bnd (py_less current (dget policy ''min_replicas'')) (\<lambda>below.
     if below then py_sub (dget policy ''min_replicas'') current
     else res_bnd (py_less (dget policy ''max_replicas'') current) (\<lambda>above.
     if above then py_sub (dget policy ''max_replicas'') current
     else if length samples < WINDOW_LENGTH then Inr (VInt 0)
     else res_bnd (all_steady current samples) (\<lambda>settled.
     if \<not> settled then Inr (VInt 0)
     else res_bnd (res_all (\<lambda>s. get_item s (case dget policy ''metric'' of VStr m \<Rightarrow> m | _ \<Rightarrow> []) VNone) samples) (\<lambda>values.
     if \<not> list_all is_number values then Inr (VInt 0)
     else res_bnd (printable values) (\<lambda>_. Inr (step_of policy current values)))))))"

definition whole_counts :: "dict \<Rightarrow> exn + dict" where
  "whole_counts policy =
     res_bnd (py_int_of (dget policy ''min_replicas'')) (\<lambda>lo.
     res_bnd (py_int_of (dget policy ''max_replicas'')) (\<lambda>hi.
     Inr (AList.update ''max_replicas'' (VInt hi) (AList.update ''min_replicas'' (VInt lo) policy))))"

text \<open>\<open>agent_spec.get("type", "agent") != "agent"\<close>.\<close>

definition is_agent :: "spec \<Rightarrow> bool" where
  "is_agent sp \<longleftrightarrow> py_eq (dget_or sp ''type'' (VStr ''agent'')) (VStr ''agent'')"

definition agent_decision :: "redis \<Rightarrow> dict \<Rightarrow> string \<times> spec \<Rightarrow> exn + (string \<times> val) list" where
  "agent_decision r policy a = (case a of (agent_name, agent_spec) \<Rightarrow>
     if \<not> is_agent agent_spec then Inr []
     else res_bnd (read_samples r (agent_samples_key agent_name) (-1)) (\<lambda>samples.
       if samples = [] then Inr []
       else res_bnd (decide policy samples) (\<lambda>delta.
         Inr (if truthy delta then [(agent_name, delta)] else []))))"

definition scale :: "redis \<Rightarrow> (string \<times> spec) list \<Rightarrow> exn + (string \<times> val) list" where
  "scale r specs = (case read_policy r of
       VNone \<Rightarrow> Inr []
     | p \<Rightarrow> (case policy_error p of
         Some error \<Rightarrow> Inr []
       | None \<Rightarrow> (case p of VDict d \<Rightarrow>
           res_bnd (whole_counts d) (\<lambda>policy.
           res_bnd (res_all (agent_decision r policy) specs) (\<lambda>ds. Inr (concat ds)))
         | _ \<Rightarrow> Inr [])))"

section \<open>Order of numbers\<close>

lemma fl_less_NaN [simp]: "\<not> fl_less a NaN" "\<not> fl_less NaN a"
  by (cases a; simp)+

lemma fl_min_least: "v \<in> insert m (set vs) \<Longrightarrow> \<not> fl_less v (fl_min m vs)"
proof (induction vs arbitrary: m v)
  case (Cons x vs)
  let ?m = "if fl_less x m then x else m"
  let ?res = "fl_min ?m vs"
  have ih: "\<And>v. v \<in> insert ?m (set vs) \<Longrightarrow> \<not> fl_less v ?res" by (rule Cons.IH)
  have "\<not> fl_less m ?res" using ih[of ?m] fl_less_trans[of x m ?res] by auto
  moreover have "\<not> fl_less x ?res"
  proof
    assume x: "fl_less x ?res"
    then have nx: "\<not> fl_less x m" "\<not> fl_less m ?res" "?res \<noteq> NaN" using ih[of ?m] by (auto split: if_splits)
    show False
    proof (cases "m = NaN")
      case True
      have "fl_min NaN ys = NaN" for ys by (induction ys) auto
      with True nx show False by simp
    next
      case False
      with nx have "fl_le ?res m" using fl_not_less_le[of m ?res] by simp
      with x nx show False using fl_less_le_trans by blast
    qed
  qed
  ultimately show ?case using Cons.prems ih by auto
qed simp

lemma fl_max_greatest: "v \<in> insert m (set vs) \<Longrightarrow> \<not> fl_less (fl_max m vs) v"
proof (induction vs arbitrary: m v)
  case (Cons x vs)
  let ?m = "if fl_less m x then x else m"
  let ?res = "fl_max ?m vs"
  have ih: "\<And>v. v \<in> insert ?m (set vs) \<Longrightarrow> \<not> fl_less ?res v" by (rule Cons.IH)
  have "\<not> fl_less ?res m" using ih[of ?m] fl_less_trans[of ?res m x] by auto
  moreover have "\<not> fl_less ?res x"
  proof
    assume x: "fl_less ?res x"
    then have nx: "\<not> fl_less m x" "\<not> fl_less ?res m" "?res \<noteq> NaN" using ih[of ?m] by (auto split: if_splits)
    show False
    proof (cases "m = NaN")
      case True
      have "fl_max NaN ys = NaN" for ys by (induction ys) auto
      with True nx show False by simp
    next
      case False
      with nx have "fl_le m ?res" using fl_not_less_le[of ?res m] by simp
      with x nx show False using fl_le_less_trans by blast
    qed
  qed
  ultimately show ?case using Cons.prems ih by auto
qed simp

text \<open>On numbers, \<open>lowest\<close> and \<open>highest_value\<close> are those of the floats they stand for.\<close>

lemma is_number_num: "is_number v \<Longrightarrow> \<exists>x. py_num v = Some x"
  by (cases v) (auto simp: is_number_def)

lemma is_int_num: "is_int v \<Longrightarrow> \<exists>x. py_num v = Some x"
  by (cases v) (auto simp: is_int_def)

lemma lowest_num:
  "py_num m = Some x \<Longrightarrow> list_all is_number vs \<Longrightarrow> py_num (lowest m vs) = Some (fl_min x (map (the \<circ> py_num) vs))"
  by (induction vs arbitrary: m x) (auto simp: num_less_def dest!: is_number_num)

lemma highest_num:
  "py_num m = Some x \<Longrightarrow> list_all is_number vs \<Longrightarrow> py_num (highest_value m vs) = Some (fl_max x (map (the \<circ> py_num) vs))"
  by (induction vs arbitrary: m x) (auto simp: num_less_def dest!: is_number_num)

lemma below_lowest:
  assumes "num_less t (lowest (hd vs) (tl vs))" "list_all is_number vs" "v \<in> set vs"
  shows "\<not> num_le v t"
proof
  assume le: "num_le v t"
  from assms(3) obtain u us where vs: "vs = u # us" by (cases vs) auto
  then obtain x where x: "py_num u = Some x" using assms(2) is_number_num by auto
  obtain y where y: "py_num v = Some y" using assms(2, 3) is_number_num by (auto simp: list_all_iff)
  have "y \<in> insert x (set (map (the \<circ> py_num) us))" using assms(3) vs x y by (auto simp: rev_image_eqI)
  then have "\<not> fl_less y (fl_min x (map (the \<circ> py_num) us))" by (rule fl_min_least)
  moreover have "py_num (lowest u us) = Some (fl_min x (map (the \<circ> py_num) us))"
    using x assms(2) vs by (auto intro: lowest_num)
  ultimately show False using assms(1) le vs y fl_le_less_trans
    by (fastforce simp: num_less_def num_le_def split: option.splits)
qed

lemma above_highest:
  assumes "num_less (highest_value (hd vs) (tl vs)) t" "list_all is_number vs" "v \<in> set vs"
  shows "\<not> num_le t v"
proof
  assume le: "num_le t v"
  from assms(3) obtain u us where vs: "vs = u # us" by (cases vs) auto
  then obtain x where x: "py_num u = Some x" using assms(2) is_number_num by auto
  obtain y where y: "py_num v = Some y" using assms(2, 3) is_number_num by (auto simp: list_all_iff)
  have "y \<in> insert x (set (map (the \<circ> py_num) us))" using assms(3) vs x y by (auto simp: rev_image_eqI)
  then have "\<not> fl_less (fl_max x (map (the \<circ> py_num) us)) y" by (rule fl_max_greatest)
  moreover have "py_num (highest_value u us) = Some (fl_max x (map (the \<circ> py_num) us))"
    using x assms(2) vs by (auto intro: highest_num)
  ultimately show False using assms(1) le vs y fl_less_le_trans
    by (fastforce simp: num_less_def num_le_def split: option.splits)
qed

section \<open>A valid policy\<close>

text \<open>What \<open>policy_error\<close> leaves: whole bounds from 1 on in order, a known metric and thresholds
  that leave a band between them.\<close>

definition whole_count :: "val \<Rightarrow> int \<Rightarrow> bool" where
  "whole_count v i \<longleftrightarrow> v = VInt i \<or> v = VFloat (Fin (of_int i))"

definition valid_policy :: "dict \<Rightarrow> int \<Rightarrow> int \<Rightarrow> string \<Rightarrow> bool" where
  "valid_policy d lo hi metric \<longleftrightarrow>
     whole_count (dget d ''min_replicas'') lo \<and> whole_count (dget d ''max_replicas'') hi \<and> 1 \<le> lo \<and> lo \<le> hi \<and>
     dget d ''metric'' = VStr metric \<and> metric \<in> set METRICS \<and>
     is_number (dget d ''scale_up_above'') \<and> is_number (dget d ''scale_down_below'') \<and>
     num_le (VInt 0) (dget d ''scale_down_below'') \<and>
     num_less (dget d ''scale_down_below'') (dget d ''scale_up_above'')"

lemma is_int_whole: "is_int v \<longleftrightarrow> (\<exists>i. whole_count v i)"
proof (cases v)
  case (VFloat f)
  then show ?thesis by (cases f) (auto simp: is_int_def whole_count_def is_whole_def intro: sym)
qed (auto simp: is_int_def whole_count_def)

lemma whole_num: "whole_count v i \<Longrightarrow> py_num v = Some (Fin (of_int i))"
  by (auto simp: whole_count_def)

lemma whole_py_int: "whole_count v i \<Longrightarrow> py_int_of v = Inr i"
  by (auto simp: whole_count_def py_int_of_def)

lemma num_leE: "num_le a b \<Longrightarrow> (\<And>x y. py_num a = Some x \<Longrightarrow> py_num b = Some y \<Longrightarrow> fl_le x y \<Longrightarrow> P) \<Longrightarrow> P"
  by (auto simp: num_le_def split: option.splits)

lemma num_less_not_le: "num_less a b \<Longrightarrow> \<not> num_le b a"
  by (auto simp: num_less_def split: option.splits elim!: num_leE dest: fl_less_le_trans)

lemma num_pos: "num_le (VInt 0) a \<Longrightarrow> \<exists>x. py_num a = Some x \<and> x \<noteq> NaN"
  by (cases "py_num a") (auto simp: num_le_def)

lemma num_le_not_less:
  assumes "num_le (VInt 0) a" "num_le (VInt 0) b"
  shows "\<not> num_le b a \<longleftrightarrow> num_less a b"
proof -
  obtain x y where "py_num a = Some x" "py_num b = Some y" "x \<noteq> NaN" "y \<noteq> NaN"
    using num_pos[OF assms(1)] num_pos[OF assms(2)] by blast
  then show ?thesis using fl_not_less_le[of x y] by (auto simp: num_less_def num_le_def)
qed

lemma is_count: "is_int v \<and> \<not> num_less v (VInt 1) \<longleftrightarrow> (\<exists>i. whole_count v i \<and> 1 \<le> i)"
proof -
  have "num_less v (VInt 1) \<longleftrightarrow> i < 1" if "whole_count v i" for i
    using whole_num[OF that] by (simp add: num_less_def)
  then show ?thesis by (metis is_int_whole linorder_not_le)
qed

lemma policy_error_None: "policy_error p = None \<longleftrightarrow> (\<exists>d lo hi metric. p = VDict d \<and> valid_policy d lo hi metric)"
proof (cases p)
  case (VDict d)
  let ?lo = "dget d ''min_replicas''" and ?hi = "dget d ''max_replicas''"
  let ?up = "dget d ''scale_up_above''" and ?down = "dget d ''scale_down_below''"
  have counts: "count_error d [''min_replicas'', ''max_replicas''] = None \<longleftrightarrow>
      (\<exists>lo hi. whole_count ?lo lo \<and> whole_count ?hi hi \<and> 1 \<le> lo \<and> 1 \<le> hi)"
    using is_count[of ?lo] is_count[of ?hi] by (auto simp: Let_def)
  have amounts: "amount_error d [''scale_up_above'', ''scale_down_below''] = None \<longleftrightarrow>
      is_number ?up \<and> is_number ?down \<and> num_le (VInt 0) ?up \<and> num_le (VInt 0) ?down"
    by (auto simp: Let_def)
  have uniq: "whole_count v i \<Longrightarrow> whole_count v j \<Longrightarrow> i = j" for v i j by (auto simp: whole_count_def)
  have order: "whole_count ?lo lo \<Longrightarrow> whole_count ?hi hi \<Longrightarrow> num_less ?hi ?lo \<longleftrightarrow> hi < lo" for lo hi
    by (simp add: num_less_def whole_num)
  have band: "num_le (VInt 0) ?down \<Longrightarrow> num_less ?down ?up \<Longrightarrow> num_le (VInt 0) ?up"
    by (auto simp: num_less_def num_le_def fl_le_def split: option.splits dest: fl_less_trans)
  have "policy_error p = None \<longleftrightarrow>
      (\<exists>lo hi. whole_count ?lo lo \<and> whole_count ?hi hi \<and> 1 \<le> lo \<and> 1 \<le> hi) \<and> \<not> num_less ?hi ?lo \<and>
      dget d ''metric'' \<in> VStr ` set METRICS \<and>
      (is_number ?up \<and> is_number ?down \<and> num_le (VInt 0) ?up \<and> num_le (VInt 0) ?down) \<and> \<not> num_le ?up ?down"
    unfolding counts[symmetric] amounts[symmetric]
    by (simp add: policy_error_def VDict split: option.split del: count_error.simps amount_error.simps)
  also have "\<dots> \<longleftrightarrow> (\<exists>lo hi metric. valid_policy d lo hi metric)"
  proof
    assume l: "(\<exists>lo hi. whole_count ?lo lo \<and> whole_count ?hi hi \<and> 1 \<le> lo \<and> 1 \<le> hi) \<and> \<not> num_less ?hi ?lo \<and>
      dget d ''metric'' \<in> VStr ` set METRICS \<and>
      (is_number ?up \<and> is_number ?down \<and> num_le (VInt 0) ?up \<and> num_le (VInt 0) ?down) \<and> \<not> num_le ?up ?down"
    then obtain lo hi metric where "whole_count ?lo lo" "whole_count ?hi hi" "1 \<le> lo" "dget d ''metric'' = VStr metric"
      "metric \<in> set METRICS" by blast
    with l order num_le_not_less[of ?down ?up] have "valid_policy d lo hi metric" by (simp add: valid_policy_def)
    then show "\<exists>lo hi metric. valid_policy d lo hi metric" by blast
  next
    assume "\<exists>lo hi metric. valid_policy d lo hi metric"
    then obtain lo hi metric where v: "valid_policy d lo hi metric" by blast
    then have "num_le (VInt 0) ?up" "\<not> num_le ?up ?down" using band num_less_not_le by (auto simp: valid_policy_def)
    moreover have "\<not> num_less ?hi ?lo" using v order[of lo hi] by (simp add: valid_policy_def)
    moreover have "1 \<le> hi" using v by (auto simp: valid_policy_def)
    ultimately show "(\<exists>lo hi. whole_count ?lo lo \<and> whole_count ?hi hi \<and> 1 \<le> lo \<and> 1 \<le> hi) \<and> \<not> num_less ?hi ?lo \<and>
      dget d ''metric'' \<in> VStr ` set METRICS \<and>
      (is_number ?up \<and> is_number ?down \<and> num_le (VInt 0) ?up \<and> num_le (VInt 0) ?down) \<and> \<not> num_le ?up ?down"
      using v unfolding valid_policy_def by blast
  qed
  finally show ?thesis by (simp add: VDict)
qed (auto simp: policy_error_def)

section \<open>What a decision rests on\<close>

definition load_of :: "string \<Rightarrow> val \<Rightarrow> val" where
  "load_of metric s = (case get_item s metric VNone of Inr v \<Rightarrow> v | Inl _ \<Rightarrow> VNone)"

text \<open>A full window at the current count, on the same side of the threshold throughout.\<close>

definition breach :: "dict \<Rightarrow> string \<Rightarrow> int \<Rightarrow> int \<Rightarrow> val list \<Rightarrow> bool" where
  "breach policy metric current d samples \<longleftrightarrow>
     WINDOW_LENGTH \<le> length samples \<and>
     (\<forall>s\<in>set samples. (\<exists>e. item s ''replicas_expected'' = Inr e \<and> py_eq e (VInt current)) \<and>
        (\<exists>n. item s ''replicas_running'' = Inr n \<and> py_eq n (VInt current)) \<and> is_number (load_of metric s)) \<and>
     (d = 1 \<and> (\<forall>s\<in>set samples. \<not> num_le (load_of metric s) (dget policy ''scale_up_above'')) \<or>
      d = -1 \<and> (\<forall>s\<in>set samples. \<not> num_le (dget policy ''scale_down_below'') (load_of metric s)))"

lemma steady_True:
  "steady c s = Inr True \<longleftrightarrow> (\<exists>e. item s ''replicas_expected'' = Inr e \<and> py_eq e c) \<and>
     (\<exists>n. item s ''replicas_running'' = Inr n \<and> py_eq n c)"
  by (auto simp: steady_def res_bnd_def split: sum.splits)

lemma all_steady_True: "all_steady c ss = Inr True \<longleftrightarrow> (\<forall>s\<in>set ss. steady c s = Inr True)"
  by (induction ss) (auto simp: res_bnd_def split: sum.splits if_splits)

lemma loads_of: "res_all (\<lambda>s. get_item s metric VNone) samples = Inr vs \<Longrightarrow> vs = map (load_of metric) samples"
  by (induction samples arbitrary: vs) (auto simp: load_of_def elim!: res_bnd_InrE)

lemma decide_spec:
  assumes bounds: "dget p ''min_replicas'' = VInt lo" "dget p ''max_replicas'' = VInt hi" "lo \<le> hi"
    and metric: "dget p ''metric'' = VStr metric"
    and current: "item (hd samples) ''replicas_expected'' = Inr (VInt current)"
    and decided: "decide p samples = Inr delta" "truthy delta"
  shows "\<exists>d. delta = VInt d \<and> d \<noteq> 0 \<and> lo \<le> current + d \<and> current + d \<le> hi \<and>
    (current < lo \<longrightarrow> current + d = lo) \<and> (hi < current \<longrightarrow> current + d = hi) \<and>
    (lo \<le> current \<and> current \<le> hi \<longrightarrow> breach p metric current d samples)"
proof -
  consider "current < lo" | "hi < current" | "lo \<le> current" "current \<le> hi" by linarith
  then show ?thesis
  proof cases
    case 3
    then have w: "WINDOW_LENGTH \<le> length samples"
      using decided by (auto simp: decide_def current bounds split: if_splits)
    obtain settled where "all_steady (VInt current) samples = Inr settled"
      using 3 decided w by (auto simp: decide_def current bounds elim!: res_bnd_InrE)
    then have st: "all_steady (VInt current) samples = Inr True"
      using 3 decided w by (cases settled) (auto simp: decide_def current bounds)
    then obtain vs where vs: "res_all (\<lambda>s. get_item s metric VNone) samples = Inr vs"
      "list_all is_number vs" "delta = step_of p (VInt current) vs"
      using 3 decided w by (auto simp: decide_def current bounds metric elim!: res_bnd_InrE split: if_splits)
    have load: "vs = map (load_of metric) samples" by (rule loads_of[OF vs(1)])
    have num: "num_less (VInt i) (VInt j) \<longleftrightarrow> i < j" for i j by (simp add: num_less_def)
    have "delta = VInt 1 \<and> current < hi \<and> num_less (dget p ''scale_up_above'') (lowest (hd vs) (tl vs)) \<or>
      delta = VInt (-1) \<and> lo < current \<and> num_less (highest_value (hd vs) (tl vs)) (dget p ''scale_down_below'')"
      using vs(3) decided(2) by (auto simp: step_of_def bounds num split: if_splits)
    then show ?thesis
    proof
      assume "delta = VInt 1 \<and> current < hi \<and> num_less (dget p ''scale_up_above'') (lowest (hd vs) (tl vs))"
      with 3 w st vs(2) below_lowest[of "dget p ''scale_up_above''" vs] show ?thesis
        by (auto simp: breach_def all_steady_True steady_True load list_all_iff)
    next
      assume "delta = VInt (-1) \<and> lo < current \<and> num_less (highest_value (hd vs) (tl vs)) (dget p ''scale_down_below'')"
      with 3 w st vs(2) above_highest[of vs "dget p ''scale_down_below''"] show ?thesis
        by (auto simp: breach_def all_steady_True steady_True load list_all_iff)
    qed
  next
    case 1
    with bounds(3) decided(1) have "delta = VInt (lo - current)" by (simp add: decide_def current bounds)
    with 1 bounds(3) show ?thesis by (intro exI[of _ "lo - current"]) auto
  next
    case 2
    with bounds(3) have "\<not> current < lo" by simp
    with 2 bounds(3) decided(1) have "delta = VInt (hi - current)" by (simp add: decide_def current bounds)
    with 2 bounds(3) show ?thesis by (intro exI[of _ "hi - current"]) auto
  qed
qed

lemma whole_counts_valid:
  assumes "valid_policy d lo hi metric"
  shows "\<exists>p. whole_counts d = Inr p \<and> dget p ''min_replicas'' = VInt lo \<and> dget p ''max_replicas'' = VInt hi \<and>
     (\<forall>k. k \<noteq> ''min_replicas'' \<and> k \<noteq> ''max_replicas'' \<longrightarrow> dget p k = dget d k)"
  using assms by (auto simp: whole_counts_def valid_policy_def whole_py_int)

lemma res_all_mem: "res_all f xs = Inr ys \<Longrightarrow> y \<in> set ys \<Longrightarrow> \<exists>x\<in>set xs. f x = Inr y"
  by (induction xs arbitrary: ys) (auto elim!: res_bnd_InrE)

lemma scale_decision:
  assumes "scale r specs = Inr ds" "(agent, delta) \<in> set ds"
  shows "\<exists>policy lo hi metric p samples. read_policy r = VDict policy \<and> valid_policy policy lo hi metric \<and>
    whole_counts policy = Inr p \<and> read_samples r (agent_samples_key agent) (-1) = Inr samples \<and> samples \<noteq> [] \<and>
    decide p samples = Inr delta \<and> truthy delta"
proof -
  have "policy_error (read_policy r) = None" "read_policy r \<noteq> VNone"
    using assms by (auto simp: scale_def split: val.splits option.splits)
  then obtain policy lo hi metric where v: "read_policy r = VDict policy" "valid_policy policy lo hi metric"
    using policy_error_None by blast
  from whole_counts_valid[OF v(2)] obtain p where p: "whole_counts policy = Inr p" by blast
  obtain dss where dss: "res_all (agent_decision r p) specs = Inr dss" "ds = concat dss"
    using assms(1) v p policy_error_None[of "VDict policy"]
    by (auto simp: scale_def elim!: res_bnd_InrE split: option.splits)
  then obtain a one where one: "agent_decision r p a = Inr one" "(agent, delta) \<in> set one"
    using assms(2) res_all_mem by (metis UN_E set_concat)
  obtain samples where "read_samples r (agent_samples_key agent) (-1) = Inr samples" "samples \<noteq> []"
    "decide p samples = Inr delta" "truthy delta"
    using one by (cases a) (auto simp: agent_decision_def elim!: res_bnd_InrE split: if_splits)
  with v p show ?thesis by blast
qed

lemma scaling_decides:
  assumes "scale r specs = Inr ds" "(agent, delta) \<in> set ds"
    and "read_samples r (agent_samples_key agent) (-1) = Inr samples"
    and "item (hd samples) ''replicas_expected'' = Inr (VInt current)"
  shows "\<exists>policy lo hi metric d. read_policy r = VDict policy \<and> valid_policy policy lo hi metric \<and>
    delta = VInt d \<and> d \<noteq> 0 \<and> lo \<le> current + d \<and> current + d \<le> hi \<and>
    (current < lo \<longrightarrow> current + d = lo) \<and> (hi < current \<longrightarrow> current + d = hi) \<and>
    (lo \<le> current \<and> current \<le> hi \<longrightarrow> breach policy metric current d samples)"
proof -
  obtain policy lo hi metric p where s: "read_policy r = VDict policy" "valid_policy policy lo hi metric"
    "whole_counts policy = Inr p" "decide p samples = Inr delta" "truthy delta"
    using scale_decision[OF assms(1, 2)] assms(3) by auto
  obtain p' where "p' = p" and p: "dget p ''min_replicas'' = VInt lo" "dget p ''max_replicas'' = VInt hi"
    "\<forall>k. k \<noteq> ''min_replicas'' \<and> k \<noteq> ''max_replicas'' \<longrightarrow> dget p k = dget policy k"
    using whole_counts_valid[OF s(2)] s(3) by auto
  then have m: "dget p ''metric'' = VStr metric" "lo \<le> hi" using s(2) by (auto simp: valid_policy_def)
  have b: "breach p metric current d samples = breach policy metric current d samples" for d
    using p(3) by (simp add: breach_def)
  from decide_spec[OF p(1, 2) m(2) m(1) assms(4) s(4, 5)] s(1, 2) show ?thesis
    unfolding b by blast
qed

section \<open>The window\<close>

lemma push_sample_lists [simp]:
  "rd_lists (push_sample key s r) k =
     (if k = key then take WINDOW_LENGTH (Doc (VDict s) # rd_lists r key) else rd_lists r k)"
  by (simp add: push_sample_def rd_push_capped_def Let_def)

lemma push_sample_get [simp]: "rd_get k (push_sample key s r) = rd_get k r"
  by (simp add: push_sample_def rd_push_capped_def rd_get_def Let_def)

lemma lrange_all: "rd_lrange k 0 (-1) r = rd_lists r k"
  by (simp add: rd_lrange_def Let_def)

lemma pushes_lists:
  "ss \<noteq> [] \<Longrightarrow> rd_lists (fold (push_sample key) ss r) key =
     take WINDOW_LENGTH (map (\<lambda>s. Doc (VDict s)) (rev ss) @ rd_lists r key)"
proof (induction ss arbitrary: r)
  case (Cons s ss)
  show ?case
  proof (cases "ss = []")
    case False
    have "take k (x # take 3 ys) = take k (x # ys)" if "k \<le> 4" for k x and ys :: "rtext list"
      using that by (cases k) (auto simp: min_def)
    with Cons.IH[OF False, of "push_sample key s r"] show ?thesis
      by (simp add: WINDOW_LENGTH_def)
  qed simp
qed simp

lemma pushes_get [simp]: "rd_get k (fold (push_sample key) ss r) = rd_get k r"
  by (induction ss arbitrary: r) simp_all

lemma pushes_other [simp]: "k \<noteq> key \<Longrightarrow> rd_lists (fold (push_sample key) ss r) k = rd_lists r k"
  by (induction ss arbitrary: r) simp_all

lemma parsed_docs: "res_all parsed ts = Inr vs \<Longrightarrow> ts = map Doc vs"
proof (induction ts arbitrary: vs)
  case (Cons t ts)
  then show ?case by (cases t) (auto simp: parsed_def elim!: res_bnd_InrE)
qed simp

lemma docs_parsed: "res_all parsed (map Doc vs) = Inr vs"
  by (induction vs) (auto simp: parsed_def)

text \<open>C16: whatever the stored policy and samples, every change of replicas the policy decides takes the
  agent's expected count into the policy's bounds: straight back to the nearest bound from outside,
  and inside by one step, only on a full window of samples that all ran at that count and none of
  which is at or within the threshold.\<close>

theorem scaling_stays_in_bounds:
  assumes "scale r specs = Inr ds" "(agent, delta) \<in> set ds"
    and "read_samples r (agent_samples_key agent) (-1) = Inr samples"
    and "item (hd samples) ''replicas_expected'' = Inr (VInt current)"
  shows "\<exists>policy lo hi metric d. read_policy r = VDict policy \<and> valid_policy policy lo hi metric \<and>
    delta = VInt d \<and> d \<noteq> 0 \<and> lo \<le> current + d \<and> current + d \<le> hi \<and>
    (current < lo \<longrightarrow> current + d = lo) \<and> (hi < current \<longrightarrow> current + d = hi) \<and>
    (lo \<le> current \<and> current \<le> hi \<longrightarrow> breach policy metric current d samples)"
  using assms by (rule scaling_decides)

text \<open>The window is the cooldown: after the count last changed, no step in either direction is decided
  before a full window of samples was pushed; until then only a count outside the bounds moves.\<close>

theorem scaling_waits_after_a_change:
  assumes "rd_lists r (agent_samples_key agent) = Doc (VDict old) # rest"
    and "map_of old ''replicas_expected'' = Some (VInt before)" "before \<noteq> current"
    and "ss \<noteq> []" "length ss < WINDOW_LENGTH" "map_of (last ss) ''replicas_expected'' = Some (VInt current)"
    and "scale (fold (push_sample (agent_samples_key agent)) ss r) specs = Inr ds" "(agent, delta) \<in> set ds"
  shows "\<exists>policy lo hi metric. read_policy r = VDict policy \<and> valid_policy policy lo hi metric \<and>
    (current < lo \<and> delta = VInt (lo - current) \<or> hi < current \<and> delta = VInt (hi - current))"
proof -
  let ?r = "fold (push_sample (agent_samples_key agent)) ss r"
  have l: "rd_lists ?r (agent_samples_key agent) =
      take WINDOW_LENGTH (map (\<lambda>s. Doc (VDict s)) (rev ss) @ Doc (VDict old) # rest)"
    using assms(1, 4) by (simp add: pushes_lists)
  obtain samples where r: "read_samples ?r (agent_samples_key agent) (-1) = Inr samples"
    using scale_decision[OF assms(7, 8)] by blast
  then have docs: "take WINDOW_LENGTH (map (\<lambda>s. Doc (VDict s)) (rev ss) @ Doc (VDict old) # rest) = map Doc samples"
    using parsed_docs l by (simp add: read_samples_def lrange_all)
  have "Doc (VDict old) \<in> set (map Doc samples)"
    unfolding docs[symmetric] using assms(5) by (simp add: take_append take_Cons' )
  then have old: "VDict old \<in> set samples" by auto
  have "hd (map Doc samples) = Doc (VDict (last ss))"
    unfolding docs[symmetric] using assms(4) by (cases ss rule: rev_cases) (auto simp: WINDOW_LENGTH_def)
  moreover have "samples \<noteq> []" using old by auto
  ultimately have "hd samples = VDict (last ss)" by (simp add: hd_map)
  then have cur: "item (hd samples) ''replicas_expected'' = Inr (VInt current)"
    using assms(6) by (simp add: item_def need_def)
  from scaling_decides[OF assms(7, 8) r cur] obtain policy lo hi metric d where d:
    "read_policy ?r = VDict policy" "valid_policy policy lo hi metric" "delta = VInt d"
    "current < lo \<longrightarrow> current + d = lo" "hi < current \<longrightarrow> current + d = hi"
    "lo \<le> current \<and> current \<le> hi \<longrightarrow> breach policy metric current d samples" by blast
  have "\<not> breach policy metric current d samples"
    using old assms(2, 3) by (auto simp: breach_def item_def need_def dest!: bspec[OF _ old])
  moreover have "read_policy ?r = read_policy r" by (simp add: read_policy_def)
  ultimately show ?thesis using d
    by (metis add_diff_cancel_left' linorder_not_le)
qed

section \<open>A loaded agent\<close>

definition busy :: "int \<Rightarrow> dict" where
  "busy n = agent_sample (VInt n) (VInt n) (VInt 9) (VInt 0) (VInt 0) (VInt 0) VNone VNone (VInt 1)"

definition demo_policy :: dict where
  "demo_policy = [(''min_replicas'', VInt 1), (''max_replicas'', VFloat (Fin 3)), (''metric'', VStr ''queue_length_total''),
     (''scale_up_above'', VInt 5), (''scale_down_below'', VInt 1)]"

definition scaled :: redis where
  "scaled = rd_set SCALING_KEY (Doc (VDict [(''scaling'', VDict demo_policy)])) empty_redis"

definition loaded :: redis where
  "loaded = fold (push_sample (agent_samples_key ''writer'')) (replicate 4 (busy 2)) scaled"

lemma loaded_scales: "scale loaded [(''writer'', [])] = Inr [(''writer'', VInt 1)]"
  by code_simp

lemma loaded_samples: "read_samples loaded (agent_samples_key ''writer'') (-1) = Inr (replicate 4 (VDict (busy 2)))"
  by code_simp

theorem scaling_stays_in_bounds_witness:
  "\<exists>lo hi metric. valid_policy demo_policy lo hi metric \<and> lo \<le> 3 \<and> 3 \<le> hi"
proof -
  have "item (hd (replicate 4 (VDict (busy 2)))) ''replicas_expected'' = Inr (VInt 2)" by code_simp
  from scaling_stays_in_bounds[OF loaded_scales _ loaded_samples this, of "VInt 1"]
  obtain policy lo hi metric where "read_policy loaded = VDict policy" "valid_policy policy lo hi metric"
    "lo \<le> 3" "3 \<le> hi" by auto
  moreover have "read_policy loaded = VDict demo_policy" by code_simp
  ultimately show ?thesis by auto
qed

theorem scaling_waits_after_a_change_witness:
  "scale (fold (push_sample (agent_samples_key ''writer'')) [busy 5] loaded) [(''writer'', [])] = Inr [(''writer'', VInt (-2))] \<and>
   (\<exists>lo hi metric. valid_policy demo_policy lo hi metric \<and> hi = 3)"
proof -
  have s: "scale (fold (push_sample (agent_samples_key ''writer'')) [busy 5] loaded) [(''writer'', [])] = Inr [(''writer'', VInt (-2))]"
    by code_simp
  have l: "rd_lists loaded (agent_samples_key ''writer'') = Doc (VDict (busy 2)) # replicate 3 (Doc (VDict (busy 2)))"
    by code_simp
  have e: "map_of (busy n) ''replicas_expected'' = Some (VInt n)" for n by (simp add: busy_def agent_sample_def)
  have "read_policy loaded = VDict demo_policy" by code_simp
  then show ?thesis
    using scaling_waits_after_a_change[OF l e _ _ _ _ s, of 5 "VInt (-2)"] s e by (auto simp: WINDOW_LENGTH_def)
qed

end
