(* ===== verification/Pricing.thy ===== *)
theory Pricing
  imports Redis_Client Py_Arith
begin

text \<open>
  The prices of LLM calls and machines (\<open>llm_gateway/pricing.py\<close>) and the fetch of current
  prices (\<open>controller/utils/pricing_refresh.py\<close>). The parsed \<open>llm_prices.json\<close> and the answer of
  the catalog are arguments; the tables the module keeps in globals are a record passed along.
\<close>

section \<open>Hosts\<close>

definition LLM_PRICES_KEY :: string where "LLM_PRICES_KEY = ''llm_prices:models''"
definition AZURE_OPENAI_HOSTS :: string where "AZURE_OPENAI_HOSTS = ''.openai.azure.com''"

definition LLM_HOSTS :: "(string \<times> string option) list" where
  "LLM_HOSTS = [(''api.openai.com'', None), (''api.anthropic.com'', None), (''openrouter.ai'', None),
     (AZURE_OPENAI_HOSTS, Some ''azure''), (''api.together.xyz'', Some ''together_ai''),
     (''api.together.ai'', Some ''together_ai''), (''api.fireworks.ai'', Some ''fireworks_ai''),
     (''inference.baseten.co'', Some ''baseten''), (''api.x.ai'', Some ''xai''),
     (''api.moonshot.ai'', Some ''moonshot''), (''api.deepinfra.com'', Some ''deepinfra''),
     (''api.groq.com'', Some ''groq''), (''api.mistral.ai'', Some ''mistral''),
     (''api.cerebras.ai'', Some ''cerebras''), (''api.deepseek.com'', Some ''deepseek''),
     (''generativelanguage.googleapis.com'', Some ''gemini''),
     (''ai-gateway.vercel.sh'', Some ''vercel_ai_gateway''), (''api.perplexity.ai'', Some ''perplexity''),
     (''api.sambanova.ai'', Some ''sambanova''), (''api.hyperbolic.xyz'', Some ''hyperbolic''),
     (''api.z.ai'', Some ''zai''), (''api.lambda.ai'', Some ''lambda_ai'')]"

definition llm_host :: "string option \<Rightarrow> string option" where
  "llm_host host = (case host of
       None \<Rightarrow> None
     | Some h \<Rightarrow> if suffix AZURE_OPENAI_HOSTS h then Some AZURE_OPENAI_HOSTS
         else if h \<in> fst ` set LLM_HOSTS then Some h else None)"

text \<open>\<open>LLM_HOSTS.get(llm_host(host))\<close>.\<close>

definition prefix_at_host :: "string option \<Rightarrow> string option" where
  "prefix_at_host host = (case llm_host host of
       None \<Rightarrow> None | Some h \<Rightarrow> (case map_of LLM_HOSTS h of None \<Rightarrow> None | Some p \<Rightarrow> p))"

section \<open>The tables\<close>

text \<open>Input, output, cache-read and cache-write USD per million tokens.\<close>

type_synonym token_price = "val \<times> val \<times> val \<times> val"

record price_tables =
  token_cost_by_model_id :: "(string \<times> token_price) list"
  hourly_cost_by_machine_type :: dict

definition price_of :: "val \<Rightarrow> exn + token_price" where
  "price_of costs = (case costs of
     VDict d \<Rightarrow>
       res_bnd (need d ''input_cost_per_million_tokens'') (\<lambda>i.
       res_bnd (need d ''output_cost_per_million_tokens'') (\<lambda>out.
       Inr (i, out, dget_or d ''cache_read_cost_per_million_tokens'' i,
         dget_or d ''cache_write_cost_per_million_tokens'' i)))
   | _ \<Rightarrow> Inl (TypeError ''costs''))"

definition token_costs :: "val \<Rightarrow> exn + (string \<times> token_price) list" where
  "token_costs models = (case models of
     VDict d \<Rightarrow> res_all (\<lambda>(model_id, costs). res_bnd (price_of costs) (\<lambda>p. Inr (model_id, p))) d
   | _ \<Rightarrow> Inl (AttributeError ''items''))"

definition load_pricing_data :: "val \<Rightarrow> exn + price_tables" where
  "load_pricing_data prices = (case prices of
     VDict d \<Rightarrow> (case val_or (dget d ''machines'') (VDict []) of
       VDict machines \<Rightarrow>
         res_bnd (token_costs (val_or (dget d ''models'') (VDict []))) (\<lambda>costs.
         Inr \<lparr>token_cost_by_model_id = costs, hourly_cost_by_machine_type = machines\<rparr>)
     | _ \<Rightarrow> Inl (AttributeError ''items''))
   | _ \<Rightarrow> Inl (AttributeError ''get''))"

text \<open>\<open>dict.update\<close>.\<close>

definition dict_update :: "(string \<times> 'v) list \<Rightarrow> (string \<times> 'v) list \<Rightarrow> (string \<times> 'v) list" where
  "dict_update new d = fold (\<lambda>(k, v). AList.update k v) new d"

definition add_prices :: "val \<Rightarrow> price_tables \<Rightarrow> exn + price_tables" where
  "add_prices models t = res_bnd (token_costs models) (\<lambda>costs.
     Inr (t\<lparr>token_cost_by_model_id := dict_update costs (token_cost_by_model_id t)\<rparr>))"

text \<open>\<open>load_published_prices\<close>: \<open>None\<close> is a Redis that does not answer.\<close>

definition load_published_prices :: "redis option \<Rightarrow> price_tables \<Rightarrow> price_tables" where
  "load_published_prices redis t = (case redis of
       None \<Rightarrow> t
     | Some r \<Rightarrow>
         if \<not> opt_truthy (rd_get LLM_PRICES_KEY r) then t
         else (case loads (the (rd_get LLM_PRICES_KEY r)) of
             None \<Rightarrow> t
           | Some models \<Rightarrow> (case add_prices models t of Inl _ \<Rightarrow> t | Inr t' \<Rightarrow> t')))"

section \<open>The price of a model\<close>

text \<open>Whether a text is a date \<open>-\d{4}-?\d{2}-?\d{2}\<close>, and the date cut off the end, before a last
  line end if there is one.\<close>

definition is_date :: "string \<Rightarrow> bool" where
  "is_date s \<longleftrightarrow> (case s of
     d # a # b # c # e # rest \<Rightarrow> d = CHR ''-'' \<and> list_all is_digit [a, b, c, e] \<and>
       (let rest = (case rest of x # xs \<Rightarrow> if x = CHR ''-'' then xs else rest | [] \<Rightarrow> rest) in
        case rest of f # g # rest' \<Rightarrow> is_digit f \<and> is_digit g \<and>
            (let rest' = (case rest' of x # xs \<Rightarrow> if x = CHR ''-'' then xs else rest' | [] \<Rightarrow> rest') in
             case rest' of [h, i] \<Rightarrow> is_digit h \<and> is_digit i | _ \<Rightarrow> False)
        | _ \<Rightarrow> False)
   | _ \<Rightarrow> False)"

fun cut_date :: "string \<Rightarrow> string" where
  "cut_date [] = []"
| "cut_date (c # cs) = (if is_date (c # cs) then []
     else if cs \<noteq> [] \<and> last cs = CHR 0x0A \<and> is_date (c # butlast cs) then [CHR 0x0A]
     else c # cut_date cs)"

definition candidate_model_ids :: "string \<Rightarrow> string option \<Rightarrow> string list" where
  "candidate_model_ids model_id price_prefix =
     (let undated = cut_date model_id; dated = (undated \<noteq> model_id) in
      (case price_prefix of None \<Rightarrow> [] | Some p \<Rightarrow> if p = [] then [] else [p @ ''/'' @ model_id]) @
      [model_id] @ (if dated then [undated] else []) @
      (if prefix ''gpt-'' model_id
       then concat (map (\<lambda>v. (v @ model_id) # (if dated then [v @ undated] else [])) [''openai.'', ''global.openai.''])
       else []) @
      (if prefix ''claude-'' model_id
       then (''anthropic.'' @ model_id @ ''-v1:0'') # (if dated then [''anthropic.'' @ undated @ ''-v1:0''] else [])
       else []))"

definition token_prices :: "price_tables \<Rightarrow> string \<Rightarrow> string option \<Rightarrow> token_price option" where
  "token_prices t model_id price_prefix =
     (if model_id = [] then None
      else case filter (\<lambda>c. map_of (token_cost_by_model_id t) c \<noteq> None) (candidate_model_ids model_id price_prefix) of
        [] \<Rightarrow> None | c # _ \<Rightarrow> map_of (token_cost_by_model_id t) c)"

definition priced_cost :: "token_price \<Rightarrow> val \<Rightarrow> val \<Rightarrow> val \<Rightarrow> val \<Rightarrow> exn + val" where
  "priced_cost costs input out cache_read cache_write =
     (case costs of (input_price, output_price, cache_read_price, cache_write_price) \<Rightarrow>
       res_bnd (py_sub input cache_read) (\<lambda>u. res_bnd (py_sub u cache_write) (\<lambda>uncached.
       res_bnd (py_mul uncached input_price) (\<lambda>a.
       res_bnd (py_mul cache_read cache_read_price) (\<lambda>b. res_bnd (py_add a b) (\<lambda>ab.
       res_bnd (py_mul cache_write cache_write_price) (\<lambda>c. res_bnd (py_add ab c) (\<lambda>abc.
       res_bnd (py_mul out output_price) (\<lambda>d. res_bnd (py_add abc d) (\<lambda>total.
       py_div total (VInt 1000000)))))))))))"

definition compute_token_cost ::
  "price_tables \<Rightarrow> string \<Rightarrow> val \<Rightarrow> val \<Rightarrow> val \<Rightarrow> val \<Rightarrow> string option \<Rightarrow> exn + val" where
  "compute_token_cost t model_id input out cache_read cache_write price_prefix =
     (case token_prices t model_id price_prefix of
        None \<Rightarrow> Inr (VFloat (Fin 0))
      | Some costs \<Rightarrow> priced_cost costs input out cache_read cache_write)"

text \<open>\<open>float(price)\<close>; the prices of the file are numbers.\<close>

definition machine_hourly_cost :: "price_tables \<Rightarrow> string \<Rightarrow> exn + pyfloat" where
  "machine_hourly_cost t machine_type = (case map_of (hourly_cost_by_machine_type t) machine_type of
       None \<Rightarrow> Inr (Fin 0) | Some c \<Rightarrow> as_float c)"

section \<open>Current prices\<close>

definition CACHE_COST_KEYS :: "(string \<times> string) list" where
  "CACHE_COST_KEYS = [(''cache_read_input_token_cost'', ''cache_read_cost_per_million_tokens''),
     (''cache_creation_input_token_cost'', ''cache_write_cost_per_million_tokens'')]"

definition per_million :: "val \<Rightarrow> exn + val" where "per_million v = py_mul v (VInt 1000000)"

fun cache_costs :: "dict \<Rightarrow> (string \<times> string) list \<Rightarrow> exn + dict" where
  "cache_costs remote [] = Inr []"
| "cache_costs remote ((remote_key, local_key) # ks) =
     (if py_num (dget remote remote_key) = None then cache_costs remote ks
      else res_bnd (per_million (dget remote remote_key)) (\<lambda>c.
        res_bnd (cache_costs remote ks) (\<lambda>rest. Inr ((local_key, c) # rest))))"

definition remote_costs :: "string \<times> val \<Rightarrow> exn + dict" where
  "remote_costs m = (case m of
     (model_id, VDict remote) \<Rightarrow>
       (if py_num (dget remote ''input_cost_per_token'') = None \<or> py_num (dget remote ''output_cost_per_token'') = None
        then Inr []
        else res_bnd (per_million (dget remote ''input_cost_per_token'')) (\<lambda>i.
          res_bnd (per_million (dget remote ''output_cost_per_token'')) (\<lambda>out.
          res_bnd (cache_costs remote CACHE_COST_KEYS) (\<lambda>cached.
          Inr [(model_id, VDict ([(''input_cost_per_million_tokens'', i), (''output_cost_per_million_tokens'', out)] @ cached))]))))
   | _ \<Rightarrow> Inr [])"

text \<open>\<open>response\<close> is the catalog's parsed answer; \<open>None\<close> is a request that failed.\<close>

definition litellm_prices :: "val option \<Rightarrow> val" where
  "litellm_prices response = (case response of
       Some (VDict d) \<Rightarrow> (case res_all remote_costs d of Inl _ \<Rightarrow> VDict [] | Inr ms \<Rightarrow> VDict (concat ms))
     | _ \<Rightarrow> VDict [])"

section \<open>Facts\<close>

lemma map_of_dict_update [simp]: "map_of (dict_update new d) = map_of d ++ map_of (rev new)"
  by (induction new arbitrary: d) (auto simp: dict_update_def update_conv' map_add_def fun_eq_iff split: option.splits)

definition well_priced :: "val \<Rightarrow> bool" where
  "well_priced costs \<longleftrightarrow> (\<exists>p. price_of costs = Inr p)"

lemma remote_costs_well_priced: "remote_costs m = Inr ms \<Longrightarrow> (k, costs) \<in> set ms \<Longrightarrow> well_priced costs"
  by (cases m; cases "snd m")
    (auto simp: remote_costs_def well_priced_def price_of_def need_def elim!: res_bnd_InrE split: if_splits)

lemma token_costs_Inr:
  assumes "\<forall>(k, costs)\<in>set d. well_priced costs"
  shows "\<exists>cs. token_costs (VDict d) = Inr cs"
  using assms unfolding token_costs_def
  by (auto intro!: res_all_Inr simp: well_priced_def split: prod.split)

lemma res_all_member: "res_all f xs = Inr ys \<Longrightarrow> y \<in> set ys \<Longrightarrow> \<exists>x\<in>set xs. f x = Inr y"
  by (induction xs arbitrary: ys) (auto elim!: res_bnd_InrE)

lemma litellm_well_priced: "\<exists>d. litellm_prices response = VDict d \<and> (\<forall>(k, costs)\<in>set d. well_priced costs)"
proof (cases "\<exists>d ms. response = Some (VDict d) \<and> res_all remote_costs d = Inr ms")
  case True
  then obtain d ms where d: "response = Some (VDict d)" "res_all remote_costs d = Inr ms" by blast
  have "well_priced costs" if "(k, costs) \<in> set (concat ms)" for k costs
    using that res_all_member[OF d(2)] remote_costs_well_priced by fastforce
  with d show ?thesis by (auto simp: litellm_prices_def)
next
  case False
  then have "litellm_prices response = VDict []"
    by (auto simp: litellm_prices_def split: option.split val.split sum.split)
  then show ?thesis by simp
qed

text \<open>Whatever the price catalog answers, what the Global Controller makes of it can be added to
  the price table, so it never stops a start; a gateway that finds it in Redis adds the same
  prices; and a model the catalog does not price keeps the price of \<open>llm_prices.json\<close>.\<close>

theorem fetched_prices_always_load:
  "\<exists>t'. add_prices (litellm_prices response) t = Inr t' \<and>
     load_published_prices (Some (rd_set LLM_PRICES_KEY (Doc (litellm_prices response)) r)) t = t' \<and>
     (\<forall>m p. map_of (token_cost_by_model_id t) m = Some p \<longrightarrow>
        (\<exists>q. map_of (token_cost_by_model_id t') m = Some q \<and>
          (q = p \<or> (\<exists>d costs. litellm_prices response = VDict d \<and> (m, costs) \<in> set d \<and> price_of costs = Inr q))))"
proof -
  obtain d where d: "litellm_prices response = VDict d" "\<forall>(k, costs)\<in>set d. well_priced costs"
    using litellm_well_priced by blast
  obtain cs where cs: "token_costs (VDict d) = Inr cs" using token_costs_Inr[OF d(2)] by blast
  let ?t = "t\<lparr>token_cost_by_model_id := dict_update cs (token_cost_by_model_id t)\<rparr>"
  have add: "add_prices (litellm_prices response) t = Inr ?t" by (simp add: add_prices_def d(1) cs)
  have src: "\<exists>costs. (m, costs) \<in> set d \<and> price_of costs = Inr q" if q: "(m, q) \<in> set cs" for m q
    using q cs res_all_member[of "\<lambda>(model_id, costs). res_bnd (price_of costs) (\<lambda>p. Inr (model_id, p))" d cs "(m, q)"]
    by (auto simp: token_costs_def elim!: res_bnd_InrE)
  have "\<exists>q. map_of (token_cost_by_model_id ?t) m = Some q \<and>
      (q = p \<or> (\<exists>costs. (m, costs) \<in> set d \<and> price_of costs = Inr q))"
    if p: "map_of (token_cost_by_model_id t) m = Some p" for m p
  proof (cases "map_of (rev cs) m")
    case None
    with p show ?thesis by (simp add: map_add_def)
  next
    case (Some q)
    then have "(m, q) \<in> set cs" by (metis map_of_SomeD set_rev)
    from src[OF this] Some show ?thesis by (auto simp: map_add_def)
  qed
  then have "\<forall>m p. map_of (token_cost_by_model_id t) m = Some p \<longrightarrow>
        (\<exists>q. map_of (token_cost_by_model_id ?t) m = Some q \<and>
          (q = p \<or> (\<exists>d costs. litellm_prices response = VDict d \<and> (m, costs) \<in> set d \<and> price_of costs = Inr q)))"
    unfolding d(1) by auto
  moreover have "load_published_prices (Some (rd_set LLM_PRICES_KEY (Doc (litellm_prices response)) r)) t = ?t"
    by (simp add: load_published_prices_def opt_truthy_def text_truthy_def add)
  ultimately show ?thesis using add by (intro exI[of _ ?t]) simp
qed

theorem fetched_prices_always_load_witness:
  "let response = Some (VDict [(''m'', VDict [(''input_cost_per_token'', VFloat (Fin (1/1000))), (''output_cost_per_token'', VInt 1)]), (''n'', VNone)]);
       t = \<lparr>token_cost_by_model_id = [(''m'', (VInt 1, VInt 1, VInt 1, VInt 1)), (''n'', (VInt 7, VInt 7, VInt 7, VInt 7))],
         hourly_cost_by_machine_type = []\<rparr>
   in \<exists>t' q. add_prices (litellm_prices response) t = Inr t' \<and> map_of (token_cost_by_model_id t') ''m'' = Some q \<and>
      q = (VFloat (Fin 1000), VInt 1000000, VFloat (Fin 1000), VFloat (Fin 1000))"
proof -
  let ?response = "Some (VDict [(''m'', VDict [(''input_cost_per_token'', VFloat (Fin (1/1000))), (''output_cost_per_token'', VInt 1)]), (''n'', VNone)])"
  let ?t = "\<lparr>token_cost_by_model_id = [(''m'', (VInt 1, VInt 1, VInt 1, VInt 1)), (''n'', (VInt 7, VInt 7, VInt 7, VInt 7))],
         hourly_cost_by_machine_type = []\<rparr>"
  obtain t' where "add_prices (litellm_prices ?response) ?t = Inr t'"
    using fetched_prices_always_load[of ?response ?t empty_redis] by blast
  moreover have "map_sum id (\<lambda>t. map_of (token_cost_by_model_id t) ''m'') (add_prices (litellm_prices ?response) ?t) =
      Inr (Some (VFloat (Fin 1000), VInt 1000000, VFloat (Fin 1000), VFloat (Fin 1000)))"
    by code_simp
  ultimately show ?thesis by simp
qed

end
