(* ===== verification/Telemetry_Queue.thy ===== *)
theory Telemetry_Queue
  imports Controller_Context Pricing
begin

text \<open>
  The queue the Global Controller puts telemetry in and the exporter drains: the SQLite tables
  of \<open>controller/utils/schema.py\<close>, the producer's writes of \<open>controller/utils/otel_writer.py\<close> and the
  exporter's bookkeeping of \<open>otlp_exporter/otel_reader.py\<close>. A table is an association list by its
  primary key; a write is one transaction, so one that raises leaves the table as it was.
\<close>

section \<open>Tables\<close>

datatype cell = Null | CText rtext | CNum pyfloat | CInt int | CHash hash

type_synonym row = "(string \<times> cell) list"
type_synonym table = "(rtext \<times> row) list"

record queue =
  q_traces :: table
  q_metrics :: table
  q_logs :: table

text \<open>\<open>init_db\<close> on a file without the tables.\<close>

definition init_db :: queue where "init_db = \<lparr>q_traces = [], q_metrics = [], q_logs = []\<rparr>"

definition cell_of :: "row \<Rightarrow> string \<Rightarrow> cell" where
  "cell_of r c = (case map_of r c of None \<Rightarrow> Null | Some v \<Rightarrow> v)"

text \<open>What \<open>sqlite3\<close> makes of a bound value: NaN is stored as NULL, and an integer beyond 64 bits or a
  list or mapping raises.\<close>

definition sql_int :: "int \<Rightarrow> exn + cell" where
  "sql_int i = (if -(2 ^ 63) \<le> i \<and> i < 2 ^ 63 then Inr (CInt i) else Inl OverflowError)"

definition sql_num :: "pyfloat \<Rightarrow> cell" where
  "sql_num x = (if x = NaN then Null else CNum x)"

definition sql_text :: "rtext option \<Rightarrow> cell" where
  "sql_text t = (case t of None \<Rightarrow> Null | Some x \<Rightarrow> CText x)"

definition sql_val :: "val \<Rightarrow> exn + cell" where
  "sql_val v = (case v of VNone \<Rightarrow> Inr Null | VBool b \<Rightarrow> Inr (CInt (if b then 1 else 0)) | VInt i \<Rightarrow> sql_int i
     | VFloat x \<Rightarrow> Inr (sql_num x) | VStr s \<Rightarrow> Inr (CText (Raw s)) | _ \<Rightarrow> Inl (TypeError ''type is not supported''))"

text \<open>A new row is unsent; an update of a row never touches \<open>sent\<close>.\<close>

definition insert_row :: "rtext \<Rightarrow> row \<Rightarrow> table \<Rightarrow> table" where
  "insert_row k r t = AList.update k (r @ [(''sent'', CInt 0)]) t"

definition update_row :: "rtext \<Rightarrow> row \<Rightarrow> row \<Rightarrow> table \<Rightarrow> table" where
  "update_row k old r t = AList.update k (r @ [(''sent'', cell_of old ''sent'')]) t"

definition upsert :: "rtext \<Rightarrow> row \<Rightarrow> table \<Rightarrow> table" where
  "upsert k r t = (case map_of t k of None \<Rightarrow> insert_row k r t | Some old \<Rightarrow> update_row k old r t)"

section \<open>Traces\<close>

text \<open>A row that ended: it finished or failed.\<close>

definition ended :: "row \<Rightarrow> bool" where
  "ended r \<longleftrightarrow> cell_of r ''finished_at'' \<noteq> Null \<or> cell_of r ''failed'' = CInt 1"

text \<open>\<open>_TRACES_UPSERT\<close>: a row that ended is replaced only by one that ended too.\<close>

definition trace_upsert :: "rtext \<Rightarrow> row \<Rightarrow> table \<Rightarrow> table" where
  "trace_upsert k r t = (case map_of t k of
       None \<Rightarrow> insert_row k r t
     | Some old \<Rightarrow> if \<not> ended old \<or> ended r then update_row k old r t else t)"

definition normalize_json_text :: "rtext option \<Rightarrow> rtext option" where
  "normalize_json_text v = (case v of
       None \<Rightarrow> None | Some t \<Rightarrow> Some (case loads t of Some _ \<Rightarrow> t | None \<Rightarrow> Doc (VStr (raw_str t))))"

text \<open>\<open>float(raw.get(f) or 0)\<close>, \<open>int(float(raw.get(f) or 0))\<close>, \<open>int(raw.get(f) or 0)\<close>.\<close>

definition float_or0 :: "hash \<Rightarrow> string \<Rightarrow> exn + pyfloat" where
  "float_or0 raw f = (if \<not> opt_truthy (map_of raw f) then Inr (Fin 0)
     else case float_text (the (map_of raw f)) of None \<Rightarrow> Inl (ValueError f) | Some x \<Rightarrow> Inr x)"

definition count_or0 :: "hash \<Rightarrow> string \<Rightarrow> exn + int" where
  "count_or0 raw f = res_bnd (float_or0 raw f) (\<lambda>x. py_int_of (VFloat x))"

definition int_or0 :: "hash \<Rightarrow> string \<Rightarrow> exn + int" where
  "int_or0 raw f = (if \<not> opt_truthy (map_of raw f) then Inr 0
     else case int_text (the (map_of raw f)) of None \<Rightarrow> Inl (ValueError f) | Some i \<Rightarrow> Inr i)"

text \<open>\<open>round(x)\<close> of a float.\<close>

definition fl_round :: "pyfloat \<Rightarrow> exn + int" where
  "fl_round x = (case x of Fin q \<Rightarrow> Inr (py_round q) | NaN \<Rightarrow> Inl (ValueError ''cannot convert float NaN to integer'')
     | _ \<Rightarrow> Inl OverflowError)"

definition fl_truthy :: "pyfloat \<Rightarrow> bool" where "fl_truthy x \<longleftrightarrow> x \<noteq> Fin 0"

text \<open>\<open>redis_client.get(f"agent:{agent_id}:hourly_cost")\<close> priced over the time the call took; whatever
  goes wrong counts as no cost. \<open>redis\<close> is \<open>None\<close> when the server does not answer.\<close>

definition row_cost_key :: "string \<Rightarrow> string" where
  "row_cost_key agent = ''agent:'' @ agent @ '':hourly_cost''"

definition server_cost :: "redis option \<Rightarrow> rtext option \<Rightarrow> pyfloat \<Rightarrow> pyfloat \<Rightarrow> pyfloat" where
  "server_cost redis agent started finished =
     (let hourly = (if \<not> opt_truthy agent then Some None
        else case redis of None \<Rightarrow> None | Some r \<Rightarrow> Some (rd_get (row_cost_key (raw_str (the agent))) r)) in
      case hourly of
        None \<Rightarrow> Fin 0
      | Some h \<Rightarrow> (case (if opt_truthy h then float_text (the h) else Some (Fin 0)) of
            None \<Rightarrow> Fin 0
          | Some x \<Rightarrow> fl_over (fl_times x (fl_minus finished started)) (Fin 3600)))"

definition token_cost :: "price_tables \<Rightarrow> hash \<Rightarrow> int \<Rightarrow> int \<Rightarrow> int \<Rightarrow> int \<Rightarrow> pyfloat" where
  "token_cost prices raw input out cached written =
     (case compute_token_cost prices (case map_of raw ''model'' of None \<Rightarrow> [] | Some m \<Rightarrow> raw_str m) (VInt input) (VInt out)
        (VInt cached) (VInt written) (map_option raw_str (map_of raw ''price_prefix'')) of
       Inr (VFloat x) \<Rightarrow> x | _ \<Rightarrow> Fin 0)"

definition row_name :: "hash \<Rightarrow> rtext" where
  "row_name raw =
     (let name = (if opt_truthy (map_of raw ''name'') then the (map_of raw ''name'')
        else Raw (join ''.'' (map (\<lambda>f. raw_str (the (map_of raw f)))
          (filter (\<lambda>f. opt_truthy (map_of raw f)) [''service'', ''method''])))) in
      if text_truthy name then name
      else if opt_truthy (map_of raw ''agent'') then the (map_of raw ''agent'') else Raw ''unknown_agent'')"

text \<open>\<open>cached_tokens / token_count if token_count else 0.0\<close>.\<close>

definition hit_ratio :: "int \<Rightarrow> int \<Rightarrow> exn + pyfloat" where
  "hit_ratio cached tokens = (if tokens = 0 then Inr (Fin 0)
     else res_bnd (py_div (VInt cached) (VInt tokens)) as_float)"

text \<open>When the call started and ended, and the milliseconds between.\<close>

definition trace_times :: "hash \<Rightarrow> exn + pyfloat \<times> pyfloat option \<times> cell" where
  "trace_times raw =
     res_bnd (float_or0 raw ''created_at'') (\<lambda>started.
     if \<not> opt_truthy (map_of raw ''finished_at'') then Inr (started, None, Null)
     else res_bnd (float_or0 raw ''finished_at'') (\<lambda>finished.
       if \<not> fl_truthy finished \<or> \<not> fl_truthy started then Inr (started, Some finished, Null)
       else res_bnd (fl_round (fl_times (fl_minus finished started) (Fin 1000))) (\<lambda>ms.
         res_bnd (sql_int ms) (\<lambda>execution. Inr (started, Some finished, execution)))))"

text \<open>Input, output, all, cached and cache-written tokens.\<close>

definition trace_tokens :: "hash \<Rightarrow> exn + int \<times> int \<times> int \<times> int \<times> int" where
  "trace_tokens raw =
     res_bnd (count_or0 raw ''input_token_count'') (\<lambda>input.
     res_bnd (count_or0 raw ''output_token_count'') (\<lambda>out.
     res_bnd (count_or0 raw ''token_count'') (\<lambda>tokens.
     res_bnd (count_or0 raw ''input_cache_tokens'') (\<lambda>cached.
     res_bnd (count_or0 raw ''input_cache_write_tokens'') (\<lambda>written.
     Inr (input, out, tokens, cached, written))))))"

text \<open>The processors used and the time in the queue.\<close>

definition trace_loads :: "hash \<Rightarrow> exn + pyfloat \<times> pyfloat \<times> cell" where
  "trace_loads raw =
     res_bnd (float_or0 raw ''cpu_resource'') (\<lambda>cpu.
     res_bnd (float_or0 raw ''gpu_resource'') (\<lambda>gpu.
     if \<not> opt_truthy (map_of raw ''queue_time'') then Inr (cpu, gpu, Null)
     else res_bnd (float_or0 raw ''queue_time'') (\<lambda>x.
       res_bnd (fl_round (fl_times x (Fin 1000))) (\<lambda>ms. res_bnd (sql_int ms) (\<lambda>queued. Inr (cpu, gpu, queued))))))"

text \<open>The row of a future; \<open>None\<close> is one dropped for its missing id or request.\<close>

definition trace_row :: "price_tables \<Rightarrow> redis option \<Rightarrow> val \<Rightarrow> hash \<Rightarrow> exn + (rtext \<times> row) option" where
  "trace_row prices redis project raw =
     (if \<not> opt_truthy (map_of raw ''future_id'') \<or> \<not> opt_truthy (map_of raw ''request_id'') then Inr None
      else
        res_bnd (trace_times raw) (\<lambda>(started, finished, execution).
        res_bnd (trace_tokens raw) (\<lambda>(input, out, tokens, cached, written).
        let tc = (case finished of None \<Rightarrow> Fin 0 | Some _ \<Rightarrow> token_cost prices raw input out cached written);
            sc = (case finished of None \<Rightarrow> Fin 0 | Some x \<Rightarrow> server_cost redis (map_of raw ''agent'') started x) in
        res_bnd (trace_loads raw) (\<lambda>(cpu, gpu, queued).
        res_bnd (int_or0 raw ''errors'') (\<lambda>errors.
        res_bnd (int_or0 raw ''failed'') (\<lambda>failed.
        res_bnd (hit_ratio cached tokens) (\<lambda>ratio.
        res_bnd (res_all sql_int [input, out, tokens, errors, cached]) (\<lambda>ints.
        res_bnd (sql_val project) (\<lambda>proj.
        Inr (Some (the (map_of raw ''future_id''),
          [(''parent_id'', if opt_truthy (map_of raw ''parent'') then sql_text (map_of raw ''parent'') else Null),
           (''session_id'', sql_text (map_of raw ''request_id'')), (''project_id'', proj),
           (''agent_id'', sql_text (map_of raw ''agent'')), (''model'', sql_text (map_of raw ''model'')),
           (''prompt_name'', sql_text (map_of raw ''prompt_name'')), (''prompt_version'', sql_text (map_of raw ''prompt_version'')),
           (''cpu'', sql_num cpu), (''gpu'', sql_num gpu), (''started_at'', sql_num started),
           (''finished_at'', case finished of None \<Rightarrow> Null | Some x \<Rightarrow> sql_num x),
           (''execution_time_ms'', execution), (''queue_time_ms'', queued),
           (''input_token_count'', ints ! 0), (''output_token_count'', ints ! 1), (''token_count'', ints ! 2),
           (''errors'', ints ! 3), (''failed'', CInt (if failed \<noteq> 0 then 1 else 0)),
           (''server_cost'', sql_num sc), (''token_cost'', sql_num tc), (''total_cost'', sql_num (fl_plus sc tc)),
           (''cached_tokens'', ints ! 4), (''cache_hit_ratio'', sql_num ratio),
           (''error_name'', sql_text (map_of raw ''error_name'')), (''error_message'', sql_text (map_of raw ''error'')),
           (''name'', CText (row_name raw)), (''input'', sql_text (normalize_json_text (map_of raw ''args''))),
           (''output'', sql_text (normalize_json_text (map_of raw ''result'')))])))))))))))"

fun put_traces :: "price_tables \<Rightarrow> redis option \<Rightarrow> val \<Rightarrow> hash list \<Rightarrow> table \<Rightarrow> exn + table" where
  "put_traces prices redis project [] t = Inr t"
| "put_traces prices redis project (raw # rows) t =
     res_bnd (trace_row prices redis project raw) (\<lambda>r.
     put_traces prices redis project rows (case r of None \<Rightarrow> t | Some (k, cells) \<Rightarrow> trace_upsert k cells t))"

definition trace_write_rows :: "price_tables \<Rightarrow> redis option \<Rightarrow> val \<Rightarrow> hash list \<Rightarrow> queue \<Rightarrow> exn + queue" where
  "trace_write_rows prices redis project rows q =
     map_sum id (\<lambda>t. q\<lparr>q_traces := t\<rparr>) (put_traces prices redis project rows (q_traces q))"

section \<open>Logs\<close>

definition log_params :: "dict \<Rightarrow> cell \<Rightarrow> cell \<Rightarrow> cell \<Rightarrow> cell \<Rightarrow> exn + row" where
  "log_params entry future_id session_id project_id agent_id =
     res_bnd (sql_val (val_or (dget entry ''ObservedTimestamp'') (dget entry ''Timestamp''))) (\<lambda>at_time.
     res_bnd (sql_val (dget entry ''SeverityNumber'')) (\<lambda>number.
     res_bnd (sql_val (dget entry ''SeverityText'')) (\<lambda>severity.
     res_bnd (sql_val (dget entry ''Body'')) (\<lambda>body.
     Inr [(''future_id'', future_id), (''session_id'', session_id), (''project_id'', project_id), (''agent_id'', agent_id),
       (''observed_at'', at_time), (''severity_number'', number), (''severity_text'', severity), (''body'', body),
       (''attributes'', CText (Doc (val_or (dget entry ''Attributes'') (VDict []))))]))))"

text \<open>\<open>enumerate(entries)\<close>: only a list holds mappings; what cannot be iterated raises.\<close>

definition log_entries :: "val \<Rightarrow> exn + (nat \<times> dict) list" where
  "log_entries entries = (case entries of
       VList es \<Rightarrow> Inr (concat (map (\<lambda>(i, e). case e of VDict d \<Rightarrow> [(i, d)] | _ \<Rightarrow> []) (enumerate 0 es)))
     | VStr _ \<Rightarrow> Inr [] | VDict _ \<Rightarrow> Inr [] | _ \<Rightarrow> if truthy entries then Inl (TypeError ''not iterable'') else Inr [])"

fun put_entries :: "rtext \<Rightarrow> hash \<Rightarrow> val \<Rightarrow> (nat \<times> dict) list \<Rightarrow> table \<Rightarrow> exn + table" where
  "put_entries fid raw project [] t = Inr t"
| "put_entries fid raw project ((i, entry) # es) t =
     res_bnd (sql_val project) (\<lambda>proj.
     res_bnd (log_params entry (CText fid) (sql_text (map_of raw ''request_id'')) proj (sql_text (map_of raw ''agent''))) (\<lambda>r.
     put_entries fid raw project es (upsert (Raw (raw_str fid @ '':'' @ str_nat i)) r t)))"

definition put_log :: "val \<Rightarrow> hash \<Rightarrow> table \<Rightarrow> exn + table" where
  "put_log project raw t =
     (if \<not> opt_truthy (map_of raw ''future_id'') \<or> \<not> opt_truthy (map_of raw ''logs'') then Inr t
      else case loads (the (map_of raw ''logs'')) of
          None \<Rightarrow> Inr t
        | Some entries \<Rightarrow> res_bnd (log_entries entries) (\<lambda>es. put_entries (the (map_of raw ''future_id'')) raw project es t))"

fun put_logs :: "val \<Rightarrow> hash list \<Rightarrow> table \<Rightarrow> exn + table" where
  "put_logs project [] t = Inr t"
| "put_logs project (raw # rows) t = res_bnd (put_log project raw t) (put_logs project rows)"

definition log_write_rows :: "val \<Rightarrow> hash list \<Rightarrow> queue \<Rightarrow> exn + queue" where
  "log_write_rows project rows q = map_sum id (\<lambda>t. q\<lparr>q_logs := t\<rparr>) (put_logs project rows (q_logs q))"

section \<open>Metrics\<close>

text \<open>A sample as the Global Controller hands it over.\<close>

record sample =
  s_kind :: string
  s_host :: string
  s_port :: "rtext option"
  s_agent_id :: "rtext option"
  s_agent_name :: "rtext option"
  s_project :: val
  s_metrics :: hash

text \<open>\<open>int(observed_at * 1e9)\<close>, and the sample's key.\<close>

definition sample_id :: "sample \<Rightarrow> int \<Rightarrow> string" where
  "sample_id s nanos = s_kind s @ '':'' @
     (if opt_truthy (s_agent_id s) then raw_str (the (s_agent_id s))
      else if opt_truthy (s_port s) then s_host s @ '':'' @ (case the (s_port s) of Doc (VInt p) \<Rightarrow> str_int p | t \<Rightarrow> raw_str t)
      else s_host s) @ '':'' @ str_int nanos"

definition metric_row :: "pyfloat \<Rightarrow> sample \<Rightarrow> exn + (rtext \<times> row) option" where
  "metric_row now s =
     (if s_metrics s = [] \<or> s_host s = [] then Inr None
      else res_bnd (float_or0 (s_metrics s) ''observed_at'') (\<lambda>x.
        let observed = (if fl_truthy x then x else now) in
        res_bnd (py_int_of (VFloat (fl_times observed (Fin 1000000000)))) (\<lambda>nanos.
        res_bnd (sql_val (s_project s)) (\<lambda>proj.
        Inr (Some (Raw (sample_id s nanos),
          [(''kind'', CText (Raw (s_kind s))), (''agent_id'', sql_text (s_agent_id s)), (''agent_name'', sql_text (s_agent_name s)),
           (''host'', CText (Raw (s_host s))), (''port'', sql_text (s_port s)), (''project_id'', proj),
           (''observed_at'', sql_num observed), (''metrics'', CHash (s_metrics s))]))))))"

text \<open>One malformed sample is dropped and the others are written.\<close>

definition put_metric :: "pyfloat \<Rightarrow> sample \<Rightarrow> table \<Rightarrow> table" where
  "put_metric now s t = (case metric_row now s of Inr (Some (k, r)) \<Rightarrow> upsert k r t | _ \<Rightarrow> t)"

definition metric_write_rows :: "pyfloat \<Rightarrow> sample list \<Rightarrow> queue \<Rightarrow> queue" where
  "metric_write_rows now samples q = q\<lparr>q_metrics := fold (put_metric now) samples (q_metrics q)\<rparr>"

section \<open>The exporter's bookkeeping\<close>

definition set_sent :: "rtext \<Rightarrow> table \<Rightarrow> table" where
  "set_sent k t = (case map_of t k of None \<Rightarrow> t | Some r \<Rightarrow> AList.update k (AList.update ''sent'' (CInt 1) r) t)"

definition mark_sent_many :: "rtext list \<Rightarrow> table \<Rightarrow> table" where
  "mark_sent_many ks t = fold set_sent ks t"

definition flush_all :: "table \<Rightarrow> nat \<times> table" where "flush_all t = (length t, [])"

text \<open>Rows whose timestamp is older than the cutoff; one without a timestamp stays.\<close>

definition is_expired :: "string \<Rightarrow> pyfloat \<Rightarrow> row \<Rightarrow> bool" where
  "is_expired column cutoff r \<longleftrightarrow> (case cell_of r column of CNum x \<Rightarrow> fl_less x cutoff | CInt i \<Rightarrow> fl_less (Fin (of_int i)) cutoff | _ \<Rightarrow> False)"

definition delete_expired :: "string \<Rightarrow> pyfloat \<Rightarrow> table \<Rightarrow> nat \<times> table" where
  "delete_expired column cutoff t =
     (length (filter (is_expired column cutoff \<circ> snd) t), filter (\<lambda>(k, r). \<not> is_expired column cutoff r) t)"

section \<open>What ended stays\<close>

definition stored :: "table \<Rightarrow> rtext \<Rightarrow> bool" where
  "stored t k \<longleftrightarrow> (\<exists>r. map_of t k = Some r \<and> ended r)"

lemma ended_sent [simp]: "ended (r @ [(''sent'', c)]) = ended r"
  by (simp add: ended_def cell_of_def map_add_def split: option.split)

lemma trace_upsert_stored: "stored t k' \<Longrightarrow> stored (trace_upsert k r t) k'"
  by (auto simp: stored_def trace_upsert_def insert_row_def update_row_def update_conv' split: option.split)

lemma trace_upsert_stores: "ended r \<Longrightarrow> stored (trace_upsert k r t) k"
  by (auto simp: stored_def trace_upsert_def insert_row_def update_row_def update_conv' split: option.split)

lemma put_traces_stored: "put_traces prices redis project rows t = Inr t' \<Longrightarrow> stored t k \<Longrightarrow> stored t' k"
proof (induction rows arbitrary: t)
  case (Cons raw rows)
  then obtain o1 where "put_traces prices redis project rows (case o1 of None \<Rightarrow> t | Some (k, cells) \<Rightarrow> trace_upsert k cells t) = Inr t'"
    by (auto elim: res_bnd_InrE)
  from Cons.IH[OF this] Cons.prems(2) show ?case
    by (cases o1) (auto simp: trace_upsert_stored split: prod.splits)
qed simp

lemma put_traces_stores:
  assumes "put_traces prices redis project rows t = Inr t'" "raw \<in> set rows"
    and "\<And>cells. trace_row prices redis project raw = Inr (Some (k, cells)) \<Longrightarrow> ended cells"
    and "\<exists>cells. trace_row prices redis project raw = Inr (Some (k, cells)) \<or> trace_row prices redis project raw = Inl e"
  shows "stored t' k"
  using assms
proof (induction rows arbitrary: t)
  case (Cons r rows)
  from Cons.prems(1) obtain o1 where o1: "trace_row prices redis project r = Inr o1"
    "put_traces prices redis project rows (case o1 of None \<Rightarrow> t | Some (k, cells) \<Rightarrow> trace_upsert k cells t) = Inr t'"
    by (auto elim: res_bnd_InrE)
  show ?case
  proof (cases "raw = r")
    case True
    then obtain cells where "o1 = Some (k, cells)" using Cons.prems(4) o1(1) by auto
    moreover from this have "ended cells" using Cons.prems(3) True o1(1) by simp
    ultimately show ?thesis using put_traces_stored[OF o1(2)] trace_upsert_stores by simp
  next
    case False
    with Cons.prems Cons.IH[OF o1(2)] show ?thesis by simp
  qed
qed simp

text \<open>\<open>_is_finished\<close>.\<close>

definition is_finished :: "hash \<Rightarrow> bool" where
  "is_finished raw \<longleftrightarrow> opt_truthy (map_of raw ''finished_at'') \<or> map_of raw ''failed'' = Some (Doc (VInt 1))"

definition timed :: "hash \<Rightarrow> bool" where
  "timed raw \<longleftrightarrow> map_of raw ''finished_at'' \<noteq> Some (Doc (VFloat NaN))"

lemma trace_row_shape:
  assumes "trace_row prices redis project raw = Inr (Some (k, cells))"
  shows "map_of raw ''future_id'' = Some k \<and> opt_truthy (Some k) \<and>
    (opt_truthy (map_of raw ''finished_at'') \<longrightarrow>
       (\<exists>x. float_or0 raw ''finished_at'' = Inr x \<and> cell_of cells ''finished_at'' = sql_num x)) \<and>
    (\<exists>f. int_or0 raw ''failed'' = Inr f \<and> cell_of cells ''failed'' = CInt (if f \<noteq> 0 then 1 else 0))"
proof -
  have "opt_truthy (map_of raw ''future_id'')" using assms by (auto simp: trace_row_def split: if_splits)
  then obtain k' where k': "map_of raw ''future_id'' = Some k'" "opt_truthy (Some k')"
    by (cases "map_of raw ''future_id''") (auto simp: opt_truthy_def)
  obtain t where t: "trace_times raw = Inr t"
    using assms k' by (cases "trace_times raw") (auto simp: trace_row_def opt_truthy_def split: if_splits)
  obtain started finished execution where tt: "t = (started, finished, execution)" by (cases t)
  have f: "opt_truthy (map_of raw ''finished_at'') \<longrightarrow> (\<exists>x. float_or0 raw ''finished_at'' = Inr x \<and> finished = Some x)"
    using t tt by (auto simp: trace_times_def elim!: res_bnd_InrE split: if_split_asm)
  have "opt_truthy (map_of raw ''request_id'')" using assms k' by (auto simp: trace_row_def split: if_split_asm)
  with assms k' t tt f show ?thesis
    by (elim res_bnd_InrE | clarsimp simp: trace_row_def Let_def cell_of_def simp del: res_all.simps split del: if_split)+
qed

lemma float_or0_timed:
  assumes "float_or0 raw ''finished_at'' = Inr x" "timed raw"
  shows "x \<noteq> NaN"
proof (cases "map_of raw ''finished_at''")
  case (Some t)
  then show ?thesis using assms
    by (cases t rule: float_text.cases) (auto simp: float_or0_def timed_def split: if_splits)
qed (use assms in \<open>auto simp: float_or0_def opt_truthy_def\<close>)

lemma trace_row_ended:
  assumes "trace_row prices redis project raw = Inr (Some (k, cells))" "is_finished raw" "timed raw"
  shows "ended cells"
proof (cases "opt_truthy (map_of raw ''finished_at'')")
  case True
  with trace_row_shape[OF assms(1)] float_or0_timed[OF _ assms(3)] show ?thesis by (auto simp: ended_def sql_num_def)
next
  case False
  with assms(2) have "int_or0 raw ''failed'' = Inr 1" by (auto simp: is_finished_def int_or0_def opt_truthy_def text_truthy_def)
  with trace_row_shape[OF assms(1)] show ?thesis by (simp add: ended_def)
qed

end
