(* ===== verification/Process_Supervisor.thy ===== *)
theory Process_Supervisor
  imports Py_Values "HOL-Library.AList"
begin

text \<open>
  The registry of the processes the Global Controller runs beside itself
  (\<open>controller/utils/process_supervisor.py\<close>). A process is running or has exited; \<open>sv_started\<close> lists
  the starts. \<open>fails\<close> says for which names \<open>Popen\<close> raises.
\<close>

record supervisor =
  sv_specs :: "(string \<times> string list \<times> (string \<times> string) list) list"
  sv_procs :: "(string \<times> bool) list"
  sv_started :: "(string \<times> string list \<times> (string \<times> string) list) list"

type_synonym 'a sstep = "(supervisor, 'a) act"

definition new_supervisor :: supervisor where
  "new_supervisor = \<lparr>sv_specs = [], sv_procs = [], sv_started = []\<rparr>"

definition is_registered :: "string \<Rightarrow> supervisor \<Rightarrow> bool" where
  "is_registered name s \<longleftrightarrow> name \<in> fst ` set (sv_specs s)"

definition register_process :: "string \<Rightarrow> string list \<Rightarrow> (string \<times> string) list \<Rightarrow> unit sstep" where
  "register_process name argv env = modify_st (\<lambda>s. s\<lparr>sv_specs := AList.update name (argv, env) (sv_specs s)\<rparr>)"

definition start_process :: "(string \<Rightarrow> bool) \<Rightarrow> string \<times> string list \<times> (string \<times> string) list \<Rightarrow> unit sstep" where
  "start_process fails spec = (if fails (fst spec) then raise (RuntimeError ''Popen'')
     else modify_st (\<lambda>s. s\<lparr>sv_procs := AList.update (fst spec) True (sv_procs s), sv_started := sv_started s @ [spec]\<rparr>))"

definition start_all :: "(string \<Rightarrow> bool) \<Rightarrow> unit sstep" where
  "start_all fails = bnd (read_st sv_specs) (\<lambda>specs. for_each specs (start_process fails))"

definition respawn :: "(string \<Rightarrow> bool) \<Rightarrow> string \<times> bool \<Rightarrow> unit sstep" where
  "respawn fails p = (case p of (name, running) \<Rightarrow>
     if running then ret ()
     else bnd (read_st (\<lambda>s. need (sv_specs s) name)) (\<lambda>spec.
       bnd (of_res spec) (\<lambda>(argv, env). start_process fails (name, argv, env))))"

definition check_and_respawn :: "(string \<Rightarrow> bool) \<Rightarrow> unit sstep" where
  "check_and_respawn fails = bnd (read_st sv_procs) (\<lambda>procs. for_each procs (respawn fails))"

text \<open>\<open>terminate_all\<close>: every process is terminated, or killed when it does not end in time.\<close>

definition terminate_all :: "unit sstep" where
  "terminate_all = modify_st (\<lambda>s. s\<lparr>sv_procs := []\<rparr>)"

section \<open>What is started\<close>

text \<open>Every process is one of the registered ones.\<close>

definition known_procs :: "supervisor \<Rightarrow> bool" where
  "known_procs s \<longleftrightarrow> distinct (map fst (sv_procs s)) \<and> fst ` set (sv_procs s) \<subseteq> fst ` set (sv_specs s)"

lemma need_registered: "name \<in> fst ` set specs \<Longrightarrow> \<exists>v. need specs name = Inr v \<and> (name, v) \<in> set specs"
  by (cases "map_of specs name") (auto simp: need_def map_of_eq_None_iff dest: map_of_SomeD)

lemma respawn_all:
  assumes "\<forall>n. \<not> fails n" "fst ` set ps \<subseteq> fst ` set (sv_specs s)"
  shows "\<exists>s'. for_each ps (respawn fails) s = (Inr (), s') \<and> sv_specs s' = sv_specs s \<and>
    (\<forall>n. map_of (sv_procs s') n = (if (n, False) \<in> set ps then Some True else map_of (sv_procs s) n)) \<and>
    fst ` set (sv_started s') = fst ` set (sv_started s) \<union> {n. (n, False) \<in> set ps}"
  using assms(2)
proof (induction ps arbitrary: s)
  case (Cons p ps)
  obtain name running where p: "p = (name, running)" by (cases p)
  show ?case
  proof (cases running)
    case True
    with Cons.IH[of s] Cons.prems p show ?thesis by (simp add: respawn_def bnd_run ret_run)
  next
    case False
    obtain argv env where spec: "need (sv_specs s) name = Inr (argv, env)"
      using need_registered[of name "sv_specs s"] Cons.prems p by auto
    let ?s = "s\<lparr>sv_procs := AList.update name True (sv_procs s), sv_started := sv_started s @ [(name, argv, env)]\<rparr>"
    have "respawn fails p s = (Inr (), ?s)"
      using assms(1) False spec p by (simp add: respawn_def start_process_def bnd_run read_run of_res_run modify_run)
    moreover from Cons.IH[of ?s] Cons.prems obtain s' where s': "for_each ps (respawn fails) ?s = (Inr (), s')"
      "sv_specs s' = sv_specs s"
      "\<forall>n. map_of (sv_procs s') n = (if (n, False) \<in> set ps then Some True else map_of (sv_procs ?s) n)"
      "fst ` set (sv_started s') = fst ` set (sv_started ?s) \<union> {n. (n, False) \<in> set ps}"
      by auto
    ultimately show ?thesis using p False by (intro exI[of _ s']) (auto simp: bnd_run update_conv')
  qed
qed (simp add: ret_run)

text \<open>One check starts exactly the processes that had exited, and leaves every process running; once all
  were terminated, it starts none.\<close>

lemma respawn_restores:
  assumes "known_procs s" "\<forall>n. \<not> fails n"
  shows "\<exists>s'. check_and_respawn fails s = (Inr (), s') \<and> (\<forall>n r. map_of (sv_procs s') n = Some r \<longrightarrow> r) \<and>
    dom (map_of (sv_procs s')) = dom (map_of (sv_procs s)) \<and>
    fst ` set (sv_started s') = fst ` set (sv_started s) \<union> {n. map_of (sv_procs s) n = Some False}"
proof -
  have d: "map_of (sv_procs s) n = Some r \<longleftrightarrow> (n, r) \<in> set (sv_procs s)" for n r
    using assms(1) by (simp add: known_procs_def)
  obtain s' where s': "for_each (sv_procs s) (respawn fails) s = (Inr (), s')"
    "\<forall>n. map_of (sv_procs s') n = (if (n, False) \<in> set (sv_procs s) then Some True else map_of (sv_procs s) n)"
    "fst ` set (sv_started s') = fst ` set (sv_started s) \<union> {n. (n, False) \<in> set (sv_procs s)}"
    using respawn_all[OF assms(2), of "sv_procs s" s] assms(1) by (auto simp: known_procs_def)
  have "r" if "map_of (sv_procs s') n = Some r" for n r
    using that s'(2) d[of n False] by (cases r) (auto split: if_splits)
  moreover have "dom (map_of (sv_procs s')) = dom (map_of (sv_procs s))"
    using s'(2) d by (auto simp: dom_def split: if_splits)
  ultimately show ?thesis using s'(1,3) d by (auto simp: check_and_respawn_def bnd_run read_run)
qed

lemma respawn_after_terminate: "check_and_respawn fails (snd (terminate_all s)) = (Inr (), snd (terminate_all s))"
  by (simp add: check_and_respawn_def terminate_all_def modify_run bnd_run read_run ret_run)

end
