(* ===== verification/Controller_State.thy ===== *)
theory Controller_State
  imports Telemetry_Queue Replica_Launch Process_Supervisor
begin

text \<open>
  The state of the Global Controller process (\<open>controller/global_controller.py\<close>): the Redis servers
  and clients it shares with the reconciler's context, the telemetry queue, the price tables and
  what the process keeps in memory. \<open>on_world\<close> runs a step of the shared context. What is outside
  the repository is a field of \<open>cenv\<close>: the context's environment, the process environment, what a
  replica answers to a Cleanup, and what other processes write to the servers while an operation
  of this one runs.
\<close>

record gc =
  g_world :: world
  g_queue :: queue
  g_db_down :: bool
  g_prices :: price_tables
  g_fetched :: val
  g_finished :: "(string \<times> string list) list"
  g_last_status :: "(string \<times> rtext) list"
  g_sent_at :: "(string \<times> rat) list"
  g_cleanups :: "(string \<times> string list \<times> rat) list"
  g_running :: bool
  g_stopping :: bool
  g_collectors :: "(string \<times> string) list"
  g_redis_containers :: "(string \<times> string) list"
  g_supervisor :: supervisor

type_synonym 'a gstep = "(gc, 'a) act"

record cenv =
  c_env :: env
  c_environ :: "string \<Rightarrow> string option"
  c_cleanup_answers :: "string \<Rightarrow> string list \<Rightarrow> bool"
  c_meanwhile :: "world \<Rightarrow> world"
  c_spawn_fails :: "string \<Rightarrow> bool"

definition on_world :: "'a step \<Rightarrow> 'a gstep" where
  "on_world m = (\<lambda>g. case m (g_world g) of (r, w) \<Rightarrow> (r, g\<lparr>g_world := w\<rparr>))"

text \<open>A transaction on the queue: a database that does not open raises, and a write that raises is rolled
  back.\<close>

definition with_queue :: "(queue \<Rightarrow> exn + queue) \<Rightarrow> unit gstep" where
  "with_queue f = (\<lambda>g. if g_db_down g then (Inl (RuntimeError ''database''), g)
     else case f (g_queue g) of Inl e \<Rightarrow> (Inl e, g) | Inr q \<Rightarrow> (Inr (), g\<lparr>g_queue := q\<rparr>))"

definition on_supervisor :: "'a sstep \<Rightarrow> 'a gstep" where
  "on_supervisor m = (\<lambda>g. case m (g_supervisor g) of (r, s) \<Rightarrow> (r, g\<lparr>g_supervisor := s\<rparr>))"

definition project_id :: "gc \<Rightarrow> val" where "project_id g = dget (w_config (g_world g)) ''project_id''"

text \<open>The Redis of a machine as a value: \<open>None\<close> when it does not answer.\<close>

definition redis_at :: "gc \<Rightarrow> string \<Rightarrow> redis option" where
  "redis_at g h = (if w_down (g_world g) h then None else Some (w_servers (g_world g) h))"

text \<open>\<open>machine_redis.values()\<close>, or this machine's Redis alone.\<close>

definition clients :: "gc \<Rightarrow> string list" where
  "clients g = (if w_clients (g_world g) = [] then [LOCAL] else w_clients (g_world g))"

lemma on_world_run [act_simps]: "on_world m g = (fst (m (g_world g)), g\<lparr>g_world := snd (m (g_world g))\<rparr>)"
  by (simp add: on_world_def split: prod.split)

lemma on_supervisor_run [act_simps]:
  "on_supervisor m g = (fst (m (g_supervisor g)), g\<lparr>g_supervisor := snd (m (g_supervisor g))\<rparr>)"
  by (simp add: on_supervisor_def split: prod.split)

lemma with_queue_run [act_simps]:
  "with_queue f g = (if g_db_down g then (Inl (RuntimeError ''database''), g)
     else case f (g_queue g) of Inl e \<Rightarrow> (Inl e, g) | Inr q \<Rightarrow> (Inr (), g\<lparr>g_queue := q\<rparr>))"
  by (simp add: with_queue_def)

lemma keeps_on_world: "(\<And>g. P g \<Longrightarrow> P (g\<lparr>g_world := snd (m (g_world g))\<rparr>)) \<Longrightarrow> keeps P (on_world m)"
  by (simp add: keeps_def on_world_run)

lemma on_world_ask_run [act_simps]:
  "on_world (ask h f) g = (if w_down (g_world g) h then (Inl (RedisError h), g) else (Inr (f (w_servers (g_world g) h)), g))"
  by (simp add: on_world_run ask_run)

lemma keeps_on_supervisor: "(\<And>g s. P g \<Longrightarrow> P (g\<lparr>g_supervisor := s\<rparr>)) \<Longrightarrow> keeps P (on_supervisor m)"
  by (simp add: keeps_def on_supervisor_run)

lemma keeps_on_ask [pres_intros]: "keeps P (on_world (ask h f))"
  by (simp add: keeps_def on_world_ask_run)

lemma never_raises_on_world [calm_intros]: "never_raises m \<Longrightarrow> never_raises (on_world m)"
  by (auto simp: never_raises_def on_world_run) (metis fst_conv)

end
