(* ===== verification/Telemetry_Delivery.thy ===== *)
theory Telemetry_Delivery
  imports Controller_State
begin

text \<open>
  Telemetry from the machines' Redis into the queue (\<open>controller/utils/otel_writer.py\<close>): the futures
  read at each poll, and the delivery of finished requests, after which a replica may expire
  their keys. \<open>c_meanwhile\<close> is what other processes do between the writes to the queue and the
  second look at the requests.
\<close>

section \<open>Reading futures\<close>

text \<open>\<open>data["future_id"] = data.get("id") or future_id\<close>.\<close>

definition future_row :: "string \<Rightarrow> hash \<Rightarrow> hash" where
  "future_row fid data = AList.update ''future_id''
     (if opt_truthy (map_of data ''id'') then the (map_of data ''id'') else Raw fid) data"

definition read_futures :: "string list \<Rightarrow> redis \<Rightarrow> hash list" where
  "read_futures fids r = concat (map (\<lambda>fid. let data = rd_hgetall (''future:'' @ fid) r in
     if data = [] then [] else [future_row fid data]) fids)"

text \<open>\<open>key.split(":")[1]\<close> of a key \<open>future:...\<close>.\<close>

definition key_future :: "string \<Rightarrow> string" where
  "key_future key = takeWhile (\<lambda>c. c \<noteq> CHR '':'') (drop 7 key)"

definition future_keys :: "redis \<Rightarrow> string list" where
  "future_keys r = filter (\<lambda>k. \<not> suffix '':children'' k \<and> \<not> suffix '':consumers'' k) (rd_scan ''future:'' r)"

text \<open>\<open>_pull_telemetry\<close>: the rows not yet queued finished, and what is left of \<open>finished\<close>.\<close>

definition pull_telemetry :: "string list \<Rightarrow> redis \<Rightarrow> hash list \<times> string list" where
  "pull_telemetry finished r =
     (let keys = future_keys r; present = map key_future keys in
      (concat (map (\<lambda>k. let fid = key_future k; data = rd_hgetall k r in
          if fid \<in> set finished \<or> data = [] then [] else [future_row fid data]) keys),
       filter (\<lambda>fid. fid \<in> set present) finished))"

definition queue_rows :: "hash list \<Rightarrow> string \<Rightarrow> unit gstep" where
  "queue_rows rows h = (if rows = [] then ret () else
     bnd (read_st (\<lambda>g. (g_prices g, redis_at g h, project_id g))) (\<lambda>(prices, redis, project).
     bnd (with_queue (trace_write_rows prices redis project rows)) (\<lambda>_.
     with_queue (log_write_rows project rows))))"

text \<open>\<open>send_telemetry\<close> for one machine; \<open>g_finished\<close> holds each machine's set.\<close>

definition finished_of :: "gc \<Rightarrow> string \<Rightarrow> string list" where
  "finished_of g h = (case map_of (g_finished g) h of None \<Rightarrow> [] | Some fs \<Rightarrow> fs)"

definition set_finished :: "string \<Rightarrow> string list \<Rightarrow> unit gstep" where
  "set_finished h fs = modify_st (\<lambda>g. g\<lparr>g_finished := AList.update h fs (g_finished g)\<rparr>)"

definition send_telemetry :: "string \<Rightarrow> hash list gstep" where
  "send_telemetry h =
     bnd (read_st (\<lambda>g. finished_of g h)) (\<lambda>finished.
     bnd (on_world (ask h (pull_telemetry finished))) (\<lambda>(rows, still).
     bnd (set_finished h still) (\<lambda>_.
     bnd (queue_rows rows h) (\<lambda>_.
     bnd (set_finished h (remdups (still @ concat (map (\<lambda>row.
       if opt_truthy (map_of row ''finished_at'') then [raw_str (the (map_of row ''future_id''))] else []) rows)))) (\<lambda>_.
     ret rows)))))"

section \<open>Delivering requests\<close>

definition futures_key :: "string \<Rightarrow> string" where
  "futures_key rid = ''request:'' @ rid @ '':futures''"

definition marker_key :: "string \<Rightarrow> string" where
  "marker_key rid = ''telemetry:delivered:'' @ rid"

text \<open>Every future of these requests, over all machines.\<close>

definition read_members :: "string list \<Rightarrow> string \<Rightarrow> (string \<times> string) list gstep" where
  "read_members rids h = on_world (ask h (\<lambda>r. concat (map (\<lambda>rid. map (Pair rid) (rd_smembers (futures_key rid) r)) rids)))"

definition futures_of :: "string list \<Rightarrow> string list \<Rightarrow> (string \<times> string) list gstep" where
  "futures_of hosts rids =
     bnd (map_each hosts (read_members rids)) (\<lambda>pss.
     ret (concat pss))"

text \<open>\<open>all(redis_client.get(marker) for redis_client in redis_clients)\<close>, which stops at the first that
  has none.\<close>

fun all_marked :: "string \<Rightarrow> string list \<Rightarrow> bool gstep" where
  "all_marked rid [] = ret True"
| "all_marked rid (h # hs) = bnd (on_world (ask h (rd_get (marker_key rid)))) (\<lambda>m.
     if opt_truthy m then all_marked rid hs else ret False)"

fun marked_among :: "string list \<Rightarrow> string list \<Rightarrow> string list gstep" where
  "marked_among hosts [] = ret []"
| "marked_among hosts (rid # rids) = bnd (all_marked rid hosts) (\<lambda>m.
     bnd (marked_among hosts rids) (\<lambda>ms. ret (if m then rid # ms else ms)))"

text \<open>The ended futures among the rows, with their requests.\<close>

definition terminal_of :: "string list \<Rightarrow> hash list \<Rightarrow> (string \<times> string) list" where
  "terminal_of pending rows = concat (map (\<lambda>row. case (map_of row ''request_id'', map_of row ''future_id'') of
       (Some (Raw rid), Some (Raw fid)) \<Rightarrow> if rid \<in> set pending \<and> is_finished row then [(rid, fid)] else []
     | _ \<Rightarrow> []) rows)"

definition collect :: "string list \<Rightarrow> string list \<Rightarrow> string \<Rightarrow> (string \<times> string) list gstep" where
  "collect wanted pending h =
     bnd (on_world (ask h (read_futures wanted))) (\<lambda>rows.
     bnd (queue_rows rows h) (\<lambda>_.
     ret (terminal_of pending rows)))"

definition others_act :: "cenv \<Rightarrow> unit gstep" where
  "others_act cenv = modify_st (\<lambda>g. g\<lparr>g_world := c_meanwhile cenv (g_world g)\<rparr>)"

definition mark_delivered :: "string list \<Rightarrow> string \<Rightarrow> unit gstep" where
  "mark_delivered delivered h = for_each delivered (\<lambda>rid.
     on_world (tell h (\<lambda>r. snd (rd_setnx (marker_key rid) (Doc (VInt 1)) r))))"

definition settled_requests :: "string list \<Rightarrow> string list \<Rightarrow> (string \<times> string) list \<Rightarrow> (string \<times> string) list \<Rightarrow> string list \<times> string list" where
  "settled_requests rids marked terminal expected =
     (let gone = filter (\<lambda>rid. rid \<notin> fst ` set expected) rids;
          delivered = filter (\<lambda>rid. rid \<notin> set gone \<and>
            (rid \<in> set marked \<or> (\<forall>e\<in>set expected. fst e = rid \<longrightarrow> e \<in> set terminal))) rids
      in (delivered, gone))"

definition deliver_completed_requests :: "cenv \<Rightarrow> string list \<Rightarrow> string list \<Rightarrow> (string list \<times> string list) gstep" where
  "deliver_completed_requests cenv hosts rids =
     (if rids = [] then ret ([], [])
      else bnd (marked_among hosts rids) (\<lambda>marked.
        let pending = filter (\<lambda>rid. rid \<notin> set marked) rids in
        bnd (if pending = [] then ret [] else futures_of hosts pending) (\<lambda>wanted.
        bnd (map_each hosts (collect (remdups (map snd wanted)) pending)) (\<lambda>terminal.
        bnd (others_act cenv) (\<lambda>_.
        bnd (futures_of hosts rids) (\<lambda>expected.
        let (delivered, gone) = settled_requests rids marked (concat terminal) expected in
        bnd (for_each hosts (mark_delivered delivered)) (\<lambda>_.
        ret (delivered, gone))))))))"

section \<open>Writes keep what is stored\<close>

definition kept_row :: "rtext \<Rightarrow> gc \<Rightarrow> bool" where
  "kept_row k g \<longleftrightarrow> stored (q_traces (g_queue g)) k"

lemma keeps_with_queue:
  "(\<And>g q. P g \<Longrightarrow> f (g_queue g) = Inr q \<Longrightarrow> P (g\<lparr>g_queue := q\<rparr>)) \<Longrightarrow> keeps P (with_queue f)"
  by (auto simp: keeps_def with_queue_run split: sum.split)

lemma trace_write_stored:
  "trace_write_rows prices redis project rows q = Inr q' \<Longrightarrow> stored (q_traces q) k \<Longrightarrow> stored (q_traces q') k"
  by (cases "put_traces prices redis project rows (q_traces q)") (auto simp: trace_write_rows_def intro: put_traces_stored)

lemma log_write_traces: "log_write_rows project rows q = Inr q' \<Longrightarrow> q_traces q' = q_traces q"
  by (cases "put_logs project rows (q_logs q)") (auto simp: log_write_rows_def)

lemma queue_rows_kept: "keeps (kept_row k) (queue_rows rows h)"
  unfolding queue_rows_def
  by (intro keeps_if keeps_bnd keeps_ret keeps_read keeps_case_prod keeps_with_queue)
    (auto simp: kept_row_def log_write_traces intro: trace_write_stored)

lemma queue_rows_world: "keeps (\<lambda>g. g_world g = w) (queue_rows rows h)"
  unfolding queue_rows_def
  by (intro keeps_if keeps_bnd keeps_ret keeps_read keeps_case_prod keeps_with_queue) auto

lemma queue_rows_stores:
  assumes "queue_rows rows h g = (Inr (), g')" "row \<in> set rows" "is_finished row" "timed row"
    and "map_of row ''request_id'' = Some (Raw rid)" "rid \<noteq> []" "map_of row ''future_id'' = Some (Raw fid)" "fid \<noteq> []"
  shows "kept_row (Raw fid) g'"
proof -
  obtain q where q: "trace_write_rows (g_prices g) (redis_at g h) (project_id g) rows (g_queue g) = Inr q"
    and l: "with_queue (log_write_rows (project_id g) rows) (g\<lparr>g_queue := q\<rparr>) = (Inr (), g')"
    using assms(1,2) by (auto simp: queue_rows_def bnd_run read_run with_queue_run split: if_splits sum.splits)
  then obtain t where t: "put_traces (g_prices g) (redis_at g h) (project_id g) rows (q_traces (g_queue g)) = Inr t" "q_traces q = t"
    by (cases "put_traces (g_prices g) (redis_at g h) (project_id g) rows (q_traces (g_queue g))") (auto simp: trace_write_rows_def)
  have "stored t (Raw fid)"
  proof (rule put_traces_stores[OF t(1) assms(2)])
    show "ended cells" if "trace_row (g_prices g) (redis_at g h) (project_id g) row = Inr (Some (Raw fid, cells))" for cells
      using that assms(3,4) by (rule trace_row_ended)
    show "\<exists>cells. trace_row (g_prices g) (redis_at g h) (project_id g) row = Inr (Some (Raw fid, cells)) \<or>
        trace_row (g_prices g) (redis_at g h) (project_id g) row = Inl (case trace_row (g_prices g) (redis_at g h) (project_id g) row of Inl e \<Rightarrow> e)"
    proof (cases "trace_row (g_prices g) (redis_at g h) (project_id g) row")
      case (Inr o1)
      have "o1 \<noteq> None" using Inr assms(5-8)
        by (auto simp: trace_row_def opt_truthy_def text_truthy_def Let_def elim!: res_bnd_InrE split: prod.splits)
      then obtain k cells where "o1 = Some (k, cells)" by (cases o1) auto
      with Inr trace_row_shape[of "g_prices g" "redis_at g h" "project_id g" row k cells] assms(7) show ?thesis by auto
    qed simp
  qed
  moreover have "q_traces (g_queue g') = t"
    using l t(2) by (auto simp: with_queue_run log_write_traces split: if_splits sum.splits)
  ultimately show ?thesis by (simp add: kept_row_def)
qed

section \<open>Reads change nothing\<close>

lemma futures_of_keeps: "keeps P (futures_of hosts rids)"
  unfolding futures_of_def read_members_def by (intro pres_intros)

lemma all_marked_keeps: "keeps P (all_marked rid hs)"
  by (induction hs) (auto intro!: pres_intros split del: if_split)

lemma marked_among_keeps: "keeps P (marked_among hosts rids)"
  by (induction rids) (auto intro!: pres_intros all_marked_keeps)

lemma keeps_same: "keeps (\<lambda>x. x = g) m \<Longrightarrow> snd (m g) = g"
  by (simp add: keeps_def)

lemma same_run: "keeps (\<lambda>x. x = g) m \<Longrightarrow> (\<And>r. m g = (r, g) \<Longrightarrow> P) \<Longrightarrow> P"
  by (cases "m g") (simp add: keeps_def)

lemma futures_of_same: "futures_of hosts rids g = (r, g') \<Longrightarrow> g' = g"
  using keeps_same[OF futures_of_keeps] by (metis snd_conv)

lemma marked_among_same: "marked_among hosts rids g = (r, g') \<Longrightarrow> g' = g"
  using keeps_same[OF marked_among_keeps] by (metis snd_conv)

lemma collect_kept: "keeps (kept_row k) (collect wanted pending h)"
  unfolding collect_def by (intro pres_intros queue_rows_kept)

lemma collect_world: "keeps (\<lambda>g. g_world g = w) (collect wanted pending h)"
  unfolding collect_def by (intro pres_intros queue_rows_world)

section \<open>A marked request is stored\<close>

text \<open>No future in this Redis ended at NaN.\<close>

definition all_timed :: "world \<Rightarrow> string list \<Rightarrow> bool" where
  "all_timed w hosts \<longleftrightarrow> (\<forall>h\<in>set hosts. \<forall>fid. timed (rd_hgetall (''future:'' @ fid) (w_servers w h)))"

lemma timed_row: "timed data \<Longrightarrow> timed (future_row fid data)"
  by (simp add: timed_def future_row_def update_conv')

lemma collect_stores:
  assumes "collect wanted pending h g = (Inr terminal, g')" "(rid, fid) \<in> set terminal" "rid \<noteq> []" "fid \<noteq> []"
    and "all_timed (g_world g) hosts" "h \<in> set hosts"
  shows "kept_row (Raw fid) g' \<and> rid \<in> set pending"
proof -
  obtain rows where up: "\<not> w_down (g_world g) h" "rows = read_futures wanted (w_servers (g_world g) h)"
    and q: "queue_rows rows h g = (Inr (), g')" and t: "terminal = terminal_of pending rows"
    using assms(1) by (auto simp: collect_def ret_run elim!: bnd_InrE simp: on_world_ask_run split: if_splits)
  from assms(2) t obtain row where row: "row \<in> set rows" "map_of row ''request_id'' = Some (Raw rid)"
    "map_of row ''future_id'' = Some (Raw fid)" "rid \<in> set pending" "is_finished row"
    by (auto simp: terminal_of_def split: option.splits rtext.splits if_splits)
  from row(1) up(2) obtain f where "row = future_row f (rd_hgetall (''future:'' @ f) (w_servers (g_world g) h))"
    by (auto simp: read_futures_def Let_def split: if_splits)
  then have "timed row" using assms(5,6) timed_row by (auto simp: all_timed_def)
  from queue_rows_stores[OF q row(1) row(5) this row(2) assms(3) row(3) assms(4)] row(4) show ?thesis by simp
qed

lemma collects_store:
  assumes "map_each hs (collect wanted pending) g = (Inr ts, g')" "(rid, fid) \<in> set (concat ts)" "rid \<noteq> []" "fid \<noteq> []"
    and "all_timed (g_world g) hosts" "set hs \<subseteq> set hosts"
  shows "kept_row (Raw fid) g' \<and> rid \<in> set pending"
  using assms(1,2,5,6)
proof (induction hs arbitrary: g ts)
  case (Cons h hs)
  from Cons.prems(1) obtain t g1 ts' where c: "collect wanted pending h g = (Inr t, g1)"
    "map_each hs (collect wanted pending) g1 = (Inr ts', g')" "ts = t # ts'"
    by (auto simp: ret_run elim!: bnd_InrE)
  have w: "g_world g1 = g_world g"
    using keepsD[OF collect_world[of "g_world g" wanted pending h], of g] c(1) by simp
  show ?case
  proof (cases "(rid, fid) \<in> set t")
    case True
    with Cons.prems c(1) assms(3,4) have "kept_row (Raw fid) g1 \<and> rid \<in> set pending"
      using collect_stores[OF c(1) True assms(3,4), of hosts] by simp
    moreover have "keeps (kept_row (Raw fid)) (map_each hs (collect wanted pending))"
      by (intro keeps_map_each collect_kept)
    ultimately show ?thesis using keepsD[of "kept_row (Raw fid)" "map_each hs (collect wanted pending)" g1] c(2) by simp
  next
    case False
    with Cons.prems c(3) w show ?thesis by (intro Cons.IH[OF c(2)]) auto
  qed
qed (simp add: ret_def)

lemma collects_world: "map_each hs (collect wanted pending) g = (r, g') \<Longrightarrow> g_world g' = g_world g"
  using keepsD[OF keeps_map_each[of hs "\<lambda>x. g_world x = g_world g" "collect wanted pending"], of g] collect_world by simp

definition marker_at :: "string \<Rightarrow> string \<Rightarrow> world \<Rightarrow> rtext option" where
  "marker_at rid h w = rd_get (marker_key rid) (w_servers w h)"

definition members_at :: "string \<Rightarrow> string \<Rightarrow> world \<Rightarrow> string set" where
  "members_at rid h w = set (rd_smembers (futures_key rid) (w_servers w h))"

lemma read_members_run:
  "read_members rids h g = (if w_down (g_world g) h then (Inl (RedisError h), g)
     else (Inr (concat (map (\<lambda>rid. map (Pair rid) (rd_smembers (futures_key rid) (w_servers (g_world g) h))) rids)), g))"
  by (simp add: read_members_def on_world_ask_run)

lemma all_members:
  "map_each hs (read_members rids) g = (Inr pss, g') \<Longrightarrow>
   set (concat pss) = {(rid, fid). rid \<in> set rids \<and> (\<exists>h\<in>set hs. fid \<in> members_at rid h (g_world g))}"
proof (induction hs arbitrary: pss g')
  case (Cons h hs)
  then obtain t g1 ts where ts: "read_members rids h g = (Inr t, g1)" "map_each hs (read_members rids) g1 = (Inr ts, g')" "pss = t # ts"
    by (auto simp: ret_run elim!: bnd_InrE)
  have t: "g1 = g" "t = concat (map (\<lambda>rid. map (Pair rid) (rd_smembers (futures_key rid) (w_servers (g_world g) h))) rids)"
    using ts(1) by (auto simp: read_members_run split: if_splits)
  from Cons.IH[OF ts(2)[unfolded t(1)]] show ?case
    unfolding ts(3) t(2) concat.simps set_append by (auto simp: members_at_def)
qed (simp add: ret_run)

lemma futures_of_members:
  assumes "futures_of hosts rids g = (Inr pairs, g')"
  shows "set pairs = {(rid, fid). rid \<in> set rids \<and> (\<exists>h\<in>set hosts. fid \<in> members_at rid h (g_world g))}"
proof -
  obtain pss where "map_each hosts (read_members rids) g = (Inr pss, g')" "pairs = concat pss"
    using assms by (auto simp: futures_of_def ret_run elim!: bnd_InrE)
  then show ?thesis using all_members by simp
qed

lemma all_marked_True: "all_marked rid hs g = (Inr True, g') \<Longrightarrow> h \<in> set hs \<Longrightarrow> opt_truthy (marker_at rid h (g_world g))"
  by (induction hs arbitrary: g g')
    (auto simp: ret_run on_world_ask_run marker_at_def elim!: bnd_InrE split: if_splits)

lemma marked_among_all:
  "marked_among hosts rids g = (Inr ms, g') \<Longrightarrow> rid \<in> set ms \<Longrightarrow> h \<in> set hosts \<Longrightarrow> opt_truthy (marker_at rid h (g_world g))"
proof (induction rids arbitrary: ms g')
  case (Cons x rids)
  from Cons.prems(1) obtain m g1 ms' where m: "all_marked x hosts g = (Inr m, g1)" "marked_among hosts rids g1 = (Inr ms', g')"
    "ms = (if m then x # ms' else ms')"
    by (auto simp: ret_run elim!: bnd_InrE)
  have "g1 = g" using keeps_same[OF all_marked_keeps, of x hosts g] m(1) by simp
  with m Cons all_marked_True[of x hosts g g1 h] show ?case by (cases "rid = x \<and> m") (auto split: if_splits)
qed (simp add: ret_run)

lemma mark_delivered_frame:
  "rid \<notin> set delivered \<Longrightarrow> keeps (\<lambda>g. marker_at rid h (g_world g) = v) (mark_delivered delivered h')"
  unfolding mark_delivered_def
  by (intro keeps_for_each keeps_on_world)
    (auto simp: marker_at_def marker_key_def tell_run rd_setnx_def rd_set_opts_def rd_get_def)

lemma mark_delivered_queue: "keeps (kept_row k) (mark_delivered delivered h)"
  unfolding mark_delivered_def by (intro keeps_for_each keeps_on_world) (simp add: kept_row_def)

text \<open>Where a delivery stops: before the other processes' writes, at the second look, or at the marks.\<close>

lemma deliver_cases:
  assumes run: "deliver_completed_requests cenv hosts rids g = (res, g')"
  defines "w \<equiv> c_meanwhile cenv (g_world g)"
  obtains (early) "g_world g' = g_world g" "(\<exists>e. res = Inl e) \<or> res = Inr ([], [])"
    | (unread) e where "g_world g' = w" "res = Inl e"
    | (marking) marked wanted terminal expected delivered gone g3 r6
      where "marked_among hosts rids g = (Inr marked, g)" "g_world g3 = g_world g"
        "map_each hosts (collect wanted (filter (\<lambda>rid. rid \<notin> set marked) rids)) g = (Inr terminal, g3)"
        "futures_of hosts rids (g3\<lparr>g_world := w\<rparr>) = (Inr expected, g3\<lparr>g_world := w\<rparr>)"
        "settled_requests rids marked (concat terminal) expected = (delivered, gone)"
        "for_each hosts (mark_delivered delivered) (g3\<lparr>g_world := w\<rparr>) = (r6, g')"
        "res = (case r6 of Inl e \<Rightarrow> Inl e | Inr _ \<Rightarrow> Inr (delivered, gone))"
proof (cases "rids = []")
  case True
  with run show ?thesis by (intro early) (simp_all add: deliver_completed_requests_def ret_run)
next
  case False
  note start = run[unfolded deliver_completed_requests_def if_not_P[OF False] Let_def]
  obtain r1 where r1: "marked_among hosts rids g = (r1, g)" by (rule same_run[OF marked_among_keeps])
  show ?thesis
  proof (cases r1)
    case (Inr marked)
    let ?pending = "filter (\<lambda>rid. rid \<notin> set marked) rids"
    have "keeps (\<lambda>x. x = g) (if ?pending = [] then ret [] else futures_of hosts ?pending)"
      by (intro pres_intros futures_of_keeps)
    then obtain r2 where r2: "(if ?pending = [] then ret [] else futures_of hosts ?pending) g = (r2, g)"
      by (rule same_run)
    show ?thesis
    proof (cases r2)
      case Inr2: (Inr wanted)
      let ?wanted = "remdups (map snd wanted)"
      obtain r3 g3 where r3: "map_each hosts (collect ?wanted ?pending) g = (r3, g3)" by fastforce
      have w3: "g_world g3 = g_world g" using collects_world[OF r3] .
      show ?thesis
      proof (cases r3)
        case Inr3: (Inr terminal)
        let ?g4 = "g3\<lparr>g_world := w\<rparr>"
        obtain r5 where r5: "futures_of hosts rids ?g4 = (r5, ?g4)" by (rule same_run[OF futures_of_keeps])
        note run5 = start[unfolded bnd_run r1[unfolded Inr] r2[unfolded Inr2] prod.case sum.case r3[unfolded Inr3]
          others_act_def modify_run w3 w_def[symmetric] r5]
        show ?thesis
        proof (cases r5)
          case Inr5: (Inr expected)
          obtain delivered gone where dg: "settled_requests rids marked (concat terminal) expected = (delivered, gone)" by fastforce
          obtain r6 g6 where r6: "for_each hosts (mark_delivered delivered) ?g4 = (r6, g6)" by fastforce
          from run5 have "g6 = g'" "res = (case r6 of Inl e \<Rightarrow> Inl e | Inr _ \<Rightarrow> Inr (delivered, gone))"
            by (auto simp: Inr5 dg bnd_run r6 ret_run split: sum.splits)
          with r1 Inr r3 Inr3 w3 r5 Inr5 dg r6 show ?thesis by (intro marking) simp_all
        next
          case (Inl e)
          with run5 show ?thesis by (intro unread[of e]) auto
        qed
      next
        case (Inl e)
        with start w3 show ?thesis by (intro early) (auto simp: bnd_run r1[unfolded Inr] r2[unfolded Inr2] r3)
      qed
    next
      case (Inl e)
      with start show ?thesis by (intro early) (auto simp: bnd_run r1[unfolded Inr] r2)
    qed
  next
    case (Inl e)
    with start show ?thesis by (intro early) (auto simp: bnd_run r1)
  qed
qed

text \<open>C21: a request gets its delivered marker only when the telemetry of every future any machine then
  lists for it is in the export queue, ended: if a delivery leaves a marker that neither it found
  nor the other processes wrote, every such future has its ended row. This holds wherever the
  delivery stops, with servers or the database failing in any place, and with the other processes
  adding futures while it runs.\<close>

theorem delivered_means_stored:
  assumes "deliver_completed_requests cenv hosts rids g = (res, g')" "all_timed (g_world g) hosts" "rid \<noteq> []"
    and "h \<in> set hosts" "marker_at rid h (g_world g) = None"
    and "marker_at rid h' (g_world g') \<noteq> marker_at rid h' (g_world g)"
    and "marker_at rid h' (g_world g') \<noteq> marker_at rid h' (c_meanwhile cenv (g_world g))"
    and "h'' \<in> set hosts" "fid \<in> members_at rid h'' (c_meanwhile cenv (g_world g))" "fid \<noteq> []"
  shows "stored (q_traces (g_queue g')) (Raw fid)"
  using assms(1)
proof (cases rule: deliver_cases)
  case (marking marked wanted terminal expected delivered gone g3 r6)
  let ?g4 = "g3\<lparr>g_world := c_meanwhile cenv (g_world g)\<rparr>"
  have d: "rid \<in> set delivered"
  proof (rule ccontr)
    assume "rid \<notin> set delivered"
    from keepsD[OF keeps_for_each[of hosts "\<lambda>x. marker_at rid h' (g_world x) = marker_at rid h' (g_world ?g4)" "mark_delivered delivered",
        OF mark_delivered_frame[OF this]], of ?g4] marking(6) assms(7) show False by simp
  qed
  have "(rid, fid) \<in> set expected"
    using futures_of_members[OF marking(4)] assms(8,9) d marking(5) by (auto simp: settled_requests_def Let_def)
  moreover have "rid \<notin> set marked"
    using marked_among_all[OF marking(1) _ assms(4), of rid] assms(5) by (auto simp: opt_truthy_def)
  ultimately have "(rid, fid) \<in> set (concat terminal)"
    using d marking(5) by (fastforce simp: settled_requests_def Let_def)
  then have "kept_row (Raw fid) g3" using collects_store[OF marking(3) _ assms(3,10,2)] by simp
  then have "kept_row (Raw fid) ?g4" by (simp add: kept_row_def)
  then show ?thesis
    using keepsD[OF keeps_for_each[of hosts "kept_row (Raw fid)" "mark_delivered delivered", OF mark_delivered_queue], of ?g4] marking(6)
    by (simp add: kept_row_def)
qed (use assms(6,7) in simp_all)

text \<open>A finished request on this machine's Redis; other processes drop its future meanwhile, or do nothing.\<close>

definition delivery_redis :: "(string \<Rightarrow> string list) \<Rightarrow> redis" where
  "delivery_redis sets = empty_redis\<lparr>rd_sets := sets,
     rd_hashes := [(''future:f'', [(''request_id'', Raw ''r''), (''finished_at'', Doc (VFloat (Fin 3)))]),
       (instance_key ''a-1'', [(''address'', Raw ''a-1:1'')])]\<rparr>"

definition delivery_gc :: "(string \<Rightarrow> string list) \<Rightarrow> gc" where
  "delivery_gc sets = \<lparr>g_world = launch_world\<lparr>w_servers := (\<lambda>_. delivery_redis sets), w_clients := [LOCAL], w_now := 100\<rparr>,
     g_queue = init_db, g_db_down = False, g_prices = \<lparr>token_cost_by_model_id = [], hourly_cost_by_machine_type = []\<rparr>,
     g_fetched = VDict [], g_finished = [], g_last_status = [], g_sent_at = [], g_cleanups = [], g_running = True,
     g_stopping = False, g_collectors = [], g_redis_containers = [], g_supervisor = new_supervisor\<rparr>"

definition delivery_cenv :: "(world \<Rightarrow> world) \<Rightarrow> cenv" where
  "delivery_cenv f = \<lparr>c_env = demo_env, c_environ = (\<lambda>_. None), c_cleanup_answers = (\<lambda>_ _. True), c_meanwhile = f,
     c_spawn_fails = (\<lambda>_. False)\<rparr>"

definition one_future :: "string \<Rightarrow> string list" where
  "one_future = (\<lambda>_. [])(futures_key ''r'' := [''f''], ''request:completed'' := [''r''])"

theorem delivered_means_stored_witness:
  "stored (q_traces (g_queue (snd (deliver_completed_requests (delivery_cenv id) [LOCAL] [''r''] (delivery_gc one_future))))) (Raw ''f'')"
proof -
  let ?run = "deliver_completed_requests (delivery_cenv id) [LOCAL] [''r''] (delivery_gc one_future)"
  have marker: "marker_at ''r'' LOCAL (g_world (snd ?run)) = Some (Doc (VInt 1))" by code_simp
  have before: "marker_at ''r'' LOCAL (g_world (delivery_gc one_future)) = None" by code_simp
  have member: "members_at ''r'' LOCAL (g_world (delivery_gc one_future)) = {''f''}" by code_simp
  have "all_timed (g_world (delivery_gc one_future)) [LOCAL]"
    by (simp add: all_timed_def delivery_gc_def delivery_redis_def rd_hgetall_def timed_def)
  from delivered_means_stored[OF _ this, of "delivery_cenv id" "[''r'']" "fst ?run" "snd ?run" "''r''" LOCAL LOCAL LOCAL "''f''"]
    marker before member
  show ?thesis by (simp add: delivery_cenv_def)
qed

end
