(* ===== verification/Controller_Polling.thy ===== *)
theory Controller_Polling
  imports Scaling Telemetry_Delivery
begin

text \<open>
  The polling loop of the Global Controller (\<open>run\<close> of \<open>controller/global_controller.py\<close> and what it
  calls): each replica's metrics and status are read from its machine's Redis, recorded as load
  samples and queued for export; then the prompts are copied to the other machines and the scaling
  policy is applied. Replicas and machines are polled one after the other; the hooks do nothing.
\<close>

section \<open>Asking the reconciler\<close>

text \<open>\<open>_request_reconcile\<close>: a failure is logged.\<close>

definition ask_reconcile :: "string \<Rightarrow> unit gstep" where
  "ask_reconcile agent = catch (on_world (tell LOCAL (request_reconcile agent))) (\<lambda>_. ret ())"

text \<open>\<open>CanyonOrchestrator.set_replicas\<close> and \<open>replace_replica\<close>, and the checks around them.\<close>

definition put_desired :: "string \<Rightarrow> int \<Rightarrow> int gstep" where
  "put_desired agent count =
     bnd (on_world (at_server LOCAL (set_desired agent count))) (\<lambda>desired.
     bnd (ask_reconcile agent) (\<lambda>_. ret desired))"

definition spec_of :: "string \<Rightarrow> gc \<Rightarrow> spec option" where
  "spec_of agent g = spec_by_name (w_specs (g_world g)) agent"

definition set_replicas :: "string \<Rightarrow> int \<Rightarrow> int option gstep" where
  "set_replicas agent count =
     bnd (read_st (spec_of agent)) (\<lambda>sp. if sp = None then ret None
       else bnd (put_desired agent count) (\<lambda>d. ret (Some d)))"

definition replace_replica :: "string \<Rightarrow> string \<Rightarrow> string option gstep" where
  "replace_replica agent replica_id =
     bnd (read_st (spec_of agent)) (\<lambda>sp. if sp = None then ret None
       else bnd (on_world (tell LOCAL (request_replace replica_id))) (\<lambda>_.
         bnd (ask_reconcile agent) (\<lambda>_. ret (Some replica_id))))"

text \<open>\<open>_apply_configured_replicas\<close> and the orchestrator's part of it.\<close>

definition configured_counts :: "spec list \<Rightarrow> (string \<times> int) list" where
  "configured_counts specs = fold (\<lambda>sp counts. case replica_count sp of
       None \<Rightarrow> counts | Some c \<Rightarrow> AList.update (spec_name sp) c counts) specs []"

definition apply_configured_replicas :: "unit gstep" where
  "apply_configured_replicas =
     bnd (read_st (\<lambda>g. w_specs (g_world g))) (\<lambda>specs.
     for_each (configured_counts specs) (\<lambda>(agent, count). bnd (set_replicas agent count) (\<lambda>_. ret ())))"

text \<open>\<open>_apply_scaling\<close>.\<close>

definition named_specs :: "gc \<Rightarrow> (string \<times> spec) list" where
  "named_specs g = map (\<lambda>a. (a, the (spec_of a g))) (spec_names (w_specs (g_world g)))"

definition apply_delta :: "string \<times> val \<Rightarrow> unit gstep" where
  "apply_delta d = (case d of (agent, delta) \<Rightarrow>
     bnd (on_world (ask LOCAL (\<lambda>r. get_desired r agent 0))) (\<lambda>current.
     bnd (of_res (res_bnd (py_add (VInt current) delta) py_int_of)) (\<lambda>count.
     bnd (set_replicas agent count) (\<lambda>_. ret ()))))"

definition apply_scaling :: "unit gstep" where
  "apply_scaling =
     bnd (read_st named_specs) (\<lambda>specs.
     bnd (on_world (ask LOCAL (\<lambda>r. scale r specs))) (\<lambda>res.
     bnd (of_res res) (\<lambda>deltas. for_each deltas apply_delta)))"

section \<open>Samples\<close>

definition poll_metrics_key :: "string \<Rightarrow> string" where
  "poll_metrics_key a = ''controller:'' @ a @ '':metrics''"

text \<open>\<open>int(metrics.get(field, 0))\<close>.\<close>

definition counter_of :: "hash \<Rightarrow> string \<Rightarrow> exn + val" where
  "counter_of metrics field = (case map_of metrics field of
       None \<Rightarrow> Inr (VInt 0)
     | Some t \<Rightarrow> (case int_text t of None \<Rightarrow> Inl (ValueError field) | Some i \<Rightarrow> Inr (VInt i)))"

definition COUNTERS :: "string list" where
  "COUNTERS = [''requests_served'', ''full_failures'', ''requests_completed'', ''queue_time_ms_total'', ''execution_ms_total'']"

definition counters_of :: "hash \<Rightarrow> exn + dict" where
  "counters_of metrics = res_all (\<lambda>f. res_bnd (counter_of metrics f) (\<lambda>v. Inr (f, v))) COUNTERS"

definition load_sample :: "string \<Rightarrow> val \<Rightarrow> hash \<Rightarrow> val \<Rightarrow> exn + dict" where
  "load_sample agent previous metrics observed_at =
     res_bnd (counters_of metrics) (\<lambda>counters.
     res_bnd (counter_of metrics ''queue_length'') (\<lambda>queue.
     res_bnd (per_minute previous ''requests_completed'' (dget counters ''requests_completed'') observed_at) (\<lambda>requests.
     res_bnd (per_minute previous ''full_failures'' (dget counters ''full_failures'') observed_at) (\<lambda>failures.
     res_bnd (mean_since previous counters ''queue_time_ms_total'' ''requests_completed'') (\<lambda>queued.
     res_bnd (mean_since previous counters ''execution_ms_total'' ''requests_completed'') (\<lambda>executed.
     Inr (replica_sample (VStr agent) queue (dget counters ''requests_served'') (dget counters ''full_failures'')
       (dget counters ''requests_completed'') (dget counters ''queue_time_ms_total'') (dget counters ''execution_ms_total'')
       requests failures queued executed observed_at)))))))"

definition clock :: "gc \<Rightarrow> val" where "clock g = VFloat (Fin (w_now (g_world g)))"

definition record_replica_sample :: "hash \<Rightarrow> hash \<Rightarrow> dict gstep" where
  "record_replica_sample replica metrics =
     bnd (of_res (need replica ''replica_id'')) (\<lambda>rid. let key = load_samples_key (raw_str rid) in
     bnd (on_world (ask LOCAL (\<lambda>r. latest r key))) (\<lambda>res.
     bnd (of_res res) (\<lambda>previous.
     bnd (read_st clock) (\<lambda>now.
     bnd (of_res (load_sample (fld replica ''agent_name'') previous metrics now)) (\<lambda>s.
     bnd (on_world (tell LOCAL (push_sample key s))) (\<lambda>_. ret s))))))"

text \<open>The sample of an agent from those of its replicas.\<close>

definition agent_load :: "int \<Rightarrow> dict list \<Rightarrow> val \<Rightarrow> exn + dict" where
  "agent_load desired samples observed_at = (let running = int (length samples); vs = map VDict samples in
     res_bnd (res_all (\<lambda>s. need s ''requests_per_minute'') samples) (\<lambda>requests.
     res_bnd (py_sum requests) (\<lambda>total.
     res_bnd (res_bnd (res_all (\<lambda>s. need s ''queue_length'') samples) py_sum) (\<lambda>queue.
     res_bnd (if running = 0 then Inr (VFloat (Fin 0)) else py_div total (VInt running)) (\<lambda>each.
     res_bnd (res_bnd (res_all (\<lambda>s. need s ''failures_per_minute'') samples) py_sum) (\<lambda>failures.
     res_bnd (average vs ''avg_queue_time_ms'') (\<lambda>queued.
     res_bnd (average vs ''avg_execution_ms'') (\<lambda>executed.
     Inr (agent_sample (VInt running) (VInt desired) queue total each failures queued executed observed_at)))))))))"

definition sample_agent :: "dict \<Rightarrow> exn + string" where
  "sample_agent s = res_bnd (need s ''agent_name'') (\<lambda>v. case v of VStr a \<Rightarrow> Inr a | _ \<Rightarrow> Inl (TypeError ''agent_name''))"

definition record_agent_sample :: "(string \<times> dict) list \<Rightarrow> val \<Rightarrow> string \<Rightarrow> unit gstep" where
  "record_agent_sample by_agent observed_at agent =
     bnd (on_world (ask LOCAL (\<lambda>r. get_desired r agent 0))) (\<lambda>desired.
     bnd (of_res (agent_load desired (map snd (filter (\<lambda>(a, _). a = agent) by_agent)) observed_at)) (\<lambda>s.
     on_world (tell LOCAL (push_sample (agent_samples_key agent) s))))"

definition record_agent_samples :: "dict list \<Rightarrow> unit gstep" where
  "record_agent_samples samples =
     bnd (of_res (res_all (\<lambda>s. res_bnd (sample_agent s) (\<lambda>a. Inr (a, s))) samples)) (\<lambda>by_agent.
     bnd (read_st (\<lambda>g. (spec_names (w_specs (g_world g)), clock g))) (\<lambda>(agents, now).
     for_each agents (record_agent_sample by_agent now)))"

section \<open>Polling\<close>

text \<open>A write of metric rows; the database may be locked.\<close>

definition write_metrics :: "sample list \<Rightarrow> unit gstep" where
  "write_metrics samples = bnd (read_st (\<lambda>g. Fin (w_now (g_world g)))) (\<lambda>now.
     with_queue (\<lambda>q. Inr (metric_write_rows now samples q)))"

definition replica_metrics_row :: "hash \<Rightarrow> hash \<Rightarrow> unit gstep" where
  "replica_metrics_row replica metrics =
     bnd (of_res (need replica ''replica_id'')) (\<lambda>rid.
     bnd (read_st project_id) (\<lambda>project.
     write_metrics [\<lparr>s_kind = ''agent'', s_host = fld replica ''private_host'', s_port = map_of replica ''host_port'',
       s_agent_id = Some rid, s_agent_name = map_of replica ''agent_name'', s_project = project, s_metrics = metrics\<rparr>]))"

definition poll_metrics :: "hash \<Rightarrow> string \<Rightarrow> hash gstep" where
  "poll_metrics replica h =
     catch
       (bnd (on_world (ask h (rd_hgetall (poll_metrics_key (fld replica ''address''))))) (\<lambda>metrics.
        bnd (if metrics = [] then ret () else catch (replica_metrics_row replica metrics) (\<lambda>_. ret ())) (\<lambda>_.
        ret metrics)))
       (\<lambda>_. ret [])"

definition poll_status :: "hash \<Rightarrow> string \<Rightarrow> unit gstep" where
  "poll_status replica h = (let a = fld replica ''address'' in
     catch
       (bnd (on_world (ask h (rd_get (status_key a)))) (\<lambda>t.
        let status = (if opt_truthy t then the t else Raw ''unknown'') in
        modify_st (\<lambda>g. g\<lparr>g_last_status := AList.update a status (g_last_status g)\<rparr>)))
       (\<lambda>_. ret ()))"

definition poll_one_replica :: "hash \<Rightarrow> dict option gstep" where
  "poll_one_replica replica =
     bnd (catch
       (bnd (of_res (res_all (need replica) [''agent_name'', ''private_host'', ''host_port''])) (\<lambda>_.
        bnd (on_world (machine_redis_for_replica replica)) (\<lambda>h. ret (Some h))))
       (\<lambda>_. ret None)) (\<lambda>host.
     case host of
       None \<Rightarrow> ret None
     | Some h \<Rightarrow>
         bnd (poll_metrics replica h) (\<lambda>metrics.
         bnd (if metrics = [] then ret None
              else catch (bnd (record_replica_sample replica metrics) (\<lambda>s. ret (Some s))) (\<lambda>_. ret None)) (\<lambda>sample.
         bnd (poll_status replica h) (\<lambda>_. ret sample))))"

definition send_telemetry_per_host :: "unit gstep" where
  "send_telemetry_per_host =
     bnd (read_st clients) (\<lambda>hosts.
     bnd (modify_st (\<lambda>g. g\<lparr>g_finished := filter (\<lambda>(h, _). h \<in> set hosts) (g_finished g)\<rparr>)) (\<lambda>_.
     for_each hosts (\<lambda>h. catch (bnd (send_telemetry h) (\<lambda>_. ret ())) (\<lambda>_. ret ()))))"

text \<open>The machines: this one, and every other a record names.\<close>

definition machine_hosts :: "redis \<Rightarrow> string list" where
  "machine_hosts r = fold (\<lambda>key hosts. case rd_hget key ''private_host'' r of
       Some (Raw h) \<Rightarrow> if h \<noteq> [] \<and> \<not> is_local_host h \<and> h \<notin> set hosts then hosts @ [h] else hosts
     | _ \<Rightarrow> hosts) (rd_scan ''machine_record:'' r) [LOCAL]"

definition poll_machine :: "string \<Rightarrow> sample list gstep" where
  "poll_machine h =
     catch
       (bnd (if h = LOCAL then ret LOCAL
          else bnd (on_world (read_st (\<lambda>w. w_redis_ports w h))) (\<lambda>port.
            on_world (machine_redis_for_replica ((''private_host'', Raw h) #
              (case port of None \<Rightarrow> [] | Some p \<Rightarrow> [(''redis_port'', Doc (VInt p))]))))) (\<lambda>c.
        bnd (on_world (ask c (rd_hgetall (machine_metrics_key h)))) (\<lambda>metrics.
        bnd (read_st project_id) (\<lambda>project.
        ret (if metrics = [] then [] else [\<lparr>s_kind = ''machine'', s_host = h, s_port = None, s_agent_id = None,
          s_agent_name = None, s_project = project, s_metrics = metrics\<rparr>])))))
       (\<lambda>_. ret [])"

definition poll_machine_metrics :: "unit gstep" where
  "poll_machine_metrics =
     bnd (catch (on_world (ask LOCAL machine_hosts)) (\<lambda>_. ret [LOCAL])) (\<lambda>hosts.
     bnd (map_each hosts poll_machine) (\<lambda>rows.
     if concat rows = [] then ret () else catch (write_metrics (concat rows)) (\<lambda>_. ret ())))"

text \<open>The samples of the replicas that are not on their way out.\<close>

definition serving_samples :: "(hash \<times> dict option) list \<Rightarrow> dict list" where
  "serving_samples ps = concat (map (\<lambda>(replica, s). case s of
       Some s \<Rightarrow> if s \<noteq> [] \<and> map_of replica ''draining_at'' = None then [s] else [] | None \<Rightarrow> []) ps)"

definition poll_controllers :: "cenv \<Rightarrow> unit gstep" where
  "poll_controllers cenv =
     bnd (read_st g_running) (\<lambda>running.
     bnd (if running then on_supervisor (check_and_respawn (c_spawn_fails cenv)) else ret ()) (\<lambda>_.
     bnd (on_world (ask LOCAL (\<lambda>r. list_replicas r None))) (\<lambda>replicas.
     bnd (on_world (remove_unused_redis_clients replicas)) (\<lambda>_.
     bnd (map_each replicas poll_one_replica) (\<lambda>samples.
     bnd send_telemetry_per_host (\<lambda>_.
     bnd poll_machine_metrics (\<lambda>_.
     record_agent_samples (serving_samples (zip replicas samples)))))))))"

definition sync_prompts :: "unit gstep" where
  "sync_prompts =
     bnd (on_world (ask LOCAL (rd_get ''prompts:config''))) (\<lambda>payload.
     case payload of
       None \<Rightarrow> ret ()
     | Some t \<Rightarrow> bnd (read_st (\<lambda>g. w_clients (g_world g))) (\<lambda>hosts.
         for_each (filter (\<lambda>h. h \<noteq> LOCAL) hosts) (\<lambda>h. on_world (tell h (rd_set ''prompts:config'' t)))))"

text \<open>One turn of \<open>run\<close>, which then sleeps: each of the three may fail and the others still run.\<close>

definition run_turn :: "cenv \<Rightarrow> unit gstep" where
  "run_turn cenv =
     bnd (catch (poll_controllers cenv) (\<lambda>_. ret ())) (\<lambda>_.
     bnd (catch sync_prompts (\<lambda>_. ret ())) (\<lambda>_.
     bnd (catch apply_scaling (\<lambda>_. ret ())) (\<lambda>_.
     bnd (read_st (\<lambda>g. dget_or (w_config (g_world g)) ''poll_interval'' (VInt 5))) (\<lambda>interval.
     on_world (sleep (case interval of VInt i \<Rightarrow> of_int i | VFloat (Fin q) \<Rightarrow> q | _ \<Rightarrow> 5))))))"

end
