(* ===== verification/Scaling_Loop.thy ===== *)
theory Scaling_Loop
  imports Controller_Polling
begin

text \<open>
  What the polling loop makes of the replica counts: the samples a poll leaves carry the counts then
  in force, so the policy applied after it puts every agent's count between its bounds; and what
  happens when a poll fails and the old samples are applied again.
\<close>

abbreviation here :: "gc \<Rightarrow> redis" where "here g \<equiv> w_servers (g_world g) LOCAL"

abbreviation specs_in :: "gc \<Rightarrow> spec list" where "specs_in g \<equiv> w_specs (g_world g)"

section \<open>The samples of a poll\<close>

lemma agent_samples_key_inj [simp]: "agent_samples_key a = agent_samples_key b \<longleftrightarrow> a = b"
  by (simp add: agent_samples_key_def)

lemma get_desired_frames [simp]:
  "get_desired (push_sample k s r) a d = get_desired r a d"
  "get_desired (request_reconcile b r) a d = get_desired r a d"
  "get_desired (request_replace b r) a d = get_desired r a d"
  by (simp_all add: get_desired_def push_sample_def rd_push_capped_def request_reconcile_def request_replace_def
      rd_get_def rd_sadd_def Let_def)

definition current_sample :: "string \<Rightarrow> redis \<Rightarrow> bool" where
  "current_sample a r \<longleftrightarrow> (\<exists>s rest. rd_lists r (agent_samples_key a) = Doc (VDict s) # rest \<and>
     map_of s ''replicas_expected'' = Some (VInt (get_desired r a 0)))"

lemma agent_load_expected:
  "agent_load desired samples now = Inr s \<Longrightarrow> map_of s ''replicas_expected'' = Some (VInt desired)"
  by (auto simp: agent_load_def Let_def agent_sample_def elim!: res_bnd_InrE)

lemma record_agent_sample_run:
  assumes "record_agent_sample pairs now a g = (Inr (), g')"
  shows "specs_in g' = specs_in g \<and> rd_strs (here g') = rd_strs (here g) \<and> current_sample a (here g') \<and>
    (\<forall>b. current_sample b (here g) \<longrightarrow> current_sample b (here g'))"
proof -
  obtain s where s: "agent_load (get_desired (here g) a 0) (map snd (filter (\<lambda>(x, _). x = a) pairs)) now = Inr s"
    and g': "g' = g\<lparr>g_world := (g_world g)\<lparr>w_servers := (w_servers (g_world g))(LOCAL := push_sample (agent_samples_key a) s (here g))\<rparr>\<rparr>"
    using assms
    by (cases "agent_load (get_desired (here g) a 0) (map snd (filter (\<lambda>(x, _). x = a) pairs)) now")
      (simp_all add: record_agent_sample_def bnd_run of_res_run on_world_run ask_run tell_run split: if_splits)
  have l: "rd_lists (here g') (agent_samples_key a) = Doc (VDict s) # take 3 (rd_lists (here g) (agent_samples_key a))"
    by (simp add: g' push_sample_def rd_push_capped_def WINDOW_LENGTH_def Let_def)
  have "current_sample b (here g')" if "current_sample b (here g)" "b \<noteq> a" for b
    using that by (simp add: current_sample_def g' push_sample_def rd_push_capped_def get_desired_def rd_get_def Let_def)
  moreover have "get_desired (here g') a 0 = get_desired (here g) a 0" by (simp add: g')
  then have "current_sample a (here g')" using l agent_load_expected[OF s] by (simp add: current_sample_def)
  moreover have "rd_strs (here g') = rd_strs (here g)" by (simp add: g' push_sample_def rd_push_capped_def Let_def)
  ultimately show ?thesis by (auto simp: g')
qed

lemma record_each:
  "for_each agents (record_agent_sample pairs now) g = (Inr (), g') \<Longrightarrow>
   specs_in g' = specs_in g \<and> rd_strs (here g') = rd_strs (here g) \<and> (\<forall>a\<in>set agents. current_sample a (here g')) \<and>
   (\<forall>b. current_sample b (here g) \<longrightarrow> current_sample b (here g'))"
proof (induction agents arbitrary: g)
  case (Cons a agents)
  then obtain g1 where g1: "record_agent_sample pairs now a g = (Inr (), g1)" "for_each agents (record_agent_sample pairs now) g1 = (Inr (), g')"
    by (auto elim!: bnd_InrE)
  from record_agent_sample_run[OF g1(1)] Cons.IH[OF g1(2)] show ?case by auto
qed (simp add: ret_run)

lemma record_samples_current:
  assumes "record_agent_samples samples g = (Inr (), g')" "a \<in> spec_name ` set (specs_in g')"
  shows "current_sample a (here g')"
proof -
  obtain pairs where "for_each (spec_names (specs_in g)) (record_agent_sample pairs (clock g)) g = (Inr (), g')"
    using assms(1) by (auto simp: record_agent_samples_def of_res_run read_run elim!: bnd_InrE)
  from record_each[OF this] assms(2) show ?thesis by auto
qed

lemma poll_current:
  assumes "poll_controllers cenv g = (Inr (), g')" "a \<in> spec_name ` set (specs_in g')"
  shows "current_sample a (here g')"
  using assms record_samples_current by (auto simp: poll_controllers_def elim!: bnd_InrE)

lemma sync_here: "sync_prompts g = (r, g') \<Longrightarrow> here g' = here g \<and> specs_in g' = specs_in g"
proof -
  assume "sync_prompts g = (r, g')"
  moreover have "keeps (\<lambda>x. here x = here g \<and> specs_in x = specs_in g) sync_prompts"
    unfolding sync_prompts_def by (intro pres_intros keeps_on_world) (auto simp: tell_run)
  ultimately show ?thesis using keepsD[of "\<lambda>x. here x = here g \<and> specs_in x = specs_in g" sync_prompts g] by simp
qed

section \<open>The counts a decision leads to\<close>

lemma decide_within:
  assumes bounds: "dget p ''min_replicas'' = VInt lo" "dget p ''max_replicas'' = VInt hi" "lo \<le> hi"
    and metric: "dget p ''metric'' = VStr metric"
    and current: "item (hd samples) ''replicas_expected'' = Inr (VInt current)"
    and decided: "decide p samples = Inr delta"
  shows "\<exists>d. delta = VInt d \<and> lo \<le> current + d \<and> current + d \<le> hi"
proof (cases "truthy delta")
  case True
  from decide_spec[OF bounds metric current decided True] show ?thesis by blast
next
  case False
  have "\<not> current < lo" "\<not> hi < current"
    using decided False bounds(3) by (auto simp: decide_def current bounds split: if_splits)
  moreover from this decided have "\<exists>d. delta = VInt d"
    by (auto simp: decide_def current bounds step_of_def elim!: res_bnd_InrE split: if_splits)
  then have "delta = VInt 0" using False by auto
  ultimately show ?thesis by auto
qed

lemma agent_decision_names: "agent_decision r p x = Inr d \<Longrightarrow> map fst d = [] \<or> map fst d = [fst x]"
  by (cases x) (auto simp: agent_decision_def elim!: res_bnd_InrE split: if_splits)

lemma decisions_distinct:
  "res_all (agent_decision r p) specs = Inr dss \<Longrightarrow> distinct (map fst specs) \<Longrightarrow>
   distinct (map fst (concat dss)) \<and> set (map fst (concat dss)) \<subseteq> set (map fst specs)"
proof (induction specs arbitrary: dss)
  case (Cons x specs)
  then obtain d ds where d: "agent_decision r p x = Inr d" "res_all (agent_decision r p) specs = Inr ds" "dss = d # ds"
    by (auto elim!: res_bnd_InrE)
  have one: "map fst d = [] \<or> map fst d = [fst x]"
    using d(1) by (rule agent_decision_names)
  have ih: "distinct (map fst (concat ds))" "set (map fst (concat ds)) \<subseteq> set (map fst specs)"
    using Cons.IH[OF d(2)] Cons.prems(2) by simp_all
  have "fst x \<notin> set (map fst (concat ds))" using ih(2) Cons.prems(2) by auto
  then have "distinct (map fst d @ map fst (concat ds))" "set (map fst d @ map fst (concat ds)) \<subseteq> set (map fst (x # specs))"
    using one ih by (cases "map fst d = []"; simp; blast)+
  then show ?case by (simp only: d(3) concat.simps map_append)
qed simp

text \<open>What the policy asks of an agent whose newest sample has the count in force.\<close>

lemma scale_within:
  assumes "scale r specs = Inr ds" "read_policy r = VDict policy" "valid_policy policy lo hi metric"
    and "(agent, sp) \<in> set specs" "is_agent sp" "distinct (map fst specs)" "current_sample agent r"
  shows "\<exists>d. lo \<le> get_desired r agent 0 + d \<and> get_desired r agent 0 + d \<le> hi \<and> distinct (map fst ds) \<and>
    (if d = 0 then agent \<notin> fst ` set ds else (agent, VInt d) \<in> set ds)"
proof -
  obtain p where w: "whole_counts policy = Inr p" "dget p ''min_replicas'' = VInt lo" "dget p ''max_replicas'' = VInt hi"
    "\<forall>k. k \<noteq> ''min_replicas'' \<and> k \<noteq> ''max_replicas'' \<longrightarrow> dget p k = dget policy k"
    using whole_counts_valid[OF assms(3)] by blast
  have v: "dget policy ''metric'' = VStr metric" "lo \<le> hi" using assms(3) by (simp_all add: valid_policy_def)
  have "dget p ''metric'' = VStr metric" using w(4) v(1) by simp
  note p = w(1-3) this v(2)
  obtain dss where dss: "res_all (agent_decision r p) specs = Inr dss" "ds = concat dss"
    using assms(1,2,3) p(1) policy_error_None[of "VDict policy"]
    by (auto simp: scale_def elim!: res_bnd_InrE split: option.splits)
  obtain d where d: "d \<in> set dss" "agent_decision r p (agent, sp) = Inr d"
    using res_all_list_all2[OF dss(1)] assms(4) by (fastforce simp: list_all2_conv_all_nth in_set_conv_nth)
  obtain s rest where l: "rd_lists r (agent_samples_key agent) = Doc (VDict s) # rest"
    "map_of s ''replicas_expected'' = Some (VInt (get_desired r agent 0))"
    using assms(7) by (auto simp: current_sample_def)
  obtain samples where samples: "read_samples r (agent_samples_key agent) (-1) = Inr samples"
    using d(2) assms(5) by (auto simp: agent_decision_def elim!: res_bnd_InrE)
  then have "rd_lists r (agent_samples_key agent) = map Doc samples" using parsed_docs by (simp add: read_samples_def lrange_all)
  then have "map Doc samples = Doc (VDict s) # rest" using l(1) by simp
  then obtain ss where ss: "samples = VDict s # ss" by (cases samples) auto
  then obtain delta where delta: "decide p samples = Inr delta" "d = (if truthy delta then [(agent, delta)] else [])"
    using d(2) assms(5) samples by (auto simp: agent_decision_def elim!: res_bnd_InrE)
  have "item (hd samples) ''replicas_expected'' = Inr (VInt (get_desired r agent 0))"
    using l(2) by (simp add: ss item_def need_def)
  from decide_within[OF p(2,3,5,4) this delta(1)] obtain n where n: "delta = VInt n"
    "lo \<le> get_desired r agent 0 + n" "get_desired r agent 0 + n \<le> hi" by blast
  have dist: "distinct (map fst ds)" using decisions_distinct[OF dss(1) assms(6)] dss(2) by simp
  have others: "agent \<notin> fst ` set ds" if "n = 0"
  proof
    assume "agent \<in> fst ` set ds"
    then obtain e where "(agent, e) \<in> set (concat dss)" unfolding dss(2) by fastforce
    then obtain y where y: "y \<in> set dss" "(agent, e) \<in> set y" by auto
    obtain x where x: "x \<in> set specs" "agent_decision r p x = Inr y" using res_all_mem[OF dss(1) y(1)] by blast
    have "agent \<in> set (map fst y)" using y(2) by force
    then have "fst x = agent" using agent_decision_names[OF x(2)] by auto
    then have "x = (agent, sp)" using x(1) assms(4,6) by (cases x) (auto dest: eq_key_imp_eq_value)
    with x(2) d(2) delta(2) n(1) that y(2) show False by simp
  qed
  moreover have "(agent, VInt n) \<in> set ds" if "n \<noteq> 0"
    using that n(1) d(1) delta(2) unfolding dss(2) set_concat by (intro UN_I[of d]) auto
  ultimately show ?thesis using n dist by (intro exI[of _ n]) auto
qed

lemma put_desired_run:
  "put_desired a n g = (if w_down (g_world g) LOCAL then (Inl (RedisError LOCAL), g)
     else (Inr (max 0 n), g\<lparr>g_world := (g_world g)\<lparr>w_servers := (w_servers (g_world g))(LOCAL :=
       request_reconcile a (snd (set_desired a n (here g))))\<rparr>\<rparr>))"
  by (simp add: put_desired_def ask_reconcile_def bnd_run on_world_run at_server_run catch_run tell_run ret_run set_desired_def Let_def)

lemma put_desired_here:
  "set_replicas a n g = (Inr res, g') \<Longrightarrow>
   specs_in g' = specs_in g \<and>
   get_desired (here g') b 0 = (if b = a \<and> spec_of a g \<noteq> None then max 0 n else get_desired (here g) b 0)"
  by (auto simp: set_replicas_def put_desired_run bnd_run read_run ret_run get_set_desired split: if_splits)

lemma apply_deltas:
  "for_each ds apply_delta g = (Inr (), g') \<Longrightarrow> distinct (map fst ds) \<Longrightarrow> spec_of a g \<noteq> None \<Longrightarrow>
   specs_in g' = specs_in g \<and>
   (a \<notin> fst ` set ds \<longrightarrow> get_desired (here g') a 0 = get_desired (here g) a 0) \<and>
   (\<forall>d. (a, VInt d) \<in> set ds \<longrightarrow> get_desired (here g') a 0 = max 0 (get_desired (here g) a 0 + d))"
proof (induction ds arbitrary: g)
  case (Cons x ds)
  obtain b delta where x: "x = (b, delta)" by (cases x)
  from Cons.prems obtain g1 where g1: "apply_delta x g = (Inr (), g1)" "for_each ds apply_delta g1 = (Inr (), g')"
    by (auto elim!: bnd_InrE)
  obtain count res where c: "res_bnd (py_add (VInt (get_desired (here g) b 0)) delta) py_int_of = Inr count"
    "set_replicas b count g = (Inr res, g1)"
    using g1(1) by (auto simp: apply_delta_def x on_world_ask_run of_res_run ret_run elim!: bnd_InrE split: if_splits)
  have s1: "specs_in g1 = specs_in g" "spec_of a g1 \<noteq> None"
    using put_desired_here[OF c(2)] Cons.prems(3) by (auto simp: spec_of_def)
  from Cons.IH[OF g1(2) _ s1(2)] Cons.prems(2) have ih: "specs_in g' = specs_in g1"
    "a \<notin> fst ` set ds \<longrightarrow> get_desired (here g') a 0 = get_desired (here g1) a 0"
    "\<forall>d. (a, VInt d) \<in> set ds \<longrightarrow> get_desired (here g') a 0 = max 0 (get_desired (here g1) a 0 + d)" by auto
  show ?case
  proof (cases "b = a")
    case True
    have "get_desired (here g1) a 0 = max 0 (get_desired (here g) a 0 + d)" if "delta = VInt d" for d
      using c(1) put_desired_here[OF c(2), of a] Cons.prems(3) True that by (simp add: py_int_of_def)
    moreover have "a \<notin> fst ` set ds" using Cons.prems(2) x True by auto
    ultimately show ?thesis using ih s1(1) True x by (auto simp: rev_image_eqI)
  next
    case False
    have "get_desired (here g1) a 0 = get_desired (here g) a 0" using put_desired_here[OF c(2), of a] False by simp
    with ih s1(1) False x show ?thesis by auto
  qed
qed (simp add: ret_run)

lemma named_specs_distinct: "distinct (map fst (named_specs g))"
  by (simp add: named_specs_def comp_def spec_names_def)

lemma spec_of_named: "spec_of a g = Some sp \<Longrightarrow> (a, sp) \<in> set (named_specs g)"
  by (force simp: named_specs_def spec_of_def dest: spec_by_name_name)

text \<open>C17: a turn of the polling loop that completes under a valid policy leaves every agent's desired
  count between the policy's bounds, whatever the counts, the samples kept from before and the
  metrics of the replicas were.\<close>

theorem turn_keeps_counts_in_bounds:
  assumes "poll_controllers cenv g = (Inr (), g1)" "sync_prompts g1 = (res, g2)" "apply_scaling g2 = (Inr (), g3)"
    and "read_policy (here g2) = VDict policy" "valid_policy policy lo hi metric"
    and "spec_of agent g2 = Some sp" "is_agent sp"
  shows "lo \<le> get_desired (here g3) agent 0 \<and> get_desired (here g3) agent 0 \<le> hi"
proof -
  have "agent \<in> spec_name ` set (specs_in g1)"
    using assms(6) sync_here[OF assms(2)] by (auto simp: spec_of_def dest: spec_by_name_name)
  from poll_current[OF assms(1) this] have cur: "current_sample agent (here g2)" using sync_here[OF assms(2)] by simp
  obtain ds where ds: "scale (here g2) (named_specs g2) = Inr ds" "for_each ds apply_delta g2 = (Inr (), g3)"
    using assms(3) by (auto simp: apply_scaling_def read_run on_world_ask_run of_res_run elim!: bnd_InrE split: if_splits)
  from scale_within[OF ds(1) assms(4,5) spec_of_named[OF assms(6)] assms(7) named_specs_distinct cur]
  obtain d where d: "lo \<le> get_desired (here g2) agent 0 + d" "get_desired (here g2) agent 0 + d \<le> hi" "distinct (map fst ds)"
    "if d = 0 then agent \<notin> fst ` set ds else (agent, VInt d) \<in> set ds" by blast
  have "1 \<le> lo" using assms(5) by (simp add: valid_policy_def)
  with apply_deltas[OF ds(2) d(3), of agent] d assms(6) show ?thesis by (auto split: if_splits)
qed

text \<open>One agent under the policy of one to three replicas, with seven wanted.\<close>

definition scaled_gc :: "redis \<Rightarrow> gc" where
  "scaled_gc r = (delivery_gc (\<lambda>_. []))\<lparr>g_world := (g_world (delivery_gc (\<lambda>_. [])))\<lparr>w_servers := (\<lambda>_. r),
     w_specs := [[(''name'', VStr ''writer'')]]\<rparr>\<rparr>"

definition over_wanted :: redis where "over_wanted = snd (set_desired ''writer'' 7 scaled)"

lemma demo_valid: "valid_policy demo_policy 1 3 ''queue_length_total''"
  by code_simp

theorem turn_keeps_counts_in_bounds_witness:
  "let cenv = delivery_cenv id; g1 = snd (poll_controllers cenv (scaled_gc over_wanted)); g2 = snd (sync_prompts g1);
       g3 = snd (apply_scaling g2)
   in get_desired (here g1) ''writer'' 0 = 7 \<and> 1 \<le> get_desired (here g3) ''writer'' 0 \<and> get_desired (here g3) ''writer'' 0 \<le> 3"
proof -
  let ?cenv = "delivery_cenv id"
  let ?p = "poll_controllers ?cenv (scaled_gc over_wanted)"
  let ?s = "sync_prompts (snd ?p)"
  let ?a = "apply_scaling (snd ?s)"
  have p: "fst ?p = Inr ()" by code_simp
  have a: "fst ?a = Inr ()" by code_simp
  have d: "get_desired (here (snd ?p)) ''writer'' 0 = 7" by code_simp
  have policy: "read_policy (here (snd ?s)) = VDict demo_policy" by code_simp
  have sp: "spec_of ''writer'' (snd ?s) = Some [(''name'', VStr ''writer'')]" by code_simp
  have "is_agent [(''name'', VStr ''writer'')]" by code_simp
  from turn_keeps_counts_in_bounds[OF _ prod.collapse[symmetric, of ?s] _ policy demo_valid sp this, of ?cenv "scaled_gc over_wanted" "snd ?a"]
    p a d show ?thesis by (simp add: Let_def prod_eq_iff)
qed

section \<open>Old samples\<close>

text \<open>The policy compares the bounds with the count in the newest sample, and adds its step to the count in
  force. While polls fail, the newest sample stays: each turn adds the step again, and the count
  grows past any maximum. Here a replica record without its \<open>private_host\<close> makes every poll fail.\<close>

definition stuck :: "string \<Rightarrow> gc \<Rightarrow> bool" where
  "stuck a g \<longleftrightarrow> \<not> w_down (g_world g) LOCAL \<and> list_all snd (sv_procs (g_supervisor g)) \<and>
     (\<exists>rec\<in>set (list_replicas (here g) None). map_of rec ''private_host'' = None) \<and>
     rd_get ''prompts:config'' (here g) = None \<and> spec_of a g \<noteq> None \<and>
     scale (here g) (named_specs g) = Inr [(a, VInt 1)]"

lemma respawn_nothing: "list_all snd ps \<Longrightarrow> for_each ps (respawn fails) s = (Inr (), s)"
  by (induction ps) (auto simp: respawn_def ret_run bnd_run split: prod.split)

definition wanted :: "string \<Rightarrow> int \<Rightarrow> redis \<Rightarrow> redis" where
  "wanted a n r = request_reconcile a (snd (set_desired a n r))"

lemma wanted_frames:
  "list_replicas (wanted a n r) ag = list_replicas r ag"
  "rd_get ''prompts:config'' (wanted a n r) = rd_get ''prompts:config'' r"
  "scale (wanted a n r) specs = scale r specs"
  "get_desired (wanted a n r) a 0 = max 0 n"
proof -
  show "list_replicas (wanted a n r) ag = list_replicas r ag"
    by (simp add: wanted_def request_reconcile_def set_desired_def list_replicas_def rd_scan_def rd_hgetall_def rd_smembers_def
        rd_set_def rd_set_opts_def Let_def)
  show "rd_get ''prompts:config'' (wanted a n r) = rd_get ''prompts:config'' r"
    by (simp add: wanted_def request_reconcile_def set_desired_def desired_key_def Let_def rd_get_def rd_set_def rd_set_opts_def)
  have "read_policy (wanted a n r) = read_policy r"
    by (simp add: read_policy_def wanted_def request_reconcile_def set_desired_def desired_key_def SCALING_KEY_def Let_def
        rd_get_def rd_set_def rd_set_opts_def)
  moreover have "rd_lists (wanted a n r) (agent_samples_key b) = rd_lists r (agent_samples_key b)" for b
    by (simp add: wanted_def request_reconcile_def set_desired_def agent_samples_key_def WAKE_QUEUE_KEY_def Let_def
        rd_set_def rd_set_opts_def)
  then have "agent_decision (wanted a n r) = agent_decision r"
    by (simp add: fun_eq_iff agent_decision_def read_samples_def rd_lrange_def)
  ultimately show "scale (wanted a n r) specs = scale r specs" by (simp only: scale_def)
  show "get_desired (wanted a n r) a 0 = max 0 n" by (simp add: wanted_def get_set_desired)
qed

lemma stuck_turn:
  assumes "stuck a g"
  shows "stuck a (snd (run_turn cenv g)) \<and>
    get_desired (here (snd (run_turn cenv g))) a 0 = get_desired (here g) a 0 + 1"
proof -
  let ?n = "get_desired (here g) a 0"
  have up: "\<not> w_down (g_world g) LOCAL" and sp: "spec_of a g \<noteq> None" using assms by (simp_all add: stuck_def)
  have respawn: "(if g_running g then on_supervisor (check_and_respawn (c_spawn_fails cenv)) else ret ()) g = (Inr (), g)"
    using assms respawn_nothing by (simp add: stuck_def on_supervisor_run check_and_respawn_def bnd_run read_run ret_run)
  have poll: "poll_controllers cenv g = (Inl (KeyError ''private_host''), g)"
    using assms up unfolding poll_controllers_def bnd_run[of "read_st g_running"] read_run prod.case sum.case
    by (simp add: bnd_run[of "if g_running g then on_supervisor (check_and_respawn (c_spawn_fails cenv)) else ret ()"] respawn)
      (auto simp: bnd_run ask_run on_world_run remove_unused_redis_clients_def raise_run stuck_def)
  have sync: "sync_prompts g = (Inr (), g)"
    using assms by (simp add: sync_prompts_def bnd_run on_world_ask_run ret_run stuck_def)
  let ?g = "g\<lparr>g_world := (g_world g)\<lparr>w_servers := (w_servers (g_world g))(LOCAL := wanted a (?n + 1) (here g))\<rparr>\<rparr>"
  have scaled: "apply_scaling g = (Inr (), ?g)"
    using assms up sp
    by (auto simp: apply_scaling_def bnd_run read_run on_world_ask_run of_res_run stuck_def apply_delta_def set_replicas_def
        put_desired_run ret_run py_int_of_def wanted_def)
  have "\<exists>d. snd (run_turn cenv g) = ?g\<lparr>g_world := (g_world ?g)\<lparr>w_now := d\<rparr>\<rparr>"
    by (intro exI) (simp add: run_turn_def bnd_run catch_run poll sync scaled ret_run read_run on_world_run sleep_def modify_run)
  then obtain d where d: "snd (run_turn cenv g) = ?g\<lparr>g_world := (g_world ?g)\<lparr>w_now := d\<rparr>\<rparr>" by blast
  have "0 \<le> ?n" by (simp add: get_desired_nonneg)
  then show ?thesis using assms unfolding d stuck_def by (simp add: wanted_frames spec_of_def named_specs_def)
qed

lemma old_samples_pass_any_maximum:
  "stuck a g \<Longrightarrow> get_desired (here (((\<lambda>g. snd (run_turn cenv g)) ^^ n) g)) a 0 = get_desired (here g) a 0 + int n"
proof (induction n arbitrary: g)
  case (Suc n)
  from Suc.IH[of "snd (run_turn cenv g)"] stuck_turn[OF Suc.prems] show ?case by (simp add: funpow_Suc_right del: funpow.simps)
qed simp

definition stale :: redis where
  "stale = rd_hset_multiple (instance_key ''writer-1'') [(''address'', Raw ''h:1'')] (snd (set_desired ''writer'' 2 loaded))"

lemma old_samples_example:
  "read_policy stale = VDict demo_policy \<and> valid_policy demo_policy 1 3 ''queue_length_total'' \<and> stuck ''writer'' (scaled_gc stale)"
proof (intro conjI)
  show "read_policy stale = VDict demo_policy" by code_simp
  show "valid_policy demo_policy 1 3 ''queue_length_total''" by (rule demo_valid)
  show "stuck ''writer'' (scaled_gc stale)" by code_simp
qed

section \<open>Prompts\<close>

text \<open>An edit of the prompts reaches the machines up to the first one whose Redis does not answer: the
  copy ends there, and the machines after it keep the old prompts.\<close>

lemma prompts_stop_at_a_dead_machine:
  assumes "\<not> w_down (g_world g) LOCAL" "rd_get ''prompts:config'' (here g) = Some t"
    and "filter (\<lambda>h. h \<noteq> LOCAL) (w_clients (g_world g)) = dead # rest" "w_down (g_world g) dead"
  shows "sync_prompts g = (Inl (RedisError dead), g)"
  using assms by (simp add: sync_prompts_def bnd_run on_world_run ask_run tell_run read_run)

end
