(* ===== verification/Controller_Cleanup.thy ===== *)
theory Controller_Cleanup
  imports Telemetry_Delivery
begin

text \<open>
  The clean-up cycle of the Global Controller (\<open>_trigger_cleanup\<close> of
  \<open>controller/global_controller.py\<close>): finished requests are delivered, those whose futures are gone
  leave \<open>request:completed\<close>, and the others are announced to every replica, again only after a
  while. \<open>g_cleanups\<close> lists the announcements made: the replica's address, the requests and the
  time.
\<close>

definition CLEANUP_RESEND_SECONDS :: rat where "CLEANUP_RESEND_SECONDS = 30"
definition COMPLETED_KEY :: string where "COMPLETED_KEY = ''request:completed''"

text \<open>The requests each machine lists as completed, for the machines that list any.\<close>

definition read_completed :: "string \<Rightarrow> (string \<times> string list) gstep" where
  "read_completed h = bnd (on_world (ask h (rd_smembers COMPLETED_KEY))) (\<lambda>c. ret (h, c))"

definition drain_completed :: "string list \<Rightarrow> string \<times> string list \<Rightarrow> unit gstep" where
  "drain_completed gone hc = (let to_remove = filter (\<lambda>rid. rid \<in> set gone) (snd hc) in
     if to_remove = [] then ret () else on_world (tell (fst hc) (rd_srem COMPLETED_KEY to_remove)))"

text \<open>The delivered requests that are due to be announced, and the memory of announcements without
  those no longer delivered.\<close>

definition forget_sent :: "string list \<Rightarrow> unit gstep" where
  "forget_sent delivered = modify_st (\<lambda>g. g\<lparr>g_sent_at := filter (\<lambda>(rid, _). rid \<in> set delivered) (g_sent_at g)\<rparr>)"

definition is_due :: "(string \<times> rat) list \<Rightarrow> rat \<Rightarrow> string \<Rightarrow> bool" where
  "is_due sent_at now rid \<longleftrightarrow>
     now - (case map_of sent_at rid of None \<Rightarrow> - CLEANUP_RESEND_SECONDS | Some t \<Rightarrow> t) \<ge> CLEANUP_RESEND_SECONDS"

text \<open>One announcement; a replica that does not take it counts as not told.\<close>

definition send_cleanup :: "cenv \<Rightarrow> string list \<Rightarrow> rat \<Rightarrow> hash \<Rightarrow> bool gstep" where
  "send_cleanup cenv rids now replica = (let a = fld replica ''address'' in
     bnd (modify_st (\<lambda>g. g\<lparr>g_cleanups := g_cleanups g @ [(a, rids, now)]\<rparr>)) (\<lambda>_.
     ret (c_cleanup_answers cenv a rids)))"

definition broadcast :: "cenv \<Rightarrow> string list \<Rightarrow> rat \<Rightarrow> unit gstep" where
  "broadcast cenv due now =
     bnd (on_world (ask LOCAL (\<lambda>r. list_replicas r None))) (\<lambda>replicas.
     if replicas = [] then ret ()
     else bnd (map_each replicas (send_cleanup cenv due now)) (\<lambda>told.
       if list_all id told
       then modify_st (\<lambda>g. g\<lparr>g_sent_at := fold (\<lambda>rid. AList.update rid now) due (g_sent_at g)\<rparr>)
       else ret ()))"

definition announce_due :: "cenv \<Rightarrow> string list \<Rightarrow> unit gstep" where
  "announce_due cenv delivered =
     bnd (read_st (\<lambda>g. w_now (g_world g))) (\<lambda>now.
     bnd (forget_sent delivered) (\<lambda>_.
     bnd (read_st (\<lambda>g. filter (is_due (g_sent_at g) now) delivered)) (\<lambda>due.
     if due = [] then ret () else broadcast cenv due now)))"

definition trigger_cleanup :: "cenv \<Rightarrow> unit gstep" where
  "trigger_cleanup cenv =
     bnd (read_st clients) (\<lambda>hosts.
     bnd (map_each hosts read_completed) (\<lambda>by_client.
     let completed_by_client = filter (\<lambda>(h, c). c \<noteq> []) by_client;
         all_completed = remdups (concat (map snd completed_by_client)) in
     if all_completed = [] then ret ()
     else bnd (deliver_completed_requests cenv hosts all_completed) (\<lambda>(delivered, gone).
       bnd (for_each completed_by_client (drain_completed gone)) (\<lambda>_.
       announce_due cenv delivered))))"

text \<open>One round of \<open>_cleanup_loop\<close>: an error is logged and the loop goes on.\<close>

definition cleanup_round :: "cenv \<Rightarrow> unit gstep" where
  "cleanup_round cenv = catch (trigger_cleanup cenv) (\<lambda>_. ret ())"

section \<open>Announcements\<close>

lemma sends_log:
  "\<exists>told. map_each replicas (send_cleanup cenv due now) g =
     (Inr told, g\<lparr>g_cleanups := g_cleanups g @ map (\<lambda>rep. (fld rep ''address'', due, now)) replicas\<rparr>) \<and>
     told = map (\<lambda>rep. c_cleanup_answers cenv (fld rep ''address'') due) replicas"
proof (induction replicas arbitrary: g)
  case (Cons rep replicas)
  from Cons.IH[of "g\<lparr>g_cleanups := g_cleanups g @ [(fld rep ''address'', due, now)]\<rparr>"] show ?case
    by (auto simp: send_cleanup_def Let_def bnd_run modify_run ret_run)
qed (simp add: ret_run)

lemma map_of_fold_update:
  "map_of (fold (\<lambda>rid. AList.update rid now) rids s) rid = (if rid \<in> set rids then Some now else map_of s rid)"
  by (induction rids arbitrary: s) (auto simp: update_conv')

lemma announce_due_cases:
  assumes "announce_due cenv delivered g = (res, g')"
  defines "now \<equiv> w_now (g_world g)"
  defines "due \<equiv> filter (is_due (filter (\<lambda>(rid, _). rid \<in> set delivered) (g_sent_at g)) now) delivered"
  shows "\<exists>replicas. g_cleanups g' = g_cleanups g @ map (\<lambda>rep. (fld rep ''address'', due, now)) replicas \<and>
    (replicas \<noteq> [] \<longrightarrow> due \<noteq> [] \<and> set replicas = set (list_replicas (w_servers (g_world g) LOCAL) None)) \<and>
    g_sent_at g' = (if replicas \<noteq> [] \<and> (\<forall>rep\<in>set replicas. c_cleanup_answers cenv (fld rep ''address'') due)
      then fold (\<lambda>rid. AList.update rid now) due (filter (\<lambda>(rid, _). rid \<in> set delivered) (g_sent_at g))
      else filter (\<lambda>(rid, _). rid \<in> set delivered) (g_sent_at g)) \<and>
    g_world g' = g_world g \<and> g_queue g' = g_queue g"
proof -
  let ?f = "filter (\<lambda>(rid, _). rid \<in> set delivered) (g_sent_at g)" and ?g = "g\<lparr>g_sent_at := filter (\<lambda>(rid, _). rid \<in> set delivered) (g_sent_at g)\<rparr>"
  have run: "announce_due cenv delivered g = (if due = [] then ret () else broadcast cenv due now) ?g"
    by (simp add: announce_due_def bnd_run read_run forget_sent_def modify_run due_def now_def)
  show ?thesis
  proof (cases "due = [] \<or> w_down (g_world g) LOCAL \<or> list_replicas (w_servers (g_world g) LOCAL) None = []")
    case True
    then have "g' = ?g" using assms(1) run by (auto simp: ret_run broadcast_def bnd_run on_world_ask_run split: if_splits)
    then show ?thesis by (intro exI[of _ "[]"]) simp
  next
    case False
    let ?reps = "list_replicas (w_servers (g_world g) LOCAL) None"
    from sends_log[of ?reps cenv due now ?g] False assms(1) run
    have "g' = (if \<forall>rep\<in>set ?reps. c_cleanup_answers cenv (fld rep ''address'') due
        then ?g\<lparr>g_cleanups := g_cleanups g @ map (\<lambda>rep. (fld rep ''address'', due, now)) ?reps,
          g_sent_at := fold (\<lambda>rid. AList.update rid now) due ?f\<rparr>
        else ?g\<lparr>g_cleanups := g_cleanups g @ map (\<lambda>rep. (fld rep ''address'', due, now)) ?reps\<rparr>)"
      by (auto simp: broadcast_def bnd_run on_world_ask_run modify_run ret_run list_all_iff split: if_splits)
    with False show ?thesis by (intro exI[of _ ?reps]) auto
  qed
qed

section \<open>What a delivery leaves alone\<close>

lemma keeps_queue_frame [pres_intros]: "(\<And>g q. P g \<Longrightarrow> P (g\<lparr>g_queue := q\<rparr>)) \<Longrightarrow> keeps P (with_queue f)"
  by (auto simp: keeps_def with_queue_run split: sum.split)

definition sent_as :: "(string \<times> rat) list \<Rightarrow> (string \<times> string list \<times> rat) list \<Rightarrow> gc \<Rightarrow> bool" where
  "sent_as s c g \<longleftrightarrow> g_sent_at g = s \<and> g_cleanups g = c"

lemma sent_as_world [pres_intros]: "keeps (sent_as s c) (on_world m)"
  by (rule keeps_on_world) (simp add: sent_as_def)

lemma sent_as_queue [pres_intros]: "keeps (sent_as s c) (with_queue f)"
  by (rule keeps_queue_frame) (simp add: sent_as_def)

lemma deliver_sent_as: "keeps (sent_as s c) (deliver_completed_requests cenv hosts rids)"
  unfolding deliver_completed_requests_def Let_def others_act_def mark_delivered_def collect_def queue_rows_def
  by (intro pres_intros marked_among_keeps futures_of_keeps keeps_modify) (auto simp: sent_as_def)

lemma drain_sent_as: "keeps (sent_as s c) (drain_completed gone hc)"
  unfolding drain_completed_def Let_def by (intro pres_intros)

lemma trigger_announces:
  assumes "trigger_cleanup cenv g = (res, g')"
  shows "sent_as (g_sent_at g) (g_cleanups g) g' \<or>
    (\<exists>delivered g1 res'. sent_as (g_sent_at g) (g_cleanups g) g1 \<and> announce_due cenv delivered g1 = (res', g'))"
proof -
  let ?P = "sent_as (g_sent_at g) (g_cleanups g)"
  let ?hosts = "clients g"
  obtain r1 where r1: "map_each ?hosts read_completed g = (r1, g)"
    by (rule same_run[of g "map_each ?hosts read_completed"]) (auto intro!: pres_intros simp: read_completed_def)
  have start: "?P g" by (simp add: sent_as_def)
  show ?thesis
  proof (cases r1)
    case (Inl e)
    with assms r1 start show ?thesis by (simp add: trigger_cleanup_def bnd_run read_run)
  next
    case (Inr by_client)
    let ?cc = "filter (\<lambda>(h, c). c \<noteq> []) by_client"
    let ?all = "remdups (concat (map snd ?cc))"
    obtain r2 g2 where r2: "deliver_completed_requests cenv ?hosts ?all g = (r2, g2)" by fastforce
    have P2: "?P g2" using keepsD[OF deliver_sent_as start] r2 by (metis snd_conv)
    show ?thesis
    proof (cases "?all = []")
      case True
      with assms r1 Inr start show ?thesis by (auto simp: trigger_cleanup_def bnd_run read_run Let_def ret_run)
    next
      case False
      note run = assms[unfolded trigger_cleanup_def bnd_run read_run r1[unfolded Inr] prod.case sum.case Let_def if_not_P[OF False] r2]
      show ?thesis
      proof (cases r2)
        case (Inl e)
        with run P2 show ?thesis by auto
      next
        case Inr2: (Inr dg)
        obtain delivered gone where dg: "dg = (delivered, gone)" by (cases dg)
        obtain r3 g3 where r3: "for_each ?cc (drain_completed gone) g2 = (r3, g3)" by fastforce
        have "?P g3"
          using keepsD[OF keeps_for_each[of ?cc ?P "drain_completed gone", OF drain_sent_as] P2] r3 by simp
        with run r3 show ?thesis by (cases r3) (auto simp: Inr2 dg bnd_run)
      qed
    qed
  qed
qed

lemma map_of_filter_key: "P k \<Longrightarrow> map_of (filter (\<lambda>(k, _). P k) xs) k = map_of xs k"
  by (induction xs) auto

lemma new_cleanups:
  assumes "trigger_cleanup cenv g = (res, g')" "(a, due, t) \<in> set (drop (length (g_cleanups g)) (g_cleanups g'))" "rid \<in> set due"
  shows "t - (case map_of (g_sent_at g) rid of None \<Rightarrow> - CLEANUP_RESEND_SECONDS | Some t0 \<Rightarrow> t0) \<ge> CLEANUP_RESEND_SECONDS"
    and "(\<And>a rids. c_cleanup_answers cenv a rids) \<Longrightarrow> map_of (g_sent_at g') rid = Some t"
proof -
  have "\<not> sent_as (g_sent_at g) (g_cleanups g) g'" using assms(2) by (auto simp: sent_as_def)
  then obtain delivered g1 res' where g1: "sent_as (g_sent_at g) (g_cleanups g) g1" "announce_due cenv delivered g1 = (res', g')"
    using trigger_announces[OF assms(1)] by blast
  let ?sent = "filter (\<lambda>(rid, _). rid \<in> set delivered) (g_sent_at g)"
  let ?due = "filter (is_due ?sent (w_now (g_world g1))) delivered"
  obtain replicas where reps: "g_cleanups g' = g_cleanups g @ map (\<lambda>rep. (fld rep ''address'', ?due, w_now (g_world g1))) replicas"
    "g_sent_at g' = (if replicas \<noteq> [] \<and> (\<forall>rep\<in>set replicas. c_cleanup_answers cenv (fld rep ''address'') ?due)
      then fold (\<lambda>rid. AList.update rid (w_now (g_world g1))) ?due ?sent else ?sent)"
    using announce_due_cases[OF g1(2)] g1(1) unfolding sent_as_def by auto
  with assms(2) have t: "due = ?due" "t = w_now (g_world g1)" "replicas \<noteq> []" by auto
  have "map_of ?sent rid = map_of (g_sent_at g) rid" if "rid \<in> set delivered"
    using that by (rule map_of_filter_key)
  moreover have "rid \<in> set delivered" "is_due ?sent t rid" using assms(3) t by auto
  ultimately show "t - (case map_of (g_sent_at g) rid of None \<Rightarrow> - CLEANUP_RESEND_SECONDS | Some t0 \<Rightarrow> t0) \<ge> CLEANUP_RESEND_SECONDS"
    by (simp add: is_due_def)
  show "map_of (g_sent_at g') rid = Some t" if "\<And>a rids. c_cleanup_answers cenv a rids"
    using reps(2) t that assms(3) map_of_fold_update[of t due ?sent rid] by simp
qed

text \<open>Once every replica took the announcement of a request, no replica is told of it again within
  the resend time: two announcements of it in rounds that follow each other are at least
  \<open>CLEANUP_RESEND_SECONDS\<close> apart, whatever happened to the servers in between.\<close>

lemma cleanup_is_not_repeated:
  assumes "trigger_cleanup cenv g = (res, g1)" "(a, due, t) \<in> set (drop (length (g_cleanups g)) (g_cleanups g1))" "rid \<in> set due"
    and "\<And>a rids. c_cleanup_answers cenv a rids" "g_sent_at g2 = g_sent_at g1"
    and "trigger_cleanup cenv' g2 = (res', g3)" "(a', due', t') \<in> set (drop (length (g_cleanups g2)) (g_cleanups g3))" "rid \<in> set due'"
  shows "t + CLEANUP_RESEND_SECONDS \<le> t'"
  using new_cleanups(1)[OF assms(6-8)] new_cleanups(2)[OF assms(1-4)] assms(5) by simp

section \<open>When a request leaves\<close>

definition completed_at :: "string \<Rightarrow> world \<Rightarrow> string set" where
  "completed_at h w = set (rd_smembers COMPLETED_KEY (w_servers w h))"

lemma mark_keeps_sets: "keeps (\<lambda>g. completed_at h (g_world g) = C) (mark_delivered delivered h')"
  unfolding mark_delivered_def
  by (intro keeps_for_each keeps_on_world)
    (auto simp: completed_at_def tell_run rd_setnx_def rd_set_opts_def rd_smembers_def)

lemma drain_keeps_others:
  "rid \<notin> set gone \<Longrightarrow> keeps (\<lambda>g. rid \<in> completed_at h (g_world g)) (drain_completed gone hc)"
  unfolding drain_completed_def Let_def
  by (intro keeps_if keeps_ret keeps_on_world) (auto simp: completed_at_def tell_run)

lemma announce_world: "announce_due cenv delivered g = (res, g') \<Longrightarrow> g_world g' = g_world g"
  using announce_due_cases[of cenv delivered g res g'] by blast

text \<open>A request leaves \<open>request:completed\<close> on any machine only when, at the second look of the round,
  no machine lists a future of it any more; until then it stays and is delivered again.\<close>

lemma completed_kept_until_gone:
  assumes "trigger_cleanup cenv g = (res, g')"
    and "rid \<in> completed_at h (g_world g)" "rid \<in> completed_at h (c_meanwhile cenv (g_world g))"
    and "rid \<notin> completed_at h (g_world g')" "h' \<in> set (clients g)"
  shows "members_at rid h' (c_meanwhile cenv (g_world g)) = {}"
proof -
  let ?hosts = "clients g" and ?w = "c_meanwhile cenv (g_world g)"
  obtain r1 where r1: "map_each ?hosts read_completed g = (r1, g)"
    by (rule same_run[of g "map_each ?hosts read_completed"]) (auto intro!: pres_intros simp: read_completed_def)
  have "g' \<noteq> g" using assms(2,4) by auto
  then obtain by_client where Inr: "r1 = Inr by_client"
    using assms(1) r1 by (cases r1) (auto simp: trigger_cleanup_def bnd_run read_run)
  let ?cc = "filter (\<lambda>(h, c). c \<noteq> []) by_client"
  let ?all = "remdups (concat (map snd ?cc))"
  have False: "?all \<noteq> []"
  proof
    assume e: "?all = []"
    from assms(1)[unfolded trigger_cleanup_def bnd_run read_run r1[unfolded Inr] prod.case sum.case Let_def if_P[OF e]] \<open>g' \<noteq> g\<close>
    show False by (simp add: ret_run)
  qed
  obtain r2 g2 where r2: "deliver_completed_requests cenv ?hosts ?all g = (r2, g2)" by fastforce
  note run = assms(1)[unfolded trigger_cleanup_def bnd_run read_run r1[unfolded Inr] prod.case sum.case Let_def if_not_P[OF False] r2]
  have leave: "rid \<in> completed_at h (g_world g2) \<Longrightarrow> \<exists>delivered gone. r2 = Inr (delivered, gone) \<and> rid \<in> set gone"
  proof (rule ccontr)
    assume in2: "rid \<in> completed_at h (g_world g2)" and no: "\<not> (\<exists>delivered gone. r2 = Inr (delivered, gone) \<and> rid \<in> set gone)"
    show False
    proof (cases r2)
      case Inr2: (Inr dg)
      obtain delivered gone where dg: "dg = (delivered, gone)" by (cases dg)
      with no Inr2 have "rid \<notin> set gone" by blast
      obtain r3 g3 where r3: "for_each ?cc (drain_completed gone) g2 = (r3, g3)" by fastforce
      have "rid \<in> completed_at h (g_world g3)"
        using keepsD[OF keeps_for_each[of ?cc "\<lambda>g. rid \<in> completed_at h (g_world g)" "drain_completed gone", OF drain_keeps_others[OF \<open>rid \<notin> set gone\<close>]] in2] r3
        by simp
      moreover have "g_world g' = g_world g3"
        using run r3 by (cases r3) (auto simp: Inr2 dg bnd_run dest: announce_world)
      ultimately show False using assms(4) by simp
    qed (use run in2 assms(4) in auto)
  qed
  from r2 show ?thesis
  proof (cases rule: deliver_cases)
    case early
    with leave assms(2) show ?thesis by auto
  next
    case (unread e)
    with leave assms(3) show ?thesis by auto
  next
    case (marking marked wanted terminal expected delivered gone g3 r6)
    let ?g4 = "g3\<lparr>g_world := ?w\<rparr>"
    have "completed_at h (g_world g2) = completed_at h ?w"
      using keepsD[OF keeps_for_each[of ?hosts "\<lambda>g. completed_at h (g_world g) = completed_at h ?w" "mark_delivered delivered", OF mark_keeps_sets], of ?g4] marking(6)
      by simp
    with leave assms(3) marking(7) have "rid \<in> set gone" by (auto split: sum.splits)
    moreover have "gone = filter (\<lambda>rid. rid \<notin> fst ` set expected) ?all"
      using marking(5) by (simp add: settled_requests_def Let_def)
    ultimately have "rid \<in> set ?all" "rid \<notin> fst ` set expected" by (simp_all del: set_remdups remdups_filter)
    then show ?thesis using futures_of_members[OF marking(4)] assms(5) by force
  qed
qed

text \<open>A replica that took the announcement of a request is told again only in the round 30 seconds later.\<close>

lemma cleanup_is_not_repeated_witness:
  "let cenv = delivery_cenv id; g1 = snd (trigger_cleanup cenv (delivery_gc one_future));
       g2 = on_world (sleep 40) g1; g3 = snd (trigger_cleanup cenv (snd g2))
   in g_cleanups g3 = [(''a-1:1'', [''r''], 100), (''a-1:1'', [''r''], 140)] \<and> (100::rat) + CLEANUP_RESEND_SECONDS \<le> 140"
proof -
  let ?cenv = "delivery_cenv id" and ?g = "delivery_gc one_future"
  let ?g1 = "snd (trigger_cleanup ?cenv ?g)"
  let ?g2 = "snd (on_world (sleep 40) ?g1)"
  let ?g3 = "snd (trigger_cleanup ?cenv ?g2)"
  have c1: "g_cleanups ?g1 = [(''a-1:1'', [''r''], 100)]" by code_simp
  have c3: "g_cleanups ?g3 = [(''a-1:1'', [''r''], 100), (''a-1:1'', [''r''], 140)]" by code_simp
  have c2: "g_cleanups ?g2 = g_cleanups ?g1" "g_sent_at ?g2 = g_sent_at ?g1" by (simp_all add: on_world_run)
  have c0: "g_cleanups ?g = []" by (simp add: delivery_gc_def)
  have "(100::rat) + CLEANUP_RESEND_SECONDS \<le> 140"
    using cleanup_is_not_repeated[of ?cenv ?g "fst (trigger_cleanup ?cenv ?g)" ?g1 "''a-1:1''" "[''r'']" 100 "''r''" ?g2 ?cenv
        "fst (trigger_cleanup ?cenv ?g2)" ?g3 "''a-1:1''" "[''r'']" 140] c0 c1 c2 c3
    by (simp add: delivery_cenv_def del: snd_conv)
  with c3 show ?thesis by (simp add: Let_def)
qed

definition no_futures :: "string \<Rightarrow> string list" where
  "no_futures = (\<lambda>_. [])(''request:completed'' := [''r''])"

lemma completed_kept_until_gone_witness:
  "''r'' \<notin> completed_at LOCAL (g_world (snd (trigger_cleanup (delivery_cenv id) (delivery_gc no_futures)))) \<and>
   members_at ''r'' LOCAL (g_world (delivery_gc no_futures)) = {}"
proof -
  let ?run = "trigger_cleanup (delivery_cenv id) (delivery_gc no_futures)"
  have l: "''r'' \<notin> completed_at LOCAL (g_world (snd ?run))" by code_simp
  have i: "''r'' \<in> completed_at LOCAL (g_world (delivery_gc no_futures))" by code_simp
  have "LOCAL \<in> set (clients (delivery_gc no_futures))" by code_simp
  from completed_kept_until_gone[OF prod.collapse[symmetric, of ?run] i _ l this] i l
  show ?thesis by (simp add: delivery_cenv_def)
qed

end
