(* ===== verification/Gateway_Config.thy ===== *)
theory Gateway_Config
  imports Governance Pricing
begin

text \<open>
  What the LLM gateway of a replica reads from Redis and keeps between refreshes
  (\<open>llm_gateway/llms.py\<close>, \<open>llm_gateway/prompts.py\<close>, \<open>refresh\<close> of \<open>llm_gateway/routing.py\<close>): the index
  of \<open>llms.yaml\<close> by model id, the live prompts, the governance rules and the prices.
\<close>

section \<open>llms.yaml\<close>

definition LLMS_CONFIG_KEY :: string where "LLMS_CONFIG_KEY = ''llms:config''"
definition PROMPTS_CONFIG_KEY :: string where "PROMPTS_CONFIG_KEY = ''prompts:config''"

definition GEO_PREFIXES :: "string list" where
  "GEO_PREFIXES = [''us-gov.'', ''us.'', ''eu.'', ''apac.'', ''jp.'', ''au.'', ''ca.'', ''global.'']"

definition ARN_RESOURCE_MARKERS :: "string list" where
  "ARN_RESOURCE_MARKERS = [''foundation-model/'', ''inference-profile/'']"

fun after_marker :: "string list \<Rightarrow> string \<Rightarrow> string" where
  "after_marker [] model_id = model_id"
| "after_marker (m # ms) model_id =
     (if prefix ''arn:'' model_id \<and> contains m model_id then snd (the (split_first m model_id))
      else after_marker ms model_id)"

definition normalize_model_id :: "string \<Rightarrow> string" where
  "normalize_model_id model_id = (let m = after_marker ARN_RESOURCE_MARKERS model_id in
     case find (\<lambda>p. prefix p m) GEO_PREFIXES of None \<Rightarrow> m | Some p \<Rightarrow> drop (length p) m)"

text \<open>\<open>_is_number\<close>.\<close>

definition is_cap :: "val \<Rightarrow> bool" where
  "is_cap v = (case v of VInt _ \<Rightarrow> True | VFloat _ \<Rightarrow> True | _ \<Rightarrow> False)"

definition validate_priced_entry :: "string \<Rightarrow> dict \<Rightarrow> exn + unit" where
  "validate_priced_entry name llm = (case val_or (dget llm ''agents'') (VDict []) of
     VDict agents \<Rightarrow>
       if list_all (\<lambda>(agent, cap). cap = VNone) agents then Inr ()
       else if \<not> is_cap (dget llm ''max_tokens'')
       then Inl (ValueError (''llms.yaml entry '' @ name @ '': max_tokens must be a number to enforce a cap''))
       else if list_all (\<lambda>(agent, cap). cap = VNone \<or> is_cap cap) agents then Inr ()
       else Inl (ValueError (''llms.yaml entry '' @ name @ '': cap must be a number''))
   | _ \<Rightarrow> Inl (ValueError (''llms.yaml entry '' @ name @ '': agents must map each agent name to its cap'')))"

definition index_entry :: "string \<times> val \<Rightarrow> exn + (string \<times> dict) list" where
  "index_entry e = (case e of
     (name, VDict llm) \<Rightarrow>
       (if \<not> truthy (dget llm ''model_id'') then Inr []
        else res_bnd (validate_priced_entry name llm) (\<lambda>_.
          case dget llm ''model_id'' of
            VStr model_id \<Rightarrow> Inr [(normalize_model_id model_id, AList.update ''name'' (VStr name) llm)]
          | _ \<Rightarrow> Inl (AttributeError ''startswith'')))
   | _ \<Rightarrow> Inr [])"

definition index_llms :: "val \<Rightarrow> exn + (string \<times> dict) list" where
  "index_llms llms = (case llms of
     VDict d \<Rightarrow> res_bnd (res_all index_entry d) (\<lambda>es. Inr (dict_update (concat es) []))
   | _ \<Rightarrow> Inl (AttributeError ''items''))"

section \<open>The gateway's settings\<close>

record gateway =
  llms_by_model_id :: "(string \<times> dict) list option"
  current_prompts :: val
  gw_rules :: "rules option"
  gw_prices :: price_tables

text \<open>\<open>json.loads(raw) if raw else {}\<close>.\<close>

definition loaded_doc :: "rtext option \<Rightarrow> exn + val" where
  "loaded_doc raw = (if \<not> opt_truthy raw then Inr (VDict [])
     else case loads (the raw) of None \<Rightarrow> Inl (ValueError ''not JSON'') | Some v \<Rightarrow> Inr v)"

text \<open>A Redis that does not answer is \<open>None\<close>: the read raises, and each part keeps what it had.\<close>

definition redis_read :: "redis option \<Rightarrow> string \<Rightarrow> exn + rtext option" where
  "redis_read redis k = (case redis of None \<Rightarrow> Inl (RedisError k) | Some r \<Rightarrow> Inr (rd_get k r))"

definition kept :: "'a \<Rightarrow> exn + 'a \<Rightarrow> 'a" where
  "kept old res = (case res of Inl _ \<Rightarrow> old | Inr new \<Rightarrow> new)"

definition refresh_llms :: "redis option \<Rightarrow> (string \<times> dict) list option \<Rightarrow> (string \<times> dict) list option" where
  "refresh_llms redis old = kept old
     (res_bnd (redis_read redis LLMS_CONFIG_KEY) (\<lambda>raw.
      res_bnd (loaded_doc raw) (\<lambda>doc.
      res_bnd (index_llms doc) (\<lambda>index. Inr (Some index)))))"

definition refresh_prompts :: "redis option \<Rightarrow> val \<Rightarrow> val" where
  "refresh_prompts redis old = kept old
     (res_bnd (redis_read redis PROMPTS_CONFIG_KEY) (\<lambda>raw.
      res_bnd (loaded_doc raw) (\<lambda>doc. case doc of
        VDict d \<Rightarrow> Inr (val_or (dget d ''prompts'') (VDict []))
      | _ \<Rightarrow> Inl (AttributeError ''get''))))"

definition refresh_gateway :: "iso_reader \<Rightarrow> redis option \<Rightarrow> gateway \<Rightarrow> gateway" where
  "refresh_gateway fromiso redis g =
     g\<lparr>llms_by_model_id := refresh_llms redis (llms_by_model_id g),
       current_prompts := refresh_prompts redis (current_prompts g),
       gw_rules := kept (gw_rules g) (case redis of None \<Rightarrow> Inl (RedisError ''governance'')
         | Some r \<Rightarrow> map_sum id Some (load_rules fromiso r (gw_rules g)))\<rparr>"

text \<open>The state before any refresh, and \<open>start_refresh\<close> up to its background thread, each round of
  which is \<open>refresh_gateway\<close>.\<close>

definition fresh_gateway :: "price_tables \<Rightarrow> gateway" where
  "fresh_gateway prices = \<lparr>llms_by_model_id = None, current_prompts = VDict [], gw_rules = None, gw_prices = prices\<rparr>"

definition start_refresh :: "iso_reader \<Rightarrow> redis option \<Rightarrow> gateway \<Rightarrow> gateway" where
  "start_refresh fromiso redis g =
     refresh_gateway fromiso redis (g\<lparr>gw_prices := load_published_prices redis (gw_prices g)\<rparr>)"

section \<open>Every index that loads can be decided on\<close>

definition wf_llm :: "dict \<Rightarrow> bool" where
  "wf_llm llm \<longleftrightarrow> (\<exists>model_id name. dget llm ''model_id'' = VStr model_id \<and> model_id \<noteq> [] \<and> dget llm ''name'' = VStr name) \<and>
     (\<exists>agents. val_or (dget llm ''agents'') (VDict []) = VDict agents \<and>
        (\<forall>(agent, cap)\<in>set agents. cap = VNone \<or> is_cap cap) \<and>
        ((\<exists>(agent, cap)\<in>set agents. cap \<noteq> VNone) \<longrightarrow> is_cap (dget llm ''max_tokens'')))"

definition wf_index :: "(string \<times> dict) list \<Rightarrow> bool" where
  "wf_index index \<longleftrightarrow> (\<forall>k llm. map_of index k = Some llm \<longrightarrow> wf_llm llm \<and>
     (\<exists>model_id. dget llm ''model_id'' = VStr model_id \<and> k = normalize_model_id model_id))"

lemma validated_agents:
  assumes "validate_priced_entry name llm = Inr ()"
  shows "\<exists>agents. val_or (dget llm ''agents'') (VDict []) = VDict agents \<and>
    (\<forall>(agent, cap)\<in>set agents. cap = VNone \<or> is_cap cap) \<and>
    ((\<exists>(agent, cap)\<in>set agents. cap \<noteq> VNone) \<longrightarrow> is_cap (dget llm ''max_tokens''))"
  using assms by (cases "val_or (dget llm ''agents'') (VDict [])")
    (auto simp: validate_priced_entry_def list_all_iff split: if_splits)

lemma index_entry_wf:
  assumes "index_entry e = Inr es" "(k, llm) \<in> set es"
  shows "wf_llm llm \<and> (\<exists>model_id. dget llm ''model_id'' = VStr model_id \<and> k = normalize_model_id model_id)"
proof -
  obtain name d where e: "e = (name, VDict d)"
    using assms by (cases e; cases "snd e") (auto simp: index_entry_def)
  with assms have t: "truthy (dget d ''model_id'')" and v: "validate_priced_entry name d = Inr ()"
    by (auto simp: index_entry_def elim!: res_bnd_InrE split: if_splits)
  then obtain m where m: "dget d ''model_id'' = VStr m" "m \<noteq> []" "k = normalize_model_id m" "llm = AList.update ''name'' (VStr name) d"
    using assms e by (cases "dget d ''model_id''") (auto simp: index_entry_def)
  with validated_agents[OF v] show ?thesis by (auto simp: wf_llm_def)
qed

lemma index_llms_wf:
  assumes "index_llms doc = Inr index"
  shows "wf_index index"
proof -
  obtain d es where d: "doc = VDict d" "res_all index_entry d = Inr es" "index = dict_update (concat es) []"
    using assms by (cases doc) (auto simp: index_llms_def elim!: res_bnd_InrE)
  show ?thesis
    unfolding wf_index_def
  proof (intro allI impI)
    fix k llm assume "map_of index k = Some llm"
    then have "(k, llm) \<in> set (concat es)" by (auto simp: d(3) dest!: map_of_SomeD)
    then obtain one where one: "one \<in> set es" "(k, llm) \<in> set one" by auto
    moreover from res_all_member[OF d(2) one(1)] obtain e where "index_entry e = Inr one" by blast
    ultimately show "wf_llm llm \<and> (\<exists>model_id. dget llm ''model_id'' = VStr model_id \<and> k = normalize_model_id model_id)"
      using index_entry_wf by blast
  qed
qed

lemma refresh_llms_wf:
  assumes "refresh_llms redis old = Some index" "\<forall>i. old = Some i \<longrightarrow> wf_index i"
  shows "wf_index index"
proof (cases "res_bnd (redis_read redis LLMS_CONFIG_KEY) (\<lambda>raw. res_bnd (loaded_doc raw) (\<lambda>doc.
      res_bnd (index_llms doc) (\<lambda>index. Inr (Some index))))")
  case (Inl e)
  with assms show ?thesis by (simp add: refresh_llms_def kept_def)
next
  case (Inr new)
  with assms(1) have "new = Some index" by (simp add: refresh_llms_def kept_def)
  with Inr show ?thesis by (auto elim!: res_bnd_InrE dest: index_llms_wf)
qed

text \<open>The gateway's settings after any number of refreshes, each on any Redis or on none.\<close>

definition wf_gateway :: "gateway \<Rightarrow> bool" where
  "wf_gateway g \<longleftrightarrow> (\<forall>index. llms_by_model_id g = Some index \<longrightarrow> wf_index index) \<and>
     (\<forall>rules. gw_rules g = Some rules \<longrightarrow> wf_rules rules)"

lemma refresh_wf: "wf_gateway g \<Longrightarrow> wf_gateway (refresh_gateway fromiso redis g)"
proof -
  assume w: "wf_gateway g"
  have "wf_rules rules" if "gw_rules (refresh_gateway fromiso redis g) = Some rules" for rules
  proof (cases redis)
    case (Some r)
    show ?thesis
    proof (cases "load_rules fromiso r (gw_rules g)")
      case (Inr new)
      then have "rules = new" using that Some by (simp add: refresh_gateway_def kept_def)
      then show ?thesis using load_rules_wf[OF Inr] w by (auto simp: wf_gateway_def)
    qed (use that w Some in \<open>auto simp: refresh_gateway_def kept_def wf_gateway_def\<close>)
  qed (use that w in \<open>auto simp: refresh_gateway_def kept_def wf_gateway_def\<close>)
  moreover have "wf_index index" if "llms_by_model_id (refresh_gateway fromiso redis g) = Some index" for index
    using that w refresh_llms_wf[of redis "llms_by_model_id g" index] by (auto simp: refresh_gateway_def wf_gateway_def)
  ultimately show ?thesis by (simp add: wf_gateway_def)
qed

definition refreshed :: "iso_reader \<Rightarrow> price_tables \<Rightarrow> redis option list \<Rightarrow> gateway" where
  "refreshed fromiso prices rs = (case rs of
       [] \<Rightarrow> fresh_gateway prices
     | r # later \<Rightarrow> fold (refresh_gateway fromiso) later (start_refresh fromiso r (fresh_gateway prices)))"

lemma refreshed_wf: "wf_gateway (refreshed fromiso prices rs)"
proof -
  have "wf_gateway g \<Longrightarrow> wf_gateway (fold (refresh_gateway fromiso) later g)" for g later
    by (induction later arbitrary: g) (auto intro: refresh_wf)
  moreover have "wf_gateway (fresh_gateway p)" for p by (simp add: fresh_gateway_def wf_gateway_def)
  moreover have "fresh_gateway prices\<lparr>gw_prices := p\<rparr> = fresh_gateway p" for p by (simp add: fresh_gateway_def)
  ultimately show ?thesis
    by (auto simp: refreshed_def start_refresh_def intro: refresh_wf split: list.split)
qed

end
