(* ===== verification/Gateway_Routing.thy ===== *)
theory Gateway_Routing
  imports Gateway_Config
begin

text \<open>
  One LLM call through the gateway of a replica: the model governance switched the agent to, the
  agent's prompt, the rules and caps of \<open>llms.yaml\<close>, and what is sent on
  (\<open>llm_gateway/core.py\<close>, \<open>llm_gateway/prompts.py\<close>, \<open>llm_gateway/routing.py\<close>, the request side of
  \<open>llm_gateway/providers\<close>). A body is its text and its length in bytes, since a document can be
  written at several lengths; \<open>g_size\<close> is the length of \<open>json.dumps\<close> and \<open>g_str\<close> is \<open>str\<close> of a
  value that is no text.
\<close>

datatype provider = Openai | Anthropic | Bedrock

type_synonym body = "rtext \<times> nat"

record genv =
  g_agent :: string
  g_size :: "val \<Rightarrow> nat"
  g_str :: "val \<Rightarrow> string"

record llm_call =
  lc_provider :: provider
  lc_method :: string
  lc_subpath :: string
  lc_body :: body
  lc_headers :: "(string \<times> string) list"

definition REFRESH_SECONDS :: int where "REFRESH_SECONDS = 5"
definition BYTES_PER_TOKEN :: rat where "BYTES_PER_TOKEN = 4"
definition FUTURE_ID_HEADER :: string where "FUTURE_ID_HEADER = ''x-canyonos-future-id''"
definition FUNCTION_HEADER :: string where "FUNCTION_HEADER = ''x-canyonos-function''"
definition UPSTREAM_HEADER :: string where "UPSTREAM_HEADER = ''x-canyonos-upstream''"

definition encoded :: "genv \<Rightarrow> dict \<Rightarrow> body" where
  "encoded env d = (Doc (VDict d), g_size env (VDict d))"

text \<open>\<open>json.loads(body)\<close>.\<close>

definition body_doc :: "body \<Rightarrow> val option" where "body_doc b = loads (fst b)"

text \<open>\<open>headers.get(name)\<close>, whose names have no case.\<close>

definition header :: "(string \<times> string) list \<Rightarrow> string \<Rightarrow> string option" where
  "header hs name = map_of (map (\<lambda>(k, v). (lower k, v)) hs) (lower name)"

text \<open>\<open>urlsplit(url).hostname\<close> of a URL with an authority.\<close>

definition url_host :: "string \<Rightarrow> string option" where
  "url_host url = (case split_first ''//'' url of
       None \<Rightarrow> None
     | Some (scheme, rest) \<Rightarrow>
         if scheme \<noteq> [] \<and> last scheme \<noteq> CHR '':'' then None
         else (let netloc = takeWhile (\<lambda>c. c \<notin> set ''/?#'') rest;
              hostport = (if CHR ''@'' \<in> set netloc then snd (rpartition CHR ''@'' netloc) else netloc);
              host = (if prefix ''['' hostport then takeWhile (\<lambda>c. c \<noteq> CHR '']'') (tl hostport)
                      else takeWhile (\<lambda>c. c \<noteq> CHR '':'') hostport)
          in if host = [] then None else Some (lower host)))"

section \<open>Which model a call asks for\<close>

definition guess_model :: "body \<Rightarrow> string option" where
  "guess_model b = (case body_doc b of
       Some (VDict d) \<Rightarrow> (case dget d ''model'' of VStr m \<Rightarrow> Some m | _ \<Rightarrow> None)
     | _ \<Rightarrow> None)"

definition SUPPORTED_OPS :: "string list" where
  "SUPPORTED_OPS = [''invoke'', ''invoke-with-response-stream'', ''converse'', ''converse-stream'']"

text \<open>\<open>model/<modelId>/<op>\<close>, where the model id may hold slashes.\<close>

definition bedrock_parse :: "string \<Rightarrow> exn + string \<times> string" where
  "bedrock_parse subpath = (let s = drop 6 subpath; (model_id, op) = rpartition CHR ''/'' s in
     if \<not> prefix ''model/'' subpath \<or> CHR ''/'' \<notin> set s \<or> op \<notin> set SUPPORTED_OPS
     then Inl (ValueError ''the CanyonOS LLM gateway does not support the Bedrock call'')
     else Inr (model_id, op))"

definition bedrock_model_and_op :: "string \<Rightarrow> (string \<times> string) option" where
  "bedrock_model_and_op subpath = (if \<not> prefix ''model/'' subpath then None
     else let s = drop 6 subpath in if CHR ''/'' \<in> set s then Some (rpartition CHR ''/'' s) else None)"

definition extract_model_id :: "provider \<Rightarrow> string \<Rightarrow> string option \<Rightarrow> string" where
  "extract_model_id p subpath model = (case model of
       Some (c # cs) \<Rightarrow> c # cs
     | _ \<Rightarrow> (case (p, bedrock_model_and_op subpath) of
         (Bedrock, Some (c # cs, op)) \<Rightarrow> c # cs
       | _ \<Rightarrow> ''unknown''))"

text \<open>\<open>_switch_model\<close>.\<close>

definition switch_model :: "genv \<Rightarrow> provider \<Rightarrow> string \<Rightarrow> body \<Rightarrow> string \<Rightarrow> string \<times> body" where
  "switch_model env p subpath b model = (case p of
       Bedrock \<Rightarrow> (case bedrock_parse subpath of
           Inl _ \<Rightarrow> (subpath, b)
         | Inr (_, op) \<Rightarrow> (''model/'' @ model @ ''/'' @ op, b))
     | _ \<Rightarrow> (case body_doc b of
           Some (VDict d) \<Rightarrow>
             if dget d ''model'' = VNone \<or> dget d ''model'' = VStr model then (subpath, b)
             else (subpath, encoded env (AList.update ''model'' (VStr model) d))
         | _ \<Rightarrow> (subpath, b)))"

section \<open>Prompts\<close>

text \<open>\<open>[m for m in messages if m.get("role") not in roles]\<close>.\<close>

definition without_roles :: "string list \<Rightarrow> val \<Rightarrow> exn + val list" where
  "without_roles roles messages = (case messages of
       VList ms \<Rightarrow> res_bnd (res_all (\<lambda>m. case m of
           VDict d \<Rightarrow> Inr (if dget d ''role'' \<in> VStr ` set roles then [] else [m])
         | _ \<Rightarrow> Inl (AttributeError ''get'')) ms) (\<lambda>kept. Inr (concat kept))
     | VStr s \<Rightarrow> if s = [] then Inr [] else Inl (AttributeError ''get'')
     | VDict d \<Rightarrow> if d = [] then Inr [] else Inl (AttributeError ''get'')
     | _ \<Rightarrow> Inl (TypeError ''not iterable''))"

definition system_first :: "val \<Rightarrow> val list \<Rightarrow> val" where
  "system_first prompt rest = VList (VDict [(''role'', VStr ''system''), (''content'', prompt)] # rest)"

definition shown_val :: "genv \<Rightarrow> val \<Rightarrow> string" where
  "shown_val env v = (case v of VStr s \<Rightarrow> s | _ \<Rightarrow> g_str env v)"

definition ahead_of :: "genv \<Rightarrow> val \<Rightarrow> val \<Rightarrow> val" where
  "ahead_of env prompt v = VStr (shown_val env prompt @ [CHR 0x0A, CHR 0x0A] @ shown_val env v)"

text \<open>\<open>set_system\<close> of each provider: the new parameters, or \<open>None\<close> when the call has no place for a
  system prompt.\<close>

definition bedrock_system :: "genv \<Rightarrow> dict \<Rightarrow> string \<Rightarrow> string \<Rightarrow> val \<Rightarrow> exn + dict option" where
  "bedrock_system env params model_id op prompt =
     (if op \<in> {''converse'', ''converse-stream''} \<or> contains ''amazon.nova'' model_id
      then Inr (Some (AList.update ''system'' (VList [VDict [(''text'', prompt)]]) params))
      else if contains ''anthropic.'' model_id then Inr (Some (AList.update ''system'' prompt params))
      else if contains ''cohere.command-r'' model_id then Inr (Some (AList.update ''preamble'' prompt params))
      else if dhas params ''messages''
      then res_bnd (without_roles [''system''] (dget params ''messages'')) (\<lambda>rest.
        Inr (Some (AList.update ''messages'' (system_first prompt rest) params)))
      else if dhas params ''prompt''
      then Inr (Some (AList.update ''prompt'' (ahead_of env prompt (dget params ''prompt'')) params))
      else if dhas params ''inputText''
      then Inr (Some (AList.update ''inputText'' (ahead_of env prompt (dget params ''inputText'')) params))
      else Inr None)"

definition set_system :: "genv \<Rightarrow> provider \<Rightarrow> dict \<Rightarrow> string \<Rightarrow> val \<Rightarrow> exn + dict option" where
  "set_system env p params subpath prompt = (case p of
       Openai \<Rightarrow>
         if suffix ''responses'' subpath then Inr (Some (AList.update ''instructions'' prompt params))
         else if suffix ''chat/completions'' subpath
         then res_bnd (without_roles [''system'', ''developer''] (val_or (dget params ''messages'') (VList []))) (\<lambda>rest.
           Inr (Some (AList.update ''messages'' (system_first prompt rest) params)))
         else Inr None
     | Anthropic \<Rightarrow>
         if \<not> suffix ''messages'' subpath then Inr None
         else Inr (Some (AList.update ''system'' prompt params))
     | Bedrock \<Rightarrow> res_bnd (bedrock_parse subpath) (\<lambda>(model_id, op). bedrock_system env params model_id op prompt))"

definition item_of :: "val \<Rightarrow> string \<Rightarrow> exn + val" where
  "item_of v k = (case v of VDict d \<Rightarrow> need d k | _ \<Rightarrow> Inl (TypeError ''not subscriptable by a name''))"

definition apply_prompt :: "genv \<Rightarrow> val \<Rightarrow> provider \<Rightarrow> string \<Rightarrow> string \<Rightarrow> body \<Rightarrow> exn + body \<times> string option" where
  "apply_prompt env prompts p name subpath b = (case prompts of
     VDict current_by_name \<Rightarrow>
       (let current = dget current_by_name name in
        if current = VNone \<or> fst b = Raw [] then Inr (b, None)
        else case body_doc b of
          Some (VDict params) \<Rightarrow>
            res_bnd (item_of current ''content'') (\<lambda>content.
            res_bnd (set_system env p params subpath content) (\<lambda>changed. case changed of
                None \<Rightarrow> Inr (b, None)
              | Some params' \<Rightarrow> res_bnd (item_of current ''version'') (\<lambda>version.
                  Inr (encoded env params', Some (shown_val env version)))))
        | _ \<Rightarrow> Inr (b, None))
   | _ \<Rightarrow> Inl (AttributeError ''get''))"

section \<open>Rules and caps\<close>

datatype denial =
    NotLoadedYet
  | NotAllowed string val
  | NoPrice string val
  | BodyNotJson string val
  | OverCap string val val val

text \<open>The output limit of a call: the first of the names that is given.\<close>

definition requested_max_tokens :: "dict \<Rightarrow> exn + val" where
  "requested_max_tokens payload =
     (let v = val_or (val_or (dget payload ''max_tokens'') (dget payload ''max_completion_tokens''))
            (dget payload ''max_output_tokens'') in
      if truthy v then Inr v
      else case val_or (dget payload ''inferenceConfig'') (VDict []) of
          VDict c \<Rightarrow> Inr (dget c ''maxTokens'')
        | _ \<Rightarrow> Inl (AttributeError ''get''))"

text \<open>\<open>llm["model_id"]\<close>, which every indexed entry has.\<close>

definition llm_id :: "dict \<Rightarrow> string" where
  "llm_id llm = (case dget llm ''model_id'' of VStr s \<Rightarrow> s | _ \<Rightarrow> [])"

definition worst_case_cost :: "price_tables \<Rightarrow> body \<Rightarrow> dict \<Rightarrow> string option \<Rightarrow> exn + val" where
  "worst_case_cost prices b llm at_prefix =
     (let input_tokens = VFloat (Fin (of_nat (snd b) / BYTES_PER_TOKEN)) in
      case body_doc b of
        Some (VDict payload) \<Rightarrow>
          res_bnd (requested_max_tokens payload) (\<lambda>requested.
          res_bnd (if truthy requested then Inr requested else need llm ''max_tokens'') (\<lambda>max_tokens.
          res_bnd (py_mul max_tokens (val_or (dget payload ''n'') (VInt 1))) (\<lambda>output_tokens.
          compute_token_cost prices (normalize_model_id (llm_id llm)) input_tokens output_tokens (VInt 0) (VInt 0) at_prefix)))
      | _ \<Rightarrow> Inl (ValueError ''body is not a JSON object''))"

definition route :: "gateway \<Rightarrow> string \<Rightarrow> string \<Rightarrow> body \<Rightarrow> string option \<Rightarrow> exn + denial option" where
  "route g agent model_id b at_prefix = (case llms_by_model_id g of
       None \<Rightarrow> Inr (Some NotLoadedYet)
     | Some index \<Rightarrow> (case map_of index (normalize_model_id model_id) of
         None \<Rightarrow> Inr None
       | Some llm \<Rightarrow>
           if llm = [] \<or> \<not> dhas llm ''agents'' then Inr None
           else (case val_or (dget llm ''agents'') (VDict []) of
             VDict agents \<Rightarrow> (case map_of agents agent of
                 None \<Rightarrow> Inr (Some (NotAllowed agent (dget llm ''name'')))
               | Some cap \<Rightarrow>
                   if cap = VNone then Inr None
                   else if token_prices (gw_prices g) (normalize_model_id (llm_id llm)) at_prefix = None
                   then Inr (Some (NoPrice agent (dget llm ''name'')))
                   else (case worst_case_cost (gw_prices g) b llm at_prefix of
                       Inl (ValueError _) \<Rightarrow> Inr (Some (BodyNotJson agent (dget llm ''name'')))
                     | Inl e \<Rightarrow> Inl e
                     | Inr cost \<Rightarrow> res_bnd (py_less cap cost) (\<lambda>over.
                         Inr (if over then Some (OverCap agent (dget llm ''name'') cost cap) else None))))
           | _ \<Rightarrow> Inl (TypeError ''agents''))))"

definition denied_status :: int where "denied_status = 403"

definition denied_body :: "string \<Rightarrow> val" where
  "denied_body reason = VDict [(''message'', VStr reason),
     (''error'', VDict [(''type'', VStr ''llm_policy_blocked''), (''message'', VStr reason)])]"

section \<open>One call\<close>

text \<open>The context the telemetry of the call uses, and what becomes of the call.\<close>

record ctx =
  cx_provider :: provider
  cx_subpath :: string
  cx_body :: body
  cx_future :: "string option"
  cx_model :: "string option"
  cx_prompt_name :: "string option"
  cx_prompt_version :: "string option"
  cx_price_prefix :: "string option"

datatype verdict_of_call = Denied denial | Forwarded string body

definition prompt_name_of :: "genv \<Rightarrow> llm_call \<Rightarrow> string" where
  "prompt_name_of env c = g_agent env @ ''.'' @
     (case header (lc_headers c) FUNCTION_HEADER of None \<Rightarrow> ''None'' | Some f \<Rightarrow> f)"

text \<open>The subpath and body after governance's switch.\<close>

definition switched :: "genv \<Rightarrow> gateway \<Rightarrow> llm_call \<Rightarrow> string \<times> body" where
  "switched env g c = (case gw_rules g of
       None \<Rightarrow> (lc_subpath c, lc_body c)
     | Some rules \<Rightarrow> (case model_for rules (g_agent env) of
         Some (x # xs) \<Rightarrow> switch_model env (lc_provider c) (lc_subpath c) (lc_body c) (x # xs)
       | _ \<Rightarrow> (lc_subpath c, lc_body c)))"

definition proxy_request :: "genv \<Rightarrow> gateway \<Rightarrow> llm_call \<Rightarrow> exn + ctx \<times> verdict_of_call" where
  "proxy_request env g c = (case switched env g c of (subpath, b) \<Rightarrow>
     res_bnd (apply_prompt env (current_prompts g) (lc_provider c) (prompt_name_of env c) subpath b) (\<lambda>(b', version).
     let used = (version \<noteq> None \<and> version \<noteq> Some []);
         cx = \<lparr>cx_provider = lc_provider c, cx_subpath = subpath, cx_body = b',
           cx_future = header (lc_headers c) FUTURE_ID_HEADER, cx_model = guess_model b',
           cx_prompt_name = (if used then Some (prompt_name_of env c) else None), cx_prompt_version = version,
           cx_price_prefix = prefix_at_host (url_host (case header (lc_headers c) UPSTREAM_HEADER of None \<Rightarrow> [] | Some u \<Rightarrow> u))\<rparr> in
     res_bnd (route g (g_agent env) (extract_model_id (lc_provider c) subpath (guess_model b')) b' (cx_price_prefix cx)) (\<lambda>denied.
     Inr (cx, case denied of Some d \<Rightarrow> Denied d | None \<Rightarrow> Forwarded subpath b'))))"

section \<open>What is sent on\<close>

definition DROP_REQUEST_HEADERS :: "string list" where
  "DROP_REQUEST_HEADERS = [''connection'', ''keep-alive'', ''gateway-authenticate'', ''gateway-authorization'',
     ''te'', ''trailers'', ''transfer-encoding'', ''upgrade'', ''host'', ''content-length'', ''accept-encoding'']"

definition DROP_RESPONSE_HEADERS :: "string list" where
  "DROP_RESPONSE_HEADERS = [''content-encoding'', ''content-length'', ''transfer-encoding'', ''connection'', ''keep-alive'']"

definition client_headers :: "(string \<times> string) list \<Rightarrow> string list \<Rightarrow> (string \<times> string) list" where
  "client_headers incoming extra =
     filter (\<lambda>(k, v). lower k \<notin> set DROP_REQUEST_HEADERS \<and> lower k \<notin> lower ` set extra) incoming"

definition filter_response_headers :: "(string \<times> string) list \<Rightarrow> (string \<times> string) list" where
  "filter_response_headers hs = filter (\<lambda>(k, v). lower k \<notin> set DROP_RESPONSE_HEADERS) hs"

definition NO_STREAM_OPTIONS_HOSTS :: "string list" where "NO_STREAM_OPTIONS_HOSTS = [''api.mistral.ai'']"

text \<open>\<open>target\<close>: the URL and the headers; a call without the upstream header raises.\<close>

definition http_target :: "llm_call \<Rightarrow> string \<Rightarrow> exn + string \<times> (string \<times> string) list" where
  "http_target c subpath = (case header (lc_headers c) UPSTREAM_HEADER of
       None \<Rightarrow> Inl (KeyError UPSTREAM_HEADER)
     | Some u \<Rightarrow> Inr (u @ ''/'' @ subpath, client_headers (lc_headers c) [UPSTREAM_HEADER]))"

text \<open>What the OpenAI provider sends, and whether it asked for the usage chunk itself.\<close>

definition with_usage_option :: "genv \<Rightarrow> llm_call \<Rightarrow> string \<Rightarrow> body \<Rightarrow> exn + body \<times> bool" where
  "with_usage_option env c subpath b = (case header (lc_headers c) UPSTREAM_HEADER of
       None \<Rightarrow> Inl (KeyError UPSTREAM_HEADER)
     | Some u \<Rightarrow>
         if \<not> suffix ''completions'' subpath \<or> url_host u \<in> Some ` set NO_STREAM_OPTIONS_HOSTS then Inr (b, False)
         else (case body_doc b of
             None \<Rightarrow> Inl (ValueError ''body is not JSON'')
           | Some (VDict params) \<Rightarrow>
               (case val_or (dget params ''stream_options'') (VDict []) of
                  VDict options \<Rightarrow>
                    if truthy (dget params ''stream'') \<and> \<not> truthy (dget options ''include_usage'')
                    then Inr (encoded env (AList.update ''stream_options''
                      (VDict (AList.update ''include_usage'' (VBool True) options)) params), True)
                    else Inr (b, False)
                | _ \<Rightarrow> if truthy (dget params ''stream'') then Inl (AttributeError ''get'') else Inr (b, False))
           | Some _ \<Rightarrow> Inl (AttributeError ''get'')))"

section \<open>What the gateway lets through\<close>

lemma route_None:
  assumes "route g agent model_id b at_prefix = Inr None"
  shows "\<exists>index. llms_by_model_id g = Some index \<and>
    (\<forall>llm. map_of index (normalize_model_id model_id) = Some llm \<and> dhas llm ''agents'' \<longrightarrow>
      (\<exists>agents cap. val_or (dget llm ''agents'') (VDict []) = VDict agents \<and> map_of agents agent = Some cap \<and>
        (cap = VNone \<or> (\<exists>cost. worst_case_cost (gw_prices g) b llm at_prefix = Inr cost \<and> \<not> num_less cap cost))))"
proof -
  obtain index where index: "llms_by_model_id g = Some index"
    using assms by (auto simp: route_def split: option.splits)
  have "\<exists>agents cap. val_or (dget llm ''agents'') (VDict []) = VDict agents \<and> map_of agents agent = Some cap \<and>
        (cap = VNone \<or> (\<exists>cost. worst_case_cost (gw_prices g) b llm at_prefix = Inr cost \<and> \<not> num_less cap cost))"
    if llm: "map_of index (normalize_model_id model_id) = Some llm" "dhas llm ''agents''" for llm
  proof (cases "val_or (dget llm ''agents'') (VDict [])")
    case (VDict agents)
    from llm(2) have "llm \<noteq> []" by (auto simp: dhas_def)
    with assms index llm VDict obtain cap where cap: "map_of agents agent = Some cap"
      by (auto simp: route_def split: option.splits)
    have "\<exists>cost. worst_case_cost (gw_prices g) b llm at_prefix = Inr cost \<and> \<not> num_less cap cost" if "cap \<noteq> VNone"
    proof (cases "worst_case_cost (gw_prices g) b llm at_prefix")
      case (Inl e)
      with assms index llm VDict cap that \<open>llm \<noteq> []\<close> show ?thesis
        by (cases e) (auto simp: route_def split: if_splits)
    next
      case (Inr cost)
      with assms index llm VDict cap that \<open>llm \<noteq> []\<close> have "py_less cap cost = Inr False"
        by (auto simp: route_def elim!: res_bnd_InrE split: if_splits)
      with Inr show ?thesis using py_less_num by simp
    qed
    with VDict cap show ?thesis by blast
  qed (use assms index llm in \<open>auto simp: route_def dhas_def split: if_splits\<close>)
  with index show ?thesis by blast
qed


lemma set_system_model:
  assumes "set_system env p params subpath prompt = Inr (Some params')"
  shows "dget params' ''model'' = dget params ''model''"
  using assms
  by (cases p) (auto simp: set_system_def bedrock_system_def elim!: res_bnd_InrE split: if_splits prod.splits)

lemma apply_prompt_model:
  assumes "apply_prompt env prompts p name subpath b = Inr (b', version)" "body_doc b' = Some (VDict d')"
  shows "\<exists>d. body_doc b = Some (VDict d) \<and> dget d' ''model'' = dget d ''model''"
proof -
  obtain names where n: "prompts = VDict names"
    using assms(1) by (cases prompts) (auto simp: apply_prompt_def)
  show ?thesis
  proof (cases "b' = b")
    case True
    with assms(2) show ?thesis by auto
  next
    case False
    then obtain params where params: "body_doc b = Some (VDict params)"
      using assms(1) n by (auto simp: apply_prompt_def Let_def split: if_splits option.splits val.splits)
    with assms(1) n False obtain content params' where "set_system env p params subpath content = Inr (Some params')"
      "b' = encoded env params'"
      by (auto simp: apply_prompt_def Let_def elim!: res_bnd_InrE split: if_splits option.splits)
    with assms(2) params show ?thesis
      by (auto simp: set_system_model body_doc_def encoded_def)
  qed
qed

text \<open>Once governance has switched an agent to a model, no call the gateway sends on asks for
  another: an OpenAI or Anthropic body names that model or none, and a Bedrock operation it can
  read names it in the path. The prompt, put in afterwards, does not undo the switch.\<close>

theorem switched_model_is_asked:
  assumes "gw_rules g = Some rules" "model_for rules (g_agent env) = Some m" "m \<noteq> []"
    and "proxy_request env g c = Inr (cx, Forwarded subpath b)"
  shows "if lc_provider c = Bedrock
    then (case bedrock_parse (lc_subpath c) of Inl _ \<Rightarrow> subpath = lc_subpath c
       | Inr (_, op) \<Rightarrow> subpath = ''model/'' @ m @ ''/'' @ op)
    else (case body_doc b of Some (VDict d) \<Rightarrow> dget d ''model'' \<in> {VNone, VStr m} | _ \<Rightarrow> True)"
proof -
  obtain b0 where sw: "switch_model env (lc_provider c) (lc_subpath c) (lc_body c) m = (subpath, b0)"
    and ap: "\<exists>version. apply_prompt env (current_prompts g) (lc_provider c) (prompt_name_of env c) subpath b0 = Inr (b, version)"
    using assms by (cases m) (auto simp: proxy_request_def switched_def Let_def elim!: res_bnd_InrE split: prod.splits option.splits)
  show ?thesis
  proof (cases "lc_provider c = Bedrock")
    case True
    with sw show ?thesis by (auto simp: switch_model_def split: sum.splits)
  next
    case False
    have "dget d ''model'' \<in> {VNone, VStr m}" if d: "body_doc b = Some (VDict d)" for d
    proof -
      from ap d apply_prompt_model obtain d0 where d0: "body_doc b0 = Some (VDict d0)" "dget d ''model'' = dget d0 ''model''"
        by blast
      have "\<exists>d1. body_doc (lc_body c) = Some (VDict d1) \<and>
          (d0 = d1 \<and> dget d1 ''model'' \<in> {VNone, VStr m} \<or> d0 = AList.update ''model'' (VStr m) d1)"
        using sw False d0(1)
        by (cases "lc_provider c") (auto simp: switch_model_def body_doc_def encoded_def split: option.splits val.splits if_splits)
      with d0(2) show ?thesis by auto
    qed
    with False show ?thesis by (auto split: option.split val.split)
  qed
qed

section \<open>Calls\<close>

definition demo_llms :: val where
  "demo_llms = VDict [(''big'', VDict [(''model_id'', VStr ''gpt-big''), (''max_tokens'', VInt 1000),
       (''agents'', VDict [(''planner'', VFloat (Fin (1 / 100)))])]),
     (''claude'', VDict [(''model_id'', VStr ''us.anthropic.claude''), (''agents'', VDict [])])]"

definition demo_prices :: price_tables where
  "demo_prices = \<lparr>token_cost_by_model_id = [(''gpt-big'', VInt 10, VInt 30, VInt 10, VInt 10)], hourly_cost_by_machine_type = []\<rparr>"

definition demo_genv :: genv where
  "demo_genv = \<lparr>g_agent = ''planner'', g_size = (\<lambda>_. 400), g_str = (\<lambda>_. [])\<rparr>"

definition demo_gateway :: gateway where
  "demo_gateway = start_refresh plain_iso (Some (rd_set LLMS_CONFIG_KEY (Doc demo_llms) empty_redis)) (fresh_gateway demo_prices)"

definition chat :: "dict \<Rightarrow> llm_call" where
  "chat d = \<lparr>lc_provider = Openai, lc_method = ''POST'', lc_subpath = ''v1/chat/completions'', lc_body = (Doc (VDict d), 400),
     lc_headers = [(''X-CanyonOS-Upstream'', ''https://api.openai.com:443'')]\<rparr>"

definition sent :: "genv \<Rightarrow> gateway \<Rightarrow> llm_call \<Rightarrow> (string \<times> body) option" where
  "sent env g c = (case proxy_request env g c of Inr (_, Forwarded subpath b) \<Rightarrow> Some (subpath, b) | _ \<Rightarrow> None)"

lemma sent_forwarded: "sent env g c = Some (subpath, b) \<Longrightarrow> \<exists>cx. proxy_request env g c = Inr (cx, Forwarded subpath b)"
  by (auto simp: sent_def split: sum.splits verdict_of_call.splits)

definition small_chat :: dict where
  "small_chat = [(''model'', VStr ''gpt-big''), (''max_tokens'', VInt 100)]"

lemma small_chat_sent: "sent demo_genv demo_gateway (chat small_chat) = Some (''v1/chat/completions'', Doc (VDict small_chat), 400)"
  by code_simp


definition switching_gateway :: gateway where
  "switching_gateway = demo_gateway\<lparr>gw_rules := Some demo_rules\<rparr>"

theorem switched_model_is_asked_witness:
  "model_for demo_rules ''writer'' = Some ''small'' \<and>
   sent (demo_genv\<lparr>g_agent := ''writer''\<rparr>) switching_gateway (chat small_chat) =
     Some (''v1/chat/completions'', Doc (VDict (AList.update ''model'' (VStr ''small'') small_chat)), 400)"
proof -
  let ?env = "demo_genv\<lparr>g_agent := ''writer''\<rparr>" and ?b = "(Doc (VDict (AList.update ''model'' (VStr ''small'') small_chat)), 400)"
  have m: "model_for demo_rules ''writer'' = Some ''small''" by code_simp
  have s: "sent ?env switching_gateway (chat small_chat) = Some (''v1/chat/completions'', ?b)" by code_simp
  then obtain cx where cx: "proxy_request ?env switching_gateway (chat small_chat) = Inr (cx, Forwarded ''v1/chat/completions'' ?b)"
    using sent_forwarded by blast
  from switched_model_is_asked[OF _ _ _ cx, of demo_rules "''small''"] m s show ?thesis
    by (simp add: switching_gateway_def)
qed

section \<open>Calls the rules do not stop\<close>

text \<open>The worst case is priced at the first limit named, whatever the others allow.\<close>

lemma first_limit_is_priced:
  "sent demo_genv demo_gateway (chat [(''model'', VStr ''gpt-big''), (''max_tokens'', VInt 1), (''max_completion_tokens'', VInt 1000000)]) \<noteq> None"
  by code_simp

text \<open>A negative number of choices makes the worst case negative.\<close>

lemma negative_choices_cost_nothing:
  "sent demo_genv demo_gateway (chat [(''model'', VStr ''gpt-big''), (''max_tokens'', VInt 1000000), (''n'', VInt (-1))]) \<noteq> None"
  by code_simp

text \<open>A Bedrock call whose body names another model is judged as that model, and sent to the one in
  its path, which no agent may use here.\<close>

lemma bedrock_body_hides_the_model:
  "sent demo_genv demo_gateway
     \<lparr>lc_provider = Bedrock, lc_method = ''POST'', lc_subpath = ''model/us.anthropic.claude/invoke'',
       lc_body = (Doc (VDict [(''messages'', VList []), (''model'', VStr ''other'')]), 40), lc_headers = []\<rparr>
   = Some (''model/us.anthropic.claude/invoke'', Doc (VDict [(''messages'', VList []), (''model'', VStr ''other'')]), 40) \<and>
   sent demo_genv demo_gateway
     \<lparr>lc_provider = Bedrock, lc_method = ''POST'', lc_subpath = ''model/us.anthropic.claude/invoke'',
       lc_body = (Doc (VDict [(''messages'', VList [])]), 40), lc_headers = []\<rparr> = None"
  by code_simp

text \<open>A hop-by-hop header of RFC 7230 that is sent on.\<close>

lemma proxy_authorization_sent_on: "client_headers [(''Proxy-Authorization'', v)] [UPSTREAM_HEADER] = [(''Proxy-Authorization'', v)]"
  by (simp add: client_headers_def) code_simp

end
