(* ===== verification/Gateway_Usage.thy ===== *)
theory Gateway_Usage
  imports Gateway_Routing
begin

text \<open>
  What the LLM gateway records of a call (\<open>llm_gateway/hooks.py\<close>) and how it relays a streamed
  response while it reads the token usage out of it (\<open>HttpProvider\<close> in \<open>llm_gateway/providers/base.py\<close>,
  \<open>providers/openai.py\<close>, \<open>providers/anthropic.py\<close>). A stream is a list of chunks of bytes;
  \<open>js\<close> is \<open>json.loads\<close> on bytes, \<open>None\<close> when it raises.
\<close>

section \<open>Token usage\<close>

record token_usage =
  u_input :: val
  u_output :: val
  u_total :: val
  u_cache_read :: val
  u_cache_write :: val

record response =
  rs_status :: int
  rs_content :: rtext
  rs_stream :: bool
  rs_stream_usage :: val
  rs_stream_error :: bool

text \<open>\<open>if not usage: return None\<close>, and a \<open>usage\<close> that is no mapping raises at its first \<open>get\<close>.\<close>

definition with_dict :: "val \<Rightarrow> (dict \<Rightarrow> exn + token_usage) \<Rightarrow> exn + token_usage option" where
  "with_dict usage f = (if \<not> truthy usage then Inr None
     else case usage of VDict d \<Rightarrow> map_sum id Some (f d) | _ \<Rightarrow> Inl (AttributeError ''get''))"

definition usage_from_dict :: "val \<Rightarrow> exn + token_usage option" where
  "usage_from_dict usage = with_dict usage (\<lambda>d.
     let cache_read = dget_or d ''cacheReadInputTokens'' (VInt 0); cache_write = dget_or d ''cacheWriteInputTokens'' (VInt 0) in
     res_bnd (py_add (dget_or d ''inputTokens'' (VInt 0)) cache_read) (\<lambda>i.
     res_bnd (py_add i cache_write) (\<lambda>input.
     Inr \<lparr>u_input = input, u_output = dget_or d ''outputTokens'' (VInt 0), u_total = dget_or d ''totalTokens'' (VInt 0),
       u_cache_read = cache_read, u_cache_write = cache_write\<rparr>)))"

definition usage_from_anthropic_dict :: "val \<Rightarrow> exn + token_usage option" where
  "usage_from_anthropic_dict usage = with_dict usage (\<lambda>d.
     let cache_read = dget_or d ''cache_read_input_tokens'' (VInt 0); cache_write = dget_or d ''cache_creation_input_tokens'' (VInt 0);
         out = dget_or d ''output_tokens'' (VInt 0) in
     res_bnd (py_add (dget_or d ''input_tokens'' (VInt 0)) cache_read) (\<lambda>i.
     res_bnd (py_add i cache_write) (\<lambda>input.
     res_bnd (py_add input out) (\<lambda>total.
     Inr \<lparr>u_input = input, u_output = out, u_total = total, u_cache_read = cache_read, u_cache_write = cache_write\<rparr>))))"

text \<open>\<open>input_tokens + output_tokens\<close> is computed for its default even when \<open>total_tokens\<close> is given.\<close>

definition usage_from_openai_dict :: "val \<Rightarrow> exn + token_usage option" where
  "usage_from_openai_dict usage = with_dict usage (\<lambda>d.
     let input = dget_or d ''prompt_tokens'' (dget_or d ''input_tokens'' (VInt 0));
         out = dget_or d ''completion_tokens'' (dget_or d ''output_tokens'' (VInt 0)) in
     case val_or (val_or (dget d ''prompt_tokens_details'') (dget d ''input_tokens_details'')) (VDict []) of
       VDict details \<Rightarrow> res_bnd (py_add input out) (\<lambda>total.
         Inr \<lparr>u_input = input, u_output = out, u_total = dget_or d ''total_tokens'' total,
           u_cache_read = dget_or details ''cached_tokens'' (VInt 0), u_cache_write = VInt 0\<rparr>)
     | _ \<Rightarrow> Inl (AttributeError ''get''))"

definition extract_json_usage :: "response \<Rightarrow> (val \<Rightarrow> exn + token_usage option) \<Rightarrow> exn + token_usage option" where
  "extract_json_usage resp parser = (if rs_status resp \<noteq> 200 then Inr None
     else case loads (rs_content resp) of
         None \<Rightarrow> Inr None
       | Some (VDict data) \<Rightarrow> parser (dget data ''usage'')
       | Some _ \<Rightarrow> Inl (AttributeError ''get''))"

definition extract_usage :: "ctx \<Rightarrow> response \<Rightarrow> exn + token_usage option" where
  "extract_usage cx resp = (case cx_provider cx of
       Bedrock \<Rightarrow>
         if rs_stream resp then usage_from_dict (rs_stream_usage resp)
         else if (case bedrock_model_and_op (cx_subpath cx) of Some (m, op) \<Rightarrow> op = ''invoke'' \<and> prefix ''anthropic.'' m | None \<Rightarrow> False)
         then extract_json_usage resp usage_from_anthropic_dict
         else extract_json_usage resp usage_from_dict
     | Anthropic \<Rightarrow> if rs_stream resp then usage_from_anthropic_dict (rs_stream_usage resp)
         else extract_json_usage resp usage_from_anthropic_dict
     | Openai \<Rightarrow> if rs_stream resp then usage_from_openai_dict (rs_stream_usage resp)
         else extract_json_usage resp usage_from_openai_dict)"

section \<open>Recording a call\<close>

definition future_hash :: "string \<Rightarrow> string" where "future_hash fid = ''future:'' @ fid"

definition is_error :: "response \<Rightarrow> bool" where
  "is_error resp \<longleftrightarrow> 400 \<le> rs_status resp \<or> (rs_stream resp \<and> rs_stream_error resp)"

definition counts_of :: "response \<Rightarrow> token_usage option \<Rightarrow> dict" where
  "counts_of resp usage = (''errors'', VInt (if is_error resp then 1 else 0)) #
     (case usage of None \<Rightarrow> []
      | Some u \<Rightarrow> [(''input_token_count'', u_input u), (''output_token_count'', u_output u), (''token_count'', u_total u),
          (''input_cache_tokens'', u_cache_read u), (''input_cache_write_tokens'', u_cache_write u)])"

text \<open>\<open>HINCRBY\<close> with what Python hands it; only an integer is one to Redis.\<close>

definition count_up :: "string \<Rightarrow> string \<times> val \<Rightarrow> (redis, unit) act" where
  "count_up key c = (case snd c of
       VInt n \<Rightarrow> bnd (rd_hincrby key (fst c) n) (\<lambda>_. ret ())
     | _ \<Rightarrow> raise (RedisError ''value is not an integer''))"

definition record_call :: "ctx \<Rightarrow> string \<Rightarrow> string \<Rightarrow> dict \<Rightarrow> (redis, unit) act" where
  "record_call cx fid model_id counts = (let key = future_hash fid in
     bnd (modify_st (rd_hset key ''model'' (Raw model_id))) (\<lambda>_.
     bnd (modify_st (rd_hset key ''price_prefix'' (Raw (case cx_price_prefix cx of None \<Rightarrow> [] | Some p \<Rightarrow> p)))) (\<lambda>_.
     bnd (if cx_prompt_version cx \<noteq> None \<and> cx_prompt_version cx \<noteq> Some []
          then bnd (modify_st (rd_hset key ''prompt_name'' (Raw (the (cx_prompt_name cx))))) (\<lambda>_.
               modify_st (rd_hset key ''prompt_version'' (Raw (the (cx_prompt_version cx)))))
          else ret ()) (\<lambda>_.
     for_each counts (count_up key)))))"

text \<open>\<open>up\<close> says whether Redis answers: the first write raises when it does not, and the telemetry of
  the call is lost.\<close>

definition on_response :: "bool \<Rightarrow> ctx \<Rightarrow> response \<Rightarrow> (redis, unit) act" where
  "on_response up cx resp =
     bnd (of_res (extract_usage cx resp)) (\<lambda>usage.
     case cx_future cx of
       Some (c # cs) \<Rightarrow>
         (if up then catch (record_call cx (c # cs) (extract_model_id (cx_provider cx) (cx_subpath cx) (cx_model cx)) (counts_of resp usage)) (\<lambda>_. ret ())
          else ret ())
     | _ \<Rightarrow> ret ())"

section \<open>Streams\<close>

text \<open>\<open>buf.split(b"\n")\<close>.\<close>

fun split_lines :: "string \<Rightarrow> string list" where
  "split_lines [] = [[]]"
| "split_lines (c # cs) = (if c = CHR 0x0A then [] # split_lines cs
     else case split_lines cs of l # ls \<Rightarrow> (c # l) # ls | [] \<Rightarrow> [[c]])"

definition is_byte_space :: "char \<Rightarrow> bool" where
  "is_byte_space c \<longleftrightarrow> (let n = of_char c :: nat in n = 32 \<or> (9 \<le> n \<and> n \<le> 13))"

definition strip_bytes :: "string \<Rightarrow> string" where
  "strip_bytes s = rev (dropWhile is_byte_space (rev (dropWhile is_byte_space s)))"

definition parse_llm_stream_line :: "(string \<Rightarrow> val option) \<Rightarrow> string \<Rightarrow> val option" where
  "parse_llm_stream_line js line =
     (if \<not> prefix ''data:'' line then None
      else let data = strip_bytes (drop 5 line) in
        if data = [] \<or> data = ''[DONE]'' then None else js data)"

text \<open>\<open>merge_stream_usage\<close>: the usage after the event and whether it raised.\<close>

definition anthropic_incoming :: "dict \<Rightarrow> exn + val option" where
  "anthropic_incoming payload =
     (if dget payload ''type'' = VStr ''message_start''
      then (case val_or (dget payload ''message'') (VDict []) of
          VDict m \<Rightarrow> Inr (Some (val_or (dget m ''usage'') (VDict [])))
        | _ \<Rightarrow> Inl (AttributeError ''get''))
      else if dget payload ''type'' = VStr ''message_delta'' then Inr (Some (val_or (dget payload ''usage'') (VDict [])))
      else Inr None)"

definition merge_anthropic :: "dict \<Rightarrow> dict \<Rightarrow> dict \<times> bool" where
  "merge_anthropic payload usage = (case anthropic_incoming payload of
       Inl _ \<Rightarrow> (usage, True)
     | Inr None \<Rightarrow> (usage, False)
     | Inr (Some (VDict incoming)) \<Rightarrow> (fold (\<lambda>(k, v) u. if truthy v then AList.update k v u else u) incoming usage, False)
     | Inr (Some _) \<Rightarrow> (usage, True))"

text \<open>\<open>usage.update(x)\<close> of a mapping; of anything else it raises (a list of pairs, which Python would
  take, is no usage object).\<close>

definition merge_openai :: "dict \<Rightarrow> dict \<Rightarrow> dict \<times> bool" where
  "merge_openai payload usage =
     (case val_or (dget payload ''response'') (VDict []) of
        VDict response \<Rightarrow>
          (let event_usage = val_or (dget payload ''usage'') (dget response ''usage'') in
           if \<not> truthy event_usage then (usage, False)
           else case event_usage of VDict u \<Rightarrow> (dict_update u usage, False) | _ \<Rightarrow> (usage, True))
      | _ \<Rightarrow> (usage, True))"

definition merge_stream_usage :: "provider \<Rightarrow> dict \<Rightarrow> dict \<Rightarrow> dict \<times> bool" where
  "merge_stream_usage p = (if p = Anthropic then merge_anthropic else merge_openai)"

record relay =
  y_buf :: string
  y_usage :: dict
  y_error :: bool

definition relay_line :: "(string \<Rightarrow> val option) \<Rightarrow> provider \<Rightarrow> string \<Rightarrow> relay \<Rightarrow> relay" where
  "relay_line js p line y = (case parse_llm_stream_line js line of
       Some (VDict payload) \<Rightarrow> (let (usage, raised) = merge_stream_usage p payload (y_usage y) in
         y\<lparr>y_usage := usage, y_error := y_error y \<or> raised\<rparr>)
     | _ \<Rightarrow> y)"

definition relay_chunk :: "(string \<Rightarrow> val option) \<Rightarrow> provider \<Rightarrow> string \<Rightarrow> relay \<Rightarrow> relay" where
  "relay_chunk js p chunk y = (let lines = split_lines (y_buf y @ chunk) in
     fold (relay_line js p) (butlast lines) (y\<lparr>y_buf := last lines\<rparr>))"

text \<open>How a relay ends: the upstream completes, it breaks, or the caller goes away.\<close>

datatype ending = Completed | Broken | Abandoned

definition relay_stream :: "(string \<Rightarrow> val option) \<Rightarrow> provider \<Rightarrow> string list \<Rightarrow> ending \<Rightarrow> string list \<times> val \<times> bool" where
  "relay_stream js p chunks e =
     (let y = fold (relay_chunk js p) chunks \<lparr>y_buf = [], y_usage = [], y_error = False\<rparr>;
          error = (y_error y \<or> e = Broken) in
      (chunks, if y_usage y \<noteq> [] \<and> (e = Completed \<or> error) then VDict (y_usage y) else VNone, error))"

text \<open>\<open>_drop_usage_chunk\<close>: the state is the unfinished line, the output what is yielded.\<close>

definition is_usage_line :: "(string \<Rightarrow> val option) \<Rightarrow> string \<Rightarrow> bool" where
  "is_usage_line js line \<longleftrightarrow> (case parse_llm_stream_line js line of
       Some (VDict payload) \<Rightarrow> dget payload ''choices'' = VList [] | _ \<Rightarrow> False)"

definition kept_lines :: "(string \<Rightarrow> val option) \<Rightarrow> string list \<Rightarrow> string" where
  "kept_lines js lines = concat (map (\<lambda>l. l @ [CHR 0x0A]) (filter (\<lambda>l. \<not> is_usage_line js l) lines))"

fun drop_usage_chunk :: "(string \<Rightarrow> val option) \<Rightarrow> string \<Rightarrow> string list \<Rightarrow> string list" where
  "drop_usage_chunk js buf [] = (if buf = [] then [] else [buf])"
| "drop_usage_chunk js buf (chunk # chunks) =
     (let lines = split_lines (buf @ chunk); kept = kept_lines js (butlast lines) in
      (if kept = [] then [] else [kept]) @ drop_usage_chunk js (last lines) chunks)"

section \<open>Chunks do not matter\<close>

lemma split_lines_ne [simp]: "split_lines s \<noteq> []"
  by (induction s) (auto split: list.splits)

lemma split_lines_append:
  "split_lines (x @ y) = butlast (split_lines x) @ split_lines (last (split_lines x) @ y)"
proof (induction x)
  case (Cons c x)
  show ?case
  proof (cases "c = CHR 0x0A")
    case False
    obtain l ls where l: "split_lines x = l # ls" by (cases "split_lines x") auto
    show ?thesis
    proof (cases "ls = []")
      case True
      with Cons l False show ?thesis by (simp split: list.splits)
    next
      case ls: False
      with Cons l False show ?thesis by simp
    qed
  qed (use Cons in simp)
qed simp

lemma relay_line_buf [simp]: "y_buf (relay_line js p l y) = y_buf y"
  by (auto simp: relay_line_def Let_def split: option.split val.split prod.split)

lemma relay_line_set_buf: "relay_line js p l (y\<lparr>y_buf := b\<rparr>) = relay_line js p l y\<lparr>y_buf := b\<rparr>"
  by (auto simp: relay_line_def Let_def split: option.split val.split prod.split)

lemma relay_lines_set_buf: "fold (relay_line js p) ls (y\<lparr>y_buf := b\<rparr>) = fold (relay_line js p) ls y\<lparr>y_buf := b\<rparr>"
  by (induction ls arbitrary: y) (simp_all add: relay_line_set_buf)

lemma relay_chunk_append: "relay_chunk js p (c @ d) y = relay_chunk js p d (relay_chunk js p c y)"
proof -
  let ?l = "split_lines (y_buf y @ c)"
  have b: "y_buf (relay_chunk js p c y) = last ?l"
    by (simp add: relay_chunk_def Let_def relay_lines_set_buf)
  have "split_lines (y_buf y @ c @ d) = butlast ?l @ split_lines (last ?l @ d)"
    using split_lines_append[of "y_buf y @ c" d] by simp
  then show ?thesis
    by (simp add: relay_chunk_def Let_def b relay_lines_set_buf butlast_append)
qed

lemma relay_chunk_Nil: "y_buf y = last (split_lines (y_buf y)) \<and> butlast (split_lines (y_buf y)) = [] \<Longrightarrow> relay_chunk js p [] y = y"
  by (simp add: relay_chunk_def Let_def)

lemma relay_chunks_concat: "fold (relay_chunk js p) (c # cs) y = relay_chunk js p (concat (c # cs)) y"
  by (induction cs arbitrary: c y) (simp_all add: relay_chunk_append)

lemma drop_usage_concat:
  "concat (drop_usage_chunk js buf chunks) =
     (let lines = split_lines (buf @ concat chunks) in
      if chunks = [] then buf else kept_lines js (butlast lines) @ last lines)"
proof (induction chunks arbitrary: buf)
  case (Cons c cs)
  let ?l = "split_lines (buf @ c)"
  have l: "split_lines (buf @ c @ concat cs) = butlast ?l @ split_lines (last ?l @ concat cs)"
    using split_lines_append[of "buf @ c"] by simp
  have k: "kept_lines js (xs @ ys) = kept_lines js xs @ kept_lines js ys" for xs ys
    by (simp add: kept_lines_def)
  show ?case
  proof (cases "cs = []")
    case True
    then show ?thesis by (simp add: Let_def)
  next
    case False
    with Cons.IH[of "last ?l"] show ?thesis by (simp add: Let_def l k butlast_append)
  qed
qed simp


section \<open>Totals\<close>

definition COUNT_FIELDS :: "string list" where
  "COUNT_FIELDS = [''errors'', ''input_token_count'', ''output_token_count'', ''token_count'', ''input_cache_tokens'',
     ''input_cache_write_tokens'']"

definition tally :: "redis \<Rightarrow> string \<Rightarrow> string \<Rightarrow> int" where
  "tally r fid f = (case rd_hget (future_hash fid) f r of Some (Doc (VInt i)) \<Rightarrow> i | _ \<Rightarrow> 0)"

definition countable_totals :: "redis \<Rightarrow> bool" where
  "countable_totals r \<longleftrightarrow> (\<forall>fid. \<forall>f\<in>set COUNT_FIELDS. rd_hget (future_hash fid) f r = None \<or>
     (\<exists>i. rd_hget (future_hash fid) f r = Some (Doc (VInt i))))"

text \<open>What a call adds to a future: nothing when it is another's, when it names none, or when its usage
  cannot be read.\<close>

definition contribution :: "string \<Rightarrow> string \<Rightarrow> ctx \<times> response \<Rightarrow> int" where
  "contribution fid f c = (case c of (cx, resp) \<Rightarrow>
     if cx_future cx \<noteq> Some fid \<or> fid = [] then 0
     else case extract_usage cx resp of
         Inl _ \<Rightarrow> 0
       | Inr usage \<Rightarrow> (case map_of (counts_of resp usage) f of Some (VInt n) \<Rightarrow> n | _ \<Rightarrow> 0))"

definition whole_counts_of :: "ctx \<times> response \<Rightarrow> bool" where
  "whole_counts_of c \<longleftrightarrow> (case c of (cx, resp) \<Rightarrow> \<forall>usage. extract_usage cx resp = Inr usage \<longrightarrow>
     (\<forall>(f, v)\<in>set (counts_of resp usage). \<exists>n. v = VInt n))"

lemma future_hash_inj [simp]: "future_hash a = future_hash b \<longleftrightarrow> a = b"
  by (simp add: future_hash_def)

lemma count_up_run:
  assumes "countable_totals r" "f \<in> set COUNT_FIELDS"
  shows "count_up (future_hash fid) (f, VInt n) r = (Inr (), rd_hset (future_hash fid) f (Doc (VInt (tally r fid f + n))) r)"
proof -
  from assms(1)[unfolded countable_totals_def, rule_format, OF assms(2), of fid]
  show ?thesis by (elim disjE exE) (simp_all add: count_up_def rd_hincrby_def tally_def bnd_def ret_def)
qed

lemma tally_hset: "tally (rd_hset (future_hash fid) f (Doc (VInt i)) r) fid' f' = (if fid' = fid \<and> f' = f then i else tally r fid' f')"
  by (simp add: tally_def)

lemma countable_hset: "countable_totals r \<Longrightarrow> countable_totals (rd_hset (future_hash fid) f (Doc (VInt i)) r)"
  by (auto simp: countable_totals_def)

lemma note_fields:
  assumes "f \<notin> set COUNT_FIELDS"
  shows "countable_totals (rd_hset k f t r) = countable_totals r"
    and "g \<in> set COUNT_FIELDS \<Longrightarrow> tally (rd_hset k f t r) fid g = tally r fid g"
  using assms by (auto simp: countable_totals_def tally_def)

lemma count_all:
  assumes "countable_totals r" "fst ` set cs \<subseteq> set COUNT_FIELDS" "distinct (map fst cs)" "\<forall>(f, v)\<in>set cs. \<exists>n. v = VInt n"
  shows "\<exists>r'. for_each cs (count_up (future_hash fid)) r = (Inr (), r') \<and> countable_totals r' \<and>
    (\<forall>fid' f. tally r' fid' f = tally r fid' f +
       (if fid' = fid then (case map_of cs f of Some (VInt n) \<Rightarrow> n | _ \<Rightarrow> 0) else 0))"
  using assms
proof (induction cs arbitrary: r)
  case (Cons c cs)
  obtain f n where c: "c = (f, VInt n)" using Cons.prems(4) by (cases c) auto
  let ?r = "rd_hset (future_hash fid) f (Doc (VInt (tally r fid f + n))) r"
  have run: "count_up (future_hash fid) (f, VInt n) r = (Inr (), ?r)"
    using Cons.prems c by (simp add: count_up_run)
  have "countable_totals ?r" using Cons.prems(1) by (rule countable_hset)
  from Cons.IH[OF this] Cons.prems obtain r' where r': "for_each cs (count_up (future_hash fid)) ?r = (Inr (), r')"
    "countable_totals r'" "\<forall>fid' f. tally r' fid' f = tally ?r fid' f +
       (if fid' = fid then (case map_of cs f of Some (VInt n) \<Rightarrow> n | _ \<Rightarrow> 0) else 0)" by auto
  have "f \<notin> fst ` set cs" using Cons.prems(3) c by auto
  then have "map_of cs f = None" by (simp add: map_of_eq_None_iff)
  with r' show ?case by (auto simp: bnd_Inr[where m="count_up (future_hash fid) (f, VInt n)", OF run] tally_hset c)
qed (simp add: ret_def)

lemma counts_of_fields: "fst ` set (counts_of resp usage) \<subseteq> set COUNT_FIELDS" "distinct (map fst (counts_of resp usage))"
  by (auto simp: counts_of_def COUNT_FIELDS_def split: option.split)

lemma note_names: "''model'' \<notin> set COUNT_FIELDS" "''price_prefix'' \<notin> set COUNT_FIELDS" "''prompt_name'' \<notin> set COUNT_FIELDS"
  "''prompt_version'' \<notin> set COUNT_FIELDS"
  by (auto simp: COUNT_FIELDS_def)

lemma record_call_totals:
  assumes "countable_totals r" "fst ` set cs \<subseteq> set COUNT_FIELDS" "distinct (map fst cs)" "\<forall>(f, v)\<in>set cs. \<exists>n. v = VInt n"
  shows "\<exists>r'. record_call cx fid model_id cs r = (Inr (), r') \<and> countable_totals r' \<and>
    (\<forall>fid'. \<forall>f\<in>set COUNT_FIELDS. tally r' fid' f = tally r fid' f +
       (if fid' = fid then (case map_of cs f of Some (VInt n) \<Rightarrow> n | _ \<Rightarrow> 0) else 0))"
proof -
  have "\<exists>r1. record_call cx fid model_id cs r = for_each cs (count_up (future_hash fid)) r1 \<and> countable_totals r1 \<and>
      (\<forall>fid'. \<forall>f\<in>set COUNT_FIELDS. tally r1 fid' f = tally r fid' f)"
    using assms(1) by (auto simp: record_call_def Let_def bnd_run modify_run note_fields note_names ret_run)
  then obtain r1 where r1: "record_call cx fid model_id cs r = for_each cs (count_up (future_hash fid)) r1" "countable_totals r1"
      "\<forall>fid'. \<forall>f\<in>set COUNT_FIELDS. tally r1 fid' f = tally r fid' f" by blast
  from count_all[OF r1(2) assms(2-4), of fid] r1 show ?thesis by auto
qed

lemma on_response_totals:
  assumes "countable_totals r" "whole_counts_of (cx, resp)"
  shows "countable_totals (snd (on_response True cx resp r)) \<and>
    (\<forall>f\<in>set COUNT_FIELDS. tally (snd (on_response True cx resp r)) fid f = tally r fid f + contribution fid f (cx, resp))"
proof (cases "extract_usage cx resp")
  case (Inl e)
  with assms show ?thesis by (simp add: on_response_def bnd_run of_res_run contribution_def)
next
  case (Inr usage)
  show ?thesis
  proof (cases "\<exists>c cs. cx_future cx = Some (c # cs)")
    case True
    then obtain c cs where f: "cx_future cx = Some (c # cs)" by blast
    have whole: "\<forall>(f, v)\<in>set (counts_of resp usage). \<exists>n. v = VInt n"
      using assms(2) Inr by (auto simp: whole_counts_of_def)
    from record_call_totals[OF assms(1) counts_of_fields whole, of cx "c # cs" "extract_model_id (cx_provider cx) (cx_subpath cx) (cx_model cx)"]
    obtain r' where r': "record_call cx (c # cs) (extract_model_id (cx_provider cx) (cx_subpath cx) (cx_model cx)) (counts_of resp usage) r = (Inr (), r')"
      "countable_totals r'" "\<forall>fid'. \<forall>f\<in>set COUNT_FIELDS. tally r' fid' f = tally r fid' f +
       (if fid' = c # cs then (case map_of (counts_of resp usage) f of Some (VInt n) \<Rightarrow> n | _ \<Rightarrow> 0) else 0)" by blast
    have run: "on_response True cx resp r = (Inr (), r')"
      by (simp add: on_response_def bnd_run of_res_run Inr f catch_run r'(1))
    show ?thesis
      unfolding run using r'(2,3) Inr f by (auto simp: contribution_def)
  next
    case False
    then have "on_response True cx resp r = (Inr (), r)"
      by (auto simp: on_response_def bnd_run of_res_run Inr ret_run split: option.split list.split)
    moreover have "contribution fid f (cx, resp) = 0" for f
      using False by (cases fid) (auto simp: contribution_def)
    ultimately show ?thesis using assms(1) by simp
  qed
qed

text \<open>C33: every future's token and error totals are exactly the sums over its own LLM calls, however the
  calls of many futures interleave: nothing is lost, doubled or charged to another future.\<close>

theorem tokens_add_up:
  assumes "countable_totals r" "\<forall>c\<in>set calls. whole_counts_of c" "f \<in> set COUNT_FIELDS"
  shows "tally (fold (\<lambda>(cx, resp) r. snd (on_response True cx resp r)) calls r) fid f =
    tally r fid f + sum_list (map (contribution fid f) calls)"
  using assms
proof (induction calls arbitrary: r)
  case (Cons c calls)
  obtain cx resp where c: "c = (cx, resp)" by (cases c)
  with Cons.prems on_response_totals[of r cx resp fid] have
    "countable_totals (snd (on_response True cx resp r))"
    "tally (snd (on_response True cx resp r)) fid f = tally r fid f + contribution fid f c" by auto
  with Cons.IH[of "snd (on_response True cx resp r)"] Cons.prems c show ?case by simp
qed simp

section \<open>Two calls of a future\<close>

definition paid :: "string \<Rightarrow> int \<Rightarrow> ctx \<times> response" where
  "paid fid n = (\<lparr>cx_provider = Anthropic, cx_subpath = ''v1/messages'', cx_body = (Raw [], 0), cx_future = Some fid,
       cx_model = Some ''claude'', cx_prompt_name = None, cx_prompt_version = None, cx_price_prefix = None\<rparr>,
     \<lparr>rs_status = 200, rs_content = Doc (VDict [(''usage'', VDict [(''input_tokens'', VInt n), (''output_tokens'', VInt 1)])]),
       rs_stream = False, rs_stream_usage = VNone, rs_stream_error = False\<rparr>)"

theorem tokens_add_up_witness:
  "tally (fold (\<lambda>(cx, resp) r. snd (on_response True cx resp r)) [paid ''f1'' 5, paid ''f2'' 7, paid ''f1'' 2] empty_redis) ''f1'' ''token_count'' = 9"
proof -
  have c: "countable_totals empty_redis" by (simp add: countable_totals_def empty_redis_def rd_hget_def rd_hgetall_def)
  have w: "\<forall>c\<in>set [paid ''f1'' 5, paid ''f2'' 7, paid ''f1'' 2]. whole_counts_of c"
    by (auto simp: paid_def whole_counts_of_def extract_usage_def extract_json_usage_def usage_from_anthropic_dict_def with_dict_def
      dget_or_def dget_def counts_of_def Let_def)
  have "tally empty_redis ''f1'' ''token_count'' = 0" by code_simp
  moreover have "map (contribution ''f1'' ''token_count'') [paid ''f1'' 5, paid ''f2'' 7, paid ''f1'' 2] = [6, 0, 3]" by code_simp
  ultimately show ?thesis using tokens_add_up[OF c w, of "''token_count''" "''f1''"] by (simp add: COUNT_FIELDS_def)
qed

text \<open>A cache count that Anthropic leaves \<open>null\<close> makes the reading of the usage, and with it the call,
  fail, although the provider answered.\<close>

lemma null_cache_count_fails_the_call:
  "fst (on_response True (fst (paid ''f1'' 5)) ((snd (paid ''f1'' 5))\<lparr>rs_content :=
     Doc (VDict [(''usage'', VDict [(''input_tokens'', VInt 5), (''cache_read_input_tokens'', VNone)])])\<rparr>) empty_redis)
   = Inl (TypeError ''unsupported operand'')"
  by code_simp

end
