(* ===== verification/Config_Env.thy ===== *)
theory Config_Env
  imports Py_Values
begin

text \<open>
  The \<open>.env\<close> import and the \<open>${VAR}\<close> expansion every config goes through before it is read
  (\<open>controller/utils/config_env.py\<close>). The lines of a file and the answers about it are arguments; the
  environment is a partial function.
\<close>

type_synonym environ = "string \<Rightarrow> string option"

section \<open>The \<open>.env\<close> file\<close>

definition is_quoted :: "string \<Rightarrow> bool" where
  "is_quoted v \<longleftrightarrow> 2 \<le> length v \<and> hd v = last v \<and> hd v \<in> {CHR 0x27, CHR 0x22}"

definition unquoted :: "string \<Rightarrow> string" where
  "unquoted v = (if is_quoted v then butlast (tl v) else v)"

definition dotenv_entry :: "string \<Rightarrow> (string \<times> string) option" where
  "dotenv_entry raw = (let line = strip raw in
     if line = [] \<or> prefix ''#'' line then None
     else case split_first ''='' line of
         None \<Rightarrow> None
       | Some (key, val) \<Rightarrow> if strip key = [] then None else Some (strip key, unquoted (strip val)))"

text \<open>The first of a repeated key wins; \<open>None\<close> is no file.\<close>

fun dotenv_entries :: "string list \<Rightarrow> (string \<times> string) list" where
  "dotenv_entries [] = []"
| "dotenv_entries (line # rest) = (case dotenv_entry line of
       None \<Rightarrow> dotenv_entries rest
     | Some (key, v) \<Rightarrow> (key, v) # filter (\<lambda>(k, _). k \<noteq> key) (dotenv_entries rest))"

definition read_dotenv :: "string list option \<Rightarrow> (string \<times> string) list" where
  "read_dotenv file = (case file of None \<Rightarrow> [] | Some ls \<Rightarrow> dotenv_entries ls)"

text \<open>\<open>os.environ.setdefault\<close> of every entry.\<close>

definition load_dotenv :: "string list option \<Rightarrow> environ \<Rightarrow> environ" where
  "load_dotenv file environ = (\<lambda>k. case environ k of Some v \<Rightarrow> Some v | None \<Rightarrow> map_of (read_dotenv file) k)"

text \<open>The project's \<open>.env\<close>: whether it is a file and can be read, and its path.\<close>

definition resolve_env_file :: "bool \<Rightarrow> bool \<Rightarrow> string \<Rightarrow> exn + string option" where
  "resolve_env_file is_file readable path =
     (if \<not> is_file then Inr None
      else if \<not> readable then Inl (ValueError (''.env is not readable: '' @ path))
      else Inr (Some path))"

section \<open>References\<close>

definition is_name_char :: "char \<Rightarrow> bool" where
  "is_name_char c \<longleftrightarrow> (let n = of_char c :: nat in (65 \<le> n \<and> n \<le> 90) \<or> (97 \<le> n \<and> n \<le> 122) \<or> n = 95 \<or> is_digit c)"

text \<open>A match of \<open>ENV_REF\<close> at the start of a text: the name, and what follows.\<close>

definition env_ref :: "string \<Rightarrow> (string \<times> string) option" where
  "env_ref s = (let body = drop 2 s; name = takeWhile is_name_char body; after = dropWhile is_name_char body in
     if prefix ''${'' s \<and> name \<noteq> [] \<and> \<not> is_digit (hd name) \<and> prefix ''}'' after then Some (name, tl after) else None)"

lemma env_ref_shorter: "env_ref s = Some (name, rest) \<Longrightarrow> length rest < length s"
proof -
  assume a: "env_ref s = Some (name, rest)"
  then have "prefix ''${'' s" "rest = tl (dropWhile is_name_char (drop 2 s))"
    by (auto simp: env_ref_def Let_def split: if_splits)
  then show ?thesis using length_dropWhile_le[of is_name_char "drop 2 s"] by (auto simp: prefix_def)
qed

function expand_refs :: "environ \<Rightarrow> string \<Rightarrow> string" where
  "expand_refs env [] = []"
| "expand_refs env (c # cs) = (case env_ref (c # cs) of
       None \<Rightarrow> c # expand_refs env cs
     | Some (name, rest) \<Rightarrow> (case env name of None \<Rightarrow> ''${'' @ name @ ''}'' | Some v \<Rightarrow> v) @ expand_refs env rest)"
  by pat_completeness auto

termination
  by (relation "measure (\<lambda>(_, s). length s)") (auto dest: env_ref_shorter)

text \<open>\<open>expand_env_value\<close>: a mapping whose expanded keys meet keeps the last value.\<close>

fun expand_env_value :: "environ \<Rightarrow> val \<Rightarrow> val" where
  "expand_env_value env (VStr s) = VStr (expand_refs env s)"
| "expand_env_value env (VDict d) =
     VDict (fold (\<lambda>(k, v). AList.update k v) (map (\<lambda>(k, v). (expand_refs env k, expand_env_value env v)) d) [])"
| "expand_env_value env (VList vs) = VList (map (expand_env_value env) vs)"
| "expand_env_value env v = v"

text \<open>\<open>load_config\<close> on the parsed file.\<close>

definition load_env_config :: "string list option \<Rightarrow> environ \<Rightarrow> val \<Rightarrow> val" where
  "load_env_config dotenv env parsed = expand_env_value (load_dotenv dotenv env) parsed"

end
