(* ===== verification/Schema_Checks.thy ===== *)
theory Schema_Checks
  imports Config_Env Py_Arith
begin

text \<open>
  The field readers of the manifest schema (\<open>schema/_checks.py\<close>, \<open>schema/errors.py\<close>). A reader returns
  the value, or the declared default, together with the violations it recorded: a violation is the
  field and the rule it breaks. Its line, and the value a message quotes, are not modelled; a mapping
  is keyed by texts. \<open>se_environ\<close> is the environment with the project's \<open>.env\<close> loaded, \<open>se_float_str\<close> is
  \<open>str\<close> of a float, \<open>se_builtin_type\<close> what Python's parser and \<open>eval\<close> make of a type built from names,
  and \<open>se_requirement\<close> whether \<open>packaging\<close> takes a text as a requirement.
\<close>

record schema_env =
  se_environ :: environ
  se_float_str :: "pyfloat \<Rightarrow> string"
  se_builtin_type :: "string \<Rightarrow> bool"
  se_requirement :: "string \<Rightarrow> bool"

type_synonym violation = "string \<times> string"
type_synonym 'a check = "'a \<times> violation list"

definition accept :: "'a \<Rightarrow> 'a check" where "accept a = (a, [])"

definition reject :: "string \<Rightarrow> string \<Rightarrow> 'a \<Rightarrow> 'a check" where
  "reject field problem dflt = (dflt, [(field, problem)])"

definition chk_bnd :: "'a check \<Rightarrow> ('a \<Rightarrow> 'b check) \<Rightarrow> 'b check" where
  "chk_bnd m f = (let (a, vs) = m; (b, ws) = f a in (b, vs @ ws))"

definition note_if :: "bool \<Rightarrow> string \<Rightarrow> string \<Rightarrow> unit check" where
  "note_if bad field problem = (if bad then reject field problem () else accept ())"

fun chk_each :: "('a \<Rightarrow> 'b check) \<Rightarrow> 'a list \<Rightarrow> 'b list check" where
  "chk_each f [] = accept []"
| "chk_each f (x # xs) = chk_bnd (f x) (\<lambda>y. chk_bnd (chk_each f xs) (\<lambda>ys. accept (y # ys)))"

text \<open>A check without violations, and how it is taken apart.\<close>

definition clean :: "'a check \<Rightarrow> 'a \<Rightarrow> bool" where
  "clean m a \<longleftrightarrow> m = (a, [])"

named_theorems clean_simps \<open>what a check without violations says\<close>

lemma clean_accept [clean_simps]: "clean (accept a) b \<longleftrightarrow> b = a"
  by (auto simp: clean_def accept_def)

lemma clean_reject [clean_simps]: "\<not> clean (reject f p d) b"
  by (simp add: clean_def reject_def)

lemma clean_bnd [clean_simps]: "clean (chk_bnd m f) b \<longleftrightarrow> (\<exists>a. clean m a \<and> clean (f a) b)"
  by (cases m; cases "f (fst m)") (auto simp: clean_def chk_bnd_def Let_def split: prod.splits)

lemma clean_note [clean_simps]: "clean (note_if bad f p) u \<longleftrightarrow> \<not> bad"
  by (simp add: note_if_def clean_accept clean_reject)

lemma clean_if [clean_simps]: "clean (if b then m else n) x \<longleftrightarrow> (if b then clean m x else clean n x)"
  by simp

lemma clean_each: "clean (chk_each f xs) ys \<longleftrightarrow> list_all2 (\<lambda>x y. clean (f x) y) xs ys"
proof (induction xs arbitrary: ys)
  case (Cons x xs)
  then show ?case by (cases ys) (auto simp: clean_simps)
qed (auto simp: clean_simps)

lemma clean_unique: "clean m a \<Longrightarrow> clean m b \<Longrightarrow> a = b"
  by (simp add: clean_def)

section \<open>Names and references\<close>

definition field_of :: "string \<Rightarrow> string \<Rightarrow> string" where
  "field_of pre key = (if pre = [] then key else pre @ ''.'' @ key)"

definition index_of :: "string \<Rightarrow> nat \<Rightarrow> string" where
  "index_of pre i = pre @ ''['' @ str_nat i @ '']''"

definition resolve :: "schema_env \<Rightarrow> val \<Rightarrow> val" where
  "resolve env raw = (case raw of VStr s \<Rightarrow> VStr (expand_refs (se_environ env) s) | _ \<Rightarrow> raw)"

text \<open>\<open>ENV_REF.search\<close>.\<close>

fun has_ref :: "string \<Rightarrow> bool" where
  "has_ref [] = False"
| "has_ref (c # cs) = (env_ref (c # cs) \<noteq> None \<or> has_ref cs)"

definition unset_reference :: "val \<Rightarrow> bool" where
  "unset_reference v = (case v of VStr s \<Rightarrow> has_ref s | _ \<Rightarrow> False)"

section \<open>Readers\<close>

definition check_keys :: "dict \<Rightarrow> string \<Rightarrow> string list \<Rightarrow> unit check" where
  "check_keys node pre allowed = ((), concat (map (\<lambda>(key, _).
     if key \<in> set allowed then [] else [(field_of pre key, ''unknown key'')]) node))"

definition mapping :: "dict \<Rightarrow> string \<Rightarrow> string \<Rightarrow> string list \<Rightarrow> dict option check" where
  "mapping node key pre allowed = (case dget node key of
       VNone \<Rightarrow> accept None
     | VDict d \<Rightarrow> chk_bnd (check_keys d (field_of pre key) allowed) (\<lambda>_. accept (Some d))
     | _ \<Rightarrow> reject (field_of pre key) ''expected a mapping'' None)"

text \<open>A whole number; a \<open>bool\<close> is none.\<close>

definition in_bounds :: "int option \<Rightarrow> int option \<Rightarrow> int \<Rightarrow> bool" where
  "in_bounds lo hi i \<longleftrightarrow> (case lo of None \<Rightarrow> True | Some l \<Rightarrow> l \<le> i) \<and> (case hi of None \<Rightarrow> True | Some h \<Rightarrow> i \<le> h)"

definition integer :: "schema_env \<Rightarrow> dict \<Rightarrow> string \<Rightarrow> string \<Rightarrow> int option \<Rightarrow> int option \<Rightarrow> int option \<Rightarrow> int option check" where
  "integer env node key pre dflt lo hi = (case map_of node key of
       None \<Rightarrow> accept dflt
     | Some raw \<Rightarrow> (case resolve env raw of
           VInt i \<Rightarrow> if in_bounds lo hi i then accept (Some i) else reject (field_of pre key) ''expected an integer'' dflt
         | _ \<Rightarrow> reject (field_of pre key) ''expected an integer'' dflt))"

definition port :: "schema_env \<Rightarrow> dict \<Rightarrow> string \<Rightarrow> string \<Rightarrow> int option \<Rightarrow> int option check" where
  "port env node key pre dflt = integer env node key pre dflt (Some 1) (Some 65535)"

definition as_finite_float :: "val \<Rightarrow> rat option" where
  "as_finite_float v = (case v of
       VInt i \<Rightarrow> (case float_of_int i of Inr (Fin q) \<Rightarrow> Some q | _ \<Rightarrow> None)
     | VFloat (Fin q) \<Rightarrow> Some q
     | _ \<Rightarrow> None)"

definition number :: "schema_env \<Rightarrow> dict \<Rightarrow> string \<Rightarrow> string \<Rightarrow> rat \<Rightarrow> rat option \<Rightarrow> rat check" where
  "number env node key pre dflt over = (case map_of node key of
       None \<Rightarrow> accept dflt
     | Some raw \<Rightarrow> (case as_finite_float (resolve env raw) of
           None \<Rightarrow> reject (field_of pre key) ''expected a finite number'' dflt
         | Some q \<Rightarrow> if (case over of None \<Rightarrow> False | Some m \<Rightarrow> q \<le> m)
             then reject (field_of pre key) ''expected a finite number'' dflt else accept q))"

definition a_string :: "schema_env \<Rightarrow> dict \<Rightarrow> string \<Rightarrow> string \<Rightarrow> string option \<Rightarrow> bool \<Rightarrow> string option check" where
  "a_string env node key pre dflt required = (case dget node key of
       VNone \<Rightarrow> if required then reject (field_of pre key) ''is required but missing'' dflt else accept dflt
     | raw \<Rightarrow> (let value = resolve env raw in
         if required \<and> unset_reference value
         then reject (field_of pre key) ''names an environment variable that is not set'' dflt
         else case value of
             VStr s \<Rightarrow> if strip s = [] then reject (field_of pre key) ''expected a non-empty string'' dflt else accept (Some s)
           | _ \<Rightarrow> reject (field_of pre key) ''expected a non-empty string'' dflt))"

definition boolean :: "schema_env \<Rightarrow> dict \<Rightarrow> string \<Rightarrow> string \<Rightarrow> bool \<Rightarrow> bool check" where
  "boolean env node key pre dflt = (case map_of node key of
       None \<Rightarrow> accept dflt
     | Some raw \<Rightarrow> (case resolve env raw of
           VBool b \<Rightarrow> accept b | _ \<Rightarrow> reject (field_of pre key) ''expected a boolean'' dflt))"

text \<open>The items of a list of strings; the first bad one makes it empty.\<close>

fun string_items :: "schema_env \<Rightarrow> string \<Rightarrow> bool \<Rightarrow> val list \<Rightarrow> string list option check" where
  "string_items env field required [] = accept (Some [])"
| "string_items env field required (raw # raws) = (let item = resolve env raw in
     if required \<and> unset_reference item then reject field ''names an environment variable that is not set'' None
     else case item of
         VStr s \<Rightarrow> if strip s = [] then reject field ''expected a list of strings'' None
           else chk_bnd (string_items env field required raws) (\<lambda>rest. accept (map_option ((#) s) rest))
       | _ \<Rightarrow> reject field ''expected a list of strings'' None)"

definition string_list :: "schema_env \<Rightarrow> dict \<Rightarrow> string \<Rightarrow> string \<Rightarrow> bool \<Rightarrow> string list check" where
  "string_list env node key pre required = (let field = field_of pre key in case dget node key of
       VNone \<Rightarrow> if required then reject field ''is required but missing'' [] else accept []
     | VList vs \<Rightarrow> if required \<and> vs = [] then reject field ''is required and must not be empty'' []
         else chk_bnd (string_items env field required vs) (\<lambda>items. accept (case items of None \<Rightarrow> [] | Some ss \<Rightarrow> ss))
     | _ \<Rightarrow> reject field ''expected a list of strings'' [])"

text \<open>\<open>str(item)\<close> of the values a mapping of strings may have.\<close>

definition scalar_str :: "schema_env \<Rightarrow> val \<Rightarrow> string option" where
  "scalar_str env v = (case v of VStr s \<Rightarrow> Some s | VBool b \<Rightarrow> Some (if b then ''True'' else ''False'')
     | VInt i \<Rightarrow> Some (str_int i) | VFloat x \<Rightarrow> Some (se_float_str env x) | _ \<Rightarrow> None)"

fun string_pairs :: "schema_env \<Rightarrow> string \<Rightarrow> dict \<Rightarrow> (string \<times> string) list option check" where
  "string_pairs env field [] = accept (Some [])"
| "string_pairs env field ((name, raw) # rest) = (case scalar_str env (resolve env raw) of
       None \<Rightarrow> reject (field_of field name) ''expected a string'' None
     | Some s \<Rightarrow> chk_bnd (string_pairs env field rest) (\<lambda>ps. accept (map_option ((#) (name, s)) ps)))"

definition string_mapping :: "schema_env \<Rightarrow> dict \<Rightarrow> string \<Rightarrow> string \<Rightarrow> (string \<times> string) list check" where
  "string_mapping env node key pre = (let field = field_of pre key in case dget node key of
       VNone \<Rightarrow> accept []
     | VDict d \<Rightarrow> chk_bnd (string_pairs env field d) (\<lambda>ps. accept (case ps of None \<Rightarrow> [] | Some xs \<Rightarrow> xs))
     | _ \<Rightarrow> reject field ''expected a mapping'' [])"

definition counts :: "schema_env \<Rightarrow> dict \<Rightarrow> string \<Rightarrow> string \<Rightarrow> unit check" where
  "counts env node key pre = (let field = field_of pre key in case dget node key of
       VDict (e # es) \<Rightarrow> chk_bnd (chk_each (\<lambda>(name, _). integer env (e # es) name field None (Some 1) None) (e # es)) (\<lambda>_. accept ())
     | _ \<Rightarrow> reject field ''expected a mapping of names to counts'' ())"

section \<open>What an accepted field is\<close>

lemma clean_check_keys [clean_simps]: "clean (check_keys node pre allowed) u \<longleftrightarrow> fst ` set node \<subseteq> set allowed"
  by (auto simp: clean_def check_keys_def split: if_splits)

lemma clean_mapping:
  "clean (mapping node key pre allowed) r \<longleftrightarrow>
     (dget node key = VNone \<and> r = None \<or> (\<exists>d. dget node key = VDict d \<and> r = Some d \<and> fst ` set d \<subseteq> set allowed))"
  by (cases "dget node key") (auto simp: mapping_def clean_simps)

lemma clean_integer:
  "clean (integer env node key pre dflt lo hi) r \<longleftrightarrow>
     (map_of node key = None \<and> r = dflt \<or> (\<exists>i. map_of node key = Some (VInt i) \<and> in_bounds lo hi i \<and> r = Some i))"
  by (cases "map_of node key"; cases "resolve env (the (map_of node key))")
    (auto simp: integer_def clean_simps resolve_def split: val.splits)

lemma clean_port:
  "clean (port env node key pre dflt) r \<longleftrightarrow>
     (map_of node key = None \<and> r = dflt \<or> (\<exists>i. map_of node key = Some (VInt i) \<and> 1 \<le> i \<and> i \<le> 65535 \<and> r = Some i))"
  by (simp add: port_def clean_integer in_bounds_def)

lemma clean_number:
  "clean (number env node key pre dflt over) r \<longleftrightarrow>
     (map_of node key = None \<and> r = dflt \<or>
      (\<exists>v. map_of node key = Some v \<and> as_finite_float v = Some r \<and> (case over of None \<Rightarrow> True | Some m \<Rightarrow> m < r)))"
proof (cases "map_of node key")
  case (Some v)
  have "as_finite_float (resolve env v) = as_finite_float v" by (cases v) (simp_all add: resolve_def as_finite_float_def)
  with Some show ?thesis by (auto simp: number_def clean_simps split: option.splits)
qed (auto simp: number_def clean_simps)

lemma clean_boolean:
  "clean (boolean env node key pre dflt) r \<longleftrightarrow> (map_of node key = None \<and> r = dflt \<or> map_of node key = Some (VBool r))"
  by (cases "map_of node key"; cases "resolve env (the (map_of node key))")
    (auto simp: boolean_def clean_simps resolve_def split: val.splits)

lemma clean_a_string:
  "clean (a_string env node key pre dflt required) r \<longleftrightarrow>
     (dget node key = VNone \<and> \<not> required \<and> r = dflt \<or>
      (\<exists>s t. dget node key = VStr s \<and> t = expand_refs (se_environ env) s \<and> strip t \<noteq> [] \<and> (required \<longrightarrow> \<not> has_ref t) \<and> r = Some t))"
  by (cases "dget node key")
    (auto simp: a_string_def clean_simps resolve_def unset_reference_def Let_def)

end
