(* ===== verification/Schema_Functions.thy ===== *)
theory Schema_Functions
  imports Schema_Checks
begin

text \<open>
  The functions an agent declares (\<open>schema/functions.py\<close>): every name becomes Python source in the
  generated stub, so it has to be an identifier that shadows nothing the stub uses.
\<close>

definition BUILTIN_TYPE_NAMES :: "string list" where
  "BUILTIN_TYPE_NAMES = [''bool'', ''bytearray'', ''bytes'', ''complex'', ''dict'', ''float'', ''frozenset'', ''int'',
     ''list'', ''object'', ''set'', ''str'', ''tuple'']"

definition STUB_GLOBAL_NAMES :: "string list" where
  "STUB_GLOBAL_NAMES = [''Future'', ''inspect'', ''isinstance'']"

text \<open>\<open>keyword.kwlist\<close>.\<close>

definition KEYWORDS :: "string list" where
  "KEYWORDS = [''False'', ''None'', ''True'', ''and'', ''as'', ''assert'', ''async'', ''await'', ''break'', ''class'',
     ''continue'', ''def'', ''del'', ''elif'', ''else'', ''except'', ''finally'', ''for'', ''from'', ''global'', ''if'',
     ''import'', ''in'', ''is'', ''lambda'', ''nonlocal'', ''not'', ''or'', ''pass'', ''raise'', ''return'', ''try'',
     ''while'', ''with'', ''yield'']"

definition is_identifier :: "string \<Rightarrow> bool" where
  "is_identifier s \<longleftrightarrow> s \<noteq> [] \<and> list_all is_name_char s \<and> \<not> is_digit (hd s)"

record argument_decl =
  ar_name :: string
  ar_type :: "string option"

record function_decl =
  fn_name :: string
  fn_arguments :: "argument_decl list"
  fn_returns :: "string option option"

definition annotation :: "schema_env \<Rightarrow> dict \<Rightarrow> string \<Rightarrow> string option check" where
  "annotation env node pre = chk_bnd (a_string env node ''type'' pre None False) (\<lambda>t.
     case t of
       None \<Rightarrow> accept None
     | Some s \<Rightarrow> if se_builtin_type env s then accept (Some s)
         else reject (field_of pre ''type'') ''is not built from builtin types'' None)"

definition an_identifier :: "schema_env \<Rightarrow> dict \<Rightarrow> string \<Rightarrow> string \<Rightarrow> bool \<Rightarrow> string list \<Rightarrow> string option check" where
  "an_identifier env node key pre required reserved = chk_bnd (a_string env node key pre None required) (\<lambda>v.
     case v of
       None \<Rightarrow> accept None
     | Some s \<Rightarrow>
         if \<not> is_identifier s \<or> s \<in> set KEYWORDS then reject (field_of pre key) ''is not a valid Python identifier'' None
         else if s \<in> set reserved then reject (field_of pre key) ''would shadow a name of the generated stub'' None
         else accept (Some s))"

definition returns :: "schema_env \<Rightarrow> dict \<Rightarrow> string \<Rightarrow> string option option check" where
  "returns env node pre = (case dget node ''returns'' of
       VNone \<Rightarrow> accept None
     | VDict block \<Rightarrow> chk_bnd (check_keys block (field_of pre ''returns'') [''type'']) (\<lambda>_.
         chk_bnd (annotation env block (field_of pre ''returns'')) (\<lambda>t. accept (Some t)))
     | _ \<Rightarrow> reject (field_of pre ''returns'') ''expected a mapping'' None)"

fun arguments_from :: "schema_env \<Rightarrow> string \<Rightarrow> nat \<Rightarrow> string list \<Rightarrow> val list \<Rightarrow> argument_decl list check" where
  "arguments_from env pre i seen [] = accept []"
| "arguments_from env pre i seen (entry # rest) = (let p = index_of (pre @ ''.arguments'') i in
     case entry of
       VDict e \<Rightarrow>
         chk_bnd (check_keys e p [''name'', ''type'']) (\<lambda>_.
         chk_bnd (an_identifier env e ''name'' p True STUB_GLOBAL_NAMES) (\<lambda>name.
         let taken = (case name of None \<Rightarrow> False | Some n \<Rightarrow> n = ''self'' \<or> n \<in> set seen) in
         chk_bnd (note_if taken (field_of p ''name'') ''is already a parameter of the generated method'') (\<lambda>_.
         chk_bnd (annotation env e p) (\<lambda>t.
         case name of
           Some n \<Rightarrow> if taken then arguments_from env pre (Suc i) seen rest
             else chk_bnd (arguments_from env pre (Suc i) (n # seen) rest) (\<lambda>as. accept (\<lparr>ar_name = n, ar_type = t\<rparr> # as))
         | None \<Rightarrow> arguments_from env pre (Suc i) seen rest))))
     | _ \<Rightarrow> chk_bnd (reject p ''expected a mapping'' ()) (\<lambda>_. arguments_from env pre (Suc i) seen rest))"

definition arguments :: "schema_env \<Rightarrow> dict \<Rightarrow> string \<Rightarrow> argument_decl list check" where
  "arguments env node pre = (case dget node ''arguments'' of
       VNone \<Rightarrow> accept []
     | VList es \<Rightarrow> arguments_from env pre 0 [] es
     | _ \<Rightarrow> reject (field_of pre ''arguments'') ''expected a list of arguments'' [])"

definition function_name :: "schema_env \<Rightarrow> dict \<Rightarrow> string \<Rightarrow> string list \<Rightarrow> string option check" where
  "function_name env entry pre seen = chk_bnd (an_identifier env entry ''name'' pre True []) (\<lambda>name.
     case name of
       None \<Rightarrow> accept None
     | Some n \<Rightarrow>
         if n \<in> set BUILTIN_TYPE_NAMES then reject (field_of pre ''name'') ''would shadow the builtin type inside the generated class'' None
         else if prefix ''__'' n \<and> suffix ''__'' n then reject (field_of pre ''name'') ''is reserved for Python'' None
         else if n \<in> set seen then reject (field_of pre ''name'') ''is already a function of this agent'' None
         else accept (Some n))"

fun functions_from :: "schema_env \<Rightarrow> string \<Rightarrow> nat \<Rightarrow> string list \<Rightarrow> val list \<Rightarrow> function_decl list check" where
  "functions_from env parent i seen [] = accept []"
| "functions_from env parent i seen (entry # rest) = (let p = index_of (parent @ ''.functions'') i in
     case entry of
       VDict e \<Rightarrow>
         chk_bnd (check_keys e p [''name'', ''arguments'', ''returns'']) (\<lambda>_.
         chk_bnd (function_name env e p seen) (\<lambda>name.
         chk_bnd (arguments env e p) (\<lambda>as.
         chk_bnd (returns env e p) (\<lambda>r.
         case name of
           Some n \<Rightarrow> chk_bnd (functions_from env parent (Suc i) (n # seen) rest) (\<lambda>fs.
             accept (\<lparr>fn_name = n, fn_arguments = as, fn_returns = r\<rparr> # fs))
         | None \<Rightarrow> functions_from env parent (Suc i) seen rest))))
     | _ \<Rightarrow> chk_bnd (reject p ''expected a mapping'' ()) (\<lambda>_. functions_from env parent (Suc i) seen rest))"

definition functions_of :: "schema_env \<Rightarrow> dict \<Rightarrow> string \<Rightarrow> function_decl list check" where
  "functions_of env node parent = (case dget node ''functions'' of
       VNone \<Rightarrow> accept []
     | VList es \<Rightarrow> functions_from env parent 0 [] es
     | _ \<Rightarrow> reject (field_of parent ''functions'') ''expected a list of functions'' [])"

section \<open>Names the stub can be written with\<close>

definition source_name :: "string \<Rightarrow> bool" where
  "source_name n \<longleftrightarrow> is_identifier n \<and> n \<notin> set KEYWORDS"

text \<open>The parameters of a method and the methods of a class, as Python takes them.\<close>

definition wf_function :: "schema_env \<Rightarrow> function_decl \<Rightarrow> bool" where
  "wf_function env f \<longleftrightarrow>
     source_name (fn_name f) \<and> fn_name f \<notin> set BUILTIN_TYPE_NAMES \<and>
     distinct (''self'' # map ar_name (fn_arguments f)) \<and>
     (\<forall>a\<in>set (fn_arguments f). source_name (ar_name a) \<and> ar_name a \<notin> set STUB_GLOBAL_NAMES \<and>
        (case ar_type a of None \<Rightarrow> True | Some t \<Rightarrow> se_builtin_type env t)) \<and>
     (case fn_returns f of Some (Some t) \<Rightarrow> se_builtin_type env t | _ \<Rightarrow> True)"

lemma clean_annotation: "clean (annotation env node pre) t \<Longrightarrow> case t of None \<Rightarrow> True | Some s \<Rightarrow> se_builtin_type env s"
  by (auto simp: annotation_def clean_simps split: option.splits if_splits)

lemma clean_an_identifier:
  "clean (an_identifier env node key pre required reserved) v \<Longrightarrow>
   (case v of None \<Rightarrow> \<not> required | Some s \<Rightarrow> source_name s \<and> s \<notin> set reserved \<and>
      (\<exists>raw. dget node key = VStr raw \<and> s = expand_refs (se_environ env) raw))"
  by (auto simp: an_identifier_def clean_simps clean_a_string source_name_def split: option.splits if_splits)

lemma clean_arguments_from:
  "clean (arguments_from env pre i seen es) as \<Longrightarrow>
   distinct (map ar_name as) \<and> set (map ar_name as) \<inter> insert ''self'' (set seen) = {} \<and>
   (\<forall>a\<in>set as. source_name (ar_name a) \<and> ar_name a \<notin> set STUB_GLOBAL_NAMES \<and>
      (case ar_type a of None \<Rightarrow> True | Some t \<Rightarrow> se_builtin_type env t))"
proof (induction es arbitrary: i seen as)
  case (Cons entry rest)
  obtain e where e: "entry = VDict e" using Cons.prems by (cases entry) (auto simp: clean_simps Let_def)
  let ?p = "index_of (pre @ ''.arguments'') i"
  obtain name t where name: "clean (an_identifier env e ''name'' ?p True STUB_GLOBAL_NAMES) name"
    and t: "clean (annotation env e ?p) t"
    and go: "\<not> (case name of None \<Rightarrow> False | Some n \<Rightarrow> n = ''self'' \<or> n \<in> set seen)"
      "clean (case name of Some n \<Rightarrow> if (case name of None \<Rightarrow> False | Some n \<Rightarrow> n = ''self'' \<or> n \<in> set seen)
             then arguments_from env pre (Suc i) seen rest
             else chk_bnd (arguments_from env pre (Suc i) (n # seen) rest) (\<lambda>as. accept (\<lparr>ar_name = n, ar_type = t\<rparr> # as))
         | None \<Rightarrow> arguments_from env pre (Suc i) seen rest) as"
    using Cons.prems by (auto simp: e clean_simps Let_def)
  from clean_an_identifier[OF name] obtain n where n: "name = Some n" "source_name n" "n \<notin> set STUB_GLOBAL_NAMES"
    by (auto split: option.splits)
  with go obtain as' where as': "clean (arguments_from env pre (Suc i) (n # seen) rest) as'"
    "as = \<lparr>ar_name = n, ar_type = t\<rparr> # as'"
    by (auto simp: clean_simps)
  from Cons.IH[OF as'(1)] as'(2) n go(1) clean_annotation[OF t] show ?case by auto
qed (simp add: clean_simps)

lemma clean_arguments: "clean (arguments env node pre) as \<Longrightarrow>
    distinct (''self'' # map ar_name as) \<and>
    (\<forall>a\<in>set as. source_name (ar_name a) \<and> ar_name a \<notin> set STUB_GLOBAL_NAMES \<and>
      (case ar_type a of None \<Rightarrow> True | Some t \<Rightarrow> se_builtin_type env t))"
  by (cases "dget node ''arguments''") (auto simp: arguments_def clean_simps dest: clean_arguments_from)

lemma clean_returns: "clean (returns env node pre) r \<Longrightarrow> case r of Some (Some t) \<Rightarrow> se_builtin_type env t | _ \<Rightarrow> True"
  by (cases "dget node ''returns''") (auto simp: returns_def clean_simps split: option.splits dest: clean_annotation)

lemma clean_function_name: "clean (function_name env entry pre seen) name \<Longrightarrow>
    \<exists>n. name = Some n \<and> source_name n \<and> n \<notin> set BUILTIN_TYPE_NAMES \<and> n \<notin> set seen \<and>
      (\<exists>raw. dget entry ''name'' = VStr raw \<and> n = expand_refs (se_environ env) raw)"
  by (auto simp: function_name_def clean_simps split: option.splits if_splits dest!: clean_an_identifier)

text \<open>The declared functions, with the names as the runtime will read them.\<close>

definition names_entry :: "schema_env \<Rightarrow> val \<Rightarrow> string \<Rightarrow> bool" where
  "names_entry env entry n \<longleftrightarrow> (\<exists>e raw. entry = VDict e \<and> dget e ''name'' = VStr raw \<and> n = expand_refs (se_environ env) raw)"

lemma clean_functions_from:
  "clean (functions_from env parent i seen es) fs \<Longrightarrow>
   distinct (map fn_name fs) \<and> set (map fn_name fs) \<inter> set seen = {} \<and> (\<forall>f\<in>set fs. wf_function env f) \<and>
   list_all2 (names_entry env) es (map fn_name fs)"
proof (induction es arbitrary: i seen fs)
  case (Cons entry rest)
  obtain e where e: "entry = VDict e" using Cons.prems by (cases entry) (auto simp: clean_simps Let_def)
  let ?p = "index_of (parent @ ''.functions'') i"
  obtain name as r where name: "clean (function_name env e ?p seen) name" and as: "clean (arguments env e ?p) as"
    and r: "clean (returns env e ?p) r"
    and go: "clean (case name of Some n \<Rightarrow> chk_bnd (functions_from env parent (Suc i) (n # seen) rest) (\<lambda>fs.
             accept (\<lparr>fn_name = n, fn_arguments = as, fn_returns = r\<rparr> # fs))
         | None \<Rightarrow> functions_from env parent (Suc i) seen rest) fs"
    using Cons.prems by (auto simp: e clean_simps Let_def)
  from clean_function_name[OF name] obtain n raw where n: "name = Some n" "source_name n" "n \<notin> set BUILTIN_TYPE_NAMES"
    "n \<notin> set seen" "dget e ''name'' = VStr raw" "n = expand_refs (se_environ env) raw" by blast
  with go obtain fs' where fs': "clean (functions_from env parent (Suc i) (n # seen) rest) fs'"
    "fs = \<lparr>fn_name = n, fn_arguments = as, fn_returns = r\<rparr> # fs'"
    by (auto simp: clean_simps)
  have "wf_function env \<lparr>fn_name = n, fn_arguments = as, fn_returns = r\<rparr>"
    using n clean_arguments[OF as] clean_returns[OF r] by (simp add: wf_function_def)
  moreover have "names_entry env entry n" using n e by (auto simp: names_entry_def)
  ultimately show ?case using Cons.IH[OF fs'(1)] fs'(2) n(4) by auto
qed (simp add: clean_simps)

lemma clean_functions:
  assumes "clean (functions_of env node parent) fs"
  shows "distinct (map fn_name fs) \<and> (\<forall>f\<in>set fs. wf_function env f) \<and>
    (dget node ''functions'' = VNone \<and> fs = [] \<or>
     (\<exists>es. dget node ''functions'' = VList es \<and> list_all2 (names_entry env) es (map fn_name fs)))"
  using assms by (cases "dget node ''functions''") (auto simp: functions_of_def clean_simps dest!: clean_functions_from)

end
