(* ===== verification/Schema_Kubernetes.thy ===== *)
theory Schema_Kubernetes
  imports Schema_Checks Containers
begin

text \<open>
  The \<open>kubernetes:\<close> section of the manifest (\<open>schema/kubernetes_block.py\<close>) and the Kubernetes name of an
  agent (\<open>resource_name\<close> of \<open>kubernetes/api.py\<close>). The regular expressions are written out; each ends in
  \<open>$\<close>, which Python also matches before a last line end.
\<close>

definition RESERVED_NAMES :: "string list" where
  "RESERVED_NAMES = [''endpoint'', ''canyonos-endpoint'', ''canyonos-redis'', ''canyonos-gc'']"

section \<open>Patterns\<close>

definition is_lower_alnum :: "char \<Rightarrow> bool" where
  "is_lower_alnum c \<longleftrightarrow> is_alnum c \<and> lower_char c = c"

definition before_last_newline :: "string \<Rightarrow> string" where
  "before_last_newline s = (if s \<noteq> [] \<and> last s = CHR 0x0A then butlast s else s)"

definition label_shape :: "string \<Rightarrow> bool" where
  "label_shape t \<longleftrightarrow> t \<noteq> [] \<and> is_lower_alnum (hd t) \<and> is_lower_alnum (last t) \<and>
     list_all (\<lambda>c. is_lower_alnum c \<or> c = CHR ''-'') t"

definition is_dns_label :: "string \<Rightarrow> bool" where
  "is_dns_label s = (let t = before_last_newline s in label_shape t \<and> length t \<le> 63)"

definition is_dns_name :: "string \<Rightarrow> bool" where
  "is_dns_name s = list_all label_shape (split_on CHR ''.'' (before_last_newline s))"

definition without_unit :: "string \<Rightarrow> string" where
  "without_unit t = (if \<exists>u\<in>{''Ki'', ''Mi'', ''Gi'', ''Ti''}. suffix u t then take (length t - 2) t else t)"

definition is_quantity :: "string \<Rightarrow> bool" where
  "is_quantity s = (let parts = split_on CHR ''.'' (without_unit (before_last_newline s)) in
     length parts \<le> 2 \<and> list_all (\<lambda>p. p \<noteq> [] \<and> list_all is_digit p) parts)"

definition is_platform :: "string \<Rightarrow> bool" where
  "is_platform s \<longleftrightarrow> before_last_newline s \<in> {''linux/amd64'', ''linux/arm64''}"

definition is_url :: "string \<Rightarrow> bool" where
  "is_url s = (let t = before_last_newline s;
       rest = (if prefix ''http://'' t then Some (drop 7 t) else if prefix ''https://'' t then Some (drop 8 t) else None) in
     case rest of None \<Rightarrow> False
     | Some r \<Rightarrow> (let host = takeWhile (\<lambda>c. \<not> is_space c \<and> c \<notin> set ''/?#'') r; path = drop (length host) r in
         host \<noteq> [] \<and> (path = [] \<or> hd path = CHR ''/'' \<and> list_all (\<lambda>c. \<not> is_space c \<and> c \<notin> set ''?#'') path)))"

text \<open>Runs of anything but letters, digits and hyphens become one hyphen.\<close>

fun hyphenated :: "bool \<Rightarrow> string \<Rightarrow> string" where
  "hyphenated inside [] = []"
| "hyphenated inside (c # cs) = (if is_lower_alnum c \<or> c = CHR ''-'' then c # hyphenated False cs
     else if inside then hyphenated True cs else CHR ''-'' # hyphenated True cs)"

definition resource_name :: "string \<Rightarrow> exn + string" where
  "resource_name agent_name =
     (let name = rstrip_char CHR ''-'' (dropWhile (\<lambda>c. c = CHR ''-'') (hyphenated False (lower agent_name))) in
      if name = [] then Inl (ValueError ''has no letters or digits to use'')
      else Inr (rstrip_char CHR ''-'' (take 63 name)))"

section \<open>The section\<close>

record kubernetes_redis_decl =
  kr_storage :: "string option"
  kr_storage_class :: "string option"
  kr_host :: "string option"
  kr_port :: "int option"
  kr_tls :: bool
  kr_password_secret :: "string option"

record kubernetes_endpoint_decl =
  ke_host :: "string option"
  ke_ingress_class :: "string option"
  ke_tls_secret :: "string option"
  ke_url :: "string option"

record kubernetes_database_decl =
  kd_run_as_user :: "int option"
  kd_fs_group :: "int option"
  kd_storage :: "string option"
  kd_storage_class :: "string option"

record kubernetes_spec =
  ks_namespace :: "string option"
  ks_registry :: "string option"
  ks_platform :: "string option"
  ks_service_account :: "string option"
  ks_image_pull_secret :: "string option"
  ks_env_secret :: "string option"
  ks_node_selector :: "(string \<times> string) list"
  ks_redis :: kubernetes_redis_decl
  ks_endpoint :: kubernetes_endpoint_decl
  ks_databases :: "(string \<times> kubernetes_database_decl) list"

definition matching :: "schema_env \<Rightarrow> dict \<Rightarrow> string \<Rightarrow> string \<Rightarrow> (string \<Rightarrow> bool) \<Rightarrow> string \<Rightarrow> bool \<Rightarrow> string option \<Rightarrow> string option check" where
  "matching env node key pre pattern what required dflt = chk_bnd (a_string env node key pre dflt required) (\<lambda>v.
     if v \<noteq> None \<and> v \<noteq> dflt \<and> \<not> pattern (the v) then reject (field_of pre key) what dflt else accept v)"

definition note_present :: "dict \<Rightarrow> string \<Rightarrow> string \<Rightarrow> string list \<Rightarrow> unit check" where
  "note_present node pre problem keys =
     ((), concat (map (\<lambda>key. if dhas node key then [(field_of pre key, problem)] else []) keys))"

definition default_redis :: kubernetes_redis_decl where
  "default_redis = \<lparr>kr_storage = Some ''1Gi'', kr_storage_class = None, kr_host = None, kr_port = Some 6379, kr_tls = False,
     kr_password_secret = None\<rparr>"

definition kubernetes_redis :: "schema_env \<Rightarrow> dict \<Rightarrow> kubernetes_redis_decl check" where
  "kubernetes_redis env block =
     chk_bnd (mapping block ''redis'' ''kubernetes'' [''storage'', ''storage_class'', ''host'', ''port'', ''tls'', ''password_secret'']) (\<lambda>m.
     case m of None \<Rightarrow> accept default_redis
     | Some node \<Rightarrow> (let pre = ''kubernetes.redis'' in
         chk_bnd (a_string env node ''host'' pre None False) (\<lambda>host.
         chk_bnd (if host \<noteq> None then note_present node pre ''applies only to the Redis the operator runs'' [''storage'', ''storage_class'']
           else note_present node pre ''applies only to your own Redis'' [''port'', ''tls'', ''password_secret'']) (\<lambda>_.
         chk_bnd (matching env node ''storage'' pre is_quantity ''must be a size such as 1Gi'' False (Some ''1Gi'')) (\<lambda>storage.
         chk_bnd (a_string env node ''storage_class'' pre None False) (\<lambda>storage_class.
         chk_bnd (port env node ''port'' pre (Some 6379)) (\<lambda>p.
         chk_bnd (boolean env node ''tls'' pre False) (\<lambda>tls.
         chk_bnd (a_string env node ''password_secret'' pre None False) (\<lambda>secret.
         accept \<lparr>kr_storage = storage, kr_storage_class = storage_class, kr_host = host, kr_port = p, kr_tls = tls,
           kr_password_secret = secret\<rparr>)))))))))"

definition kubernetes_endpoint :: "schema_env \<Rightarrow> dict \<Rightarrow> kubernetes_endpoint_decl check" where
  "kubernetes_endpoint env block =
     chk_bnd (mapping block ''endpoint'' ''kubernetes'' [''host'', ''ingress_class'', ''tls_secret'', ''url'']) (\<lambda>m.
     case m of None \<Rightarrow> accept \<lparr>ke_host = None, ke_ingress_class = None, ke_tls_secret = None, ke_url = None\<rparr>
     | Some node \<Rightarrow> (let pre = ''kubernetes.endpoint'' in
         chk_bnd (matching env node ''host'' pre is_dns_name ''must be a lowercase DNS name'' False None) (\<lambda>host.
         chk_bnd (if dhas node ''host'' then accept () else note_present node pre ''needs host'' [''ingress_class'', ''tls_secret'']) (\<lambda>_.
         chk_bnd (a_string env node ''ingress_class'' pre None False) (\<lambda>ingress.
         chk_bnd (a_string env node ''tls_secret'' pre None False) (\<lambda>tls.
         chk_bnd (matching env node ''url'' pre is_url ''must be an http:// or https:// URL'' False None) (\<lambda>url.
         accept \<lparr>ke_host = host, ke_ingress_class = ingress, ke_tls_secret = tls, ke_url = url\<rparr>)))))))"

text \<open>The entries of \<open>agents\<close>, as written.\<close>

definition raw_agents :: "dict \<Rightarrow> val list" where
  "raw_agents node = (case dget node ''agents'' of VList es \<Rightarrow> es | _ \<Rightarrow> [])"

definition database_names :: "dict \<Rightarrow> val set" where
  "database_names node = {dget e ''name'' |e. VDict e \<in> set (raw_agents node) \<and> dget e ''type'' = VStr ''database''}"

lemma database_names_code [code]:
  "database_names node = set (concat (map (\<lambda>v. case v of VDict e \<Rightarrow>
     if dget e ''type'' = VStr ''database'' then [dget e ''name''] else [] | _ \<Rightarrow> []) (raw_agents node)))"
  by (auto simp: database_names_def split: val.splits if_splits)

definition kubernetes_database :: "schema_env \<Rightarrow> dict \<Rightarrow> dict \<Rightarrow> string \<Rightarrow> (string \<times> kubernetes_database_decl) list check" where
  "kubernetes_database env node databases name = (let pre = ''kubernetes.databases.'' @ name in
     if VStr name \<notin> database_names node then reject pre ''is not an agents: entry of type database'' []
     else chk_bnd (mapping databases name ''kubernetes.databases'' [''run_as_user'', ''fs_group'', ''storage'', ''storage_class'']) (\<lambda>m.
       let settings = (case m of None \<Rightarrow> [] | Some d \<Rightarrow> d) in
       chk_bnd (integer env settings ''run_as_user'' pre None (Some 1) None) (\<lambda>user.
       chk_bnd (integer env settings ''fs_group'' pre None (Some 0) None) (\<lambda>group.
       chk_bnd (matching env settings ''storage'' pre is_quantity ''must be a size such as 1Gi'' False (Some ''1Gi'')) (\<lambda>storage.
       chk_bnd (a_string env settings ''storage_class'' pre None False) (\<lambda>class.
       accept [(name, \<lparr>kd_run_as_user = user, kd_fs_group = group, kd_storage = storage, kd_storage_class = class\<rparr>)]))))))"

definition kubernetes_databases :: "schema_env \<Rightarrow> dict \<Rightarrow> dict \<Rightarrow> (string \<times> kubernetes_database_decl) list check" where
  "kubernetes_databases env block node =
     chk_bnd (mapping block ''databases'' ''kubernetes'' (case dget block ''databases'' of VDict d \<Rightarrow> map fst d | _ \<Rightarrow> [])) (\<lambda>m.
     case m of None \<Rightarrow> accept []
     | Some databases \<Rightarrow> chk_bnd (chk_each (kubernetes_database env node databases) (map fst databases)) (\<lambda>ds. accept (concat ds)))"

text \<open>The Kubernetes names taken so far, and the clashes of the names as written.\<close>

fun agent_name_clashes :: "(string \<times> string) list \<Rightarrow> nat \<Rightarrow> val list \<Rightarrow> violation list" where
  "agent_name_clashes taken i [] = []"
| "agent_name_clashes taken i (entry # rest) = (let field = index_of ''agents'' i @ ''.name'' in
     case (case entry of VDict e \<Rightarrow> dget e ''name'' | _ \<Rightarrow> VNone) of
       VStr raw \<Rightarrow> (case resource_name raw of
           Inl _ \<Rightarrow> (field, ''has no letters or digits for a Kubernetes name'') # agent_name_clashes taken (Suc i) rest
         | Inr name \<Rightarrow>
             if name \<in> set RESERVED_NAMES
             then (field, ''becomes a Kubernetes name the project itself uses'') # agent_name_clashes taken (Suc i) rest
             else if map_of taken name \<noteq> None
             then (field, ''becomes the Kubernetes name of another agent'') # agent_name_clashes taken (Suc i) rest
             else agent_name_clashes ((name, raw) # taken) (Suc i) rest)
     | _ \<Rightarrow> agent_name_clashes taken (Suc i) rest)"

definition KUBERNETES_KEYS :: "string list" where
  "KUBERNETES_KEYS = [''namespace'', ''registry'', ''platform'', ''service_account'', ''image_pull_secret'', ''env_secret'',
     ''node_selector'', ''redis'', ''endpoint'', ''databases'']"

definition parse_kubernetes :: "schema_env \<Rightarrow> dict \<Rightarrow> kubernetes_spec option check" where
  "parse_kubernetes env node = chk_bnd (mapping node ''kubernetes'' [] KUBERNETES_KEYS) (\<lambda>m.
     case m of None \<Rightarrow> accept None
     | Some block \<Rightarrow> (let pre = ''kubernetes'' in
         chk_bnd ((), agent_name_clashes [] 0 (raw_agents node)) (\<lambda>_.
         chk_bnd (matching env block ''namespace'' pre is_dns_label ''must be a Kubernetes namespace name'' True None) (\<lambda>namespace.
         chk_bnd (a_string env block ''registry'' pre None True) (\<lambda>registry.
         chk_bnd (matching env block ''platform'' pre is_platform ''must be linux/amd64 or linux/arm64'' False None) (\<lambda>platform.
         chk_bnd (a_string env block ''service_account'' pre None False) (\<lambda>account.
         chk_bnd (a_string env block ''image_pull_secret'' pre None False) (\<lambda>pull.
         chk_bnd (a_string env block ''env_secret'' pre None False) (\<lambda>env_secret.
         chk_bnd (string_mapping env block ''node_selector'' pre) (\<lambda>selector.
         chk_bnd (kubernetes_redis env block) (\<lambda>redis.
         chk_bnd (kubernetes_endpoint env block) (\<lambda>ep.
         chk_bnd (kubernetes_databases env block node) (\<lambda>databases.
         accept (Some \<lparr>ks_namespace = namespace, ks_registry = registry, ks_platform = platform, ks_service_account = account,
           ks_image_pull_secret = pull, ks_env_secret = env_secret, ks_node_selector = selector, ks_redis = redis,
           ks_endpoint = ep, ks_databases = databases\<rparr>))))))))))))))"

section \<open>Names that do not clash\<close>

text \<open>Accepted names are each their own object, and none is one of the project's; a name is at most 63
  characters and does not end in a hyphen.\<close>

lemma clashes_none:
  "agent_name_clashes taken i es = [] \<Longrightarrow> VDict e \<in> set es \<Longrightarrow> dget e ''name'' = VStr raw \<Longrightarrow>
   \<exists>name. resource_name raw = Inr name \<and> name \<notin> set RESERVED_NAMES \<and> map_of taken name = None"
proof (induction es arbitrary: taken i)
  case (Cons entry rest)
  show ?case
  proof (cases "entry = VDict e")
    case True
    with Cons.prems show ?thesis by (auto simp: Let_def split: sum.splits if_splits)
  next
    case False
    then have m: "VDict e \<in> set rest" using Cons.prems(2) by simp
    have "agent_name_clashes taken (Suc i) rest = [] \<or> (\<exists>x. agent_name_clashes (x # taken) (Suc i) rest = [])"
      using Cons.prems(1) by (auto simp: Let_def split: val.splits sum.splits if_splits)
    then show ?thesis
    proof
      assume "\<exists>x. agent_name_clashes (x # taken) (Suc i) rest = []"
      then obtain x where "agent_name_clashes (x # taken) (Suc i) rest = []" by blast
      from Cons.IH[OF this m Cons.prems(3)] show ?thesis by (auto split: if_splits)
    qed (rule Cons.IH[OF _ m Cons.prems(3)])
  qed
qed simp

lemma resource_name_shape: "resource_name a = Inr n \<Longrightarrow> length n \<le> 63 \<and> (n \<noteq> [] \<longrightarrow> last n \<noteq> CHR ''-'')"
proof -
  have len: "length (rstrip_char c s) \<le> length s" for c s by (simp add: rstrip_char_def length_dropWhile_le[THEN order_trans])
  have last: "rstrip_char c s \<noteq> [] \<Longrightarrow> last (rstrip_char c s) \<noteq> c" for c s
    using hd_dropWhile[of "\<lambda>x. x = c" "rev s"] by (auto simp: rstrip_char_def last_rev)
  assume "resource_name a = Inr n"
  then obtain s where "n = rstrip_char CHR ''-'' (take 63 s)" by (auto simp: resource_name_def Let_def split: if_splits)
  with len[of "CHR ''-''" "take 63 s"] last[of "CHR ''-''" "take 63 s"] show ?thesis by auto
qed

text \<open>A last line end, as a YAML block text has, passes every pattern.\<close>

lemma newline_passes: "is_dns_label (''prod'' @ [CHR 0x0A]) \<and> is_platform (''linux/amd64'' @ [CHR 0x0A])"
  by code_simp

text \<open>The clash of two Kubernetes names is looked for in the names as written, before references are
  expanded.\<close>

lemma reference_hides_a_clash:
  "agent_name_clashes [] 0 [VDict [(''name'', VStr ''writer'')], VDict [(''name'', VStr ''${NAME}'')]] = [] \<and>
   expand_refs [''NAME'' \<mapsto> ''Writer''] ''${NAME}'' = ''Writer'' \<and> resource_name ''Writer'' = resource_name ''writer''"
  by code_simp

end
