(* ===== verification/Schema_Manifest.thy ===== *)
theory Schema_Manifest
  imports Schema_Functions Schema_Kubernetes Controller_Context
begin

text \<open>
  The manifest schema (\<open>schema/manifest.py\<close>, \<open>schema/otel_destinations.py\<close>, the provider schemas
  under \<open>reconciler/providers\<close> and \<open>check_project\<close> of \<open>schema/__init__.py\<close>): every key
  \<open>global_controller.yaml\<close> may carry. \<open>load_manifest\<close> works on the parsed document.
\<close>

section \<open>Parsed shapes\<close>

record resources_decl =
  rs_cpu :: rat
  rs_memory :: rat
  rs_gpu :: "int option"

datatype agent_kind =
    CodeAgent (ca_entrypoint: string) (ca_requirements: "string list") (ca_functions: "function_decl list")
  | DatabaseAgent (db_image: string) (db_port: "int option") (db_volume_path: "string option")

record agent_decl =
  ad_name :: string
  ad_replicas :: int
  ad_resources :: resources_decl
  ad_stateful :: bool
  ad_env :: "(string \<times> string) list"
  ad_kind :: agent_kind

record redis_decl =
  re_host :: string
  re_port :: "int option"
  re_db :: "int option"

record otel_destination =
  od_name :: string
  od_protocol :: string
  od_endpoint :: string
  od_headers :: dict
  od_insecure :: bool
  od_timeout :: "rat option"

record endpoint_decl =
  ed_agent :: "string option"
  ed_method :: "string option"
  ed_api_port :: "int option"

record manifest =
  mn_agents :: "agent_decl list"
  mn_target :: string
  mn_provider :: string
  mn_poll_interval :: rat
  mn_cleanup_interval :: rat
  mn_project_id :: "string option"
  mn_redis :: redis_decl
  mn_logs :: bool
  mn_otel :: "otel_destination list option"
  mn_endpoint :: "endpoint_decl option"
  mn_dashboard_port :: "int option"
  mn_kubernetes :: "kubernetes_spec option"

section \<open>Agents\<close>

definition COMMON_AGENT_KEYS :: "string list" where
  "COMMON_AGENT_KEYS = [''name'', ''type'', ''replicas'', ''resources'', ''stateful'', ''env'']"

definition CODE_AGENT_KEYS :: "string list" where
  "CODE_AGENT_KEYS = COMMON_AGENT_KEYS @ [''entrypoint'', ''requirements'', ''functions'']"

definition DATABASE_KEYS :: "string list" where
  "DATABASE_KEYS = COMMON_AGENT_KEYS @ [''image'', ''db_port'', ''volume_path'']"

definition is_rooted :: "string \<Rightarrow> bool" where
  "is_rooted path \<longleftrightarrow> prefix ''/'' path \<or> prefix [CHR 0x5C] path \<or> (1 < length path \<and> path ! 1 = CHR '':'')"

definition project_relative_py :: "schema_env \<Rightarrow> dict \<Rightarrow> string \<Rightarrow> string \<Rightarrow> bool \<Rightarrow> string check" where
  "project_relative_py env node key pre required = chk_bnd (a_string env node key pre None required) (\<lambda>v.
     case v of
       None \<Rightarrow> accept []
     | Some path \<Rightarrow>
         if is_rooted path then reject (field_of pre key) ''must be relative to the project'' []
         else if ''..'' \<in> set (split_on CHR ''/'' (replace_char (CHR 0x5C) (CHR ''/'') path))
         then reject (field_of pre key) ''must not escape the project'' []
         else if \<not> suffix ''.py'' path then reject (field_of pre key) ''must name a .py file'' []
         else accept path)"

fun requirement_problem :: "schema_env \<Rightarrow> string \<Rightarrow> nat \<Rightarrow> string list \<Rightarrow> violation option" where
  "requirement_problem env field i [] = None"
| "requirement_problem env field i (r # rs) =
     (if se_requirement env r then requirement_problem env field (Suc i) rs
      else Some (index_of field i, ''is not a single PEP 508 requirement''))"

definition requirements :: "schema_env \<Rightarrow> dict \<Rightarrow> string \<Rightarrow> string list check" where
  "requirements env node pre = chk_bnd (string_list env node ''requirements'' pre False) (\<lambda>rs.
     case requirement_problem env (field_of pre ''requirements'') 0 rs of
       None \<Rightarrow> accept rs | Some (f, problem) \<Rightarrow> reject f problem [])"

definition resources :: "schema_env \<Rightarrow> dict \<Rightarrow> string \<Rightarrow> resources_decl check" where
  "resources env node pre = chk_bnd (mapping node ''resources'' pre [''cpu'', ''memory'', ''gpu'']) (\<lambda>m.
     case m of
       None \<Rightarrow> accept \<lparr>rs_cpu = 1, rs_memory = 512, rs_gpu = None\<rparr>
     | Some block \<Rightarrow> (let p = field_of pre ''resources'' in
         chk_bnd (integer env block ''gpu'' p None (Some 0) None) (\<lambda>gpu.
         chk_bnd (number env block ''cpu'' p 1 (Some 0)) (\<lambda>cpu.
         chk_bnd (number env block ''memory'' p 512 (Some 0)) (\<lambda>memory.
         accept \<lparr>rs_cpu = cpu, rs_memory = memory, rs_gpu = gpu\<rparr>)))))"

definition agent_type :: "schema_env \<Rightarrow> dict \<Rightarrow> string \<Rightarrow> string option check" where
  "agent_type env node pre = (case map_of node ''type'' of
       None \<Rightarrow> accept (Some ''agent'')
     | Some raw \<Rightarrow> (if resolve env raw = VStr ''agent'' then accept (Some ''agent'')
         else if resolve env raw = VStr ''database'' then accept (Some ''database'')
         else reject (field_of pre ''type'') ''expected one of agent, database'' None))"

definition check_agent_keys :: "dict \<Rightarrow> string \<Rightarrow> string option \<Rightarrow> unit check" where
  "check_agent_keys node pre t = (let allowed = (case t of
         None \<Rightarrow> CODE_AGENT_KEYS @ DATABASE_KEYS
       | Some ty \<Rightarrow> if ty = ''database'' then DATABASE_KEYS else CODE_AGENT_KEYS) in
     ((), concat (map (\<lambda>(key, _). if key \<in> set allowed then []
       else if key \<in> set (CODE_AGENT_KEYS @ DATABASE_KEYS) then [(field_of pre key, ''is not valid for this type'')]
       else [(field_of pre key, ''unknown key'')]) node)))"

definition agent_kind_of :: "schema_env \<Rightarrow> dict \<Rightarrow> string \<Rightarrow> string option \<Rightarrow> int \<Rightarrow> agent_kind option check" where
  "agent_kind_of env node pre t replicas = (case t of
       None \<Rightarrow> accept None
     | Some ty \<Rightarrow>
         if ty = ''database'' then
           chk_bnd (note_if (replicas \<noteq> 1) (field_of pre ''replicas'') ''a database runs as a single container'') (\<lambda>_.
           chk_bnd (a_string env node ''image'' pre (Some []) True) (\<lambda>img.
           chk_bnd (port env node ''db_port'' pre (Some 5432)) (\<lambda>p.
           chk_bnd (a_string env node ''volume_path'' pre None False) (\<lambda>volume.
           accept (Some (DatabaseAgent (case img of None \<Rightarrow> [] | Some i \<Rightarrow> i) p volume))))))
         else
           chk_bnd (project_relative_py env node ''entrypoint'' pre True) (\<lambda>entry.
           chk_bnd (requirements env node pre) (\<lambda>rs.
           chk_bnd (functions_of env node pre) (\<lambda>fs.
           accept (Some (CodeAgent entry rs fs))))))"

definition agent_name :: "schema_env \<Rightarrow> dict \<Rightarrow> string \<Rightarrow> string option \<Rightarrow> string option check" where
  "agent_name env node pre t = (if t = Some ''agent'' then an_identifier env node ''name'' pre True STUB_GLOBAL_NAMES
     else a_string env node ''name'' pre None True)"

definition agent_entry :: "schema_env \<Rightarrow> nat \<times> val \<Rightarrow> (nat \<times> agent_decl) option check" where
  "agent_entry env e = (case e of (i, entry) \<Rightarrow> (let pre = index_of ''agents'' i in case entry of
     VDict node \<Rightarrow>
       chk_bnd (agent_type env node pre) (\<lambda>t.
       chk_bnd (check_agent_keys node pre t) (\<lambda>_.
       chk_bnd (agent_name env node pre t) (\<lambda>name.
       chk_bnd (integer env node ''replicas'' pre (Some 1) (Some 1) None) (\<lambda>replicas.
       chk_bnd (resources env node pre) (\<lambda>rs.
       chk_bnd (boolean env node ''stateful'' pre False) (\<lambda>stateful.
       chk_bnd (string_mapping env node ''env'' pre) (\<lambda>vars.
       let count = (case replicas of None \<Rightarrow> 1 | Some r \<Rightarrow> r) in
       chk_bnd (agent_kind_of env node pre t count) (\<lambda>kind.
       accept (case (name, kind) of
           (Some n, Some k) \<Rightarrow> Some (i, \<lparr>ad_name = n, ad_replicas = count, ad_resources = rs, ad_stateful = stateful,
             ad_env = vars, ad_kind = k\<rparr>)
         | _ \<Rightarrow> None)))))))))
   | _ \<Rightarrow> reject pre ''expected a mapping'' None))"

fun name_clashes :: "(string \<times> nat) list \<Rightarrow> (nat \<times> agent_decl) list \<Rightarrow> violation list" where
  "name_clashes seen [] = []"
| "name_clashes seen ((i, a) # rest) = (let key = lower (ad_name a); field = index_of ''agents'' i @ ''.name'' in
     if key = ''endpoint'' then (field, ''is reserved for the HTTP endpoint container'') # name_clashes seen rest
     else if map_of seen key \<noteq> None then (field, ''duplicate agent name'') # name_clashes seen rest
     else name_clashes ((key, i) # seen) rest)"

definition agents :: "schema_env \<Rightarrow> dict \<Rightarrow> agent_decl list check" where
  "agents env node = (case dget node ''agents'' of
       VNone \<Rightarrow> reject ''agents'' ''is required but missing'' []
     | VList raw \<Rightarrow>
         chk_bnd (chk_each (agent_entry env) (enumerate 0 raw)) (\<lambda>entries.
         let parsed = concat (map (\<lambda>e. case e of None \<Rightarrow> [] | Some a \<Rightarrow> [a]) entries) in
         chk_bnd ((), name_clashes [] parsed) (\<lambda>_. accept (map snd parsed)))
     | _ \<Rightarrow> reject ''agents'' ''expected a list of agents'' [])"

section \<open>Target, provider, Redis\<close>

definition manifest_target :: "schema_env \<Rightarrow> dict \<Rightarrow> string check" where
  "manifest_target env node = chk_bnd (a_string env node ''target'' [] (Some ''docker'') False) (\<lambda>v.
     let t = lower (the v) in
     if t \<notin> {''docker'', ''kubernetes''} then reject ''target'' ''expected one of docker, kubernetes'' ''docker''
     else chk_bnd (note_if (t = ''kubernetes'' \<and> dget node ''kubernetes'' = VNone) ''target'' ''the kubernetes: section is missing or empty'')
       (\<lambda>_. accept t))"

definition provider_of :: "schema_env \<Rightarrow> dict \<Rightarrow> string check" where
  "provider_of env node = (case map_of node ''provider'' of
       None \<Rightarrow> accept ''local''
     | Some raw \<Rightarrow> (let value = resolve env raw in
         if (case value of VStr s \<Rightarrow> lower s = ''ec2'' | _ \<Rightarrow> False) then reject ''provider'' ''was renamed to ec2-pool'' ''local''
         else case canonical_name value of Inr p \<Rightarrow> accept p | Inl _ \<Rightarrow> reject ''provider'' ''unknown provider'' ''local''))"

definition redis_of :: "schema_env \<Rightarrow> dict \<Rightarrow> redis_decl check" where
  "redis_of env node = chk_bnd (mapping node ''redis'' [] [''host'', ''port'', ''db'']) (\<lambda>m.
     case m of
       None \<Rightarrow> accept \<lparr>re_host = ''localhost'', re_port = Some 6379, re_db = Some 0\<rparr>
     | Some block \<Rightarrow>
         chk_bnd (a_string env block ''host'' ''redis'' (Some ''localhost'') False) (\<lambda>host.
         chk_bnd (port env block ''port'' ''redis'' (Some 6379)) (\<lambda>p.
         chk_bnd (integer env block ''db'' ''redis'' (Some 0) (Some 0) None) (\<lambda>db.
         accept \<lparr>re_host = the host, re_port = p, re_db = db\<rparr>))))"

section \<open>Telemetry destinations\<close>

definition DESTINATION_KEYS :: "string list" where
  "DESTINATION_KEYS = [''name'', ''protocol'', ''endpoint'', ''headers'', ''insecure'', ''timeout'']"

definition SUPPORTED_PROTOCOLS :: "string list" where "SUPPORTED_PROTOCOLS = [''grpc'', ''http'', ''http/protobuf'']"

definition normalize_protocol :: "val \<Rightarrow> val" where
  "normalize_protocol v = (case v of VStr s \<Rightarrow> VStr (lower s) | _ \<Rightarrow> v)"

definition non_empty_string :: "val \<Rightarrow> bool" where
  "non_empty_string v = (case v of VStr s \<Rightarrow> strip s \<noteq> [] | _ \<Rightarrow> False)"

definition is_str :: "val \<Rightarrow> bool" where "is_str v = (case v of VStr _ \<Rightarrow> True | _ \<Rightarrow> False)"

definition positive_number :: "val \<Rightarrow> rat option" where
  "positive_number v = (case as_finite_float v of Some q \<Rightarrow> if 0 < q then Some q else None | None \<Rightarrow> None)"

definition destination_problems :: "dict \<Rightarrow> violation list" where
  "destination_problems d =
     (if non_empty_string (dget d ''name'') then [] else [(''name'', ''name must be a non-empty string'')]) @
     (if normalize_protocol (dget d ''protocol'') \<in> VStr ` set SUPPORTED_PROTOCOLS then []
      else [(''protocol'', ''protocol must be one of the supported ones'')]) @
     (if non_empty_string (dget d ''endpoint'') then [] else [(''endpoint'', ''endpoint must be a non-empty string'')]) @
     (case dget d ''headers'' of
        VNone \<Rightarrow> []
      | VDict hs \<Rightarrow> if list_all (\<lambda>(k, v). strip k \<noteq> [] \<and> is_str v) hs then []
          else [(''headers'', ''headers must map non-empty strings to strings'')]
      | _ \<Rightarrow> [(''headers'', ''headers must be a mapping'')]) @
     (case dget d ''insecure'' of VNone \<Rightarrow> [] | VBool _ \<Rightarrow> [] | _ \<Rightarrow> [(''insecure'', ''insecure must be a boolean'')]) @
     (if dget d ''timeout'' = VNone \<or> positive_number (dget d ''timeout'') \<noteq> None then []
      else [(''timeout'', ''timeout must be a positive number'')])"

text \<open>\<open>normalize_destination\<close> of one without problems, and the shape the manifest keeps.\<close>

definition normalize_destination :: "dict \<Rightarrow> otel_destination" where
  "normalize_destination d =
     \<lparr>od_name = (case dget d ''name'' of VStr s \<Rightarrow> strip s | _ \<Rightarrow> []),
      od_protocol = (case dget d ''protocol'' of VStr s \<Rightarrow> lower s | _ \<Rightarrow> []),
      od_endpoint = (case dget d ''endpoint'' of VStr s \<Rightarrow> strip s | _ \<Rightarrow> []),
      od_headers = (case dget d ''headers'' of VDict hs \<Rightarrow> hs | _ \<Rightarrow> []),
      od_insecure = (dget d ''insecure'' = VBool True),
      od_timeout = as_finite_float (dget d ''timeout'')\<rparr>"

definition expanded_entry :: "schema_env \<Rightarrow> dict \<Rightarrow> dict" where
  "expanded_entry env e = (case expand_env_value (se_environ env) (VDict e) of VDict d \<Rightarrow> d | _ \<Rightarrow> [])"

fun otel_entries :: "schema_env \<Rightarrow> nat \<Rightarrow> string list \<Rightarrow> val list \<Rightarrow> otel_destination list check" where
  "otel_entries env i names [] = accept []"
| "otel_entries env i names (entry # rest) = (let pre = index_of ''otel.destinations'' i in
     case entry of
       VDict e \<Rightarrow> (let d = expanded_entry env e; dest = normalize_destination d in
         chk_bnd (check_keys e pre DESTINATION_KEYS) (\<lambda>_.
         chk_bnd ((), map (\<lambda>(key, m). (field_of pre key, m)) (destination_problems d)) (\<lambda>_.
         if destination_problems d \<noteq> [] then otel_entries env (Suc i) names rest
         else if od_name dest \<in> set names
         then chk_bnd (reject (field_of pre ''name'') ''destination names must be unique'' ()) (\<lambda>_. otel_entries env (Suc i) names rest)
         else chk_bnd (otel_entries env (Suc i) (od_name dest # names) rest) (\<lambda>ds. accept (dest # ds)))))
     | _ \<Rightarrow> chk_bnd (reject pre ''expected a mapping'' ()) (\<lambda>_. otel_entries env (Suc i) names rest))"

definition otel :: "schema_env \<Rightarrow> dict \<Rightarrow> otel_destination list option check" where
  "otel env node = chk_bnd (mapping node ''otel'' [] [''destinations'']) (\<lambda>m.
     case m of
       None \<Rightarrow> accept None
     | Some block \<Rightarrow> (case dget block ''destinations'' of
           VNone \<Rightarrow> accept (Some [])
         | VList (e # es) \<Rightarrow> chk_bnd (otel_entries env 0 [] (e # es)) (\<lambda>ds. accept (Some ds))
         | _ \<Rightarrow> reject ''otel.destinations'' ''must be a non-empty list'' (Some [])))"

section \<open>The endpoint\<close>

definition function_names :: "agent_decl list \<Rightarrow> (string \<times> string list) list" where
  "function_names as = concat (map (\<lambda>a. case ad_kind a of
     CodeAgent _ _ fs \<Rightarrow> [(ad_name a, map fn_name fs)] | _ \<Rightarrow> []) as)"

definition endpoint_of :: "schema_env \<Rightarrow> dict \<Rightarrow> agent_decl list \<Rightarrow> endpoint_decl option check" where
  "endpoint_of env node as = (if dget node ''endpoint'' = VNone then reject ''endpoint'' ''is required but missing'' None
     else chk_bnd (mapping node ''endpoint'' [] [''api_port'', ''agent'', ''method'']) (\<lambda>m.
     case m of
       None \<Rightarrow> accept None
     | Some block \<Rightarrow>
         chk_bnd (a_string env block ''agent'' ''endpoint'' None True) (\<lambda>agent.
         chk_bnd (a_string env block ''method'' ''endpoint'' None True) (\<lambda>method.
         let fns = (case agent of None \<Rightarrow> None | Some a \<Rightarrow> map_of (rev (function_names as)) a) in
         chk_bnd (if agent \<noteq> None \<and> fns = None then reject ''endpoint.agent'' ''is not an agents: entry of type agent'' ()
           else note_if (fns \<noteq> None \<and> method \<noteq> None \<and> the method \<notin> set (the fns)) ''endpoint.method'' ''is not a functions: entry'') (\<lambda>_.
         chk_bnd (port env block ''api_port'' ''endpoint'' None) (\<lambda>p.
         accept (Some \<lparr>ed_agent = agent, ed_method = method, ed_api_port = p\<rparr>)))))))"

section \<open>Provider sections\<close>

datatype key_kind = KStr | KInt | KList | KCounts | KAgents

definition EC2_KEYS :: "key_kind \<Rightarrow> (string \<times> key_kind \<times> bool) list" where
  "EC2_KEYS machine_type = [(''region'', KStr, False), (''machine_type'', machine_type, True), (''market_type'', KStr, False),
     (''ami_id'', KStr, False), (''subnet_id'', KStr, False), (''ssh_user'', KStr, False),
     (''security_group_ids'', KList, False), (''iam_profile_name'', KStr, False), (''public_ip_timeout'', KInt, False),
     (''controller_health_timeout'', KInt, False)]"

text \<open>Each provider with a section, its keys; the section is named like the provider.\<close>

definition SECTIONS :: "(string \<times> (string \<times> key_kind \<times> bool) list) list" where
  "SECTIONS = [(''ec2-pool'', EC2_KEYS KCounts), (''ec2-assign'', EC2_KEYS KAgents)]"

definition RETIRED_SECTION_KEYS :: "string list" where "RETIRED_SECTION_KEYS = [''ssh_private_key_path'']"

definition by_agent :: "schema_env \<Rightarrow> dict \<Rightarrow> string \<Rightarrow> string \<Rightarrow> string list \<Rightarrow> unit check" where
  "by_agent env node key pre names = (let field = field_of pre key in
     chk_bnd (string_mapping env node key pre) (\<lambda>value.
     case dget node key of
       VDict _ \<Rightarrow>
         chk_bnd ((), concat (map (\<lambda>(n, _). if n \<in> set names then [] else [(field_of field n, ''is not an agent'')]) value)) (\<lambda>_.
         note_if (\<exists>n\<in>set names. n \<notin> fst ` set value) field ''must give every agent a value'')
     | _ \<Rightarrow> accept ()))"

definition check_declared :: "schema_env \<Rightarrow> dict \<Rightarrow> string \<Rightarrow> string list \<Rightarrow> string \<times> key_kind \<times> bool \<Rightarrow> unit check" where
  "check_declared env node pre names k = (case k of (key, kind, required) \<Rightarrow>
     if required \<and> dget node key = VNone then reject (field_of pre key) ''is required but missing'' ()
     else case kind of
         KInt \<Rightarrow> chk_bnd (integer env node key pre None (Some 1) None) (\<lambda>_. accept ())
       | KList \<Rightarrow> chk_bnd (string_list env node key pre required) (\<lambda>_. accept ())
       | KCounts \<Rightarrow> counts env node key pre
       | KAgents \<Rightarrow> by_agent env node key pre names
       | KStr \<Rightarrow> chk_bnd (a_string env node key pre None required) (\<lambda>_. accept ()))"

definition check_section :: "schema_env \<Rightarrow> dict \<Rightarrow> string \<Rightarrow> string list \<Rightarrow> string \<times> (string \<times> key_kind \<times> bool) list \<Rightarrow> unit check" where
  "check_section env node provider names s = (case s of (section, keys) \<Rightarrow>
     chk_bnd (mapping node section [] (map fst keys @ RETIRED_SECTION_KEYS)) (\<lambda>m.
     chk_bnd (note_present (case m of None \<Rightarrow> [] | Some b \<Rightarrow> b) section ''moved to the top-level ssh_private_key_path'' RETIRED_SECTION_KEYS) (\<lambda>_.
     if provider \<noteq> section then accept ()
     else case m of
         None \<Rightarrow> note_if (\<exists>(k, kind, needed)\<in>set keys. needed) section ''is required because of the provider''
       | Some block \<Rightarrow> chk_bnd (chk_each (check_declared env block section names) keys) (\<lambda>_. accept ()))))"

section \<open>The manifest\<close>

definition RETIRED_KEYS :: "string list" where "RETIRED_KEYS = [''database'', ''ec2'', ''env_file'']"

definition MANIFEST_KEYS :: "string list" where
  "MANIFEST_KEYS = [''target'', ''provider'', ''agents'', ''poll_interval'', ''cleanup_interval'', ''project_id'', ''redis'',
     ''logs'', ''otel'', ''ssh_private_key_path'', ''ec2-pool'', ''ec2-assign'', ''endpoint'', ''dashboard_port'', ''kubernetes'']"

definition check_manifest :: "schema_env \<Rightarrow> dict \<Rightarrow> manifest check" where
  "check_manifest env node =
     chk_bnd (note_present node [] ''is no longer used'' RETIRED_KEYS) (\<lambda>_.
     chk_bnd (check_keys node [] (MANIFEST_KEYS @ RETIRED_KEYS)) (\<lambda>_.
     chk_bnd (agents env node) (\<lambda>as.
     chk_bnd (provider_of env node) (\<lambda>provider.
     chk_bnd (manifest_target env node) (\<lambda>target.
     chk_bnd (number env node ''poll_interval'' [] 5 (Some 0)) (\<lambda>poll.
     chk_bnd (number env node ''cleanup_interval'' [] 10 (Some 0)) (\<lambda>cleanup.
     chk_bnd (a_string env node ''project_id'' [] None False) (\<lambda>project.
     chk_bnd (redis_of env node) (\<lambda>redis.
     chk_bnd (boolean env node ''logs'' [] True) (\<lambda>logs.
     chk_bnd (otel env node) (\<lambda>destinations.
     chk_bnd (endpoint_of env node as) (\<lambda>ep.
     chk_bnd (port env node ''dashboard_port'' [] (Some 8081)) (\<lambda>dashboard.
     chk_bnd (parse_kubernetes env node) (\<lambda>kubernetes.
     chk_bnd (chk_each (check_section env node provider (map ad_name as)) SECTIONS) (\<lambda>_.
     chk_bnd (a_string env node ''ssh_private_key_path'' [] None False) (\<lambda>key.
     chk_bnd (note_if (case key of None \<Rightarrow> False | Some k \<Rightarrow> has_ref k) ''ssh_private_key_path''
       ''names an environment variable that is not set'') (\<lambda>_.
     accept \<lparr>mn_agents = as, mn_target = target, mn_provider = provider, mn_poll_interval = poll, mn_cleanup_interval = cleanup,
       mn_project_id = project, mn_redis = redis, mn_logs = logs, mn_otel = destinations, mn_endpoint = ep,
       mn_dashboard_port = dashboard, mn_kubernetes = kubernetes\<rparr>)))))))))))))))))"

definition load_manifest :: "schema_env \<Rightarrow> val \<Rightarrow> violation list + manifest" where
  "load_manifest env document = (case document of
       VDict node \<Rightarrow> (case check_manifest env node of (m, vs) \<Rightarrow> if vs = [] then Inr m else Inl vs)
     | VNone \<Rightarrow> Inl [([], ''is empty'')]
     | _ \<Rightarrow> Inl [([], ''expected a mapping'')])"

lemma load_manifest_clean: "load_manifest env document = Inr m \<longleftrightarrow> (\<exists>node. document = VDict node \<and> clean (check_manifest env node) m)"
  by (cases document) (auto simp: load_manifest_def clean_def split: prod.splits if_splits)

end
