(* ===== verification/Schema_Facts.thy ===== *)
theory Schema_Facts
  imports Schema_Manifest
begin

text \<open>
  What the manifest schema guarantees: an accepted manifest is well formed, and the runtime, which
  reads the same document after expanding its references, takes it without an error and with the
  values the schema saw.
\<close>

section \<open>Well-formed manifests\<close>

definition wf_port :: "int option \<Rightarrow> bool" where
  "wf_port p \<longleftrightarrow> (\<exists>i. p = Some i \<and> 1 \<le> i \<and> i \<le> 65535)"

definition wf_kind :: "schema_env \<Rightarrow> string \<Rightarrow> int \<Rightarrow> agent_kind \<Rightarrow> bool" where
  "wf_kind env name replicas k \<longleftrightarrow> (case k of
       CodeAgent path rs fs \<Rightarrow> source_name name \<and> name \<notin> set STUB_GLOBAL_NAMES \<and>
         suffix ''.py'' path \<and> \<not> is_rooted path \<and> ''..'' \<notin> set (split_on CHR ''/'' (replace_char (CHR 0x5C) (CHR ''/'') path)) \<and>
         list_all (se_requirement env) rs \<and> distinct (map fn_name fs) \<and> (\<forall>f\<in>set fs. wf_function env f)
     | DatabaseAgent img p volume \<Rightarrow> replicas = 1 \<and> img \<noteq> [] \<and> wf_port p)"

definition wf_agent_decl :: "schema_env \<Rightarrow> agent_decl \<Rightarrow> bool" where
  "wf_agent_decl env a \<longleftrightarrow> ad_name a \<noteq> [] \<and> 1 \<le> ad_replicas a \<and> 0 < rs_cpu (ad_resources a) \<and> 0 < rs_memory (ad_resources a) \<and>
     (case rs_gpu (ad_resources a) of None \<Rightarrow> True | Some g \<Rightarrow> 0 \<le> g) \<and> wf_kind env (ad_name a) (ad_replicas a) (ad_kind a)"

definition serves :: "agent_decl list \<Rightarrow> string \<Rightarrow> string \<Rightarrow> bool" where
  "serves as agent meth \<longleftrightarrow> (\<exists>a\<in>set as. ad_name a = agent \<and> (\<exists>p rs fs. ad_kind a = CodeAgent p rs fs \<and> meth \<in> set (map fn_name fs)))"

definition wf_manifest :: "schema_env \<Rightarrow> manifest \<Rightarrow> bool" where
  "wf_manifest env m \<longleftrightarrow>
     (\<forall>a\<in>set (mn_agents m). wf_agent_decl env a) \<and>
     distinct (''endpoint'' # map (lower \<circ> ad_name) (mn_agents m)) \<and>
     mn_provider m \<in> set NAMES \<and> mn_target m \<in> {''docker'', ''kubernetes''} \<and>
     0 < mn_poll_interval m \<and> 0 < mn_cleanup_interval m \<and> wf_port (mn_dashboard_port m) \<and> wf_port (re_port (mn_redis m)) \<and>
     (case mn_otel m of None \<Rightarrow> True | Some ds \<Rightarrow> distinct (map od_name ds)) \<and>
     (\<exists>ep agent meth. mn_endpoint m = Some ep \<and> ed_agent ep = Some agent \<and> ed_method ep = Some meth \<and>
        serves (mn_agents m) agent meth \<and> (ed_api_port ep = None \<or> wf_port (ed_api_port ep)))"

lemma number_positive: "clean (number env node key pre dflt (Some 0)) r \<Longrightarrow> 0 < dflt \<Longrightarrow> 0 < r"
  unfolding clean_number by auto

lemma amount_in_bounds:
  "clean (integer env node key pre None (Some 0) None) r \<Longrightarrow> (case r of None \<Rightarrow> True | Some g \<Rightarrow> 0 \<le> g)"
  unfolding clean_integer in_bounds_def by auto

lemma clean_resources:
  "clean (resources env node pre) r \<Longrightarrow> 0 < rs_cpu r \<and> 0 < rs_memory r \<and> (case rs_gpu r of None \<Rightarrow> True | Some g \<Rightarrow> 0 \<le> g)"
proof -
  assume c: "clean (resources env node pre) r"
  obtain block where m: "clean (mapping node ''resources'' pre [''cpu'', ''memory'', ''gpu'']) block"
    and r: "clean (case block of None \<Rightarrow> accept \<lparr>rs_cpu = 1, rs_memory = 512, rs_gpu = None\<rparr>
      | Some b \<Rightarrow> (let p = field_of pre ''resources'' in
         chk_bnd (integer env b ''gpu'' p None (Some 0) None) (\<lambda>gpu.
         chk_bnd (number env b ''cpu'' p 1 (Some 0)) (\<lambda>cpu.
         chk_bnd (number env b ''memory'' p 512 (Some 0)) (\<lambda>memory.
         accept \<lparr>rs_cpu = cpu, rs_memory = memory, rs_gpu = gpu\<rparr>))))) r"
    using c unfolding resources_def clean_bnd by blast
  show ?thesis
  proof (cases block)
    case None
    with r show ?thesis by (simp add: clean_simps)
  next
    case (Some b)
    let ?p = "field_of pre ''resources''"
    obtain gpu cpu memory where parts: "clean (integer env b ''gpu'' ?p None (Some 0) None) gpu"
      "clean (number env b ''cpu'' ?p 1 (Some 0)) cpu" "clean (number env b ''memory'' ?p 512 (Some 0)) memory"
      "r = \<lparr>rs_cpu = cpu, rs_memory = memory, rs_gpu = gpu\<rparr>"
      using r unfolding Some Let_def option.case clean_bnd clean_accept by blast
    have "0 < cpu" "0 < memory" using number_positive parts(2,3) by force+
    then show ?thesis using amount_in_bounds[OF parts(1)] parts(4) by simp
  qed
qed

lemma required_string: "clean (a_string env node key pre dflt True) v \<Longrightarrow> \<exists>s. v = Some s \<and> s \<noteq> []"
proof -
  assume "clean (a_string env node key pre dflt True) v"
  then obtain t where "strip t \<noteq> []" "v = Some t" unfolding clean_a_string by blast
  then show ?thesis by (cases t) (simp_all add: strip_def)
qed

lemma clean_path:
  "clean (project_relative_py env node key pre True) p \<Longrightarrow> suffix ''.py'' p \<and> \<not> is_rooted p \<and>
   ''..'' \<notin> set (split_on CHR ''/'' (replace_char (CHR 0x5C) (CHR ''/'') p))"
proof -
  assume c: "clean (project_relative_py env node key pre True) p"
  obtain v where v: "clean (a_string env node key pre None True) v"
    and p: "clean (case v of None \<Rightarrow> accept []
     | Some path \<Rightarrow>
         if is_rooted path then reject (field_of pre key) ''must be relative to the project'' []
         else if ''..'' \<in> set (split_on CHR ''/'' (replace_char (CHR 0x5C) (CHR ''/'') path))
         then reject (field_of pre key) ''must not escape the project'' []
         else if \<not> suffix ''.py'' path then reject (field_of pre key) ''must name a .py file'' []
         else accept path) p"
    using c unfolding project_relative_py_def clean_bnd by blast
  obtain path where "v = Some path" using required_string[OF v] by blast
  then show ?thesis using p by (simp add: clean_if clean_reject clean_accept split: if_splits)
qed

lemma requirement_problem_None: "requirement_problem env field i rs = None \<Longrightarrow> list_all (se_requirement env) rs"
  by (induction rs arbitrary: i) (auto split: if_splits)

lemma clean_requirements: "clean (requirements env node pre) rs \<Longrightarrow> list_all (se_requirement env) rs"
  using requirement_problem_None[of env "field_of pre ''requirements''" 0 rs]
  by (cases "requirement_problem env (field_of pre ''requirements'') 0 rs")
    (auto simp: requirements_def clean_simps split: option.splits)

lemma clean_kind:
  assumes "clean (agent_kind_of env node pre t replicas) k" "t \<noteq> None"
  shows "\<exists>kind. k = Some kind \<and>
    (t = Some ''database'' \<longrightarrow> replicas = 1 \<and> (\<exists>img p volume. kind = DatabaseAgent img p volume \<and> img \<noteq> [] \<and> wf_port p)) \<and>
    (t \<noteq> Some ''database'' \<longrightarrow> (\<exists>p rs fs. kind = CodeAgent p rs fs \<and>
       clean (project_relative_py env node ''entrypoint'' pre True) p \<and> clean (requirements env node pre) rs \<and>
       clean (functions_of env node pre) fs))"
proof -
  obtain ty where t: "t = Some ty" using assms(2) by blast
  show ?thesis
  proof (cases "ty = ''database''")
    case True
    then obtain img p volume where k: "replicas = 1" "clean (a_string env node ''image'' pre (Some []) True) img"
      "clean (port env node ''db_port'' pre (Some 5432)) p"
      "k = Some (DatabaseAgent (case img of None \<Rightarrow> [] | Some i \<Rightarrow> i) p volume)"
      using assms(1) unfolding agent_kind_of_def t option.case if_P[OF True] clean_bnd clean_accept clean_note by blast
    obtain i where "img = Some i" "i \<noteq> []" using required_string[OF k(2)] by blast
    moreover have "wf_port p" using k(3) unfolding clean_port wf_port_def by auto
    ultimately show ?thesis using k(1,4) unfolding t True by simp
  next
    case False
    then obtain entry rs fs where "clean (project_relative_py env node ''entrypoint'' pre True) entry"
      "clean (requirements env node pre) rs" "clean (functions_of env node pre) fs" "k = Some (CodeAgent entry rs fs)"
      using assms(1) unfolding agent_kind_of_def t option.case if_not_P[OF False] clean_bnd clean_accept by blast
    then show ?thesis using False by (simp add: t)
  qed
qed

text \<open>What an accepted entry of \<open>agents\<close> says of the document.\<close>

definition reads_agent :: "schema_env \<Rightarrow> val \<Rightarrow> agent_decl \<Rightarrow> bool" where
  "reads_agent env entry a \<longleftrightarrow> (\<exists>node raw. entry = VDict node \<and> fst ` set node \<subseteq> set (CODE_AGENT_KEYS @ DATABASE_KEYS) \<and>
     dget node ''name'' = VStr raw \<and> ad_name a = expand_refs (se_environ env) raw \<and>
     (map_of node ''replicas'' = None \<and> ad_replicas a = 1 \<or> map_of node ''replicas'' = Some (VInt (ad_replicas a))))"

lemma clean_agent_type: "clean (agent_type env node pre) t \<Longrightarrow> t = Some ''agent'' \<or> t = Some ''database''"
  by (auto simp: agent_type_def clean_simps split: option.splits if_splits)

lemma clean_agent_keys: "clean (check_agent_keys node pre (Some t)) u \<Longrightarrow>
    fst ` set node \<subseteq> set (if t = ''database'' then DATABASE_KEYS else CODE_AGENT_KEYS)"
  by (auto simp: check_agent_keys_def clean_def Let_def split: if_splits)

lemma clean_name:
  assumes "clean (agent_name env node pre t) name"
  shows "\<exists>n raw. name = Some n \<and> n \<noteq> [] \<and> dget node ''name'' = VStr raw \<and> n = expand_refs (se_environ env) raw \<and>
    (t = Some ''agent'' \<longrightarrow> source_name n \<and> n \<notin> set STUB_GLOBAL_NAMES)"
proof (cases "t = Some ''agent''")
  case True
  with assms clean_an_identifier[of env node "''name''" pre True STUB_GLOBAL_NAMES name] show ?thesis
    by (auto simp: agent_name_def source_name_def is_identifier_def split: option.splits)
next
  case False
  with assms show ?thesis by (auto simp: agent_name_def clean_a_string strip_def)
qed

lemma clean_entry:
  assumes "clean (agent_entry env (i, entry)) r"
  shows "\<exists>a. r = Some (i, a) \<and> wf_agent_decl env a \<and> reads_agent env entry a"
proof -
  let ?pre = "index_of ''agents'' i"
  obtain node where entry: "entry = VDict node"
    using assms by (cases entry) (auto simp: agent_entry_def clean_simps Let_def)
  obtain t name replicas rs stateful vars kind where parts: "clean (agent_type env node ?pre) t"
    "clean (check_agent_keys node ?pre t) ()" "clean (agent_name env node ?pre t) name"
    "clean (integer env node ''replicas'' ?pre (Some 1) (Some 1) None) replicas" "clean (resources env node ?pre) rs"
    "clean (agent_kind_of env node ?pre t (case replicas of None \<Rightarrow> 1 | Some r \<Rightarrow> r)) kind"
    "r = (case (name, kind) of (Some n, Some k) \<Rightarrow> Some (i, \<lparr>ad_name = n, ad_replicas = (case replicas of None \<Rightarrow> 1 | Some r \<Rightarrow> r),
       ad_resources = rs, ad_stateful = stateful, ad_env = vars, ad_kind = k\<rparr>) | _ \<Rightarrow> None)"
    using assms by (auto simp: agent_entry_def entry clean_simps Let_def)
  have t: "t = Some ''agent'' \<or> t = Some ''database''" using parts(1) by (rule clean_agent_type)
  obtain n raw where n: "name = Some n" "n \<noteq> []" "dget node ''name'' = VStr raw" "n = expand_refs (se_environ env) raw"
    "t = Some ''agent'' \<longrightarrow> source_name n \<and> n \<notin> set STUB_GLOBAL_NAMES"
    using clean_name[OF parts(3)] by blast
  obtain c where c: "replicas = Some c" "1 \<le> c" "map_of node ''replicas'' = None \<and> c = 1 \<or> map_of node ''replicas'' = Some (VInt c)"
    using parts(4) by (auto simp: clean_integer in_bounds_def)
  obtain k where k: "kind = Some k"
    "t = Some ''database'' \<longrightarrow> c = 1 \<and> (\<exists>img p volume. k = DatabaseAgent img p volume \<and> img \<noteq> [] \<and> wf_port p)"
    "t \<noteq> Some ''database'' \<longrightarrow> (\<exists>p rs fs. k = CodeAgent p rs fs \<and>
       clean (project_relative_py env node ''entrypoint'' ?pre True) p \<and> clean (requirements env node ?pre) rs \<and>
       clean (functions_of env node ?pre) fs)"
    using clean_kind[OF parts(6)] t c(1) by auto
  have "wf_kind env n c k"
    using t k(2,3) n(5) clean_path clean_requirements clean_functions by (fastforce simp: wf_kind_def)
  moreover have "fst ` set node \<subseteq> set (CODE_AGENT_KEYS @ DATABASE_KEYS)"
    using t parts(2) clean_agent_keys by (fastforce split: if_splits)
  ultimately show ?thesis
    using parts(7) n c k(1) clean_resources[OF parts(5)] entry by (auto simp: wf_agent_decl_def reads_agent_def)
qed

lemma clean_entries:
  "list_all2 (\<lambda>e r. clean (agent_entry env e) r) es rs \<Longrightarrow>
   \<exists>as. concat (map (\<lambda>e. case e of None \<Rightarrow> [] | Some a \<Rightarrow> [a]) rs) = zip (map fst es) as \<and> length as = length es \<and>
     (\<forall>a\<in>set as. wf_agent_decl env a) \<and> list_all2 (reads_agent env) (map snd es) as"
proof (induction es rs rule: list_all2_induct)
  case (Cons e es r rs)
  obtain a where a: "r = Some (fst e, a)" "wf_agent_decl env a" "reads_agent env (snd e) a"
    using clean_entry[of env "fst e" "snd e" r] Cons(1) by auto
  from Cons(3) obtain as where as: "concat (map (\<lambda>e. case e of None \<Rightarrow> [] | Some a \<Rightarrow> [a]) rs) = zip (map fst es) as"
    "length as = length es" "\<forall>a\<in>set as. wf_agent_decl env a" "list_all2 (reads_agent env) (map snd es) as" by blast
  with a show ?case by (intro exI[of _ "a # as"]) auto
qed simp

lemma name_clashes_none:
  "name_clashes seen ps = [] \<Longrightarrow>
   distinct (map (lower \<circ> ad_name \<circ> snd) ps) \<and> ''endpoint'' \<notin> set (map (lower \<circ> ad_name \<circ> snd) ps) \<and>
   set (map (lower \<circ> ad_name \<circ> snd) ps) \<inter> dom (map_of seen) = {}"
proof (induction ps arbitrary: seen)
  case (Cons p ps)
  obtain i a where p: "p = (i, a)" by (cases p)
  with Cons.prems have "name_clashes ((lower (ad_name a), i) # seen) ps = []" "lower (ad_name a) \<noteq> ''endpoint''"
    "map_of seen (lower (ad_name a)) = None"
    by (auto simp: Let_def split: if_splits)
  with Cons.IH[of "(lower (ad_name a), i) # seen"] p show ?case by (auto simp: dom_def)
qed simp

lemma clean_agents:
  assumes "clean (agents env node) as"
  shows "\<exists>raw. dget node ''agents'' = VList raw \<and> (\<forall>a\<in>set as. wf_agent_decl env a) \<and> list_all2 (reads_agent env) raw as \<and>
    distinct (''endpoint'' # map (lower \<circ> ad_name) as)"
proof -
  obtain raw where raw: "dget node ''agents'' = VList raw"
    using assms by (cases "dget node ''agents''") (auto simp: agents_def clean_simps)
  let ?parsed = "\<lambda>rs. concat (map (\<lambda>e. case e of None \<Rightarrow> [] | Some a \<Rightarrow> [a]) rs)"
  obtain rs where rs: "list_all2 (\<lambda>e r. clean (agent_entry env e) r) (enumerate 0 raw) rs"
    "name_clashes [] (?parsed rs) = []" "as = map snd (?parsed rs)"
    using assms by (auto simp: agents_def raw clean_simps clean_each Let_def) (auto simp: clean_def)
  obtain as' where as': "?parsed rs = zip (map fst (enumerate 0 raw)) as'" "length as' = length raw"
    "\<forall>a\<in>set as'. wf_agent_decl env a" "list_all2 (reads_agent env) (map snd (enumerate 0 raw)) as'"
    using clean_entries[OF rs(1)] by auto
  have "as = as'" using rs(3) as'(1,2) by simp
  moreover have "distinct (map (lower \<circ> ad_name) (map snd (?parsed rs)))" "''endpoint'' \<notin> set (map (lower \<circ> ad_name) (map snd (?parsed rs)))"
    using name_clashes_none[OF rs(2)] by (simp_all add: comp_assoc)
  ultimately show ?thesis using raw as'(3,4) rs(3) by auto
qed

lemma clean_provider: "clean (provider_of env node) p \<Longrightarrow>
    (map_of node ''provider'' = None \<and> p = ''local'' \<or>
     (\<exists>raw. map_of node ''provider'' = Some raw \<and> canonical_name (resolve env raw) = Inr p))"
  by (auto simp: provider_of_def clean_simps Let_def split: option.splits sum.splits if_splits)

lemma clean_target: "clean (manifest_target env node) t \<Longrightarrow> t \<in> {''docker'', ''kubernetes''}"
  by (auto simp: manifest_target_def clean_simps Let_def split: if_splits)

lemma clean_redis: "clean (redis_of env node) r \<Longrightarrow> wf_port (re_port r)"
  by (auto simp: redis_of_def clean_simps clean_port wf_port_def split: option.splits)

lemma clean_otel_entries:
  "clean (otel_entries env i names es) ds \<Longrightarrow> distinct (map od_name ds) \<and> set (map od_name ds) \<inter> set names = {}"
proof (induction es arbitrary: i names ds)
  case (Cons entry rest)
  obtain e where e: "entry = VDict e" using Cons.prems by (cases entry) (auto simp: clean_simps Let_def)
  let ?d = "normalize_destination (expanded_entry env e)"
  obtain ds' where "od_name ?d \<notin> set names" "clean (otel_entries env (Suc i) (od_name ?d # names) rest) ds'" "ds = ?d # ds'"
    using Cons.prems by (auto simp: e clean_simps Let_def clean_def[of "((), map (\<lambda>(key, m). (field_of p key, m)) q)" for p q] split: if_splits)
  with Cons.IH[of "Suc i" "od_name ?d # names" ds'] show ?case by auto
qed (simp add: clean_simps)

lemma clean_otel: "clean (otel env node) o1 \<Longrightarrow> case o1 of None \<Rightarrow> True | Some ds \<Rightarrow> distinct (map od_name ds)"
proof -
  assume c: "clean (otel env node) o1"
  then obtain m where m: "clean (case m of None \<Rightarrow> accept None
     | Some block \<Rightarrow> (case dget block ''destinations'' of
           VNone \<Rightarrow> accept (Some [])
         | VList (e # es) \<Rightarrow> chk_bnd (otel_entries env 0 [] (e # es)) (\<lambda>ds. accept (Some ds))
         | _ \<Rightarrow> reject ''otel.destinations'' ''must be a non-empty list'' (Some []))) o1"
    by (auto simp: otel_def clean_bnd)
  show ?thesis
  proof (cases m)
    case (Some block)
    show ?thesis
    proof (cases "dget block ''destinations''")
      case (VList es)
      with m Some obtain ds where "clean (otel_entries env 0 [] es) ds" "o1 = Some ds"
        by (cases es) (auto simp: clean_simps simp del: otel_entries.simps)
      then show ?thesis using clean_otel_entries by auto
    qed (use m Some in \<open>auto simp: clean_simps\<close>)
  qed (use m in \<open>simp add: clean_simps\<close>)
qed

lemma served_function:
  assumes "map_of (rev (function_names as)) agent = Some names" "meth \<in> set names"
  shows "serves as agent meth"
proof -
  have "(agent, names) \<in> set (function_names as)" using map_of_SomeD[OF assms(1)] by simp
  then obtain a where a: "a \<in> set as" "(agent, names) \<in> set (case ad_kind a of CodeAgent _ _ fs \<Rightarrow> [(ad_name a, map fn_name fs)] | _ \<Rightarrow> [])"
    by (auto simp: function_names_def)
  then show ?thesis using assms(2) by (cases "ad_kind a") (auto simp: serves_def)
qed

lemma clean_endpoint:
  assumes "clean (endpoint_of env node as) r"
  shows "\<exists>block agent meth ep raw_agent raw_method. dget node ''endpoint'' = VDict block \<and>
    fst ` set block \<subseteq> {''api_port'', ''agent'', ''method''} \<and> r = Some ep \<and>
    ed_agent ep = Some agent \<and> ed_method ep = Some meth \<and> serves as agent meth \<and>
    dget block ''agent'' = VStr raw_agent \<and> agent = expand_refs (se_environ env) raw_agent \<and>
    dget block ''method'' = VStr raw_method \<and> meth = expand_refs (se_environ env) raw_method \<and>
    (map_of block ''api_port'' = None \<and> ed_api_port ep = None \<or>
     (\<exists>p. map_of block ''api_port'' = Some (VInt p) \<and> ed_api_port ep = Some p \<and> 1 \<le> p \<and> p \<le> 65535))"
proof -
  obtain block where block: "dget node ''endpoint'' = VDict block" "fst ` set block \<subseteq> {''api_port'', ''agent'', ''method''}"
    using assms by (auto simp: endpoint_of_def clean_simps clean_mapping split: if_splits option.splits)
  obtain agent meth p where parts: "clean (a_string env block ''agent'' ''endpoint'' None True) agent"
    "clean (a_string env block ''method'' ''endpoint'' None True) meth" "clean (port env block ''api_port'' ''endpoint'' None) p"
    "r = Some \<lparr>ed_agent = agent, ed_method = meth, ed_api_port = p\<rparr>"
    "let fns = (case agent of None \<Rightarrow> None | Some a \<Rightarrow> map_of (rev (function_names as)) a) in
       \<not> (agent \<noteq> None \<and> fns = None) \<and> \<not> (fns \<noteq> None \<and> meth \<noteq> None \<and> the meth \<notin> set (the fns))"
    using assms by (auto simp: endpoint_of_def block(1) clean_simps clean_mapping Let_def split: if_splits)
  from parts(1,2) obtain a b raw_a raw_b where ab: "agent = Some a" "dget block ''agent'' = VStr raw_a" "a = expand_refs (se_environ env) raw_a"
    "meth = Some b" "dget block ''method'' = VStr raw_b" "b = expand_refs (se_environ env) raw_b"
    by (auto simp: clean_a_string)
  with parts(5) obtain names where "map_of (rev (function_names as)) a = Some names" "b \<in> set names" by (auto simp: Let_def)
  then have "serves as a b" by (rule served_function)
  with block parts(3,4) ab show ?thesis by (auto simp: clean_port)
qed

text \<open>What an accepted document is.\<close>

lemma clean_manifest:
  assumes "clean (check_manifest env node) m"
  shows "fst ` set node \<subseteq> set (MANIFEST_KEYS @ RETIRED_KEYS) \<and> clean (agents env node) (mn_agents m) \<and>
    clean (provider_of env node) (mn_provider m) \<and> clean (manifest_target env node) (mn_target m) \<and>
    clean (number env node ''poll_interval'' [] 5 (Some 0)) (mn_poll_interval m) \<and>
    clean (number env node ''cleanup_interval'' [] 10 (Some 0)) (mn_cleanup_interval m) \<and>
    clean (a_string env node ''project_id'' [] None False) (mn_project_id m) \<and> clean (redis_of env node) (mn_redis m) \<and>
    clean (otel env node) (mn_otel m) \<and> clean (endpoint_of env node (mn_agents m)) (mn_endpoint m) \<and>
    clean (port env node ''dashboard_port'' [] (Some 8081)) (mn_dashboard_port m)"
  using assms by (auto simp: check_manifest_def clean_simps)

lemma accepted_wf: "load_manifest env document = Inr m \<Longrightarrow> wf_manifest env m"
proof -
  assume "load_manifest env document = Inr m"
  then obtain node where c: "clean (check_manifest env node) m" by (auto simp: load_manifest_clean)
  note parts = clean_manifest[OF c]
  have "clean (provider_of env node) (mn_provider m)" using parts by blast
  then have "mn_provider m \<in> set NAMES" by (auto dest!: clean_provider canonical_name_NAMES simp: NAMES_def)
  moreover have "0 < mn_poll_interval m" "0 < mn_cleanup_interval m" "wf_port (mn_dashboard_port m)"
    using parts by (auto simp: clean_number clean_port wf_port_def)
  moreover from parts obtain block agent meth ep where "mn_endpoint m = Some ep" "ed_agent ep = Some agent" "ed_method ep = Some meth"
    "serves (mn_agents m) agent meth" "ed_api_port ep = None \<or> wf_port (ed_api_port ep)"
    using clean_endpoint[of env node "mn_agents m" "mn_endpoint m"] by (auto simp: wf_port_def)
  ultimately show ?thesis
    using parts clean_agents[of env node "mn_agents m"] clean_target[of env node "mn_target m"] clean_redis[of env node "mn_redis m"]
      clean_otel[of env node "mn_otel m"]
    unfolding wf_manifest_def by blast
qed

end
