(* ===== verification/Schema_Runtime.thy ===== *)
theory Schema_Runtime
  imports Schema_Facts
begin

text \<open>
  A manifest the schema accepts, as the runtime reads it: \<open>_load_config\<close> of
  \<open>controller/controller_context.py\<close> on the same document with its references expanded.
\<close>

section \<open>Expanding an accepted document\<close>

lemma env_ref_dollar: "env_ref (c # cs) \<noteq> None \<Longrightarrow> c = CHR ''$''"
  by (auto simp: env_ref_def Let_def split: if_splits)

lemma expand_plain: "CHR ''$'' \<notin> set k \<Longrightarrow> expand_refs env k = k"
proof (induction k)
  case (Cons c cs)
  then have "env_ref (c # cs) = None" using env_ref_dollar[of c cs] by (cases "env_ref (c # cs)") auto
  with Cons show ?case by simp
qed simp

definition plain_keys :: "dict \<Rightarrow> bool" where
  "plain_keys d \<longleftrightarrow> distinct (map fst d) \<and> (\<forall>k\<in>fst ` set d. CHR ''$'' \<notin> set k)"

definition expanded :: "environ \<Rightarrow> dict \<Rightarrow> dict" where
  "expanded env d = map (\<lambda>(k, v). (k, expand_env_value env v)) d"

lemma fold_update_new: "distinct (map fst (xs @ ys)) \<Longrightarrow> fold (\<lambda>(k, v). AList.update k v) ys xs = xs @ ys"
proof (induction ys arbitrary: xs)
  case (Cons y ys)
  obtain k v where y: "y = (k, v)" by (cases y)
  have "AList.update k v xs = xs @ [(k, v)]" using Cons.prems y by (induction xs) auto
  with Cons.IH[of "xs @ [y]"] Cons.prems y show ?case by simp
qed simp

lemma expand_dict: "plain_keys d \<Longrightarrow> expand_env_value env (VDict d) = VDict (expanded env d)"
proof -
  assume p: "plain_keys d"
  let ?d = "map (\<lambda>(k, v). (expand_refs env k, expand_env_value env v)) d"
  have "?d = expanded env d" using p by (auto simp: plain_keys_def expanded_def expand_plain)
  moreover have "distinct (map fst (expanded env d))" using p by (simp add: plain_keys_def expanded_def comp_def split_beta)
  ultimately show ?thesis using fold_update_new[of "[]" "expanded env d"] by simp
qed

lemma map_of_expanded: "map_of (expanded env d) k = map_option (expand_env_value env) (map_of d k)"
  by (induction d) (auto simp: expanded_def)

lemma dget_expanded: "dget (expanded env d) k = expand_env_value env (dget d k)"
  by (simp add: dget_def map_of_expanded split: option.split)

section \<open>The runtime's view\<close>

text \<open>No mapping the runtime reads sets a key twice, which the schema's YAML loader refuses.\<close>

definition unique_keys :: "dict \<Rightarrow> bool" where
  "unique_keys node \<longleftrightarrow> distinct (map fst node) \<and> (\<forall>d. VDict d \<in> set (raw_agents node) \<longrightarrow> distinct (map fst d)) \<and>
     (\<forall>d. dget node ''endpoint'' = VDict d \<longrightarrow> distinct (map fst d))"

definition spec_reads :: "agent_decl \<Rightarrow> string \<Rightarrow> spec \<Rightarrow> bool" where
  "spec_reads a p sp \<longleftrightarrow> spec_name sp = ad_name a \<and> replica_count sp = Some (ad_replicas a) \<and> dget sp ''provider'' = VStr p"

lemma plain_allowed: "distinct (map fst d) \<Longrightarrow> fst ` set d \<subseteq> set ks \<Longrightarrow> \<forall>k\<in>set ks. CHR ''$'' \<notin> set k \<Longrightarrow> plain_keys d"
  by (auto simp: plain_keys_def)

lemma with_provider_reads:
  assumes "list_all2 (reads_agent env) raw as" "\<forall>d. VDict d \<in> set raw \<longrightarrow> distinct (map fst d)"
  shows "\<exists>specs. with_provider p (map (expand_env_value (se_environ env)) raw) = Inr specs \<and>
    list_all2 (\<lambda>a. spec_reads a p) as specs"
  using assms
proof (induction raw as rule: list_all2_induct)
  case (Cons entry raw a as)
  let ?e = "expanded (se_environ env)"
  from Cons(1) obtain node raw_name where node: "entry = VDict node" "fst ` set node \<subseteq> set (CODE_AGENT_KEYS @ DATABASE_KEYS)"
    "dget node ''name'' = VStr raw_name" "ad_name a = expand_refs (se_environ env) raw_name"
    "map_of node ''replicas'' = None \<and> ad_replicas a = 1 \<or> map_of node ''replicas'' = Some (VInt (ad_replicas a))"
    by (auto simp: reads_agent_def)
  have "plain_keys node"
    by (rule plain_allowed[OF _ node(2)])
      (use Cons.prems node(1) in \<open>auto simp: CODE_AGENT_KEYS_def DATABASE_KEYS_def COMMON_AGENT_KEYS_def\<close>)
  then have ex: "expand_env_value (se_environ env) entry = VDict (?e node)" using node(1) expand_dict by simp
  have "spec_reads a p (AList.update ''provider'' (VStr p) (?e node))"
    using node(3-5) by (auto simp: spec_reads_def spec_name_def replica_count_def dget_expanded dget_or_def map_of_expanded update_conv')
  moreover obtain specs where "with_provider p (map (expand_env_value (se_environ env)) raw) = Inr specs"
    "list_all2 (\<lambda>a. spec_reads a p) as specs" using Cons by auto
  ultimately show ?case using ex by simp
qed simp

lemma canonical_expanded:
  assumes "map_of node ''provider'' = None \<and> p = ''local'' \<or>
     (\<exists>raw. map_of node ''provider'' = Some raw \<and> canonical_name (resolve env raw) = Inr p)"
  shows "canonical_name (dget_or (expanded (se_environ env) node) ''provider'' (VStr ''local'')) = Inr p"
  using assms
proof (elim disjE exE conjE)
  assume "map_of node ''provider'' = None" "p = ''local''"
  then show ?thesis by (simp add: dget_or_def map_of_expanded canonical_name_def NAMES_def)
next
  fix raw assume "map_of node ''provider'' = Some raw" "canonical_name (resolve env raw) = Inr p"
  then show ?thesis
    by (cases raw) (auto simp: dget_or_def map_of_expanded resolve_def canonical_name_def split: option.splits)
qed

lemma accepted_loads:
  assumes "load_manifest env (VDict node) = Inr m" "mn_project_id m \<noteq> None" "unique_keys node"
  shows "\<exists>config specs ep. load_config (expand_env_value (se_environ env) (VDict node)) = Inr (config, specs @ [ep]) \<and>
    list_all2 (\<lambda>a. spec_reads a (mn_provider m)) (mn_agents m) specs \<and> spec_name ep = ''endpoint'' \<and> replica_count ep = Some 1 \<and>
    (\<exists>e agent meth. mn_endpoint m = Some e \<and> ed_agent e = Some agent \<and> ed_method e = Some meth \<and>
       dget ep ''agent'' = VStr agent \<and> dget ep ''method'' = VStr meth)"
proof -
  let ?e = "expanded (se_environ env)"
  have c: "clean (check_manifest env node) m" using assms(1) by (simp add: load_manifest_clean)
  note parts = clean_manifest[OF c]
  have as: "clean (agents env node) (mn_agents m)" and e: "clean (endpoint_of env node (mn_agents m)) (mn_endpoint m)"
    and pr: "clean (provider_of env node) (mn_provider m)"
    using parts by blast+
  obtain raw where raw: "dget node ''agents'' = VList raw" "list_all2 (reads_agent env) raw (mn_agents m)"
    using clean_agents[OF as] by blast
  obtain block agent meth ep raw_agent raw_method where ep: "dget node ''endpoint'' = VDict block"
    "fst ` set block \<subseteq> {''api_port'', ''agent'', ''method''}" "mn_endpoint m = Some ep" "ed_agent ep = Some agent" "ed_method ep = Some meth"
    "dget block ''agent'' = VStr raw_agent" "agent = expand_refs (se_environ env) raw_agent"
    "dget block ''method'' = VStr raw_method" "meth = expand_refs (se_environ env) raw_method"
    using clean_endpoint[OF e] that by (elim exE conjE) metis
  have keys: "fst ` set node \<subseteq> set (MANIFEST_KEYS @ RETIRED_KEYS)" using parts by blast
  have dollars: "\<forall>k\<in>set (MANIFEST_KEYS @ RETIRED_KEYS). CHR ''$'' \<notin> set k" by code_simp
  have "distinct (map fst node)" using assms(3) by (simp add: unique_keys_def)
  from plain_allowed[OF this keys dollars] have doc: "expand_env_value (se_environ env) (VDict node) = VDict (?e node)" by (rule expand_dict)
  have "plain_keys block"
    by (rule plain_allowed[of _ "[''api_port'', ''agent'', ''method'']"]) (use assms(3) ep(1,2) in \<open>auto simp: unique_keys_def\<close>)
  then have block: "expand_env_value (se_environ env) (VDict block) = VDict (?e block)" by (rule expand_dict)
  have project: "truthy (dget (?e node) ''project_id'')"
  proof -
    have "clean (a_string env node ''project_id'' [] None False) (mn_project_id m)" using parts by blast
    then show ?thesis using assms(2) by (auto simp: clean_a_string dget_expanded strip_def)
  qed
  obtain specs where specs: "with_provider (mn_provider m) (map (expand_env_value (se_environ env)) raw) = Inr specs"
    "list_all2 (\<lambda>a. spec_reads a (mn_provider m)) (mn_agents m) specs"
    using with_provider_reads[OF raw(2), of "mn_provider m"] raw(1) assms(3) by (auto simp: unique_keys_def raw_agents_def)
  have canon: "canonical_name (dget_or (?e node) ''provider'' (VStr ''local'')) = Inr (mn_provider m)"
    by (rule canonical_expanded, rule clean_provider[OF pr])
  have in_doc: "map_of (?e node) ''agents'' = Some (VList (map (expand_env_value (se_environ env)) raw))"
    "map_of (?e node) ''endpoint'' = Some (VDict (?e block))"
    using raw(1) ep(1) block by (auto simp: map_of_expanded dget_def split: option.splits)
  have in_block: "map_of (?e block) ''agent'' = Some (VStr agent)" "map_of (?e block) ''method'' = Some (VStr meth)"
    using ep(6-9) by (auto simp: map_of_expanded dget_def split: option.splits)
  obtain config esp where l: "load_config (VDict (?e node)) = Inr (config, specs @ [esp])"
    "esp = [(''name'', VStr ''endpoint''), (''type'', VStr ''endpoint''), (''replicas'', VInt 1), (''resources'', VDict [(''cpu'', VInt 2)]),
       (''api_port'', dget (?e block) ''api_port''), (''agent'', VStr agent), (''method'', VStr meth), (''provider'', VStr ''local'')]"
    using project canon in_doc specs(1) in_block by (simp add: load_config_def endpoint_spec_def)
  show ?thesis
    unfolding doc using l specs(2) ep(3-5)
    by (intro exI[of _ config] exI[of _ specs] exI[of _ esp]) (simp add: spec_name_def replica_count_def dget_def dget_or_def)
qed

text \<open>C28: an accepted manifest is well formed: agents with names of their own in any casing and none the
  endpoint's, replica counts and resources that are positive, databases of one replica, paths inside
  the project, function and argument names the stub can be written with, ports in range, telemetry
  destinations with names of their own, and an endpoint that serves a declared function of an agent.\<close>

theorem accepted_manifest_is_well_formed:
  assumes "load_manifest env document = Inr m"
  shows "wf_manifest env m"
  using assms by (rule accepted_wf)


section \<open>A manifest\<close>

definition demo_senv :: schema_env where
  "demo_senv = \<lparr>se_environ = [''M'' \<mapsto> ''Writer''], se_float_str = (\<lambda>_. []), se_builtin_type = (\<lambda>t. t = ''str''),
     se_requirement = (\<lambda>_. True)\<rparr>"

definition demo_document :: "(string \<times> val) list \<Rightarrow> dict" where
  "demo_document extra = extra @ [(''project_id'', VStr ''p''),
     (''agents'', VList [VDict [(''name'', VStr ''${M}''), (''entrypoint'', VStr ''w.py''), (''replicas'', VInt 2),
        (''functions'', VList [VDict [(''name'', VStr ''write'')]])]]),
     (''endpoint'', VDict [(''agent'', VStr ''Writer''), (''method'', VStr ''write'')])]"

definition manifest_accepted :: "violation list + manifest \<Rightarrow> bool" where
  "manifest_accepted r \<longleftrightarrow> (case r of Inl _ \<Rightarrow> False | Inr _ \<Rightarrow> True)"

lemma demo_parts:
  "map_sum id (\<lambda>m. (mn_project_id m, map ad_name (mn_agents m), map ad_replicas (mn_agents m))) (load_manifest demo_senv (VDict (demo_document []))) =
   Inr (Some ''p'', [''Writer''], [2])"
  by code_simp

lemma demo_manifest:
  "\<exists>m. load_manifest demo_senv (VDict (demo_document [])) = Inr m \<and> mn_project_id m \<noteq> None \<and>
     map ad_name (mn_agents m) = [''Writer''] \<and> map ad_replicas (mn_agents m) = [2]"
  using demo_parts by (cases "load_manifest demo_senv (VDict (demo_document []))") auto

theorem accepted_manifest_is_well_formed_witness:
  "\<exists>m. load_manifest demo_senv (VDict (demo_document [])) = Inr m \<and> wf_manifest demo_senv m"
  using demo_manifest by (elim exE conjE) (intro exI conjI, assumption, rule accepted_manifest_is_well_formed)

lemma demo_unique: "unique_keys (demo_document [])"
  by (auto simp: unique_keys_def demo_document_def raw_agents_def dget_def)


section \<open>Sections left empty\<close>

text \<open>How the Global Controller reads where its Redis is (\<open>__init__\<close> of \<open>ControllerContext\<close>).\<close>

definition redis_settings :: "dict \<Rightarrow> exn + val \<times> val \<times> val" where
  "redis_settings config = (case dget_or config ''redis'' (VDict []) of
       VDict d \<Rightarrow> Inr (dget_or d ''host'' (VStr ''localhost''), dget_or d ''port'' (VInt 6379), dget_or d ''db'' (VInt 0))
     | _ \<Rightarrow> Inl (AttributeError ''get''))"

text \<open>A section written with nothing under it is \<open>None\<close>: the schema takes it as left out, and the runtime,
  which only handles a missing key, raises.\<close>

lemma empty_redis_section:
  "manifest_accepted (load_manifest demo_senv (VDict (demo_document [(''redis'', VNone)]))) \<and>
   map_sum id (\<lambda>_. ()) (load_config (expand_env_value (se_environ demo_senv) (VDict (demo_document [(''redis'', VNone)])))) = Inr () \<and>
   redis_settings (demo_document [(''redis'', VNone)]) = Inl (AttributeError ''get'')"
proof (intro conjI)
  show "manifest_accepted (load_manifest demo_senv (VDict (demo_document [(''redis'', VNone)])))" by code_simp
  show "map_sum id (\<lambda>_. ()) (load_config (expand_env_value (se_environ demo_senv) (VDict (demo_document [(''redis'', VNone)])))) = Inr ()"
    by code_simp
qed (simp add: redis_settings_def demo_document_def dget_or_def)

end
