(* ===== verification/Config_Files.thy ===== *)
theory Config_Files
  imports Controller_Polling Governance Gateway_Config Config_Env
begin

text \<open>
  How the Global Controller reads the files of the config folder
  (\<open>controller/global_controller.py\<close>, lines 99-135 and 369-453): the live version of each prompt,
  the policy rules most specific first, the governance seed, and each other file's document under
  its Redis key. A folder is the list of its files in the order \<open>sorted(os.listdir(...))\<close> gives,
  each with what \<open>yaml.safe_load\<close> makes of it.
\<close>

datatype config_file = Not_Utf8 | Bad_Yaml string | Yaml val

type_synonym folder = "(string \<times> config_file) list"

text \<open>What reading depends on besides the files: \<open>datetime.fromisoformat\<close>, the text of a date, how a
  path is written relative to the working directory, the process environment.\<close>

record reading =
  rd_iso :: iso_reader
  rd_time_str :: "int \<Rightarrow> int option \<Rightarrow> string"
  rd_relpath :: "string \<Rightarrow> string"
  rd_environ :: environ

section \<open>JSON\<close>

text \<open>\<open>json.dumps\<close> raises on a date; with \<open>default=str\<close> it writes its text.\<close>

fun jsonable :: "val \<Rightarrow> bool" where
  "jsonable (VList vs) = list_all jsonable vs"
| "jsonable (VDict d) = list_all (\<lambda>(k, v). jsonable v) d"
| "jsonable (VTime t z) = False"
| "jsonable v = True"

definition dumps :: "val \<Rightarrow> exn + rtext" where
  "dumps v = (if jsonable v then Inr (Doc v) else Inl (TypeError ''not JSON serializable''))"

fun default_str :: "(int \<Rightarrow> int option \<Rightarrow> string) \<Rightarrow> val \<Rightarrow> val" where
  "default_str f (VList vs) = VList (map (default_str f) vs)"
| "default_str f (VDict d) = VDict (map (\<lambda>(k, v). (k, default_str f v)) d)"
| "default_str f (VTime t z) = VStr (f t z)"
| "default_str f v = v"

lemma jsonable_default_str: "jsonable (default_str f v)"
  by (induction v) (auto simp: list_all_iff)

section \<open>Prompts\<close>

text \<open>The number of \<open>re.search(r"-v(\d+)$", ...)\<close>, 0 without a match: \<open>$\<close> also matches before a newline
  at the end. No value but a text can end in a digit after \<open>-v\<close>.\<close>

definition version_number :: "val \<Rightarrow> int" where
  "version_number v = (case v of
       VStr s \<Rightarrow> (let t = rev (if suffix [CHR 0x0A] s then butlast s else s); ds = rev (takeWhile is_digit t) in
         if prefix ''v-'' (dropWhile is_digit t) then (case parse_digits False 0 ds of None \<Rightarrow> 0 | Some n \<Rightarrow> int n) else 0)
     | _ \<Rightarrow> 0)"

type_synonym live_rank = "bool \<times> int \<times> val"

definition live_first :: "dict \<Rightarrow> live_rank" where
  "live_first version = (dget version ''live'' = VBool True, version_number (dget_or version ''version'' (VStr [])),
     val_or (dget version ''updated_at'') (VStr []))"

text \<open>\<open>a > b\<close> on two ranks: the first place they differ in decides.\<close>

definition rank_above :: "live_rank \<Rightarrow> live_rank \<Rightarrow> exn + bool" where
  "rank_above a b = (case (a, b) of ((l, n, u), (l', n', u')) \<Rightarrow>
     if l \<noteq> l' then Inr l else if n \<noteq> n' then Inr (n' < n) else if py_eq u u' then Inr False else py_less u' u)"

text \<open>\<open>max(versions, key=_live_first)\<close>: the first of the highest.\<close>

fun max_version :: "dict \<Rightarrow> dict list \<Rightarrow> exn + dict" where
  "max_version best [] = Inr best"
| "max_version best (v # vs) = res_bnd (rank_above (live_first v) (live_first best)) (\<lambda>greater.
     max_version (if greater then v else best) vs)"

definition mappings :: "val \<Rightarrow> dict list option" where
  "mappings v = (case v of
       VList vs \<Rightarrow> those (map (\<lambda>x. case x of VDict d \<Rightarrow> Some d | _ \<Rightarrow> None) vs)
     | _ \<Rightarrow> None)"

definition live_prompt :: "string \<Rightarrow> string \<times> val \<Rightarrow> exn + dict" where
  "live_prompt path p = (case p of (name, versions) \<Rightarrow> case mappings versions of
       None \<Rightarrow> Inl (RuntimeError (path @ '': prompt '' @ name @ '' must be a list of versions, each with `version` and `content`.''))
     | Some [] \<Rightarrow> Inr []
     | Some (v # vs) \<Rightarrow> res_bnd (max_version v vs) (\<lambda>best. Inr [(name, VDict best)]))"

definition live_prompts :: "val \<Rightarrow> string \<Rightarrow> exn + dict" where
  "live_prompts document path =
     (let bad = Inl (RuntimeError (path @ '' must have a `prompts:` mapping of prompt names.'')) in
      case document of
        VDict d \<Rightarrow> (case val_or (dget d ''prompts'') (VDict []) of
            VDict prompts \<Rightarrow> res_bnd (res_all (live_prompt path) prompts) (\<lambda>ls. Inr (concat ls))
          | _ \<Rightarrow> bad)
      | _ \<Rightarrow> bad)"

section \<open>Policy rules\<close>

definition py_len :: "val \<Rightarrow> exn + nat" where
  "py_len v = (case v of VStr s \<Rightarrow> Inr (length s) | VList vs \<Rightarrow> Inr (length vs) | VDict d \<Rightarrow> Inr (length d)
     | _ \<Rightarrow> Inl (TypeError ''len''))"

text \<open>\<open>sort(key=..., reverse=True)\<close>: the keys are computed first, and rules with as many keep their order.\<close>

definition by_specificity :: "dict list \<Rightarrow> exn + dict list" where
  "by_specificity rules =
     res_bnd (res_all (\<lambda>r. res_bnd (py_len (dget_or r ''match'' (VDict []))) (\<lambda>n. Inr (n, r))) rules) (\<lambda>keyed.
     Inr (map snd (sort_key (\<lambda>(n, r). - int n) keyed)))"

definition load_policy_rules :: "reading \<Rightarrow> folder \<Rightarrow> exn + dict list" where
  "load_policy_rules rd fs = (case map_of fs ''policy.yaml'' of
       None \<Rightarrow> Inr []
     | Some (Yaml policy_config) \<Rightarrow>
         (case (case policy_config of VDict d \<Rightarrow> mappings (dget_or d ''rules'' (VList [])) | _ \<Rightarrow> None) of
            None \<Rightarrow> Inl (RuntimeError (rd_relpath rd ''policy.yaml'' @ '' must be a mapping with a `rules:` list of mappings.''))
          | Some rules \<Rightarrow> by_specificity rules)
     | Some Not_Utf8 \<Rightarrow> Inl (ValueError ''codec'')
     | Some (Bad_Yaml problem) \<Rightarrow> Inl (RuntimeError problem))"

section \<open>The folder\<close>

record config_files =
  cf_payloads :: dict
  cf_prompts :: "dict option"
  cf_governance :: "dict option"

text \<open>\<open>os.path.splitext\<close> of a name that does not start with a dot.\<close>

definition splitext :: "string \<Rightarrow> string \<times> string" where
  "splitext filename = (if CHR ''.'' \<in> set filename then (case rpartition CHR ''.'' filename of (name, extension) \<Rightarrow> (name, ''.'' @ extension))
     else (filename, []))"

definition is_config :: "string \<Rightarrow> bool" where
  "is_config filename \<longleftrightarrow> snd (splitext filename) \<in> {''.yaml'', ''.yml''} \<and> \<not> prefix ''.'' filename"

definition file_key :: "string \<Rightarrow> string" where
  "file_key name = (if name = ''prompts'' then ''prompts:yaml'' else name @ '':config'')"

text \<open>\<open>except ValueError as exc: raise RuntimeError(str(exc)) from exc\<close>.\<close>

definition as_runtime_error :: "exn + 'a \<Rightarrow> exn + 'a" where
  "as_runtime_error r = (case r of Inl (ValueError s) \<Rightarrow> Inl (RuntimeError s) | _ \<Rightarrow> r)"

definition read_document :: "reading \<Rightarrow> string \<Rightarrow> config_file \<Rightarrow> exn + val" where
  "read_document rd path f = (case f of
       Yaml v \<Rightarrow> Inr (default_str (rd_time_str rd) (val_or v (VDict [])))
     | Bad_Yaml problem \<Rightarrow> Inl (RuntimeError (path @ '':'' @ problem))
     | Not_Utf8 \<Rightarrow> Inl (RuntimeError (path @ '' is not UTF-8 text; save it as UTF-8.'')))"

definition read_file :: "reading \<Rightarrow> config_files \<Rightarrow> string \<times> config_file \<Rightarrow> exn + config_files" where
  "read_file rd c f = (case f of (filename, content) \<Rightarrow> let name = fst (splitext filename) in
     if \<not> is_config filename then Inr c
     else let path = rd_relpath rd filename; key = file_key name in
       res_bnd (read_document rd path content) (\<lambda>doc.
       res_bnd (if name = ''prompts'' then res_bnd (live_prompts doc path) (\<lambda>l. Inr (Some l)) else Inr (cf_prompts c)) (\<lambda>prompts.
       res_bnd (if name = ''governance''
                then res_bnd (as_runtime_error (parse (rd_iso rd) (expand_env_value (rd_environ rd) doc))) (\<lambda>s. Inr (Some s))
                else Inr (cf_governance c)) (\<lambda>governance.
       res_bnd (if name = ''llms'' then res_bnd (as_runtime_error (index_llms doc)) (\<lambda>_. Inr ()) else Inr ()) (\<lambda>_.
       Inr \<lparr>cf_payloads = (if name = ''governance'' then AList.delete key (cf_payloads c) else AList.update key doc (cf_payloads c)),
         cf_prompts = prompts, cf_governance = governance\<rparr>)))))"

fun read_files :: "reading \<Rightarrow> config_files \<Rightarrow> folder \<Rightarrow> exn + config_files" where
  "read_files rd c [] = Inr c"
| "read_files rd c (f # fs) = res_bnd (read_file rd c f) (\<lambda>c'. read_files rd c' fs)"

definition read_config_folder :: "reading \<Rightarrow> folder \<Rightarrow> exn + dict list \<times> config_files" where
  "read_config_folder rd fs =
     res_bnd (read_files rd \<lparr>cf_payloads = [], cf_prompts = None, cf_governance = None\<rparr> fs) (\<lambda>c.
     res_bnd (load_policy_rules rd fs) (\<lambda>rules. Inr (rules, c)))"

end
