(* ===== verification/Config_Publish.thy ===== *)
theory Config_Publish
  imports Config_Files Schema_Manifest
begin

text \<open>
  What the Global Controller publishes of its configuration: policies, config files, identity, the
  endpoint's record and the telemetry destinations (\<open>controller/global_controller.py\<close>, lines
  277-366 and 455-520, and \<open>endpoint/__init__.py\<close>), and \<open>reload_config\<close>.
\<close>

section \<open>Policies and config files\<close>

definition CONFIG_FILES_KEY :: string where "CONFIG_FILES_KEY = ''config:files''"

text \<open>The writes to one machine's Redis; \<open>SADD\<close> without members is refused.\<close>

definition publish_files :: "val \<Rightarrow> val \<Rightarrow> dict \<Rightarrow> redis \<Rightarrow> (exn + unit) \<times> redis" where
  "publish_files rules prices payloads r =
     (let r = rd_set POLICY_RULES_KEY (Doc rules) r;
          r = rd_set LLM_PRICES_KEY (Doc prices) r;
          r = rd_delete (filter (\<lambda>k. k \<notin> fst ` set payloads) (rd_smembers CONFIG_FILES_KEY r)) r;
          r = fold (\<lambda>(key, payload). rd_set key (Doc payload)) payloads r;
          r = rd_delete [CONFIG_FILES_KEY] r
      in if payloads = [] then (Inl (RuntimeError ''wrong number of arguments''), r)
         else (Inr (), rd_sadd CONFIG_FILES_KEY (map fst payloads) r))"

definition seed_governance :: "reading \<Rightarrow> dict \<Rightarrow> unit gstep" where
  "seed_governance rd from_yaml =
     bnd (on_world (ask LOCAL (rd_get CONFIG_KEY))) (\<lambda>stored.
     bnd (of_res (case (if opt_truthy stored then loads (the stored) else Some VNone) of
          None \<Rightarrow> Inr VNone
        | Some existing \<Rightarrow> (case parse (rd_iso rd) (val_or existing (VDict [])) of
              Inl (ValueError _) \<Rightarrow> Inr VNone | Inl e \<Rightarrow> Inl e | Inr _ \<Rightarrow> Inr existing))) (\<lambda>existing.
     bnd (read_st (\<lambda>g. seed existing from_yaml (w_now (g_world g)))) (\<lambda>merged.
     bnd (of_res merged) (\<lambda>doc. on_world (tell LOCAL (rd_set CONFIG_KEY (Doc doc)))))))"

text \<open>\<open>json.dumps\<close> of the rules comes first, so rules it cannot write leave every machine as it was.\<close>

definition publish_at :: "val \<Rightarrow> val \<Rightarrow> dict \<Rightarrow> string \<Rightarrow> unit gstep" where
  "publish_at rules prices payloads h = bnd (on_world (at_server h (publish_files rules prices payloads))) of_res"

text \<open>The prompts only where there are none, and the governance rules of agents that have none: the
  dashboard owns both.\<close>

definition seed_dashboard :: "reading \<Rightarrow> config_files \<Rightarrow> unit gstep" where
  "seed_dashboard rd files =
     bnd (case cf_prompts files of
            None \<Rightarrow> ret ()
          | Some live \<Rightarrow> on_world (tell LOCAL (\<lambda>r. snd (rd_set_opts ''prompts:config'' (Doc (VDict [(''prompts'', VDict live)])) True None r)))) (\<lambda>_.
     case cf_governance files of None \<Rightarrow> ret () | Some s \<Rightarrow> seed_governance rd s)"

definition write_policies :: "reading \<Rightarrow> dict list \<Rightarrow> config_files \<Rightarrow> unit gstep" where
  "write_policies rd rules files =
     bnd (read_st clients) (\<lambda>targets.
     bnd (of_res (dumps (VList (map VDict rules)))) (\<lambda>_.
     bnd (read_st g_fetched) (\<lambda>prices.
     bnd (for_each targets (publish_at (VList (map VDict rules)) prices (cf_payloads files))) (\<lambda>_.
     seed_dashboard rd files))))"

section \<open>Identity\<close>

definition IDENTITY_KEY :: string where "IDENTITY_KEY = ''controller:identity''"

definition write_identity :: "cenv \<Rightarrow> unit gstep" where
  "write_identity cenv =
     bnd (read_st project_id) (\<lambda>project.
     bnd (read_st clients) (\<lambda>targets.
     for_each targets (\<lambda>h. on_world (tell h (rd_hset_multiple IDENTITY_KEY
       [(''project_id'', Raw (py_str (c_env cenv) project)),
        (''project_name'', Raw (case c_environ cenv ''CANYONOS_PROJECT_NAME'' of None \<Rightarrow> [] | Some n \<Rightarrow> n))])))))"

section \<open>The endpoint's record\<close>

text \<open>\<open>urlsplit\<close>: the scheme, the host in lower case and the port of a URL. An address in brackets
  keeps its colons; what is inside them is not checked here.\<close>

definition url_scheme :: "string \<Rightarrow> string \<times> string" where
  "url_scheme url = (case split_first '':'' url of
       Some (scheme, rest) \<Rightarrow>
         if scheme \<noteq> [] \<and> \<not> is_digit (hd scheme) \<and> list_all (\<lambda>c. is_name_char c \<and> c \<noteq> CHR ''_'' \<or> c \<in> set ''+-.'') scheme \<and>
            hd scheme \<notin> set ''+-.'' then (lower scheme, rest) else ([], url)
     | None \<Rightarrow> ([], url))"

definition host_port :: "string \<Rightarrow> string \<times> string" where
  "host_port netloc = (let hostinfo = snd (rpartition CHR ''@'' netloc) in
     case split_first ''['' hostinfo of
       Some (_, bracketed) \<Rightarrow> (case split_first '']'' bracketed of
           None \<Rightarrow> (bracketed, [])
         | Some (h, rest) \<Rightarrow> (h, case split_first '':'' rest of None \<Rightarrow> [] | Some (_, p) \<Rightarrow> p))
     | None \<Rightarrow> (case split_first '':'' hostinfo of None \<Rightarrow> (hostinfo, []) | Some (h, p) \<Rightarrow> (h, p)))"

definition urlsplit :: "string \<Rightarrow> exn + string \<times> string option \<times> int option" where
  "urlsplit url = (case url_scheme url of (scheme, rest) \<Rightarrow>
     let netloc = (if prefix ''//'' rest then takeWhile (\<lambda>c. c \<notin> set ''/?#'') (drop 2 rest) else []) in
     case host_port netloc of (host, p) \<Rightarrow>
       res_bnd (if p = [] then Inr None
         else if list_all is_digit p then (case int_str p of
             None \<Rightarrow> Inl (ValueError p)
           | Some i \<Rightarrow> if i \<le> 65535 then Inr (Some i) else Inl (ValueError ''Port out of range 0-65535''))
         else Inl (ValueError p)) (\<lambda>port.
       Inr (scheme, if host = [] then None else Some (lower host), port)))"

record endpoint_doc =
  er_public_host :: "string option"
  er_api_port :: int
  er_agent :: string
  er_method :: string
  er_arguments :: "string list"
  er_base_url :: string

text \<open>The public host, port and base URL: \<open>CANYONOS_ENDPOINT_URL\<close>, or the published port here.\<close>

definition base_url :: "environ \<Rightarrow> int option \<Rightarrow> int \<Rightarrow> exn + string option \<times> int \<times> string" where
  "base_url env api_port published = (case env ''CANYONOS_ENDPOINT_URL'' of
       Some (c # cs) \<Rightarrow> res_bnd (urlsplit (c # cs)) (\<lambda>(scheme, host, port).
         Inr (host, (case port of Some p \<Rightarrow> if p \<noteq> 0 then p else if scheme = ''https'' then 443 else 80
             | None \<Rightarrow> if scheme = ''https'' then 443 else 80), rstrip_char CHR ''/'' (c # cs)))
     | _ \<Rightarrow>
         let host = (case env ''CANYONOS_PUBLIC_IP'' of Some (c # cs) \<Rightarrow> c # cs | _ \<Rightarrow> ''127.0.0.1'');
             port = (case api_port of Some p \<Rightarrow> if p \<noteq> 0 then p else published | None \<Rightarrow> published)
         in Inr (Some host, port, ''http://'' @ host @ '':'' @ str_int port))"

definition endpoint_record :: "environ \<Rightarrow> manifest \<Rightarrow> int \<Rightarrow> exn + endpoint_doc" where
  "endpoint_record env m published = (case mn_endpoint m of
       None \<Rightarrow> Inl (AttributeError ''agent'')
     | Some ep \<Rightarrow> (case List.find (\<lambda>a. Some (ad_name a) = ed_agent ep) (mn_agents m) of
           None \<Rightarrow> Inl (StopIteration [])
         | Some a \<Rightarrow> (case ad_kind a of
             DatabaseAgent _ _ _ \<Rightarrow> Inl (AttributeError ''functions'')
           | CodeAgent _ _ fs \<Rightarrow> (case List.find (\<lambda>f. Some (fn_name f) = ed_method ep) fs of
               None \<Rightarrow> Inl (StopIteration [])
             | Some f \<Rightarrow> res_bnd (base_url env (ed_api_port ep) published) (\<lambda>(host, port, base).
                 Inr \<lparr>er_public_host = host, er_api_port = port, er_agent = ad_name a, er_method = fn_name f,
                   er_arguments = map ar_name (fn_arguments f), er_base_url = base\<rparr>)))))"

text \<open>The hash of a record; Redis takes no \<open>None\<close>.\<close>

definition endpoint_hash :: "endpoint_doc \<Rightarrow> exn + hash" where
  "endpoint_hash e = (case er_public_host e of
       None \<Rightarrow> Inl (TypeError ''Invalid input of type: NoneType'')
     | Some host \<Rightarrow> Inr [(''public_host'', Raw host), (''api_port'', Doc (VInt (er_api_port e))), (''agent'', Raw (er_agent e)),
         (''method'', Raw (er_method e)), (''arguments'', Doc (VList (map VStr (er_arguments e)))),
         (''url'', Raw (er_base_url e @ ''/'' @ er_method e))])"

text \<open>The port of the published record, or the one the deploy starts from.\<close>

definition starting_port :: "environ \<Rightarrow> redis \<Rightarrow> exn + int" where
  "starting_port env r = (if rd_hgetall ADDRESS_KEY r \<noteq> [] then read_endpoint_port r
     else case env ''CANYONOS_LAST_API_PORT'' of
         Some (c # cs) \<Rightarrow> (case int_str (c # cs) of None \<Rightarrow> Inl (ValueError (c # cs)) | Some p \<Rightarrow> Inr p)
       | _ \<Rightarrow> Inr ENDPOINT_PORT)"

definition publish_endpoint :: "cenv \<Rightarrow> manifest \<Rightarrow> unit gstep" where
  "publish_endpoint cenv m =
     bnd (on_world (ask LOCAL (starting_port (c_environ cenv)))) (\<lambda>res.
     bnd (of_res res) (\<lambda>published.
     bnd (of_res (res_bnd (endpoint_record (c_environ cenv) m published) endpoint_hash)) (\<lambda>record.
     on_world (tell LOCAL (rd_hset_multiple ADDRESS_KEY record)))))"

definition apply_config :: "cenv \<Rightarrow> reading \<Rightarrow> dict list \<times> config_files \<Rightarrow> manifest \<Rightarrow> unit gstep" where
  "apply_config cenv rd files m = (case files of (rules, payloads) \<Rightarrow>
     bnd (read_st (\<lambda>g. w_specs (g_world g))) (\<lambda>specs.
     bnd (on_world (at_server LOCAL (write_config_specs specs))) (\<lambda>res.
     bnd (of_res res) (\<lambda>_.
     bnd apply_configured_replicas (\<lambda>_.
     bnd (write_policies rd rules payloads) (\<lambda>_.
     bnd (write_identity cenv) (\<lambda>_.
     publish_endpoint cenv m)))))))"

section \<open>Telemetry destinations\<close>

definition LOCAL_DASHBOARD_DESTINATION :: val where
  "LOCAL_DASHBOARD_DESTINATION = VDict [(''name'', VStr ''local''), (''protocol'', VStr ''http''),
     (''endpoint'', VStr ''http://host.docker.internal:3000''), (''headers'', VDict [])]"

definition DOCKER_HOST :: string where "DOCKER_HOST = ''host.docker.internal''"

text \<open>The destinations the schema accepts are mappings with a text for their endpoint.\<close>

definition on_docker_host :: "val \<Rightarrow> exn + bool" where
  "on_docker_host destination = (case destination of
       VDict d \<Rightarrow> Inr (case dget_or d ''endpoint'' (VStr []) of VStr s \<Rightarrow> contains DOCKER_HOST s | _ \<Rightarrow> False)
     | _ \<Rightarrow> Inl (AttributeError ''get''))"

definition otel_destinations :: "environ \<Rightarrow> dict \<Rightarrow> exn + val list option" where
  "otel_destinations env otel_cfg =
     (case expand_env_value env (val_or (dget otel_cfg ''destinations'') (VList [LOCAL_DASHBOARD_DESTINATION])) of
        VList ds \<Rightarrow>
          res_bnd (if env ''CANYONOS_TARGET'' = Some ''kubernetes''
                   then res_bnd (res_all (\<lambda>d. res_bnd (on_docker_host d) (\<lambda>b. Inr (if b then [] else [d]))) ds) (\<lambda>kept. Inr (concat kept))
                   else Inr ds) (\<lambda>ds.
          let ds = (case env ''CANYONOS_DASHBOARD_OTLP_ENDPOINT'' of
              Some (c # cs) \<Rightarrow> ds @ [VDict [(''name'', VStr ''canyonos-dashboard''), (''protocol'', VStr ''http''),
                (''endpoint'', VStr (c # cs)), (''headers'', VDict [])]]
            | _ \<Rightarrow> ds)
          in Inr (if ds = [] then None else Some ds))
      | _ \<Rightarrow> Inl (TypeError ''destinations''))"

definition OTEL_DESTINATIONS_KEY :: string where "OTEL_DESTINATIONS_KEY = ''otel:destinations''"

definition write_otel_destinations :: "val list \<Rightarrow> unit gstep" where
  "write_otel_destinations ds = (if jsonable (VList ds) then on_world (tell LOCAL (rd_set OTEL_DESTINATIONS_KEY (Doc (VList ds))))
     else raise (ValueError ''otel.destinations must contain JSON-serializable values''))"

section \<open>Reloading\<close>

definition forget_removed_agents :: "string list \<Rightarrow> unit gstep" where
  "forget_removed_agents removed =
     bnd (for_each removed (\<lambda>name. on_world (tell LOCAL (rd_delete [desired_key name])))) (\<lambda>_. ask_reconcile WAKE_ALL)"

text \<open>The config file and its folder as they are now: the parsed file, the project's \<open>.env\<close> and the folder.
  \<open>load_manifest\<close> loads the \<open>.env\<close> into the process environment before anything else reads it.\<close>

record project_files =
  pf_schema :: schema_env
  pf_document :: val
  pf_dotenv :: "string list option"
  pf_folder :: folder

definition otel_config :: "dict \<Rightarrow> exn + dict" where
  "otel_config config = (case dget_or config ''otel'' (VDict []) of VDict d \<Rightarrow> Inr d | _ \<Rightarrow> Inl (AttributeError ''get''))"

text \<open>\<open>reload_config\<close> after the schema has accepted the file. The polling interval is read from the
  config it comes from.\<close>

definition reload_accepted :: "cenv \<Rightarrow> reading \<Rightarrow> project_files \<Rightarrow> manifest \<Rightarrow> unit gstep" where
  "reload_accepted cenv rd pf m =
     bnd (of_res (read_config_folder rd (pf_folder pf))) (\<lambda>files.
     bnd (of_res (load_config (load_env_config (pf_dotenv pf) (c_environ cenv) (pf_document pf)))) (\<lambda>(config, specs).
     bnd (read_st (\<lambda>g. spec_names (w_specs (g_world g)))) (\<lambda>previous.
     bnd (on_world (modify_st (\<lambda>w. w\<lparr>w_config := config\<rparr>))) (\<lambda>_.
     bnd (on_world (set_agent_specs specs)) (\<lambda>_.
     bnd (apply_config cenv rd files m) (\<lambda>_.
     bnd (forget_removed_agents (filter (\<lambda>n. n \<notin> set (spec_names specs)) previous)) (\<lambda>_.
     bnd (of_res (res_bnd (otel_config config) (otel_destinations (c_environ cenv)))) (\<lambda>ds.
     bnd (read_st (\<lambda>g. is_registered ''otel_exporter'' (g_supervisor g))) (\<lambda>registered.
     case ds of None \<Rightarrow> ret () | Some ds' \<Rightarrow> if registered then write_otel_destinations ds' else ret ())))))))))"

definition reload_config :: "cenv \<Rightarrow> reading \<Rightarrow> project_files \<Rightarrow> gc \<Rightarrow> ((violation list + exn) + unit) \<times> gc" where
  "reload_config cenv rd pf g =
     (let env = load_dotenv (pf_dotenv pf) (c_environ cenv) in
      case load_manifest (pf_schema pf\<lparr>se_environ := env\<rparr>) (pf_document pf) of
        Inl violations \<Rightarrow> (Inl (Inl violations), g)
      | Inr m \<Rightarrow> (case reload_accepted (cenv\<lparr>c_environ := env\<rparr>) (rd\<lparr>rd_environ := env\<rparr>) pf m g of
            (Inl e, g') \<Rightarrow> (Inl (Inr e), g') | (Inr u, g') \<Rightarrow> (Inr u, g')))"

end
