(* ===== verification/Config_Facts.thy ===== *)
theory Config_Facts
  imports Config_Publish
begin

text \<open>
  What a published configuration means: which rule of \<open>policy.yaml\<close> decides a call on every machine,
  that the published files are those of the folder, and that the dashboard's prompts and rules stay.
\<close>

section \<open>The most specific rule\<close>

lemma find_filter: "List.find M xs = (case filter M xs of [] \<Rightarrow> None | x # _ \<Rightarrow> Some x)"
  by (induction xs) auto

lemma insort_key_map: "insort_key f (g x) (map g xs) = map g (insort_key (f \<circ> g) x xs)"
  by (induction xs) auto

lemma sort_key_map: "sort_key f (map g xs) = map g (sort_key (f \<circ> g) xs)"
  by (induction xs) (simp_all add: insort_key_map comp_def)

text \<open>The rule that decides: among those the context meets, one with the most keys to match on, and the
  first such in the file.\<close>

definition most_specific :: "policy_rule list \<Rightarrow> dict \<Rightarrow> policy_rule \<Rightarrow> bool" where
  "most_specific ps ctx p \<longleftrightarrow> (\<exists>pre post. ps = pre @ p # post \<and> matches ctx p \<and>
     (\<forall>q\<in>set ps. matches ctx q \<longrightarrow> length (match_on q) \<le> length (match_on p)) \<and>
     (\<forall>q\<in>set pre. matches ctx q \<longrightarrow> length (match_on q) < length (match_on p)))"

abbreviation specificity :: "policy_rule \<Rightarrow> int" where
  "specificity p \<equiv> - int (length (match_on p))"

lemma hd_filter_split: "filter Q xs = y # ys \<Longrightarrow> \<exists>pre post. xs = pre @ y # post \<and> Q y \<and> (\<forall>q\<in>set pre. \<not> Q q)"
  by (induction xs) (auto split: if_splits intro: exI[of _ "[]"], metis Cons_eq_appendI set_ConsD)

lemma find_sorted:
  assumes "List.find (matches ctx) (sort_key specificity ps) = Some p"
  shows "most_specific ps ctx p"
proof -
  let ?f = specificity
  obtain rest where srt: "sort_key ?f (filter (matches ctx) ps) = p # rest"
    using assms by (auto simp: find_filter filter_sort split: list.splits)
  have least: "?f p \<le> ?f q" if "q \<in> set ps" "matches ctx q" for q
  proof -
    have "q \<in> {x \<in> set ps. matches ctx x}" using that by simp
    also have "\<dots> = set (p # rest)" using arg_cong[OF srt, of set] by simp
    finally have "q \<in> set (p # rest)" .
    moreover have "sorted (map ?f (p # rest))" using srt by (metis sorted_sort_key)
    ultimately show ?thesis by auto
  qed
  have "filter (\<lambda>x. ?f x = ?f p) (sort_key ?f (filter (matches ctx) ps)) = filter (\<lambda>x. ?f x = ?f p) (filter (matches ctx) ps)"
    by (rule sort_key_stable)
  then have "filter (\<lambda>x. matches ctx x \<and> ?f x = ?f p) ps = p # filter (\<lambda>x. ?f x = ?f p) rest" by (simp add: srt conj_commute)
  from hd_filter_split[OF this] obtain pre post where split: "ps = pre @ p # post" "matches ctx p"
    "\<forall>q\<in>set pre. \<not> (matches ctx q \<and> ?f q = ?f p)" by auto
  moreover have "length (match_on q) < length (match_on p)" if "q \<in> set pre" "matches ctx q" for q
  proof -
    have "q \<in> set ps" using that(1) split(1) by simp
    from least[OF this that(2)] have "length (match_on q) \<le> length (match_on p)" by simp
    moreover have "?f q \<noteq> ?f p" using split(3) that by blast
    ultimately show ?thesis by simp
  qed
  moreover have "\<forall>q\<in>set ps. matches ctx q \<longrightarrow> length (match_on q) \<le> length (match_on p)" using least by fastforce
  ultimately show ?thesis unfolding most_specific_def by blast
qed

lemma most_specific_unique:
  assumes "most_specific ps ctx p" "most_specific ps ctx q"
  shows "p = q"
proof -
  obtain pre post where p: "ps = pre @ p # post" "matches ctx p"
    "\<forall>r\<in>set ps. matches ctx r \<longrightarrow> length (match_on r) \<le> length (match_on p)"
    "\<forall>r\<in>set pre. matches ctx r \<longrightarrow> length (match_on r) < length (match_on p)"
    using assms(1) unfolding most_specific_def by blast
  obtain pre' post' where q: "ps = pre' @ q # post'" "matches ctx q"
    "\<forall>r\<in>set ps. matches ctx r \<longrightarrow> length (match_on r) \<le> length (match_on q)"
    "\<forall>r\<in>set pre'. matches ctx r \<longrightarrow> length (match_on r) < length (match_on q)"
    using assms(2) unfolding most_specific_def by blast
  have "length (match_on p) = length (match_on q)" using p(1-3) q(1-3) by (intro antisym) (metis in_set_conv_decomp)+
  then have "p \<notin> set pre'" "q \<notin> set pre" using p(2,4) q(2,4) by auto
  moreover have "pre @ p # post = pre' @ q # post'" using p(1) q(1) by simp
  ultimately show ?thesis by (auto simp: append_eq_append_conv2 Cons_eq_append_conv append_eq_Cons_conv)
qed

lemma first_match_find:
  "first_match (map rule_doc qs) agent (VDict ctx) =
     Inr (case List.find (matches ctx) qs of None \<Rightarrow> False | Some p \<Rightarrow> gives p agent)"
  by (induction qs) (simp_all only: list.map first_match.simps(1) first_match_doc, auto)

lemma sorted_rules_decide:
  "first_match (map rule_doc (sort_key specificity ps)) agent (VDict ctx) =
     Inr (\<exists>p. most_specific ps ctx p \<and> gives p agent)"
proof (cases "List.find (matches ctx) (sort_key specificity ps)")
  case None
  then have "\<not> matches ctx p" if "p \<in> set ps" for p using that by (simp add: find_None_iff)
  then have "\<nexists>p. most_specific ps ctx p" unfolding most_specific_def by auto
  then show ?thesis by (simp add: first_match_find None)
next
  case (Some p)
  from find_sorted[OF this] have "(\<exists>q. most_specific ps ctx q \<and> gives q agent) = gives p agent"
    using most_specific_unique by blast
  then show ?thesis by (simp add: first_match_find Some)
qed

definition rule_dict :: "policy_rule \<Rightarrow> dict" where
  "rule_dict p = [(''match'', VDict (match_on p)),
     (''access'', case access p of None \<Rightarrow> VStr ''all'' | Some ns \<Rightarrow> VList (map VStr ns))]"

lemma rule_doc_dict: "rule_doc p = VDict (rule_dict p)"
  by (simp add: rule_doc_def rule_dict_def)

lemma mappings_rules: "mappings (VList (map rule_doc ps)) = Some (map rule_dict ps)"
  by (induction ps) (auto simp: mappings_def rule_doc_dict)

lemma by_specificity_rules: "by_specificity (map rule_dict ps) = Inr (map rule_dict (sort_key specificity ps))"
proof -
  have keyed: "res_all (\<lambda>r. res_bnd (py_len (dget_or r ''match'' (VDict []))) (\<lambda>n. Inr (n, r))) (map rule_dict ps) =
      Inr (map (\<lambda>p. (length (match_on p), rule_dict p)) ps)"
    by (induction ps) (simp_all add: rule_dict_def dget_or_def py_len_def)
  have f: "(\<lambda>(n, r). - int n) \<circ> (\<lambda>p. (length (match_on p), rule_dict p)) = specificity" by (simp add: fun_eq_iff)
  show ?thesis unfolding by_specificity_def keyed res_bnd_simps sort_key_map f by (simp add: comp_def)
qed

lemma policy_file_rules:
  assumes "map_of fs ''policy.yaml'' = Some (Yaml (VDict [(''rules'', VList (map rule_doc ps))]))"
  shows "load_policy_rules rd fs = Inr (map rule_dict (sort_key specificity ps))"
proof -
  have "mappings (dget_or [(''rules'', VList (map rule_doc ps))] ''rules'' (VList [])) = Some (map rule_dict ps)"
    by (simp add: dget_or_def mappings_rules)
  then show ?thesis by (simp add: load_policy_rules_def assms by_specificity_rules)
qed

section \<open>The published keys\<close>

definition file_written :: "string \<Rightarrow> bool" where
  "file_written k \<longleftrightarrow> k = ''prompts:yaml'' \<or> (\<exists>n. k = n @ '':config'' \<and> n \<noteq> ''prompts'' \<and> n \<noteq> ''governance'')"

definition OWNED_KEYS :: "string list" where
  "OWNED_KEYS = [POLICY_RULES_KEY, LLM_PRICES_KEY, CONFIG_FILES_KEY, ''prompts:config'', CONFIG_KEY]"

lemma not_config_suffix: "drop (length k - 7) k \<noteq> '':config'' \<Longrightarrow> k \<noteq> n @ '':config''"
  by auto

lemma owned_not_written: "k \<in> set OWNED_KEYS \<Longrightarrow> \<not> file_written k"
proof -
  have p: "n @ '':config'' = ''prompts:config'' \<Longrightarrow> n = ''prompts''" and g: "n @ '':config'' = ''governance:config'' \<Longrightarrow> n = ''governance''" for n
    using append_same_eq[of n "'':config''" "''prompts''"] append_same_eq[of n "'':config''" "''governance''"] by simp_all
  have o: "n @ '':config'' \<noteq> ''policy:rules'' \<and> n @ '':config'' \<noteq> ''llm_prices:models'' \<and> n @ '':config'' \<noteq> ''config:files''" for n
    using not_config_suffix[of "''policy:rules''" n] not_config_suffix[of "''llm_prices:models''" n] not_config_suffix[of "''config:files''" n]
    by auto
  show "k \<in> set OWNED_KEYS \<Longrightarrow> \<not> file_written k"
    using p g o by (auto simp: OWNED_KEYS_def file_written_def POLICY_RULES_KEY_def LLM_PRICES_KEY_def CONFIG_FILES_KEY_def CONFIG_KEY_def)
qed

text \<open>What \<open>_read_config_folder\<close> hands to be published: distinct keys of files.\<close>

definition wf_payloads :: "dict \<Rightarrow> bool" where
  "wf_payloads d \<longleftrightarrow> distinct (map fst d) \<and> (\<forall>k\<in>fst ` set d. file_written k)"

lemma wf_payloads_delete: "wf_payloads d \<Longrightarrow> wf_payloads (AList.delete k d)"
  unfolding wf_payloads_def by (meson distinct_delete dom_delete_subset subsetD)

lemma wf_payloads_update: "wf_payloads d \<Longrightarrow> file_written k \<Longrightarrow> wf_payloads (AList.update k v d)"
  unfolding wf_payloads_def dom_update by (simp add: distinct_update)

lemma read_file_payloads:
  assumes "read_file rd c f = Inr c'" "wf_payloads (cf_payloads c)"
  shows "wf_payloads (cf_payloads c')"
proof -
  obtain filename content where f: "f = (filename, content)" by (cases f)
  let ?name = "fst (splitext filename)"
  have w: "?name \<noteq> ''governance'' \<Longrightarrow> file_written (file_key ?name)" by (auto simp: file_key_def file_written_def)
  consider "cf_payloads c' = cf_payloads c" | "cf_payloads c' = AList.delete (file_key ?name) (cf_payloads c)"
    | doc where "?name \<noteq> ''governance''" "cf_payloads c' = AList.update (file_key ?name) doc (cf_payloads c)"
    using assms(1) unfolding f by (auto simp: read_file_def Let_def elim!: res_bnd_InrE split: if_splits)
  then show ?thesis
  proof cases
    case 2
    show ?thesis unfolding 2 by (rule wf_payloads_delete) (rule assms(2))
  next
    case 3
    show ?thesis unfolding 3(2) by (rule wf_payloads_update) (rule assms(2), rule w, rule 3(1))
  qed (use assms(2) in simp)
qed

lemma read_files_payloads:
  "read_files rd c fs = Inr c' \<Longrightarrow> wf_payloads (cf_payloads c) \<Longrightarrow> wf_payloads (cf_payloads c')"
  by (induction fs arbitrary: c) (auto elim!: res_bnd_InrE dest: read_file_payloads)

lemma folder_payloads: "read_config_folder rd fs = Inr (rules, files) \<Longrightarrow> wf_payloads (cf_payloads files)"
  using read_files_payloads[of rd "\<lparr>cf_payloads = [], cf_prompts = None, cf_governance = None\<rparr>" fs files]
  by (auto simp: read_config_folder_def wf_payloads_def elim!: res_bnd_InrE)

section \<open>One machine\<close>

definition file_keys_only :: "redis \<Rightarrow> bool" where
  "file_keys_only r \<longleftrightarrow> (\<forall>k\<in>set (rd_smembers CONFIG_FILES_KEY r). file_written k)"

lemma get_fold_set: "distinct (map fst d) \<Longrightarrow> rd_get k (fold (\<lambda>(key, payload). rd_set key (Doc payload)) d r) =
    (case map_of d k of None \<Rightarrow> rd_get k r | Some v \<Rightarrow> Some (Doc v))"
proof (induction d arbitrary: r)
  case (Cons e d)
  obtain key v where e: "e = (key, v)" by (cases e)
  have "map_of d key = None" using Cons.prems e by (simp add: map_of_eq_None_iff)
  with Cons.IH[of "rd_set key (Doc v) r"] Cons.prems e show ?case by (auto split: option.split)
qed simp

lemma sets_fold_set: "rd_sets (fold (\<lambda>(key, payload). rd_set key (Doc payload)) d r) = rd_sets r"
  by (induction d arbitrary: r) (auto simp: rd_set_def rd_set_opts_def)

lemma sets_delete: "rd_sets (rd_delete ks r) k = (if k \<in> set ks then [] else rd_sets r k)"
  by (induction ks arbitrary: r) (auto simp: rd_delete1_def)

lemma sets_set [simp]: "rd_sets (rd_set k v r) = rd_sets r"
  by (simp add: rd_set_def rd_set_opts_def)

lemma get_sadd [simp]: "rd_get k (rd_sadd s vs r) = rd_get k r"
  by (simp add: rd_get_def rd_sadd_def)

lemma publish_files_get:
  assumes "wf_payloads d"
  shows "rd_get k (snd (publish_files rules prices d r)) = (case map_of d k of
      Some v \<Rightarrow> Some (Doc v)
    | None \<Rightarrow> if k = CONFIG_FILES_KEY \<or> k \<in> set (rd_smembers CONFIG_FILES_KEY r) then None
        else if k = LLM_PRICES_KEY then Some (Doc prices) else if k = POLICY_RULES_KEY then Some (Doc rules) else rd_get k r)"
proof -
  have c: "map_of d CONFIG_FILES_KEY = None"
    using assms owned_not_written[of CONFIG_FILES_KEY] by (auto simp: wf_payloads_def map_of_eq_None_iff OWNED_KEYS_def)
  have i: "map_of d k = None \<longleftrightarrow> k \<notin> fst ` set d" by (simp add: map_of_eq_None_iff)
  let ?r1 = "rd_set LLM_PRICES_KEY (Doc prices) (rd_set POLICY_RULES_KEY (Doc rules) r)"
  let ?stale = "filter (\<lambda>k. k \<notin> fst ` set d) (rd_smembers CONFIG_FILES_KEY r)"
  have "rd_get k (snd (publish_files rules prices d r)) =
      (if k = CONFIG_FILES_KEY then None else case map_of d k of Some v \<Rightarrow> Some (Doc v) | None \<Rightarrow> rd_get k (rd_delete ?stale ?r1))"
    using assms by (cases "d = []") (simp_all add: publish_files_def Let_def get_fold_set wf_payloads_def rd_smembers_def cong: option.case_cong)
  moreover have "rd_get k (rd_delete ?stale ?r1) = (if k \<in> set ?stale then None
      else if k = LLM_PRICES_KEY then Some (Doc prices) else if k = POLICY_RULES_KEY then Some (Doc rules) else rd_get k r)"
    by (simp add: get_delete)
  ultimately show ?thesis using c i by (cases "map_of d k"; cases "k = CONFIG_FILES_KEY") (simp_all split: if_splits)
qed

lemma publish_files_members:
  "fst (publish_files rules prices d r) = Inr () \<Longrightarrow>
   set (rd_smembers CONFIG_FILES_KEY (snd (publish_files rules prices d r))) = fst ` set d"
  by (auto simp: publish_files_def Let_def rd_smembers_def rd_sadd_def rd_delete1_def split: if_splits)

lemma publish_files_keys_only:
  assumes "wf_payloads d" "file_keys_only r"
  shows "file_keys_only (snd (publish_files rules prices d r))"
  using assms by (auto simp: publish_files_def Let_def rd_smembers_def rd_sadd_def rd_delete1_def file_keys_only_def wf_payloads_def)

end
