(* ===== verification/Config_Meaning.thy ===== *)
theory Config_Meaning
  imports Config_Facts
begin

text \<open>
  What a publication of the configuration does on every machine: the policy of the folder decides
  there, its files are the ones published, and what the dashboard owns stays.
\<close>

section \<open>A publication\<close>

definition server_at :: "gc \<Rightarrow> string \<Rightarrow> redis" where
  "server_at g h = w_servers (g_world g) h"

lemma publish_at_run:
  "publish_at rules prices d h g = (if w_down (g_world g) h then (Inl (RedisError h), g)
     else (fst (publish_files rules prices d (server_at g h)),
       g\<lparr>g_world := (g_world g)\<lparr>w_servers := (w_servers (g_world g))(h := snd (publish_files rules prices d (server_at g h)))\<rparr>\<rparr>))"
  by (simp add: publish_at_def bnd_run on_world_run at_server_run of_res_run server_at_def)

lemma publish_each:
  assumes "for_each hs (publish_at rules prices d) g = (Inr (), g')" "distinct hs"
  shows "server_at g' h = (if h \<in> set hs then snd (publish_files rules prices d (server_at g h)) else server_at g h) \<and>
    (h \<in> set hs \<longrightarrow> fst (publish_files rules prices d (server_at g h)) = Inr ())"
  using assms
proof (induction hs arbitrary: g)
  case Nil
  then show ?case by (simp add: ret_def)
next
  case (Cons x hs)
  from Cons.prems(1) obtain g1 where g1: "publish_at rules prices d x g = (Inr (), g1)" "for_each hs (publish_at rules prices d) g1 = (Inr (), g')"
    by (auto elim!: bnd_InrE)
  have s: "fst (publish_files rules prices d (server_at g x)) = Inr ()"
    "server_at g1 h = (if h = x then snd (publish_files rules prices d (server_at g x)) else server_at g h)"
    using g1(1) by (auto simp: publish_at_run server_at_def split: if_splits)
  have "x \<notin> set hs" "distinct hs" using Cons.prems(2) by auto
  then show ?case using Cons.IH[OF g1(2)] s by auto
qed

text \<open>What is left after the machines are written touches only the two keys the dashboard owns.\<close>

definition same_but_owned :: "gc \<Rightarrow> gc \<Rightarrow> bool" where
  "same_but_owned g0 g \<longleftrightarrow> (\<forall>h. (\<forall>k. k \<notin> {''prompts:config'', CONFIG_KEY} \<longrightarrow> rd_get k (server_at g h) = rd_get k (server_at g0 h)) \<and>
     rd_smembers CONFIG_FILES_KEY (server_at g h) = rd_smembers CONFIG_FILES_KEY (server_at g0 h))"

lemma same_but_owned_tell:
  assumes "\<And>r. \<forall>k. k \<notin> {''prompts:config'', CONFIG_KEY} \<longrightarrow> rd_get k (f r) = rd_get k r" "\<And>r. rd_sets (f r) = rd_sets r"
  shows "keeps (same_but_owned g0) (on_world (tell h f))"
  using assms by (intro keeps_on_world) (auto simp: tell_run same_but_owned_def server_at_def rd_smembers_def)

lemma seed_governance_owned: "keeps (same_but_owned g0) (seed_governance rd s)"
  unfolding seed_governance_def by (intro pres_intros same_but_owned_tell) simp_all

lemma seed_prompts_owned:
  "keeps (same_but_owned g0) (on_world (tell LOCAL (\<lambda>r. snd (rd_set_opts ''prompts:config'' t True None r))))"
  by (rule same_but_owned_tell) (auto simp: rd_set_opts_def rd_get_def)

lemma seed_dashboard_owned: "keeps (same_but_owned g0) (seed_dashboard rd files)"
  unfolding seed_dashboard_def by (intro pres_intros seed_prompts_owned seed_governance_owned)

lemma write_policies_done:
  assumes "write_policies rd rules files g = (Inr (), g')"
  shows "jsonable (VList (map VDict rules)) \<and>
    (\<exists>g1. for_each (clients g) (publish_at (VList (map VDict rules)) (g_fetched g) (cf_payloads files)) g = (Inr (), g1) \<and> same_but_owned g1 g')"
proof -
  obtain g1 where g1: "for_each (clients g) (publish_at (VList (map VDict rules)) (g_fetched g) (cf_payloads files)) g = (Inr (), g1)"
    and j: "jsonable (VList (map VDict rules))"
    and rest: "seed_dashboard rd files g1 = (Inr (), g')"
    using assms by (auto simp: write_policies_def read_st_def of_res_def dumps_def elim!: bnd_InrE split: if_splits)
  have "same_but_owned g1 g1" by (simp add: same_but_owned_def)
  from keepsD[OF seed_dashboard_owned this, of rd files] have "same_but_owned g1 g'" by (simp add: rest)
  with g1 j show ?thesis by blast
qed

lemma published_at:
  assumes "write_policies rd rules files g = (Inr (), g')" "distinct (clients g)" "h \<in> set (clients g)" "k \<notin> {''prompts:config'', CONFIG_KEY}"
  shows "rd_get k (server_at g' h) = rd_get k (snd (publish_files (VList (map VDict rules)) (g_fetched g) (cf_payloads files) (server_at g h)))"
    and "set (rd_smembers CONFIG_FILES_KEY (server_at g' h)) = fst ` set (cf_payloads files)"
proof -
  obtain g1 where g1: "for_each (clients g) (publish_at (VList (map VDict rules)) (g_fetched g) (cf_payloads files)) g = (Inr (), g1)"
    "same_but_owned g1 g'" using write_policies_done[OF assms(1)] by blast
  note p = publish_each[OF g1(1) assms(2), of h]
  show "rd_get k (server_at g' h) = rd_get k (snd (publish_files (VList (map VDict rules)) (g_fetched g) (cf_payloads files) (server_at g h)))"
    using g1(2) p assms(3,4) by (simp add: same_but_owned_def)
  show "set (rd_smembers CONFIG_FILES_KEY (server_at g' h)) = fst ` set (cf_payloads files)"
    using g1(2) p assms(3) publish_files_members[of "VList (map VDict rules)" "g_fetched g" "cf_payloads files" "server_at g h"]
    by (simp add: same_but_owned_def)
qed

section \<open>The policy on every machine\<close>

lemma published_policy:
  assumes "read_config_folder rd fs = Inr (rules, files)" "write_policies rd rules files g = (Inr (), g')" "distinct (clients g)"
    "h \<in> set (clients g)" "file_keys_only (server_at g h)"
  shows "rd_get POLICY_RULES_KEY (server_at g' h) = Some (Doc (VList (map VDict rules)))"
proof -
  have w: "wf_payloads (cf_payloads files)" using assms(1) by (rule folder_payloads)
  have o: "\<not> file_written POLICY_RULES_KEY" by (rule owned_not_written) (simp add: OWNED_KEYS_def)
  have ne: "POLICY_RULES_KEY \<notin> {''prompts:config'', CONFIG_KEY}" "POLICY_RULES_KEY \<noteq> LLM_PRICES_KEY" "POLICY_RULES_KEY \<noteq> CONFIG_FILES_KEY"
    by (simp_all add: POLICY_RULES_KEY_def CONFIG_KEY_def LLM_PRICES_KEY_def CONFIG_FILES_KEY_def)
  have "map_of (cf_payloads files) POLICY_RULES_KEY = None" using w o by (auto simp: wf_payloads_def map_of_eq_None_iff)
  moreover have "POLICY_RULES_KEY \<notin> set (rd_smembers CONFIG_FILES_KEY (server_at g h))" using assms(5) o by (auto simp: file_keys_only_def)
  ultimately show ?thesis
    using ne by (simp add: published_at(1)[OF assms(2-4) ne(1)] publish_files_get[OF w])
qed

lemma policy_of_file:
  assumes "load_policy_rules rd fs = Inr (map rule_dict (sort_key specificity ps))"
  shows "policy_allows (VList (map VDict (map rule_dict (sort_key specificity ps)))) agent (VDict ctx) =
    Inr (agent = ENDPOINT_AGENT_NAME \<or> ps = [] \<or> (\<exists>p. most_specific ps ctx p \<and> gives p agent))"
proof -
  have m: "map VDict (map rule_dict (sort_key specificity ps)) = map rule_doc (sort_key specificity ps)" by (simp add: rule_doc_dict)
  have "sort_key specificity ps = [] \<longleftrightarrow> ps = []" by (metis length_0_conv length_sort)
  then show ?thesis unfolding m using sorted_rules_decide[of ps agent ctx] by (simp add: policy_allows_def)
qed


section \<open>The files on every machine\<close>

text \<open>C29: after a publication every machine holds the documents of the folder and no others a
  publication put there: each file's document under its key, nothing under the key of a file that is
  gone, and the list of published keys is that of the folder's files.\<close>

theorem published_files_are_the_folders:
  assumes "read_config_folder rd fs = Inr (rules, files)" "write_policies rd rules files g = (Inr (), g')" "distinct (clients g)"
    "h \<in> set (clients g)" "file_keys_only (server_at g h)"
  shows "set (rd_smembers CONFIG_FILES_KEY (server_at g' h)) = fst ` set (cf_payloads files) \<and> file_keys_only (server_at g' h) \<and>
    (\<forall>k. file_written k \<longrightarrow> rd_get k (server_at g' h) = (case map_of (cf_payloads files) k of Some v \<Rightarrow> Some (Doc v)
       | None \<Rightarrow> if k \<in> set (rd_smembers CONFIG_FILES_KEY (server_at g h)) then None else rd_get k (server_at g h)))"
proof (intro conjI allI impI)
  have w: "wf_payloads (cf_payloads files)" using assms(1) by (rule folder_payloads)
  have members: "set (rd_smembers CONFIG_FILES_KEY (server_at g' h)) = fst ` set (cf_payloads files)"
    by (rule published_at(2)[OF assms(2-4), of CONFIG_FILES_KEY]) (simp add: CONFIG_FILES_KEY_def CONFIG_KEY_def)
  then show "set (rd_smembers CONFIG_FILES_KEY (server_at g' h)) = fst ` set (cf_payloads files)" .
  from members w show "file_keys_only (server_at g' h)" by (simp add: file_keys_only_def wf_payloads_def)
  fix k assume k: "file_written k"
  then have o: "k \<notin> set OWNED_KEYS" using owned_not_written by blast
  then show "rd_get k (server_at g' h) = (case map_of (cf_payloads files) k of Some v \<Rightarrow> Some (Doc v)
       | None \<Rightarrow> if k \<in> set (rd_smembers CONFIG_FILES_KEY (server_at g h)) then None else rd_get k (server_at g h))"
    by (subst published_at(1)[OF assms(2-4)]) (auto simp: publish_files_get[OF w] OWNED_KEYS_def split: option.split)
qed

section \<open>What the dashboard owns\<close>

lemma seed_agents_keeps: "seed_agents now held xs = Inr merged \<Longrightarrow> map_of held a = Some v \<Longrightarrow> map_of merged a = Some v"
  by (induction now held xs rule: seed_agents.induct) (auto elim!: res_bnd_InrE split: if_splits simp: map_add_Some_iff)

text \<open>The rules the store has for agents: \<open>as\<close> are among them.\<close>

definition governs :: "redis \<Rightarrow> dict \<Rightarrow> bool" where
  "governs r as \<longleftrightarrow> (\<exists>d as'. rd_get CONFIG_KEY r = Some (Doc (VDict d)) \<and> dget d ''agents'' = VDict as' \<and>
     (\<forall>a v. map_of as a = Some v \<longrightarrow> map_of as' a = Some v))"

lemma seed_keeps:
  assumes "seed (VDict d) from_yaml now = Inr doc" "dget d ''agents'' = VDict as"
  shows "\<exists>as'. doc = VDict [(''agents'', VDict as')] \<and> (\<forall>a v. map_of as a = Some v \<longrightarrow> map_of as' a = Some v)"
proof -
  have "d \<noteq> []" using assms(2) by (auto simp: dget_def)
  then have "entries (VDict d) = Inr d" by (simp add: entries_def)
  moreover have "entries (VDict as) = Inr as" by (simp add: entries_def)
  ultimately show ?thesis using assms by (auto simp: seed_def elim!: res_bnd_InrE dest: seed_agents_keeps)
qed

lemma owned_survives_publish:
  assumes "k \<in> {''prompts:config'', CONFIG_KEY}" "wf_payloads d" "file_keys_only r"
  shows "rd_get k (snd (publish_files rules prices d r)) = rd_get k r"
proof -
  have o: "\<not> file_written k" by (rule owned_not_written) (use assms(1) in \<open>auto simp: OWNED_KEYS_def\<close>)
  moreover have "k \<noteq> CONFIG_FILES_KEY \<and> k \<noteq> LLM_PRICES_KEY \<and> k \<noteq> POLICY_RULES_KEY"
    using assms(1) by (auto simp: CONFIG_FILES_KEY_def LLM_PRICES_KEY_def POLICY_RULES_KEY_def CONFIG_KEY_def)
  moreover have "map_of d k = None" using assms(2) o by (auto simp: wf_payloads_def map_of_eq_None_iff)
  moreover have "k \<notin> set (rd_smembers CONFIG_FILES_KEY r)" using assms(3) o by (auto simp: file_keys_only_def)
  ultimately show ?thesis by (simp add: publish_files_get[OF assms(2)])
qed

text \<open>A stored document the controllers can read.\<close>

definition readable_rules :: "iso_reader \<Rightarrow> redis \<Rightarrow> bool" where
  "readable_rules fromiso r \<longleftrightarrow> (\<exists>d e. rd_get CONFIG_KEY r = Some (Doc (VDict d)) \<and> parse fromiso (VDict d) = Inr e)"

lemma publish_keeps_owned:
  assumes "k \<in> {''prompts:config'', CONFIG_KEY}" "wf_payloads d"
  shows "keeps (\<lambda>g. rd_get k (server_at g LOCAL) = x \<and> file_keys_only (server_at g LOCAL)) (publish_at rules prices d h)"
  by (rule keepsI) (use owned_survives_publish[OF assms] publish_files_keys_only[OF assms(2)] in \<open>auto simp: publish_at_run server_at_def\<close>)

lemma governs_cong: "rd_get CONFIG_KEY r = rd_get CONFIG_KEY r' \<Longrightarrow> governs r as = governs r' as \<and> readable_rules f r = readable_rules f r'"
  by (simp add: governs_def readable_rules_def)

lemma seed_governance_governs:
  assumes "governs (server_at g LOCAL) as" "readable_rules (rd_iso rd) (server_at g LOCAL)"
  shows "governs (server_at (snd (seed_governance rd s g)) LOCAL) as"
proof -
  obtain d as' e where d: "rd_get CONFIG_KEY (server_at g LOCAL) = Some (Doc (VDict d))" "dget d ''agents'' = VDict as'"
    "\<forall>a v. map_of as a = Some v \<longrightarrow> map_of as' a = Some v" "parse (rd_iso rd) (VDict d) = Inr e"
    using assms unfolding governs_def readable_rules_def by auto
  have "d \<noteq> []" using d(2) by (auto simp: dget_def)
  then have v: "val_or (VDict d) (VDict []) = VDict d" by (simp add: val_or_def)
  let ?m = "seed (VDict d) s (w_now (g_world g))"
  have run: "seed_governance rd s g = (if w_down (g_world g) LOCAL then (Inl (RedisError LOCAL), g)
      else case ?m of Inl e \<Rightarrow> (Inl e, g) | Inr doc \<Rightarrow> on_world (tell LOCAL (rd_set CONFIG_KEY (Doc doc))) g)"
    using d(1,4) v by (simp add: seed_governance_def bnd_run on_world_ask_run of_res_run read_run opt_truthy_def text_truthy_def server_at_def
        split: sum.split)
  show ?thesis
  proof (cases ?m)
    case (Inr doc)
    from seed_keeps[OF this d(2)] d(3) obtain as'' where "doc = VDict [(''agents'', VDict as'')]" "\<forall>a v. map_of as a = Some v \<longrightarrow> map_of as'' a = Some v"
      by blast
    then show ?thesis using assms(1) Inr by (auto simp: run on_world_run tell_run server_at_def governs_def dget_def)
  qed (use assms(1) run in simp)
qed

lemma seed_dashboard_keeps:
  assumes "rd_get ''prompts:config'' (server_at g LOCAL) = Some t"
  shows "rd_get ''prompts:config'' (server_at (snd (seed_dashboard rd files g)) LOCAL) = Some t"
proof -
  let ?P = "\<lambda>g. rd_get ''prompts:config'' (server_at g LOCAL) = Some t"
  have "keeps ?P (on_world (tell LOCAL (\<lambda>r. snd (rd_set_opts ''prompts:config'' x True None r))))" for x
    by (rule keeps_on_world) (auto simp: tell_run server_at_def rd_set_opts_def rd_exists_def rd_get_def)
  moreover have "keeps ?P (seed_governance rd s)" for s
    unfolding seed_governance_def
    by (intro pres_intros keeps_on_world) (auto simp: tell_run server_at_def CONFIG_KEY_def)
  ultimately have "keeps ?P (seed_dashboard rd files)" unfolding seed_dashboard_def by (intro pres_intros)
  then show ?thesis using assms by (rule keepsD)
qed

lemma seed_dashboard_governs:
  assumes "governs (server_at g LOCAL) as" "readable_rules (rd_iso rd) (server_at g LOCAL)"
  shows "governs (server_at (snd (seed_dashboard rd files g)) LOCAL) as"
proof -
  let ?G = "\<lambda>g. governs (server_at g LOCAL) as \<and> readable_rules (rd_iso rd) (server_at g LOCAL)"
  let ?m = "case cf_prompts files of None \<Rightarrow> ret ()
     | Some live \<Rightarrow> on_world (tell LOCAL (\<lambda>r. snd (rd_set_opts ''prompts:config'' (Doc (VDict [(''prompts'', VDict live)])) True None r)))"
  have other: "rd_get CONFIG_KEY (snd (rd_set_opts ''prompts:config'' x True None r)) = rd_get CONFIG_KEY r" for x r
    by (auto simp: rd_set_opts_def rd_get_def CONFIG_KEY_def)
  have "keeps ?G (on_world (tell LOCAL (\<lambda>r. snd (rd_set_opts ''prompts:config'' x True None r))))" for x
    by (rule keeps_on_world) (use governs_cong[OF other] in \<open>auto simp: tell_run server_at_def\<close>)
  then have "keeps ?G ?m" by (intro pres_intros)
  then have g1: "?G (snd (?m g))" using assms by (auto dest: keepsD)
  obtain r g1 where m: "?m g = (r, g1)" by (cases "?m g")
  show ?thesis
  proof (cases r)
    case (Inl e)
    then show ?thesis using g1 m by (simp add: seed_dashboard_def bnd_run)
  next
    case (Inr u)
    then have "seed_dashboard rd files g = (case cf_governance files of None \<Rightarrow> ret () | Some s \<Rightarrow> seed_governance rd s) g1"
      using m by (simp add: seed_dashboard_def bnd_run)
    then show ?thesis using g1 m seed_governance_governs[of g1 as rd] by (auto simp: ret_def split: option.split)
  qed
qed

text \<open>C30: publishing never undoes what the dashboard published: whether it ends or fails, the stored
  prompts are the same text and every agent with governance rules in the store has the same rules.\<close>

theorem dashboard_edits_stay:
  assumes "read_config_folder rd fs = Inr (rules, files)" "write_policies rd rules files g = (res, g')" "file_keys_only (server_at g LOCAL)"
  shows "(rd_get ''prompts:config'' (server_at g LOCAL) = Some t \<longrightarrow> rd_get ''prompts:config'' (server_at g' LOCAL) = Some t) \<and>
    (governs (server_at g LOCAL) as \<and> readable_rules (rd_iso rd) (server_at g LOCAL) \<longrightarrow> governs (server_at g' LOCAL) as)"
proof -
  have w: "wf_payloads (cf_payloads files)" using assms(1) by (rule folder_payloads)
  let ?pub = "for_each (clients g) (publish_at (VList (map VDict rules)) (g_fetched g) (cf_payloads files))"
  have stays: "rd_get k (server_at (snd (?pub g)) LOCAL) = rd_get k (server_at g LOCAL)" if "k \<in> {''prompts:config'', CONFIG_KEY}" for k
  proof -
    have "keeps (\<lambda>s. rd_get k (server_at s LOCAL) = rd_get k (server_at g LOCAL) \<and> file_keys_only (server_at s LOCAL)) ?pub"
      by (intro keeps_for_each publish_keeps_owned[OF that w])
    from keepsD[OF this, of g] assms(3) show ?thesis by simp
  qed
  have p: "rd_get ''prompts:config'' (server_at (snd (?pub g)) LOCAL) = rd_get ''prompts:config'' (server_at g LOCAL)"
    and c: "rd_get CONFIG_KEY (server_at (snd (?pub g)) LOCAL) = rd_get CONFIG_KEY (server_at g LOCAL)"
    by (rule stays, simp)+
  note gc = governs_cong[OF c, of as "rd_iso rd"]
  consider "g' = g" | "g' = snd (?pub g)" | "g' = snd (seed_dashboard rd files (snd (?pub g)))"
    using assms(2) by (auto simp: write_policies_def bnd_run read_run of_res_run split: sum.splits prod.splits)
  then show ?thesis
    by cases (use p gc seed_dashboard_keeps seed_dashboard_governs in auto)
qed

section \<open>A folder\<close>

text \<open>Two rules of which the second is the more specific, and prompts; the dashboard has published both
  its prompts and rules for an agent.\<close>

definition broad :: policy_rule where "broad = \<lparr>match_on = [], access = None\<rparr>"

definition narrow :: policy_rule where "narrow = \<lparr>match_on = [(''team'', VStr ''red'')], access = Some [''Writer'']\<rparr>"

definition demo_folder :: folder where
  "demo_folder = [(''policy.yaml'', Yaml (VDict [(''rules'', VList (map rule_doc [broad, narrow]))])),
     (''prompts.yaml'', Yaml (VDict [(''prompts'', VDict [])]))]"

definition demo_reading :: reading where
  "demo_reading = \<lparr>rd_iso = plain_iso, rd_time_str = (\<lambda>_ _. []), rd_relpath = id, rd_environ = (\<lambda>_. None)\<rparr>"

definition dashboard_gc :: gc where
  "dashboard_gc = (let g = delivery_gc (\<lambda>_. []) in g\<lparr>g_world := (g_world g)\<lparr>w_servers := (\<lambda>_.
     rd_set ''prompts:config'' (Raw ''kept'') (rd_set CONFIG_KEY (Doc (VDict [(''agents'', VDict [(''Writer'', VDict [])])])) empty_redis))\<rparr>\<rparr>)"

definition demo_files :: "dict list \<times> config_files" where
  "demo_files = (map rule_dict [narrow, broad], \<lparr>cf_payloads =
     [(''policy:config'', VDict [(''rules'', VList (map rule_doc [broad, narrow]))]), (''prompts:yaml'', VDict [(''prompts'', VDict [])])],
     cf_prompts = Some [], cf_governance = None\<rparr>)"

lemma demo_reads: "read_config_folder demo_reading demo_folder = Inr demo_files"
  by code_simp

definition demo_published :: gc where
  "demo_published = snd (write_policies demo_reading (fst demo_files) (snd demo_files) dashboard_gc)"

lemma demo_publishes: "write_policies demo_reading (fst demo_files) (snd demo_files) dashboard_gc = (Inr (), demo_published)"
proof -
  have "fst (write_policies demo_reading (fst demo_files) (snd demo_files) dashboard_gc) = Inr ()" by code_simp
  then show ?thesis by (simp add: demo_published_def prod_eq_iff)
qed

lemma demo_clients: "clients dashboard_gc = [LOCAL]"
  by code_simp

lemma demo_keys_only: "file_keys_only (server_at dashboard_gc LOCAL)"
proof -
  have "rd_smembers CONFIG_FILES_KEY (server_at dashboard_gc LOCAL) = []" by code_simp
  then show ?thesis by (simp add: file_keys_only_def)
qed

lemma demo_reads_parts: "read_config_folder demo_reading demo_folder = Inr (fst demo_files, snd demo_files)"
  by (simp add: demo_reads)

lemmas demo_publication = demo_reads_parts demo_publishes


theorem published_files_are_the_folders_witness:
  "set (rd_smembers CONFIG_FILES_KEY (server_at demo_published LOCAL)) = {''policy:config'', ''prompts:yaml''}"
  using published_files_are_the_folders[OF demo_publication _ _ demo_keys_only] by (simp add: demo_clients demo_files_def)

theorem dashboard_edits_stay_witness:
  "rd_get ''prompts:config'' (server_at demo_published LOCAL) = Some (Raw ''kept'') \<and>
   governs (server_at demo_published LOCAL) [(''Writer'', VDict [])]"
proof -
  have p: "rd_get ''prompts:config'' (server_at dashboard_gc LOCAL) = Some (Raw ''kept'')" by code_simp
  have c: "rd_get CONFIG_KEY (server_at dashboard_gc LOCAL) = Some (Doc (VDict [(''agents'', VDict [(''Writer'', VDict [])])]))" by code_simp
  have e: "parse (rd_iso demo_reading) (VDict [(''agents'', VDict [(''Writer'', VDict [])])]) = Inr [(''Writer'', VDict [])]" by code_simp
  have "governs (server_at dashboard_gc LOCAL) [(''Writer'', VDict [])]" using c by (simp add: governs_def dget_def)
  moreover have "readable_rules (rd_iso demo_reading) (server_at dashboard_gc LOCAL)" using c e by (auto simp: readable_rules_def)
  ultimately show ?thesis using dashboard_edits_stay[OF demo_publication demo_keys_only] p by blast
qed

section \<open>What reading lets through\<close>

text \<open>A rule with a date to match on is read, but \<open>json.dumps\<close> refuses it when the publication is already
  under way: the specs and the replica counts of the new config are written and the rest is not.\<close>

definition dated_rule :: val where
  "dated_rule = VDict [(''match'', VDict [(''since'', VTime 0 None)]), (''access'', VStr ''all'')]"

definition dated_files :: "dict list \<times> config_files" where
  "dated_files = ([[(''match'', VDict [(''since'', VTime 0 None)]), (''access'', VStr ''all'')]],
     \<lparr>cf_payloads = [(''policy:config'', VDict [(''rules'', VList [VDict [(''match'', VDict [(''since'', VStr [])]), (''access'', VStr ''all'')]])])],
       cf_prompts = None, cf_governance = None\<rparr>)"

lemma dated_rule_half_publishes:
  "read_config_folder demo_reading [(''policy.yaml'', Yaml (VDict [(''rules'', VList [dated_rule])]))] = Inr dated_files"
  "fst (apply_config (delivery_cenv id) demo_reading dated_files m dashboard_gc) = Inl (TypeError ''not JSON serializable'')"
  "rd_get ACTIVE_AGENTS_KEY (server_at dashboard_gc LOCAL) = None"
  "rd_get ACTIVE_AGENTS_KEY (server_at (snd (apply_config (delivery_cenv id) demo_reading dated_files m dashboard_gc)) LOCAL) \<noteq> None"
  by code_simp+

text \<open>A rule whose \<open>match\<close> is empty text in the file is null, and its length raises a \<open>TypeError\<close> that
  names no file; so does an \<open>llms.yaml\<close> that is a list.\<close>

lemma null_match_raises:
  "load_policy_rules rd [(''policy.yaml'', Yaml (VDict [(''rules'', VList [VDict [(''match'', VNone)]])]))] = Inl (TypeError ''len'')"
  by (simp add: load_policy_rules_def dget_or_def mappings_def by_specificity_def py_len_def)

lemma listed_llms_raise:
  "read_config_folder demo_reading [(''llms.yaml'', Yaml (VList [VStr ''gpt-5'']))] = Inl (AttributeError ''items'')"
  by code_simp

end
