(* ===== verification/Config_Endpoint.thy ===== *)
theory Config_Endpoint
  imports Config_Meaning Schema_Runtime
begin

text \<open>
  The endpoint's record (\<open>endpoint/__init__.py\<close>) of a manifest the schema accepted: it is always found,
  names a declared function, and a reload keeps the port the endpoint's container has.
\<close>

lemma find_name:
  assumes "distinct (map (lower \<circ> ad_name) as)" "a \<in> set as"
  shows "List.find (\<lambda>b. Some (ad_name b) = Some (ad_name a)) as = Some a"
  using assms
proof (induction as)
  case (Cons b as)
  show ?case
  proof (cases "b = a")
    case False
    then have "a \<in> set as" using Cons.prems(2) by simp
    then have "lower (ad_name a) \<in> set (map (lower \<circ> ad_name) as)" by auto
    then have "ad_name b \<noteq> ad_name a" using Cons.prems(1) by auto
    then show ?thesis using Cons \<open>a \<in> set as\<close> by simp
  qed simp
qed simp

lemma find_function:
  assumes "meth \<in> set (map fn_name fs)"
  shows "\<exists>f. List.find (\<lambda>f. Some (fn_name f) = Some meth) fs = Some f \<and> f \<in> set fs \<and> fn_name f = meth"
  using assms by (induction fs) auto

text \<open>What a record says of the manifest it is of.\<close>

definition record_of :: "manifest \<Rightarrow> int \<Rightarrow> endpoint_doc \<Rightarrow> bool" where
  "record_of m published e \<longleftrightarrow> (\<exists>ep a p rs fs f. mn_endpoint m = Some ep \<and> ed_agent ep = Some (er_agent e) \<and> ed_method ep = Some (er_method e) \<and>
     a \<in> set (mn_agents m) \<and> ad_name a = er_agent e \<and> ad_kind a = CodeAgent p rs fs \<and> f \<in> set fs \<and> fn_name f = er_method e \<and>
     er_arguments e = map ar_name (fn_arguments f) \<and> er_api_port e = (case ed_api_port ep of Some q \<Rightarrow> q | None \<Rightarrow> published) \<and>
     er_public_host e \<noteq> None)"

lemma endpoint_found:
  assumes "wf_manifest env m" "environ ''CANYONOS_ENDPOINT_URL'' = None"
  shows "\<exists>e. endpoint_record environ m published = Inr e \<and> record_of m published e"
proof -
  obtain ep agent meth where ep: "mn_endpoint m = Some ep" "ed_agent ep = Some agent" "ed_method ep = Some meth"
    "serves (mn_agents m) agent meth" "ed_api_port ep = None \<or> wf_port (ed_api_port ep)"
    using assms(1) unfolding wf_manifest_def by blast
  obtain a p rs fs where a: "a \<in> set (mn_agents m)" "ad_name a = agent" "ad_kind a = CodeAgent p rs fs" "meth \<in> set (map fn_name fs)"
    using ep(4) unfolding serves_def by blast
  obtain f where f: "List.find (\<lambda>f. Some (fn_name f) = Some meth) fs = Some f" "f \<in> set fs" "fn_name f = meth"
    using find_function[OF a(4)] by blast
  have "distinct (map (lower \<circ> ad_name) (mn_agents m))" using assms(1) unfolding wf_manifest_def by simp
  then have found: "List.find (\<lambda>b. Some (ad_name b) = Some agent) (mn_agents m) = Some a" using find_name a(1,2) by blast
  have port: "ed_api_port ep = Some q \<Longrightarrow> q \<noteq> 0" for q using ep(5) by (auto simp: wf_port_def)
  obtain host port base where b: "base_url environ (ed_api_port ep) published = Inr (Some host, port, base)"
    "port = (case ed_api_port ep of Some q \<Rightarrow> q | None \<Rightarrow> published)"
    using assms(2) port by (auto simp: base_url_def Let_def split: option.splits)
  have "endpoint_record environ m published = Inr \<lparr>er_public_host = Some host, er_api_port = port, er_agent = ad_name a, er_method = fn_name f,
      er_arguments = map ar_name (fn_arguments f), er_base_url = base\<rparr>"
    using ep(1-3) found a(3) f(1) b(1) by (simp add: endpoint_record_def)
  moreover have "record_of m published \<lparr>er_public_host = Some host, er_api_port = port, er_agent = ad_name a, er_method = fn_name f,
      er_arguments = map ar_name (fn_arguments f), er_base_url = base\<rparr>"
    unfolding record_of_def using ep(1-3) a(1-3) f(2,3) b(2)
    by (intro exI[of _ ep] exI[of _ a] exI[of _ p] exI[of _ rs] exI[of _ fs] exI[of _ f]) simp
  ultimately show ?thesis by blast
qed

lemma endpoint_hash_read:
  assumes "endpoint_hash e = Inr flds"
  shows "read_endpoint_port (rd_hset_multiple ADDRESS_KEY flds r) = Inr (er_api_port e)"
proof -
  have n: "flds \<noteq> []" "map_of flds ''api_port'' = Some (Doc (VInt (er_api_port e)))" "map_of flds ''arguments'' = Some (Doc (VList (map VStr (er_arguments e))))"
    using assms by (auto simp: endpoint_hash_def split: option.splits)
  have m: "map_of (rd_hgetall ADDRESS_KEY (rd_hset_multiple ADDRESS_KEY flds r)) = map_of (rd_hgetall ADDRESS_KEY r) ++ map_of flds"
    by (simp add: hgetall_hset_multiple)
  then have "rd_hgetall ADDRESS_KEY (rd_hset_multiple ADDRESS_KEY flds r) \<noteq> []" using n(2) by (metis map_add_find_right map_of.simps(1) option.distinct(1))
  then show ?thesis using n m by (simp add: read_endpoint_port_def Let_def map_add_def)
qed

text \<open>With the port of the endpoint's container published, a reload of an accepted manifest publishes
  the endpoint again: its agent, a function declared for it with that function's arguments, and as
  port the manifest's \<open>api_port\<close> or, without one, the port the container has.\<close>

theorem reload_keeps_the_endpoints_port:
  assumes "load_manifest env document = Inr m" "c_environ cenv ''CANYONOS_ENDPOINT_URL'' = None"
    and "\<not> w_down (g_world g) LOCAL" "read_endpoint_port (server_at g LOCAL) = Inr got"
  shows "\<exists>g' e ep. publish_endpoint cenv m g = (Inr (), g') \<and> record_of m got e \<and> mn_endpoint m = Some ep \<and>
    read_endpoint_port (server_at g' LOCAL) = Inr (case ed_api_port ep of Some q \<Rightarrow> q | None \<Rightarrow> got) \<and>
    rd_hget ADDRESS_KEY ''agent'' (server_at g' LOCAL) = Some (Raw (er_agent e)) \<and>
    rd_hget ADDRESS_KEY ''method'' (server_at g' LOCAL) = Some (Raw (er_method e)) \<and>
    rd_hget ADDRESS_KEY ''arguments'' (server_at g' LOCAL) = Some (Doc (VList (map VStr (er_arguments e))))"
proof -
  obtain e where e: "endpoint_record (c_environ cenv) m got = Inr e" "record_of m got e"
    using endpoint_found[of env m "c_environ cenv" got] accepted_wf[OF assms(1)] assms(2) by blast
  then obtain flds where r: "endpoint_hash e = Inr flds" by (auto simp: record_of_def endpoint_hash_def)
  obtain ep where ep: "mn_endpoint m = Some ep" "er_api_port e = (case ed_api_port ep of Some q \<Rightarrow> q | None \<Rightarrow> got)"
    using e(2) by (auto simp: record_of_def)
  have "rd_hgetall ADDRESS_KEY (server_at g LOCAL) \<noteq> []" using assms(4) by (auto simp: read_endpoint_port_def Let_def)
  then have "starting_port (c_environ cenv) (server_at g LOCAL) = Inr got" using assms(4) by (simp add: starting_port_def)
  then have run: "publish_endpoint cenv m g = on_world (tell LOCAL (rd_hset_multiple ADDRESS_KEY flds)) g"
    using assms(3) e(1) r by (simp add: publish_endpoint_def bnd_run on_world_ask_run of_res_run server_at_def)
  let ?g = "snd (on_world (tell LOCAL (rd_hset_multiple ADDRESS_KEY flds)) g)"
  have s: "publish_endpoint cenv m g = (Inr (), ?g)" "server_at ?g LOCAL = rd_hset_multiple ADDRESS_KEY flds (server_at g LOCAL)"
    using assms(3) run by (simp_all add: on_world_run tell_run server_at_def)
  have "read_endpoint_port (server_at ?g LOCAL) = Inr (er_api_port e)" unfolding s(2) by (rule endpoint_hash_read[OF r])
  moreover have "map_of flds ''agent'' = Some (Raw (er_agent e))" "map_of flds ''method'' = Some (Raw (er_method e))"
    "map_of flds ''arguments'' = Some (Doc (VList (map VStr (er_arguments e))))"
    using r by (auto simp: endpoint_hash_def split: option.splits)
  ultimately show ?thesis
    using s e(2) ep by (intro exI[of _ ?g] exI[of _ e] exI[of _ ep]) (simp add: hget_hset_multiple)
qed

definition published_gc :: gc where
  "published_gc = (let g = delivery_gc (\<lambda>_. []) in g\<lparr>g_world := (g_world g)\<lparr>w_servers := (\<lambda>_.
     rd_hset_multiple ADDRESS_KEY [(''api_port'', Doc (VInt 49152)), (''arguments'', Doc (VList []))] empty_redis)\<rparr>\<rparr>)"

theorem reload_keeps_the_endpoints_port_witness:
  "\<exists>m g' e. load_manifest demo_senv (VDict (demo_document [])) = Inr m \<and> publish_endpoint (delivery_cenv id) m published_gc = (Inr (), g') \<and>
     record_of m 49152 e \<and> mn_endpoint m \<noteq> None"
proof -
  have l: "map_sum id (\<lambda>_. ()) (load_manifest demo_senv (VDict (demo_document []))) = Inr ()"
    using demo_manifest by (elim exE conjE) (simp only: map_sum.simps)
  then obtain m where m: "load_manifest demo_senv (VDict (demo_document [])) = Inr m"
    by (cases "load_manifest demo_senv (VDict (demo_document []))") auto
  have "\<not> w_down (g_world published_gc) LOCAL" "read_endpoint_port (server_at published_gc LOCAL) = Inr 49152" by code_simp+
  from reload_keeps_the_endpoints_port[OF m _ this, of "delivery_cenv id"] m show ?thesis
    by (fastforce simp: delivery_cenv_def)
qed

end
