(* ===== verification/Controller_Lifecycle.thy ===== *)
theory Controller_Lifecycle
  imports Config_Publish
begin

text \<open>
  The start and the stop of the Global Controller (\<open>controller/global_controller.py\<close>,
  \<open>controller/orchestrator.py\<close>): its Redis and metrics containers, the wait for a healthy fleet, and
  the teardown. While it sleeps the other processes act (\<open>c_meanwhile\<close>). \<open>sys.exit\<close> is no \<open>Exception\<close>:
  an operation that may call it returns whether it did not.
\<close>

section \<open>Containers of this machine\<close>

definition remove_stale :: "env \<Rightarrow> string \<Rightarrow> unit step" where
  "remove_stale env c =
     catch
       (bnd (run_cmd env [''docker'', ''inspect'', ''-f'', ''{{.State.Running}}'', c] LOCAL []) (\<lambda>(code, out, err).
        if code = 0 \<and> strip out = ''true'' then ret ()
        else bnd (run_cmd env [''docker'', ''rm'', ''-f'', ''-v'', c] LOCAL []) (\<lambda>_. ret ())))
       (\<lambda>_. ret ())"

definition remove_stale_containers :: "cenv \<Rightarrow> unit gstep" where
  "remove_stale_containers cenv = (let env = c_env cenv in
     on_world (for_each [redis_container_name env LOCAL, metrics_container_name env LOCAL] (remove_stale env)))"

definition redis_container_running :: "env \<Rightarrow> string \<Rightarrow> bool step" where
  "redis_container_running env c =
     bnd (run_cmd env [''docker'', ''inspect'', ''-f'', ''{{.State.Running}}'', c] LOCAL [])
       (\<lambda>(code, out, err). ret (code = 0 \<and> strip out = ''true''))"

definition redis_container_serves_port :: "env \<Rightarrow> string \<Rightarrow> int \<Rightarrow> bool step" where
  "redis_container_serves_port env c redis_port =
     bnd (run_cmd env [''docker'', ''port'', c, str_int redis_port @ ''/tcp''] LOCAL []) (\<lambda>(code, out, err). ret (code = 0))"

definition redis_responds :: "env \<Rightarrow> bool step" where
  "redis_responds env = bnd (read_st w_now) (\<lambda>now.
     catch (bnd (poll_redis env LOCAL (now + 5) 6) (\<lambda>_. ret True))
       (\<lambda>e. case e of TimeoutError _ \<Rightarrow> ret False | _ \<Rightarrow> raise e))"

definition LOCAL_NETWORK :: string where "LOCAL_NETWORK = ''canyonos-local''"

definition redis_run_args :: "env \<Rightarrow> int \<Rightarrow> command" where
  "redis_run_args env redis_port =
     [''docker'', ''run'', ''-d''] @ project_label_args env @
     [''--name'', redis_container_name env LOCAL, ''--network'', LOCAL_NETWORK] @ resource_limit_args env VNone True @
     [''-p'', str_int redis_port @ '':'' @ str_int redis_port, ''redis:alpine'', ''redis-server'', ''--port'', str_int redis_port]"

text \<open>\<open>_stop_redis_containers\<close>: both commands run whatever the first answers; a container that is gone
  is stopped, any other failure keeps it among the controller's.\<close>

definition docker_end :: "env \<Rightarrow> string \<Rightarrow> string \<Rightarrow> string \<times> command \<Rightarrow> string list \<Rightarrow> string list step" where
  "docker_end env host c step errors = (case step of (action, flags) \<Rightarrow>
     catch
       (bnd (run_cmd env ([''docker'', action] @ flags @ [c]) host []) (\<lambda>(code, out, err).
          ret (if code \<noteq> 0 \<and> \<not> contains ''no such container'' (lower err)
               then errors @ [''docker '' @ action @ '' exited with code '' @ str_int code @ '': '' @ strip err] else errors)))
       (\<lambda>e. ret (errors @ [''docker '' @ action @ '': '' @ exn_str e])))"

definition forget_redis :: "string \<Rightarrow> gc \<Rightarrow> gc" where
  "forget_redis host g = g\<lparr>g_redis_containers := filter (\<lambda>(h, _). h \<noteq> host) (g_redis_containers g),
     g_world := (g_world g)\<lparr>w_clients := filter (\<lambda>h. h \<noteq> host) (w_clients (g_world g))\<rparr>\<rparr>"

definition stop_redis :: "cenv \<Rightarrow> string \<times> string \<Rightarrow> string list \<Rightarrow> string list gstep" where
  "stop_redis cenv owned failures = (case owned of (host, c) \<Rightarrow>
     bnd (on_world (fold_each [(''stop'', []), (''rm'', [''-v''])] [] (docker_end (c_env cenv) host c))) (\<lambda>errors.
     if errors \<noteq> [] then ret (failures @ [''Redis '' @ c @ '' on '' @ host @ '': '' @ join ''; '' errors])
     else bnd (modify_st (forget_redis host)) (\<lambda>_. ret failures)))"

definition stop_redis_containers :: "cenv \<Rightarrow> string list gstep" where
  "stop_redis_containers cenv = bnd (read_st g_redis_containers) (\<lambda>owned. fold_each owned [] (stop_redis cenv))"

definition own_redis_port :: "dict \<Rightarrow> exn + int" where
  "own_redis_port config = (case dget_or config ''redis'' (VDict []) of
       VDict d \<Rightarrow> (case dget_or d ''port'' (VInt DEFAULT_REDIS_PORT) of VInt p \<Rightarrow> Inr p | _ \<Rightarrow> Inl (TypeError ''port''))
     | _ \<Rightarrow> Inl (AttributeError ''get''))"

text \<open>The run of a Redis of its own: \<open>False\<close> after \<open>sys.exit\<close>.\<close>

definition run_redis :: "cenv \<Rightarrow> int \<Rightarrow> bool gstep" where
  "run_redis cenv redis_port = (let env = c_env cenv; c = redis_container_name env LOCAL in
     bnd (on_world (run_cmd env [''docker'', ''network'', ''create'', LOCAL_NETWORK] LOCAL [])) (\<lambda>_.
     bnd (catch (bnd (on_world (run_cmd env (redis_run_args env redis_port) LOCAL [])) (\<lambda>res. ret (Some res))) (\<lambda>_. ret None)) (\<lambda>res.
     case res of
       None \<Rightarrow> bnd (stop_redis_containers cenv) (\<lambda>_. ret False)
     | Some (code, out, err) \<Rightarrow>
         if code \<noteq> 0 then
           bnd (if is_port_conflict err then bnd (on_world (run_cmd env [''docker'', ''rm'', ''-f'', ''-v'', c] LOCAL [])) (\<lambda>_. ret ()) else ret ()) (\<lambda>_.
           bnd (stop_redis_containers cenv) (\<lambda>_. ret False))
         else bnd (modify_st (\<lambda>g. g\<lparr>g_redis_containers := AList.update LOCAL c (g_redis_containers g)\<rparr>)) (\<lambda>_. ret True))))"

definition attach_redis :: "cenv \<Rightarrow> int \<Rightarrow> bool gstep" where
  "attach_redis cenv redis_port =
     bnd (modify_st (\<lambda>g. g\<lparr>g_world := (g_world g)\<lparr>w_redis_ports := (w_redis_ports (g_world g))(LOCAL \<mapsto> redis_port)\<rparr>\<rparr>)) (\<lambda>_.
     bnd (catch (bnd (on_world (wait_for_redis (c_env cenv) LOCAL)) (\<lambda>_. ret True))
       (\<lambda>e. case e of TimeoutError _ \<Rightarrow> ret False | _ \<Rightarrow> raise e)) (\<lambda>up.
     if \<not> up then ret False
     else bnd (modify_st (\<lambda>g. g\<lparr>g_world := (g_world g)\<lparr>w_clients :=
         (if LOCAL \<in> set (w_clients (g_world g)) then w_clients (g_world g) else w_clients (g_world g) @ [LOCAL])\<rparr>\<rparr>)) (\<lambda>_. ret True)))"

definition launch_redis_containers :: "cenv \<Rightarrow> bool gstep" where
  "launch_redis_containers cenv = (let env = c_env cenv; c = redis_container_name env LOCAL in
     bnd (read_st (\<lambda>g. own_redis_port (w_config (g_world g)))) (\<lambda>res.
     bnd (of_res res) (\<lambda>redis_port.
     bnd (on_world (redis_container_running env c)) (\<lambda>running.
     bnd (if running then on_world (redis_container_serves_port env c redis_port) else ret True) (\<lambda>serves.
     if running \<and> \<not> serves then ret False
     else bnd (if running then on_world (redis_responds env) else run_redis cenv redis_port) (\<lambda>there.
       if \<not> there then ret False else attach_redis cenv redis_port))))))"

fun any_gpu :: "spec list \<Rightarrow> exn + bool" where
  "any_gpu [] = Inr False"
| "any_gpu (sp # sps) = (case dget_or sp ''resources'' (VDict []) of
     VDict d \<Rightarrow> if truthy (dget d ''gpu'') then Inr True else any_gpu sps
   | _ \<Rightarrow> Inl (AttributeError ''get''))"

definition launch_metrics_collectors :: "cenv \<Rightarrow> unit gstep" where
  "launch_metrics_collectors cenv = (let env = c_env cenv in
     if e_controller_image env = [] then ret ()
     else bnd (read_st (\<lambda>g. res_bnd (any_gpu (w_specs (g_world g))) (\<lambda>gpu.
         res_bnd (own_redis_port (w_config (g_world g))) (\<lambda>p. Inr (gpu, p))))) (\<lambda>res.
       bnd (of_res res) (\<lambda>(gpu, redis_port).
       bnd (on_world (start_metrics_collector env LOCAL [] (e_controller_image env) redis_port gpu)) (\<lambda>c.
       case c of None \<Rightarrow> ret ()
       | Some nm \<Rightarrow> modify_st (\<lambda>g. g\<lparr>g_collectors := AList.update LOCAL nm (g_collectors g)\<rparr>)))))"

definition stop_collector :: "env \<Rightarrow> string \<times> string \<Rightarrow> unit step" where
  "stop_collector env owned = (case owned of (host, c) \<Rightarrow>
     catch (bnd (run_cmd env [''docker'', ''rm'', ''-f'', c] host []) (\<lambda>_. ret ())) (\<lambda>_. ret ()))"

definition stop_metrics_collectors :: "cenv \<Rightarrow> unit gstep" where
  "stop_metrics_collectors cenv =
     bnd (read_st g_collectors) (\<lambda>owned.
     bnd (on_world (for_each owned (stop_collector (c_env cenv)))) (\<lambda>_.
     modify_st (\<lambda>g. g\<lparr>g_collectors := []\<rparr>)))"

section \<open>What the orchestrator starts and stops\<close>

definition start_support_services :: "cenv \<Rightarrow> bool gstep" where
  "start_support_services cenv =
     bnd (launch_redis_containers cenv) (\<lambda>up.
     if up then bnd (launch_metrics_collectors cenv) (\<lambda>_. ret True) else ret False)"

definition undo_support_services :: "cenv \<Rightarrow> unit gstep" where
  "undo_support_services cenv =
     bnd (stop_metrics_collectors cenv) (\<lambda>_.
     catch (bnd (stop_redis_containers cenv) (\<lambda>_. ret ())) (\<lambda>_. ret ()))"

definition mark_images_ready :: "unit gstep" where
  "mark_images_ready = bnd (on_world (tell LOCAL set_images_ready)) (\<lambda>_. ask_reconcile WAKE_ALL)"

definition clear_flag :: "string list gstep" where
  "clear_flag = catch (bnd (on_world (tell LOCAL clear_stopping)) (\<lambda>_. ret [])) (\<lambda>e. ret [''stopping flag: '' @ exn_str e])"

definition stop_support_services :: "cenv \<Rightarrow> bool \<Rightarrow> string list gstep" where
  "stop_support_services cenv emptied =
     bnd clear_flag (\<lambda>failures.
     bnd (stop_metrics_collectors cenv) (\<lambda>_.
     if emptied \<and> failures = [] then bnd (stop_redis_containers cenv) (\<lambda>more. ret (failures @ more))
     else ret (failures @ [''redis: kept for the next startup to reconcile''])))"

section \<open>Waiting for the fleet\<close>

text \<open>The healthy replicas of each agent, and the replicas that are not healthy with their status.\<close>

type_synonym readiness = "(string \<times> int) list \<times> (hash \<times> rtext option) list"

definition count_of :: "(string \<times> int) list \<Rightarrow> string \<Rightarrow> int" where
  "count_of tally n = (case map_of tally n of None \<Rightarrow> 0 | Some k \<Rightarrow> k)"

definition check_readiness :: "hash \<Rightarrow> readiness \<Rightarrow> readiness gstep" where
  "check_readiness replica seen = (case seen of (healthy, pending) \<Rightarrow>
     let n = fld replica ''agent_name''; a = fld replica ''address'' in
     bnd (of_res (need replica ''agent_name'')) (\<lambda>_.
     bnd (on_world (machine_redis_for_replica replica)) (\<lambda>h.
     bnd (on_world (ask h (rd_get (status_key a)))) (\<lambda>status.
     if status = Some (Raw ''healthy'') then
       bnd (modify_st (\<lambda>g. g\<lparr>g_last_status := AList.update a (Raw ''healthy'') (g_last_status g)\<rparr>)) (\<lambda>_.
       ret (AList.update n (count_of healthy n + 1) healthy, pending))
     else ret (healthy, pending @ [(replica, status)])))))"

definition is_terminal :: "rtext option \<Rightarrow> bool" where
  "is_terminal status \<longleftrightarrow> status = Some (Raw ''failed'') \<or> status = Some (Raw ''stopped'')"

definition lacking :: "(string \<times> int) list \<Rightarrow> (string \<times> int) list \<Rightarrow> (string \<times> int) list" where
  "lacking healthy expected = filter (\<lambda>(n, want). count_of healthy n < want) expected"

datatype outlook = AllHealthy | Verdict readiness | Waiting | OutOfRounds

definition health_round :: "(string \<times> int) list \<Rightarrow> rat \<Rightarrow> outlook gstep" where
  "health_round expected deadline =
     bnd (on_world (ask LOCAL (\<lambda>r. list_replicas r None))) (\<lambda>replicas.
     bnd (fold_each replicas ([], []) check_readiness) (\<lambda>(healthy, pending).
     if lacking healthy expected = [] then ret AllHealthy
     else bnd (on_world (ask LOCAL (rd_hgetall LAUNCH_ERRORS_KEY))) (\<lambda>errors.
       let fatal = filter (\<lambda>(n, _). count_of healthy n < count_of expected n) errors in
       if fatal \<noteq> [] then raise (RuntimeError (join ''; '' (map (\<lambda>(n, e). n @ '' could not start: '' @ raw_str e) fatal)))
       else bnd (read_st (\<lambda>g. w_now (g_world g))) (\<lambda>now.
         ret (if (\<exists>(_, status)\<in>set pending. is_terminal status) \<or> deadline \<le> now then Verdict (healthy, pending) else Waiting)))))"

definition sleep_while_others_act :: "cenv \<Rightarrow> rat \<Rightarrow> unit gstep" where
  "sleep_while_others_act cenv d =
     bnd (on_world (sleep d)) (\<lambda>_. modify_st (\<lambda>g. g\<lparr>g_world := c_meanwhile cenv (g_world g)\<rparr>))"

text \<open>The code equations unroll a round only on a state.\<close>

fun health_rounds :: "cenv \<Rightarrow> (string \<times> int) list \<Rightarrow> rat \<Rightarrow> nat \<Rightarrow> outlook gstep" where
  "health_rounds cenv expected deadline 0 = ret OutOfRounds"
| "health_rounds cenv expected deadline (Suc n) =
     bnd (health_round expected deadline) (\<lambda>o'.
     if o' = Waiting then bnd (sleep_while_others_act cenv 2) (\<lambda>_. health_rounds cenv expected deadline n) else ret o')"

lemma health_rounds_code [code]:
  "health_rounds cenv expected deadline 0 g = ret OutOfRounds g"
  "health_rounds cenv expected deadline (Suc n) g =
     (bnd (health_round expected deadline) (\<lambda>o'.
     if o' = Waiting then bnd (sleep_while_others_act cenv 2) (\<lambda>_. health_rounds cenv expected deadline n) else ret o')) g"
  by simp_all

definition expected_counts :: "(string \<times> int) list gstep" where
  "expected_counts =
     bnd (read_st (\<lambda>g. w_specs (g_world g))) (\<lambda>specs.
     fold_each specs [] (\<lambda>sp acc. case replica_count sp of
         None \<Rightarrow> ret acc
       | Some c \<Rightarrow> bnd (on_world (ask LOCAL (\<lambda>r. get_desired r (spec_name sp) c))) (\<lambda>want.
           ret (AList.update (spec_name sp) want acc))))"

text \<open>The records there are of an agent, unfinished ones too.\<close>

definition records_of :: "redis \<Rightarrow> string \<Rightarrow> int" where
  "records_of r n = int (length (filter (\<lambda>k. rd_hget k ''agent_name'' r = Some (Raw n)) (rd_scan ''agent_instance:'' r)))"

definition agents_failed :: "redis \<Rightarrow> readiness \<Rightarrow> (string \<times> int) list \<Rightarrow> (string \<times> int) list" where
  "agents_failed r seen expected = (case seen of (healthy, pending) \<Rightarrow>
     filter (\<lambda>(n, want). (\<exists>(replica, _)\<in>set pending. fld replica ''agent_name'' = n) \<or> records_of r n < want)
       (lacking healthy expected))"

definition shown_logs :: "(hash \<times> rtext option) list \<Rightarrow> (string \<times> int) list \<Rightarrow> hash list" where
  "shown_logs pending failed = (let terminal = filter (\<lambda>(_, status). is_terminal status) pending in
     filter (\<lambda>replica. fld replica ''agent_name'' \<in> fst ` set failed) (map fst (if terminal \<noteq> [] then terminal else pending)))"

definition health_failure :: "int \<Rightarrow> (string \<times> int) list \<Rightarrow> (string \<times> int) list \<Rightarrow> hash \<Rightarrow> exn" where
  "health_failure waited healthy failed machine_errors = RuntimeError
     (''Agent replica(s) failed to become healthy within '' @ str_int waited @ ''s: '' @
      join '', '' (map (\<lambda>(n, want). n @ '' '' @ str_int (count_of healthy n) @ ''/'' @ str_int want) failed) @
      concat (map (\<lambda>(t, e). ''; machine type '' @ t @ '' could not start: '' @ raw_str e) machine_errors))"

definition health_verdict_of :: "cenv \<Rightarrow> rat \<Rightarrow> (string \<times> int) list \<Rightarrow> readiness \<Rightarrow> unit gstep" where
  "health_verdict_of cenv started expected seen = (case seen of (healthy, pending) \<Rightarrow>
     bnd (read_st (\<lambda>g. \<lfloor>w_now (g_world g) - started\<rfloor>)) (\<lambda>waited.
     bnd (on_world (ask LOCAL (\<lambda>r. agents_failed r seen expected))) (\<lambda>failed.
     if failed = [] then ret ()
     else bnd (for_each (shown_logs pending failed) (\<lambda>replica. on_world (dump_container_log (c_env cenv) replica))) (\<lambda>_.
       bnd (on_world (ask LOCAL (rd_hgetall MACHINE_ERRORS_KEY))) (\<lambda>machine_errors.
       raise (health_failure waited healthy failed machine_errors))))))"

definition CONTROLLER_READY_TIMEOUT_SECONDS :: int where "CONTROLLER_READY_TIMEOUT_SECONDS = 360"

text \<open>A round for every two seconds of the timeout, and one more.\<close>

definition wait_for_healthy :: "cenv \<Rightarrow> unit gstep" where
  "wait_for_healthy cenv =
     bnd expected_counts (\<lambda>expected.
     bnd (read_st (\<lambda>g. w_specs (g_world g))) (\<lambda>specs.
     if sum_list (map snd expected) = 0 \<and> specs \<noteq> [] then ret ()
     else bnd (read_st (\<lambda>g. w_now (g_world g))) (\<lambda>started.
       bnd (health_rounds cenv expected (started + of_int CONTROLLER_READY_TIMEOUT_SECONDS)
              (Suc (nat (CONTROLLER_READY_TIMEOUT_SECONDS div 2)))) (\<lambda>o'.
       case o' of Verdict seen \<Rightarrow> health_verdict_of cenv started expected seen | _ \<Rightarrow> ret ()))))"

section \<open>Stopping\<close>

definition STOP_TIMEOUT_SECONDS :: int where "STOP_TIMEOUT_SECONDS = 240"

text \<open>The records left: replicas, unfinished launches too, and machines.\<close>

definition records_left :: "redis \<Rightarrow> string list" where
  "records_left r = rd_scan ''agent_instance:'' r @ rd_scan ''machine_record:'' r"

fun removal_rounds :: "cenv \<Rightarrow> rat \<Rightarrow> nat \<Rightarrow> bool option gstep" where
  "removal_rounds cenv deadline 0 = ret None"
| "removal_rounds cenv deadline (Suc n) =
     bnd (catch (bnd (on_world (ask LOCAL records_left)) (\<lambda>ks. ret (Some ks))) (\<lambda>_. ret None)) (\<lambda>left.
     case left of
       None \<Rightarrow> ret (Some False)
     | Some [] \<Rightarrow> bnd (on_world (tell LOCAL (rd_delete [ADDRESS_KEY]))) (\<lambda>_. ret (Some True))
     | Some (_ # _) \<Rightarrow>
         bnd (read_st (\<lambda>g. w_now (g_world g))) (\<lambda>now.
         if deadline \<le> now then ret (Some False)
         else bnd (sleep_while_others_act cenv 1) (\<lambda>_.
           bnd (on_world (tell LOCAL set_stopping)) (\<lambda>_. removal_rounds cenv deadline n))))"

lemma removal_rounds_code [code]:
  "removal_rounds cenv deadline 0 g = ret None g"
  "removal_rounds cenv deadline (Suc n) g =
     (bnd (catch (bnd (on_world (ask LOCAL records_left)) (\<lambda>ks. ret (Some ks))) (\<lambda>_. ret None)) (\<lambda>left.
     case left of
       None \<Rightarrow> ret (Some False)
     | Some [] \<Rightarrow> bnd (on_world (tell LOCAL (rd_delete [ADDRESS_KEY]))) (\<lambda>_. ret (Some True))
     | Some (_ # _) \<Rightarrow>
         bnd (read_st (\<lambda>g. w_now (g_world g))) (\<lambda>now.
         if deadline \<le> now then ret (Some False)
         else bnd (sleep_while_others_act cenv 1) (\<lambda>_.
           bnd (on_world (tell LOCAL set_stopping)) (\<lambda>_. removal_rounds cenv deadline n))))) g"
  by simp_all

definition remove_all_replicas :: "cenv \<Rightarrow> bool gstep" where
  "remove_all_replicas cenv =
     bnd (on_world (tell LOCAL set_stopping)) (\<lambda>_.
     bnd (on_world (tell LOCAL (request_reconcile WAKE_ALL))) (\<lambda>_.
     bnd (read_st (\<lambda>g. w_now (g_world g))) (\<lambda>now.
     bnd (removal_rounds cenv (now + of_int STOP_TIMEOUT_SECONDS) (Suc (nat STOP_TIMEOUT_SECONDS))) (\<lambda>removed.
     ret (removed = Some True)))))"

text \<open>\<open>stop\<close>, and \<open>cleanup\<close>, which calls it.\<close>

definition stop_global :: "cenv \<Rightarrow> string list gstep" where
  "stop_global cenv =
     bnd (read_st g_stopping) (\<lambda>stopping.
     if stopping then ret []
     else bnd (modify_st (\<lambda>g. g\<lparr>g_stopping := True, g_running := False\<rparr>)) (\<lambda>_.
       bnd (catch (bnd (remove_all_replicas cenv) (\<lambda>removed. ret (removed, [])))
         (\<lambda>e. ret (False, [''replica removal: '' @ exn_str e]))) (\<lambda>(removed, failures).
       bnd (catch (bnd (on_supervisor terminate_all) (\<lambda>_. ret failures))
         (\<lambda>e. ret (failures @ [''supervised processes: '' @ exn_str e]))) (\<lambda>failures.
       bnd (stop_support_services cenv (removed \<and> failures = [])) (\<lambda>more. ret (failures @ more))))))"

section \<open>Starting\<close>

text \<open>The commands of the two processes the controller runs beside itself.\<close>

record start_args =
  sa_exporter :: "string list"
  sa_reconciler :: "string list"

definition register_exporter :: "cenv \<Rightarrow> start_args \<Rightarrow> int \<Rightarrow> unit gstep" where
  "register_exporter cenv args redis_port = on_supervisor (register_process ''otel_exporter'' (sa_exporter args)
     [(''CANYONOS_OTEL_REDIS_HOST'', case c_environ cenv ''CANYONOS_REDIS_HOST'' of None \<Rightarrow> ''localhost'' | Some h \<Rightarrow> h),
      (''CANYONOS_OTEL_REDIS_PORT'', str_int redis_port)])"

definition publish_at_start :: "cenv \<Rightarrow> reading \<Rightarrow> project_files \<Rightarrow> unit gstep" where
  "publish_at_start cenv rd pf =
     bnd (of_res (read_config_folder rd (pf_folder pf))) (\<lambda>files.
     bnd (of_res (case load_manifest (pf_schema pf) (pf_document pf) of Inl _ \<Rightarrow> Inl (RuntimeError ''SchemaError'') | Inr m \<Rightarrow> Inr m)) (\<lambda>m.
     bnd (apply_config cenv rd files m) (\<lambda>_.
     bnd (on_world (tell LOCAL clear_stopping)) (\<lambda>_.
     bnd (on_world (tell LOCAL (rd_delete [LAUNCH_ERRORS_KEY, MACHINE_ERRORS_KEY]))) (\<lambda>_.
     on_world (tell LOCAL clear_images_ready))))))"

definition start_processes :: "cenv \<Rightarrow> start_args \<Rightarrow> unit gstep" where
  "start_processes cenv args =
     bnd (read_st (\<lambda>g. res_bnd (otel_config (w_config (g_world g))) (otel_destinations (c_environ cenv)))) (\<lambda>res.
     bnd (of_res res) (\<lambda>destinations.
     bnd (case destinations of None \<Rightarrow> ret () | Some ds \<Rightarrow> write_otel_destinations ds) (\<lambda>_.
     bnd (read_st (\<lambda>g. own_redis_port (w_config (g_world g)))) (\<lambda>res.
     bnd (of_res res) (\<lambda>redis_port.
     bnd (register_exporter cenv args redis_port) (\<lambda>_.
     bnd (with_queue Inr) (\<lambda>_.
     bnd (on_supervisor (register_process ''reconciler'' (sa_reconciler args) [])) (\<lambda>_.
     on_supervisor (start_all (c_spawn_fails cenv))))))))))"

text \<open>\<open>__init__\<close> once the context is there; \<open>response\<close> is the price catalog. Starting the cleanup thread
  is left out.\<close>

definition bring_up :: "cenv \<Rightarrow> reading \<Rightarrow> project_files \<Rightarrow> start_args \<Rightarrow> val option \<Rightarrow> bool gstep" where
  "bring_up cenv rd pf args response =
     bnd (modify_st (\<lambda>g. g\<lparr>g_fetched := litellm_prices response\<rparr>)) (\<lambda>_.
     bnd (read_st (\<lambda>g. add_prices (g_fetched g) (g_prices g))) (\<lambda>res.
     bnd (of_res res) (\<lambda>prices.
     bnd (modify_st (\<lambda>g. g\<lparr>g_prices := prices\<rparr>)) (\<lambda>_.
     bnd (publish_at_start cenv rd pf) (\<lambda>_.
     bnd (start_processes cenv args) (\<lambda>_. ret True))))))"

definition initialize :: "cenv \<Rightarrow> reading \<Rightarrow> project_files \<Rightarrow> start_args \<Rightarrow> val option \<Rightarrow> bool gstep" where
  "initialize cenv rd pf args response =
     bnd (remove_stale_containers cenv) (\<lambda>_.
     bnd (modify_st (\<lambda>g. g\<lparr>g_supervisor := new_supervisor\<rparr>)) (\<lambda>_.
     catch
       (bnd (start_support_services cenv) (\<lambda>up. if \<not> up then ret False else bring_up cenv rd pf args response))
       (\<lambda>e. bnd (on_supervisor terminate_all) (\<lambda>_.
            bnd (undo_support_services cenv) (\<lambda>_. raise e)))))"

end
