(* ===== verification/Lifecycle_Facts.thy ===== *)
theory Lifecycle_Facts
  imports Controller_Lifecycle
begin

text \<open>
  What the start and the stop of the Global Controller guarantee: Redis outlives the records kept in
  it, a deploy that is reported as up has its fleet, and a failed start leaves no process behind.
\<close>

definition own_redis :: "gc \<Rightarrow> redis" where "own_redis g = w_servers (g_world g) LOCAL"

section \<open>Teardown\<close>

lemma scan_delete: "rd_scan p r = [] \<Longrightarrow> rd_scan p (rd_delete ks r) = []"
proof (induction ks arbitrary: r)
  case (Cons k ks)
  have "rd_scan p (rd_delete1 k r) = []"
    using Cons.prems delete_keys[of k "rd_hashes r"] by (auto simp: rd_scan_def rd_delete1_def filter_empty_conv)
  then show ?case using Cons.IH by simp
qed simp

lemma records_left_delete: "records_left r = [] \<Longrightarrow> records_left (rd_delete ks r) = []"
  by (simp add: records_left_def scan_delete)

lemma sleep_run: "sleep_while_others_act cenv d g =
    (Inr (), g\<lparr>g_world := c_meanwhile cenv ((g_world g)\<lparr>w_now := w_now (g_world g) + d\<rparr>)\<rparr>)"
  by (simp add: sleep_while_others_act_def sleep_def act_simps)

definition frame :: "supervisor \<Rightarrow> (string \<times> string) list \<Rightarrow> (string \<times> string) list \<Rightarrow> bool \<Rightarrow> gc \<Rightarrow> bool" where
  "frame s c k b g \<longleftrightarrow> g_supervisor g = s \<and> g_redis_containers g = c \<and> g_collectors g = k \<and> g_stopping g = b"

lemma frame_world [pres_intros]: "keeps (frame s c k b) (on_world m)"
  by (rule keeps_on_world) (simp add: frame_def)

lemma frame_sleep [pres_intros]: "keeps (frame s c k b) (sleep_while_others_act cenv d)"
  unfolding sleep_while_others_act_def by (intro pres_intros keeps_modify) (simp add: frame_def)

lemma frame_removal: "keeps (frame s c k b) (removal_rounds cenv deadline n)"
  by (induction n) (auto intro!: pres_intros split: option.split list.split)

lemma frame_remove_all: "keeps (frame s c k b) (remove_all_replicas cenv)"
  unfolding remove_all_replicas_def by (intro pres_intros frame_removal)

lemma removal_rounds_True:
  assumes "removal_rounds cenv deadline n g = (Inr (Some True), g')"
  shows "records_left (own_redis g') = [] \<and> \<not> w_down (g_world g') LOCAL"
  using assms
proof (induction n arbitrary: g)
  case (Suc n)
  show ?case
  proof (cases "w_down (g_world g) LOCAL \<or> records_left (own_redis g) \<noteq> []")
    case True
    then obtain g1 where "removal_rounds cenv deadline n g1 = (Inr (Some True), g')"
      using Suc.prems by (auto simp: act_simps sleep_run own_redis_def split: if_splits list.splits sum.splits)
    then show ?thesis by (rule Suc.IH)
  next
    case False
    then have "g' = g\<lparr>g_world := (g_world g)\<lparr>w_servers := (w_servers (g_world g))(LOCAL := rd_delete [ADDRESS_KEY] (own_redis g))\<rparr>\<rparr>"
      using Suc.prems by (auto simp: act_simps own_redis_def simp del: rd_delete.simps)
    then show ?thesis using False records_left_delete[of "own_redis g" "[ADDRESS_KEY]"] by (simp add: own_redis_def del: rd_delete.simps)
  qed
qed (simp add: act_simps)

lemma remove_all_True:
  assumes "remove_all_replicas cenv g = (Inr True, g')"
  shows "records_left (own_redis g') = [] \<and> \<not> w_down (g_world g') LOCAL"
proof -
  obtain deadline n g1 where "removal_rounds cenv deadline n g1 = (Inr (Some True), g')"
    using assms by (auto simp: remove_all_replicas_def act_simps split: if_splits sum.splits prod.splits simp del: removal_rounds.simps)
  then show ?thesis by (rule removal_rounds_True)
qed

text \<open>What the end of a stop runs changes no Redis server.\<close>

lemma run_cmd_servers: "keeps (\<lambda>w. w_servers w = S) (run_cmd env cmd host user)"
  by (rule keeps_run_cmd) simp

lemma keeps_on_world_lift: "keeps P m \<Longrightarrow> keeps (\<lambda>g. P (g_world g)) (on_world m)"
  by (auto intro!: keeps_on_world dest: keepsD)

lemma docker_end_keeps: "(\<And>cmd host user. keeps P (run_cmd env cmd host user)) \<Longrightarrow> keeps P (docker_end env host c step errors)"
  unfolding docker_end_def by (auto intro!: pres_intros)

lemma stop_redis_servers: "keeps (\<lambda>g. w_servers (g_world g) = S) (stop_redis_containers cenv)"
  unfolding stop_redis_containers_def stop_redis_def
  by (auto intro!: pres_intros keeps_on_world_lift docker_end_keeps run_cmd_servers keeps_modify simp: forget_redis_def
      simp del: fold_each.simps)

lemma frame_stop_redis: "keeps (\<lambda>g. g_supervisor g = s \<and> g_collectors g = k \<and> g_stopping g = b) (stop_redis_containers cenv)"
  unfolding stop_redis_containers_def stop_redis_def
  by (auto intro!: pres_intros keeps_on_world keeps_modify simp: forget_redis_def simp del: fold_each.simps)

lemma never_raises_fold_each [calm_intros]: "(\<And>x b. never_raises (f x b)) \<Longrightarrow> never_raises (fold_each xs b f)"
  by (induction xs arbitrary: b) (auto intro: calm_intros)

lemma docker_end_calm [calm_intros]: "never_raises (docker_end env host c step errors)"
  unfolding docker_end_def by (cases step) (auto intro: calm_intros)

lemma stop_redis_calm [calm_intros]: "never_raises (stop_redis_containers cenv)"
  unfolding stop_redis_containers_def stop_redis_def by (auto intro!: calm_intros simp del: fold_each.simps split: prod.split)

lemma stop_collectors_calm [calm_intros]: "never_raises (stop_metrics_collectors cenv)"
  unfolding stop_metrics_collectors_def stop_collector_def by (auto intro!: calm_intros split: prod.split)

lemma stop_redis_each:
  assumes "fold_each owned failures (stop_redis cenv) g = (Inr [], g')"
  shows "failures = [] \<and> g_redis_containers g' = filter (\<lambda>(h, _). h \<notin> fst ` set owned) (g_redis_containers g)"
  using assms
proof (induction owned arbitrary: failures g)
  case (Cons oc owned)
  obtain h c where oc: "oc = (h, c)" by (cases oc)
  obtain failures1 g1 where one: "stop_redis cenv oc failures g = (Inr failures1, g1)" "fold_each owned failures1 (stop_redis cenv) g1 = (Inr [], g')"
    using Cons.prems by (auto simp: bnd_run split: sum.splits prod.splits)
  from Cons.IH[OF one(2)] have r: "failures1 = []" "g_redis_containers g' = filter (\<lambda>(h, _). h \<notin> fst ` set owned) (g_redis_containers g1)" by auto
  have "failures = [] \<and> g_redis_containers g1 = filter (\<lambda>(h', _). h' \<noteq> h) (g_redis_containers g)"
    using one(1) r(1) by (auto simp: stop_redis_def oc bnd_run on_world_run ret_run modify_run forget_redis_def split: sum.splits if_splits)
  then show ?case using r(2) oc by (auto intro: filter_cong)
qed (simp add: ret_run)

lemma stop_redis_all: "stop_redis_containers cenv g = (Inr [], g') \<Longrightarrow> g_redis_containers g' = []"
  by (auto simp: stop_redis_containers_def bnd_run read_run dest!: stop_redis_each) (auto simp: filter_empty_conv rev_image_eqI)

lemma run_cmd_state: "snd (run_cmd env cmd host user w) = w\<lparr>w_commands := w_commands w @ [machine_argv env (w_config w) cmd host user]\<rparr>"
  by (simp add: run_cmd_def subprocess_run_def bnd_run read_run ret_run raise_run split: proc_result.split)

text \<open>The commands run since the first \<open>n\<close> remove metrics collectors only.\<close>

definition only_collectors :: "env \<Rightarrow> nat \<Rightarrow> world \<Rightarrow> bool" where
  "only_collectors env n w \<longleftrightarrow> n \<le> length (w_commands w) \<and>
     (\<forall>cmd\<in>set (drop n (w_commands w)). \<exists>config host c. cmd = machine_argv env config [''docker'', ''rm'', ''-f'', c] host [])"

lemma only_collectors_rm: "keeps (only_collectors env n) (run_cmd env [''docker'', ''rm'', ''-f'', c] host [])"
proof (rule keepsI)
  fix w assume "only_collectors env n w"
  then show "only_collectors env n (snd (run_cmd env [''docker'', ''rm'', ''-f'', c] host [] w))"
    unfolding run_cmd_state only_collectors_def by auto
qed

lemma only_collectors_tell [pres_intros]: "keeps (\<lambda>g. only_collectors env n (g_world g)) (on_world (tell h f))"
  by (rule keeps_on_world) (simp add: tell_run only_collectors_def)

lemma only_collectors_remove_all:
  assumes "\<And>w. w_commands (c_meanwhile cenv w) = w_commands w"
  shows "keeps (\<lambda>g. only_collectors env n (g_world g)) (remove_all_replicas cenv)"
proof -
  let ?P = "\<lambda>g. only_collectors env n (g_world g)"
  have sleep: "keeps ?P (sleep_while_others_act cenv d)" for d
    by (rule keepsI) (simp add: sleep_run only_collectors_def assms)
  have "keeps ?P (removal_rounds cenv deadline k)" for deadline k
    by (induction k) (auto intro!: pres_intros sleep split: option.split list.split)
  then show ?thesis unfolding remove_all_replicas_def by (intro pres_intros)
qed

lemma only_collectors_stop: "keeps (\<lambda>g. only_collectors (c_env cenv) n (g_world g)) (stop_metrics_collectors cenv)"
  unfolding stop_metrics_collectors_def stop_collector_def
  by (auto intro!: pres_intros keeps_on_world_lift keeps_modify only_collectors_rm)

lemma stop_collectors_run: "\<exists>w. stop_metrics_collectors cenv g = (Inr (), g\<lparr>g_world := w, g_collectors := []\<rparr>) \<and> w_servers w = w_servers (g_world g)"
proof -
  let ?m = "for_each (g_collectors g) (stop_collector (c_env cenv))"
  have "keeps (\<lambda>w. w_servers w = w_servers (g_world g)) ?m"
    unfolding stop_collector_def by (auto intro!: pres_intros run_cmd_servers split: prod.split)
  then have "w_servers (snd (?m (g_world g))) = w_servers (g_world g)" by (auto dest: keepsD)
  moreover have "never_raises ?m" unfolding stop_collector_def by (auto intro!: calm_intros split: prod.split)
  then have "fst (?m (g_world g)) = Inr ()" using never_raisesD[of ?m "g_world g"] by fastforce
  ultimately show ?thesis by (intro exI[of _ "snd (?m (g_world g))"]) (simp add: stop_metrics_collectors_def act_simps)
qed

lemma clear_flag_run: "clear_flag g =
    (if w_down (g_world g) LOCAL then (Inr [''stopping flag: '' @ exn_str (RedisError LOCAL)], g)
     else (Inr [], g\<lparr>g_world := (g_world g)\<lparr>w_servers := (w_servers (g_world g))(LOCAL := clear_stopping (own_redis g))\<rparr>\<rparr>))"
  by (simp add: clear_flag_def catch_run bnd_run on_world_run tell_run ret_run own_redis_def)

lemma support_kept:
  assumes "stop_support_services cenv False g = (res, g')" "only_collectors (c_env cenv) n (g_world g)"
  shows "\<exists>failures. res = Inr failures \<and> failures \<noteq> [] \<and> g_collectors g' = [] \<and> g_supervisor g' = g_supervisor g \<and>
    g_redis_containers g' = g_redis_containers g \<and> only_collectors (c_env cenv) n (g_world g')"
proof -
  obtain fs g1 where flag: "clear_flag g = (Inr fs, g1)" "only_collectors (c_env cenv) n (g_world g1)" "g_supervisor g1 = g_supervisor g"
    "g_redis_containers g1 = g_redis_containers g"
    using assms(2) by (cases "w_down (g_world g) LOCAL") (simp_all add: clear_flag_run only_collectors_def)
  obtain w where stop: "stop_metrics_collectors cenv g1 = (Inr (), g1\<lparr>g_world := w, g_collectors := []\<rparr>)"
    using stop_collectors_run[of cenv g1] by blast
  have "only_collectors (c_env cenv) n w" using keepsD[OF only_collectors_stop[of cenv n], of g1] flag(2) stop by simp
  moreover have "stop_support_services cenv False g = (Inr (fs @ [''redis: kept for the next startup to reconcile'']), g1\<lparr>g_world := w, g_collectors := []\<rparr>)"
    using flag(1) stop by (simp add: stop_support_services_def bnd_run[of _ _ g] bnd_run[of _ _ g1] ret_run)
  ultimately show ?thesis using assms(1) flag by simp
qed

lemma support_removed:
  assumes "stop_support_services cenv True g = (res, g')" "\<not> w_down (g_world g) LOCAL" "records_left (own_redis g) = []"
  shows "\<exists>failures. res = Inr failures \<and> g_collectors g' = [] \<and> g_supervisor g' = g_supervisor g \<and>
    (failures = [] \<longrightarrow> g_redis_containers g' = []) \<and> records_left (own_redis g') = [] \<and> \<not> is_stopping (own_redis g')"
proof -
  let ?g1 = "g\<lparr>g_world := (g_world g)\<lparr>w_servers := (w_servers (g_world g))(LOCAL := clear_stopping (own_redis g))\<rparr>\<rparr>"
  obtain w where stop: "stop_metrics_collectors cenv ?g1 = (Inr (), ?g1\<lparr>g_world := w, g_collectors := []\<rparr>)" "w_servers w = w_servers (g_world ?g1)"
    using stop_collectors_run[of cenv ?g1] by blast
  let ?g2 = "?g1\<lparr>g_world := w, g_collectors := []\<rparr>"
  obtain errors g3 where fin: "stop_redis_containers cenv ?g2 = (Inr errors, g3)" using never_raisesD[OF stop_redis_calm] by blast
  have "stop_support_services cenv True g = (Inr errors, g3)"
    using assms(2) stop(1) fin by (simp add: stop_support_services_def bnd_run clear_flag_run ret_run)
  moreover have "g_supervisor g3 = g_supervisor g \<and> g_collectors g3 = []"
    using keepsD[OF frame_stop_redis[of "g_supervisor g" "[]" "g_stopping g" cenv], of ?g2] fin by simp
  moreover have "own_redis g3 = clear_stopping (own_redis g)"
    using keepsD[OF stop_redis_servers[of "w_servers w" cenv], of ?g2] fin stop(2) by (simp add: own_redis_def)
  moreover have "records_left (clear_stopping (own_redis g)) = []" using assms(3) by (simp add: clear_stopping_def records_left_delete del: rd_delete.simps)
  moreover have "\<not> is_stopping (clear_stopping (own_redis g))" by (simp add: is_stopping_def clear_stopping_def rd_delete1_def rd_get_def)
  ultimately show ?thesis using assms(1) fin stop_redis_all[of cenv ?g2 g3] by auto
qed

text \<open>With a Docker that does what it is asked, nothing is reported.\<close>

definition docker_obeys :: "env \<Rightarrow> bool" where
  "docker_obeys env \<longleftrightarrow> (\<forall>before argv. \<exists>out err. e_subprocess env before argv = Done 0 out err)"

lemma obeyed_cmd:
  assumes "docker_obeys env"
  shows "\<exists>out err w'. run_cmd env cmd host user w = (Inr (0, out, err), w')"
proof -
  obtain out err where "e_subprocess env (w_commands w) (machine_argv env (w_config w) cmd host user) = Done 0 out err"
    using assms unfolding docker_obeys_def by blast
  then show ?thesis by (simp add: run_cmd_def subprocess_run_def bnd_run read_run ret_run)
qed

lemma obeyed_end:
  assumes "docker_obeys env"
  shows "\<exists>w'. docker_end env host c step errors w = (Inr errors, w')"
proof -
  obtain action flags where step: "step = (action, flags)" by (cases step)
  obtain out err w' where "run_cmd env ([''docker'', action] @ flags @ [c]) host [] w = (Inr (0, out, err), w')"
    using obeyed_cmd[OF assms] by blast
  then show ?thesis by (simp add: docker_end_def step catch_run bnd_run ret_run)
qed

lemma obeyed_stop_redis:
  assumes "docker_obeys (c_env cenv)"
  shows "\<exists>g'. stop_redis cenv owned failures g = (Inr failures, g')"
proof -
  obtain h c where oc: "owned = (h, c)" by (cases owned)
  obtain w1 where 1: "docker_end (c_env cenv) h c (''stop'', []) [] (g_world g) = (Inr [], w1)" using obeyed_end[OF assms] by blast
  obtain w2 where 2: "docker_end (c_env cenv) h c (''rm'', [''-v'']) [] w1 = (Inr [], w2)" using obeyed_end[OF assms] by blast
  show ?thesis by (simp add: oc stop_redis_def bnd_run on_world_run modify_run ret_run 1 2)
qed

lemma obeyed_stop_all: "docker_obeys (c_env cenv) \<Longrightarrow> \<exists>g'. fold_each owned failures (stop_redis cenv) g = (Inr failures, g')"
proof (induction owned arbitrary: g)
  case (Cons oc owned)
  obtain g1 where "stop_redis cenv oc failures g = (Inr failures, g1)" using obeyed_stop_redis[OF Cons.prems] by blast
  with Cons.IH[OF Cons.prems, of g1] show ?case by (auto simp: bnd_run)
qed (simp add: ret_run)

lemma support_obeyed:
  assumes "docker_obeys (c_env cenv)" "\<not> w_down (g_world g) LOCAL"
  shows "\<exists>g'. stop_support_services cenv True g = (Inr [], g')"
proof -
  let ?g1 = "g\<lparr>g_world := (g_world g)\<lparr>w_servers := (w_servers (g_world g))(LOCAL := clear_stopping (own_redis g))\<rparr>\<rparr>"
  obtain w where stop: "stop_metrics_collectors cenv ?g1 = (Inr (), ?g1\<lparr>g_world := w, g_collectors := []\<rparr>)"
    using stop_collectors_run[of cenv ?g1] by blast
  obtain g' where "stop_redis_containers cenv (?g1\<lparr>g_world := w, g_collectors := []\<rparr>) = (Inr [], g')"
    using obeyed_stop_all[OF assms(1), of "g_redis_containers g" "[]" "?g1\<lparr>g_world := w, g_collectors := []\<rparr>"]
    by (auto simp: stop_redis_containers_def bnd_run read_run)
  then show ?thesis using assms(2) stop by (simp add: stop_support_services_def bnd_run clear_flag_run ret_run)
qed

text \<open>C18: the controller's Redis outlives the records in it. A stop reports instead of raising, ends the
  supervised processes and removes the metrics collector, and it goes near the Redis container only
  when no record of a replica or a machine is left in it and the stopping flag is cleared; before
  that the only commands it runs remove collectors. When it reports nothing, all of it is gone.\<close>

theorem redis_outlives_the_records:
  assumes "stop_global cenv g = (res, g')" "\<not> g_stopping g" "\<And>w. w_commands (c_meanwhile cenv w) = w_commands w"
  shows "\<exists>failures. res = Inr failures \<and> sv_procs (g_supervisor g') = [] \<and> g_collectors g' = [] \<and>
    (failures = [] \<longrightarrow> g_redis_containers g' = []) \<and>
    (failures = [] \<or> g_redis_containers g' \<noteq> g_redis_containers g \<or>
       \<not> only_collectors (c_env cenv) (length (w_commands (g_world g))) (g_world g') \<longrightarrow>
     records_left (own_redis g') = [] \<and> \<not> is_stopping (own_redis g'))"
proof -
  let ?g0 = "g\<lparr>g_stopping := True, g_running := False\<rparr>" and ?n = "length (w_commands (g_world g))"
  obtain r g1 where r: "remove_all_replicas cenv ?g0 = (r, g1)" by (cases "remove_all_replicas cenv ?g0")
  let ?g2 = "g1\<lparr>g_supervisor := snd (terminate_all (g_supervisor g1))\<rparr>"
  have f: "g_redis_containers g1 = g_redis_containers g"
    using keepsD[OF frame_remove_all[of "g_supervisor ?g0" "g_redis_containers ?g0" "g_collectors ?g0" "g_stopping ?g0" cenv], of ?g0] r
    by (simp add: frame_def)
  have t: "sv_procs (g_supervisor ?g2) = []" by (simp add: terminate_all_def modify_run)
  have c: "only_collectors (c_env cenv) ?n (g_world ?g2)"
    using keepsD[OF only_collectors_remove_all[OF assms(3), of "c_env cenv" ?n], of ?g0] r by (simp add: only_collectors_def)
  define failures where "failures = (case r of Inr _ \<Rightarrow> [] | Inl e \<Rightarrow> [''replica removal: '' @ exn_str e])"
  define emptied where "emptied \<longleftrightarrow> r = Inr True"
  have run: "stop_global cenv g = (case stop_support_services cenv emptied ?g2 of
      (Inl e, g') \<Rightarrow> (Inl e, g') | (Inr more', g') \<Rightarrow> (Inr (failures @ more'), g'))"
    using assms(2) r unfolding failures_def emptied_def
    by (auto simp: stop_global_def bnd_run[of _ _ g] bnd_run[of _ _ ?g0] bnd_run[of _ _ g1] bnd_run[of _ _ ?g2] catch_run act_simps terminate_all_def
        split: sum.splits prod.splits)
  show ?thesis
  proof (cases emptied)
    case True
    then have e: "records_left (own_redis ?g2) = []" "\<not> w_down (g_world ?g2) LOCAL" "failures = []"
      using remove_all_True[of cenv ?g0 g1] r by (simp_all add: emptied_def own_redis_def failures_def)
    obtain res2 g3 where s: "stop_support_services cenv True ?g2 = (res2, g3)" by (cases "stop_support_services cenv True ?g2")
    from support_removed[OF s e(2,1)] show ?thesis using run assms(1) s t True e(3) by auto
  next
    case False
    obtain res2 g3 where s: "stop_support_services cenv False ?g2 = (res2, g3)" by (cases "stop_support_services cenv False ?g2")
    from support_kept[OF s c] show ?thesis using run assms(1) s t f False by auto
  qed
qed

text \<open>One replica, which the reconciler removes while the controller sleeps.\<close>

definition stopping_gc :: gc where
  "stopping_gc = (let g = delivery_gc (\<lambda>_. []) in g\<lparr>g_redis_containers := [(LOCAL, ''redis'')],
     g_world := (g_world g)\<lparr>w_servers := (\<lambda>_. rd_hset (instance_key ''writer-1'') ''agent_name'' (Raw ''writer'') empty_redis)\<rparr>\<rparr>)"

definition removing_cenv :: cenv where
  "removing_cenv = delivery_cenv (\<lambda>w. w\<lparr>w_servers := (\<lambda>_. empty_redis)\<rparr>)"

theorem redis_outlives_the_records_witness:
  "\<exists>g'. stop_global removing_cenv stopping_gc = (Inr [], g') \<and> g_redis_containers g' = [] \<and> records_left (own_redis g') = []"
proof -
  let ?g0 = "stopping_gc\<lparr>g_stopping := True, g_running := False\<rparr>"
  have "fst (remove_all_replicas removing_cenv ?g0) = Inr True" by code_simp
  then obtain g1 where one: "remove_all_replicas removing_cenv ?g0 = (Inr True, g1)" by (cases "remove_all_replicas removing_cenv ?g0") simp
  let ?g2 = "g1\<lparr>g_supervisor := snd (terminate_all (g_supervisor g1))\<rparr>"
  have up: "\<not> w_down (g_world ?g2) LOCAL" using remove_all_True[OF one] by simp
  have d: "docker_obeys (c_env removing_cenv)" by (simp add: docker_obeys_def removing_cenv_def delivery_cenv_def)
  obtain g' where two: "stop_support_services removing_cenv True ?g2 = (Inr [], g')" using support_obeyed[OF d up] by blast
  have three: "on_supervisor terminate_all g1 = (Inr (), ?g2)" by (simp add: on_supervisor_run terminate_all_def modify_run)
  have s: "\<not> g_stopping stopping_gc" by code_simp
  then have run: "stop_global removing_cenv stopping_gc = (Inr [], g')"
    by (simp add: stop_global_def bnd_run read_run modify_run catch_run ret_run one two three)
  have "w_commands (c_meanwhile removing_cenv w) = w_commands w" for w by (simp add: removing_cenv_def delivery_cenv_def)
  from redis_outlives_the_records[OF run s this] run show ?thesis by auto
qed

section \<open>Waiting for the fleet\<close>

text \<open>The Redis a replica reports to, and the status it has there.\<close>

definition reports_to :: "hash \<Rightarrow> string" where
  "reports_to replica = (if fld replica ''private_host'' = [] then LOCAL else fld replica ''private_host'')"

definition status_of :: "gc \<Rightarrow> hash \<Rightarrow> rtext option" where
  "status_of g replica = rd_get (status_key (fld replica ''address'')) (w_servers (g_world g) (reports_to replica))"

definition is_up :: "gc \<Rightarrow> hash \<Rightarrow> bool" where "is_up g replica \<longleftrightarrow> status_of g replica = Some (Raw ''healthy'')"

definition up_count :: "gc \<Rightarrow> hash list \<Rightarrow> string \<Rightarrow> int" where
  "up_count g replicas n = int (length (filter (\<lambda>rec. fld rec ''agent_name'' = n \<and> is_up g rec) replicas))"

text \<open>A reading of all replicas, against the servers as they are.\<close>

definition reads :: "gc \<Rightarrow> hash list \<Rightarrow> readiness \<Rightarrow> bool" where
  "reads g replicas seen \<longleftrightarrow> (\<forall>n. count_of (fst seen) n = up_count g replicas n) \<and>
     snd seen = map (\<lambda>rec. (rec, status_of g rec)) (filter (\<lambda>rec. \<not> is_up g rec) replicas)"

lemma machine_redis_host:
  "machine_redis_for_replica replica w = (Inr h, w') \<Longrightarrow> h = reports_to replica \<and> w_servers w' = w_servers w \<and> w_now w' = w_now w"
  by (auto simp: machine_redis_for_replica_def reports_to_def act_simps Let_def split: if_splits option.splits)

lemma count_of_update: "count_of (AList.update k v tally) n = (if n = k then v else count_of tally n)"
  by (simp add: count_of_def update_conv')

lemma check_readiness_reads:
  assumes "check_readiness replica seen g = (Inr seen', g')" "reads g xs seen"
  shows "reads g' (xs @ [replica]) seen' \<and> w_servers (g_world g') = w_servers (g_world g) \<and> w_now (g_world g') = w_now (g_world g)"
proof -
  obtain healthy pending where seen: "seen = (healthy, pending)" by (cases seen)
  obtain t where t: "need replica ''agent_name'' = Inr t"
    using assms(1) by (cases "need replica ''agent_name''") (auto simp: check_readiness_def seen Let_def bnd_run of_res_run)
  obtain r w where m: "machine_redis_for_replica replica (g_world g) = (r, w)" by (cases "machine_redis_for_replica replica (g_world g)")
  obtain h where r: "r = Inr h"
    using assms(1) t m by (cases r) (auto simp: check_readiness_def seen Let_def bnd_run of_res_run on_world_run)
  note n = machine_redis_host[OF m[unfolded r]]
  have "\<not> w_down w h"
    using assms(1) t m r by (cases "w_down w h") (auto simp: check_readiness_def seen Let_def bnd_run of_res_run on_world_run ask_run)
  then have run: "(seen', g') = (if is_up g replica
      then ((AList.update (fld replica ''agent_name'') (count_of healthy (fld replica ''agent_name'') + 1) healthy, pending),
        g\<lparr>g_world := w, g_last_status := AList.update (fld replica ''address'') (Raw ''healthy'') (g_last_status g)\<rparr>)
      else ((healthy, pending @ [(replica, status_of g replica)]), g\<lparr>g_world := w\<rparr>))"
    using assms(1) t m r n by (auto simp: check_readiness_def seen Let_def bnd_run of_res_run on_world_run ask_run modify_run ret_run is_up_def status_of_def)
  have w: "w_servers w = w_servers (g_world g)" "w_now w = w_now (g_world g)" using n by simp_all
  have g': "w_servers (g_world g') = w_servers (g_world g)" "w_now (g_world g') = w_now (g_world g)" using run w by (auto split: if_splits)
  then have "status_of g' = status_of g" "is_up g' = is_up g" by (simp_all add: status_of_def is_up_def fun_eq_iff)
  then show ?thesis using g' assms(2) run seen by (auto simp: reads_def up_count_def count_of_update split: if_splits)
qed

lemma check_readinesss_reads:
  assumes "fold_each ys seen check_readiness g = (Inr seen', g')" "reads g xs seen"
  shows "reads g' (xs @ ys) seen' \<and> w_servers (g_world g') = w_servers (g_world g) \<and> w_now (g_world g') = w_now (g_world g)"
  using assms
proof (induction ys arbitrary: xs seen g)
  case (Cons y ys)
  obtain seen1 g1 where one: "check_readiness y seen g = (Inr seen1, g1)" "fold_each ys seen1 check_readiness g1 = (Inr seen', g')"
    using Cons.prems(1) by (auto simp: bnd_run split: sum.splits prod.splits)
  from check_readiness_reads[OF one(1) Cons.prems(2)] Cons.IH[OF one(2), of "xs @ [y]"] show ?case by simp
qed (simp add: ret_run)

text \<open>What a round says, given what it read of the replicas there are.\<close>

definition round_says :: "(string \<times> int) list \<Rightarrow> gc \<Rightarrow> outlook \<Rightarrow> bool" where
  "round_says expected g o' \<longleftrightarrow> (\<exists>seen. reads g (list_replicas (own_redis g) None) seen \<and>
     (o' = AllHealthy \<and> lacking (fst seen) expected = [] \<or> o' = Verdict seen))"

lemma health_round_says:
  assumes "health_round expected deadline g = (Inr o', g')"
  shows "w_now (g_world g') = w_now (g_world g) \<and> (round_says expected g' o' \<or> o' = Waiting \<and> w_now (g_world g') < deadline)"
proof -
  obtain healthy pending g1 where f: "fold_each (list_replicas (own_redis g) None) ([], []) check_readiness g = (Inr (healthy, pending), g1)"
    using assms by (auto simp: health_round_def act_simps own_redis_def split: if_splits sum.splits prod.splits)
  have "reads g [] ([], [])" by (simp add: reads_def count_of_def up_count_def)
  from check_readinesss_reads[OF f this] have r: "reads g1 (list_replicas (own_redis g1) None) (healthy, pending)"
    "w_now (g_world g1) = w_now (g_world g)" by (auto simp: own_redis_def)
  have "g' = g1 \<and> (o' = AllHealthy \<and> lacking healthy expected = [] \<or> o' = Verdict (healthy, pending) \<or> o' = Waiting \<and> w_now (g_world g1) < deadline)"
    using assms f by (auto simp: health_round_def bnd_run on_world_ask_run ret_run raise_run read_run own_redis_def Let_def not_le split: if_splits)
  then show ?thesis using r by (auto simp: round_says_def)
qed

lemma health_rounds_say:
  assumes "health_rounds cenv expected deadline n g = (Inr o', g')" "\<And>w. w_now w \<le> w_now (c_meanwhile cenv w)"
    and "n \<noteq> 0" "deadline \<le> w_now (g_world g) + 2 * (of_nat n - 1)"
  shows "round_says expected g' o'"
  using assms(1,3,4)
proof (induction n arbitrary: g)
  case (Suc n)
  obtain o1 g1 where one: "health_round expected deadline g = (Inr o1, g1)"
    "(if o1 = Waiting then bnd (sleep_while_others_act cenv 2) (\<lambda>_. health_rounds cenv expected deadline n) else ret o1) g1 = (Inr o', g')"
    using Suc.prems(1) by (auto simp: bnd_run split: sum.splits prod.splits)
  note says = health_round_says[OF one(1)]
  show ?case
  proof (cases "o1 = Waiting")
    case True
    let ?g2 = "g1\<lparr>g_world := c_meanwhile cenv ((g_world g1)\<lparr>w_now := w_now (g_world g1) + 2\<rparr>)\<rparr>"
    have late: "w_now (g_world g) < deadline" using says True by (auto simp: round_says_def)
    then have "n \<noteq> 0" using Suc.prems(3) by (auto intro: ccontr)
    moreover have "w_now (g_world g) + 2 \<le> w_now (g_world ?g2)" using assms(2)[of "(g_world g1)\<lparr>w_now := w_now (g_world g1) + 2\<rparr>"] says by simp
    then have "deadline \<le> w_now (g_world ?g2) + 2 * (of_nat n - 1)" using Suc.prems(3) by simp
    moreover have "health_rounds cenv expected deadline n ?g2 = (Inr o', g')" using one(2) True by (simp add: bnd_run sleep_run)
    ultimately show ?thesis by (intro Suc.IH)
  next
    case False
    then show ?thesis using one(2) says by (auto simp: ret_run)
  qed
qed simp

lemma expected_counts_are:
  assumes "expected_counts g = (Inr expected, g')" "distinct (map spec_name (w_specs (g_world g)))"
  shows "g' = g \<and> (\<forall>n want. map_of expected n = Some want \<longleftrightarrow>
    (\<exists>sp\<in>set (w_specs (g_world g)). spec_name sp = n \<and> (\<exists>c. replica_count sp = Some c \<and> want = get_desired (own_redis g) n c)))"
proof -
  let ?f = "\<lambda>sp acc. case replica_count sp of None \<Rightarrow> ret acc
    | Some c \<Rightarrow> bnd (on_world (ask LOCAL (\<lambda>r. get_desired r (spec_name sp) c))) (\<lambda>want. ret (AList.update (spec_name sp) want acc))"
  have "fold_each specs acc ?f g = (Inr expected, g') \<Longrightarrow> distinct (map spec_name specs) \<Longrightarrow> g' = g \<and> (\<forall>n want. map_of expected n = Some want \<longleftrightarrow>
      (\<exists>sp\<in>set specs. spec_name sp = n \<and> (\<exists>c. replica_count sp = Some c \<and> want = get_desired (own_redis g) n c)) \<or>
      map_of acc n = Some want \<and> (\<forall>sp\<in>set specs. spec_name sp = n \<longrightarrow> replica_count sp = None))" for specs acc
  proof (induction specs arbitrary: acc)
    case (Cons sp specs)
    show ?case
    proof (cases "replica_count sp")
      case None
      then show ?thesis using Cons by (auto simp: bnd_run ret_run)
    next
      case (Some c)
      then have run: "fold_each specs (AList.update (spec_name sp) (get_desired (own_redis g) (spec_name sp) c) acc) ?f g = (Inr expected, g')"
        using Cons.prems(1) by (auto simp: bnd_run ret_run on_world_ask_run own_redis_def split: if_splits)
      have "\<forall>sp'\<in>set specs. spec_name sp' \<noteq> spec_name sp" using Cons.prems(2) by (simp add: image_iff) metis
      with Cons.IH[OF run] Cons.prems(2) Some show ?thesis by (auto simp: update_conv' split: if_splits)
    qed
  qed (auto simp: ret_run)
  from this[of "w_specs (g_world g)" "[]"] assms show ?thesis by (simp add: expected_counts_def bnd_run read_run)
qed

lemma expected_distinct:
  assumes "expected_counts g = (Inr expected, g')"
  shows "distinct (map fst expected)"
proof -
  have "fold_each specs acc (\<lambda>sp acc. case replica_count sp of None \<Rightarrow> ret acc
      | Some c \<Rightarrow> bnd (on_world (ask LOCAL (\<lambda>r. get_desired r (spec_name sp) c))) (\<lambda>want. ret (AList.update (spec_name sp) want acc))) g =
      (Inr expected, g') \<Longrightarrow> distinct (map fst acc) \<Longrightarrow> distinct (map fst expected)" for specs acc g
    by (induction specs arbitrary: acc g) (auto simp: act_simps distinct_update split: option.splits sum.splits prod.splits if_splits)
  from this[of "w_specs (g_world g)" "[]" g] assms show ?thesis by (simp add: expected_counts_def bnd_run read_run)
qed

text \<open>C19: a deploy that is reported as up has its fleet: every agent has as many healthy replicas as
  are desired of it, or, after the timeout, at least that many records of which all that are
  published are healthy and the rest are still being launched.\<close>

theorem deploy_is_up:
  assumes "wait_for_healthy cenv g = (Inr (), g')" "\<And>w. w_now w \<le> w_now (c_meanwhile cenv w)"
    and "distinct (map spec_name (w_specs (g_world g)))" "\<And>sp c. sp \<in> set (w_specs (g_world g)) \<Longrightarrow> replica_count sp = Some c \<Longrightarrow> 0 \<le> c"
    and "sp \<in> set (w_specs (g_world g))" "replica_count sp = Some c"
  defines "want \<equiv> get_desired (own_redis g) (spec_name sp) c" and "replicas \<equiv> list_replicas (own_redis g') None"
  shows "want \<le> up_count g' replicas (spec_name sp) \<or>
    want \<le> records_of (own_redis g') (spec_name sp) \<and> (\<forall>rec\<in>set replicas. fld rec ''agent_name'' = spec_name sp \<longrightarrow> is_up g' rec)"
proof -
  let ?start = "w_now (g_world g)" and ?T = "of_int CONTROLLER_READY_TIMEOUT_SECONDS :: rat" and ?n = "Suc (nat (CONTROLLER_READY_TIMEOUT_SECONDS div 2))"
  obtain expected where ex: "expected_counts g = (Inr expected, g)"
    using assms(1) expected_counts_are[OF _ assms(3)] by (auto simp: wait_for_healthy_def bnd_run split: sum.splits prod.splits)
  note counts = expected_counts_are[OF ex assms(3)]
  have want: "(spec_name sp, want) \<in> set expected" using counts assms(5,6) unfolding want_def by (blast intro: map_of_SomeD)
  show ?thesis
  proof (cases "sum_list (map snd expected) = 0 \<and> w_specs (g_world g) \<noteq> []")
    case True
    have "0 \<le> v" if "(n, v) \<in> set expected" for n v
    proof -
      have "map_of expected n = Some v" using expected_distinct[OF ex] that by simp
      then obtain sp' c' where "sp' \<in> set (w_specs (g_world g))" "replica_count sp' = Some c'" "v = get_desired (own_redis g) n c'" using counts by blast
      then show ?thesis using assms(4) by (simp add: get_desired_nonneg)
    qed
    then have "\<And>v. v \<in> set (map snd expected) \<Longrightarrow> 0 \<le> v" by auto
    then have "\<forall>v\<in>set (map snd expected). v = 0" using True sum_list_nonneg_eq_0_iff[of "map snd expected"] by blast
    then have "want = 0" using want by force
    then show ?thesis by (simp add: up_count_def)
  next
    case False
    then obtain o' g1 where run: "health_rounds cenv expected (?start + ?T) ?n g = (Inr o', g1)"
      "(case o' of Verdict seen \<Rightarrow> health_verdict_of cenv ?start expected seen | _ \<Rightarrow> ret ()) g1 = (Inr (), g')"
      using assms(1) ex by (auto simp: wait_for_healthy_def bnd_run read_run simp del: health_rounds.simps split: sum.splits prod.splits if_splits)
    have "round_says expected g1 o'"
      by (rule health_rounds_say[OF run(1) assms(2)]) (simp_all add: CONTROLLER_READY_TIMEOUT_SECONDS_def)
    then obtain seen where seen: "reads g1 (list_replicas (own_redis g1) None) seen"
      "o' = AllHealthy \<and> lacking (fst seen) expected = [] \<or> o' = Verdict seen" unfolding round_says_def by blast
    then show ?thesis
    proof (elim disjE conjE)
      assume "o' = AllHealthy" "lacking (fst seen) expected = []"
      then show ?thesis using run(2) seen(1) want
        by (auto simp: ret_run lacking_def reads_def replicas_def filter_empty_conv not_less)
    next
      assume o': "o' = Verdict seen"
      obtain healthy pending where hp: "seen = (healthy, pending)" by (cases seen)
      have g': "g' = g1" "agents_failed (own_redis g1) seen expected = []"
        using run(2) o' hp by (auto simp: health_verdict_of_def act_simps own_redis_def split: if_splits sum.splits prod.splits)
      have "want \<le> count_of healthy (spec_name sp) \<or> want \<le> records_of (own_redis g1) (spec_name sp) \<and>
          (\<forall>(rec, _)\<in>set pending. fld rec ''agent_name'' \<noteq> spec_name sp)"
        using g'(2) want by (fastforce simp: agents_failed_def hp lacking_def filter_empty_conv not_less)
      then show ?thesis using seen(1) unfolding g'(1) replicas_def by (auto simp: reads_def hp)
    qed
  qed
qed

definition fleet_gc :: gc where
  "fleet_gc = (let g = delivery_gc (\<lambda>_. []) in g\<lparr>g_world := (g_world g)\<lparr>w_specs := [[(''name'', VStr ''writer''), (''replicas'', VInt 1)]],
     w_servers := (\<lambda>_. rd_set (status_key ''h:1'') (Raw ''healthy'') (rd_hset_multiple (instance_key ''writer-1'')
       [(''agent_name'', Raw ''writer''), (''address'', Raw ''h:1'')] empty_redis))\<rparr>\<rparr>)"

theorem deploy_is_up_witness:
  "\<exists>g'. wait_for_healthy (delivery_cenv id) fleet_gc = (Inr (), g') \<and>
     (1 \<le> up_count g' (list_replicas (own_redis g') None) ''writer'' \<or>
      1 \<le> records_of (own_redis g') ''writer'' \<and>
        (\<forall>rec\<in>set (list_replicas (own_redis g') None). fld rec ''agent_name'' = ''writer'' \<longrightarrow> is_up g' rec))"
proof -
  have "fst (wait_for_healthy (delivery_cenv id) fleet_gc) = Inr ()" by code_simp
  then obtain g' where run: "wait_for_healthy (delivery_cenv id) fleet_gc = (Inr (), g')" by (cases "wait_for_healthy (delivery_cenv id) fleet_gc") simp
  let ?sp = "[(''name'', VStr ''writer''), (''replicas'', VInt 1)]"
  have "w_specs (g_world fleet_gc) = [?sp]" by code_simp
  moreover have "replica_count ?sp = Some 1" "spec_name ?sp = ''writer''" "get_desired (own_redis fleet_gc) ''writer'' 1 = 1" by code_simp+
  moreover have "w_now w \<le> w_now (c_meanwhile (delivery_cenv id) w)" for w by (simp add: delivery_cenv_def)
  ultimately show ?thesis using deploy_is_up[OF run, of ?sp 1] run by auto
qed

section \<open>A failed start\<close>

definition no_processes :: "gc \<Rightarrow> bool" where
  "no_processes g \<longleftrightarrow> sv_procs (g_supervisor g) = [] \<and> g_collectors g = []"

lemma no_processes_world [pres_intros]: "keeps no_processes (on_world m)"
  by (rule keeps_on_world) (simp add: no_processes_def)

lemma no_processes_stop: "keeps no_processes (stop_redis_containers cenv)"
  using frame_stop_redis[of _ _ _ cenv] unfolding keeps_def no_processes_def by metis

lemma no_processes_redis: "keeps no_processes (launch_redis_containers cenv)"
proof -
  have "keeps no_processes (run_redis cenv p)" for p
    unfolding run_redis_def Let_def by (auto intro!: pres_intros no_processes_stop keeps_modify simp: no_processes_def)
  moreover have "keeps no_processes (attach_redis cenv p)" for p
    unfolding attach_redis_def by (auto intro!: pres_intros keeps_modify simp: no_processes_def split: exn.split)
  ultimately show ?thesis unfolding launch_redis_containers_def Let_def by (intro pres_intros)
qed

lemma undo_run: "\<exists>g'. undo_support_services cenv g = (Inr (), g') \<and> g_collectors g' = [] \<and> g_supervisor g' = g_supervisor g \<and>
  (docker_obeys (c_env cenv) \<longrightarrow> g_redis_containers g' = [])"
proof -
  obtain w where stop: "stop_metrics_collectors cenv g = (Inr (), g\<lparr>g_world := w, g_collectors := []\<rparr>)" using stop_collectors_run[of cenv g] by blast
  let ?g1 = "g\<lparr>g_world := w, g_collectors := []\<rparr>"
  obtain errors g2 where fin: "stop_redis_containers cenv ?g1 = (Inr errors, g2)" using never_raisesD[OF stop_redis_calm] by blast
  have "g_supervisor g2 = g_supervisor g \<and> g_collectors g2 = []"
    using keepsD[OF frame_stop_redis[of "g_supervisor g" "[]" "g_stopping g" cenv], of ?g1] fin by simp
  moreover have "g_redis_containers g2 = []" if d: "docker_obeys (c_env cenv)"
  proof -
    obtain g3 where "stop_redis_containers cenv ?g1 = (Inr [], g3)"
      using obeyed_stop_all[OF d, of "g_redis_containers g" "[]" ?g1] by (auto simp: stop_redis_containers_def bnd_run read_run)
    then show ?thesis using fin stop_redis_all by simp
  qed
  ultimately show ?thesis using stop fin by (simp add: undo_support_services_def bnd_run catch_run ret_run)
qed


lemma stale_quiet: "keeps (same_but_commands w0) (for_each xs (remove_stale env))"
  unfolding remove_stale_def by (intro keeps_for_each keeps_catch keeps_bnd quiet) (auto intro: pres_intros quiet)

text \<open>A start whose config has an empty \<open>redis:\<close> section.\<close>

definition empty_redis_gc :: gc where
  "empty_redis_gc = (let g = delivery_gc (\<lambda>_. []) in g\<lparr>g_world := (g_world g)\<lparr>w_config := [(''redis'', VNone)]\<rparr>\<rparr>)"


text \<open>\<open>sys.exit\<close> is no \<open>Exception\<close>, so nothing is undone when a Redis that was just launched never
  answers: its container stays, and the next start refuses to go on because of it.\<close>

lemma poll_silent:
  assumes "\<And>t. \<not> e_redis_answers env t host"
  shows "\<exists>w'. poll_redis env host deadline n w = (Inl (TimeoutError (''Timed out connecting to Redis at '' @ host)), w')"
  by (induction n arbitrary: w) (simp_all add: bnd_run read_run raise_run modify_run attempt_run tell_run sleep_def assms)

lemma silent_redis_stays:
  assumes "docker_obeys (c_env cenv)" "\<And>t. \<not> e_redis_answers (c_env cenv) t LOCAL" "own_redis_port (w_config (g_world g)) = Inr p"
    and "fst (redis_container_running (c_env cenv) (redis_container_name (c_env cenv) LOCAL) (g_world g)) = Inr False"
  shows "\<exists>g'. launch_redis_containers cenv g = (Inr False, g') \<and>
    map_of (g_redis_containers g') LOCAL = Some (redis_container_name (c_env cenv) LOCAL)"
proof -
  let ?env = "c_env cenv" and ?c = "redis_container_name (c_env cenv) LOCAL"
  obtain w1 where 1: "redis_container_running ?env ?c (g_world g) = (Inr False, w1)"
    using assms(4) by (cases "redis_container_running ?env ?c (g_world g)") simp
  obtain o2 e2 w2 where 2: "run_cmd ?env [''docker'', ''network'', ''create'', LOCAL_NETWORK] LOCAL [] w1 = (Inr (0, o2, e2), w2)"
    using obeyed_cmd[OF assms(1)] by blast
  obtain o3 e3 w3 where 3: "run_cmd ?env (redis_run_args ?env p) LOCAL [] w2 = (Inr (0, o3, e3), w3)"
    using obeyed_cmd[OF assms(1)] by blast
  let ?g3 = "g\<lparr>g_world := w3, g_redis_containers := AList.update LOCAL ?c (g_redis_containers g)\<rparr>"
  have run: "run_redis cenv p (g\<lparr>g_world := w1\<rparr>) = (Inr True, ?g3)"
    by (simp add: run_redis_def Let_def bnd_run on_world_run catch_run ret_run modify_run 2 3)
  obtain w4 where 4: "poll_redis ?env LOCAL (w_now w3 + 30) 31 (w3\<lparr>w_redis_ports := (w_redis_ports w3)(LOCAL \<mapsto> p)\<rparr>) =
      (Inl (TimeoutError (''Timed out connecting to Redis at '' @ LOCAL)), w4)" using poll_silent[OF assms(2)] by blast
  have "attach_redis cenv p ?g3 = (Inr False, ?g3\<lparr>g_world := w4\<rparr>)"
    using 4 by (simp add: attach_redis_def wait_for_redis_def bnd_run modify_run catch_run on_world_run read_run ret_run del: poll_redis.simps)
  then have "launch_redis_containers cenv g = (Inr False, ?g3\<lparr>g_world := w4\<rparr>)"
    using run 1 assms(3) by (simp add: launch_redis_containers_def Let_def bnd_run read_run of_res_run on_world_run ret_run)
  then show ?thesis by (simp add: update_conv')
qed

end
