(* ===== verification/Telemetry_Spans.thy ===== *)
theory Telemetry_Spans
  imports Telemetry_Queue
begin

text \<open>
  What the rows of the telemetry queue become: spans (\<open>otlp_exporter/trace_convert.py\<close>), metrics
  (\<open>otlp_exporter/metric_convert.py\<close>) and log records (\<open>otlp_exporter/log_convert.py\<close>). The classes of
  the OpenTelemetry SDK they are built with are records of what is put in them.
\<close>

section \<open>Ids and times\<close>

text \<open>\<open>int(s, 16)\<close>: spaces around it, a sign, \<open>0x\<close>, and single underscores between digits.\<close>

definition hex_val :: "char \<Rightarrow> nat option" where
  "hex_val c = (let n = of_char c :: nat in
     if 48 \<le> n \<and> n \<le> 57 then Some (n - 48) else if 97 \<le> n \<and> n \<le> 102 then Some (n - 87)
     else if 65 \<le> n \<and> n \<le> 70 then Some (n - 55) else None)"

fun parse_hex :: "bool \<Rightarrow> nat \<Rightarrow> string \<Rightarrow> nat option" where
  "parse_hex ok acc [] = (if ok then Some acc else None)"
| "parse_hex ok acc (c # cs) = (case hex_val c of
       Some d \<Rightarrow> parse_hex True (16 * acc + d) cs
     | None \<Rightarrow> if c = CHR ''_'' \<and> ok then parse_hex False acc cs else None)"

definition hex_digits :: "string \<Rightarrow> nat option" where
  "hex_digits s = (if prefix ''0x'' s \<or> prefix ''0X'' s
     then parse_hex False 0 (if prefix ''_'' (drop 2 s) then drop 3 s else drop 2 s) else parse_hex False 0 s)"

definition hex_int :: "string \<Rightarrow> exn + int" where
  "hex_int s = (let t = strip s; negative = prefix ''-'' t in
     case hex_digits (if negative \<or> prefix ''+'' t then tl t else t) of
       None \<Rightarrow> Inl (ValueError ''invalid literal for int() with base 16'')
     | Some n \<Rightarrow> Inr (if negative then - int n else int n))"

text \<open>The ids are text; what is stored of them is not JSON, unless it is all digits.\<close>

definition hex_cell :: "cell \<Rightarrow> exn + int" where
  "hex_cell c = (case c of
       CText (Raw s) \<Rightarrow> hex_int s
     | CText (Doc (VInt i)) \<Rightarrow> hex_int (str_int i)
     | CText _ \<Rightarrow> Inl (ValueError ''invalid literal for int() with base 16'')
     | _ \<Rightarrow> Inl (TypeError ''int() can't convert non-string with explicit base''))"

definition cell_truthy :: "cell \<Rightarrow> bool" where
  "cell_truthy c = (case c of Null \<Rightarrow> False | CText t \<Rightarrow> text_truthy t | CNum x \<Rightarrow> fl_truthy x | CInt i \<Rightarrow> i \<noteq> 0 | CHash _ \<Rightarrow> True)"

definition cell_or :: "cell \<Rightarrow> cell \<Rightarrow> cell" where "cell_or a b = (if cell_truthy a then a else b)"

definition text_cell :: "string \<Rightarrow> cell" where "text_cell s = CText (Raw s)"

text \<open>\<open>round(float(unix_seconds) * 1e9)\<close>.\<close>

definition seconds_to_nanos :: "pyfloat \<Rightarrow> exn + int" where
  "seconds_to_nanos x = fl_round (fl_times x (Fin 1000000000))"

definition to_epoch_nanos :: "cell \<Rightarrow> exn + int option" where
  "to_epoch_nanos c = (case c of
       Null \<Rightarrow> Inr None
     | CNum x \<Rightarrow> map_sum id Some (seconds_to_nanos x)
     | CInt i \<Rightarrow> map_sum id Some (seconds_to_nanos (Fin (of_int i)))
     | CText t \<Rightarrow> (case float_text t of None \<Rightarrow> Inl (ValueError ''could not convert string to float'')
         | Some x \<Rightarrow> map_sum id Some (seconds_to_nanos x))
     | CHash _ \<Rightarrow> Inl (TypeError ''float() argument''))"

section \<open>Spans\<close>

datatype span_status = Unset | ErrorStatus cell

record span_event =
  se_name :: string
  se_attributes :: row
  se_time :: "int option"

record span =
  sp_name :: cell
  sp_trace :: int
  sp_id :: int
  sp_parent :: "int option"
  sp_attributes :: row
  sp_events :: "span_event list"
  sp_status :: span_status
  sp_start :: "int option"
  sp_end :: "int option"

text \<open>The attributes of a span and the columns they are read from; one that is NULL is left out.\<close>

definition SPAN_ATTRIBUTES :: "(string \<times> string) list" where
  "SPAN_ATTRIBUTES =
     [(''gen_ai.request.model'', ''model''), (''prompt_name'', ''prompt_name''), (''prompt_version'', ''prompt_version''),
      (''cpu'', ''cpu''), (''gpu'', ''gpu''), (''execution_time_ms'', ''execution_time_ms''), (''queue_time_ms'', ''queue_time_ms''),
      (''gen_ai.usage.input_tokens'', ''input_token_count''), (''gen_ai.usage.output_tokens'', ''output_token_count''),
      (''token_count'', ''token_count''), (''gen_ai.prompt'', ''input''), (''gen_ai.completion'', ''output''),
      (''project_id'', ''project_id''), (''gen_ai.agent.id'', ''agent_id''), (''error_count'', ''errors''),
      (''server_cost'', ''server_cost''), (''token_cost'', ''token_cost''), (''gen_ai.usage.cost'', ''total_cost''),
      (''gen_ai.usage.cache_read.input_tokens'', ''cached_tokens''), (''cache_hit_ratio'', ''cache_hit_ratio'')]"

definition present :: "row \<Rightarrow> row" where "present cells = filter (\<lambda>(_, c). c \<noteq> Null) cells"

definition span_attributes :: "row \<Rightarrow> row" where
  "span_attributes r = present (map (\<lambda>(name, column). (name, cell_of r column)) SPAN_ATTRIBUTES)"

text \<open>The ids of a row: its trace, its span and, where it has one, its parent's; a parent of 0 is none.\<close>

definition span_ids :: "rtext \<Rightarrow> row \<Rightarrow> exn + int \<times> int \<times> int option" where
  "span_ids k r =
     res_bnd (hex_cell (cell_of r ''session_id'')) (\<lambda>trace.
     res_bnd (hex_cell (CText k)) (\<lambda>sid.
     res_bnd (if cell_truthy (cell_of r ''parent_id'') then map_sum id Some (hex_cell (cell_of r ''parent_id'')) else Inr None) (\<lambda>parent.
     Inr (trace, sid, if parent = Some 0 then None else parent))))"

definition failure_event :: "row \<Rightarrow> exn + span_event list \<times> span_status" where
  "failure_event r =
     (if cell_truthy (cell_of r ''failed'') then
        res_bnd (to_epoch_nanos (cell_of r ''finished_at'')) (\<lambda>at_time.
        Inr ([\<lparr>se_name = ''exception'', se_attributes = (''exception.message'', cell_or (cell_of r ''error_message'') (text_cell [])) #
            (if cell_truthy (cell_of r ''error_name'') then [(''exception.type'', cell_of r ''error_name'')] else []),
            se_time = at_time\<rparr>], ErrorStatus (cell_of r ''error_message'')))
      else Inr ([], Unset))"

definition trace_row_to_span :: "rtext \<times> row \<Rightarrow> exn + span" where
  "trace_row_to_span kr = (case kr of (k, r) \<Rightarrow>
     res_bnd (span_ids k r) (\<lambda>(trace, sid, parent).
     res_bnd (failure_event r) (\<lambda>(events, status).
     res_bnd (to_epoch_nanos (cell_of r ''started_at'')) (\<lambda>start.
     res_bnd (to_epoch_nanos (cell_of r ''finished_at'')) (\<lambda>finish.
     Inr \<lparr>sp_name = cell_or (cell_of r ''name'') (cell_or (cell_of r ''agent_id'') (text_cell ''unknown_agent'')),
       sp_trace = trace, sp_id = sid, sp_parent = parent, sp_attributes = span_attributes r, sp_events = events,
       sp_status = status, sp_start = start, sp_end = finish\<rparr>)))))"

text \<open>\<open>(i & (2**n - 1)) or 1\<close>: an id the encoder takes.\<close>

definition fitting_id :: "nat \<Rightarrow> int \<Rightarrow> int" where
  "fitting_id n i = (let low = i mod 2 ^ n in if low = 0 then 1 else low)"

definition invalid_row_placeholder_span :: "rtext \<times> row \<Rightarrow> string \<Rightarrow> exn + span" where
  "invalid_row_placeholder_span kr reason = (case kr of (k, r) \<Rightarrow>
     res_bnd (hex_cell (cell_of r ''session_id'')) (\<lambda>trace.
     res_bnd (hex_cell (CText k)) (\<lambda>sid.
     res_bnd (to_epoch_nanos (cell_of r ''started_at'')) (\<lambda>start.
     res_bnd (to_epoch_nanos (cell_of r ''finished_at'')) (\<lambda>finish.
     Inr \<lparr>sp_name = text_cell ''canyonos.invalid_span'', sp_trace = fitting_id 128 trace, sp_id = fitting_id 64 sid, sp_parent = None,
       sp_attributes = [(''canyonos.export.invalid'', CInt 1), (''canyonos.export.error'', text_cell reason), (''canyonos.future_id'', CText k)],
       sp_events = [], sp_status = ErrorStatus (text_cell (''span could not be exported: '' @ reason)),
       sp_start = start, sp_end = finish\<rparr>)))))"

section \<open>Metrics\<close>

datatype metric_kind = Gauge | Sum "int option"

record metric =
  me_name :: string
  me_unit :: string
  me_value :: val
  me_kind :: metric_kind
  me_time :: "int option"
  me_attributes :: row

record resource_metrics =
  rm_attributes :: row
  rm_metrics :: "metric list"

definition MACHINE_GAUGES :: "(string \<times> string \<times> string) list" where
  "MACHINE_GAUGES =
     [(''cpu_percent'', ''canyonos.machine.cpu.utilization'', ''%''), (''cpu_available_percent'', ''canyonos.machine.cpu.available'', ''%''),
      (''cpu_pressure'', ''canyonos.machine.cpu.pressure'', ''1''), (''memory_percent'', ''canyonos.machine.memory.utilization'', ''%''),
      (''memory_used_bytes'', ''canyonos.machine.memory.used'', ''By''), (''memory_available_bytes'', ''canyonos.machine.memory.available'', ''By''),
      (''memory_pressure'', ''canyonos.machine.memory.pressure'', ''1''), (''gpu_percent'', ''canyonos.machine.gpu.utilization'', ''%''),
      (''gpu_memory_used_bytes'', ''canyonos.machine.gpu.memory.used'', ''By''),
      (''gpu_memory_available_bytes'', ''canyonos.machine.gpu.memory.available'', ''By''), (''disk_percent'', ''canyonos.machine.disk.utilization'', ''%''),
      (''disk_free_bytes'', ''canyonos.machine.disk.free'', ''By''), (''disk_read_bytes_per_sec'', ''canyonos.machine.disk.read'', ''By/s''),
      (''disk_write_bytes_per_sec'', ''canyonos.machine.disk.write'', ''By/s''), (''network_rx_bytes_per_sec'', ''canyonos.machine.network.rx'', ''By/s''),
      (''network_tx_bytes_per_sec'', ''canyonos.machine.network.tx'', ''By/s''), (''uptime_seconds'', ''canyonos.machine.uptime'', ''s'')]"

definition CAPACITY_GAUGES :: "(string \<times> string \<times> string) list" where
  "CAPACITY_GAUGES =
     [(''cpu_count'', ''canyonos.machine.cpu.count'', ''{cpu}''), (''memory_total_bytes'', ''canyonos.machine.memory.total'', ''By''),
      (''disk_total_bytes'', ''canyonos.machine.disk.total'', ''By'')]"

definition AGENT_GAUGES :: "(string \<times> string \<times> string) list" where
  "AGENT_GAUGES = [(''queue_length'', ''canyonos.agent.queue.length'', ''{item}''), (''draining'', ''canyonos.agent.draining'', ''1'')]"

definition AGENT_SUMS :: "(string \<times> string \<times> string) list" where
  "AGENT_SUMS =
     [(''requests_served'', ''canyonos.agent.requests'', ''{request}''), (''requests_completed'', ''canyonos.agent.requests.completed'', ''{request}''),
      (''full_failures'', ''canyonos.agent.failures'', ''{failure}'')]"

text \<open>\<open>float(s)\<close> of a text that is not JSON: spaces around it, a sign, \<open>inf\<close> and \<open>nan\<close>, digits with
  underscores, a point and an exponent; what is beyond the largest float is infinite.\<close>

definition float_decimal :: "string \<Rightarrow> string \<Rightarrow> int \<Rightarrow> rat option" where
  "float_decimal whole fraction e =
     (let digits = (\<lambda>s. if s = [] then Some 0 else parse_digits False 0 s); shift = e - int (length (filter is_digit fraction)) in
      if whole = [] \<and> fraction = [] then None
      else case (digits whole, digits fraction) of
          (Some n, Some f) \<Rightarrow> Some (of_nat (n * 10 ^ length (filter is_digit fraction) + f) *
            (if 0 \<le> shift then 10 ^ nat shift else 1 / 10 ^ nat (- shift)))
        | _ \<Rightarrow> None)"

definition float_unsigned :: "string \<Rightarrow> pyfloat option" where
  "float_unsigned s =
     (if s = ''inf'' \<or> s = ''infinity'' then Some PInf else if s = ''nan'' then Some NaN
      else let (mantissa, e) = (case split_first ''e'' s of None \<Rightarrow> (s, Some 0)
             | Some (m, x) \<Rightarrow> (m, if strip x = x then int_str x else None));
               (whole, fraction) = (case split_first ''.'' mantissa of None \<Rightarrow> (mantissa, []) | Some (w, f) \<Rightarrow> (w, f))
           in (case e of None \<Rightarrow> None | Some x \<Rightarrow> map_option (\<lambda>q. if 2 ^ 1024 - 2 ^ 970 \<le> q then PInf else Fin q) (float_decimal whole fraction x)))"

definition float_str :: "string \<Rightarrow> pyfloat option" where
  "float_str s = (let t = lower (strip s) in
     if prefix ''-'' t then map_option fl_neg (float_unsigned (tl t))
     else float_unsigned (if prefix ''+'' t then tl t else t))"

text \<open>\<open>_coerce_number\<close> of a text and of a JSON value; only a value too large for a float raises.\<close>

definition as_number :: "pyfloat \<Rightarrow> val" where
  "as_number x = (case x of Fin q \<Rightarrow> if is_whole x then VInt \<lfloor>q\<rfloor> else VFloat x | _ \<Rightarrow> VFloat x)"

definition coerce_text :: "rtext option \<Rightarrow> val option" where
  "coerce_text t = (case t of None \<Rightarrow> None | Some u \<Rightarrow> map_option as_number (float_text u))"

definition coerce_val :: "val \<Rightarrow> exn + val option" where
  "coerce_val v = (case v of
       VStr s \<Rightarrow> Inr (map_option as_number (float_str s))
     | _ \<Rightarrow> if py_num v = None then Inr None else res_bnd (as_float v) (\<lambda>x. Inr (Some (as_number x))))"

definition readings :: "(string \<times> string \<times> string) list \<Rightarrow> (string \<Rightarrow> val option) \<Rightarrow> metric_kind \<Rightarrow> int option \<Rightarrow> row \<Rightarrow> metric list" where
  "readings table value kind at_time attributes = concat (map (\<lambda>(field, name, unit). case value field of
       None \<Rightarrow> []
     | Some v \<Rightarrow> [\<lparr>me_name = name, me_unit = unit, me_value = v, me_kind = kind, me_time = at_time, me_attributes = attributes\<rparr>]) table)"

text \<open>The JSON mapping of texts a sample was stored as.\<close>

definition sample_values :: "row \<Rightarrow> hash" where
  "sample_values r = (case cell_of r ''metrics'' of CHash h \<Rightarrow> h | _ \<Rightarrow> [])"

definition agent_up :: "hash \<Rightarrow> int option \<Rightarrow> metric list" where
  "agent_up values at_time = (case map_of values ''status'' of
       None \<Rightarrow> []
     | Some t \<Rightarrow> [\<lparr>me_name = ''canyonos.agent.up'', me_unit = ''1'', me_value = VInt (if t = Raw ''healthy'' then 1 else 0),
         me_kind = Gauge, me_time = at_time, me_attributes = []\<rparr>])"

definition agent_resource_metrics :: "row \<Rightarrow> exn + resource_metrics option" where
  "agent_resource_metrics r = (let values = sample_values r in
     if values = [] then Inr None
     else res_bnd (to_epoch_nanos (cell_of r ''observed_at'')) (\<lambda>at_time.
       res_bnd (to_epoch_nanos (sql_text (map_of values ''started_at''))) (\<lambda>started.
       let start = (case started of Some s \<Rightarrow> if s \<noteq> 0 then started else at_time | None \<Rightarrow> at_time);
           value = (\<lambda>f. coerce_text (map_of values f));
           metrics = readings AGENT_GAUGES value Gauge at_time [] @ readings AGENT_SUMS value (Sum start) at_time [] @ agent_up values at_time
       in Inr (if metrics = [] then None else Some \<lparr>
         rm_attributes = (''service.name'', cell_or (cell_of r ''agent_name'') (cell_or (cell_of r ''agent_id'') (text_cell ''canyonos-agent''))) #
           filter (\<lambda>(_, c). cell_truthy c) [(''service.instance.id'', cell_of r ''agent_id''), (''host.name'', cell_of r ''host''),
             (''canyonos.agent.port'', cell_of r ''port''), (''canyonos.project.id'', cell_of r ''project_id'')],
         rm_metrics = metrics\<rparr>))))"

text \<open>\<open>machine_capacity\<close>, a JSON text of its own.\<close>

definition capacity_values :: "hash \<Rightarrow> exn + dict" where
  "capacity_values values = (case map_of values ''machine_capacity'' of
       None \<Rightarrow> Inr []
     | Some t \<Rightarrow> if \<not> text_truthy t then Inr [] else (case loads t of
           None \<Rightarrow> Inr [] | Some (VDict d) \<Rightarrow> Inr d | Some _ \<Rightarrow> Inl (AttributeError ''get'')))"

definition host_text :: "cell \<Rightarrow> string" where
  "host_text c = (case c of CText t \<Rightarrow> raw_str t | _ \<Rightarrow> [])"

definition machine_resource_metrics :: "row \<Rightarrow> exn + resource_metrics option" where
  "machine_resource_metrics r = (let values = sample_values r; host = cell_of r ''host'' in
     if values = [] then Inr None
     else res_bnd (to_epoch_nanos (cell_of r ''observed_at'')) (\<lambda>at_time.
       res_bnd (capacity_values values) (\<lambda>capacity.
       res_bnd (res_all (\<lambda>(f, _). res_bnd (coerce_val (dget capacity f)) (\<lambda>v. Inr (f, v))) CAPACITY_GAUGES) (\<lambda>numbers.
       let point = (if cell_truthy host then [(''host.name'', host)] else []);
           metrics = readings MACHINE_GAUGES (\<lambda>f. coerce_text (map_of values f)) Gauge at_time point @
             readings CAPACITY_GAUGES (\<lambda>f. case map_of numbers f of Some v \<Rightarrow> v | None \<Rightarrow> None) Gauge at_time point
       in Inr (if metrics = [] then None else Some \<lparr>
         rm_attributes = (''service.name'', text_cell (if cell_truthy host then ''canyonos-machine-'' @ host_text host else ''canyonos-machine'')) # point @
           filter (\<lambda>(_, c). cell_truthy c) [(''canyonos.project.id'', cell_of r ''project_id'')],
         rm_metrics = metrics\<rparr>)))))"

definition metric_row_to_resource_metrics :: "row \<Rightarrow> exn + resource_metrics option" where
  "metric_row_to_resource_metrics r =
     (if cell_or (cell_of r ''kind'') (text_cell ''machine'') = text_cell ''agent'' then agent_resource_metrics r
      else machine_resource_metrics r)"

section \<open>Log records\<close>

record log_record =
  lr_time :: "int option"
  lr_trace :: int
  lr_span :: int
  lr_severity_text :: cell
  lr_severity_number :: int
  lr_body :: cell
  lr_attributes :: dict
  lr_resource :: row

definition normalize_severity_text :: "cell \<Rightarrow> cell" where
  "normalize_severity_text c = (if \<not> cell_truthy c then text_cell ''INFO''
     else if c = text_cell ''WARNING'' then text_cell ''WARN'' else if c = text_cell ''CRITICAL'' then text_cell ''FATAL'' else c)"

text \<open>\<open>SeverityNumber(x or 9)\<close>: the numbers 0 to 24.\<close>

definition severity_number :: "cell \<Rightarrow> exn + int" where
  "severity_number c = (case cell_or c (CInt 9) of
       CInt i \<Rightarrow> if 0 \<le> i \<and> i \<le> 24 then Inr i else Inl (ValueError ''is not a valid SeverityNumber'')
     | CNum (Fin q) \<Rightarrow> if is_whole (Fin q) \<and> 0 \<le> q \<and> q \<le> 24 then Inr \<lfloor>q\<rfloor> else Inl (ValueError ''is not a valid SeverityNumber'')
     | _ \<Rightarrow> Inl (ValueError ''is not a valid SeverityNumber''))"

definition LOG_ATTRIBUTES :: "(string \<times> string) list" where
  "LOG_ATTRIBUTES =
     [(''canyonos.agent.id'', ''agent.id''), (''canyonos.agent.name'', ''agent.name''), (''canyonos.endpoint'', ''endpoint''),
      (''logger.name'', ''logger.name''), (''exception.type'', ''exception.type''), (''exception.message'', ''exception.message''),
      (''exception.stacktrace'', ''exception.stacktrace'')]"

text \<open>The attributes as stored; \<open>None\<close> is a text that is not JSON.\<close>

definition stored_attributes :: "cell \<Rightarrow> val option" where
  "stored_attributes c = (case c of CText t \<Rightarrow> if text_truthy t then loads t else Some (VDict []) | Null \<Rightarrow> Some (VDict []) | _ \<Rightarrow> None)"

definition id_or_zero :: "cell \<Rightarrow> exn + int" where
  "id_or_zero c = (if cell_truthy c then hex_cell c else Inr 0)"

definition log_row_to_log_records :: "row \<Rightarrow> exn + log_record list" where
  "log_row_to_log_records r = (case stored_attributes (cell_of r ''attributes'') of
       None \<Rightarrow> Inr []
     | Some attrs \<Rightarrow>
         res_bnd (id_or_zero (cell_of r ''session_id'')) (\<lambda>trace.
         res_bnd (id_or_zero (cell_of r ''future_id'')) (\<lambda>sid.
         res_bnd (case attrs of VDict d \<Rightarrow> Inr d | _ \<Rightarrow> Inl (AttributeError ''get'')) (\<lambda>d.
         res_bnd (severity_number (cell_of r ''severity_number'')) (\<lambda>number.
         res_bnd (to_epoch_nanos (cell_of r ''observed_at'')) (\<lambda>at_time.
         Inr [\<lparr>lr_time = at_time, lr_trace = trace, lr_span = sid, lr_severity_text = normalize_severity_text (cell_of r ''severity_text''),
           lr_severity_number = number, lr_body = cell_of r ''body'',
           lr_attributes = filter (\<lambda>(_, v). v \<noteq> VNone) (map (\<lambda>(name, key). (name, dget d key)) LOG_ATTRIBUTES),
           lr_resource = (''service.name'', cell_or (cell_of r ''agent_id'') (text_cell ''unknown_agent'')) #
             filter (\<lambda>(_, c). cell_truthy c) [(''canyonos.project.id'', cell_of r ''project_id'')]\<rparr>]))))))"

end
