(* ===== verification/Telemetry_Export.thy ===== *)
theory Telemetry_Export
  imports Telemetry_Spans Schema_Manifest
begin

text \<open>
  The exporter process (\<open>otlp_exporter/otel_exporter.py\<close>): it reads the destinations the Global
  Controller published, turns pending rows of the queue into a batch, hands the batch to every
  destination and marks its rows sent once all of them took it. What the OpenTelemetry SDK and the
  receivers answer are fields of \<open>xenv\<close>: whether an exporter can be built, whether the encoder takes
  a span, and what becomes of a batch; so is whether the database takes a statement.
\<close>

section \<open>State\<close>

text \<open>What a receiver makes of a batch: it takes it, rejecting so many of the spans, or not.\<close>

datatype answer = Taken nat | Refused | Raises

record xenv =
  xe_builds :: "string \<Rightarrow> otel_destination \<Rightarrow> bool"
  xe_encodes :: "span \<Rightarrow> string option"
  xe_spans :: "rat \<Rightarrow> otel_destination \<Rightarrow> span list \<Rightarrow> answer"
  xe_metrics :: "rat \<Rightarrow> otel_destination \<Rightarrow> resource_metrics list \<Rightarrow> answer"
  xe_logs :: "rat \<Rightarrow> otel_destination \<Rightarrow> log_record list \<Rightarrow> answer"
  xe_db_fails :: "rat \<Rightarrow> string \<Rightarrow> bool"

type_synonym sinks = "(string \<times> otel_destination) list"

record idle =
  id_polls :: int
  id_warned :: "int option"

record exporter =
  x_queue :: queue
  x_now :: rat
  x_traces :: sinks
  x_metrics :: sinks
  x_logs :: sinks
  x_raw :: "rtext option"
  x_recorders :: "(string \<times> nat) list"
  x_builds :: nat
  x_traces_build :: nat
  x_failures :: "(rtext \<times> int) list"
  x_healthy :: "(string \<times> bool) list"
  x_idle_traces :: idle
  x_idle_metrics :: idle
  x_idle_logs :: idle
  x_last_poll :: rat
  x_last_delete :: rat
  x_running :: bool

type_synonym 'a xstep = "(exporter, 'a) act"

text \<open>A statement on the database; one that fails changes nothing.\<close>

definition on_db :: "xenv \<Rightarrow> string \<Rightarrow> (queue \<Rightarrow> 'a \<times> queue) \<Rightarrow> 'a xstep" where
  "on_db env stmt f = (\<lambda>x. if xe_db_fails env (x_now x) stmt then (Inl (RuntimeError ''database''), x)
     else (Inr (fst (f (x_queue x))), x\<lparr>x_queue := snd (f (x_queue x))\<rparr>))"

section \<open>Destinations\<close>

text \<open>A destination is kept as the manifest keeps it: no headers are the empty mapping, and \<open>insecure\<close>
  is whether it is set to true.\<close>

fun validated :: "string list \<Rightarrow> val list \<Rightarrow> exn + otel_destination list" where
  "validated names [] = Inr []"
| "validated names (v # vs) = (case v of
       VDict d \<Rightarrow>
         if destination_problems d \<noteq> [] then Inl (ValueError (snd (hd (destination_problems d))))
         else let n = normalize_destination d in
           if od_name n \<in> set names then Inl (ValueError ''destination names must be unique'')
           else res_bnd (validated (od_name n # names) vs) (\<lambda>ds. Inr (n # ds))
     | _ \<Rightarrow> Inl (ValueError ''destination must be an object''))"

definition configured_destinations :: "rtext option \<Rightarrow> exn + otel_destination list option" where
  "configured_destinations raw = (case raw of
       None \<Rightarrow> Inr None
     | Some t \<Rightarrow> (case loads t of
           None \<Rightarrow> Inl (ValueError ''must contain a JSON list'')
         | Some (VList (v # vs)) \<Rightarrow> map_sum id Some (validated [] (v # vs))
         | Some _ \<Rightarrow> Inl (ValueError ''must be a non-empty list'')))"

definition build_exporters :: "xenv \<Rightarrow> string \<Rightarrow> rtext option \<Rightarrow> exn + sinks" where
  "build_exporters env signal raw =
     res_bnd (configured_destinations raw) (\<lambda>ds. case ds of
       None \<Rightarrow> Inl (RuntimeError ''otel.destinations is required'')
     | Some ds \<Rightarrow> if list_all (xe_builds env signal) ds then Inr (map (\<lambda>d. (od_name d, d)) ds)
         else Inl (RuntimeError ''exporter''))"

text \<open>Only HTTP destinations say how many spans of a batch they reject: each gets a recorder of its own,
  known by the build that made it. A build of the span exporters replaces all recorders.\<close>

definition build_trace_exporters :: "xenv \<Rightarrow> rtext option \<Rightarrow> sinks xstep" where
  "build_trace_exporters env raw =
     bnd (of_res (build_exporters env ''traces'' raw)) (\<lambda>sinks.
     bnd (modify_st (\<lambda>x. x\<lparr>x_builds := x_builds x + 1,
       x_recorders := map (\<lambda>(name, _). (name, x_builds x + 1)) (filter (\<lambda>(_, d). od_protocol d \<noteq> ''grpc'') sinks)\<rparr>)) (\<lambda>_. ret sinks))"

definition build_all :: "xenv \<Rightarrow> rtext option \<Rightarrow> (sinks \<times> sinks \<times> sinks) xstep" where
  "build_all env raw =
     bnd (build_trace_exporters env raw) (\<lambda>ts.
     bnd (of_res (build_exporters env ''metrics'' raw)) (\<lambda>ms.
     bnd (of_res (build_exporters env ''logs'' raw)) (\<lambda>ls. ret (ts, ms, ls))))"

definition use_exporters :: "sinks \<times> sinks \<times> sinks \<Rightarrow> exporter \<Rightarrow> exporter" where
  "use_exporters s x = (case s of (ts, ms, ls) \<Rightarrow> x\<lparr>x_traces := ts, x_metrics := ms, x_logs := ls, x_traces_build := x_builds x\<rparr>)"

text \<open>\<open>_reload_destinations_if_changed\<close>, with what Redis answers. A text that was not taken is not
  remembered, so it is tried again in the next poll.\<close>

definition reload_destinations :: "xenv \<Rightarrow> exn + rtext option \<Rightarrow> unit xstep" where
  "reload_destinations env answer = (case answer of
       Inl _ \<Rightarrow> ret ()
     | Inr raw \<Rightarrow> bnd (read_st x_raw) (\<lambda>last.
         if raw = last then ret ()
         else catch (bnd (build_all env raw) (\<lambda>s. modify_st (\<lambda>x. (use_exporters s x)\<lparr>x_raw := raw\<rparr>))) (\<lambda>_. ret ())))"

section \<open>Pending rows\<close>

definition unsent :: "row \<Rightarrow> bool" where
  "unsent r \<longleftrightarrow> cell_of r ''sent'' = Null \<or> cell_of r ''sent'' = CInt 0"

definition MAX_SPANS_PER_POLL :: nat where "MAX_SPANS_PER_POLL = 512"
definition MAX_LOGS_PER_POLL :: nat where "MAX_LOGS_PER_POLL = 512"

definition pending_traces :: "table \<Rightarrow> table" where
  "pending_traces t = take MAX_SPANS_PER_POLL (filter (\<lambda>(_, r). cell_of r ''finished_at'' \<noteq> Null \<and> unsent r) t)"

definition pending_rows :: "nat \<Rightarrow> table \<Rightarrow> table" where
  "pending_rows limit t = take limit (filter (\<lambda>(_, r). unsent r) t)"

text \<open>\<open>_read_pending_rows\<close>: a read that fails gives none.\<close>

definition read_pending :: "xenv \<Rightarrow> string \<Rightarrow> (queue \<Rightarrow> table) \<Rightarrow> table xstep" where
  "read_pending env stmt query = catch (on_db env stmt (\<lambda>q. (query q, q))) (\<lambda>_. ret [])"

definition EMPTY_QUEUE_WARNING_POLLS :: int where "EMPTY_QUEUE_WARNING_POLLS = 12"
definition EMPTY_QUEUE_REWARN_POLLS :: int where "EMPTY_QUEUE_REWARN_POLLS = 720"

text \<open>\<open>_note_queue_state\<close>: the count of the rows is \<open>None\<close> when the table cannot be counted.\<close>

definition note_queue_state :: "bool \<Rightarrow> nat option \<Rightarrow> idle \<Rightarrow> idle" where
  "note_queue_state found count i =
     (if found then i\<lparr>id_polls := 0\<rparr>
      else let n = id_polls i + 1; j = i\<lparr>id_polls := n\<rparr> in
        if n < EMPTY_QUEUE_WARNING_POLLS then j
        else case id_warned i of
            Some w \<Rightarrow> if n - w < EMPTY_QUEUE_REWARN_POLLS then j else if count \<noteq> Some 0 then j else j\<lparr>id_warned := Some n\<rparr>
          | None \<Rightarrow> if count \<noteq> Some 0 then j else j\<lparr>id_warned := Some n\<rparr>)"

definition row_count :: "xenv \<Rightarrow> string \<Rightarrow> (queue \<Rightarrow> table) \<Rightarrow> exporter \<Rightarrow> nat option" where
  "row_count env stmt table x = (if xe_db_fails env (x_now x) stmt then None else Some (length (table (x_queue x))))"

section \<open>Delivery\<close>

text \<open>\<open>_deliver_and_mark\<close>: every destination gets the batch, whatever the others did with it.\<close>

definition deliver_and_mark :: "sinks \<Rightarrow> (string \<times> otel_destination \<Rightarrow> bool) \<Rightarrow> unit xstep \<Rightarrow> unit xstep" where
  "deliver_and_mark sinks delivered mark =
     bnd (modify_st (\<lambda>x. x\<lparr>x_healthy := fold (\<lambda>s. AList.update (fst s) (delivered s)) sinks (x_healthy x)\<rparr>)) (\<lambda>_.
     if \<not> list_all delivered sinks then ret () else catch mark (\<lambda>_. ret ()))"

section \<open>Traces\<close>

definition MAX_ROW_EXPORT_ATTEMPTS :: int where "MAX_ROW_EXPORT_ATTEMPTS = 5"

definition failures_of :: "exporter \<Rightarrow> rtext \<Rightarrow> int" where
  "failures_of x k = (case map_of (x_failures x) k of None \<Rightarrow> 0 | Some n \<Rightarrow> n)"

definition placeholder_after_repeated_failure :: "xenv \<Rightarrow> rtext \<times> row \<Rightarrow> string \<Rightarrow> span option xstep" where
  "placeholder_after_repeated_failure env kr error =
     bnd (read_st (\<lambda>x. failures_of x (fst kr) + 1)) (\<lambda>attempts.
     bnd (modify_st (\<lambda>x. x\<lparr>x_failures := AList.update (fst kr) attempts (x_failures x)\<rparr>)) (\<lambda>_.
     if attempts < MAX_ROW_EXPORT_ATTEMPTS then ret None
     else case invalid_row_placeholder_span kr error of
         Inl _ \<Rightarrow> ret None
       | Inr p \<Rightarrow> if xe_encodes env p \<noteq> None then ret None
           else bnd (modify_st (\<lambda>x. x\<lparr>x_failures := AList.delete (fst kr) (x_failures x)\<rparr>)) (\<lambda>_. ret (Some p))))"

text \<open>The span of a row, or what keeps it from being exported.\<close>

definition exportable :: "xenv \<Rightarrow> rtext \<times> row \<Rightarrow> string + span" where
  "exportable env kr = (case trace_row_to_span kr of
       Inl e \<Rightarrow> Inl (exn_str e)
     | Inr s \<Rightarrow> (case xe_encodes env s of Some e \<Rightarrow> Inl e | None \<Rightarrow> Inr s))"

definition span_of_row :: "xenv \<Rightarrow> rtext \<times> row \<Rightarrow> (rtext \<times> span) list xstep" where
  "span_of_row env kr = (case exportable env kr of
       Inl e \<Rightarrow> bnd (placeholder_after_repeated_failure env kr e) (\<lambda>p. ret (case p of None \<Rightarrow> [] | Some s \<Rightarrow> [(fst kr, s)]))
     | Inr s \<Rightarrow> bnd (modify_st (\<lambda>x. x\<lparr>x_failures := AList.delete (fst kr) (x_failures x)\<rparr>)) (\<lambda>_. ret [(fst kr, s)]))"

text \<open>A span that a destination rejects is noticed by the recorder under its name, if that is the one its
  exporter reports to.\<close>

definition takes_spans :: "xenv \<Rightarrow> exporter \<Rightarrow> span list \<Rightarrow> string \<times> otel_destination \<Rightarrow> bool" where
  "takes_spans env x spans s = (case xe_spans env (x_now x) (snd s) spans of
       Taken rejected \<Rightarrow> map_of (x_recorders x) (fst s) = Some (x_traces_build x) \<longrightarrow> rejected = 0 | _ \<Rightarrow> False)"

definition mark_traces :: "xenv \<Rightarrow> rtext list \<Rightarrow> unit xstep" where
  "mark_traces env ids = on_db env ''mark traces'' (\<lambda>q. ((), q\<lparr>q_traces := mark_sent_many ids (q_traces q)\<rparr>))"

definition trace_send_pending :: "xenv \<Rightarrow> unit xstep" where
  "trace_send_pending env =
     bnd (read_st x_traces) (\<lambda>sinks.
     if sinks = [] then raise (RuntimeError ''OTel trace exporter has no configured destinations'')
     else bnd (read_pending env ''read traces'' (\<lambda>q. pending_traces (q_traces q))) (\<lambda>rows.
       bnd (modify_st (\<lambda>x. x\<lparr>x_idle_traces := note_queue_state (rows \<noteq> []) (row_count env ''count traces'' q_traces x) (x_idle_traces x)\<rparr>)) (\<lambda>_.
       if rows = [] then ret ()
       else bnd (map_each rows (span_of_row env)) (\<lambda>found. let batch = concat found in
         if batch = [] then ret ()
         else bnd (read_st (\<lambda>x. takes_spans env x (map snd batch))) (\<lambda>delivered.
           deliver_and_mark sinks delivered (mark_traces env (map fst batch)))))))"

section \<open>Metrics and logs\<close>

definition takes :: "answer \<Rightarrow> bool" where "takes a = (case a of Taken _ \<Rightarrow> True | _ \<Rightarrow> False)"

definition mark_metrics :: "xenv \<Rightarrow> rtext list \<Rightarrow> unit xstep" where
  "mark_metrics env ids = on_db env ''mark metrics'' (\<lambda>q. ((), q\<lparr>q_metrics := mark_sent_many ids (q_metrics q)\<rparr>))"

definition mark_logs :: "xenv \<Rightarrow> rtext list \<Rightarrow> unit xstep" where
  "mark_logs env ids = on_db env ''mark logs'' (\<lambda>q. ((), q\<lparr>q_logs := mark_sent_many ids (q_logs q)\<rparr>))"

text \<open>A row that fails to convert is skipped; one with nothing to export is marked at once.\<close>

definition metrics_of_row :: "xenv \<Rightarrow> rtext \<times> row \<Rightarrow> (rtext \<times> resource_metrics) list xstep" where
  "metrics_of_row env kr = (case metric_row_to_resource_metrics (snd kr) of
       Inl _ \<Rightarrow> ret []
     | Inr None \<Rightarrow> bnd (catch (mark_metrics env [fst kr]) (\<lambda>_. ret ())) (\<lambda>_. ret [])
     | Inr (Some m) \<Rightarrow> ret [(fst kr, m)])"

definition metric_send_pending :: "xenv \<Rightarrow> unit xstep" where
  "metric_send_pending env =
     bnd (read_st x_metrics) (\<lambda>sinks.
     if sinks = [] then raise (RuntimeError ''OTel metric exporter has no configured destinations'')
     else bnd (read_pending env ''read metrics'' (\<lambda>q. pending_rows MAX_SPANS_PER_POLL (q_metrics q))) (\<lambda>rows.
       bnd (modify_st (\<lambda>x. x\<lparr>x_idle_metrics := note_queue_state (rows \<noteq> []) (row_count env ''count metrics'' q_metrics x) (x_idle_metrics x)\<rparr>)) (\<lambda>_.
       if rows = [] then ret ()
       else bnd (map_each rows (metrics_of_row env)) (\<lambda>found. let batch = concat found in
         if batch = [] then ret ()
         else bnd (read_st (\<lambda>x s. takes (xe_metrics env (x_now x) (snd s) (map snd batch)))) (\<lambda>delivered.
           deliver_and_mark sinks delivered (mark_metrics env (map fst batch)))))))"

definition records_of_row :: "xenv \<Rightarrow> rtext \<times> row \<Rightarrow> (rtext \<times> log_record list) list xstep" where
  "records_of_row env kr = (case log_row_to_log_records (snd kr) of
       Inl _ \<Rightarrow> ret []
     | Inr [] \<Rightarrow> bnd (catch (mark_logs env [fst kr]) (\<lambda>_. ret ())) (\<lambda>_. ret [])
     | Inr (l # ls) \<Rightarrow> ret [(fst kr, l # ls)])"

definition log_send_pending :: "xenv \<Rightarrow> unit xstep" where
  "log_send_pending env =
     bnd (read_st x_logs) (\<lambda>sinks.
     if sinks = [] then raise (RuntimeError ''OTel log exporter has no configured destinations'')
     else bnd (read_pending env ''read logs'' (\<lambda>q. pending_rows MAX_LOGS_PER_POLL (q_logs q))) (\<lambda>rows.
       bnd (modify_st (\<lambda>x. x\<lparr>x_idle_logs := note_queue_state (rows \<noteq> []) (row_count env ''count logs'' q_logs x) (x_idle_logs x)\<rparr>)) (\<lambda>_.
       if rows = [] then ret ()
       else bnd (map_each rows (records_of_row env)) (\<lambda>found. let batch = concat found in
         if batch = [] then ret ()
         else bnd (read_st (\<lambda>x s. takes (xe_logs env (x_now x) (snd s) (concat (map snd batch))))) (\<lambda>delivered.
           deliver_and_mark sinks delivered (mark_logs env (map fst batch)))))))"

section \<open>Flushing and expiry\<close>

definition flush_traces :: "xenv \<Rightarrow> unit xstep" where
  "flush_traces env = catch (on_db env ''flush traces'' (\<lambda>q. ((), q\<lparr>q_traces := snd (flush_all (q_traces q))\<rparr>))) (\<lambda>_. ret ())"

definition flush_metrics :: "xenv \<Rightarrow> unit xstep" where
  "flush_metrics env = catch (on_db env ''flush metrics'' (\<lambda>q. ((), q\<lparr>q_metrics := snd (flush_all (q_metrics q))\<rparr>))) (\<lambda>_. ret ())"

definition flush_logs :: "xenv \<Rightarrow> unit xstep" where
  "flush_logs env = catch (on_db env ''flush logs'' (\<lambda>q. ((), q\<lparr>q_logs := snd (flush_all (q_logs q))\<rparr>))) (\<lambda>_. ret ())"

definition TRACE_RETENTION_SECONDS :: rat where "TRACE_RETENTION_SECONDS = 1800"
definition METRIC_RETENTION_SECONDS :: rat where "METRIC_RETENTION_SECONDS = 600"
definition LOG_RETENTION_SECONDS :: rat where "LOG_RETENTION_SECONDS = 1800"

text \<open>One after the other; a failure leaves the tables that come later alone.\<close>

definition delete_expired_rows :: "xenv \<Rightarrow> unit xstep" where
  "delete_expired_rows env =
     catch
       (bnd (read_st x_now) (\<lambda>now.
        bnd (on_db env ''expire traces'' (\<lambda>q. ((), q\<lparr>q_traces := snd (delete_expired ''finished_at'' (Fin (now - TRACE_RETENTION_SECONDS)) (q_traces q))\<rparr>))) (\<lambda>_.
        bnd (on_db env ''expire metrics'' (\<lambda>q. ((), q\<lparr>q_metrics := snd (delete_expired ''observed_at'' (Fin (now - METRIC_RETENTION_SECONDS)) (q_metrics q))\<rparr>))) (\<lambda>_.
        on_db env ''expire logs'' (\<lambda>q. ((), q\<lparr>q_logs := snd (delete_expired ''observed_at'' (Fin (now - LOG_RETENTION_SECONDS)) (q_logs q))\<rparr>))))))
       (\<lambda>_. ret ())"

section \<open>The process\<close>

definition poll_cycle :: "xenv \<Rightarrow> exn + rtext option \<Rightarrow> unit xstep" where
  "poll_cycle env answer =
     catch
       (bnd (reload_destinations env answer) (\<lambda>_.
        bnd (read_st x_traces) (\<lambda>ts.
        bnd (if ts \<noteq> [] then trace_send_pending env else flush_traces env) (\<lambda>_.
        bnd (read_st x_metrics) (\<lambda>ms.
        bnd (if ms \<noteq> [] then metric_send_pending env else flush_metrics env) (\<lambda>_.
        bnd (read_st x_logs) (\<lambda>ls.
        if ls \<noteq> [] then log_send_pending env else flush_logs env)))))))
       (\<lambda>_. ret ())"

definition POLL_INTERVAL_SECONDS :: rat where "POLL_INTERVAL_SECONDS = 5"
definition DELETE_INTERVAL_SECONDS :: rat where "DELETE_INTERVAL_SECONDS = 300"

text \<open>One turn of the loop of \<open>main\<close>, which then sleeps a second.\<close>

definition export_turn :: "xenv \<Rightarrow> exn + rtext option \<Rightarrow> unit xstep" where
  "export_turn env answer =
     bnd (read_st (\<lambda>x. POLL_INTERVAL_SECONDS \<le> x_now x - x_last_poll x)) (\<lambda>poll.
     bnd (if poll then bnd (poll_cycle env answer) (\<lambda>_. modify_st (\<lambda>x. x\<lparr>x_last_poll := x_now x\<rparr>)) else ret ()) (\<lambda>_.
     bnd (read_st (\<lambda>x. DELETE_INTERVAL_SECONDS \<le> x_now x - x_last_delete x)) (\<lambda>expire.
     bnd (if expire then bnd (delete_expired_rows env) (\<lambda>_. modify_st (\<lambda>x. x\<lparr>x_last_delete := x_now x\<rparr>)) else ret ()) (\<lambda>_.
     modify_st (\<lambda>x. x\<lparr>x_now := x_now x + 1\<rparr>)))))"

text \<open>The start of \<open>main\<close>: the address of Redis comes from the environment, and without a usable
  destination the process starts in flush mode.\<close>

definition start_exporter :: "xenv \<Rightarrow> string option \<Rightarrow> string option \<Rightarrow> exn + rtext option \<Rightarrow> unit xstep" where
  "start_exporter env host portno answer =
     bnd (on_db env ''init'' (\<lambda>q. ((), q))) (\<lambda>_.
     case (host, portno) of
       (Some (h # hs), Some (p # ps)) \<Rightarrow>
         bnd (of_res (case int_str (p # ps) of None \<Rightarrow> Inl (ValueError ''int'') | Some _ \<Rightarrow> answer)) (\<lambda>raw.
         bnd (modify_st (\<lambda>x. x\<lparr>x_raw := raw\<rparr>)) (\<lambda>_.
         catch (bnd (build_all env raw) (\<lambda>s. modify_st (use_exporters s)))
           (\<lambda>_. modify_st (use_exporters ([], [], [])))))
     | _ \<Rightarrow> raise (RuntimeError ''CANYONOS_OTEL_REDIS_HOST and CANYONOS_OTEL_REDIS_PORT are required''))"

definition handle_shutdown :: "unit xstep" where
  "handle_shutdown = modify_st (\<lambda>x. x\<lparr>x_running := False\<rparr>)"

end
