(* ===== verification/Export_Facts.thy ===== *)
theory Export_Facts
  imports Telemetry_Export
begin

text \<open>
  What the exporter guarantees of the queue: a row is marked sent only when every destination took it,
  one bad row holds up no other, and a row leaves the queue unsent only when there is nowhere to send
  it or its time is over.
\<close>

section \<open>Marking\<close>

lemma set_sent_at: "map_of (set_sent k t) k' = (if k' = k then map_option (AList.update ''sent'' (CInt 1)) (map_of t k) else map_of t k')"
  by (auto simp: set_sent_def update_conv' split: option.split)

lemma sent_is_sent [simp]: "\<not> unsent (AList.update ''sent'' (CInt 1) r)"
  by (simp add: unsent_def cell_of_def update_conv')

lemma sent_other_cell [simp]: "c \<noteq> ''sent'' \<Longrightarrow> cell_of (AList.update ''sent'' (CInt 1) r) c = cell_of r c"
  by (simp add: cell_of_def update_conv')

lemma mark_sent_other: "k \<notin> set ks \<Longrightarrow> map_of (mark_sent_many ks t) k = map_of t k"
  unfolding mark_sent_many_def by (induction ks arbitrary: t) (auto simp: set_sent_at)

lemma mark_sent_in:
  assumes "map_of t k = Some r" "k \<in> set ks"
  shows "\<exists>r'. map_of (mark_sent_many ks t) k = Some r' \<and> \<not> unsent r' \<and> (\<forall>c. c \<noteq> ''sent'' \<longrightarrow> cell_of r' c = cell_of r c)"
proof -
  have keep: "\<not> unsent r \<Longrightarrow> map_of t k = Some r \<Longrightarrow> \<exists>r'. map_of (fold set_sent ks t) k = Some r' \<and> \<not> unsent r' \<and> (\<forall>c. c \<noteq> ''sent'' \<longrightarrow> cell_of r' c = cell_of r c)"
    for t r ks
  proof (induction ks arbitrary: t r)
    case (Cons k' ks)
    show ?case
    proof (cases "k' = k")
      case True
      then have "map_of (set_sent k' t) k = Some (AList.update ''sent'' (CInt 1) r)" using Cons.prems by (simp add: set_sent_at)
      from Cons.IH[OF sent_is_sent this] show ?thesis by auto
    next
      case False
      then show ?thesis using Cons.IH[of r "set_sent k' t"] Cons.prems by (simp add: set_sent_at)
    qed
  qed auto
  show ?thesis using assms unfolding mark_sent_many_def
  proof (induction ks arbitrary: t)
    case (Cons k' ks)
    show ?case
    proof (cases "k' = k")
      case True
      then have "map_of (set_sent k' t) k = Some (AList.update ''sent'' (CInt 1) r)" using Cons.prems by (simp add: set_sent_at)
      from keep[OF sent_is_sent this] show ?thesis by auto
    next
      case False
      then show ?thesis using Cons.IH[of "set_sent k' t"] Cons.prems by (simp add: set_sent_at)
    qed
  qed simp
qed

lemma mark_sent_keys: "(map_of (mark_sent_many ks t) k = None) = (map_of t k = None)"
  unfolding mark_sent_many_def by (induction ks arbitrary: t) (auto simp: set_sent_at)

section \<open>Spans\<close>

text \<open>A span that goes out for a row: its own, or a placeholder for one that cannot be exported.\<close>

definition stands_for :: "xenv \<Rightarrow> rtext \<times> row \<Rightarrow> span \<Rightarrow> bool" where
  "stands_for env kr s \<longleftrightarrow> exportable env kr = Inr s \<or>
     (\<exists>e. exportable env kr = Inl e \<and> invalid_row_placeholder_span kr e = Inr s \<and> xe_encodes env s = None)"

definition has_placeholder :: "xenv \<Rightarrow> rtext \<times> row \<Rightarrow> string \<Rightarrow> bool" where
  "has_placeholder env kr e = (case invalid_row_placeholder_span kr e of Inl _ \<Rightarrow> False | Inr p \<Rightarrow> xe_encodes env p = None)"

text \<open>Whether a row goes out, after so many failed attempts, and the count it is left with.\<close>

definition goes_out :: "xenv \<Rightarrow> int \<Rightarrow> rtext \<times> row \<Rightarrow> bool" where
  "goes_out env n kr = (case exportable env kr of Inr _ \<Rightarrow> True | Inl e \<Rightarrow> MAX_ROW_EXPORT_ATTEMPTS \<le> n + 1 \<and> has_placeholder env kr e)"

definition same_but_failures :: "exporter \<Rightarrow> exporter \<Rightarrow> bool" where
  "same_but_failures x y \<longleftrightarrow> x\<lparr>x_failures := []\<rparr> = y\<lparr>x_failures := []\<rparr>"

lemma sbf_eq:
  assumes "same_but_failures x y"
  shows "x_queue x = x_queue y" "x_now x = x_now y" "x_traces x = x_traces y" "x_recorders x = x_recorders y"
    "x_metrics x = x_metrics y" "x_logs x = x_logs y" "x_traces_build x = x_traces_build y"
  using assms unfolding same_but_failures_def by (cases x; cases y; simp)+

lemma span_of_row_run:
  "\<exists>ys x'. span_of_row env kr x = (Inr ys, x') \<and> same_but_failures x x' \<and> (\<forall>k s. (k, s) \<in> set ys \<longrightarrow> k = fst kr \<and> stands_for env kr s) \<and>
     (ys \<noteq> [] \<longleftrightarrow> goes_out env (failures_of x (fst kr)) kr) \<and>
     (\<forall>k. failures_of x' k = (if k \<noteq> fst kr then failures_of x k else if goes_out env (failures_of x k) kr then 0 else failures_of x k + 1))"
proof (cases "exportable env kr")
  case (Inr s)
  then show ?thesis
    by (simp add: span_of_row_def bnd_run modify_run ret_run same_but_failures_def stands_for_def goes_out_def failures_of_def delete_conv')
next
  case (Inl e)
  let ?n = "failures_of x (fst kr) + 1"
  show ?thesis
  proof (cases "MAX_ROW_EXPORT_ATTEMPTS \<le> ?n \<and> has_placeholder env kr e")
    case True
    then obtain p where "invalid_row_placeholder_span kr e = Inr p" "xe_encodes env p = None"
      by (auto simp: has_placeholder_def split: sum.splits)
    then show ?thesis using True Inl
      by (simp add: span_of_row_def placeholder_after_repeated_failure_def bnd_run read_run modify_run ret_run same_but_failures_def stands_for_def
          goes_out_def failures_of_def delete_conv' update_conv')
  next
    case False
    then have run: "placeholder_after_repeated_failure env kr e x = (Inr None, x\<lparr>x_failures := AList.update (fst kr) ?n (x_failures x)\<rparr>)"
      by (auto simp: placeholder_after_repeated_failure_def has_placeholder_def bnd_run read_run modify_run ret_run split: sum.splits)
    have stays: "\<not> goes_out env (failures_of x (fst kr)) kr" using False Inl by (simp add: goes_out_def)
    have "failures_of (x\<lparr>x_failures := AList.update (fst kr) ?n (x_failures x)\<rparr>) k = (if k = fst kr then ?n else failures_of x k)" for k
      by (simp add: failures_of_def update_conv')
    then show ?thesis using stays Inl by (simp add: span_of_row_def run bnd_run ret_run same_but_failures_def)
  qed
qed

lemma spans_of_rows:
  assumes "distinct (map fst rows)"
  shows "\<exists>found x'. map_each rows (span_of_row env) x = (Inr found, x') \<and> same_but_failures x x' \<and>
    (\<forall>k s. (k, s) \<in> set (concat found) \<longrightarrow> (\<exists>r. (k, r) \<in> set rows \<and> stands_for env (k, r) s)) \<and>
    (\<forall>k r. (k, r) \<in> set rows \<longrightarrow> (k \<in> fst ` set (concat found) \<longleftrightarrow> goes_out env (failures_of x k) (k, r)) \<and>
       failures_of x' k = (if goes_out env (failures_of x k) (k, r) then 0 else failures_of x k + 1)) \<and>
    (\<forall>k. k \<notin> fst ` set rows \<longrightarrow> failures_of x' k = failures_of x k)"
  using assms
proof (induction rows arbitrary: x)
  case (Cons kr rows)
  obtain k r where kr: "kr = (k, r)" by (cases kr)
  from span_of_row_run[of env kr x] obtain ys x1 where one: "span_of_row env kr x = (Inr ys, x1)" "same_but_failures x x1"
    "\<forall>k' s. (k', s) \<in> set ys \<longrightarrow> k' = k \<and> stands_for env kr s" "ys \<noteq> [] \<longleftrightarrow> goes_out env (failures_of x k) kr"
    "\<forall>k'. failures_of x1 k' = (if k' \<noteq> k then failures_of x k' else if goes_out env (failures_of x k') kr then 0 else failures_of x k' + 1)"
    unfolding kr by auto
  have kn: "k \<notin> fst ` set rows" "distinct (map fst rows)" using Cons.prems by (auto simp: kr)
  from Cons.IH[OF kn(2), of x1] obtain found x' where rest: "map_each rows (span_of_row env) x1 = (Inr found, x')" "same_but_failures x1 x'"
    "\<forall>k s. (k, s) \<in> set (concat found) \<longrightarrow> (\<exists>r. (k, r) \<in> set rows \<and> stands_for env (k, r) s)"
    "\<forall>k r. (k, r) \<in> set rows \<longrightarrow> (k \<in> fst ` set (concat found) \<longleftrightarrow> goes_out env (failures_of x1 k) (k, r)) \<and>
       failures_of x' k = (if goes_out env (failures_of x1 k) (k, r) then 0 else failures_of x1 k + 1)"
    "\<forall>k. k \<notin> fst ` set rows \<longrightarrow> failures_of x' k = failures_of x1 k" by blast
  have run: "map_each (kr # rows) (span_of_row env) x = (Inr (ys # found), x')"
    using one(1) rest(1) by (simp add: bnd_run ret_run)
  have sub: "k' \<in> fst ` set rows" if "k' \<in> fst ` set (concat found)" for k' using rest(3) that by force
  have mine: "k \<in> fst ` set (concat (ys # found)) \<longleftrightarrow> ys \<noteq> []"
    using one(3) sub kn(1) by (cases ys) (force, fastforce)
  have others: "k' \<in> fst ` set (concat (ys # found)) \<longleftrightarrow> k' \<in> fst ` set (concat found)" if "k' \<noteq> k" for k' using one(3) that by force
  show ?case
  proof (rule exI[of _ "ys # found"], rule exI[of _ x'], intro conjI allI impI)
    show "map_each (kr # rows) (span_of_row env) x = (Inr (ys # found), x')" by (rule run)
    show "same_but_failures x x'" using one(2) rest(2) by (simp add: same_but_failures_def)
    show "\<exists>r. (k', r) \<in> set (kr # rows) \<and> stands_for env (k', r) s" if "(k', s) \<in> set (concat (ys # found))" for k' s
    proof (cases "(k', s) \<in> set ys")
      case True
      then show ?thesis using one(3) kr by (intro exI[of _ r]) auto
    next
      case False
      then have "(k', s) \<in> set (concat found)" using that by simp
      then show ?thesis using rest(3) by fastforce
    qed
    show "failures_of x' k' = failures_of x k'" if "k' \<notin> fst ` set (kr # rows)" for k' using that rest(5) one(5) kr by simp
    fix k' r' assume m: "(k', r') \<in> set (kr # rows)"
    have "(k' \<in> fst ` set (concat (ys # found)) \<longleftrightarrow> goes_out env (failures_of x k') (k', r')) \<and>
      failures_of x' k' = (if goes_out env (failures_of x k') (k', r') then 0 else failures_of x k' + 1)"
    proof (cases "k' = k")
      case True
      then have "r' = r" using m kn(1) kr by force
      with True show ?thesis using mine one(4,5) rest(5) kn(1) kr by (simp del: concat.simps)
    next
      case False
      then have "(k', r') \<in> set rows" using m kr by auto
      then show ?thesis using False others[OF False] rest(4) one(5) by (simp del: concat.simps)
    qed
    then show "k' \<in> fst ` set (concat (ys # found)) \<longleftrightarrow> goes_out env (failures_of x k') (k', r')"
      and "failures_of x' k' = (if goes_out env (failures_of x k') (k', r') then 0 else failures_of x k' + 1)" by blast+
  qed
qed (simp add: ret_run same_but_failures_def)

section \<open>One poll\<close>

definition polled :: "xenv \<Rightarrow> exporter \<Rightarrow> table" where
  "polled env x = (if xe_db_fails env (x_now x) ''read traces'' then [] else pending_traces (q_traces (x_queue x)))"

lemma read_pending_run: "read_pending env ''read traces'' (\<lambda>q. pending_traces (q_traces q)) x = (Inr (polled env x), x)"
  by (simp add: read_pending_def on_db_def polled_def catch_run ret_run)

lemma polled_keys:
  assumes "distinct (map fst (q_traces (x_queue x)))"
  shows "distinct (map fst (polled env x))" "(k, r) \<in> set (polled env x) \<Longrightarrow> map_of (q_traces (x_queue x)) k = Some r"
proof -
  have sub: "set (polled env x) \<subseteq> set (q_traces (x_queue x))"
    by (auto simp: polled_def pending_traces_def dest: in_set_takeD split: if_splits)
  show "distinct (map fst (polled env x))" using assms
    by (auto simp: polled_def pending_traces_def take_map[symmetric] intro!: distinct_take distinct_map_filter)
  show "map_of (q_traces (x_queue x)) k = Some r" if "(k, r) \<in> set (polled env x)" using that sub assms by auto
qed

definition all_take :: "xenv \<Rightarrow> exporter \<Rightarrow> span list \<Rightarrow> bool" where
  "all_take env x spans \<longleftrightarrow> list_all (takes_spans env x spans) (x_traces x)"

lemma deliver_and_mark_run:
  "\<exists>x'. deliver_and_mark sinks delivered (mark_traces env ids) x = (Inr (), x') \<and> x_failures x' = x_failures x \<and>
     x_queue x' = (if list_all delivered sinks \<and> \<not> xe_db_fails env (x_now x) ''mark traces''
       then (x_queue x)\<lparr>q_traces := mark_sent_many ids (q_traces (x_queue x))\<rparr> else x_queue x)"
  by (simp add: deliver_and_mark_def mark_traces_def on_db_def bnd_run modify_run catch_run ret_run)

lemma trace_send_run:
  assumes "distinct (map fst (q_traces (x_queue x)))" "x_traces x \<noteq> []"
  shows "\<exists>batch x'. trace_send_pending env x = (Inr (), x') \<and>
    (\<forall>k s. (k, s) \<in> set batch \<longrightarrow> (\<exists>r. (k, r) \<in> set (polled env x) \<and> stands_for env (k, r) s)) \<and>
    (\<forall>k r. (k, r) \<in> set (polled env x) \<longrightarrow> (k \<in> fst ` set batch \<longleftrightarrow> goes_out env (failures_of x k) (k, r)) \<and>
       failures_of x' k = (if goes_out env (failures_of x k) (k, r) then 0 else failures_of x k + 1)) \<and>
    x_queue x' = (if all_take env x (map snd batch) \<and> \<not> xe_db_fails env (x_now x) ''mark traces''
      then (x_queue x)\<lparr>q_traces := mark_sent_many (map fst batch) (q_traces (x_queue x))\<rparr> else x_queue x)"
proof -
  let ?rows = "polled env x"
  define y where "y = x\<lparr>x_idle_traces := note_queue_state (?rows \<noteq> []) (row_count env ''count traces'' q_traces x) (x_idle_traces x)\<rparr>"
  have y: "failures_of y = failures_of x" "x_queue y = x_queue x" "x_now y = x_now x" "x_traces y = x_traces x" "x_recorders y = x_recorders x" "x_traces_build y = x_traces_build x"
    by (simp_all add: y_def failures_of_def fun_eq_iff)
  from spans_of_rows[OF polled_keys(1)[OF assms(1)], of env env y] obtain found z where
    z: "map_each ?rows (span_of_row env) y = (Inr found, z)" "same_but_failures y z"
      "\<forall>k s. (k, s) \<in> set (concat found) \<longrightarrow> (\<exists>r. (k, r) \<in> set ?rows \<and> stands_for env (k, r) s)"
      "\<forall>k r. (k, r) \<in> set ?rows \<longrightarrow> (k \<in> fst ` set (concat found) \<longleftrightarrow> goes_out env (failures_of x k) (k, r)) \<and>
         failures_of z k = (if goes_out env (failures_of x k) (k, r) then 0 else failures_of x k + 1)"
    unfolding y(1) by blast
  let ?batch = "concat found"
  note eq = sbf_eq[OF z(2), symmetric]
  have same: "takes_spans env z = takes_spans env x" by (simp add: takes_spans_def fun_eq_iff eq y cong: answer.case_cong)
  show ?thesis
  proof (cases "?rows = [] \<or> ?batch = []")
    case True
    moreover have "x_queue z = x_queue x" by (simp add: eq y)
    moreover have "trace_send_pending env x = (Inr (), z)" using True z(1) assms(2)
      by (auto simp: trace_send_pending_def bnd_run read_run modify_run ret_run read_pending_run y_def[symmetric] Let_def)
    moreover have none: "?batch = []" using True z(1) by (auto simp: ret_run)
    ultimately show ?thesis using z(3,4)[unfolded none] by (intro exI[of _ "[]"] exI[of _ z]) (simp add: mark_sent_many_def)
  next
    case False
    from deliver_and_mark_run[of "x_traces x" "takes_spans env z (map snd ?batch)" env "map fst ?batch" z] obtain x' where
      x': "deliver_and_mark (x_traces x) (takes_spans env z (map snd ?batch)) (mark_traces env (map fst ?batch)) z = (Inr (), x')"
        "x_failures x' = x_failures z"
        "x_queue x' = (if list_all (takes_spans env z (map snd ?batch)) (x_traces x) \<and> \<not> xe_db_fails env (x_now z) ''mark traces''
           then (x_queue z)\<lparr>q_traces := mark_sent_many (map fst ?batch) (q_traces (x_queue z))\<rparr> else x_queue z)" by blast
    have "trace_send_pending env x = (Inr (), x')" using False z(1)[unfolded y_def] assms(2) x'(1)
      by (simp add: trace_send_pending_def bnd_run read_run modify_run ret_run read_pending_run Let_def del: concat_eq_Nil_conv)
    moreover have "failures_of x' = failures_of z" by (simp add: failures_of_def x'(2) fun_eq_iff)
    moreover have "x_queue x' = (if all_take env x (map snd ?batch) \<and> \<not> xe_db_fails env (x_now x) ''mark traces''
      then (x_queue x)\<lparr>q_traces := mark_sent_many (map fst ?batch) (q_traces (x_queue x))\<rparr> else x_queue x)"
      by (simp add: x'(3) all_take_def same eq y)
    ultimately show ?thesis using z(3,4) by (intro exI[of _ ?batch] exI[of _ x']) simp
  qed
qed

lemma trace_send_no_sinks: "x_traces x = [] \<Longrightarrow> snd (trace_send_pending env x) = x"
  by (simp add: trace_send_pending_def bnd_run read_run raise_run)

text \<open>C22: A row of the queue is marked sent only when every destination took a batch with a span of it
  in it, its own or, when it cannot be exported, a placeholder; one refusal and it stays pending.\<close>

theorem sent_only_when_accepted:
  assumes "distinct (map fst (q_traces (x_queue x)))"
    and "map_of (q_traces (x_queue x)) k = Some r" "unsent r"
    and "map_of (q_traces (x_queue (snd (trace_send_pending env x)))) k = Some r'" "\<not> unsent r'"
  shows "\<exists>batch s. s \<in> set batch \<and> stands_for env (k, r) s \<and> (\<forall>sink\<in>set (x_traces x). takes_spans env x batch sink)"
proof -
  have some: "x_traces x \<noteq> []" using assms trace_send_no_sinks[of x env] by auto
  from trace_send_run[OF assms(1) some, of env] obtain batch x' where run: "trace_send_pending env x = (Inr (), x')"
    "\<forall>k s. (k, s) \<in> set batch \<longrightarrow> (\<exists>r. (k, r) \<in> set (polled env x) \<and> stands_for env (k, r) s)"
    "x_queue x' = (if all_take env x (map snd batch) \<and> \<not> xe_db_fails env (x_now x) ''mark traces''
      then (x_queue x)\<lparr>q_traces := mark_sent_many (map fst batch) (q_traces (x_queue x))\<rparr> else x_queue x)" by blast
  have marked: "all_take env x (map snd batch)" "map_of (mark_sent_many (map fst batch) (q_traces (x_queue x))) k = Some r'"
    using assms(2-5) run(1,3) by (auto split: if_splits)
  have "k \<in> set (map fst batch)"
  proof (rule ccontr)
    assume "k \<notin> set (map fst batch)"
    from mark_sent_other[OF this, of "q_traces (x_queue x)"] marked(2) assms(2,3,5) show False by simp
  qed
  then obtain s where s: "(k, s) \<in> set batch" by auto
  then have "stands_for env (k, r) s" using run(2) polled_keys(2)[OF assms(1)] assms(2) by fastforce
  with s marked(1) show ?thesis
    by (intro exI[of _ "map snd batch"] exI[of _ s]) (force simp: all_take_def list_all_iff)
qed

text \<open>C23: When the destinations take every batch and the database works, each row of a poll goes its own
  way whatever the others are: one that can be exported is sent; one that cannot is counted and stays
  pending, and from the fifth failure on a placeholder goes out for it, if there is one the encoder
  takes.\<close>

theorem bad_row_blocks_nobody:
  assumes "distinct (map fst (q_traces (x_queue x)))" "x_traces x \<noteq> []"
    and "\<And>batch sink. sink \<in> set (x_traces x) \<Longrightarrow> takes_spans env x batch sink" "\<And>stmt. \<not> xe_db_fails env (x_now x) stmt"
    and "(k, r) \<in> set (pending_traces (q_traces (x_queue x)))"
  shows "\<exists>x' r'. trace_send_pending env x = (Inr (), x') \<and> map_of (q_traces (x_queue x')) k = Some r' \<and>
    (case exportable env (k, r) of
       Inr _ \<Rightarrow> \<not> unsent r' \<and> failures_of x' k = 0
     | Inl e \<Rightarrow> if MAX_ROW_EXPORT_ATTEMPTS \<le> failures_of x k + 1 \<and> has_placeholder env (k, r) e then \<not> unsent r' \<and> failures_of x' k = 0
         else r' = r \<and> failures_of x' k = failures_of x k + 1)"
proof -
  have p: "(k, r) \<in> set (polled env x)" using assms(4,5) by (simp add: polled_def)
  from trace_send_run[OF assms(1,2), of env] obtain batch x' where run: "trace_send_pending env x = (Inr (), x')"
    "k \<in> fst ` set batch \<longleftrightarrow> goes_out env (failures_of x k) (k, r)"
    "failures_of x' k = (if goes_out env (failures_of x k) (k, r) then 0 else failures_of x k + 1)"
    "x_queue x' = (if all_take env x (map snd batch) \<and> \<not> xe_db_fails env (x_now x) ''mark traces''
      then (x_queue x)\<lparr>q_traces := mark_sent_many (map fst batch) (q_traces (x_queue x))\<rparr> else x_queue x)" using p by blast
  have q: "q_traces (x_queue x') = mark_sent_many (map fst batch) (q_traces (x_queue x))"
    using run(4) assms(3,4) by (simp add: all_take_def list_all_iff)
  note old = polled_keys(2)[OF assms(1) p]
  show ?thesis
  proof (cases "goes_out env (failures_of x k) (k, r)")
    case True
    then have "k \<in> set (map fst batch)" using run(2) by simp
    from mark_sent_in[OF old this] obtain r' where "map_of (q_traces (x_queue x')) k = Some r'" "\<not> unsent r'" unfolding q by blast
    with True run(1,3) show ?thesis
      by (intro exI[of _ x'] exI[of _ r']) (auto simp: goes_out_def split: sum.splits)
  next
    case False
    then have "k \<notin> set (map fst batch)" using run(2) by simp
    then have "map_of (q_traces (x_queue x')) k = Some r" unfolding q using mark_sent_other old by simp
    with False run(1,3) show ?thesis
      by (intro exI[of _ x'] exI[of _ r]) (auto simp: goes_out_def split: sum.splits)
  qed
qed

section \<open>A turn\<close>

text \<open>A row is still there, with what it was but for the mark.\<close>

definition alive :: "rtext \<Rightarrow> cell \<Rightarrow> exporter \<Rightarrow> bool" where
  "alive k c x \<longleftrightarrow> distinct (map fst (q_traces (x_queue x))) \<and>
     (\<exists>r. map_of (q_traces (x_queue x)) k = Some r \<and> cell_of r ''finished_at'' = c)"

definition kept_or_flushed :: "rat \<Rightarrow> rtext \<Rightarrow> cell \<Rightarrow> exporter \<Rightarrow> bool" where
  "kept_or_flushed n k c x \<longleftrightarrow> x_now x = n \<and> (alive k c x \<or> x_traces x = [])"

lemma keeps_on_db:
  assumes "\<And>x. P x \<Longrightarrow> P (x\<lparr>x_queue := snd (f (x_queue x))\<rparr>)"
  shows "keeps P (on_db env stmt f)"
  using assms by (auto intro!: keepsI simp: on_db_def)

lemma set_sent_keys: "map fst (set_sent k t) = map fst t"
proof (cases "map_of t k")
  case (Some r)
  then have "k \<in> set (map fst t)" by (simp add: map_of_eq_Some_iff[THEN iffD1] image_iff) (metis fst_conv map_of_SomeD)
  then show ?thesis by (simp add: set_sent_def Some update_keys)
qed (simp add: set_sent_def)

lemma mark_sent_many_keys: "map fst (mark_sent_many ks t) = map fst t"
  unfolding mark_sent_many_def by (induction ks arbitrary: t) (auto simp: set_sent_keys)

lemma alive_marked:
  assumes "alive k c x"
  shows "alive k c (x\<lparr>x_queue := (x_queue x)\<lparr>q_traces := mark_sent_many ks (q_traces (x_queue x))\<rparr>\<rparr>)"
proof -
  from assms obtain r where r: "map_of (q_traces (x_queue x)) k = Some r" "cell_of r ''finished_at'' = c" "distinct (map fst (q_traces (x_queue x)))"
    by (auto simp: alive_def)
  have "\<exists>r'. map_of (mark_sent_many ks (q_traces (x_queue x))) k = Some r' \<and> cell_of r' ''finished_at'' = c"
  proof (cases "k \<in> set ks")
    case True
    from mark_sent_in[OF r(1) True] obtain r' where "map_of (mark_sent_many ks (q_traces (x_queue x))) k = Some r'"
      "\<forall>d. d \<noteq> ''sent'' \<longrightarrow> cell_of r' d = cell_of r d" by blast
    then show ?thesis using r(2) by auto
  qed (use mark_sent_other r in auto)
  then show ?thesis using r(3) by (simp add: alive_def mark_sent_many_keys)
qed

lemma alive_cong: "q_traces (x_queue x) = q_traces (x_queue y) \<Longrightarrow> alive k c x = alive k c y"
  by (simp add: alive_def)

lemma keeps_case_list: "keeps P m \<Longrightarrow> (\<And>a b. keeps P (n a b)) \<Longrightarrow> keeps P (case xs of [] \<Rightarrow> m | a # b \<Rightarrow> n a b)"
  by (cases xs) auto

lemmas step_intros = pres_intros keeps_on_db keeps_modify keeps_case_list

lemma kf_same:
  "kept_or_flushed n k c x \<Longrightarrow> q_traces (x_queue y) = q_traces (x_queue x) \<Longrightarrow> x_now y = x_now x \<Longrightarrow> x_traces y = x_traces x \<Longrightarrow> kept_or_flushed n k c y"
  by (simp add: kept_or_flushed_def alive_def)

lemma kf_marked: "kept_or_flushed n k c x \<Longrightarrow> kept_or_flushed n k c (x\<lparr>x_queue := (x_queue x)\<lparr>q_traces := mark_sent_many ks (q_traces (x_queue x))\<rparr>\<rparr>)"
  using alive_marked[of k c x ks] by (auto simp: kept_or_flushed_def)

lemmas send_defs = read_pending_def deliver_and_mark_def Let_def mark_traces_def mark_metrics_def mark_logs_def

lemma row_keeps: "keeps (kept_or_flushed n k c) (span_of_row env kr)"
  unfolding span_of_row_def placeholder_after_repeated_failure_def
  by (intro step_intros; erule kf_same; simp)

lemma trace_send_keeps: "keeps (kept_or_flushed n k c) (trace_send_pending env)"
  unfolding trace_send_pending_def send_defs
  by (intro step_intros row_keeps; (simp add: kf_marked; fail | erule kf_same; simp))

lemma metric_send_keeps: "keeps (kept_or_flushed n k c) (metric_send_pending env)" "keeps (kept_or_flushed n k c) (flush_metrics env)"
  unfolding metric_send_pending_def metrics_of_row_def send_defs flush_metrics_def
  by (intro step_intros; erule kf_same; simp)+

lemma log_send_keeps: "keeps (kept_or_flushed n k c) (log_send_pending env)" "keeps (kept_or_flushed n k c) (flush_logs env)"
  unfolding log_send_pending_def records_of_row_def send_defs flush_logs_def
  by (intro step_intros; erule kf_same; simp)+

lemma flush_keeps: "keeps (\<lambda>y. x_now y = n \<and> x_traces y = []) (flush_traces env)"
  unfolding flush_traces_def by (intro step_intros; simp)

lemma reload_keeps: "keeps (\<lambda>y. x_now y = n \<and> alive k c y) (reload_destinations env answer)"
  unfolding reload_destinations_def build_all_def build_trace_exporters_def use_exporters_def
  by (intro step_intros) (auto simp: alive_def split: prod.split)

lemma bnd_read: "bnd (read_st g) f x = f (g x) x"
  by (simp add: bnd_run read_run)

lemma bnd_after:
  assumes "P (snd (m s))" "\<And>a. keeps R (f a)" "\<And>y. P y \<Longrightarrow> R y"
  shows "R (snd (bnd m f s))"
  using assms by (cases "m s"; cases "fst (m s)") (auto simp: bnd_run keeps_def)

lemma poll_keeps:
  assumes "x_now x = n" "alive k c x"
  shows "kept_or_flushed n k c (snd (poll_cycle env answer x))"
proof -
  let ?K = "kept_or_flushed n k c"
  let ?later = "bnd (read_st x_metrics) (\<lambda>ms. bnd (if ms \<noteq> [] then metric_send_pending env else flush_metrics env) (\<lambda>_.
    bnd (read_st x_logs) (\<lambda>ls. if ls \<noteq> [] then log_send_pending env else flush_logs env)))"
  let ?traces = "\<lambda>ts. if ts \<noteq> [] then trace_send_pending env else flush_traces env"
  have later: "keeps ?K ?later" by (intro step_intros metric_send_keeps log_send_keeps)
  have traces: "keeps ?K (bnd (read_st x_traces) (\<lambda>ts. bnd (?traces ts) (\<lambda>_. ?later)))"
  proof (rule keepsI)
    fix y assume y: "?K y"
    have "?K (snd (?traces (x_traces y) y))"
      using y keepsD[OF trace_send_keeps y, of env] keepsD[OF flush_keeps[of n env], of y] by (auto simp: kept_or_flushed_def)
    from bnd_after[where m = "?traces (x_traces y)" and s = y and P = ?K and R = ?K and f = "\<lambda>_. ?later", OF this later]
    show "?K (snd (bnd (read_st x_traces) (\<lambda>ts. bnd (?traces ts) (\<lambda>_. ?later)) y))" by (simp only: bnd_run read_run prod.case sum.case)
  qed
  have "?K (snd (bnd (reload_destinations env answer) (\<lambda>_. bnd (read_st x_traces) (\<lambda>ts. bnd (?traces ts) (\<lambda>_. ?later))) x))"
    using keepsD[OF reload_keeps[of n k c env answer], of x] assms
    by (intro bnd_after[where P = "\<lambda>y. x_now y = n \<and> alive k c y", OF _ traces]) (auto simp: kept_or_flushed_def)
  then show ?thesis unfolding poll_cycle_def by (auto simp: catch_run ret_run split: prod.splits sum.splits)
qed

text \<open>What a turn may do to a row: \<open>r\<close> is the row at its start.\<close>

definition kept_or_over :: "rat \<Rightarrow> rtext \<Rightarrow> row \<Rightarrow> exporter \<Rightarrow> bool" where
  "kept_or_over n k r x \<longleftrightarrow> alive k (cell_of r ''finished_at'') x \<or> x_traces x = [] \<or>
     is_expired ''finished_at'' (Fin (n - TRACE_RETENTION_SECONDS)) r"

lemma expire_keeps: "keeps (\<lambda>y. x_now y = n \<and> kept_or_over n k r y) (delete_expired_rows env)"
proof -
  let ?R = "\<lambda>y. x_now y = n \<and> kept_or_over n k r y"
  let ?old = "is_expired ''finished_at'' (Fin (n - TRACE_RETENTION_SECONDS))"
  have cut: "?R (y\<lparr>x_queue := (x_queue y)\<lparr>q_traces := filter (\<lambda>(k, r). \<not> ?old r) (q_traces (x_queue y))\<rparr>\<rparr>)" if y: "?R y" for y
  proof (cases "alive k (cell_of r ''finished_at'') y \<and> \<not> ?old r")
    case True
    then obtain r' where r': "map_of (q_traces (x_queue y)) k = Some r'" "cell_of r' ''finished_at'' = cell_of r ''finished_at''"
      "distinct (map fst (q_traces (x_queue y)))" "\<not> ?old r" by (auto simp: alive_def)
    then have "\<not> ?old r'" by (simp add: is_expired_def)
    then have "map_of (filter (\<lambda>(k, r). \<not> ?old r) (q_traces (x_queue y))) k = Some r'"
      using r'(1,3) by (intro map_of_is_SomeI) (auto simp: distinct_map_filter dest: map_of_SomeD)
    then show ?thesis using y r' by (auto simp: kept_or_over_def alive_def distinct_map_filter)
  qed (use y in \<open>auto simp: kept_or_over_def\<close>)
  have rest: "keeps ?R (on_db env ''expire metrics'' f)" "keeps ?R (on_db env ''expire logs'' f)"
    if "\<And>q. q_traces (snd (f q)) = q_traces q" for f :: "queue \<Rightarrow> unit \<times> queue"
    using that by (intro keeps_on_db; simp add: kept_or_over_def alive_def)+
  show ?thesis
  proof (rule keepsI)
    fix y assume y: "?R y"
    then have now: "x_now y = n" by simp
    have "keeps ?R (bnd (on_db env ''expire traces'' (\<lambda>q. ((), q\<lparr>q_traces := snd (delete_expired ''finished_at'' (Fin (n - TRACE_RETENTION_SECONDS)) (q_traces q))\<rparr>))) (\<lambda>_.
        bnd (on_db env ''expire metrics'' (\<lambda>q. ((), q\<lparr>q_metrics := snd (delete_expired ''observed_at'' (Fin (n - METRIC_RETENTION_SECONDS)) (q_metrics q))\<rparr>))) (\<lambda>_.
        on_db env ''expire logs'' (\<lambda>q. ((), q\<lparr>q_logs := snd (delete_expired ''observed_at'' (Fin (n - LOG_RETENTION_SECONDS)) (q_logs q))\<rparr>)))))"
      by (intro keeps_bnd keeps_on_db rest; simp add: delete_expired_def cut; fail)
    from keepsD[OF this y] show "?R (snd (delete_expired_rows env y))"
      by (auto simp: delete_expired_rows_def catch_run bnd_run[of "read_st x_now"] read_run ret_run now split: prod.splits sum.splits)
  qed
qed

abbreviation over_in :: "rat \<Rightarrow> rtext \<Rightarrow> row \<Rightarrow> exporter \<Rightarrow> bool" where
  "over_in n k r y \<equiv> x_now y = n \<and> kept_or_over n k r y"

lemma turn_polls:
  assumes "x_now x = n" "alive k (cell_of r ''finished_at'') x"
  shows "over_in n k r (snd ((if b then bnd (poll_cycle env answer) (\<lambda>_. modify_st (\<lambda>x. x\<lparr>x_last_poll := x_now x\<rparr>)) else ret ()) x))"
proof (cases b)
  case True
  have "keeps (over_in n k r) (modify_st (\<lambda>x. x\<lparr>x_last_poll := x_now x\<rparr>))"
    by (rule keeps_modify) (simp add: kept_or_over_def alive_def)
  then have "over_in n k r (snd (bnd (poll_cycle env answer) (\<lambda>_. modify_st (\<lambda>x. x\<lparr>x_last_poll := x_now x\<rparr>)) x))"
    using poll_keeps[OF assms, of env answer]
    by (intro bnd_after[where P = "kept_or_flushed n k (cell_of r ''finished_at'')" and R = "over_in n k r"]) (auto simp: kept_or_flushed_def kept_or_over_def)
  with True show ?thesis by simp
qed (use assms in \<open>simp add: ret_run kept_or_over_def\<close>)

lemma turn_expires:
  "keeps (over_in n k r) (if b then bnd (delete_expired_rows env) (\<lambda>_. modify_st (\<lambda>x. x\<lparr>x_last_delete := x_now x\<rparr>)) else ret ())"
  by (intro pres_intros expire_keeps keeps_modify) (simp add: kept_or_over_def alive_def)

text \<open>C24: In a turn of the exporter a row leaves the queue only when there is no destination at all, or
  when it was finished longer ago than a row is kept; a row that is still running stays.\<close>

theorem nothing_is_lost_unexported:
  assumes "distinct (map fst (q_traces (x_queue x)))" "map_of (q_traces (x_queue x)) k = Some r"
    and "map_of (q_traces (x_queue (snd (export_turn env answer x)))) k = None"
  shows "x_traces (snd (export_turn env answer x)) = [] \<or>
    cell_of r ''finished_at'' \<noteq> Null \<and> is_expired ''finished_at'' (Fin (x_now x - TRACE_RETENTION_SECONDS)) r"
proof -
  have alive: "alive k (cell_of r ''finished_at'') x" using assms(1,2) by (simp add: alive_def)
  have tick: "keeps (kept_or_over (x_now x) k r) (modify_st (\<lambda>x. x\<lparr>x_now := x_now x + 1\<rparr>))"
    by (rule keeps_modify) (simp add: kept_or_over_def alive_def)
  have late: "kept_or_over (x_now x) k r (snd (bnd (if b then bnd (delete_expired_rows env) (\<lambda>_. modify_st (\<lambda>x. x\<lparr>x_last_delete := x_now x\<rparr>)) else ret ()) (\<lambda>_.
      modify_st (\<lambda>x. x\<lparr>x_now := x_now x + 1\<rparr>)) y))" if "over_in (x_now x) k r y" for b y
    using keepsD[OF turn_expires[of "x_now x" k r b env] that] tick
    by (intro bnd_after[where P = "over_in (x_now x) k r" and R = "kept_or_over (x_now x) k r"]) auto
  obtain res y where y: "(if POLL_INTERVAL_SECONDS \<le> x_now x - x_last_poll x
      then bnd (poll_cycle env answer) (\<lambda>_. modify_st (\<lambda>x. x\<lparr>x_last_poll := x_now x\<rparr>)) else ret ()) x = (res, y)" by fastforce
  have over: "over_in (x_now x) k r y" using turn_polls[OF refl alive, of "POLL_INTERVAL_SECONDS \<le> x_now x - x_last_poll x" env answer] unfolding y by simp
  have "kept_or_over (x_now x) k r (snd (export_turn env answer x))"
  proof (cases res)
    case (Inl e)
    then have "snd (export_turn env answer x) = y" by (simp only: export_turn_def bnd_run read_run y prod.case sum.case snd_conv)
    with over show ?thesis by simp
  next
    case (Inr u)
    have "export_turn env answer x = bnd (if DELETE_INTERVAL_SECONDS \<le> x_now y - x_last_delete y
        then bnd (delete_expired_rows env) (\<lambda>_. modify_st (\<lambda>x. x\<lparr>x_last_delete := x_now x\<rparr>)) else ret ()) (\<lambda>_.
        modify_st (\<lambda>x. x\<lparr>x_now := x_now x + 1\<rparr>)) y"
      unfolding export_turn_def bnd_read by (rule bnd_Inr, rule y[unfolded Inr])
    with late[OF over] show ?thesis by simp
  qed
  with assms(3) show ?thesis by (auto simp: kept_or_over_def alive_def is_expired_def)
qed

section \<open>New destinations\<close>

lemma build_all_run:
  "build_all env raw x = (case (build_exporters env ''traces'' raw, build_exporters env ''metrics'' raw, build_exporters env ''logs'' raw) of
     (Inl e, _, _) \<Rightarrow> (Inl e, x)
   | (Inr ts, ms, ls) \<Rightarrow> (let y = x\<lparr>x_builds := x_builds x + 1,
         x_recorders := map (\<lambda>(name, _). (name, x_builds x + 1)) (filter (\<lambda>(_, d). od_protocol d \<noteq> ''grpc'') ts)\<rparr>
       in case (ms, ls) of (Inl e, _) \<Rightarrow> (Inl e, y) | (Inr _, Inl e) \<Rightarrow> (Inl e, y) | (Inr ms, Inr ls) \<Rightarrow> (Inr (ts, ms, ls), y)))"
  by (simp add: build_all_def build_trace_exporters_def bnd_run of_res_run modify_run ret_run Let_def split: sum.split)

text \<open>What a text of destinations gives every signal, when exporters can be built for all of them.\<close>

definition new_sinks :: "xenv \<Rightarrow> rtext option \<Rightarrow> sinks option" where
  "new_sinks env raw = (case configured_destinations raw of
       Inr (Some ds) \<Rightarrow> if list_all (\<lambda>signal. list_all (xe_builds env signal) ds) [''traces'', ''metrics'', ''logs'']
         then Some (map (\<lambda>d. (od_name d, d)) ds) else None
     | _ \<Rightarrow> None)"

text \<open>C26: Changed destinations are taken all or not at all: either every signal goes to exactly the
  destinations of the new text and the text is remembered, or every signal goes on to the old ones
  and the text is tried again.\<close>

theorem reload_is_all_or_nothing:
  "\<exists>x'. reload_destinations env (Inr raw) x = (Inr (), x') \<and>
     (if raw = x_raw x then x' = x
      else case new_sinks env raw of
        Some sinks \<Rightarrow> x_raw x' = raw \<and> x_traces x' = sinks \<and> x_metrics x' = sinks \<and> x_logs x' = sinks
      | None \<Rightarrow> x_raw x' = x_raw x \<and> x_traces x' = x_traces x \<and> x_metrics x' = x_metrics x \<and> x_logs x' = x_logs x)"
proof -
  have build: "build_exporters env signal raw = (case configured_destinations raw of Inl e \<Rightarrow> Inl e
      | Inr None \<Rightarrow> Inl (RuntimeError ''otel.destinations is required'')
      | Inr (Some ds) \<Rightarrow> if list_all (xe_builds env signal) ds then Inr (map (\<lambda>d. (od_name d, d)) ds) else Inl (RuntimeError ''exporter''))" for signal
    by (auto simp: build_exporters_def res_bnd_def split: sum.split option.split)
  show ?thesis
    by (cases "configured_destinations raw"; cases "projr (configured_destinations raw)")
      (simp_all add: reload_destinations_def bnd_run read_run catch_run ret_run modify_run build_all_run build use_exporters_def new_sinks_def Let_def)
qed

section \<open>Examples\<close>

definition demo_xenv :: xenv where
  "demo_xenv = \<lparr>xe_builds = (\<lambda>signal _. signal \<noteq> ''metrics''), xe_encodes = (\<lambda>_. None), xe_spans = (\<lambda>_ _ _. Taken 0),
     xe_metrics = (\<lambda>_ _ _. Refused), xe_logs = (\<lambda>_ _ _. Raises), xe_db_fails = (\<lambda>_ _. False)\<rparr>"

definition demo_destination :: otel_destination where
  "demo_destination = \<lparr>od_name = ''d'', od_protocol = ''http'', od_endpoint = ''e'', od_headers = [], od_insecure = False, od_timeout = None\<rparr>"

definition demo_span_row :: "string \<Rightarrow> row" where
  "demo_span_row session = [(''session_id'', CText (Raw session)), (''finished_at'', CInt 1), (''sent'', CInt 0)]"

definition demo_exporter :: "rat \<Rightarrow> table \<Rightarrow> exporter" where
  "demo_exporter now rows = \<lparr>x_queue = \<lparr>q_traces = rows, q_metrics = [], q_logs = []\<rparr>, x_now = now,
     x_traces = [(''d'', demo_destination)], x_metrics = [], x_logs = [], x_raw = None, x_recorders = [(''d'', 1)], x_builds = 1, x_traces_build = 1,
     x_failures = [], x_healthy = [], x_idle_traces = \<lparr>id_polls = 0, id_warned = None\<rparr>, x_idle_metrics = \<lparr>id_polls = 0, id_warned = None\<rparr>,
     x_idle_logs = \<lparr>id_polls = 0, id_warned = None\<rparr>, x_last_poll = 0, x_last_delete = 0, x_running = True\<rparr>"

definition demo_rows :: table where "demo_rows = [(Raw ''f0'', demo_span_row ''?''), (Raw ''f1'', demo_span_row ''ab'')]"

theorem sent_only_when_accepted_witness:
  "\<exists>batch s. s \<in> set batch \<and> stands_for demo_xenv (Raw ''f1'', demo_span_row ''ab'') s \<and>
     (\<forall>sink\<in>set (x_traces (demo_exporter 9 demo_rows)). takes_spans demo_xenv (demo_exporter 9 demo_rows) batch sink)"
proof -
  have "map_of (q_traces (x_queue (snd (trace_send_pending demo_xenv (demo_exporter 9 demo_rows))))) (Raw ''f1'') =
    Some [(''session_id'', CText (Raw ''ab'')), (''finished_at'', CInt 1), (''sent'', CInt 1)]" by code_simp
  then show ?thesis
    by (rule sent_only_when_accepted[of "demo_exporter 9 demo_rows", rotated 3]) (code_simp+)
qed

theorem bad_row_blocks_nobody_witness:
  "\<exists>x' r'. trace_send_pending demo_xenv (demo_exporter 9 demo_rows) = (Inr (), x') \<and> map_of (q_traces (x_queue x')) (Raw ''f1'') = Some r' \<and> \<not> unsent r'"
proof -
  have "isl (exportable demo_xenv (Raw ''f1'', demo_span_row ''ab'')) = False" by code_simp
  then have ok: "case exportable demo_xenv (Raw ''f1'', demo_span_row ''ab'') of Inl _ \<Rightarrow> False | Inr _ \<Rightarrow> True"
    by (cases "exportable demo_xenv (Raw ''f1'', demo_span_row ''ab'')") auto
  have "(Raw ''f1'', demo_span_row ''ab'') \<in> set (pending_traces (q_traces (x_queue (demo_exporter 9 demo_rows))))"
    "distinct (map fst (q_traces (x_queue (demo_exporter 9 demo_rows))))" by code_simp+
  from bad_row_blocks_nobody[OF this(2) _ _ _ this(1), of demo_xenv] ok show ?thesis
    by (auto simp: demo_exporter_def demo_xenv_def takes_spans_def split: sum.splits)
qed

theorem nothing_is_lost_unexported_witness:
  "x_traces (snd (export_turn demo_xenv (Inr None) (demo_exporter 9999 [(Raw ''f1'', demo_span_row ''?'')]))) = [] \<or>
    cell_of (demo_span_row ''?'') ''finished_at'' \<noteq> Null \<and>
    is_expired ''finished_at'' (Fin (x_now (demo_exporter 9999 [(Raw ''f1'', demo_span_row ''?'')]) - TRACE_RETENTION_SECONDS)) (demo_span_row ''?'')"
  by (rule nothing_is_lost_unexported[where k = "Raw ''f1''"]) code_simp+

text \<open>A reload that fails after the span exporters were built leaves the old ones running, but with the
  recorders of the new: what the old destination rejects is then marked sent.\<close>

definition rejecting :: xenv where
  "rejecting = demo_xenv\<lparr>xe_spans := (\<lambda>_ _ _. Taken 1)\<rparr>"

definition new_text :: rtext where
  "new_text = Doc (VList [VDict [(''name'', VStr ''d''), (''protocol'', VStr ''http''), (''endpoint'', VStr ''e'')]])"

definition one_row :: exporter where "one_row = demo_exporter 9 [(Raw ''f1'', demo_span_row ''ab'')]"

lemma failed_reload_loses_rejections:
  "map_option unsent (map_of (q_traces (x_queue (snd (trace_send_pending rejecting one_row)))) (Raw ''f1'')) = Some True \<and>
   map_option unsent (map_of (q_traces (x_queue (snd (trace_send_pending rejecting (snd (reload_destinations rejecting (Inr (Some new_text)) one_row)))))) (Raw ''f1'')) = Some False"
  by (rule conjI) code_simp+

text \<open>A row whose placeholder was built has its count cleared although the destination refused the batch, so
  the next placeholder comes only after as many failures again.\<close>

definition refusing :: xenv where
  "refusing = demo_xenv\<lparr>xe_encodes := (\<lambda>s. if sp_name s = text_cell ''unknown_agent'' then Some ''bad'' else None), xe_spans := (\<lambda>_ _ _. Refused)\<rparr>"

lemma refused_placeholder_starts_over:
  "let x' = snd (trace_send_pending refusing (one_row\<lparr>x_failures := [(Raw ''f1'', 4)]\<rparr>)) in
     map_option unsent (map_of (q_traces (x_queue x')) (Raw ''f1'')) = Some True \<and> failures_of x' (Raw ''f1'') = 0"
  by code_simp

text \<open>A sample whose conversion raises is neither exported nor marked, and is read again in every poll.\<close>

definition odd_sample :: exporter where
  "odd_sample = (demo_exporter 9 [])\<lparr>x_metrics := [(''d'', demo_destination)], x_queue := \<lparr>q_traces = [],
     q_metrics = [(Raw ''m1'', [(''metrics'', CHash [(''cpu_percent'', Raw ''1'')]), (''observed_at'', text_cell ''now''), (''sent'', CInt 0)])], q_logs = []\<rparr>\<rparr>"

lemma raising_sample_stays:
  "pending_rows MAX_SPANS_PER_POLL (q_metrics (x_queue (snd (metric_send_pending demo_xenv odd_sample)))) = q_metrics (x_queue odd_sample)"
  by code_simp

end
