(* ===== verification/Export_Destinations.thy ===== *)
theory Export_Destinations
  imports Telemetry_Export Schema_Runtime Config_Publish
begin

text \<open>
  The telemetry destinations from the manifest to the exporter: what the Global Controller writes to
  Redis for an accepted manifest, the exporter takes, as the destinations the manifest declares.
\<close>

section \<open>The entries\<close>

lemma validated_entries:
  "clean (otel_entries env i names es) ds \<Longrightarrow> validated names (map (expand_env_value (se_environ env)) es) = Inr ds"
proof (induction es arbitrary: i names ds)
  case (Cons entry rest)
  obtain e where e: "entry = VDict e" using Cons.prems by (cases entry) (auto simp: clean_simps Let_def)
  have x: "expand_env_value (se_environ env) entry = VDict (expanded_entry env e)" by (simp add: e expanded_entry_def)
  let ?d = "normalize_destination (expanded_entry env e)"
  obtain ds' where "od_name ?d \<notin> set names" "clean (otel_entries env (Suc i) (od_name ?d # names) rest) ds'" "ds = ?d # ds'"
    "destination_problems (expanded_entry env e) = []"
    using Cons.prems by (auto simp: e clean_simps Let_def clean_def[of "((), map (\<lambda>(key, m). (field_of p key, m)) q)" for p q] split: if_splits)
  with Cons.IH[of "Suc i" "od_name ?d # names" ds'] show ?case unfolding list.map x by (simp add: res_bnd_def)
qed (simp add: clean_simps)

lemma validated_length: "validated names vs = Inr ds \<Longrightarrow> length ds = length vs"
  by (induction vs arbitrary: names ds) (auto simp: Let_def elim!: res_bnd_InrE split: val.splits if_splits)

lemma configured_entries:
  assumes "clean (otel_entries env 0 [] (e # es)) ds"
  shows "configured_destinations (Some (Doc (VList (map (expand_env_value (se_environ env)) (e # es))))) = Inr (Some ds)"
  using validated_entries[OF assms] by (simp add: configured_destinations_def)

lemma clean_otel_cases:
  assumes "clean (otel env node) o1"
  shows "dget node ''otel'' = VNone \<and> o1 = None \<or>
    (\<exists>block. dget node ''otel'' = VDict block \<and> fst ` set block \<subseteq> {''destinations''} \<and>
       (dget block ''destinations'' = VNone \<and> o1 = Some [] \<or>
        (\<exists>e es ds. dget block ''destinations'' = VList (e # es) \<and> clean (otel_entries env 0 [] (e # es)) ds \<and> o1 = Some ds)))"
proof -
  from assms obtain m where m: "clean (mapping node ''otel'' [] [''destinations'']) m"
    "clean (case m of None \<Rightarrow> accept None
     | Some block \<Rightarrow> (case dget block ''destinations'' of
           VNone \<Rightarrow> accept (Some [])
         | VList (e # es) \<Rightarrow> chk_bnd (otel_entries env 0 [] (e # es)) (\<lambda>ds. accept (Some ds))
         | _ \<Rightarrow> reject ''otel.destinations'' ''must be a non-empty list'' (Some []))) o1"
    by (auto simp: otel_def clean_bnd)
  show ?thesis
  proof (cases m)
    case (Some block)
    then have b: "dget node ''otel'' = VDict block" "fst ` set block \<subseteq> {''destinations''}" using m(1) by (auto simp: clean_mapping)
    show ?thesis
    proof (cases "dget block ''destinations''")
      case (VList l)
      then show ?thesis using m(2) Some b by (cases l) (auto simp: clean_simps simp del: otel_entries.simps)
    qed (use m(2) Some b in \<open>auto simp: clean_simps\<close>)
  qed (use m in \<open>auto simp: clean_simps clean_mapping\<close>)
qed

section \<open>The way to the exporter\<close>

text \<open>The destinations in effect: the local dashboard where the manifest declares none.\<close>

definition effective_destinations :: "manifest \<Rightarrow> otel_destination list" where
  "effective_destinations m = (case mn_otel m of
       Some (d # ds) \<Rightarrow> d # ds
     | _ \<Rightarrow> [\<lparr>od_name = ''local'', od_protocol = ''http'', od_endpoint = ''http://host.docker.internal:3000'',
         od_headers = [], od_insecure = False, od_timeout = None\<rparr>])"

lemma local_dashboard:
  "expand_env_value E LOCAL_DASHBOARD_DESTINATION = LOCAL_DASHBOARD_DESTINATION"
  by (simp add: LOCAL_DASHBOARD_DESTINATION_def expand_plain del: expand_refs.simps)

lemma local_configured:
  "configured_destinations (Some (Doc (VList [LOCAL_DASHBOARD_DESTINATION]))) =
     Inr (Some [\<lparr>od_name = ''local'', od_protocol = ''http'', od_endpoint = ''http://host.docker.internal:3000'',
       od_headers = [], od_insecure = False, od_timeout = None\<rparr>])"
  by code_simp

lemma plain_otel_destinations:
  assumes "E ''CANYONOS_TARGET'' \<noteq> Some ''kubernetes''" "E ''CANYONOS_DASHBOARD_OTLP_ENDPOINT'' = None"
    "otel_destinations E cfg = Inr (Some dests)"
  shows "expand_env_value E (val_or (dget cfg ''destinations'') (VList [LOCAL_DASHBOARD_DESTINATION])) = VList dests"
  using assms by (auto simp: otel_destinations_def Let_def split: val.splits if_splits)

lemma config_keeps_otel:
  assumes "load_config (VDict d) = Inr (config, specs)"
  shows "dget_or config ''otel'' v = dget_or d ''otel'' v"
  using assms by (auto simp: load_config_def dget_or_def update_conv' split: if_splits option.splits val.splits sum.splits)


definition demo_otel :: dict where
  "demo_otel = demo_document [(''otel'', VDict [(''destinations'', VList [VDict
     [(''name'', VStr ''${M}''), (''protocol'', VStr ''HTTP''), (''endpoint'', VStr ''http://c:4318'')]])])]"

definition demo_dests :: "val list" where
  "demo_dests = [VDict [(''name'', VStr ''Writer''), (''protocol'', VStr ''HTTP''), (''endpoint'', VStr ''http://c:4318'')]]"

lemma demo_otel_runs:
  "map_sum id mn_otel (load_manifest demo_senv (VDict demo_otel)) = Inr (Some [\<lparr>od_name = ''Writer'', od_protocol = ''http'',
     od_endpoint = ''http://c:4318'', od_headers = [], od_insecure = False, od_timeout = None\<rparr>])"
  "map_sum id (\<lambda>(c, _). res_bnd (otel_config c) (otel_destinations (se_environ demo_senv)))
     (load_config (expand_env_value (se_environ demo_senv) (VDict demo_otel))) = Inr (Inr (Some demo_dests))"
  by code_simp+


end
