(* ===== verification/Endpoint_App.thy ===== *)
theory Endpoint_App
  imports Future_Calls Replica_Startup Replica_Cleanup
begin

text \<open>
  The HTTP endpoint of a deployment (\<open>endpoint/app.py\<close>): a call comes in as \<open>POST /<method>\<close> and becomes
  a Future, its result is read at \<open>GET /status/<request_id>\<close>, and \<open>POST /answer/<request_id>\<close> answers a
  question the request waits on. The state is that of the endpoint's own Local Controller, whose Redis
  the workers share. A handler that raises is answered by Flask with a 500. The dashboard's database is
  an argument: the row it gives for a request.
\<close>

section \<open>Requests and responses\<close>

record http =
  h_code :: int
  h_body :: dict

record app =
  ap_agent :: string
  ap_method :: string
  ap_arguments :: "string list"

definition json_error :: "int \<Rightarrow> string \<Rightarrow> http" where
  "json_error code why = \<lparr>h_code = code, h_body = [(''error'', VStr why)]\<rparr>"

text \<open>An empty body has no arguments.\<close>

definition request_body :: "rtext \<Rightarrow> http + dict" where
  "request_body body =
     (if body = Raw [] then Inr []
      else case loads body of
          None \<Rightarrow> Inl (json_error 400 ''Invalid JSON in request body'')
        | Some (VDict kwargs) \<Rightarrow> Inr kwargs
        | Some _ \<Rightarrow> Inl (json_error 400 ''Request body must be a JSON object''))"

section \<open>A call\<close>

definition missing_arguments :: "app \<Rightarrow> dict \<Rightarrow> string list" where
  "missing_arguments app kwargs = filter (\<lambda>n. n \<notin> fst ` set kwargs) (ap_arguments app)"

definition queue_call :: "lenv \<Rightarrow> app \<Rightarrow> string \<Rightarrow> string \<Rightarrow> dict \<Rightarrow> dict \<Rightarrow> http lstep" where
  "queue_call env app rid fid ctx kwargs =
     bnd (if ctx \<noteq> [] then rtell (rd_set (request_key rid ''context'') (Doc (VDict ctx))) else ret ()) (\<lambda>_.
     bnd (new_future env fid rid [] (ap_agent app) (ap_method app) (map (\<lambda>(k, v). (k, RVal v)) kwargs)) (\<lambda>f.
     bnd (rtell (rd_set (request_key rid ''future'') (Raw (f_id f)))) (\<lambda>_.
     ret (case f_refusal f of
         Some rf \<Rightarrow> \<lparr>h_code = 403, h_body = [(''request_id'', VStr rid), (''error'', VStr (message rf)), (''error_name'', VStr (error_name rf))]\<rparr>
       | None \<Rightarrow> \<lparr>h_code = 202, h_body = [(''request_id'', VStr rid)]\<rparr>))))"

text \<open>\<open>rid\<close> and \<open>fid\<close> are the random ids of the request and its Future.\<close>

definition post_call :: "lenv \<Rightarrow> app \<Rightarrow> string \<Rightarrow> string \<Rightarrow> rtext \<Rightarrow> http lstep" where
  "post_call env app rid fid body = (case request_body body of
       Inl refused \<Rightarrow> ret refused
     | Inr kwargs \<Rightarrow> (case dget_or kwargs ''_context'' (VDict []) of
           VDict ctx \<Rightarrow> (let kwargs = AList.delete ''_context'' kwargs; missing = missing_arguments app kwargs in
             if missing \<noteq> []
             then ret (json_error 400 (''Missing argument(s) '' @ join '', '' missing @ ''; POST /'' @ ap_method app @ '' takes '' @ join '', '' (ap_arguments app)))
             else queue_call env app rid fid ctx kwargs)
         | _ \<Rightarrow> ret (json_error 400 ''_context must be a JSON object'')))"

section \<open>An answer\<close>

text \<open>One try of the RPC: it may arrive although its reply is lost.\<close>

definition call_write_result :: "lenv \<Rightarrow> hash \<Rightarrow> unit lstep" where
  "call_write_result env payload =
     bnd draw (\<lambda>i.
     let x = a_wire env i (a_address env) in
     bnd (if x = Delivered \<or> a_reached env i then WriteResult env (Some payload) else ret ()) (\<lambda>_.
     if x = Delivered then ret () else raise (RuntimeError (wire_details x))))"

definition post_answer :: "lenv \<Rightarrow> string \<Rightarrow> rtext \<Rightarrow> http lstep" where
  "post_answer env rid body = (case request_body body of
       Inl refused \<Rightarrow> ret refused
     | Inr kwargs \<Rightarrow>
         bnd (rdo (rd_rpop (request_key rid ''waiting''))) (\<lambda>waiting.
         case waiting of
           None \<Rightarrow> ret (json_error 409 (''Request '' @ rid @ '' is not waiting for input''))
         | Some t \<Rightarrow>
             bnd (of_res (waiting_id t)) (\<lambda>fid.
             bnd (read_st l_now) (\<lambda>now.
             bnd (call_write_result env [(''future_id'', Raw fid), (''result'', Doc (VDict kwargs)), (''finished_at'', Doc (VFloat (Fin now)))]) (\<lambda>_.
             ret \<lparr>h_code = 202, h_body = [(''request_id'', VStr rid)]\<rparr>)))))"

section \<open>The status of a request\<close>

text \<open>What the dashboard has of a request: the output, the status and the message of its root span.\<close>

type_synonym span_row = "rtext option \<times> string \<times> rtext option"
type_synonym outcome_record = "(string \<times> rtext option) list"

definition record_from_dashboard :: "span_row option \<Rightarrow> outcome_record" where
  "record_from_dashboard row = (case row of
       None \<Rightarrow> []
     | Some (output, code, why) \<Rightarrow>
         if code = ''STATUS_CODE_ERROR'' then [(''failed'', Some (Doc (VInt 1))), (''error_message'', why)]
         else [(''result'', output)])"

definition some_fields :: "hash \<Rightarrow> outcome_record" where
  "some_fields h = map (\<lambda>(k, t). (k, Some t)) h"

definition text_val :: "rtext option \<Rightarrow> val" where
  "text_val t = (case t of None \<Rightarrow> VNone | Some t \<Rightarrow> VStr (shown (Some t)))"

definition got :: "outcome_record \<Rightarrow> string \<Rightarrow> rtext option" where
  "got record k = (case map_of record k of None \<Rightarrow> None | Some t \<Rightarrow> t)"

definition status_reply :: "string \<Rightarrow> outcome_record \<Rightarrow> rtext list \<Rightarrow> exn + http" where
  "status_reply rid record oldest =
     (let reply = (\<lambda>status more. \<lparr>h_code = 200, h_body = [(''request_id'', VStr rid), (''status'', VStr status)] @ more\<rparr>) in
      if record = [] then Inr (json_error 404 ''Request not found'')
      else if got record ''failed'' = Some (Doc (VInt 1)) then Inr (reply ''error'' [(''error'', text_val (got record ''error''))])
      else if opt_truthy (got record ''result'') then
        (case loads (the (got record ''result'')) of None \<Rightarrow> Inl JSON_ERROR | Some v \<Rightarrow> Inr (reply ''done'' [(''result'', v)]))
      else case oldest of
          [] \<Rightarrow> Inr (reply ''pending'' [])
        | t # _ \<Rightarrow> (case loads t of
              None \<Rightarrow> Inl JSON_ERROR
            | Some (VDict d) \<Rightarrow> (case map_of d ''question'' of
                  None \<Rightarrow> Inl (KeyError ''question'')
                | Some q \<Rightarrow> Inr (reply ''input_required'' [(''question'', q)]))
            | Some _ \<Rightarrow> Inl (TypeError ''question'')))"

text \<open>The questions are only read when nothing else is known.\<close>

definition get_status :: "string \<Rightarrow> span_row option \<Rightarrow> http lstep" where
  "get_status rid row =
     bnd (rask (rd_get (request_key rid ''future''))) (\<lambda>fid.
     bnd (if opt_truthy fid then rask (\<lambda>r. some_fields (rd_hgetall (future_key (shown fid)) r))
          else bnd (rask (rd_hgetall (request_key rid ''result''))) (\<lambda>h.
            ret (if h \<noteq> [] then some_fields h else record_from_dashboard row))) (\<lambda>record.
     bnd (if record = [] \<or> got record ''failed'' = Some (Doc (VInt 1)) \<or> opt_truthy (got record ''result'') then ret []
          else rask (rd_lrange (request_key rid ''waiting'') (-1) (-1))) (\<lambda>oldest.
     of_res (status_reply rid record oldest))))"

section \<open>The process\<close>

fun comma_parts :: "string \<Rightarrow> string list" where
  "comma_parts [] = [[]]"
| "comma_parts (c # cs) = (if c = CHR '','' then [] # comma_parts cs
     else case comma_parts cs of [] \<Rightarrow> [[c]] | p # ps \<Rightarrow> (c # p) # ps)"

text \<open>The app a worker serves, from the container's environment.\<close>

definition worker_app :: "(string \<Rightarrow> string option) \<Rightarrow> exn + app" where
  "worker_app environ = (case (environ ''CANYONOS_ENDPOINT_AGENT'', environ ''CANYONOS_ENDPOINT_METHOD'', environ ''CANYONOS_ENDPOINT_ARGUMENTS'') of
       (Some agent, Some meth, Some names) \<Rightarrow> Inr \<lparr>ap_agent = agent, ap_method = meth,
         ap_arguments = filter (\<lambda>n. n \<noteq> []) (comma_parts names)\<rparr>
     | (None, _, _) \<Rightarrow> Inl (KeyError ''CANYONOS_ENDPOINT_AGENT'')
     | (_, None, _) \<Rightarrow> Inl (KeyError ''CANYONOS_ENDPOINT_METHOD'')
     | _ \<Rightarrow> Inl (KeyError ''CANYONOS_ENDPOINT_ARGUMENTS''))"

text \<open>Rounds of the wait for gunicorn: whether it has exited, and whether its port accepts. Whether it came
  to serve; \<open>None\<close>: still waiting after the rounds listed.\<close>

fun wait_serving :: "(bool \<times> bool) list \<Rightarrow> bool option" where
  "wait_serving [] = None"
| "wait_serving ((exited, accepts) # rounds) = (if exited then Some False else if accepts then Some True else wait_serving rounds)"

text \<open>\<open>main\<close> up to gunicorn's exit: the status is reported once the port accepts connections.\<close>

definition endpoint_starts :: "lenv \<Rightarrow> boot \<Rightarrow> (bool \<times> bool) list \<Rightarrow> bool option lstep" where
  "endpoint_starts env b rounds =
     bnd (start_controller env b False) (\<lambda>_.
     case wait_serving rounds of
       None \<Rightarrow> ret None
     | Some False \<Rightarrow> ret (Some False)
     | Some True \<Rightarrow> bnd (mark_ready env) (\<lambda>_. ret (Some True)))"

text \<open>After it: the exit code, given the removal time a SIGTERM set and gunicorn's own code.\<close>

definition endpoint_ends :: "lenv \<Rightarrow> rat option \<Rightarrow> int \<Rightarrow> int lstep" where
  "endpoint_ends env remove_at returncode = (case remove_at of
       Some t \<Rightarrow> bnd (drain_until t) (\<lambda>_. ret 0)
     | None \<Rightarrow> bnd (mark_failed env) (\<lambda>_. ret returncode))"

end
