(* ===== verification/Endpoint_Facts.thy ===== *)
theory Endpoint_Facts
  imports Endpoint_App
begin

text \<open>
  What a client of the endpoint can rely on: a call it sent is accounted for, the status of a finished
  request outlives its clean-up, and an answer goes to the question that was shown.
\<close>

section \<open>The status\<close>

lemma got_some [simp]: "got (some_fields h) k = map_of h k"
  by (induction h) (auto simp: got_def some_fields_def)

lemma some_fields_Nil [simp]: "some_fields h = [] \<longleftrightarrow> h = []"
  by (simp add: some_fields_def)

definition record_of_request :: "string \<Rightarrow> span_row option \<Rightarrow> redis \<Rightarrow> outcome_record" where
  "record_of_request rid row r = (let fid = rd_get (request_key rid ''future'') r in
     if opt_truthy fid then some_fields (rd_hgetall (future_key (shown fid)) r)
     else if rd_hgetall (request_key rid ''result'') r \<noteq> [] then some_fields (rd_hgetall (request_key rid ''result'') r)
     else record_from_dashboard row)"

definition finished_outcome :: "outcome_record \<Rightarrow> bool" where
  "finished_outcome record \<longleftrightarrow> got record ''failed'' = Some (Doc (VInt 1)) \<or> opt_truthy (got record ''result'')"

lemma status_run:
  assumes "\<not> l_down l"
  shows "get_status rid row l = (let record = record_of_request rid row (l_redis l) in
    (status_reply rid record (if record = [] \<or> finished_outcome record then [] else rd_lrange (request_key rid ''waiting'') (-1) (-1) (l_redis l)), l))"
  using assms by (auto simp: get_status_def bnd_run rask_run ret_run of_res_run record_of_request_def finished_outcome_def Let_def)

lemma status_same:
  assumes "record \<noteq> []" "finished_outcome record" "record' \<noteq> []"
    and "\<And>k. k \<in> {''failed'', ''result'', ''error''} \<Longrightarrow> got record' k = got record k"
  shows "status_reply rid record' os = status_reply rid record os'" "finished_outcome record'"
  using assms(1-3) assms(4)[of "''failed''"] assms(4)[of "''result''"] assms(4)[of "''error''"]
  by (auto simp: status_reply_def finished_outcome_def Let_def)

section \<open>Through the clean-up\<close>

lemma map_of_outcome: "map_of (outcome_of h) k = (if k \<in> {''result'', ''failed'', ''error'', ''error_message''} then map_of h k else None)"
  by (auto simp: outcome_of_def split: option.split)

lemma hgetall_expire_all [simp]: "rd_hgetall k (expire_all n ks r) = rd_hgetall k r"
  by (induction n ks r rule: expire_all.induct) (simp_all add: rd_expire_def rd_hgetall_def)

lemma hgetall_expire [simp]: "rd_hgetall k (rd_expire j n b r) = rd_hgetall k r"
  by (simp add: rd_expire_def rd_hgetall_def)

lemma result_stays: "request_key rid ''result'' \<notin> set (keys_to_expire rid fids)"
  by (auto simp: keys_to_expire_def request_keys_def delivered_key_def request_key_def future_key_def consumers_key_def)

lemma cleaned:
  assumes "cleanup_body env rid l = (Inr (), l')" "\<not> l_down l" "rd_smembers (request_key rid ''futures'') (l_redis l) \<noteq> []"
    and "rd_get (request_key rid ''future'') (l_redis l) = Some (Raw f0)" "f0 \<noteq> []"
    and "rd_hgetall (request_key rid ''result'') (l_redis l) = []"
  shows "\<not> l_down l'" "rd_get (request_key rid ''future'') (l_redis l') = Some (Raw f0)"
    "rd_hgetall (future_key f0) (l_redis l') = rd_hgetall (future_key f0) (l_redis l)"
    "rd_hgetall (request_key rid ''result'') (l_redis l') = hash_put (outcome_of (rd_hgetall (future_key f0) (l_redis l))) []"
  using assms by (auto simp: cleanup_body_def Let_def bnd_run rask_run rtell_run rdo_run of_res_run keep_outcome_def text_truthy_def shown_def
      hgetall_hset_multiple future_key_def request_key_def affinity_key_def split: if_splits)

text \<open>C35: The status of a finished request is the same before its clean-up and after it, at every moment while
  the keys the clean-up gave an expiry to go away in the order it set them: as long as the request's
  record is there it is read from the record, then from the outcome the clean-up kept.\<close>

theorem status_survives_cleanup:
  assumes "cleanup_body env rid l = (Inr (), l')" "\<not> l_down l" "rd_smembers (request_key rid ''futures'') (l_redis l) \<noteq> []"
    and "rd_get (request_key rid ''future'') (l_redis l) = Some (Raw f0)" "f0 \<noteq> []"
    and "finished_outcome (some_fields (rd_hgetall (future_key f0) (l_redis l)))" "rd_hgetall (request_key rid ''result'') (l_redis l) = []"
  shows "fst (get_status rid row (l'\<lparr>l_redis := rd_delete (take n (keys_to_expire rid fids)) (l_redis l')\<rparr>)) = fst (get_status rid row l)"
proof -
  let ?h = "rd_hgetall (future_key f0) (l_redis l)" and ?gone = "take n (keys_to_expire rid fids)"
  note c = cleaned[OF assms(1-5,7)]
  have t: "opt_truthy (Some (Raw f0))" "shown (Some (Raw f0)) = f0" using assms(5) by (simp_all add: opt_truthy_def text_truthy_def shown_def)
  have before: "record_of_request rid row (l_redis l) = some_fields ?h" by (simp add: record_of_request_def assms(4) t)
  have ne: "some_fields ?h \<noteq> []" using assms(6) by (auto simp: finished_outcome_def opt_truthy_def)
  define rec1 where "rec1 = record_of_request rid row (rd_delete ?gone (l_redis l'))"
  have rec1: "rec1 \<noteq> [] \<and> (\<forall>k\<in>{''failed'', ''result'', ''error''}. got rec1 k = map_of ?h k)"
  proof (cases "n \<le> 1")
    case True
    then consider "n = 0" | "n = 1" by linarith
    then have "?gone = [] \<or> ?gone = [request_key rid ''futures'']"
      by cases (simp_all add: keys_to_expire_def request_keys_def)
    then have "rd_get (request_key rid ''future'') (rd_delete ?gone (l_redis l')) = Some (Raw f0)"
      "rd_hgetall (future_key f0) (rd_delete ?gone (l_redis l')) = ?h"
      using c(2,3) by (auto simp: get_delete hgetall_delete request_key_def future_key_def)
    then show ?thesis using t ne by (simp add: rec1_def record_of_request_def)
  next
    case False
    then have "request_key rid ''future'' \<in> set ?gone"
      by (cases n; cases "n - 1") (auto simp: keys_to_expire_def request_keys_def)
    then have get: "rd_get (request_key rid ''future'') (rd_delete ?gone (l_redis l')) = None" by (simp add: get_delete)
    have "request_key rid ''result'' \<notin> set ?gone" using result_stays by (auto dest: in_set_takeD)
    then have kept: "rd_hgetall (request_key rid ''result'') (rd_delete ?gone (l_redis l')) = hash_put (outcome_of ?h) []"
      using c(4) by (simp add: hgetall_delete)
    have look: "map_of (hash_put (outcome_of ?h) []) k = map_of ?h k" if "k \<in> {''failed'', ''result'', ''error''}" for k
      using that by (auto simp: map_of_outcome map_add_def split: option.split)
    have "hash_put (outcome_of ?h) [] \<noteq> []"
    proof
      assume e: "hash_put (outcome_of ?h) [] = []"
      have "map_of ?h k = None" if "k \<in> {''failed'', ''result'', ''error''}" for k using look[OF that] unfolding e by simp
      then show False using assms(6) by (simp add: finished_outcome_def opt_truthy_def)
    qed
    then show ?thesis using kept look by (simp add: rec1_def record_of_request_def get opt_truthy_def)
  qed
  then have same: "status_reply rid rec1 os = status_reply rid (some_fields ?h) os'" "finished_outcome rec1" for os os'
    using status_same[OF ne assms(6), of rec1] by auto
  show ?thesis using rec1 same(2) assms(6) c(1) by (simp add: status_run assms(2) before rec1_def[symmetric] Let_def same(1)[of "[]" "[]"])
qed

definition finished_lc :: lc where
  "finished_lc = idle_lc (rd_hset_multiple (future_key ''f1'') [(''result'', Doc (VInt 7))]
     (rd_set (request_key ''r1'' ''future'') (Raw ''f1'') (rd_sadd (request_key ''r1'' ''futures'') [''f1''] empty_redis)))"

lemma finished_lc_redis:
  "\<not> l_down finished_lc" "rd_smembers (request_key ''r1'' ''futures'') (l_redis finished_lc) = [''f1'']"
  "rd_get (request_key ''r1'' ''future'') (l_redis finished_lc) = Some (Raw ''f1'')"
  "rd_hgetall (future_key ''f1'') (l_redis finished_lc) = [(''result'', Doc (VInt 7))]"
  "rd_hgetall (request_key ''r1'' ''result'') (l_redis finished_lc) = []"
  by (simp_all add: finished_lc_def idle_lc_def empty_redis_def rd_sadd_def rd_set_def rd_set_opts_def rd_hset_multiple_def rd_hgetall_def
      rd_smembers_def rd_get_def hash_put_def future_key_def request_key_def)

lemma finished_lc_cleaned: "fst (cleanup_body demo_lenv ''r1'' finished_lc) = Inr ()"
  by (simp add: cleanup_body_def Let_def bnd_run rask_run rtell_run rdo_run of_res_run ret_run finished_lc_redis keep_outcome_def text_truthy_def
      shown_def outcome_of_def)

theorem status_survives_cleanup_witness:
  "fst (get_status ''r1'' None ((snd (cleanup_body demo_lenv ''r1'' finished_lc))
     \<lparr>l_redis := rd_delete (take 2 (keys_to_expire ''r1'' [''f1''])) (l_redis (snd (cleanup_body demo_lenv ''r1'' finished_lc)))\<rparr>)) =
   fst (get_status ''r1'' None finished_lc)"
  by (rule status_survives_cleanup[of demo_lenv, where ?f0.0 = "''f1''"])
    (simp_all add: finished_lc_redis finished_lc_cleaned prod_eq_iff finished_outcome_def opt_truthy_def text_truthy_def)

section \<open>Answers\<close>

definition question_text :: "string \<Rightarrow> val \<Rightarrow> rtext" where
  "question_text fid q = Doc (VDict [(''future_id'', VStr fid), (''question'', q)])"

definition has_result :: "string \<Rightarrow> rtext \<Rightarrow> redis \<Rightarrow> bool" where
  "has_result fid t r \<longleftrightarrow> rd_hget (future_key fid) ''result'' r = Some t"

interpretation kept_result: reporting "has_result fid t" for fid t
  by unfold_locales (simp add: has_result_def, simp add: has_result_def,
    auto simp: has_result_def rd_hget_def hgetall_hset_multiple map_add_def)

lemma rpop_question:
  assumes "rd_lists r k = ws @ [t]"
  shows "\<exists>r'. rd_rpop k r = (Some t, r') \<and> rd_lists r' k = ws \<and> (\<forall>j f. rd_hget j f r' = rd_hget j f r)"
  using assms hget_rpop[of _ _ k r] by (simp add: rd_rpop_def)

text \<open>C34: The question the status shows is the one the next answer goes to: while a request waits, the
  status shows its oldest question, and an answer that is delivered becomes the result of that question's
  future and leaves the other questions waiting.\<close>

theorem answer_reaches_the_question:
  assumes "\<not> l_down l" "rd_lists (l_redis l) (request_key rid ''waiting'') = ws @ [question_text fid q]" "fid \<noteq> []"
    and "record_of_request rid row (l_redis l) \<noteq> []" "\<not> finished_outcome (record_of_request rid row (l_redis l))"
    and "a_wire env (l_drawn l) (a_address env) = Delivered"
  shows "\<exists>shown_status l'. get_status rid row l = (Inr shown_status, l) \<and> map_of (h_body shown_status) ''question'' = Some q \<and>
    post_answer env rid (Doc (VDict reply)) l = (Inr \<lparr>h_code = 202, h_body = [(''request_id'', VStr rid)]\<rparr>, l') \<and>
    rd_hget (future_key fid) ''result'' (l_redis l') = Some (Doc (VDict reply)) \<and>
    rd_lists (l_redis l') (request_key rid ''waiting'') = ws"
proof -
  have last: "rd_lrange (request_key rid ''waiting'') (-1) (-1) (l_redis l) = [question_text fid q]"
    using assms(2) by (simp add: rd_lrange_def Let_def)
  from rpop_question[OF assms(2)] obtain r where r: "rd_rpop (request_key rid ''waiting'') (l_redis l) = (Some (question_text fid q), r)"
    "rd_lists r (request_key rid ''waiting'') = ws" by blast
  let ?payload = "[(''future_id'', Raw fid), (''result'', Doc (VDict reply)), (''finished_at'', Doc (VFloat (Fin (l_now l))))]"
  let ?l1 = "l\<lparr>l_redis := r, l_drawn := Suc (l_drawn l)\<rparr>"
  let ?l2 = "?l1\<lparr>l_redis := rd_hset_multiple (future_key fid) ?payload r\<rparr>"
  obtain c cs where fid: "fid = c # cs" using assms(3) by (cases fid) auto
  let ?m = "fan_out_to_consumers env (Some fid) (Some (Doc (VDict reply))) False (Raw [])"
  have body: "write_body env ?payload ?l1 = (case ?m ?l2 of (Inl e, l3) \<Rightarrow> (Inl e, l3) | (Inr _, l3) \<Rightarrow> (Inr (), l3))"
    using assms(1) by (simp add: write_body_def Let_def fid bnd_run rtell_run ret_run opt_truthy_def split: sum.split prod.split)
  have k1: "keeps (kept_result.holds fid (Doc (VDict reply))) ?m" by (rule kept_result.holds_fan_out_to)
  have k2: "keeps (waiting.holds (request_key rid ''waiting'') ws) ?m" by (rule waiting.holds_fan_out_to)
  define l3 where "l3 = snd (?m ?l2)"
  have "kept_result.holds fid (Doc (VDict reply)) ?l2"
    using assms(1) by (simp add: kept_result.holds_def has_result_def rd_hget_def hgetall_hset_multiple map_add_def)
  then have "kept_result.holds fid (Doc (VDict reply)) l3" unfolding l3_def by (rule keepsD[where m = ?m, OF k1])
  then have res: "rd_hget (future_key fid) ''result'' (l_redis l3) = Some (Doc (VDict reply))"
    by (simp only: kept_result.holds_def has_result_def)
  have "waiting.holds (request_key rid ''waiting'') ws ?l2" using assms(1) r(2) by (simp add: waiting.holds_def)
  then have "waiting.holds (request_key rid ''waiting'') ws l3" unfolding l3_def by (rule keepsD[where m = ?m, OF k2])
  then have left: "rd_lists (l_redis l3) (request_key rid ''waiting'') = ws" by (simp only: waiting.holds_def)
  have "WriteResult env (Some ?payload) ?l1 = (Inr (), l3)"
    unfolding l3_def WriteResult_def by (simp add: catch_run ret_run body split: prod.split sum.split)
  then have answer: "post_answer env rid (Doc (VDict reply)) l = (Inr \<lparr>h_code = 202, h_body = [(''request_id'', VStr rid)]\<rparr>, l3)"
    using assms(1,6) r(1)
    by (simp add: post_answer_def request_body_def bnd_run rdo_run of_res_run read_run ret_run waiting_id_def question_text_def
        call_write_result_def draw_run Let_def)
  have "get_status rid row l = (status_reply rid (record_of_request rid row (l_redis l)) [question_text fid q], l)"
    using assms(4,5) by (simp add: status_run[OF assms(1)] Let_def last)
  moreover have "status_reply rid (record_of_request rid row (l_redis l)) [question_text fid q] =
    Inr \<lparr>h_code = 200, h_body = [(''request_id'', VStr rid), (''status'', VStr ''input_required''), (''question'', q)]\<rparr>"
    using assms(4,5) by (simp add: status_reply_def finished_outcome_def question_text_def Let_def)
  ultimately show ?thesis using answer res left by auto
qed

definition asking_lc :: lc where
  "asking_lc = idle_lc (rd_lpush (request_key ''r1'' ''waiting'') [question_text ''f1'' (VStr ''Which city?''), question_text ''f2'' (VInt 1)]
     (rd_hset_multiple (future_key ''f1'') [(''request_id'', Raw ''r1'')]
       (rd_set (request_key ''r1'' ''future'') (Raw ''f1'') empty_redis)))"

theorem answer_reaches_the_question_witness:
  "\<exists>shown_status l'. get_status ''r1'' None asking_lc = (Inr shown_status, asking_lc) \<and>
    map_of (h_body shown_status) ''question'' = Some (VStr ''Which city?'') \<and>
    post_answer demo_lenv ''r1'' (Doc (VDict [(''city'', VStr ''Oslo'')])) asking_lc =
      (Inr \<lparr>h_code = 202, h_body = [(''request_id'', VStr ''r1'')]\<rparr>, l') \<and>
    rd_hget (future_key ''f1'') ''result'' (l_redis l') = Some (Doc (VDict [(''city'', VStr ''Oslo'')])) \<and>
    rd_lists (l_redis l') (request_key ''r1'' ''waiting'') = [question_text ''f2'' (VInt 1)]"
proof (rule answer_reaches_the_question)
  have r: "rd_get (request_key ''r1'' ''future'') (l_redis asking_lc) = Some (Raw ''f1'')"
    "rd_hgetall (future_key ''f1'') (l_redis asking_lc) = [(''request_id'', Raw ''r1'')]"
    by (simp_all add: asking_lc_def idle_lc_def empty_redis_def rd_set_def rd_set_opts_def rd_hset_multiple_def rd_hgetall_def
        rd_get_def hash_put_def future_key_def request_key_def)
  have "record_of_request ''r1'' None (l_redis asking_lc) = [(''request_id'', Some (Raw ''r1''))]"
    by (simp add: record_of_request_def r opt_truthy_def text_truthy_def shown_def some_fields_def)
  then show "record_of_request ''r1'' None (l_redis asking_lc) \<noteq> []" "\<not> finished_outcome (record_of_request ''r1'' None (l_redis asking_lc))"
    by (simp_all add: finished_outcome_def got_def opt_truthy_def)
qed (simp_all add: asking_lc_def idle_lc_def demo_lenv_def empty_redis_def rd_set_def rd_set_opts_def rd_hset_multiple_def)

text \<open>An answer that cannot be passed on takes its question with it: it is no longer shown, and nobody has
  the answer.\<close>

lemma failed_answer_loses_the_question:
  assumes "\<not> l_down l" "rd_lists (l_redis l) (request_key rid ''waiting'') = [question_text fid q]"
    and "a_wire env (l_drawn l) (a_address env) = Unavailable" "\<not> a_reached env (l_drawn l)"
  shows "\<exists>e l'. post_answer env rid (Doc (VDict reply)) l = (Inl e, l') \<and> rd_lists (l_redis l') (request_key rid ''waiting'') = [] \<and>
    rd_hget (future_key fid) ''result'' (l_redis l') = rd_hget (future_key fid) ''result'' (l_redis l)"
proof -
  from rpop_question[of "l_redis l" _ "[]"] assms(2) obtain r where r: "rd_rpop (request_key rid ''waiting'') (l_redis l) = (Some (question_text fid q), r)"
    "rd_lists r (request_key rid ''waiting'') = []" "\<forall>j f. rd_hget j f r = rd_hget j f (l_redis l)" by force
  then show ?thesis using assms(1,3,4)
    by (simp add: post_answer_def request_body_def bnd_run rdo_run of_res_run read_run ret_run raise_run waiting_id_def question_text_def
        call_write_result_def draw_run Let_def)
qed

text \<open>A failed request the dashboard knows is reported without its error.\<close>

lemma dashboard_errors_are_null:
  "status_reply rid (record_from_dashboard (Some (output, ''STATUS_CODE_ERROR'', Some why))) os =
     Inr \<lparr>h_code = 200, h_body = [(''request_id'', VStr rid), (''status'', VStr ''error''), (''error'', VNone)]\<rparr>"
  by (simp add: status_reply_def record_from_dashboard_def got_def text_val_def Let_def)

end
