(* ===== verification/Spec2Isabelle.thy ===== *)
theory Spec2Isabelle
  imports Reconciler Replica_Startup Future_Calls Scaling_Loop Controller_Cleanup Gateway_Usage Schema_Runtime Config_Endpoint Lifecycle_Facts Export_Facts Export_Destinations Endpoint_Facts
begin

text \<open>
  CanyonOS: the runtime that runs agents as replicas on machines (\<open>src/packages/core/canyonos_core\<close>).

  The program. A deployment has a config that declares agents. The reconciler
  (\<open>reconciler/reconciler.py\<close>) compares it with what runs and starts and stops machines
  (\<open>reconciler/machine_provisioner.py\<close>), places and launches replicas of the agents on them
  (\<open>reconciler/replica_provisioner.py\<close>, \<open>replicas.py\<close>, \<open>placement.py\<close>), drains and removes replicas, and
  publishes where each agent runs (\<open>reconciler/routing.py\<close>). Every machine has a Redis. In each replica
  a Local Controller (\<open>controller/local_controller.py\<close>) takes calls from its gRPC frontend
  (\<open>controller/local_controller_frontend.py\<close>), runs those for its own agent and forwards the rest to a
  replica it picks from the published addresses; a call is a Future (\<open>controller/future.py\<close>), a hash in
  Redis that its result or failure is written to and sent to whoever waits for it. Governance
  (\<open>controller/governance.py\<close>) refuses calls by policy, by dependencies that are down, and by spend.
  The model calls an agent makes go through the LLM gateway of its replica (\<open>llm_gateway\<close>), which checks
  the model and the worst-case cost, switches models, and counts the tokens into the future's hash. The
  Global Controller (\<open>controller/global_controller.py\<close>) reads and publishes the configuration, scales the
  agents from the load the replicas report (\<open>controller/scaling.py\<close>), has finished requests cleaned up and
  queues their telemetry (\<open>controller/utils/otel_writer.py\<close>), which a process of its own sends to the
  configured destinations (\<open>otlp_exporter\<close>). The manifest schema (\<open>schema\<close>) accepts or
  refuses a config before any of it runs.

  The theories, in the order of the layers.

  \<^item> \<open>Prelude\<close>, \<open>Py_Strings\<close>, \<open>Py_Values\<close>, \<open>Py_Arith\<close>: Python's values, numbers and floats, the texts Redis stores, exceptions,
    the actions (state and exception) stateful code is written in, and the calculus \<open>keeps\<close> of what an
    action leaves true, whether it returns or raises.
  \<^item> \<open>Redis_Client\<close> (\<open>controller/utils/redis_client.py\<close>): one server's keyspace as a record, each command a
    function of it. The locale \<open>record_table\<close> has the laws of records under a key prefix.
  \<^item> \<open>Reconcile_State\<close> (\<open>reconciler/state.py\<close>, \<open>controller/utils/config_specs.py\<close>), \<open>Controller_Context\<close>
    (\<open>controller/controller_context.py\<close>: the servers, the world of commands), \<open>Placement\<close>,
    \<open>Routing_Publish\<close>, \<open>Containers\<close>, \<open>Replica_Launch\<close>, \<open>Replica_Provisioner\<close>, \<open>Machine_Provisioner\<close> and
    \<open>Reconciler\<close>: the control plane. Their state is \<open>world\<close>; the machine, Docker and provider answers are
    functions of \<open>env\<close>.
  \<^item> \<open>Governance\<close>: parsing, seeding and loading the rules, and the decisions over them. Its lemmas show that
    loaded rules are well formed, that the policy is first match with deny by default, and that the spend
    rules implement an abstract limit.
  \<^item> \<open>Replica_State\<close>, \<open>Replica_Results\<close>, \<open>Replica_Calls\<close>, \<open>Replica_Execution\<close>, \<open>Replica_Frontend\<close>,
    \<open>Replica_Drain\<close>: the Local Controller. Its state is \<open>lc\<close>: its Redis, the queue, the calls running, on
    the wire and in timers, its counters, its copy of the routing table and the rules. \<open>lenv\<close> answers for
    the network, \<open>random.choice\<close>, the agent's method and the clock of a wait. One definition is one
    operation of the class: \<open>serve\<close> a round of \<open>run\<close>, \<open>work\<close> a call of the executor, \<open>answer_call\<close> and
    \<open>fire_timer\<close> the callbacks of a forward, \<open>Execute\<close>, \<open>WriteResult\<close> and \<open>Cleanup\<close> the RPCs, \<open>metrics_tick\<close>
    a turn of the heartbeat.
  \<^item> \<open>Replica_Invariants\<close>, \<open>Replica_Accounting\<close>, \<open>Replica_Delivery\<close>, \<open>Replica_Choice\<close>, \<open>Replica_Cleanup\<close>,
    \<open>Replica_Startup\<close>: its properties, over every order of these operations (\<open>own_step\<close>, \<open>lc_step\<close>,
    \<open>reached\<close>). Three locales carry them: \<open>unaffected\<close>, the predicates no report of a result changes;
    \<open>reporting\<close>, the facts of Redis that survive recording and sending a failure; \<open>free_key\<close>, a key nobody
    else writes. \<open>Replica_Startup\<close> also holds the start and stop of a replica.
  \<^item> \<open>Future_Calls\<close> (\<open>controller/future.py\<close>, \<open>controller/utils/human_input.py\<close>): a Future, its submission to
    the Local Controller through \<open>Execute\<close> itself, and its value.
  \<^item> \<open>Endpoint_App\<close> (\<open>endpoint/app.py\<close>): the HTTP endpoint over the same state: \<open>post_call\<close> makes a Future of
    a call, \<open>get_status\<close> reads its result, \<open>post_answer\<close> answers a waiting question; the dashboard's row is an
    argument. \<open>Endpoint_Facts\<close> shows that a status outlives the clean-up of its request and that an answer
    goes to the question that was shown.

  \<^item> \<open>Gateway_Config\<close>, \<open>Gateway_Routing\<close>, \<open>Gateway_Usage\<close>, \<open>Pricing\<close> (\<open>llm_gateway\<close>): the index of models, the
    call from the agent's request to what the provider is sent (\<open>proxy_request\<close>), the relay of a stream,
    the usage read from it and what is counted. What a provider answers is an argument.
  \<^item> \<open>Scaling\<close>, \<open>Scaling_Loop\<close>: the samples, the checks of a policy and the decisions; then the turn of the
    Global Controller that collects the load, decides and sets the desired counts.
  \<^item> \<open>Telemetry_Queue\<close>, \<open>Telemetry_Delivery\<close>, \<open>Controller_State\<close>, \<open>Controller_Polling\<close>, \<open>Controller_Cleanup\<close>,
    \<open>Process_Supervisor\<close>: the rest of the Global Controller's turn (\<open>run_turn\<close>). Its state \<open>gc\<close> holds the
    world, the telemetry tables, the supervised processes and the sets of completed and announced
    requests.
  \<^item> \<open>Controller_Lifecycle\<close> (\<open>controller/global_controller.py\<close>, \<open>controller/orchestrator.py\<close>): the start and stop
    of the Global Controller with its Redis and metrics containers, and the wait for a healthy fleet.
    \<open>Lifecycle_Facts\<close> shows that Redis outlives the records in it, that a deploy reported as up is up, and
    that a start that fails is undone.
  \<^item> \<open>Telemetry_Spans\<close> (\<open>otlp_exporter/trace_convert.py\<close>, \<open>metric_convert.py\<close>, \<open>log_convert.py\<close>): what a queued
    row becomes. \<open>Telemetry_Export\<close> (\<open>otlp_exporter/otel_exporter.py\<close>): the exporter process; its state
    \<open>exporter\<close> holds the queue, the destinations of each signal, the recorders of rejected spans and the
    failures of rows, and \<open>xenv\<close> answers for the OpenTelemetry SDK, the receivers and the database.
    \<open>Export_Facts\<close> shows when a row is marked sent, that a bad row holds up no other, when a row may leave the
    queue, and what a reload takes over; \<open>Export_Destinations\<close> follows the destinations from the manifest
    through the Global Controller to the exporter.
  \<^item> \<open>Config_Env\<close>, \<open>Config_Files\<close>, \<open>Config_Publish\<close>, \<open>Config_Facts\<close>, \<open>Config_Meaning\<close>, \<open>Config_Endpoint\<close>: the
    \<open>.env\<close> file, reading the config folder, publishing it, and what a published configuration means to
    those who read it: the most specific rule decides, the files are the folder's, the dashboard's edits
    and the endpoint's port stay. A file of the folder is what the YAML reader gives for it.
  \<^item> \<open>Schema_Checks\<close>, \<open>Schema_Functions\<close>, \<open>Schema_Kubernetes\<close>, \<open>Schema_Manifest\<close>: the checks, in the monad
    \<open>chk\<close> that collects violations as the code's collector does. \<open>Schema_Facts\<close> shows that an accepted
    manifest is well formed, \<open>Schema_Runtime\<close> that the runtime reads from the same document what the
    schema saw.

  How the model stands to the code. A raise or panic is the left of a sum, an early return a branch. A
  Python float is an exact rational, an infinity or NaN: rounding is not modelled. A text in Redis is
  either JSON (\<open>Doc\<close>) or not (\<open>Raw\<close>). Expiry is recorded and never passes by itself, so what is said of a
  claim holds within its hour. \<open>time.time\<close> and \<open>time.monotonic\<close> are one clock. Loops that wait are
  recursive in what each round observes; \<open>None\<close> says that the rounds listed do not end the wait, and
  \<open>wait_ends_honestly\<close> that a round past the deadline does. \<open>fail_waiting\<close> has one round more than its list
  is long, which no step of it lengthens; \<open>send_tries\<close> and \<open>submit_tries\<close> have the eight attempts of
  \<open>call_with_retry\<close>. An operation of the Local Controller is one step: threads interleave between
  operations, not inside one, and Redis answers or fails for the whole of one.

  Not modelled: the AWS calls of the EC2 provider (answers of the environment) and the Kubernetes
  target, which hands placement to its operator; the gateway's transparent proxy and its encoding of
  boto3's events; the encoding and transport of the OpenTelemetry SDK; the stub generator, the metrics
  poller, Flask and gunicorn under the HTTP endpoint, the dashboard and the command line client, which are
  source generation, conversion and I/O around the modelled state.
\<close>

end
